(* ===== verification/L3D_Prelude.thy ===== *)
theory L3D_Prelude
  imports Complex_Main "HOL-Library.Word"
begin

text \<open>
  The development's prelude: the C integer types of the program as words, the
  non-finite-precision data (\<open>double\<close>) as rationals, NUL-terminated text as strings,
  \<open>struct timespec\<close>, and the generic lemmas on words, lists and sums that the component
  theories share. The \<open>named_theorems\<close> collections declared here are filled by the
  component theories: \<open>governor_defs\<close> with the definitions of small operations and
  \<open>u64_arith\<close> with the readings of guarded 64-bit arithmetic through \<^const>\<open>unat\<close>.
\<close>

unbundle bit_operations_syntax

section \<open>Types\<close>

text \<open>
  \<open>uint8_t\<close>, \<open>uint32_t\<close>/\<open>unsigned int\<close>, \<open>uint64_t\<close> and \<open>size_t\<close> of the LP64 target
  (\<open>SIZE_MAX = UINT64_MAX\<close>). Arithmetic on them wraps, as in C.
\<close>

type_synonym u8 = "8 word"
type_synonym u32 = "32 word"
type_synonym u64 = "64 word"
type_synonym size_t = "64 word"

abbreviation UINT64_MAX :: u64 where
  "UINT64_MAX \<equiv> - 1"

abbreviation (input) SIZE_MAX :: size_t where
  "SIZE_MAX \<equiv> - 1"

abbreviation UINT_MAX :: u32 where
  "UINT_MAX \<equiv> - 1"

text \<open>A finite C \<open>double\<close> is the rational number it denotes.\<close>

type_synonym double = rat

record timespec =
  tv_sec :: int
  tv_nsec :: int

text \<open>
  \<open>snprintf(destination, capacity, "%s", text)\<close> and \<open>copy_text\<close>: the text is cut to
  \<open>capacity - 1\<close> bytes and terminated.
\<close>

definition copy_text :: "nat \<Rightarrow> string \<Rightarrow> string" where
  "copy_text capacity text = take (capacity - 1) text"

lemma copy_text_fits [simp]: "length t < capacity \<Longrightarrow> copy_text capacity t = t"
  by (simp add: copy_text_def)

lemma length_copy_text: "0 < capacity \<Longrightarrow> length (copy_text capacity t) < capacity"
  by (simp add: copy_text_def)

named_theorems governor_defs
named_theorems u64_arith

section \<open>Words read as natural numbers\<close>

lemma unat_max64: "unat (UINT64_MAX) = 18446744073709551615"
  by (simp add: unsigned_minus_1_eq_mask mask_eq_exp_minus_1)

lemma unat_max32: "unat (UINT_MAX) = 4294967295"
  by (simp add: unsigned_minus_1_eq_mask mask_eq_exp_minus_1)

lemma unat_lt64: "unat (x :: u64) < 18446744073709551616"
  using unsigned_less [of x] by simp

lemma unat_lt32: "unat (x :: u32) < 4294967296"
  using unsigned_less [of x] by simp

lemma unat_le_max64: "unat (x :: u64) \<le> 18446744073709551615"
  using unat_lt64 [of x] by simp

lemma unat_add64 [u64_arith]:
  "unat (a :: u64) + unat b < 18446744073709551616 \<Longrightarrow> unat (a + b) = unat a + unat b"
  by (simp add: unat_word_ariths)

lemma unat_add32 [u64_arith]:
  "unat (a :: u32) + unat b < 4294967296 \<Longrightarrow> unat (a + b) = unat a + unat b"
  by (simp add: unat_word_ariths)

lemma unat_mult64 [u64_arith]:
  "unat (a :: u64) * unat b < 18446744073709551616 \<Longrightarrow> unat (a * b) = unat a * unat b"
  by (simp add: unat_word_ariths)

lemma unat_succ64:
  assumes "(n :: u64) + 1 \<noteq> 0"
  shows "unat (n + 1) = unat n + 1"
proof -
  have "unat n + 1 \<noteq> 18446744073709551616"
  proof
    assume "unat n + 1 = 18446744073709551616"
    then have "unat (n + 1) = 0" by (simp add: unat_word_ariths)
    with assms show False by (simp add: unat_eq_0)
  qed
  then show ?thesis using unat_lt64 [of n] unat_add64 [of n 1] by simp
qed

lemma unat_sub_le:
  "b \<le> (a :: 'a::len word) \<Longrightarrow> unat (a - b) = unat a - unat b"
  by (rule unat_sub)

lemma max64_sub: "unat (UINT64_MAX - x) = 18446744073709551615 - unat x"
proof -
  have "x \<le> UINT64_MAX" by (rule word_order.extremum)
  then have "unat (UINT64_MAX - x) = unat UINT64_MAX - unat x"
    by (rule unat_sub)
  then show ?thesis by (simp only: unat_max64)
qed

text \<open>The overflow guards of the code, \<open>a > MAX - b\<close> and \<open>a > MAX / b\<close>.\<close>

lemma add_guard64 [u64_arith]:
  "(a :: u64) > UINT64_MAX - b \<longleftrightarrow> 18446744073709551616 \<le> unat a + unat b"
  using unat_lt64 [of a] unat_lt64 [of b]
  by (simp add: word_less_nat_alt max64_sub) linarith

lemma mult_guard64 [u64_arith]:
  assumes "0 < (b :: u64)"
  shows "a > UINT64_MAX div b \<longleftrightarrow> 18446744073709551616 \<le> unat a * unat b"
proof -
  have b: "0 < unat b" using assms by (simp add: word_less_nat_alt)
  have "a > UINT64_MAX div b \<longleftrightarrow> 18446744073709551615 div unat b < unat a"
    by (simp add: word_less_nat_alt unat_div unat_max64)
  also have "\<dots> \<longleftrightarrow> 18446744073709551615 < unat a * unat b"
    using b by (rule div_less_iff_less_mult)
  finally show ?thesis by auto
qed

lemma word_min_le [simp]:
  "min a b \<le> (a :: 'a::len word)" "min a b \<le> b"
  by simp_all

section \<open>Sums over lists of reservations\<close>

lemma sum_list_filter_split:
  fixes f :: "'a \<Rightarrow> nat"
  shows "sum_list (map f xs) =
    sum_list (map f (filter P xs)) + sum_list (map f (filter (\<lambda>x. \<not> P x) xs))"
  by (induction xs) auto

lemma member_le_sum_nat: "x \<in> set xs \<Longrightarrow> f x \<le> sum_list (map f xs)" for f :: "'a \<Rightarrow> nat"
  by (induction xs) auto

lemma sum_list_remove:
  fixes f :: "'a \<Rightarrow> nat"
  assumes "distinct (map k xs)" and "x \<in> set xs"
  shows "sum_list (map f xs) = f x + sum_list (map f (filter (\<lambda>y. k y \<noteq> k x) xs))"
  using assms
proof (induction xs)
  case Nil
  then show ?case by simp
next
  case (Cons y ys)
  show ?case
  proof (cases "k y = k x")
    case True
    with Cons.prems have "y = x" by auto
    moreover have "filter (\<lambda>z. k z \<noteq> k x) ys = ys"
      using Cons.prems True by (auto simp: filter_id_conv image_iff)
    ultimately show ?thesis by simp
  next
    case False
    with Cons show ?thesis by auto
  qed
qed

lemma filter_key_length:
  assumes "distinct (map k xs)" and "x \<in> set xs"
  shows "length xs = Suc (length (filter (\<lambda>y. k y \<noteq> k x) xs))"
proof -
  have "sum_list (map (\<lambda>_. 1::nat) xs) =
      1 + sum_list (map (\<lambda>_. 1) (filter (\<lambda>y. k y \<noteq> k x) xs))"
    using sum_list_remove [OF assms, of "\<lambda>_. 1"] by simp
  then show ?thesis by (simp add: sum_list_triv)
qed

lemma distinct_map_filter_key: "distinct (map k xs) \<Longrightarrow> distinct (map k (filter P xs))"
  by (induction xs) auto

section \<open>List updates at an index\<close>

lemma set_list_update_subset: "set (xs[i := x]) \<subseteq> insert x (set xs)"
  by (rule set_update_subset_insert)

lemma list_all_update: "list_all P xs \<Longrightarrow> P x \<Longrightarrow> list_all P (xs[i := x])"
  using set_update_subset_insert [of xs i x] by (auto simp: list_all_iff)

end
