(* ===== verification/Resource_Types.thy ===== *)
theory Resource_Types
  imports L3D_Prelude
begin

text \<open>
  The data of the Resource Governor and its pure arithmetic
  (\<open>include/lardon3d/resource_governor.h\<close>, \<open>hardware_profile.h\<close>, \<open>resource_snapshot.h\<close>
  and the static helpers of \<open>src/resource_governor.c\<close>): the structs as records with one
  prefix per struct, the validity predicates of the API boundary, and the overflow-checked
  size computations with their reading through \<^const>\<open>unat\<close>.
\<close>

section \<open>Structs\<close>

record hardware_profile =
  hp_logical_cpu_count :: u32
  hp_memory_total_bytes :: u64
  hp_gpu_available :: bool
  hp_gpu_drm_card_index :: u32
  hp_gpu_memory_known :: bool
  hp_gpu_uses_shared_memory :: bool
  hp_gpu_memory_total_bytes :: u64

record resource_policy =
  rp_system_memory_reserve_bytes :: u64
  rp_emergency_memory_floor_bytes :: u64
  rp_gpu_memory_reserve_bytes :: u64
  rp_system_cpu_reserve :: u32
  rp_maximum_cpu_load_ratio :: double
  rp_maximum_cpu_pressure_avg10 :: double
  rp_maximum_memory_pressure_avg10 :: double
  rp_maximum_io_pressure_avg10 :: double
  rp_gpu_slot_capacity :: u32
  rp_io_slot_capacity :: u32

record resource_snapshot =
  rs_captured_at :: timespec
  rs_memory_available_bytes :: u64
  rs_gpu_memory_available_known :: bool
  rs_gpu_memory_available_bytes :: u64
  rs_cpu_load_1m :: double
  rs_cpu_pressure_known :: bool
  rs_cpu_pressure_avg10 :: double
  rs_memory_pressure_known :: bool
  rs_memory_pressure_avg10 :: double
  rs_io_pressure_known :: bool
  rs_io_pressure_avg10 :: double
  rs_swap_activity_known :: bool
  rs_swap_pages_in :: u64
  rs_swap_pages_out :: u64

text \<open>\<open>Lardon3DResourceTaskClass\<close> travels through checkpoints as a raw 32-bit code.\<close>

type_synonym task_class = u32

abbreviation (input) RESOURCE_TASK_GENERAL :: task_class where "RESOURCE_TASK_GENERAL \<equiv> 0"
abbreviation (input) RESOURCE_TASK_IMPORT :: task_class where "RESOURCE_TASK_IMPORT \<equiv> 1"
abbreviation (input) RESOURCE_TASK_CPU :: task_class where "RESOURCE_TASK_CPU \<equiv> 2"
abbreviation (input) RESOURCE_TASK_GPU :: task_class where "RESOURCE_TASK_GPU \<equiv> 3"
abbreviation (input) RESOURCE_TASK_IO :: task_class where "RESOURCE_TASK_IO \<equiv> 4"
abbreviation (input) RESOURCE_TASK_MIXED :: task_class where "RESOURCE_TASK_MIXED \<equiv> 5"

record resource_estimate =
  re_memory_fixed_bytes :: u64
  re_gpu_memory_fixed_bytes :: u64
  re_memory_bytes_per_item :: u64
  re_gpu_memory_bytes_per_item :: u64
  re_minimum_batch_size :: size_t
  re_maximum_batch_size :: size_t
  re_desired_cpu_threads :: u32
  re_desired_gpu_slots :: u32
  re_desired_io_slots :: u32
  re_task_class :: task_class

record resource_request =
  rq_memory_bytes_per_item :: u64
  rq_gpu_memory_bytes_per_item :: u64
  rq_minimum_batch_size :: size_t
  rq_preferred_batch_size :: size_t
  rq_requested_cpu_threads :: u32
  rq_io_intensive :: bool

datatype pressure = PRESSURE_GREEN | PRESSURE_YELLOW | PRESSURE_RED

datatype decision_kind =
  RESOURCE_START | RESOURCE_WAIT | RESOURCE_REDUCE_BATCH | RESOURCE_REJECT

record resource_decision =
  rd_kind :: decision_kind
  rd_batch_size :: size_t
  rd_cpu_threads :: u32
  rd_gpu_slots :: u32
  rd_io_slots :: u32
  rd_reason :: string

datatype reservation_state = RESERVATION_ACTIVE | RESERVATION_RELEASED

record reservation_info =
  ri_id :: u64
  ri_memory_bytes :: u64
  ri_gpu_memory_bytes :: u64
  ri_cpu_threads :: u32
  ri_gpu_slots :: u32
  ri_io_slots :: u32
  ri_batch_size :: size_t
  ri_task_class :: task_class
  ri_state :: reservation_state
  ri_created_at :: timespec

record availability =
  ra_memory_budget_bytes :: u64
  ra_memory_reserved_bytes :: u64
  ra_memory_available_bytes :: u64
  ra_gpu_memory_known :: bool
  ra_gpu_memory_budget_bytes :: u64
  ra_gpu_memory_reserved_bytes :: u64
  ra_gpu_memory_available_bytes :: u64
  ra_cpu_budget :: u32
  ra_cpu_reserved :: u32
  ra_cpu_available :: u32
  ra_gpu_slot_budget :: u32
  ra_gpu_slots_reserved :: u32
  ra_gpu_slots_available :: u32
  ra_io_slot_budget :: u32
  ra_io_slots_reserved :: u32
  ra_io_slots_available :: u32
  ra_active_reservations :: size_t

record memory_floors =
  mf_admission_floor :: u64
  mf_caution_floor :: u64
  mf_hard_floor :: u64
  mf_caution_is_non_escalating_band :: bool

text \<open>
  \<open>typedef enum\<close> order of \<open>Lardon3DResourcePressure\<close>: \<open>GREEN < YELLOW < RED\<close>.
\<close>

fun pressure_code :: "pressure \<Rightarrow> nat" where
  "pressure_code PRESSURE_GREEN = 0"
| "pressure_code PRESSURE_YELLOW = 1"
| "pressure_code PRESSURE_RED = 2"

instantiation pressure :: linorder
begin

definition less_eq_pressure :: "pressure \<Rightarrow> pressure \<Rightarrow> bool" where
  "less_eq_pressure p q \<longleftrightarrow> pressure_code p \<le> pressure_code q"

definition less_pressure :: "pressure \<Rightarrow> pressure \<Rightarrow> bool" where
  "less_pressure p q \<longleftrightarrow> pressure_code p < pressure_code q"

instance
proof
  fix p q r :: pressure
  show "p < q \<longleftrightarrow> p \<le> q \<and> \<not> q \<le> p"
    by (auto simp: less_eq_pressure_def less_pressure_def)
  show "p \<le> p" by (simp add: less_eq_pressure_def)
  show "p \<le> q \<Longrightarrow> q \<le> r \<Longrightarrow> p \<le> r" by (simp add: less_eq_pressure_def)
  show "p \<le> q \<Longrightarrow> q \<le> p \<Longrightarrow> p = q"
    by (cases p; cases q) (simp_all add: less_eq_pressure_def)
  show "p \<le> q \<or> q \<le> p" by (auto simp: less_eq_pressure_def)
qed

end

lemma pressure_le_simps [simp]:
  "PRESSURE_GREEN \<le> p"
  "p \<le> PRESSURE_RED"
  "(p :: pressure) < PRESSURE_RED \<longleftrightarrow> p \<noteq> PRESSURE_RED"
  by (cases p; simp add: less_eq_pressure_def less_pressure_def)+

section \<open>Validity at the API boundary\<close>

definition valid_profile :: "hardware_profile \<Rightarrow> bool" where
  "valid_profile profile \<longleftrightarrow>
     hp_logical_cpu_count profile > 0
     \<and> hp_memory_total_bytes profile > 0
     \<and> (\<not> hp_gpu_available profile \<or> hp_gpu_drm_card_index profile < 64)
     \<and> (\<not> hp_gpu_memory_known profile
         \<or> hp_gpu_available profile \<and> hp_gpu_memory_total_bytes profile > 0)"

definition valid_policy :: "hardware_profile \<Rightarrow> resource_policy \<Rightarrow> bool" where
  "valid_policy profile policy \<longleftrightarrow>
     valid_profile profile
     \<and> rp_system_memory_reserve_bytes policy < hp_memory_total_bytes profile
     \<and> rp_emergency_memory_floor_bytes policy \<le> rp_system_memory_reserve_bytes policy
     \<and> rp_system_cpu_reserve policy < hp_logical_cpu_count profile
     \<and> rp_maximum_cpu_load_ratio policy > 0
     \<and> rp_maximum_cpu_load_ratio policy \<le> 1
     \<and> rp_maximum_cpu_pressure_avg10 policy \<ge> 0
     \<and> rp_maximum_cpu_pressure_avg10 policy \<le> 100
     \<and> rp_maximum_memory_pressure_avg10 policy \<ge> 0
     \<and> rp_maximum_memory_pressure_avg10 policy \<le> 100
     \<and> rp_maximum_io_pressure_avg10 policy \<ge> 0
     \<and> rp_maximum_io_pressure_avg10 policy \<le> 100
     \<and> rp_io_slot_capacity policy > 0
     \<and> (\<not> hp_gpu_available profile \<or> rp_gpu_slot_capacity policy > 0)
     \<and> (\<not> hp_gpu_memory_known profile
         \<or> rp_gpu_memory_reserve_bytes policy < hp_gpu_memory_total_bytes profile)"

definition valid_snapshot :: "hardware_profile \<Rightarrow> resource_snapshot \<Rightarrow> bool" where
  "valid_snapshot profile snapshot \<longleftrightarrow>
     tv_sec (rs_captured_at snapshot) \<ge> 0
     \<and> tv_nsec (rs_captured_at snapshot) \<ge> 0
     \<and> tv_nsec (rs_captured_at snapshot) < 1000000000
     \<and> rs_cpu_load_1m snapshot \<ge> 0
     \<and> (\<not> rs_cpu_pressure_known snapshot
         \<or> rs_cpu_pressure_avg10 snapshot \<ge> 0 \<and> rs_cpu_pressure_avg10 snapshot \<le> 100)
     \<and> (\<not> rs_memory_pressure_known snapshot
         \<or> rs_memory_pressure_avg10 snapshot \<ge> 0 \<and> rs_memory_pressure_avg10 snapshot \<le> 100)
     \<and> (\<not> rs_io_pressure_known snapshot
         \<or> rs_io_pressure_avg10 snapshot \<ge> 0 \<and> rs_io_pressure_avg10 snapshot \<le> 100)
     \<and> (\<not> rs_gpu_memory_available_known snapshot
         \<or> \<not> hp_gpu_memory_known profile
         \<or> hp_gpu_uses_shared_memory profile
         \<or> rs_gpu_memory_available_bytes snapshot \<le> hp_gpu_memory_total_bytes profile)"

definition valid_estimate :: "resource_estimate \<Rightarrow> bool" where
  "valid_estimate e \<longleftrightarrow>
     re_minimum_batch_size e > 0
     \<and> re_maximum_batch_size e \<ge> re_minimum_batch_size e
     \<and> re_desired_cpu_threads e > 0
     \<and> re_task_class e \<ge> RESOURCE_TASK_GENERAL
     \<and> re_task_class e \<le> RESOURCE_TASK_MIXED
     \<and> (re_gpu_memory_fixed_bytes e = 0 \<and> re_gpu_memory_bytes_per_item e = 0
         \<or> re_desired_gpu_slots e > 0)"

text \<open>
  \<open>snapshot_is_fresh_locked\<close>: a snapshot from the future is stale, one at most
  \<open>LARDON3D_RESOURCE_SNAPSHOT_MAX_AGE_MILLISECONDS = 1000\<close> old is fresh. The argument
  \<open>now\<close> is the monotonic clock, or the Governor's injected one.
\<close>

definition snapshot_is_fresh :: "timespec \<Rightarrow> resource_snapshot \<Rightarrow> bool" where
  "snapshot_is_fresh now snapshot =
     (let captured = rs_captured_at snapshot in
      if tv_sec captured > tv_sec now
         \<or> tv_sec captured = tv_sec now \<and> tv_nsec captured > tv_nsec now then False
      else if tv_sec captured = tv_sec now \<and> tv_nsec captured = tv_nsec now then True
      else
        let seconds = tv_sec now - tv_sec captured;
            maximum_seconds = 1000 div 1000;
            maximum_nanoseconds = (1000 mod 1000) * 1000000
        in if seconds < maximum_seconds then True
           else if seconds > maximum_seconds then False
           else tv_nsec now - tv_nsec captured \<le> maximum_nanoseconds)"

section \<open>Checked arithmetic\<close>

definition increment_to_limit :: "u32 \<Rightarrow> u32 \<Rightarrow> u32" where
  "increment_to_limit v limit = (if v < limit then v + 1 else limit)"

definition subtract_floor :: "u64 \<Rightarrow> u64 \<Rightarrow> u64" where
  "subtract_floor v amount = (if v > amount then v - amount else 0)"

definition subtract_unsigned :: "u32 \<Rightarrow> u32 \<Rightarrow> u32" where
  "subtract_unsigned v amount = (if v > amount then v - amount else 0)"

definition minimum_uint64 :: "u64 \<Rightarrow> u64 \<Rightarrow> u64" where
  "minimum_uint64 left right = (if left < right then left else right)"

definition minimum_size :: "size_t \<Rightarrow> size_t \<Rightarrow> size_t" where
  "minimum_size left right = (if left < right then left else right)"

definition resource_size :: "u64 \<Rightarrow> u64 \<Rightarrow> size_t \<Rightarrow> u64 option" where
  "resource_size fixed per_item batch =
     (if per_item > 0 \<and> batch > UINT64_MAX div per_item then None
      else
        let variable = per_item * batch
        in if fixed > UINT64_MAX - variable then None
           else Some (fixed + variable))"

definition add_uint64 :: "u64 \<Rightarrow> u64 \<Rightarrow> u64 option" where
  "add_uint64 left right = (if left > UINT64_MAX - right then None else Some (left + right))"

definition batch_capacity :: "u64 \<Rightarrow> u64 \<Rightarrow> u64 \<Rightarrow> size_t" where
  "batch_capacity available fixed per_item =
     (if available < fixed then 0
      else if per_item = 0 then SIZE_MAX
      else
        let capacity = (available - fixed) div per_item
        in if capacity > SIZE_MAX then SIZE_MAX else capacity)"

text \<open>Each of them read as arithmetic on natural numbers.\<close>

lemma unat_subtract_floor [u64_arith]: "unat (subtract_floor v a) = unat v - unat a"
  by (simp add: subtract_floor_def unat_sub word_less_nat_alt word_le_nat_alt)

lemma unat_subtract_unsigned [u64_arith]: "unat (subtract_unsigned v a) = unat v - unat a"
  by (simp add: subtract_unsigned_def unat_sub word_less_nat_alt word_le_nat_alt)

lemma unat_minimum_size [u64_arith]: "unat (minimum_size a b) = min (unat a) (unat b)"
  by (simp add: minimum_size_def word_less_nat_alt)

lemma unat_minimum_uint64 [u64_arith]: "unat (minimum_uint64 a b) = min (unat a) (unat b)"
  by (simp add: minimum_uint64_def word_less_nat_alt)

lemma minimum_size_le [simp]: "minimum_size a b \<le> a" "minimum_size a b \<le> b"
  by (auto simp: minimum_size_def)

lemma add_uint64_Some_iff:
  "add_uint64 a b = Some c \<longleftrightarrow>
     unat a + unat b < 18446744073709551616 \<and> c = a + b"
  by (auto simp: add_uint64_def add_guard64)

lemma resource_size_Some_iff:
  "resource_size fixed per_item batch = Some bytes \<longleftrightarrow>
     unat fixed + unat per_item * unat batch < 18446744073709551616
     \<and> bytes = fixed + per_item * batch"
proof (cases "unat per_item * unat batch < 18446744073709551616")
  case True
  have g: "\<not> (per_item > 0 \<and> batch > UINT64_MAX div per_item)"
    using True mult_guard64 [of per_item batch] by (simp add: mult.commute)
  have "unat (per_item * batch) = unat per_item * unat batch"
    using True by (rule unat_mult64)
  then show ?thesis
    using g by (auto simp: resource_size_def Let_def add_guard64)
next
  case False
  then have "0 < unat per_item" by (cases "unat per_item") auto
  then have "per_item > 0" by (simp add: word_less_nat_alt)
  then have "per_item > 0 \<and> batch > UINT64_MAX div per_item"
    using False mult_guard64 [of per_item batch] by (simp add: mult.commute)
  then show ?thesis using False by (simp add: resource_size_def)
qed

lemma unat_resource_size:
  "resource_size fixed per_item batch = Some bytes \<Longrightarrow>
     unat bytes = unat fixed + unat per_item * unat batch"
  by (auto simp: resource_size_Some_iff unat_mult64 unat_add64)

lemma unat_add_uint64: "add_uint64 a b = Some c \<Longrightarrow> unat c = unat a + unat b"
  by (auto simp: add_uint64_Some_iff unat_add64)

text \<open>
  \<open>batch_capacity\<close> is the largest batch whose bytes fit: any positive batch up to it fits.
\<close>

lemma batch_capacity_fits:
  assumes "batch \<le> batch_capacity available fixed per_item" and "0 < batch"
  shows "unat fixed + unat per_item * unat batch \<le> unat available"
proof -
  have af: "fixed \<le> available"
    using assms by (auto simp: batch_capacity_def word_less_nat_alt word_le_nat_alt split: if_splits)
  show ?thesis
  proof (cases "per_item = 0")
    case True
    then show ?thesis using af by (simp add: word_le_nat_alt)
  next
    case False
    have "unat batch \<le> unat ((available - fixed) div per_item)"
      using assms(1) af False
      by (auto simp: batch_capacity_def Let_def word_le_nat_alt word_less_nat_alt split: if_splits)
    also have "\<dots> = (unat available - unat fixed) div unat per_item"
      using af by (simp add: unat_div unat_sub)
    finally have "unat batch * unat per_item \<le> unat available - unat fixed"
      by (metis div_times_less_eq_dividend le_trans mult_le_mono1)
    then show ?thesis
      using af by (simp add: word_le_nat_alt mult.commute)
  qed
qed

lemma batch_capacity_maximal:
  assumes "unat fixed + unat per_item * unat batch \<le> unat available"
  shows "batch \<le> batch_capacity available fixed per_item"
proof -
  have af: "fixed \<le> available" using assms by (simp add: word_le_nat_alt)
  show ?thesis
  proof (cases "per_item = 0")
    case True
    with af show ?thesis by (auto simp: batch_capacity_def)
  next
    case False
    then have p: "0 < unat per_item" by (simp add: unat_gt_0)
    have "unat batch * unat per_item \<le> unat available - unat fixed"
      using assms by (simp add: mult.commute)
    then have "unat batch \<le> (unat available - unat fixed) div unat per_item"
      using p by (simp add: less_eq_div_iff_mult_less_eq)
    then have "batch \<le> (available - fixed) div per_item"
      using af by (simp add: word_le_nat_alt unat_div unat_sub)
    with af False show ?thesis
      by (auto simp: batch_capacity_def Let_def not_less)
  qed
qed

section \<open>The default policy\<close>

definition GIB3 :: u64 where "GIB3 = 3 * 1024 * 1024 * 1024"
definition GIB4 :: u64 where "GIB4 = 4 * 1024 * 1024 * 1024"

definition default_host_memory_reserve :: "u64 \<Rightarrow> u64" where
  "default_host_memory_reserve memory_total =
     (if memory_total > GIB3 then GIB3
      else
        let degraded = memory_total div 4;
            degraded = (if degraded = 0 \<and> memory_total > 1 then 1 else degraded)
        in if degraded < memory_total then degraded else memory_total - 1)"

definition default_host_memory_caution :: "u64 \<Rightarrow> u64 \<Rightarrow> u64" where
  "default_host_memory_caution memory_total admission_floor =
     (if admission_floor = GIB3 then (if memory_total < GIB4 then memory_total else GIB4)
      else
        let degraded = memory_total div 3
        in if degraded > admission_floor then degraded else admission_floor)"

definition policy_default_value :: "hardware_profile \<Rightarrow> resource_policy" where
  "policy_default_value profile =
     (let cpu_reserve = (if hp_logical_cpu_count profile > 4 then 4
                         else hp_logical_cpu_count profile - 1);
          memory_reserve = default_host_memory_reserve (hp_memory_total_bytes profile)
      in \<lparr> rp_system_memory_reserve_bytes = memory_reserve,
           rp_emergency_memory_floor_bytes = memory_reserve,
           rp_gpu_memory_reserve_bytes =
             (if hp_gpu_memory_known profile then hp_gpu_memory_total_bytes profile div 8 else 0),
           rp_system_cpu_reserve = cpu_reserve,
           rp_maximum_cpu_load_ratio = 90 / 100,
           rp_maximum_cpu_pressure_avg10 = 20,
           rp_maximum_memory_pressure_avg10 = 1,
           rp_maximum_io_pressure_avg10 = 80,
           rp_gpu_slot_capacity = (if hp_gpu_available profile then 1 else 0),
           rp_io_slot_capacity = 1 \<rparr>)"

text \<open>\<open>lardon3d_resource_policy_default\<close>: \<open>None\<close> is the \<open>false\<close> return.\<close>

definition resource_policy_default :: "hardware_profile \<Rightarrow> resource_policy option" where
  "resource_policy_default profile =
     (if \<not> valid_profile profile then None
      else
        let policy = policy_default_value profile
        in if valid_policy profile policy then Some policy else None)"

lemma default_host_memory_reserve_less:
  assumes "0 < memory_total"
  shows "default_host_memory_reserve memory_total < memory_total"
proof -
  have p: "0 < unat memory_total" using assms by (simp add: word_less_nat_alt)
  have q: "unat (memory_total div 4) = unat memory_total div 4" by (simp add: unat_div)
  have "unat (memory_total - 1) = unat memory_total - 1" using p by (simp add: unat_minus_one word_greater_zero_iff unat_gt_0)
  then have m: "memory_total - 1 < memory_total" using p by (simp add: word_less_nat_alt)
  show ?thesis
    unfolding default_host_memory_reserve_def Let_def
    using m by simp
qed

lemma default_host_memory_caution_ge:
  "default_host_memory_reserve memory_total \<le>
     default_host_memory_caution memory_total (default_host_memory_reserve memory_total)"
proof (cases "default_host_memory_reserve memory_total = GIB3")
  case True
  have "memory_total > GIB3"
  proof (rule ccontr)
    assume "\<not> memory_total > GIB3"
    then have "memory_total \<le> GIB3" by simp
    moreover have "default_host_memory_reserve memory_total < memory_total \<or> memory_total = 0"
      using default_host_memory_reserve_less [of memory_total] by (auto simp: word_neq_0_conv)
    ultimately show False using True by (auto simp: default_host_memory_reserve_def Let_def GIB3_def)
  qed
  then show ?thesis using True
    by (auto simp: default_host_memory_caution_def GIB3_def GIB4_def)
next
  case False
  then show ?thesis by (auto simp: default_host_memory_caution_def Let_def)
qed

lemma resource_policy_default_valid:
  assumes "valid_profile profile"
  shows "valid_policy profile (policy_default_value profile)"
proof -
  have cpu: "0 < hp_logical_cpu_count profile" and mem: "0 < hp_memory_total_bytes profile"
    using assms by (simp_all add: valid_profile_def)
  have c: "hp_logical_cpu_count profile - 1 < hp_logical_cpu_count profile"
    using cpu by (simp add: word_less_nat_alt unat_minus_one unat_gt_0)
  have g: "x div 8 < x" if "0 < x" for x :: u64
    using that by (simp add: word_less_nat_alt unat_div)
  show ?thesis
    unfolding valid_policy_def policy_default_value_def Let_def
    using assms default_host_memory_reserve_less [OF mem] c g
    by (auto simp: valid_profile_def)
qed

end
