(* ===== verification/Cpu_Policy.thy ===== *)
theory Cpu_Policy
  imports Resource_Types "HOL-Library.Multiset"
begin

text \<open>
  The Governor's CPU partition (\<open>src/resource_governor.c\<close>, \<open>build_cpu_policy\<close> and its
  helpers): which logical CPUs the compute pool may use and which whole physical cores are
  kept for the interactive host. CPU, package and core identifiers are only compared and
  split by 64, so they are natural numbers; counts that enter the admission arithmetic keep
  their 32 bits. CPU masks are lists of sixteen 64-bit words.
\<close>

section \<open>Inputs and result\<close>

definition RESOURCE_CPU_MAX :: nat where "RESOURCE_CPU_MAX = 1024"

abbreviation (input) CPU_MASK_WORDS :: nat where "CPU_MASK_WORDS \<equiv> 16"

type_synonym cpu_mask = "u64 list"

record cpu_topology_entry =
  te_cpu_id :: nat
  te_package_id :: nat
  te_core_id :: nat

text \<open>\<open>allowed_cpu_count\<close> and \<open>topology_entry_count\<close> are the lengths of the two lists.\<close>

record cpu_topology_input =
  ti_affinity_available :: bool
  ti_topology_available :: bool
  ti_allowed_cpu_ids :: "nat list"
  ti_topology_entries :: "cpu_topology_entry list"

record cpu_policy_diagnostic =
  cp_affinity_configured :: bool
  cp_affinity_attempted :: bool
  cp_affinity_active :: bool
  cp_runtime_thread_policy_active :: bool
  cp_mesa_shader_cache_disabled :: bool
  cp_externally_constrained :: bool
  cp_compute_cpu_count :: u32
  cp_reserved_cpu_count :: u32
  cp_allowed_mask :: cpu_mask
  cp_compute_mask :: cpu_mask
  cp_reserved_mask :: cpu_mask
  cp_reason :: string
  cp_runtime_thread_policy_reason :: string

section \<open>CPU masks\<close>

definition empty_mask :: cpu_mask where
  "empty_mask = replicate CPU_MASK_WORDS 0"

definition cpu_mask_set :: "cpu_mask \<Rightarrow> nat \<Rightarrow> cpu_mask" where
  "cpu_mask_set words cpu =
     words[cpu div 64 := words ! (cpu div 64) OR push_bit (cpu mod 64) 1]"

definition cpu_mask_test :: "cpu_mask \<Rightarrow> nat \<Rightarrow> bool" where
  "cpu_mask_test words cpu = (words ! (cpu div 64) AND push_bit (cpu mod 64) 1 \<noteq> 0)"

text \<open>\<open>compute[cpu / 64] &= ~(UINT64_C(1) << (cpu % 64))\<close>\<close>

definition cpu_mask_clear :: "cpu_mask \<Rightarrow> nat \<Rightarrow> cpu_mask" where
  "cpu_mask_clear words cpu =
     words[cpu div 64 := words ! (cpu div 64) AND NOT (push_bit (cpu mod 64) 1)]"

lemma push_bit_one_bit: "bit (2 ^ n :: u64) k \<longleftrightarrow> k = n \<and> n < 64"
  by (auto simp: bit_exp_iff)

lemma cpu_mask_test_bit: "cpu_mask_test m cpu = bit (m ! (cpu div 64)) (cpu mod 64)"
  by (simp add: cpu_mask_test_def and_exp_eq_0_iff_not_bit)

lemma div_mod_64_eq: "(a :: nat) div 64 = b div 64 \<Longrightarrow> a mod 64 = b mod 64 \<Longrightarrow> a = b"
  by (metis mult_div_mod_eq)

lemma length_cpu_mask_set [simp]: "length (cpu_mask_set m c) = length m"
  by (simp add: cpu_mask_set_def)

lemma length_cpu_mask_clear [simp]: "length (cpu_mask_clear m c) = length m"
  by (simp add: cpu_mask_clear_def)

lemma length_empty_mask [simp]: "length empty_mask = 16"
  by (simp add: empty_mask_def)

lemma cpu_index_less: "c < RESOURCE_CPU_MAX \<Longrightarrow> c div 64 < 16"
  by (simp add: RESOURCE_CPU_MAX_def)

lemma cpu_mask_test_empty [simp]: "c < RESOURCE_CPU_MAX \<Longrightarrow> \<not> cpu_mask_test empty_mask c"
  by (simp add: cpu_mask_test_bit empty_mask_def cpu_index_less)

lemma cpu_mask_test_set:
  assumes "length m = 16" and "c < RESOURCE_CPU_MAX"
  shows "cpu_mask_test (cpu_mask_set m c) d \<longleftrightarrow> d = c \<or> cpu_mask_test m d"
proof (cases "d div 64 = c div 64")
  case True
  have "c div 64 < length m" using assms by (simp add: cpu_index_less)
  then show ?thesis
    using True div_mod_64_eq [of d c]
    by (auto simp: cpu_mask_test_bit cpu_mask_set_def bit_or_iff push_bit_one_bit)
next
  case False
  then have "d \<noteq> c" by auto
  with False show ?thesis by (simp add: cpu_mask_test_bit cpu_mask_set_def)
qed

lemma cpu_mask_test_clear:
  assumes "length m = 16" and "c < RESOURCE_CPU_MAX"
  shows "cpu_mask_test (cpu_mask_clear m c) d \<longleftrightarrow> d \<noteq> c \<and> cpu_mask_test m d"
proof (cases "d div 64 = c div 64")
  case True
  have "c div 64 < length m" using assms by (simp add: cpu_index_less)
  moreover have "bit (NOT (push_bit (c mod 64) (1 :: u64))) k \<longleftrightarrow> k < 64 \<and> k \<noteq> c mod 64" for k
    by (auto simp: bit_not_iff push_bit_one_bit)
  ultimately show ?thesis
    using True div_mod_64_eq [of d c]
    by (auto simp: cpu_mask_test_bit cpu_mask_clear_def bit_and_iff)
next
  case False
  then have "d \<noteq> c" by auto
  with False show ?thesis by (simp add: cpu_mask_test_bit cpu_mask_clear_def)
qed

section \<open>Count fallback and the additional reserve\<close>

definition mesa_shader_cache_disabled_value :: "string option \<Rightarrow> bool" where
  "mesa_shader_cache_disabled_value value_opt =
     (case value_opt of None \<Rightarrow> False | Some v \<Rightarrow> v = ''true'' \<or> v = ''1'')"

text \<open>
  \<open>cpu_policy_count_fallback\<close>; \<open>mesa\<close> is the environment variable
  \<open>MESA_SHADER_CACHE_DISABLE\<close> as \<open>getenv\<close> returns it.
\<close>

definition cpu_policy_count_fallback ::
    "string option \<Rightarrow> u32 \<Rightarrow> u32 \<Rightarrow> bool \<Rightarrow> string \<Rightarrow> cpu_policy_diagnostic" where
  "cpu_policy_count_fallback mesa allowed_cpu_count reserve_cpu_count constrained reason =
     (let mesa_cache_disabled = mesa_shader_cache_disabled_value mesa in
      \<lparr> cp_affinity_configured = False,
        cp_affinity_attempted = False,
        cp_affinity_active = False,
        cp_runtime_thread_policy_active = mesa_cache_disabled,
        cp_mesa_shader_cache_disabled = mesa_cache_disabled,
        cp_externally_constrained = constrained,
        cp_compute_cpu_count = allowed_cpu_count - reserve_cpu_count,
        cp_reserved_cpu_count = reserve_cpu_count,
        cp_allowed_mask = empty_mask,
        cp_compute_mask = empty_mask,
        cp_reserved_mask = empty_mask,
        cp_reason = reason,
        cp_runtime_thread_policy_reason =
          (if mesa_cache_disabled then ''worker-self-affinity-plus-mesa-disk-cache-disabled''
           else ''mesa-disk-cache-safety-policy-not-established'') \<rparr>)"

definition additional_allowed_cpu_reserve ::
    "hardware_profile \<Rightarrow> resource_policy \<Rightarrow> nat \<Rightarrow> u32" where
  "additional_allowed_cpu_reserve profile policy allowed_cpu_count =
     (let unavailable = hp_logical_cpu_count profile - of_nat allowed_cpu_count
      in if rp_system_cpu_reserve policy > unavailable
         then rp_system_cpu_reserve policy - unavailable else 0)"

section \<open>Validation of the topology input\<close>

fun allowed_mask_loop :: "nat list \<Rightarrow> cpu_mask \<Rightarrow> cpu_mask option" where
  "allowed_mask_loop [] allowed = Some allowed"
| "allowed_mask_loop (cpu # cpus) allowed =
     (if cpu \<ge> RESOURCE_CPU_MAX \<or> cpu_mask_test allowed cpu then None
      else allowed_mask_loop cpus (cpu_mask_set allowed cpu))"

fun topology_entries_loop ::
    "cpu_topology_entry list \<Rightarrow> cpu_mask \<Rightarrow> (nat \<Rightarrow> bool) \<Rightarrow> (nat \<Rightarrow> nat) \<Rightarrow> (nat \<Rightarrow> nat)
      \<Rightarrow> ((nat \<Rightarrow> nat) \<times> (nat \<Rightarrow> nat)) option" where
  "topology_entries_loop [] allowed seen package_ids core_ids = Some (package_ids, core_ids)"
| "topology_entries_loop (e # es) allowed seen package_ids core_ids =
     (if te_cpu_id e \<ge> RESOURCE_CPU_MAX \<or> \<not> cpu_mask_test allowed (te_cpu_id e)
         \<or> seen (te_cpu_id e) then None
      else topology_entries_loop es allowed (seen(te_cpu_id e := True))
             (package_ids(te_cpu_id e := te_package_id e))
             (core_ids(te_cpu_id e := te_core_id e)))"

definition cpu_topology_input_masks ::
    "cpu_topology_input \<Rightarrow> (cpu_mask \<times> (nat \<Rightarrow> nat) \<times> (nat \<Rightarrow> nat)) option" where
  "cpu_topology_input_masks input =
     (if \<not> ti_affinity_available input \<or> length (ti_allowed_cpu_ids input) = 0
         \<or> length (ti_allowed_cpu_ids input) > RESOURCE_CPU_MAX then None
      else case allowed_mask_loop (ti_allowed_cpu_ids input) empty_mask of
        None \<Rightarrow> None
      | Some allowed \<Rightarrow>
          if \<not> ti_topology_available input then Some (allowed, \<lambda>_. 0, \<lambda>_. 0)
          else if length (ti_topology_entries input) \<noteq> length (ti_allowed_cpu_ids input) then None
          else case topology_entries_loop (ti_topology_entries input) allowed
                      (\<lambda>_. False) (\<lambda>_. 0) (\<lambda>_. 0) of
            None \<Rightarrow> None
          | Some (package_ids, core_ids) \<Rightarrow> Some (allowed, package_ids, core_ids))"

lemma allowed_mask_loop_correct:
  assumes "allowed_mask_loop cpus m = Some m'" and "length m = 16"
    and "\<forall>c < RESOURCE_CPU_MAX. cpu_mask_test m c \<longleftrightarrow> c \<in> done_cpus"
    and "distinct (ds :: nat list)" and "set ds = done_cpus"
  shows "length m' = 16 \<and> distinct (ds @ cpus) \<and> (\<forall>c \<in> set cpus. c < RESOURCE_CPU_MAX)
    \<and> (\<forall>c < RESOURCE_CPU_MAX. cpu_mask_test m' c \<longleftrightarrow> c \<in> done_cpus \<union> set cpus)"
  using assms
proof (induction cpus arbitrary: m done_cpus ds)
  case Nil
  then show ?case by simp
next
  case (Cons cpu cpus)
  from Cons.prems(1) have c: "cpu < RESOURCE_CPU_MAX" "\<not> cpu_mask_test m cpu"
    and rest: "allowed_mask_loop cpus (cpu_mask_set m cpu) = Some m'"
    by (auto split: if_splits)
  have "\<forall>c < RESOURCE_CPU_MAX.
      cpu_mask_test (cpu_mask_set m cpu) c \<longleftrightarrow> c \<in> insert cpu done_cpus"
    using Cons.prems(2,3) c(1) by (simp add: cpu_mask_test_set)
  moreover have "cpu \<notin> set ds" using Cons.prems(3,5) c by auto
  ultimately have "length m' = 16 \<and> distinct ((ds @ [cpu]) @ cpus)
    \<and> (\<forall>c \<in> set cpus. c < RESOURCE_CPU_MAX)
    \<and> (\<forall>c < RESOURCE_CPU_MAX. cpu_mask_test m' c \<longleftrightarrow> c \<in> insert cpu done_cpus \<union> set cpus)"
    using Cons.IH [OF rest, of "insert cpu done_cpus" "ds @ [cpu]"] Cons.prems c by auto
  then show ?case using c by auto
qed

lemma allowed_mask_loop_empty:
  assumes "allowed_mask_loop cpus empty_mask = Some allowed"
  shows "length allowed = 16" and "distinct cpus"
    and "c \<in> set cpus \<Longrightarrow> c < RESOURCE_CPU_MAX"
    and "c < RESOURCE_CPU_MAX \<Longrightarrow> cpu_mask_test allowed c \<longleftrightarrow> c \<in> set cpus"
  using allowed_mask_loop_correct [OF assms, of "{}" "[]"] by auto

lemma cpu_topology_input_masks_facts:
  assumes "cpu_topology_input_masks input = Some (allowed, package_ids, core_ids)"
  shows "allowed_mask_loop (ti_allowed_cpu_ids input) empty_mask = Some allowed"
    and "ti_allowed_cpu_ids input \<noteq> []" and "ti_affinity_available input"
    and "length (ti_allowed_cpu_ids input) \<le> RESOURCE_CPU_MAX"
  using assms by (auto simp: cpu_topology_input_masks_def split: if_splits option.splits)

section \<open>Physical core groups\<close>

record core_group =
  cg_package_id :: nat
  cg_core_id :: nat
  cg_cpu_count :: nat

definition group_key :: "core_group \<Rightarrow> nat \<times> nat" where
  "group_key g = (cg_package_id g, cg_core_id g)"

fun add_to_group :: "nat \<Rightarrow> nat \<Rightarrow> core_group list \<Rightarrow> core_group list" where
  "add_to_group package core [] =
     [\<lparr>cg_package_id = package, cg_core_id = core, cg_cpu_count = 1\<rparr>]"
| "add_to_group package core (g # gs) =
     (if cg_package_id g \<noteq> package \<or> cg_core_id g \<noteq> core
      then g # add_to_group package core gs
      else g\<lparr>cg_cpu_count := cg_cpu_count g + 1\<rparr> # gs)"

fun collect_groups ::
    "(nat \<Rightarrow> nat) \<Rightarrow> (nat \<Rightarrow> nat) \<Rightarrow> nat list \<Rightarrow> core_group list \<Rightarrow> core_group list" where
  "collect_groups package_ids core_ids [] groups = groups"
| "collect_groups package_ids core_ids (cpu # cpus) groups =
     collect_groups package_ids core_ids cpus
       (add_to_group (package_ids cpu) (core_ids cpu) groups)"

definition group_precedes :: "core_group \<Rightarrow> core_group \<Rightarrow> bool" where
  "group_precedes right left \<longleftrightarrow>
     cg_package_id right > cg_package_id left
     \<or> cg_package_id right = cg_package_id left \<and> cg_core_id right > cg_core_id left"

text \<open>
  The exchange sort: the inner loop keeps the current \<open>groups[left]\<close> and walks the entries
  to its right, exchanging on every entry that precedes it.
\<close>

fun exchange_pass :: "core_group \<Rightarrow> core_group list \<Rightarrow> core_group \<times> core_group list" where
  "exchange_pass left [] = (left, [])"
| "exchange_pass left (right # rest) =
     (if group_precedes right left
      then (case exchange_pass right rest of (l, rs) \<Rightarrow> (l, left # rs))
      else (case exchange_pass left rest of (l, rs) \<Rightarrow> (l, right # rs)))"

lemma exchange_pass_length:
  "exchange_pass left xs = (l, rs) \<Longrightarrow> length rs = length xs"
  by (induction xs arbitrary: left l rs) (auto split: if_splits prod.splits)

lemma exchange_pass_length_sym [termination_simp]:
  "(l, rs) = exchange_pass left xs \<Longrightarrow> length rs = length xs"
  by (drule sym) (rule exchange_pass_length)

fun exchange_sort :: "core_group list \<Rightarrow> core_group list" where
  "exchange_sort [] = []"
| "exchange_sort (left # rest) =
     (case exchange_pass left rest of (l, rs) \<Rightarrow> l # exchange_sort rs)"

lemma exchange_pass_mset:
  "exchange_pass left xs = (l, rs) \<Longrightarrow> add_mset l (mset rs) = add_mset left (mset xs)"
proof (induction xs arbitrary: left l rs)
  case Nil
  then show ?case by simp
next
  case (Cons x xs)
  then show ?case
    by (auto split: if_splits prod.splits simp: add_mset_commute)
qed

lemma mset_exchange_sort: "mset (exchange_sort xs) = mset xs"
proof (induction xs rule: exchange_sort.induct)
  case 1
  then show ?case by simp
next
  case (2 left rest)
  obtain l rs where p: "exchange_pass left rest = (l, rs)" by fastforce
  with 2 have "mset (exchange_sort rs) = mset rs" by simp
  with p exchange_pass_mset [OF p] show ?case by simp
qed

lemma set_exchange_sort [simp]: "set (exchange_sort xs) = set xs"
  by (metis mset_exchange_sort set_mset_mset)

lemma map_mset_exchange_sort: "mset (map f (exchange_sort xs)) = mset (map f xs)"
  by (simp add: mset_exchange_sort)

lemma exchange_pass_max:
  "exchange_pass left xs = (l, rs) \<Longrightarrow>
     \<not> group_precedes left l \<and> (\<forall>r \<in> set rs. \<not> group_precedes r l)"
proof (induction xs arbitrary: left l rs)
  case Nil
  then show ?case by (auto simp: group_precedes_def)
next
  case (Cons x xs)
  show ?case
  proof (cases "group_precedes x left")
    case True
    with Cons.prems obtain rs' where p: "exchange_pass x xs = (l, rs')" and rs: "rs = left # rs'"
      by (auto split: prod.splits)
    from Cons.IH [OF p] True rs show ?thesis by (auto simp: group_precedes_def)
  next
    case False
    with Cons.prems obtain rs' where p: "exchange_pass left xs = (l, rs')" and rs: "rs = x # rs'"
      by (auto split: prod.splits)
    from Cons.IH [OF p] False rs show ?thesis by (auto simp: group_precedes_def)
  qed
qed

lemma exchange_sort_sorted: "sorted_wrt (\<lambda>a b. \<not> group_precedes b a) (exchange_sort xs)"
proof (induction xs rule: exchange_sort.induct)
  case 1
  then show ?case by simp
next
  case (2 left rest)
  obtain l rs where p: "exchange_pass left rest = (l, rs)" by fastforce
  from 2 p have "sorted_wrt (\<lambda>a b. \<not> group_precedes b a) (exchange_sort rs)" by simp
  with p exchange_pass_max [OF p] show ?case by simp
qed

text \<open>
  \<open>cpus_of_key\<close> counts the CPUs of a physical core among the allowed ones; the groups hold
  exactly these counts, one group per core.
\<close>

definition cpu_key :: "(nat \<Rightarrow> nat) \<Rightarrow> (nat \<Rightarrow> nat) \<Rightarrow> nat \<Rightarrow> nat \<times> nat" where
  "cpu_key package_ids core_ids cpu = (package_ids cpu, core_ids cpu)"

definition count_key :: "(nat \<times> nat) list \<Rightarrow> nat \<times> nat \<Rightarrow> nat" where
  "count_key keys k = length (filter (\<lambda>k'. k' = k) keys)"

definition groups_count :: "(nat \<times> nat) list \<Rightarrow> core_group list \<Rightarrow> bool" where
  "groups_count keys groups \<longleftrightarrow>
     distinct (map group_key groups) \<and> group_key ` set groups = set keys
     \<and> (\<forall>g \<in> set groups. cg_cpu_count g = count_key keys (group_key g))"

lemma keys_add_to_group:
  "group_key ` set (add_to_group p c gs) = insert (p, c) (group_key ` set gs)"
  by (induction gs) (auto simp: group_key_def)

lemma distinct_add_to_group:
  "distinct (map group_key gs) \<Longrightarrow> distinct (map group_key (add_to_group p c gs))"
proof (induction gs)
  case Nil
  then show ?case by simp
next
  case (Cons g gs)
  show ?case
  proof (cases "cg_package_id g \<noteq> p \<or> cg_core_id g \<noteq> c")
    case True
    then have "group_key g \<noteq> (p, c)" by (auto simp: group_key_def)
    with Cons True keys_add_to_group [of p c gs] show ?thesis by auto
  next
    case False
    with Cons.prems show ?thesis by (simp add: group_key_def)
  qed
qed

lemma count_add_to_group:
  assumes "distinct (map group_key gs)" and "g \<in> set (add_to_group p c gs)"
  shows "cg_cpu_count g =
    (case find (\<lambda>h. group_key h = group_key g) gs of None \<Rightarrow> 0 | Some h \<Rightarrow> cg_cpu_count h)
    + (if group_key g = (p, c) then 1 else 0)"
  using assms
proof (induction gs)
  case Nil
  then show ?case by (auto simp: group_key_def)
next
  case (Cons h gs)
  show ?case
  proof (cases "cg_package_id h \<noteq> p \<or> cg_core_id h \<noteq> c")
    case True
    then have hk: "group_key h \<noteq> (p, c)" by (auto simp: group_key_def)
    from Cons.prems(2) True have "g = h \<or> g \<in> set (add_to_group p c gs)" by auto
    then show ?thesis
    proof
      assume "g = h"
      with hk show ?thesis by simp
    next
      assume g: "g \<in> set (add_to_group p c gs)"
      then have "group_key g \<in> insert (p, c) (group_key ` set gs)"
        using keys_add_to_group by blast
      then have "group_key h \<noteq> group_key g" using Cons.prems(1) hk by auto
      with Cons.IH g Cons.prems(1) show ?thesis by simp
    qed
  next
    case False
    then have hk: "group_key h = (p, c)" by (simp add: group_key_def)
    from Cons.prems(2) False have
      "g = h\<lparr>cg_cpu_count := cg_cpu_count h + 1\<rparr> \<or> g \<in> set gs" by auto
    then show ?thesis
    proof
      assume "g = h\<lparr>cg_cpu_count := cg_cpu_count h + 1\<rparr>"
      with hk show ?thesis by (simp add: group_key_def)
    next
      assume g: "g \<in> set gs"
      then have ne: "group_key h \<noteq> group_key g" using Cons.prems(1) by force
      have "find (\<lambda>h. group_key h = group_key g) gs = Some g"
        using g Cons.prems(1)
        by (induction gs) (auto simp: image_iff)
      with ne hk show ?thesis by simp
    qed
  qed
qed

lemma groups_count_step:
  assumes "groups_count keys gs"
  shows "groups_count (keys @ [(p, c)]) (add_to_group p c gs)"
proof -
  have d: "distinct (map group_key gs)" and k: "group_key ` set gs = set keys"
    and n: "\<And>g. g \<in> set gs \<Longrightarrow> cg_cpu_count g = count_key keys (group_key g)"
    using assms by (auto simp: groups_count_def)
  have "cg_cpu_count g = count_key (keys @ [(p, c)]) (group_key g)"
    if g: "g \<in> set (add_to_group p c gs)" for g
  proof (cases "find (\<lambda>h. group_key h = group_key g) gs")
    case None
    then have "group_key g \<notin> group_key ` set gs" by (auto simp: find_None_iff)
    then have "count_key keys (group_key g) = 0"
      using k by (auto simp: count_key_def filter_empty_conv)
    with count_add_to_group [OF d g] None show ?thesis by (simp add: count_key_def)
  next
    case (Some h)
    then have "h \<in> set gs" "group_key h = group_key g" by (auto simp: find_Some_iff)
    with n count_add_to_group [OF d g] Some show ?thesis by (simp add: count_key_def)
  qed
  then show ?thesis
    using distinct_add_to_group [OF d] keys_add_to_group [of p c gs] k
    by (simp add: groups_count_def)
qed

lemma groups_count_collect:
  assumes "groups_count keys gs"
  shows "groups_count (keys @ map (cpu_key pk co) cpus) (collect_groups pk co cpus gs)"
  using assms
proof (induction cpus arbitrary: keys gs)
  case Nil
  then show ?case by simp
next
  case (Cons cpu cpus)
  from groups_count_step [OF Cons.prems]
  have "groups_count (keys @ [cpu_key pk co cpu]) (add_to_group (pk cpu) (co cpu) gs)"
    by (simp add: cpu_key_def)
  from Cons.IH [OF this] show ?case by simp
qed

lemma groups_count_sort:
  assumes "groups_count keys gs"
  shows "groups_count keys (exchange_sort gs)"
  using assms mset_eq_imp_distinct_iff [OF map_mset_exchange_sort [of group_key gs]]
  by (simp add: groups_count_def)

definition core_groups :: "(nat \<Rightarrow> nat) \<Rightarrow> (nat \<Rightarrow> nat) \<Rightarrow> nat list \<Rightarrow> core_group list" where
  "core_groups package_ids core_ids cpus =
     exchange_sort (collect_groups package_ids core_ids cpus [])"

lemma core_groups_count: "groups_count (map (cpu_key pk co) cpus) (core_groups pk co cpus)"
proof -
  have "groups_count [] []" by (simp add: groups_count_def)
  from groups_count_sort [OF groups_count_collect [OF this, of pk co cpus]]
  show ?thesis by (simp add: core_groups_def)
qed

lemma count_key_pos: "k \<in> set keys \<Longrightarrow> 0 < count_key keys k"
  by (induction keys) (auto simp: count_key_def)

lemma group_cpu_count_pos: "groups_count keys gs \<Longrightarrow> g \<in> set gs \<Longrightarrow> 0 < cg_cpu_count g"
  using count_key_pos by (fastforce simp: groups_count_def)

section \<open>The subset-sum table\<close>

record dp =
  dp_reachable :: "nat \<Rightarrow> bool"
  dp_parent_sum :: "nat \<Rightarrow> nat"
  dp_parent_group :: "nat \<Rightarrow> nat"

definition dp_empty :: dp where
  "dp_empty = \<lparr>dp_reachable = (\<lambda>_. False)(0 := True), dp_parent_sum = (\<lambda>_. 0),
     dp_parent_group = (\<lambda>_. 0)\<rparr>"

definition dp_mark :: "nat \<Rightarrow> nat \<Rightarrow> nat \<Rightarrow> dp \<Rightarrow> dp" where
  "dp_mark amount grp sm d =
     (let next = sm + amount in
      if dp_reachable d sm \<and> \<not> dp_reachable d next
      then d\<lparr>dp_reachable := (dp_reachable d)(next := True),
             dp_parent_sum := (dp_parent_sum d)(next := sm),
             dp_parent_group := (dp_parent_group d)(next := grp)\<rparr>
      else d)"

text \<open>\<open>for (sum = allowed_count - amount + 1; sum-- > 0;)\<close>: the argument counts down.\<close>

fun dp_inner :: "nat \<Rightarrow> nat \<Rightarrow> nat \<Rightarrow> dp \<Rightarrow> dp" where
  "dp_inner amount grp 0 d = d"
| "dp_inner amount grp (Suc sm) d = dp_inner amount grp sm (dp_mark amount grp sm d)"

fun dp_outer :: "nat \<Rightarrow> core_group list \<Rightarrow> nat \<Rightarrow> dp \<Rightarrow> dp" where
  "dp_outer allowed_count [] grp d = d"
| "dp_outer allowed_count (g # gs) grp d =
     dp_outer allowed_count gs (grp + 1)
       (dp_inner (cg_cpu_count g) grp (allowed_count - cg_cpu_count g + 1) d)"

text \<open>
  A chain of parent links from a sum down to 0, with the groups it selects. A sound table
  has one for every reachable sum, with pairwise different groups whose CPU counts add up to
  the sum.
\<close>

inductive dp_chain :: "dp \<Rightarrow> nat \<Rightarrow> nat list \<Rightarrow> bool" for d where
  dp_chain_zero: "dp_chain d 0 []"
| dp_chain_step: "dp_reachable d s \<Longrightarrow> dp_parent_sum d s < s \<Longrightarrow> dp_parent_group d s = g
    \<Longrightarrow> dp_chain d (dp_parent_sum d s) gs \<Longrightarrow> dp_chain d s (g # gs)"

inductive_cases dp_chain_zeroE: "dp_chain d 0 gs"
inductive_cases dp_chain_posE: "dp_chain d (Suc s) gs"

definition chain_of :: "core_group list \<Rightarrow> nat \<Rightarrow> dp \<Rightarrow> nat \<Rightarrow> bool" where
  "chain_of groups k d s \<longleftrightarrow>
     (\<exists>gs. dp_chain d s gs \<and> distinct gs \<and> (\<forall>g \<in> set gs. g < k)
       \<and> sum_list (map (\<lambda>g. cg_cpu_count (groups ! g)) gs) = s)"

lemma dp_chain_mark:
  assumes "dp_chain d s gs"
  shows "dp_chain (dp_mark amount grp sm d) s gs"
  using assms
proof (induction rule: dp_chain.induct)
  case dp_chain_zero
  then show ?case by (rule dp_chain.dp_chain_zero)
next
  case (dp_chain_step s g gs)
  then have "dp_reachable (dp_mark amount grp sm d) s"
    and "dp_parent_sum (dp_mark amount grp sm d) s = dp_parent_sum d s"
    and "dp_parent_group (dp_mark amount grp sm d) s = dp_parent_group d s"
    by (auto simp: dp_mark_def Let_def)
  with dp_chain_step show ?case by (metis dp_chain.dp_chain_step)
qed

lemma chain_of_mark: "chain_of groups k d s \<Longrightarrow> chain_of groups k (dp_mark a g n d) s"
  unfolding chain_of_def using dp_chain_mark by blast

lemma chain_of_mono: "chain_of groups k d s \<Longrightarrow> k \<le> k' \<Longrightarrow> chain_of groups k' d s"
  unfolding chain_of_def using order_less_le_trans by blast

lemma chain_of_new:
  assumes "chain_of groups k d sm" and "dp_reachable d sm" and "\<not> dp_reachable d (sm + amount)"
    and "0 < amount" and "amount = cg_cpu_count (groups ! k)"
  shows "chain_of groups (Suc k) (dp_mark amount k sm d) (sm + amount)"
proof -
  obtain gs where gs: "dp_chain d sm gs" "distinct gs" "\<forall>g \<in> set gs. g < k"
    "sum_list (map (\<lambda>g. cg_cpu_count (groups ! g)) gs) = sm"
    using assms(1) by (auto simp: chain_of_def)
  let ?d = "dp_mark amount k sm d"
  have "dp_reachable ?d (sm + amount)" "dp_parent_sum ?d (sm + amount) = sm"
    "dp_parent_group ?d (sm + amount) = k"
    using assms(2,3) by (auto simp: dp_mark_def Let_def)
  with dp_chain_mark [OF gs(1), of amount k sm] assms(4)
  have "dp_chain ?d (sm + amount) (k # gs)" by (intro dp_chain.dp_chain_step) auto
  moreover have "distinct (k # gs)" "\<forall>g \<in> set (k # gs). g < Suc k" using gs by auto
  moreover have "sum_list (map (\<lambda>g. cg_cpu_count (groups ! g)) (k # gs)) = sm + amount"
    using gs(4) assms(5) by simp
  ultimately show ?thesis unfolding chain_of_def by blast
qed

lemma dp_inner_chain:
  assumes "\<And>s. dp_reachable d s \<Longrightarrow> chain_of groups (Suc k) d s"
    and "\<And>s. dp_reachable d s \<Longrightarrow> s < n \<Longrightarrow> chain_of groups k d s"
    and "0 < amount" and "amount = cg_cpu_count (groups ! k)"
    and "dp_reachable (dp_inner amount k n d) s"
  shows "chain_of groups (Suc k) (dp_inner amount k n d) s"
  using assms
proof (induction n arbitrary: d)
  case 0
  then show ?case by simp
next
  case (Suc n)
  let ?d = "dp_mark amount k n d"
  have marked: "dp_reachable ?d s \<Longrightarrow> dp_reachable d s \<or>
      s = n + amount \<and> dp_reachable d n \<and> \<not> dp_reachable d (n + amount)" for s
    by (auto simp: dp_mark_def Let_def split: if_splits)
  have all: "chain_of groups (Suc k) ?d s" if "dp_reachable ?d s" for s
    using marked [OF that] Suc.prems(1) [THEN chain_of_mark]
      chain_of_new [of groups k d n amount] Suc.prems(2) [of n] Suc.prems(3,4) by blast
  have low: "chain_of groups k ?d s" if "dp_reachable ?d s" "s < n" for s
    using marked [OF that(1)] that(2) Suc.prems(2) [THEN chain_of_mark] by auto
  from Suc.IH [of ?d, OF all low Suc.prems(3,4)] Suc.prems(5) show ?case by simp
qed

lemma dp_inner_reachable:
  assumes "0 < amount"
  shows "dp_reachable (dp_inner amount k n d) s \<longleftrightarrow>
    dp_reachable d s \<or> amount \<le> s \<and> s - amount < n \<and> dp_reachable d (s - amount)"
proof (induction n arbitrary: d)
  case 0
  then show ?case by simp
next
  case (Suc n)
  let ?d = "dp_mark amount k n d"
  have m: "dp_reachable ?d t \<longleftrightarrow> dp_reachable d t \<or> t = n + amount \<and> dp_reachable d n" for t
    by (auto simp: dp_mark_def Let_def)
  have "dp_reachable (dp_inner amount k (Suc n) d) s \<longleftrightarrow>
      dp_reachable ?d s \<or> amount \<le> s \<and> s - amount < n \<and> dp_reachable ?d (s - amount)"
    using Suc by simp
  also have "\<dots> \<longleftrightarrow> dp_reachable d s
      \<or> amount \<le> s \<and> s - amount < Suc n \<and> dp_reachable d (s - amount)"
    using assms unfolding m by (auto simp: less_Suc_eq)
  finally show ?case .
qed

text \<open>The sums of the CPU counts of the sublists of a list of groups.\<close>

fun subset_sums :: "core_group list \<Rightarrow> nat \<Rightarrow> bool" where
  "subset_sums [] s \<longleftrightarrow> s = 0"
| "subset_sums (g # gs) s \<longleftrightarrow>
     subset_sums gs s \<or> cg_cpu_count g \<le> s \<and> subset_sums gs (s - cg_cpu_count g)"

lemma dp_outer_correct:
  assumes "\<And>s. dp_reachable d s \<Longrightarrow> chain_of groups k d s"
    and "drop k groups = gs" and "\<And>g. g \<in> set gs \<Longrightarrow> 0 < cg_cpu_count g"
    and "dp_reachable (dp_outer allowed gs k d) s"
  shows "chain_of groups (k + length gs) (dp_outer allowed gs k d) s"
  using assms
proof (induction gs arbitrary: k d)
  case Nil
  then show ?case by simp
next
  case (Cons g gs)
  have k: "k < length groups" using Cons.prems(2) by (cases "k < length groups") auto
  then have g: "groups ! k = g" using Cons.prems(2) by (metis nth_via_drop)
  have gs: "drop (Suc k) groups = gs" using Cons.prems(2) by (metis drop_Suc list.sel(3) tl_drop)
  let ?d = "dp_inner (cg_cpu_count g) k (allowed - cg_cpu_count g + 1) d"
  have step: "chain_of groups (Suc k) ?d s" if "dp_reachable ?d s" for s
  proof (rule dp_inner_chain [OF _ _ _ _ that])
    show "chain_of groups (Suc k) d s" if "dp_reachable d s" for s
      using chain_of_mono [OF Cons.prems(1) [OF that]] by simp
  qed (use Cons.prems g in auto)
  have "chain_of groups (Suc k + length gs) (dp_outer allowed gs (Suc k) ?d) s"
    using step gs by (rule Cons.IH) (use Cons.prems in auto)
  then show ?case by simp
qed

lemma dp_outer_reachable:
  assumes "\<And>g. g \<in> set gs \<Longrightarrow> 0 < cg_cpu_count g \<and> cg_cpu_count g \<le> allowed" and "s \<le> allowed"
  shows "dp_reachable (dp_outer allowed gs k d) s \<longleftrightarrow>
    (\<exists>u \<le> s. subset_sums gs u \<and> dp_reachable d (s - u))"
  using assms
proof (induction gs arbitrary: k d)
  case Nil
  then show ?case by auto
next
  case (Cons g gs)
  let ?a = "cg_cpu_count g"
  let ?d = "dp_inner ?a k (allowed - ?a + 1) d"
  have a: "0 < ?a" "?a \<le> allowed" using Cons.prems(1) by auto
  have step: "dp_reachable ?d t \<longleftrightarrow> dp_reachable d t \<or> ?a \<le> t \<and> dp_reachable d (t - ?a)"
    if "t \<le> allowed" for t
    using that a dp_inner_reachable [OF a(1), of k "allowed - ?a + 1" d t] by auto
  have "dp_reachable (dp_outer allowed (g # gs) k d) s \<longleftrightarrow>
      (\<exists>u \<le> s. subset_sums gs u \<and> dp_reachable ?d (s - u))"
    using Cons by simp
  also have "\<dots> \<longleftrightarrow> (\<exists>u \<le> s. subset_sums gs u \<and> (dp_reachable d (s - u)
      \<or> ?a \<le> s - u \<and> dp_reachable d (s - u - ?a)))"
    using step Cons.prems(2) by (meson diff_le_self le_trans)
  also have "\<dots> \<longleftrightarrow> (\<exists>u \<le> s. subset_sums (g # gs) u \<and> dp_reachable d (s - u))"
  proof
    assume "\<exists>u \<le> s. subset_sums gs u \<and> (dp_reachable d (s - u)
        \<or> ?a \<le> s - u \<and> dp_reachable d (s - u - ?a))"
    then obtain u where u: "u \<le> s" "subset_sums gs u"
      "dp_reachable d (s - u) \<or> ?a \<le> s - u \<and> dp_reachable d (s - u - ?a)" by blast
    show "\<exists>u \<le> s. subset_sums (g # gs) u \<and> dp_reachable d (s - u)"
    proof (cases "dp_reachable d (s - u)")
      case True
      with u show ?thesis by auto
    next
      case False
      with u have "u + ?a \<le> s" "subset_sums (g # gs) (u + ?a)" "dp_reachable d (s - (u + ?a))"
        by auto
      then show ?thesis by blast
    qed
  next
    assume "\<exists>u \<le> s. subset_sums (g # gs) u \<and> dp_reachable d (s - u)"
    then obtain u where u: "u \<le> s" "subset_sums (g # gs) u" "dp_reachable d (s - u)" by blast
    show "\<exists>u \<le> s. subset_sums gs u \<and> (dp_reachable d (s - u)
        \<or> ?a \<le> s - u \<and> dp_reachable d (s - u - ?a))"
    proof (cases "subset_sums gs u")
      case True
      with u show ?thesis by auto
    next
      case False
      with u have le: "?a \<le> u" and ss: "subset_sums gs (u - ?a)" by auto
      have "u - ?a \<le> s" using u by simp
      moreover have "?a \<le> s - (u - ?a)" using u le by arith
      moreover have "s - (u - ?a) - ?a = s - u" using le by arith
      ultimately show ?thesis using ss u(3) by metis
    qed
  qed
  finally show ?case .
qed

definition dp_table :: "nat \<Rightarrow> core_group list \<Rightarrow> dp" where
  "dp_table allowed_count groups = dp_outer allowed_count groups 0 dp_empty"

lemma dp_table_chain:
  assumes "\<And>g. g \<in> set groups \<Longrightarrow> 0 < cg_cpu_count g"
    and "dp_reachable (dp_table allowed groups) s"
  shows "chain_of groups (length groups) (dp_table allowed groups) s"
proof -
  have "chain_of groups 0 dp_empty s" if "dp_reachable dp_empty s" for s
  proof -
    from that have "s = 0" by (simp add: dp_empty_def split: if_splits)
    then show ?thesis using dp_chain_zero unfolding chain_of_def by force
  qed
  from dp_outer_correct [OF this, where gs = groups and allowed = allowed and s = s] assms
  show ?thesis by (simp add: dp_table_def)
qed

lemma dp_table_reachable:
  assumes "\<And>g. g \<in> set groups \<Longrightarrow> 0 < cg_cpu_count g \<and> cg_cpu_count g \<le> allowed"
    and "s \<le> allowed"
  shows "dp_reachable (dp_table allowed groups) s \<longleftrightarrow> subset_sums groups s"
  using dp_outer_reachable [OF assms, where k = 0 and d = dp_empty] by (auto simp: dp_table_def dp_empty_def)

section \<open>The choice of the reserve\<close>

function search_up :: "(nat \<Rightarrow> bool) \<Rightarrow> nat \<Rightarrow> nat \<Rightarrow> nat" where
  "search_up reachable allowed_count reserved_count =
     (if reserved_count < allowed_count \<and> \<not> reachable reserved_count
      then search_up reachable allowed_count (reserved_count + 1) else reserved_count)"
  by pat_completeness auto
termination by (relation "measure (\<lambda>(reachable, allowed_count, r). allowed_count - r)") auto

declare search_up.simps [simp del]

fun search_down :: "(nat \<Rightarrow> bool) \<Rightarrow> nat \<Rightarrow> nat" where
  "search_down reachable reserved_count =
     (if 0 < reserved_count \<and> \<not> reachable reserved_count
      then search_down reachable (reserved_count - 1) else reserved_count)"

declare search_down.simps [simp del]

definition choose_reserved_count :: "(nat \<Rightarrow> bool) \<Rightarrow> nat \<Rightarrow> nat \<Rightarrow> nat" where
  "choose_reserved_count reachable allowed_count requested_reserve =
     (let reserved_count = search_up reachable allowed_count requested_reserve
      in if reserved_count \<ge> allowed_count then search_down reachable requested_reserve
         else reserved_count)"

lemma search_up_spec:
  "search_up R n r < n \<Longrightarrow>
     r \<le> search_up R n r \<and> R (search_up R n r) \<and> (\<forall>t. r \<le> t \<and> t < search_up R n r \<longrightarrow> \<not> R t)"
proof (induction R n r rule: search_up.induct)
  case (1 R n r)
  show ?case
  proof (cases "r < n \<and> \<not> R r")
    case True
    then have e: "search_up R n r = search_up R n (r + 1)" by (subst search_up.simps) simp
    from 1 True e show ?thesis by (metis Suc_eq_plus1 Suc_leD not_less_eq_eq order_antisym_conv)
  next
    case False
    then have e: "search_up R n r = r" by (subst search_up.simps) auto
    with "1.prems" False show ?thesis by auto
  qed
qed

lemma search_up_none:
  "n \<le> search_up R n r \<Longrightarrow> r \<le> t \<Longrightarrow> t < n \<Longrightarrow> \<not> R t"
proof (induction R n r rule: search_up.induct)
  case (1 R n r)
  have "r < n" using "1.prems" by simp
  have nr: "\<not> R r"
  proof
    assume "R r"
    then have "search_up R n r = r" by (subst search_up.simps) simp
    with "1.prems"(1) \<open>r < n\<close> show False by simp
  qed
  with \<open>r < n\<close> have e: "search_up R n r = search_up R n (r + 1)" by (subst search_up.simps) simp
  show ?case
  proof (cases "t = r")
    case True
    with nr show ?thesis by simp
  next
    case False
    with 1 nr \<open>r < n\<close> e show ?thesis by simp
  qed
qed

lemma search_down_spec:
  "R 0 \<Longrightarrow> search_down R r \<le> r \<and> R (search_down R r)
     \<and> (\<forall>t. search_down R r < t \<and> t \<le> r \<longrightarrow> \<not> R t)"
proof (induction R r rule: search_down.induct)
  case (1 R r)
  show ?case
  proof (cases "0 < r \<and> \<not> R r")
    case True
    then have e: "search_down R r = search_down R (r - 1)" by (subst search_down.simps) simp
    have "\<not> R t" if "search_down R (r - 1) < t" "t \<le> r" for t
    proof (cases "t = r")
      case False
      then have "t \<le> r - 1" using that(2) by simp
      with 1 True that(1) show ?thesis by blast
    qed (use True in simp)
    moreover have "search_down R (r - 1) \<le> r - 1" "R (search_down R (r - 1))" using 1 True by auto
    ultimately show ?thesis using e by auto
  next
    case False
    then have e: "search_down R r = r" by (subst search_down.simps) auto
    with "1.prems" False show ?thesis by auto
  qed
qed

text \<open>
  The chosen count is the least whole-core sum at or above the request that leaves a compute
  CPU, or, when there is none, the greatest whole-core sum below the request.
\<close>

lemma choose_reserved_count_spec:
  assumes "R 0" and "requested < allowed"
  defines "r \<equiv> choose_reserved_count R allowed requested"
  shows "R r" and "r < allowed"
    and "requested \<le> r \<Longrightarrow> requested \<le> t \<Longrightarrow> t < r \<Longrightarrow> \<not> R t"
    and "r < requested \<Longrightarrow> r < t \<Longrightarrow> t < allowed \<Longrightarrow> \<not> R t"
proof -
  have *: "R r \<and> r < allowed \<and> (requested \<le> r \<longrightarrow> requested \<le> t \<longrightarrow> t < r \<longrightarrow> \<not> R t)
    \<and> (r < requested \<longrightarrow> r < t \<longrightarrow> t < allowed \<longrightarrow> \<not> R t)" for t
  proof (cases "search_up R allowed requested < allowed")
    case True
    then have "r = search_up R allowed requested" by (simp add: r_def choose_reserved_count_def)
    with True search_up_spec [OF True] show ?thesis by auto
  next
    case False
    then have e: "r = search_down R requested" by (simp add: r_def choose_reserved_count_def)
    from False have le: "allowed \<le> search_up R allowed requested" by simp
    show ?thesis
      using e search_down_spec [of R requested, OF assms(1)] search_up_none [OF le, of t] assms(2)
      by (metis le_eq_less_or_eq le_trans not_le)
  qed
  show "R r" "r < allowed"
    "requested \<le> r \<Longrightarrow> requested \<le> t \<Longrightarrow> t < r \<Longrightarrow> \<not> R t"
    "r < requested \<Longrightarrow> r < t \<Longrightarrow> t < allowed \<Longrightarrow> \<not> R t" for t
    using * by blast+
qed

section \<open>Reconstruction and masks\<close>

text \<open>
  \<open>for (sum = reserved_count; sum != 0; sum = parent_sum[sum])\<close>; \<^const>\<open>None\<close> is the
  loop that does not end.
\<close>

partial_function (option) select_groups ::
    "dp \<Rightarrow> nat \<Rightarrow> (nat \<Rightarrow> bool) \<Rightarrow> (nat \<Rightarrow> bool) option" where
  "select_groups d s selected =
     (if s = 0 then Some selected
      else select_groups d (dp_parent_sum d s) (selected(dp_parent_group d s := True)))"

declare select_groups.simps [code]

lemma select_groups_chain:
  "dp_chain d s gs \<Longrightarrow> select_groups d s sel = Some (\<lambda>i. sel i \<or> i \<in> set gs)"
proof (induction arbitrary: sel rule: dp_chain.induct)
  case dp_chain_zero
  then show ?case by (simp add: select_groups.simps)
next
  case (dp_chain_step s g gs)
  have "select_groups d s sel = select_groups d (dp_parent_sum d s) (sel(g := True))"
    using dp_chain_step by (subst select_groups.simps) auto
  also have "\<dots> = Some (\<lambda>i. (sel(g := True)) i \<or> i \<in> set gs)"
    by (rule dp_chain_step.IH)
  also have "(\<lambda>i. (sel(g := True)) i \<or> i \<in> set gs) = (\<lambda>i. sel i \<or> i \<in> set (g # gs))"
    by auto
  finally show ?case .
qed

fun cpu_group_selected ::
    "core_group list \<Rightarrow> nat \<Rightarrow> (nat \<Rightarrow> bool) \<Rightarrow> nat \<Rightarrow> nat \<Rightarrow> bool" where
  "cpu_group_selected [] grp selected package core = False"
| "cpu_group_selected (g # gs) grp selected package core =
     (if selected grp \<and> cg_package_id g = package \<and> cg_core_id g = core then True
      else cpu_group_selected gs (grp + 1) selected package core)"

fun split_masks :: "core_group list \<Rightarrow> (nat \<Rightarrow> bool) \<Rightarrow> (nat \<Rightarrow> nat) \<Rightarrow> (nat \<Rightarrow> nat)
    \<Rightarrow> nat list \<Rightarrow> cpu_mask \<Rightarrow> cpu_mask \<Rightarrow> cpu_mask \<times> cpu_mask" where
  "split_masks groups selected package_ids core_ids [] compute reserved = (compute, reserved)"
| "split_masks groups selected package_ids core_ids (cpu # cpus) compute reserved =
     (if cpu_group_selected groups 0 selected (package_ids cpu) (core_ids cpu)
      then split_masks groups selected package_ids core_ids cpus
             (cpu_mask_clear compute cpu) (cpu_mask_set reserved cpu)
      else split_masks groups selected package_ids core_ids cpus compute reserved)"

lemma cpu_group_selected_iff:
  "cpu_group_selected gs k sel p c \<longleftrightarrow>
     (\<exists>i < length gs. sel (k + i) \<and> group_key (gs ! i) = (p, c))"
proof (induction gs arbitrary: k)
  case Nil
  then show ?case by simp
next
  case (Cons g gs)
  have "(\<exists>i < length (g # gs). sel (k + i) \<and> group_key ((g # gs) ! i) = (p, c)) \<longleftrightarrow>
    sel k \<and> group_key g = (p, c) \<or> (\<exists>i < length gs. sel (k + 1 + i) \<and> group_key (gs ! i) = (p, c))"
    by (simp add: Ex_less_Suc2)
  then show ?case using Cons by (auto simp: group_key_def)
qed

lemma split_masks_correct:
  assumes "split_masks groups sel pk co cpus compute reserved = (compute', reserved')"
    and "length compute = 16" and "length reserved = 16"
    and "\<forall>c \<in> set cpus. c < RESOURCE_CPU_MAX"
  shows "length compute' = 16 \<and> length reserved' = 16 \<and>
    cpu_mask_test compute' c = (cpu_mask_test compute c
      \<and> \<not> (c \<in> set cpus \<and> cpu_group_selected groups 0 sel (pk c) (co c))) \<and>
    cpu_mask_test reserved' c = (cpu_mask_test reserved c
      \<or> c \<in> set cpus \<and> cpu_group_selected groups 0 sel (pk c) (co c))"
  using assms
proof (induction cpus arbitrary: compute reserved)
  case Nil
  then show ?case by simp
next
  case (Cons cpu cpus)
  show ?case
  proof (cases "cpu_group_selected groups 0 sel (pk cpu) (co cpu)")
    case True
    with Cons.prems(1) have "split_masks groups sel pk co cpus (cpu_mask_clear compute cpu)
        (cpu_mask_set reserved cpu) = (compute', reserved')" by simp
    from Cons.IH [OF this] Cons.prems True show ?thesis
      by (auto simp: cpu_mask_test_clear cpu_mask_test_set)
  next
    case False
    with Cons show ?thesis by auto
  qed
qed

section \<open>The CPU policy\<close>

text \<open>
  \<open>build_cpu_policy\<close>, from the topology on; \<open>diagnostic\<close> is the structure filled so far.
\<close>

definition build_core_reserve ::
    "string option \<Rightarrow> cpu_topology_input \<Rightarrow> cpu_mask \<Rightarrow> (nat \<Rightarrow> nat) \<Rightarrow> (nat \<Rightarrow> nat) \<Rightarrow> u32 \<Rightarrow> bool
      \<Rightarrow> cpu_policy_diagnostic \<Rightarrow> cpu_policy_diagnostic option" where
  "build_core_reserve mesa input allowed package_ids core_ids requested_reserve
       externally_constrained diagnostic =
     (let cpus = ti_allowed_cpu_ids input;
          allowed_count = length cpus;
          groups = core_groups package_ids core_ids cpus;
          table = dp_table allowed_count groups;
          reserved_count =
            choose_reserved_count (dp_reachable table) allowed_count (unat requested_reserve)
      in if reserved_count = 0
         then Some ((cpu_policy_count_fallback mesa (of_nat allowed_count) requested_reserve
                externally_constrained ''fallback-portable-topology-unsplittable'')
                \<lparr>cp_allowed_mask := allowed\<rparr>)
         else case select_groups table reserved_count (\<lambda>_. False) of
           None \<Rightarrow> None
         | Some selected \<Rightarrow>
             (case split_masks groups selected package_ids core_ids cpus allowed empty_mask of
                (compute, reserved) \<Rightarrow>
                  Some (diagnostic\<lparr>cp_affinity_configured := True,
                    cp_externally_constrained := externally_constrained,
                    cp_compute_cpu_count := of_nat allowed_count - of_nat reserved_count,
                    cp_reserved_cpu_count := of_nat reserved_count,
                    cp_compute_mask := compute,
                    cp_reserved_mask := reserved,
                    cp_reason := ''topology-complete-core-reserve''\<rparr>)))"

text \<open>\<open>input\<close> is \<open>None\<close> for the null pointer.\<close>

definition build_cpu_policy ::
    "string option \<Rightarrow> hardware_profile \<Rightarrow> resource_policy \<Rightarrow> cpu_topology_input option
      \<Rightarrow> cpu_policy_diagnostic option" where
  "build_cpu_policy mesa profile policy input_opt =
     (let fallback = cpu_policy_count_fallback mesa (hp_logical_cpu_count profile)
            (rp_system_cpu_reserve policy) False
      in case input_opt of
        None \<Rightarrow> Some (fallback ''fallback-portable-affinity-unavailable'')
      | Some input \<Rightarrow>
          if \<not> ti_affinity_available input
          then Some (fallback ''fallback-portable-affinity-unavailable'')
          else case cpu_topology_input_masks input of
            None \<Rightarrow> Some (fallback ''fallback-portable-affinity-invalid'')
          | Some (allowed, package_ids, core_ids) \<Rightarrow>
              if length (ti_allowed_cpu_ids input) > unat (hp_logical_cpu_count profile)
              then Some (fallback ''fallback-portable-affinity-invalid'')
              else
                let allowed_count = length (ti_allowed_cpu_ids input);
                    diagnostic = (fallback ''fallback-portable-affinity-unavailable'')
                      \<lparr>cp_allowed_mask := allowed\<rparr>;
                    externally_constrained = (allowed_count < unat (hp_logical_cpu_count profile));
                    requested_reserve =
                      additional_allowed_cpu_reserve profile policy allowed_count
                in if requested_reserve = 0
                   then Some (diagnostic\<lparr>cp_affinity_configured := True,
                          cp_externally_constrained := externally_constrained,
                          cp_compute_cpu_count := of_nat allowed_count,
                          cp_reserved_cpu_count := 0,
                          cp_compute_mask := allowed,
                          cp_reason := ''external-allowed-mask-is-compute-pool''\<rparr>)
                   else if \<not> ti_topology_available input
                   then Some ((cpu_policy_count_fallback mesa (of_nat allowed_count)
                          requested_reserve externally_constrained
                          ''fallback-portable-topology-unavailable'')
                          \<lparr>cp_allowed_mask := allowed\<rparr>)
                   else build_core_reserve mesa input allowed package_ids core_ids
                          requested_reserve externally_constrained diagnostic)"

text \<open>What the topology loop stores, entry by entry.\<close>

lemma topology_entries_loop_keeps:
  "topology_entries_loop es allowed seen pk co = Some (pk', co') \<Longrightarrow>
     seen c \<Longrightarrow> pk' c = pk c \<and> co' c = co c"
  by (induction es allowed seen pk co rule: topology_entries_loop.induct)
    (auto split: if_splits)

lemma topology_entries_loop_stores:
  "topology_entries_loop es allowed seen pk co = Some (pk', co') \<Longrightarrow> e \<in> set es \<Longrightarrow>
     pk' (te_cpu_id e) = te_package_id e \<and> co' (te_cpu_id e) = te_core_id e
     \<and> te_cpu_id e < RESOURCE_CPU_MAX \<and> cpu_mask_test allowed (te_cpu_id e)"
proof (induction es arbitrary: seen pk co)
  case Nil
  then show ?case by simp
next
  case (Cons x es)
  let ?c = "te_cpu_id x"
  from Cons.prems(1) have ok: "?c < RESOURCE_CPU_MAX" "cpu_mask_test allowed ?c"
    and rest: "topology_entries_loop es allowed (seen(?c := True)) (pk(?c := te_package_id x))
      (co(?c := te_core_id x)) = Some (pk', co')"
    by (auto split: if_splits)
  show ?case
  proof (cases "e = x")
    case True
    with ok topology_entries_loop_keeps [OF rest, of ?c] show ?thesis by simp
  next
    case False
    with Cons.IH [OF rest] Cons.prems(2) show ?thesis by simp
  qed
qed

lemma selected_cpu_count:
  assumes "distinct ks"
  shows "length (filter (\<lambda>c. f c \<in> set ks) cpus) = sum_list (map (count_key (map f cpus)) ks)"
  using assms
proof (induction ks)
  case Nil
  then show ?case by simp
next
  case (Cons k ks)
  have "length (filter (\<lambda>c. f c \<in> set (k # ks)) cpus) =
      length (filter (\<lambda>c. f c = k) cpus) + length (filter (\<lambda>c. f c \<in> set ks) cpus)"
    using Cons.prems by (induction cpus) auto
  moreover have "length (filter (\<lambda>c. f c = k) cpus) = count_key (map f cpus) k"
    by (simp add: count_key_def filter_map comp_def)
  ultimately show ?case using Cons by simp
qed

lemma card_mask_filter:
  assumes "distinct cpus" and "\<forall>c \<in> set cpus. c < RESOURCE_CPU_MAX"
    and "\<And>c. c < RESOURCE_CPU_MAX \<Longrightarrow> cpu_mask_test m c \<longleftrightarrow> c \<in> set cpus \<and> P c"
  shows "card {c. c < RESOURCE_CPU_MAX \<and> cpu_mask_test m c} = length (filter P cpus)"
proof -
  have "{c. c < RESOURCE_CPU_MAX \<and> cpu_mask_test m c} = set (filter P cpus)"
    using assms(2,3) by auto
  then show ?thesis using assms(1) by (metis distinct_card distinct_filter)
qed

text \<open>
  What a configured policy promises of its masks: on the allowed CPUs \<open>cpus\<close> the reserved
  ones are a union of whole cores, compute is the complement, and the counts are the sizes
  of the masks.
\<close>

definition whole_core_partition ::
    "(nat \<Rightarrow> nat \<times> nat) \<Rightarrow> nat list \<Rightarrow> cpu_mask \<Rightarrow> cpu_mask \<Rightarrow> nat \<Rightarrow> bool" where
  "whole_core_partition key cpus compute reserved r \<longleftrightarrow>
     (\<exists>ks. (\<forall>c < RESOURCE_CPU_MAX.
         (cpu_mask_test reserved c \<longleftrightarrow> c \<in> set cpus \<and> key c \<in> set ks)
         \<and> (cpu_mask_test compute c \<longleftrightarrow> c \<in> set cpus \<and> key c \<notin> set ks)))
     \<and> card {c. c < RESOURCE_CPU_MAX \<and> cpu_mask_test reserved c} = r
     \<and> card {c. c < RESOURCE_CPU_MAX \<and> cpu_mask_test compute c} = length cpus - r"

lemma subset_sums_zero: "subset_sums gs 0"
  by (induction gs) auto

lemma group_cpu_count_le: "groups_count keys gs \<Longrightarrow> g \<in> set gs \<Longrightarrow> cg_cpu_count g \<le> length keys"
  by (auto simp: groups_count_def count_key_def)

lemma core_groups_table:
  assumes "groups = core_groups pk co cpus" and "table = dp_table (length cpus) groups"
  shows "s \<le> length cpus \<Longrightarrow> dp_reachable table s \<longleftrightarrow> subset_sums groups s"
    and "dp_reachable table 0"
    and "dp_reachable table s \<Longrightarrow> chain_of groups (length groups) table s"
proof -
  have gc: "groups_count (map (cpu_key pk co) cpus) groups"
    unfolding assms(1) by (rule core_groups_count)
  have bounds: "0 < cg_cpu_count g \<and> cg_cpu_count g \<le> length cpus" if "g \<in> set groups" for g
    using group_cpu_count_pos [OF gc that] group_cpu_count_le [OF gc that] by simp
  show *: "s \<le> length cpus \<Longrightarrow> dp_reachable table s \<longleftrightarrow> subset_sums groups s" for s
    unfolding assms(2) using bounds by (rule dp_table_reachable)
  show "dp_reachable table 0" using * [of 0] by (simp add: subset_sums_zero)
  show "dp_reachable table s \<Longrightarrow> chain_of groups (length groups) table s"
    unfolding assms(2) using bounds by (intro dp_table_chain) auto
qed

lemma reserve_selection:
  fixes pk co :: "nat \<Rightarrow> nat"
  assumes "allowed_mask_loop cpus empty_mask = Some allowed"
    and "groups = core_groups pk co cpus" and "table = dp_table (length cpus) groups"
    and "dp_reachable table r"
  shows "\<exists>sel. select_groups table r (\<lambda>_. False) = Some sel
    \<and> (split_masks groups sel pk co cpus allowed empty_mask = (compute, reserved)
        \<longrightarrow> whole_core_partition (cpu_key pk co) cpus compute reserved r)"
proof -
  note allowed = allowed_mask_loop_empty [OF assms(1)]
  have gc: "groups_count (map (cpu_key pk co) cpus) groups"
    unfolding assms(2) by (rule core_groups_count)
  obtain gs where gs: "dp_chain table r gs" "distinct gs" "\<forall>g \<in> set gs. g < length groups"
    "sum_list (map (\<lambda>g. cg_cpu_count (groups ! g)) gs) = r"
    using core_groups_table(3) [OF assms(2,3,4)] by (auto simp: chain_of_def)
  let ?sel = "\<lambda>i. i \<in> set gs" and ?key = "cpu_key pk co"
  let ?ks = "map (\<lambda>g. group_key (groups ! g)) gs"
  have sel: "select_groups table r (\<lambda>_. False) = Some ?sel"
    using select_groups_chain [OF gs(1)] by simp
  have dk: "distinct ?ks"
  proof -
    have "inj_on (\<lambda>i. map group_key groups ! i) {..<length groups}"
      using gc by (simp add: groups_count_def inj_on_nth)
    then have "inj_on (\<lambda>g. group_key (groups ! g)) (set gs)"
      using gs(3) by (auto simp: inj_on_def)
    then show ?thesis using gs(2) by (simp add: distinct_map)
  qed
  have csel: "cpu_group_selected groups 0 ?sel (pk c) (co c) \<longleftrightarrow> ?key c \<in> set ?ks" for c
    using gs(3) by (force simp: cpu_group_selected_iff cpu_key_def image_iff)
  have count: "length (filter (\<lambda>c. ?key c \<in> set ?ks) cpus) = r"
  proof -
    have "map (count_key (map ?key cpus)) ?ks = map (\<lambda>g. cg_cpu_count (groups ! g)) gs"
      using gc gs(3) by (simp add: groups_count_def)
    then show ?thesis unfolding selected_cpu_count [OF dk] using gs(4) by argo
  qed
  have "whole_core_partition ?key cpus compute reserved r"
    if sp: "split_masks groups ?sel pk co cpus allowed empty_mask = (compute, reserved)"
  proof -
    have m: "cpu_mask_test compute c \<longleftrightarrow> c \<in> set cpus \<and> ?key c \<notin> set ?ks"
      "cpu_mask_test reserved c \<longleftrightarrow> c \<in> set cpus \<and> ?key c \<in> set ?ks"
      if "c < RESOURCE_CPU_MAX" for c
      using split_masks_correct [OF sp, of c] allowed that unfolding csel by auto
    have b: "\<forall>c \<in> set cpus. c < RESOURCE_CPU_MAX" using allowed by blast
    have "card {c. c < RESOURCE_CPU_MAX \<and> cpu_mask_test reserved c} = r"
      using card_mask_filter [OF allowed(2) b m(2)] count by simp
    moreover have "card {c. c < RESOURCE_CPU_MAX \<and> cpu_mask_test compute c} = length cpus - r"
      using card_mask_filter [OF allowed(2) b m(1)] count
        sum_length_filter_compl [of "\<lambda>c. ?key c \<in> set ?ks" cpus] by simp
    ultimately show ?thesis
      unfolding whole_core_partition_def using m by blast
  qed
  with sel show ?thesis by blast
qed

text \<open>The request never reaches the number of allowed CPUs.\<close>

lemma additional_reserve_bound:
  assumes "rp_system_cpu_reserve policy < hp_logical_cpu_count profile"
    and "n \<le> unat (hp_logical_cpu_count profile)" and "0 < n"
  shows "unat (additional_allowed_cpu_reserve profile policy n) < n"
proof -
  have n: "unat (of_nat n :: u32) = n"
    using assms(2) unat_lt32 [of "hp_logical_cpu_count profile"] by (simp add: unat_of_nat)
  then have le: "(of_nat n :: u32) \<le> hp_logical_cpu_count profile"
    using assms(2) by (simp add: word_le_nat_alt)
  have u: "unat (hp_logical_cpu_count profile - of_nat n) = unat (hp_logical_cpu_count profile) - n"
    using unat_sub [OF le] n by simp
  show ?thesis
    using assms u unat_sub [of "hp_logical_cpu_count profile - of_nat n" "rp_system_cpu_reserve policy"]
    by (auto simp: additional_allowed_cpu_reserve_def Let_def word_less_nat_alt word_le_nat_alt)
qed

lemma build_core_reserve_returns:
  assumes "cpu_topology_input_masks input = Some (allowed, pk, co)"
    and "unat requested < length (ti_allowed_cpu_ids input)"
  shows "\<exists>d. build_core_reserve mesa input allowed pk co requested ext diag = Some d"
proof -
  let ?cpus = "ti_allowed_cpu_ids input"
  let ?groups = "core_groups pk co ?cpus"
  let ?table = "dp_table (length ?cpus) ?groups"
  let ?r = "choose_reserved_count (dp_reachable ?table) (length ?cpus) (unat requested)"
  note facts = cpu_topology_input_masks_facts [OF assms(1)]
  have "dp_reachable ?table ?r"
    using core_groups_table(2) [OF refl refl] assms(2) by (rule choose_reserved_count_spec(1))
  from reserve_selection [OF facts(1) refl refl this]
  obtain sel where "select_groups ?table ?r (\<lambda>_. False) = Some sel" by blast
  then show ?thesis
    by (auto simp: build_core_reserve_def Let_def split: prod.splits)
qed

lemma build_cpu_policy_returns:
  assumes "rp_system_cpu_reserve policy < hp_logical_cpu_count profile"
  shows "\<exists>d. build_cpu_policy mesa profile policy input_opt = Some d"
proof (cases input_opt)
  case None
  then show ?thesis by (simp add: build_cpu_policy_def)
next
  case (Some input)
  show ?thesis
  proof (cases "cpu_topology_input_masks input")
    case None
    with Some show ?thesis by (simp add: build_cpu_policy_def Let_def)
  next
    case (Some m)
    obtain allowed pk co where m: "m = (allowed, pk, co)" using prod_cases3 by blast
    let ?n = "length (ti_allowed_cpu_ids input)"
    have n: "0 < ?n" using cpu_topology_input_masks_facts(2) [OF Some [unfolded m]] by simp
    have "\<exists>d. build_core_reserve mesa input allowed pk co
        (additional_allowed_cpu_reserve profile policy ?n) ext diag = Some d"
      if "?n \<le> unat (hp_logical_cpu_count profile)" for ext diag
      using Some m n additional_reserve_bound [OF assms that n] by (intro build_core_reserve_returns) auto
    with Some m \<open>input_opt = Some input\<close> show ?thesis
      by (auto simp: build_cpu_policy_def Let_def)
  qed
qed

lemma build_core_reserve_configured:
  assumes "cpu_topology_input_masks input = Some (allowed, pk, co)"
    and "unat requested < length (ti_allowed_cpu_ids input)" and "requested \<noteq> 0"
    and "build_core_reserve mesa input allowed pk co requested ext diag = Some d"
    and "cp_affinity_configured d" and "cp_allowed_mask diag = allowed"
  defines "cpus \<equiv> ti_allowed_cpu_ids input"
  shows "cp_allowed_mask d = allowed"
    and "whole_core_partition (cpu_key pk co) cpus (cp_compute_mask d) (cp_reserved_mask d)
      (unat (cp_reserved_cpu_count d))"
    and "unat (cp_reserved_cpu_count d) =
      choose_reserved_count (dp_reachable (dp_table (length cpus) (core_groups pk co cpus)))
        (length cpus) (unat requested)"
    and "0 < unat (cp_reserved_cpu_count d)"
    and "unat (cp_reserved_cpu_count d) < length cpus"
    and "unat (cp_compute_cpu_count d) = length cpus - unat (cp_reserved_cpu_count d)"
proof -
  let ?groups = "core_groups pk co cpus"
  let ?table = "dp_table (length cpus) ?groups"
  let ?r = "choose_reserved_count (dp_reachable ?table) (length cpus) (unat requested)"
  note facts = cpu_topology_input_masks_facts [OF assms(1), folded cpus_def]
  note R0 = core_groups_table(2) [of ?groups pk co cpus, OF refl refl]
  have req: "unat requested < length cpus" using assms(2) by (simp add: cpus_def)
  have reach: "dp_reachable ?table ?r" and less: "?r < length cpus"
    using choose_reserved_count_spec(1,2) [of "dp_reachable ?table", OF R0 req] by auto
  have nz: "?r \<noteq> 0"
  proof
    assume "?r = 0"
    with assms(4,5) show False
      by (auto simp: build_core_reserve_def Let_def cpus_def cpu_policy_count_fallback_def)
  qed
  obtain compute reserved sel where sel: "select_groups ?table ?r (\<lambda>_. False) = Some sel"
    and sp: "split_masks ?groups sel pk co cpus allowed empty_mask = (compute, reserved)"
    and part: "whole_core_partition (cpu_key pk co) cpus compute reserved ?r"
    using reserve_selection [OF facts(1) refl refl reach] by (metis surj_pair option.inject)
  have d: "d = diag\<lparr>cp_affinity_configured := True, cp_externally_constrained := ext,
      cp_compute_cpu_count := of_nat (length cpus) - of_nat ?r, cp_reserved_cpu_count := of_nat ?r,
      cp_compute_mask := compute, cp_reserved_mask := reserved,
      cp_reason := ''topology-complete-core-reserve''\<rparr>"
    using assms(4) nz sel sp by (simp add: build_core_reserve_def Let_def cpus_def)
  have n: "length cpus < 4294967296" using facts(4) by (simp add: RESOURCE_CPU_MAX_def)
  have un: "unat (of_nat (length cpus) :: u32) = length cpus"
    and ur: "unat (of_nat ?r :: u32) = ?r"
    using n less by (simp_all add: unat_of_nat)
  show "cp_allowed_mask d = allowed" using d assms(6) by simp
  show r: "unat (cp_reserved_cpu_count d) = ?r" using d ur by simp
  show "whole_core_partition (cpu_key pk co) cpus (cp_compute_mask d) (cp_reserved_mask d)
      (unat (cp_reserved_cpu_count d))" using r d part by simp
  show "0 < unat (cp_reserved_cpu_count d)" using r nz by simp
  show "unat (cp_reserved_cpu_count d) < length cpus" using r less by simp
  have "(of_nat ?r :: u32) \<le> of_nat (length cpus)"
    using less un ur by (simp add: word_le_nat_alt)
  then show "unat (cp_compute_cpu_count d) = length cpus - unat (cp_reserved_cpu_count d)"
    using d un ur by (simp add: unat_sub)
qed

lemma whole_core_partition_all:
  assumes "allowed_mask_loop cpus empty_mask = Some allowed"
  shows "whole_core_partition key cpus allowed empty_mask 0"
proof -
  note allowed = allowed_mask_loop_empty [OF assms]
  have "card {c. c < RESOURCE_CPU_MAX \<and> cpu_mask_test allowed c} = length (filter (\<lambda>_. True) cpus)"
    using allowed by (intro card_mask_filter) auto
  moreover have "{c. c < RESOURCE_CPU_MAX \<and> cpu_mask_test empty_mask c} = {}" by auto
  ultimately show ?thesis
    unfolding whole_core_partition_def using allowed(4) by (auto intro: exI [of _ "[]"])
qed

text \<open>What a configured policy comes from.\<close>

lemma build_cpu_policy_cases:
  assumes "build_cpu_policy mesa profile policy (Some input) = Some d"
    and "cp_affinity_configured d"
    and "rp_system_cpu_reserve policy < hp_logical_cpu_count profile"
  obtains (all_cpus) allowed pk co where
      "cpu_topology_input_masks input = Some (allowed, pk, co)"
      "cp_allowed_mask d = allowed" "cp_compute_mask d = allowed"
      "cp_reserved_mask d = empty_mask" "cp_reserved_cpu_count d = 0"
      "cp_compute_cpu_count d = of_nat (length (ti_allowed_cpu_ids input))"
      "length (ti_allowed_cpu_ids input) \<le> unat (hp_logical_cpu_count profile)"
      "additional_allowed_cpu_reserve profile policy (length (ti_allowed_cpu_ids input)) = 0"
  | (cores) allowed pk co ext diag where
      "cpu_topology_input_masks input = Some (allowed, pk, co)"
      "ti_topology_available input" "cp_allowed_mask diag = allowed"
      "length (ti_allowed_cpu_ids input) \<le> unat (hp_logical_cpu_count profile)"
      "additional_allowed_cpu_reserve profile policy (length (ti_allowed_cpu_ids input)) \<noteq> 0"
      "unat (additional_allowed_cpu_reserve profile policy (length (ti_allowed_cpu_ids input)))
         < length (ti_allowed_cpu_ids input)"
      "build_core_reserve mesa input allowed pk co
         (additional_allowed_cpu_reserve profile policy (length (ti_allowed_cpu_ids input)))
         ext diag = Some d"
proof (cases "cpu_topology_input_masks input")
  case None
  then show ?thesis using assms
    by (auto simp: build_cpu_policy_def Let_def cpu_policy_count_fallback_def split: if_splits)
next
  case (Some m)
  obtain allowed pk co where m: "m = (allowed, pk, co)" using prod_cases3 by blast
  let ?n = "length (ti_allowed_cpu_ids input)"
  let ?req = "additional_allowed_cpu_reserve profile policy ?n"
  note facts = cpu_topology_input_masks_facts [OF Some [unfolded m]]
  have le: "?n \<le> unat (hp_logical_cpu_count profile)"
    using assms Some m facts
    by (auto simp: build_cpu_policy_def Let_def cpu_policy_count_fallback_def split: if_splits)
  show ?thesis
  proof (cases "?req = 0")
    case True
    have "cp_reserved_mask d = empty_mask"
      "cp_allowed_mask d = allowed" "cp_compute_mask d = allowed" "cp_reserved_cpu_count d = 0"
      "cp_compute_cpu_count d = of_nat ?n"
      using assms(1) Some m facts(3) le True
      by (auto simp: build_cpu_policy_def Let_def cpu_policy_count_fallback_def)
    with Some m le True show ?thesis using all_cpus by blast
  next
    case False
    have t: "ti_topology_available input"
      using assms Some m facts(3) le False
      by (auto simp: build_cpu_policy_def Let_def cpu_policy_count_fallback_def split: if_splits)
    obtain ext diag where "cp_allowed_mask diag = allowed"
      "build_core_reserve mesa input allowed pk co ?req ext diag = Some d"
    proof
      show "build_core_reserve mesa input allowed pk co ?req
        (?n < unat (hp_logical_cpu_count profile))
        ((cpu_policy_count_fallback mesa (hp_logical_cpu_count profile)
            (rp_system_cpu_reserve policy) False ''fallback-portable-affinity-unavailable'')
            \<lparr>cp_allowed_mask := allowed\<rparr>) = Some d"
        using assms(1) Some m facts(3) le False t by (simp add: build_cpu_policy_def Let_def)
    qed simp
    then show ?thesis
      using Some m t le False additional_reserve_bound [OF assms(3) le] facts(2) cores by auto
  qed
qed

section \<open>Properties\<close>

text \<open>
  C4. \<open>build_cpu_policy\<close> always returns (its parent-link reconstruction ends), and when it
  configures affinity the masks partition the allowed CPUs into a compute pool and a host
  reserve of the announced sizes, with at least one CPU in the compute pool.
\<close>

theorem cpu_policy_partition:
  assumes "valid_policy profile policy"
  shows "\<exists>d. build_cpu_policy mesa profile policy (Some input) = Some d \<and>
    (cp_affinity_configured d \<longrightarrow>
      (\<forall>c < RESOURCE_CPU_MAX.
        (cpu_mask_test (cp_allowed_mask d) c \<longleftrightarrow> c \<in> set (ti_allowed_cpu_ids input))
        \<and> (cpu_mask_test (cp_allowed_mask d) c \<longleftrightarrow>
             cpu_mask_test (cp_compute_mask d) c \<or> cpu_mask_test (cp_reserved_mask d) c)
        \<and> \<not> (cpu_mask_test (cp_compute_mask d) c \<and> cpu_mask_test (cp_reserved_mask d) c))
      \<and> card {c. c < RESOURCE_CPU_MAX \<and> cpu_mask_test (cp_compute_mask d) c}
          = unat (cp_compute_cpu_count d)
      \<and> card {c. c < RESOURCE_CPU_MAX \<and> cpu_mask_test (cp_reserved_mask d) c}
          = unat (cp_reserved_cpu_count d)
      \<and> 0 < unat (cp_compute_cpu_count d))"
proof -
  let ?cpus = "ti_allowed_cpu_ids input"
  have reserve: "rp_system_cpu_reserve policy < hp_logical_cpu_count profile"
    using assms by (simp add: valid_policy_def)
  obtain d where d: "build_cpu_policy mesa profile policy (Some input) = Some d"
    using build_cpu_policy_returns [OF reserve] by blast
  have parts: "\<exists>key allowed. allowed_mask_loop ?cpus empty_mask = Some allowed \<and> ?cpus \<noteq> []
      \<and> cp_allowed_mask d = allowed
      \<and> whole_core_partition key ?cpus (cp_compute_mask d) (cp_reserved_mask d)
          (unat (cp_reserved_cpu_count d))
      \<and> unat (cp_compute_cpu_count d) = length ?cpus - unat (cp_reserved_cpu_count d)
      \<and> unat (cp_reserved_cpu_count d) < length ?cpus" if c: "cp_affinity_configured d"
    using d c reserve
  proof (cases rule: build_cpu_policy_cases)
    case (all_cpus allowed pk co)
    note facts = cpu_topology_input_masks_facts [OF all_cpus(1)]
    have "unat (of_nat (length ?cpus) :: u32) = length ?cpus"
      using facts(4) by (simp add: unat_of_nat RESOURCE_CPU_MAX_def)
    with facts(1,2) all_cpus whole_core_partition_all [OF facts(1)] show ?thesis by auto
  next
    case (cores allowed pk co ext diag)
    note facts = cpu_topology_input_masks_facts [OF cores(1)]
    from build_core_reserve_configured [OF cores(1,6,5,7) c cores(3)] facts(1,2)
    show ?thesis by blast
  qed
  have "\<exists>allowed. allowed_mask_loop ?cpus empty_mask = Some allowed" if "cp_affinity_configured d"
    using parts [OF that] by blast
  with d parts show ?thesis
    by (intro exI [of _ d])
      (auto simp: whole_core_partition_def allowed_mask_loop_empty(4) dest!: parts)
qed

text \<open>A four-CPU host with two SMT cores, used as a concrete input.\<close>

definition sample_topology :: cpu_topology_input where
  "sample_topology =
     \<lparr>ti_affinity_available = True, ti_topology_available = True,
       ti_allowed_cpu_ids = [0, 1, 2, 3],
       ti_topology_entries =
         [\<lparr>te_cpu_id = 0, te_package_id = 0, te_core_id = 0\<rparr>,
          \<lparr>te_cpu_id = 1, te_package_id = 0, te_core_id = 1\<rparr>,
          \<lparr>te_cpu_id = 2, te_package_id = 0, te_core_id = 0\<rparr>,
          \<lparr>te_cpu_id = 3, te_package_id = 0, te_core_id = 1\<rparr>]\<rparr>"

definition sample_profile :: hardware_profile where
  "sample_profile =
     \<lparr>hp_logical_cpu_count = 4, hp_memory_total_bytes = 16000000000, hp_gpu_available = True,
       hp_gpu_drm_card_index = 0, hp_gpu_memory_known = False,
       hp_gpu_uses_shared_memory = True, hp_gpu_memory_total_bytes = 0\<rparr>"

definition sample_policy :: resource_policy where
  "sample_policy = (policy_default_value sample_profile)\<lparr>rp_system_cpu_reserve := 1\<rparr>"

lemma sample_policy_valid: "valid_policy sample_profile sample_policy"
  by code_simp

lemma sample_cpu_policy:
  "map_option (\<lambda>d. (cp_affinity_configured d, cp_reserved_cpu_count d,
       take 1 (cp_compute_mask d), take 1 (cp_reserved_mask d)))
     (build_cpu_policy None sample_profile sample_policy (Some sample_topology))
   = Some (True, 2, [5], [10])"
  by code_simp

theorem cpu_policy_partition_witness:
  "valid_policy sample_profile sample_policy \<and>
   (\<exists>d. build_cpu_policy None sample_profile sample_policy (Some sample_topology) = Some d
     \<and> cp_affinity_configured d \<and> cp_reserved_cpu_count d = 2
     \<and> card {c. c < RESOURCE_CPU_MAX \<and> cpu_mask_test (cp_reserved_mask d) c} = 2)"
  using cpu_policy_partition [OF sample_policy_valid, of None sample_topology]
    sample_cpu_policy sample_policy_valid by auto

text \<open>
  The configured reserve never splits a physical core: two allowed CPUs of the same
  package and core are either both reserved or both in the compute pool.
\<close>

theorem cpu_policy_keeps_cores_whole:
  assumes "valid_policy profile policy" and "ti_topology_available input"
    and "build_cpu_policy mesa profile policy (Some input) = Some d"
    and "cp_affinity_configured d"
    and "e \<in> set (ti_topology_entries input)" and "f \<in> set (ti_topology_entries input)"
    and "te_package_id e = te_package_id f" and "te_core_id e = te_core_id f"
  shows "cpu_mask_test (cp_reserved_mask d) (te_cpu_id e)
    = cpu_mask_test (cp_reserved_mask d) (te_cpu_id f)"
proof -
  have reserve: "rp_system_cpu_reserve policy < hp_logical_cpu_count profile"
    using assms by (simp add: valid_policy_def)
  have masks: "pk (te_cpu_id x) = te_package_id x \<and> co (te_cpu_id x) = te_core_id x
      \<and> te_cpu_id x < RESOURCE_CPU_MAX \<and> te_cpu_id x \<in> set (ti_allowed_cpu_ids input)"
    if "cpu_topology_input_masks input = Some (allowed, pk, co)"
      and "x \<in> set (ti_topology_entries input)" for allowed pk co x
  proof -
    have "topology_entries_loop (ti_topology_entries input) allowed (\<lambda>_. False) (\<lambda>_. 0) (\<lambda>_. 0)
        = Some (pk, co)"
      using that(1) assms(2)
      by (auto simp: cpu_topology_input_masks_def split: if_splits option.splits prod.splits)
    from topology_entries_loop_stores [OF this that(2)]
      allowed_mask_loop_empty(4) [OF cpu_topology_input_masks_facts(1) [OF that(1)]]
    show ?thesis by blast
  qed
  from assms(3,4) reserve show ?thesis
  proof (cases rule: build_cpu_policy_cases)
    case (all_cpus allowed pk co)
    with masks [OF all_cpus(1) assms(5)] masks [OF all_cpus(1) assms(6)] show ?thesis by simp
  next
    case (cores allowed pk co ext diag)
    from build_core_reserve_configured(2) [OF cores(1,6,5,7) assms(4) cores(3)]
      masks [OF cores(1) assms(5)] masks [OF cores(1) assms(6)] assms(7,8)
    show ?thesis by (auto simp: whole_core_partition_def cpu_key_def)
  qed
qed

theorem cpu_policy_keeps_cores_whole_witness:
  "\<exists>d. build_cpu_policy None sample_profile sample_policy (Some sample_topology) = Some d
     \<and> cp_affinity_configured d
     \<and> cpu_mask_test (cp_reserved_mask d) 0 = cpu_mask_test (cp_reserved_mask d) 2"
proof -
  obtain d where d: "build_cpu_policy None sample_profile sample_policy (Some sample_topology)
      = Some d" "cp_affinity_configured d"
    using sample_cpu_policy by auto
  show ?thesis
    using cpu_policy_keeps_cores_whole [OF sample_policy_valid _ d,
        of "ti_topology_entries sample_topology ! 0" "ti_topology_entries sample_topology ! 2"] d
    by (simp add: sample_topology_def)
qed

text \<open>The CPU counts that are sums over whole cores of a topology.\<close>

definition whole_core_sum :: "cpu_topology_input \<Rightarrow> nat \<Rightarrow> bool" where
  "whole_core_sum input s \<longleftrightarrow>
     (case cpu_topology_input_masks input of
        None \<Rightarrow> False
      | Some (allowed, package_ids, core_ids) \<Rightarrow>
          subset_sums (core_groups package_ids core_ids (ti_allowed_cpu_ids input)) s)"

text \<open>
  The reserve is minimal: it is a sum of whole-core CPU counts, and no sum of whole-core
  CPU counts lies between the requested reserve and the chosen one; a reserve below the
  request is chosen only when no such sum leaves a compute CPU.
\<close>

theorem cpu_policy_reserve_minimal:
  assumes "valid_policy profile policy"
    and "build_cpu_policy mesa profile policy (Some input) = Some d"
    and "cp_affinity_configured d"
    and "request = additional_allowed_cpu_reserve profile policy (length (ti_allowed_cpu_ids input))"
  shows "whole_core_sum input (unat (cp_reserved_cpu_count d)) \<and>
    (\<forall>s. whole_core_sum input s \<and> unat request \<le> s \<and> s < length (ti_allowed_cpu_ids input)
      \<longrightarrow> unat request \<le> unat (cp_reserved_cpu_count d) \<and> unat (cp_reserved_cpu_count d) \<le> s)"
  using assms(2,3) assms(1) [unfolded valid_policy_def, THEN conjunct2, THEN conjunct2,
    THEN conjunct2, THEN conjunct1]
proof (cases rule: build_cpu_policy_cases)
  case (all_cpus allowed pk co)
  then show ?thesis using assms(4) by (simp add: whole_core_sum_def subset_sums_zero)
next
  case (cores allowed pk co ext diag)
  let ?cpus = "ti_allowed_cpu_ids input" and ?r = "unat (cp_reserved_cpu_count d)"
  let ?table = "dp_table (length ?cpus) (core_groups pk co ?cpus)"
  note conf = build_core_reserve_configured [OF cores(1,6,5,7) assms(3) cores(3)]
  note table = core_groups_table [of "core_groups pk co ?cpus" pk co ?cpus ?table, OF refl refl]
  have sums: "whole_core_sum input s \<longleftrightarrow> dp_reachable ?table s" if "s \<le> length ?cpus" for s
    using cores(1) table(1) [OF that] by (simp add: whole_core_sum_def)
  have req: "unat request < length ?cpus" using cores(6) assms(4) by simp
  note spec = choose_reserved_count_spec [of "dp_reachable ?table", OF table(2) req,
      folded conf(3) [folded assms(4)]]
  have "unat request \<le> ?r \<and> ?r \<le> s"
    if s: "whole_core_sum input s" "unat request \<le> s" "s < length ?cpus" for s
  proof (cases "unat request \<le> ?r")
    case True
    with spec(3) [OF True s(2)] s sums show ?thesis by (meson less_imp_le not_le)
  next
    case False
    with spec(4) [of s] s sums show ?thesis by (auto simp: not_le)
  qed
  with spec(1,2) sums show ?thesis by auto
qed

theorem cpu_policy_reserve_minimal_witness:
  "\<exists>d. build_cpu_policy None sample_profile sample_policy (Some sample_topology) = Some d
     \<and> cp_affinity_configured d \<and> whole_core_sum sample_topology 2
     \<and> unat (cp_reserved_cpu_count d) \<le> 2"
proof -
  obtain d where d: "build_cpu_policy None sample_profile sample_policy (Some sample_topology)
      = Some d" "cp_affinity_configured d"
    using sample_cpu_policy by auto
  have w: "whole_core_sum sample_topology 2"
    "unat (additional_allowed_cpu_reserve sample_profile sample_policy
       (length (ti_allowed_cpu_ids sample_topology))) \<le> 2"
    "2 < length (ti_allowed_cpu_ids sample_topology)"
    by code_simp+
  from cpu_policy_reserve_minimal [OF sample_policy_valid d refl] w d show ?thesis by blast
qed

end
