(* ===== verification/Governor_State.thy ===== *)
theory Governor_State
  imports Cpu_Policy
begin

text \<open>
  The state of \<open>struct Lardon3DResourceGovernor\<close> that admission and accounting use
  (\<open>src/resource_governor.c\<close>). The record is extensible: capability feedback and external
  storage extend it in their own theories, and every operation here is stated for any
  extension. A reservation object is identified by the address \<open>calloc\<close> gave it; addresses
  come from a counter, which is sound because the Governor frees no reservation before it is
  destroyed. The accounting part of the state is \<open>gov_accounts\<close>, and \<open>gov_inv\<close> is the
  invariant every operation keeps.
\<close>

section \<open>State\<close>

record batch_metrics =
  bm_batch_size :: size_t
  bm_duration_ns :: u64
  bm_peak_memory_bytes :: size_t

definition BATCH_METRICS_CAPACITY :: nat where "BATCH_METRICS_CAPACITY = 8"

text \<open>One ring of measured batches: the slots, \<open>count\<close> and \<open>head\<close>.\<close>

record batch_ring =
  br_slots :: "batch_metrics list"
  br_count :: nat
  br_head :: nat

record reservation =
  rv_address :: nat
  rv_information :: reservation_info
  rv_charged_memory_bytes :: u64

record governor =
  g_generation :: u64
  g_profile :: hardware_profile
  g_policy :: resource_policy
  g_next_reservation_id :: u64
  g_memory_reserved_bytes :: u64
  g_gpu_memory_reserved_bytes :: u64
  g_cpu_reserved :: u32
  g_gpu_slots_reserved :: u32
  g_io_slots_reserved :: u32
  g_batch_rings :: "batch_ring list"
  g_cpu_topology :: cpu_topology_input
  g_cpu_policy :: cpu_policy_diagnostic
  g_active_count :: size_t
  g_swap_baseline_known :: bool
  g_last_swap_pages_in :: u64
  g_last_swap_pages_out :: u64
  g_pressure_streak :: u32
  g_recovery_streak :: u32
  g_slow_start_streak :: u32
  g_slow_start_limit :: size_t
  g_slow_start_active :: bool
  g_pressure :: pressure
  g_internal_now :: "timespec option"
  g_internal_force_capture_failure :: bool
  g_active :: "reservation list"
  g_released :: "reservation list"
  g_heap_next :: nat

text \<open>
  What the operating system answers during one call: whether \<open>calloc\<close> succeeds, the two
  clocks, and the result of \<open>lardon3d_resource_snapshot_capture\<close>; \<^const>\<open>None\<close> is failure.
\<close>

record environment =
  ev_alloc :: bool
  ev_monotonic :: "timespec option"
  ev_realtime :: "timespec option"
  ev_capture :: "resource_snapshot option"

section \<open>The batch rings\<close>

definition empty_ring :: batch_ring where
  "empty_ring = \<lparr>br_slots = replicate BATCH_METRICS_CAPACITY
     \<lparr>bm_batch_size = 0, bm_duration_ns = 0, bm_peak_memory_bytes = 0\<rparr>,
     br_count = 0, br_head = 0\<rparr>"

definition ring_push :: "batch_metrics \<Rightarrow> batch_ring \<Rightarrow> batch_ring" where
  "ring_push m r =
     (let head = (br_head r + 1) mod BATCH_METRICS_CAPACITY in
      \<lparr>br_slots = (br_slots r)[br_head r := m],
        br_count = (if br_count r < BATCH_METRICS_CAPACITY then br_count r + 1 else br_count r),
        br_head = head\<rparr>)"

definition ring_at :: "batch_ring \<Rightarrow> nat \<Rightarrow> batch_metrics" where
  "ring_at r i = br_slots r !
     ((br_head r + BATCH_METRICS_CAPACITY - br_count r + i) mod BATCH_METRICS_CAPACITY)"

text \<open>The samples of a ring, oldest first.\<close>

definition ring_samples :: "batch_ring \<Rightarrow> batch_metrics list" where
  "ring_samples r = map (ring_at r) [0..<br_count r]"

definition ring_ok :: "batch_ring \<Rightarrow> bool" where
  "ring_ok r \<longleftrightarrow> length (br_slots r) = BATCH_METRICS_CAPACITY
     \<and> br_count r \<le> BATCH_METRICS_CAPACITY \<and> br_head r < BATCH_METRICS_CAPACITY"

lemma ring_ok_empty [simp]: "ring_ok empty_ring"
  by (simp add: ring_ok_def empty_ring_def BATCH_METRICS_CAPACITY_def)

lemma ring_ok_push [simp]: "ring_ok r \<Longrightarrow> ring_ok (ring_push m r)"
  by (auto simp: ring_ok_def ring_push_def Let_def BATCH_METRICS_CAPACITY_def)

text \<open>The ring holds the last eight samples in the order they were recorded.\<close>

definition slot_index :: "nat \<Rightarrow> nat \<Rightarrow> nat \<Rightarrow> nat" where
  "slot_index h c i = (if c \<le> h + i then h + i - c else h + 8 + i - c)"

lemma mod8_sub: "8 \<le> a \<Longrightarrow> a < 16 \<Longrightarrow> a mod 8 = a - (8 :: nat)"
  by (simp add: le_mod_geq)

lemma ring_at_slot_index:
  assumes "ring_ok r" and "i < br_count r"
  shows "ring_at r i = br_slots r ! slot_index (br_head r) (br_count r) i"
proof -
  have "br_head r < 8" "br_count r \<le> 8"
    using assms by (auto simp: ring_ok_def BATCH_METRICS_CAPACITY_def)
  then have "(br_head r + 8 - br_count r + i) mod 8 = slot_index (br_head r) (br_count r) i"
    using assms(2) mod8_sub [of "br_head r + 8 - br_count r + i"]
    by (auto simp: slot_index_def)
  then show ?thesis by (simp add: ring_at_def BATCH_METRICS_CAPACITY_def)
qed

lemma slot_index_less: "h < 8 \<Longrightarrow> c \<le> 8 \<Longrightarrow> i < c \<Longrightarrow> slot_index h c i < 8"
  by (auto simp: slot_index_def)

lemma slot_index_push:
  assumes "h < 8" and "c < 8" and "i \<le> c"
  shows "slot_index ((h + 1) mod 8) (Suc c) i = slot_index h c i"
  using assms mod8_sub [of "h + 1"] by (cases "h = 7") (auto simp: slot_index_def)

lemma slot_index_full:
  assumes "h < 8" and "i < 8"
  shows "slot_index ((h + 1) mod 8) 8 i = (if i = 7 then h else slot_index h 8 (Suc i))"
  using assms mod8_sub [of "h + 1"] by (cases "h = 7") (auto simp: slot_index_def)

lemma slot_index_ne: "h < 8 \<Longrightarrow> c \<le> 8 \<Longrightarrow> i < c \<Longrightarrow> slot_index h c i = h \<longleftrightarrow> c = 8 \<and> i = 0"
  by (auto simp: slot_index_def)

lemma ring_push_samples:
  assumes "ring_ok r"
  shows "ring_samples (ring_push m r) =
    drop (Suc (br_count r) - BATCH_METRICS_CAPACITY) (ring_samples r @ [m])"
proof -
  let ?h = "br_head r" and ?c = "br_count r" and ?s = "br_slots r"
  let ?r = "ring_push m r"
  have ok: "length ?s = 8" "?c \<le> 8" "?h < 8"
    using assms by (auto simp: ring_ok_def BATCH_METRICS_CAPACITY_def)
  have new: "br_head ?r = (?h + 1) mod 8" "br_count ?r = (if ?c < 8 then Suc ?c else ?c)"
    "br_slots ?r = ?s[?h := m]"
    by (auto simp: ring_push_def Let_def BATCH_METRICS_CAPACITY_def)
  show ?thesis
  proof (rule nth_equalityI)
    show "length (ring_samples ?r) =
        length (drop (Suc ?c - BATCH_METRICS_CAPACITY) (ring_samples r @ [m]))"
      using ok new(2) by (auto simp: ring_samples_def BATCH_METRICS_CAPACITY_def)
    fix i assume "i < length (ring_samples ?r)"
    then have i: "i < br_count ?r" by (simp add: ring_samples_def)
    have lhs: "ring_samples ?r ! i = ?s[?h := m] ! slot_index ((?h + 1) mod 8) (br_count ?r) i"
      using i ring_at_slot_index [OF ring_ok_push [OF assms], of i m] new
      by (simp add: ring_samples_def)
    have old: "ring_samples r ! j = ?s ! slot_index ?h ?c j" if "j < ?c" for j
      using ring_at_slot_index [OF assms that] that by (simp add: ring_samples_def)
    show "ring_samples ?r ! i = drop (Suc ?c - BATCH_METRICS_CAPACITY) (ring_samples r @ [m]) ! i"
    proof (cases "?c < 8")
      case True
      then have ic: "i \<le> ?c" and e: "slot_index ((?h + 1) mod 8) (br_count ?r) i = slot_index ?h ?c i"
        using i new(2) ok slot_index_push [of ?h ?c i] by auto
      show ?thesis
      proof (cases "i = ?c")
        case True
        then have "slot_index ?h ?c i = ?h" by (simp add: slot_index_def)
        with True lhs e ok \<open>?c < 8\<close> show ?thesis
          by (simp add: nth_append ring_samples_def BATCH_METRICS_CAPACITY_def)
      next
        case False
        with ic have ic: "i < ?c" by simp
        then have "slot_index ?h ?c i \<noteq> ?h" using ok \<open>?c < 8\<close> slot_index_ne [of ?h ?c i] by simp
        with lhs e old [OF ic] ic \<open>?c < 8\<close> show ?thesis
          by (simp add: nth_append BATCH_METRICS_CAPACITY_def) (simp add: ring_samples_def)
      qed
    next
      case False
      then have c: "?c = 8" using ok by simp
      then have i8: "i < 8" using i new(2) by simp
      show ?thesis
      proof (cases "i = 7")
        case True
        then show ?thesis
          using lhs c ok new(2) slot_index_full [of ?h i]
          by (simp add: nth_append ring_samples_def BATCH_METRICS_CAPACITY_def)
      next
        case False
        then have "slot_index ?h 8 (Suc i) \<noteq> ?h" using ok i8 slot_index_ne [of ?h 8 "Suc i"] by simp
        then show ?thesis
          using lhs c ok new(2) slot_index_full [of ?h i] old [of "Suc i"] i8 False
          by (simp add: nth_append BATCH_METRICS_CAPACITY_def) (simp add: ring_samples_def)
      qed
    qed
  qed
qed

section \<open>The accounting invariant\<close>

text \<open>The budgets the policy leaves to reservations.\<close>

definition memory_budget :: "hardware_profile \<Rightarrow> resource_policy \<Rightarrow> u64" where
  "memory_budget profile policy =
     hp_memory_total_bytes profile - rp_system_memory_reserve_bytes policy"

text \<open>The GPU budget of \<open>set_policy\<close>: unlimited for shared or unknown GPU memory.\<close>

definition gpu_budget :: "hardware_profile \<Rightarrow> resource_policy \<Rightarrow> u64" where
  "gpu_budget profile policy =
     (if hp_gpu_memory_known profile \<and> \<not> hp_gpu_uses_shared_memory profile
      then hp_gpu_memory_total_bytes profile - rp_gpu_memory_reserve_bytes policy
      else UINT64_MAX)"

definition gov_accounts where
  "gov_accounts g =
     (g_profile g, g_policy g, g_next_reservation_id g, g_memory_reserved_bytes g,
      g_gpu_memory_reserved_bytes g, g_cpu_reserved g, g_gpu_slots_reserved g,
      g_io_slots_reserved g, g_cpu_policy g, g_active_count g, g_active g, g_released g,
      g_heap_next g)"

abbreviation rv_id :: "reservation \<Rightarrow> u64" where
  "rv_id r \<equiv> ri_id (rv_information r)"

text \<open>A reservation as \<open>activate_reservation_locked\<close> builds it.\<close>

definition reservation_ok :: "hardware_profile \<Rightarrow> reservation \<Rightarrow> bool" where
  "reservation_ok profile r \<longleftrightarrow>
     rv_id r \<noteq> 0 \<and> 0 < ri_cpu_threads (rv_information r)
     \<and> unat (rv_charged_memory_bytes r) =
         unat (ri_memory_bytes (rv_information r))
         + (if hp_gpu_uses_shared_memory profile
            then unat (ri_gpu_memory_bytes (rv_information r)) else 0)"

abbreviation gov_objects :: "'a governor_scheme \<Rightarrow> reservation list" where
  "gov_objects g \<equiv> g_active g @ g_released g"

definition charged_sum :: "(reservation \<Rightarrow> 'w::len word) \<Rightarrow> 'a governor_scheme \<Rightarrow> nat" where
  "charged_sum f g = sum_list (map (\<lambda>r. unat (f r)) (g_active g))"

abbreviation r_gpu_memory :: "reservation \<Rightarrow> u64" where
  "r_gpu_memory r \<equiv> ri_gpu_memory_bytes (rv_information r)"
abbreviation r_cpu :: "reservation \<Rightarrow> u32" where
  "r_cpu r \<equiv> ri_cpu_threads (rv_information r)"
abbreviation r_gpu_slots :: "reservation \<Rightarrow> u32" where
  "r_gpu_slots r \<equiv> ri_gpu_slots (rv_information r)"
abbreviation r_io_slots :: "reservation \<Rightarrow> u32" where
  "r_io_slots r \<equiv> ri_io_slots (rv_information r)"

text \<open>
  \<open>gov_counters\<close>: every counter is the sum over the active reservations, read without
  wrap-around. \<open>gov_budgets\<close>: no counter passes its budget. \<open>gov_heap\<close>: the addresses of the
  objects are exactly the allocated ones, without repetition. \<open>gov_ids\<close>: identities are
  fresh until the 64-bit counter is exhausted, which the value 0 marks.
\<close>

definition gov_counters :: "'a governor_scheme \<Rightarrow> bool" where
  "gov_counters g \<longleftrightarrow>
     unat (g_memory_reserved_bytes g) = charged_sum rv_charged_memory_bytes g
     \<and> unat (g_gpu_memory_reserved_bytes g) = charged_sum r_gpu_memory g
     \<and> unat (g_cpu_reserved g) = charged_sum r_cpu g
     \<and> unat (g_gpu_slots_reserved g) = charged_sum r_gpu_slots g
     \<and> unat (g_io_slots_reserved g) = charged_sum r_io_slots g
     \<and> unat (g_active_count g) = length (g_active g)"

definition gov_budgets :: "'a governor_scheme \<Rightarrow> bool" where
  "gov_budgets g \<longleftrightarrow>
     g_memory_reserved_bytes g \<le> memory_budget (g_profile g) (g_policy g)
     \<and> g_gpu_memory_reserved_bytes g \<le> gpu_budget (g_profile g) (g_policy g)
     \<and> g_cpu_reserved g \<le> cp_compute_cpu_count (g_cpu_policy g)
     \<and> g_gpu_slots_reserved g \<le> rp_gpu_slot_capacity (g_policy g)
     \<and> g_io_slots_reserved g \<le> rp_io_slot_capacity (g_policy g)"

definition gov_heap :: "'a governor_scheme \<Rightarrow> bool" where
  "gov_heap g \<longleftrightarrow> distinct (map rv_address (gov_objects g))
     \<and> rv_address ` set (gov_objects g) = {..<g_heap_next g}"

definition gov_ids :: "'a governor_scheme \<Rightarrow> bool" where
  "gov_ids g \<longleftrightarrow> distinct (map rv_id (gov_objects g))
     \<and> (g_next_reservation_id g = 0
        \<or> (\<forall>r \<in> set (gov_objects g). rv_id r < g_next_reservation_id g))"

definition gov_states :: "'a governor_scheme \<Rightarrow> bool" where
  "gov_states g \<longleftrightarrow>
     (\<forall>r \<in> set (g_active g). ri_state (rv_information r) = RESERVATION_ACTIVE)
     \<and> (\<forall>r \<in> set (g_released g). ri_state (rv_information r) = RESERVATION_RELEASED)
     \<and> (\<forall>r \<in> set (gov_objects g). reservation_ok (g_profile g) r)"

definition accounts_inv :: "'a governor_scheme \<Rightarrow> bool" where
  "accounts_inv g \<longleftrightarrow> valid_policy (g_profile g) (g_policy g)
     \<and> gov_counters g \<and> gov_budgets g \<and> gov_heap g \<and> gov_ids g \<and> gov_states g"

definition pressure_inv :: "'a governor_scheme \<Rightarrow> bool" where
  "pressure_inv g \<longleftrightarrow>
     g_pressure_streak g \<le> 2 \<and> g_recovery_streak g < 3 \<and> g_slow_start_streak g < 3
     \<and> 0 < g_slow_start_limit g
     \<and> (g_pressure g = PRESSURE_RED \<longrightarrow> g_slow_start_active g)
     \<and> (\<not> g_slow_start_active g \<longrightarrow> g_slow_start_limit g = SIZE_MAX)"

definition rings_inv :: "'a governor_scheme \<Rightarrow> bool" where
  "rings_inv g \<longleftrightarrow> length (g_batch_rings g) = 6 \<and> list_all ring_ok (g_batch_rings g)"

definition gov_inv :: "'a governor_scheme \<Rightarrow> bool" where
  "gov_inv g \<longleftrightarrow> accounts_inv g \<and> pressure_inv g \<and> rings_inv g"

lemma accounts_inv_cong:
  assumes "gov_accounts g = gov_accounts h"
  shows "accounts_inv g = accounts_inv h"
  using assms
  by (simp add: gov_accounts_def accounts_inv_def gov_counters_def gov_budgets_def gov_heap_def
    gov_ids_def gov_states_def charged_sum_def)

lemma charged_member:
  assumes "unat (c :: 'w::len word) = charged_sum f g" and "r \<in> set (g_active g)"
  shows "f r \<le> c"
  using assms member_le_sum_nat [of r "g_active g" "\<lambda>r. unat (f r)"]
  by (simp add: charged_sum_def word_le_nat_alt)

text \<open>
  Removing an active reservation takes its charge off a counter, exactly.
\<close>

lemma charged_sum_remove:
  assumes "unat (c :: 'w::len word) = charged_sum f g"
    and "distinct (map rv_address (g_active g))" and "r \<in> set (g_active g)"
    and "g_active h = filter (\<lambda>x. rv_address x \<noteq> rv_address r) (g_active g)"
  shows "unat (c - f r) = charged_sum f h"
proof -
  have "charged_sum f g = unat (f r) + charged_sum f h"
    using sum_list_remove [OF assms(2,3), of "\<lambda>r. unat (f r)"] assms(4)
    by (simp add: charged_sum_def)
  then show ?thesis
    using assms(1) charged_member [OF assms(1,3)] by (simp add: unat_sub)
qed

text \<open>Adding one puts its charge on the counter when the result stays within the width.\<close>

lemma charged_sum_add:
  assumes "unat (c :: 'w::len word) = charged_sum f g" and "g_active h = r # g_active g"
    and "c \<le> b" and "f r \<le> b - c"
  shows "unat (c + f r) = charged_sum f h" and "c + f r \<le> b"
proof -
  have "unat (f r) \<le> unat b - unat c" using assms(3,4) by (simp add: word_le_nat_alt unat_sub)
  moreover have "unat c \<le> unat b" using assms(3) by (simp add: word_le_nat_alt)
  ultimately have le: "unat c + unat (f r) \<le> unat b" by simp
  then have "unat c + unat (f r) < 2 ^ LENGTH('w)"
    using unsigned_less [of b] by (rule order_le_less_trans)
  then have "unat (c + f r) = unat c + unat (f r)"
    by (simp add: unat_word_ariths)
  then show "unat (c + f r) = charged_sum f h" and "c + f r \<le> b"
    using assms le by (auto simp: charged_sum_def word_le_nat_alt)
qed

end
