(* ===== verification/Governor_Admission.thy ===== *)
theory Governor_Admission
  imports Governor_State
begin

text \<open>
  Admission (\<open>src/resource_governor.c\<close>, \<open>evaluate_locked\<close> with \<open>availability_locked\<close>,
  \<open>internal_memory_floors_locked\<close>, \<open>record_batch_locked\<close> and \<open>adaptive_batch_limit\<close>). The
  C function is one block; here its two parts, the update of the host-pressure state machine
  and the decision on the updated state, are definitions of their own, composed by
  \<open>evaluate_locked\<close>. A result \<^const>\<open>None\<close> is the \<open>false\<close> return, which writes no decision.
\<close>

definition RESOURCE_REASON_CAPACITY :: nat where "RESOURCE_REASON_CAPACITY = 256"

definition set_decision ::
    "decision_kind \<Rightarrow> size_t \<Rightarrow> u32 \<Rightarrow> u32 \<Rightarrow> u32 \<Rightarrow> string \<Rightarrow> resource_decision" where
  "set_decision kind batch_size cpu_threads gpu_slots io_slots reason =
     \<lparr>rd_kind = kind, rd_batch_size = batch_size, rd_cpu_threads = cpu_threads,
       rd_gpu_slots = gpu_slots, rd_io_slots = io_slots,
       rd_reason = copy_text RESOURCE_REASON_CAPACITY reason\<rparr>"

lemma set_decision_simps [simp]:
  "rd_kind (set_decision k b c g i r) = k"
  "rd_batch_size (set_decision k b c g i r) = b"
  "rd_cpu_threads (set_decision k b c g i r) = c"
  "rd_gpu_slots (set_decision k b c g i r) = g"
  "rd_io_slots (set_decision k b c g i r) = i"
  by (simp_all add: set_decision_def)

abbreviation reject :: "string \<Rightarrow> resource_decision" where
  "reject \<equiv> set_decision RESOURCE_REJECT 0 0 0 0"

abbreviation wait :: "string \<Rightarrow> resource_decision" where
  "wait \<equiv> set_decision RESOURCE_WAIT 0 0 0 0"

text \<open>UTF-8 of e with an acute accent.\<close>

definition e_acute :: string where "e_acute = [CHR 0xC3, CHR 0xA9]"

section \<open>Memory floors and availability\<close>

definition internal_memory_floors_locked :: "'a governor_scheme \<Rightarrow> memory_floors" where
  "internal_memory_floors_locked g =
     (let default_floor = default_host_memory_reserve (hp_memory_total_bytes (g_profile g));
          system = rp_system_memory_reserve_bytes (g_policy g);
          emergency = rp_emergency_memory_floor_bytes (g_policy g)
      in if system = default_floor \<and> emergency = default_floor
         then \<lparr>mf_admission_floor = system,
                mf_caution_floor =
                  default_host_memory_caution (hp_memory_total_bytes (g_profile g)) default_floor,
                mf_hard_floor = default_floor,
                mf_caution_is_non_escalating_band = True\<rparr>
         else \<lparr>mf_admission_floor = system, mf_caution_floor = system,
                mf_hard_floor = emergency, mf_caution_is_non_escalating_band = False\<rparr>)"

definition availability_locked ::
    "'a governor_scheme \<Rightarrow> resource_snapshot \<Rightarrow> u64 \<Rightarrow> availability option" where
  "availability_locked g snapshot memory_reserve_bytes =
     (if \<not> valid_snapshot (g_profile g) snapshot then None
      else
        let detected_memory = minimum_uint64 (rs_memory_available_bytes snapshot)
              (hp_memory_total_bytes (g_profile g));
            memory_budget = subtract_floor detected_memory memory_reserve_bytes;
            shared = hp_gpu_uses_shared_memory (g_profile g);
            separate_known = (hp_gpu_memory_known (g_profile g)
              \<and> rs_gpu_memory_available_known snapshot);
            gpu_known = (shared \<or> separate_known);
            gpu_budget = (if shared then memory_budget
              else if separate_known
              then subtract_floor (rs_gpu_memory_available_bytes snapshot)
                     (rp_gpu_memory_reserve_bytes (g_policy g))
              else 0);
            cpu_budget = cp_compute_cpu_count (g_cpu_policy g)
        in Some \<lparr>ra_memory_budget_bytes = memory_budget,
             ra_memory_reserved_bytes = g_memory_reserved_bytes g,
             ra_memory_available_bytes =
               subtract_floor memory_budget (g_memory_reserved_bytes g),
             ra_gpu_memory_known = gpu_known,
             ra_gpu_memory_budget_bytes = gpu_budget,
             ra_gpu_memory_reserved_bytes = g_gpu_memory_reserved_bytes g,
             ra_gpu_memory_available_bytes =
               (if shared then subtract_floor memory_budget (g_memory_reserved_bytes g)
                else subtract_floor gpu_budget (g_gpu_memory_reserved_bytes g)),
             ra_cpu_budget = cpu_budget,
             ra_cpu_reserved = g_cpu_reserved g,
             ra_cpu_available = subtract_unsigned cpu_budget (g_cpu_reserved g),
             ra_gpu_slot_budget = rp_gpu_slot_capacity (g_policy g),
             ra_gpu_slots_reserved = g_gpu_slots_reserved g,
             ra_gpu_slots_available =
               subtract_unsigned (rp_gpu_slot_capacity (g_policy g)) (g_gpu_slots_reserved g),
             ra_io_slot_budget = rp_io_slot_capacity (g_policy g),
             ra_io_slots_reserved = g_io_slots_reserved g,
             ra_io_slots_available =
               subtract_unsigned (rp_io_slot_capacity (g_policy g)) (g_io_slots_reserved g),
             ra_active_reservations = g_active_count g\<rparr>)"

definition resource_governor_availability ::
    "'a governor_scheme \<Rightarrow> resource_snapshot \<Rightarrow> availability option" where
  "resource_governor_availability g snapshot =
     availability_locked g snapshot (rp_system_memory_reserve_bytes (g_policy g))"

section \<open>The host-pressure state machine\<close>

definition psi_pressure :: "resource_policy \<Rightarrow> resource_snapshot \<Rightarrow> bool" where
  "psi_pressure policy s \<longleftrightarrow>
     rp_maximum_cpu_pressure_avg10 policy > 0 \<and> rs_cpu_pressure_known s
       \<and> rs_cpu_pressure_avg10 s \<ge> rp_maximum_cpu_pressure_avg10 policy
     \<or> rp_maximum_memory_pressure_avg10 policy > 0 \<and> rs_memory_pressure_known s
       \<and> rs_memory_pressure_avg10 s \<ge> rp_maximum_memory_pressure_avg10 policy
     \<or> rp_maximum_io_pressure_avg10 policy > 0 \<and> rs_io_pressure_known s
       \<and> rs_io_pressure_avg10 s \<ge> rp_maximum_io_pressure_avg10 policy"

definition swap_changed :: "'a governor_scheme \<Rightarrow> resource_snapshot \<Rightarrow> bool" where
  "swap_changed g s \<longleftrightarrow> rs_swap_activity_known s \<and> g_swap_baseline_known g
     \<and> (rs_swap_pages_in s > g_last_swap_pages_in g
        \<or> rs_swap_pages_out s > g_last_swap_pages_out g)"

definition update_swap_baseline ::
    "resource_snapshot \<Rightarrow> 'a governor_scheme \<Rightarrow> 'a governor_scheme" where
  "update_swap_baseline s g =
     (if rs_swap_activity_known s
      then g\<lparr>g_last_swap_pages_in := rs_swap_pages_in s,
             g_last_swap_pages_out := rs_swap_pages_out s,
             g_swap_baseline_known := True\<rparr>
      else g)"

definition hard_memory_pressure :: "memory_floors \<Rightarrow> resource_snapshot \<Rightarrow> bool" where
  "hard_memory_pressure floors s \<longleftrightarrow>
     mf_hard_floor floors > 0 \<and> rs_memory_available_bytes s \<le> mf_hard_floor floors"

definition caution_memory_pressure :: "memory_floors \<Rightarrow> resource_snapshot \<Rightarrow> bool" where
  "caution_memory_pressure floors s \<longleftrightarrow>
     mf_caution_floor floors > 0 \<and> rs_memory_available_bytes s \<le> mf_caution_floor floors"

definition pressure_signal ::
    "'a governor_scheme \<Rightarrow> memory_floors \<Rightarrow> resource_snapshot \<Rightarrow> bool" where
  "pressure_signal g floors s \<longleftrightarrow> psi_pressure (g_policy g) s \<or> swap_changed g s
     \<or> caution_memory_pressure floors s \<and> \<not> mf_caution_is_non_escalating_band floors"

definition enter_hard_pressure :: "'a governor_scheme \<Rightarrow> 'a governor_scheme" where
  "enter_hard_pressure g =
     g\<lparr>g_pressure := PRESSURE_RED, g_pressure_streak := 0, g_recovery_streak := 0,
       g_slow_start_streak := 0, g_slow_start_limit := 1, g_slow_start_active := True\<rparr>"

definition raise_pressure :: "'a governor_scheme \<Rightarrow> 'a governor_scheme" where
  "raise_pressure g =
     (let streak = increment_to_limit (g_pressure_streak g) 2;
          g = g\<lparr>g_recovery_streak := 0, g_slow_start_streak := 0, g_pressure_streak := streak\<rparr>
      in if g_pressure g = PRESSURE_RED \<or> streak \<ge> 2
         then g\<lparr>g_pressure := PRESSURE_RED, g_slow_start_limit := 1, g_slow_start_active := True\<rparr>
         else g\<lparr>g_pressure := PRESSURE_YELLOW\<rparr>)"

definition hold_caution :: "'a governor_scheme \<Rightarrow> 'a governor_scheme" where
  "hold_caution g =
     g\<lparr>g_pressure_streak := 0, g_recovery_streak := 0, g_slow_start_streak := 0,
       g_slow_start_limit := 1, g_slow_start_active := True,
       g_pressure := (if g_pressure g \<noteq> PRESSURE_RED then PRESSURE_YELLOW else g_pressure g)\<rparr>"

definition recover_pressure :: "'a governor_scheme \<Rightarrow> 'a governor_scheme" where
  "recover_pressure g =
     (let g = g\<lparr>g_pressure_streak := 0\<rparr> in
      case g_pressure g of
        PRESSURE_RED \<Rightarrow>
          let streak = increment_to_limit (g_recovery_streak g) 3
          in if streak \<ge> 3 then g\<lparr>g_pressure := PRESSURE_YELLOW, g_recovery_streak := 0\<rparr>
             else g\<lparr>g_recovery_streak := streak\<rparr>
      | PRESSURE_YELLOW \<Rightarrow>
          let g = (if \<not> g_slow_start_active g
                   then g\<lparr>g_slow_start_active := True, g_slow_start_limit := 1,
                          g_slow_start_streak := 0\<rparr>
                   else g);
              streak = increment_to_limit (g_recovery_streak g) 3
          in if streak \<ge> 3
             then g\<lparr>g_pressure := PRESSURE_GREEN, g_recovery_streak := 0,
                    g_slow_start_streak := 0\<rparr>
             else g\<lparr>g_recovery_streak := streak\<rparr>
      | PRESSURE_GREEN \<Rightarrow>
          if g_slow_start_active g
          then let streak = increment_to_limit (g_slow_start_streak g) 3
               in if streak \<ge> 3
                  then if g_slow_start_limit g > SIZE_MAX div 2
                       then g\<lparr>g_slow_start_streak := 0, g_slow_start_limit := SIZE_MAX,
                              g_slow_start_active := False\<rparr>
                       else g\<lparr>g_slow_start_streak := 0,
                              g_slow_start_limit := g_slow_start_limit g * 2\<rparr>
                  else g\<lparr>g_slow_start_streak := streak\<rparr>
          else g)"

definition update_pressure_locked ::
    "resource_snapshot \<Rightarrow> memory_floors \<Rightarrow> 'a governor_scheme \<Rightarrow> 'a governor_scheme" where
  "update_pressure_locked s floors g =
     (let signal = pressure_signal g floors s;
          g = update_swap_baseline s g
      in if hard_memory_pressure floors s then enter_hard_pressure g
         else if signal then raise_pressure g
         else if caution_memory_pressure floors s then hold_caution g
         else recover_pressure g)"

lemmas pressure_update_defs = update_pressure_locked_def update_swap_baseline_def
  enter_hard_pressure_def raise_pressure_def hold_caution_def recover_pressure_def

lemma increment_to_limit_le: "v \<le> limit \<Longrightarrow> increment_to_limit v limit \<le> limit"
  by (auto simp: increment_to_limit_def intro: inc_le)

lemma update_pressure_accounts [simp]:
  "gov_accounts (update_pressure_locked s floors g) = gov_accounts g"
  by (simp add: gov_accounts_def pressure_update_defs Let_def split: pressure.split)

lemma update_pressure_rings [simp]:
  "g_batch_rings (update_pressure_locked s floors g) = g_batch_rings g"
  by (simp add: pressure_update_defs Let_def split: pressure.split)

lemma update_pressure_more [simp]:
  "governor.more (update_pressure_locked s floors g) = governor.more g"
  by (simp add: pressure_update_defs Let_def split: pressure.split)

section \<open>Measured batches\<close>

text \<open>
  A task class beyond \<open>LARDON3D_RESOURCE_TASK_MIXED\<close> has no ring: \<open>record_batch_locked\<close>
  refuses it and \<open>adaptive_batch_limit\<close> answers the static batch.
\<close>

definition record_batch_locked ::
    "task_class \<Rightarrow> size_t \<Rightarrow> u64 \<Rightarrow> size_t \<Rightarrow> 'a governor_scheme \<Rightarrow> ('a governor_scheme) option" where
  "record_batch_locked task_class batch_size duration_ns peak_memory_bytes g =
     (if batch_size = 0 then None
      else if task_class > RESOURCE_TASK_MIXED then None
      else
        let i = unat task_class;
            m = \<lparr>bm_batch_size = batch_size, bm_duration_ns = duration_ns,
                 bm_peak_memory_bytes = peak_memory_bytes\<rparr>
        in Some (g\<lparr>g_batch_rings := (g_batch_rings g)[i := ring_push m (g_batch_rings g ! i)]\<rparr>))"

text \<open>\<open>peak / batch + (peak % batch != 0)\<close> of one sample.\<close>

definition measured_cost :: "batch_metrics \<Rightarrow> u64" where
  "measured_cost m = bm_peak_memory_bytes m div bm_batch_size m
     + (if bm_peak_memory_bytes m mod bm_batch_size m \<noteq> 0 then 1 else 0)"

text \<open>The loop over the samples: the worst cost and the number of samples that count.\<close>

fun worst_measured_cost :: "batch_metrics list \<Rightarrow> u64 \<Rightarrow> nat \<Rightarrow> u64 \<times> nat" where
  "worst_measured_cost [] worst samples = (worst, samples)"
| "worst_measured_cost (m # ms) worst samples =
     (if bm_batch_size m > 0 \<and> bm_peak_memory_bytes m > 0
      then worst_measured_cost ms
             (if measured_cost m > worst then measured_cost m else worst) (samples + 1)
      else worst_measured_cost ms worst samples)"

definition adaptive_batch_limit ::
    "'a governor_scheme \<Rightarrow> task_class \<Rightarrow> size_t \<Rightarrow> u64 \<Rightarrow> size_t" where
  "adaptive_batch_limit g task_class static_batch memory_bytes_per_item =
     (if memory_bytes_per_item = 0 \<or> static_batch = 0 then static_batch
      else if task_class > RESOURCE_TASK_MIXED then static_batch
      else
        let ring = g_batch_rings g ! unat task_class in
        if br_count ring = 0 then static_batch
        else case worst_measured_cost (ring_samples ring) 0 0 of
          (measured_per_item, samples) \<Rightarrow>
            if samples = 0 then static_batch
            else if measured_per_item \<le> memory_bytes_per_item then static_batch
            else if static_batch > UINT64_MAX div memory_bytes_per_item then 1
            else
              let corrected = static_batch * memory_bytes_per_item div measured_per_item;
                  result = (if corrected > SIZE_MAX then SIZE_MAX else corrected)
              in if result > 0 then result else 1)"

section \<open>The decision\<close>

text \<open>
  The memory an estimate charges to the host: UMA adds the GPU components;
  \<^const>\<open>None\<close> is the overflow that rejects.
\<close>

definition memory_demand :: "'a governor_scheme \<Rightarrow> resource_estimate \<Rightarrow> (u64 \<times> u64) option" where
  "memory_demand g e =
     (if hp_gpu_uses_shared_memory (g_profile g)
      then if re_memory_fixed_bytes e > UINT64_MAX - re_gpu_memory_fixed_bytes e
              \<or> re_memory_bytes_per_item e > UINT64_MAX - re_gpu_memory_bytes_per_item e
           then None
           else Some (re_memory_fixed_bytes e + re_gpu_memory_fixed_bytes e,
                      re_memory_bytes_per_item e + re_gpu_memory_bytes_per_item e)
      else Some (re_memory_fixed_bytes e, re_memory_bytes_per_item e))"

definition uses_separate_gpu_memory :: "'a governor_scheme \<Rightarrow> resource_estimate \<Rightarrow> bool" where
  "uses_separate_gpu_memory g e \<longleftrightarrow> \<not> hp_gpu_uses_shared_memory (g_profile g)
     \<and> (re_gpu_memory_fixed_bytes e > 0 \<or> re_gpu_memory_bytes_per_item e > 0)"

definition theoretical_batch ::
    "'a governor_scheme \<Rightarrow> resource_estimate \<Rightarrow> memory_floors \<Rightarrow> u64 \<Rightarrow> u64 \<Rightarrow> size_t" where
  "theoretical_batch g e floors memory_fixed memory_per_item =
     (let batch = batch_capacity
            (hp_memory_total_bytes (g_profile g) - mf_admission_floor floors)
            memory_fixed memory_per_item
      in if uses_separate_gpu_memory g e \<and> hp_gpu_memory_known (g_profile g)
         then minimum_size batch
                (batch_capacity
                  (hp_gpu_memory_total_bytes (g_profile g)
                     - rp_gpu_memory_reserve_bytes (g_policy g))
                  (re_gpu_memory_fixed_bytes e) (re_gpu_memory_bytes_per_item e))
         else batch)"

text \<open>The host-load conditions that wait, in the order the code tests them.\<close>

definition host_load_wait ::
    "'a governor_scheme \<Rightarrow> resource_snapshot \<Rightarrow> resource_estimate \<Rightarrow> string option" where
  "host_load_wait g s e =
     (let policy = g_policy g;
          load_limit = of_nat (unat (hp_logical_cpu_count (g_profile g)))
            * rp_maximum_cpu_load_ratio policy
      in if rs_cpu_load_1m s \<ge> load_limit
         then Some (''Charge CPU trop '' @ e_acute @ ''lev'' @ e_acute @ ''e.'')
         else if rp_maximum_cpu_pressure_avg10 policy > 0 \<and> rs_cpu_pressure_known s
              \<and> rs_cpu_pressure_avg10 s \<ge> rp_maximum_cpu_pressure_avg10 policy
         then Some (''Pression CPU trop '' @ e_acute @ ''lev'' @ e_acute @ ''e.'')
         else if rp_maximum_memory_pressure_avg10 policy > 0 \<and> rs_memory_pressure_known s
              \<and> rs_memory_pressure_avg10 s \<ge> rp_maximum_memory_pressure_avg10 policy
         then Some (''Pression m'' @ e_acute @ ''moire trop '' @ e_acute @ ''lev'' @ e_acute @ ''e.'')
         else if re_desired_io_slots e > 0 \<and> rs_io_pressure_known s
              \<and> rs_io_pressure_avg10 s \<ge> rp_maximum_io_pressure_avg10 policy
         then Some (''Pression d'' @ [CHR 0x27] @ ''entr'' @ e_acute @ ''e-sortie trop ''
                @ e_acute @ ''lev'' @ e_acute @ ''e.'')
         else None)"

text \<open>The batch the free memory admits; \<^const>\<open>None\<close>: the free GPU memory is unknown.\<close>

definition available_batch ::
    "'a governor_scheme \<Rightarrow> availability \<Rightarrow> resource_estimate \<Rightarrow> u64 \<Rightarrow> u64 \<Rightarrow> size_t option" where
  "available_batch g available e memory_fixed memory_per_item =
     (let batch = batch_capacity (ra_memory_available_bytes available) memory_fixed memory_per_item
      in if uses_separate_gpu_memory g e
         then if \<not> ra_gpu_memory_known available then None
              else Some (minimum_size batch
                     (batch_capacity (ra_gpu_memory_available_bytes available)
                       (re_gpu_memory_fixed_bytes e) (re_gpu_memory_bytes_per_item e)))
         else Some batch)"

definition adapted_maximum :: "'a governor_scheme \<Rightarrow> resource_estimate \<Rightarrow> u64 \<Rightarrow> size_t" where
  "adapted_maximum g e memory_per_item =
     (let minimum = re_minimum_batch_size e;
          a = adaptive_batch_limit g (re_task_class e) (re_maximum_batch_size e) memory_per_item;
          a = (if a < minimum then minimum else a);
          a = (if g_slow_start_active g then minimum_size a (g_slow_start_limit g) else a)
      in if g_pressure g = PRESSURE_YELLOW \<and> a > minimum
         then let h = a div 2 in if h < minimum then minimum else h
         else a)"

definition grant_slots ::
    "availability \<Rightarrow> resource_estimate \<Rightarrow> size_t \<Rightarrow> size_t \<Rightarrow> resource_decision" where
  "grant_slots available e batch maximum =
     (if ra_cpu_available available = 0
         \<or> re_desired_gpu_slots e > 0 \<and> ra_gpu_slots_available available = 0
         \<or> re_desired_io_slots e > 0 \<and> ra_io_slots_available available = 0
      then wait (''Slots de calcul d'' @ e_acute @ ''j'' @ [CHR 0xC3, CHR 0xA0] @ '' r''
             @ e_acute @ ''serv'' @ e_acute @ ''s.'')
      else
        let cpu = (if re_desired_cpu_threads e < ra_cpu_available available
                   then re_desired_cpu_threads e else ra_cpu_available available);
            gpu = (if re_desired_gpu_slots e < ra_gpu_slots_available available
                   then re_desired_gpu_slots e else ra_gpu_slots_available available);
            io = (if re_desired_io_slots e < ra_io_slots_available available
                  then re_desired_io_slots e else ra_io_slots_available available);
            reduced = (batch < maximum \<or> cpu < re_desired_cpu_threads e
              \<or> gpu < re_desired_gpu_slots e \<or> io < re_desired_io_slots e)
        in set_decision (if reduced then RESOURCE_REDUCE_BATCH else RESOURCE_START)
             batch cpu gpu io
             (if reduced
              then ''Contrat r'' @ e_acute @ ''duit aux ressources disponibles.''
              else ''Ressources disponibles.''))"

text \<open>The part of \<open>evaluate_locked\<close> after the pressure update.\<close>

definition admission_decision ::
    "'a governor_scheme \<Rightarrow> resource_snapshot \<Rightarrow> resource_estimate \<Rightarrow> memory_floors
      \<Rightarrow> resource_decision" where
  "admission_decision g s e floors =
     (if g_pressure g = PRESSURE_RED
      then wait (''Pression m'' @ e_acute @ ''moire ou swap persistante.'')
      else if (re_desired_gpu_slots e > 0 \<or> re_gpu_memory_fixed_bytes e > 0
               \<or> re_gpu_memory_bytes_per_item e > 0) \<and> \<not> hp_gpu_available (g_profile g)
      then reject ''Aucun GPU disponible.''
      else case memory_demand g e of
        None \<Rightarrow> reject (''Estimation m'' @ e_acute @ ''moire trop grande.'')
      | Some (memory_fixed, memory_per_item) \<Rightarrow>
          if theoretical_batch g e floors memory_fixed memory_per_item < re_minimum_batch_size e
          then reject (''T'' @ [CHR 0xC3, CHR 0xA2] @ ''che impossible sur cette machine.'')
          else case host_load_wait g s e of
            Some reason \<Rightarrow> wait reason
          | None \<Rightarrow>
              (case availability_locked g s (mf_admission_floor floors) of
                None \<Rightarrow> reject (''Instantan'' @ e_acute @ '' de ressources invalide.'')
              | Some available \<Rightarrow>
                  (case available_batch g available e memory_fixed memory_per_item of
                    None \<Rightarrow> wait (''M'' @ e_acute @ ''moire GPU disponible inconnue.'')
                  | Some batch \<Rightarrow>
                      let maximum = adapted_maximum g e memory_per_item;
                          batch = minimum_size batch maximum
                      in if batch < re_minimum_batch_size e
                         then wait (''Ressources d'' @ e_acute @ ''j'' @ [CHR 0xC3, CHR 0xA0]
                                @ '' r'' @ e_acute @ ''serv'' @ e_acute
                                @ ''es ou temporairement insuffisantes.'')
                         else grant_slots available e batch maximum)))"

definition governor_now :: "'a governor_scheme \<Rightarrow> environment \<Rightarrow> timespec option" where
  "governor_now g env =
     (case g_internal_now g of Some now \<Rightarrow> Some now | None \<Rightarrow> ev_monotonic env)"

definition evaluate_locked ::
    "environment \<Rightarrow> resource_snapshot \<Rightarrow> resource_estimate \<Rightarrow> bool \<Rightarrow> memory_floors
      \<Rightarrow> 'a governor_scheme \<Rightarrow> ('a governor_scheme \<times> resource_decision) option" where
  "evaluate_locked env s e update_pressure floors g =
     (if \<not> valid_estimate e then Some (g, reject ''Estimation de ressources invalide.'')
      else case governor_now g env of
        None \<Rightarrow> None
      | Some now \<Rightarrow>
          if \<not> snapshot_is_fresh now s
          then Some (g, wait (''Instantan'' @ e_acute @ '' de ressources p'' @ e_acute @ ''rim''
                 @ e_acute @ ''.''))
          else
            let g = (if update_pressure then update_pressure_locked s floors g else g)
            in Some (g, admission_decision g s e floors))"

section \<open>What a grant is\<close>

definition decision_grants :: "resource_decision \<Rightarrow> bool" where
  "decision_grants d \<longleftrightarrow> rd_kind d = RESOURCE_START \<or> rd_kind d = RESOURCE_REDUCE_BATCH"

lemma decision_grants_wait [simp]: "\<not> decision_grants (wait r)" "\<not> decision_grants (reject r)"
  by (simp_all add: decision_grants_def)

lemma worst_measured_cost_mono: "worst_measured_cost ms worst n = (w, k) \<Longrightarrow> worst \<le> w \<and> n \<le> k"
proof (induction ms worst n rule: worst_measured_cost.induct)
  case (1 worst samples)
  then show ?case by simp
next
  case (2 m ms worst samples)
  then show ?case by (fastforce split: if_splits)
qed

lemma adaptive_batch_limit_bounds:
  assumes "0 < static_batch"
  shows "0 < adaptive_batch_limit g c static_batch per_item"
    and "adaptive_batch_limit g c static_batch per_item \<le> static_batch"
proof -
  have one: "1 \<le> static_batch" using assms by (simp add: word_le_nat_alt word_less_nat_alt)
  have scaled: "static_batch * per_item div measured \<le> static_batch"
    if "\<not> measured \<le> per_item" "\<not> static_batch > UINT64_MAX div per_item" "per_item \<noteq> 0"
    for measured
  proof -
    have p: "0 < per_item" using that(3) by (simp add: word_neq_0_conv)
    have "unat (static_batch * per_item) = unat static_batch * unat per_item"
      using that(2) mult_guard64 [OF p, of static_batch] by (intro unat_mult64) simp
    moreover have "unat per_item \<le> unat measured"
      using that(1) by (simp add: word_le_nat_alt)
    moreover have "0 < unat per_item" using p by (simp add: word_less_nat_alt)
    ultimately have "unat (static_batch * per_item) div unat measured \<le> unat static_batch"
      using div_le_mono2 [of "unat per_item" "unat measured" "unat static_batch * unat per_item"]
      by simp
    then show ?thesis by (simp add: word_le_nat_alt unat_div)
  qed
  show "0 < adaptive_batch_limit g c static_batch per_item"
    using assms by (auto simp: adaptive_batch_limit_def Let_def split: prod.split)
  show "adaptive_batch_limit g c static_batch per_item \<le> static_batch"
    using one scaled
    by (auto simp: adaptive_batch_limit_def Let_def not_less split: prod.split)
qed

lemma adapted_maximum_le:
  assumes "valid_estimate e"
  shows "adapted_maximum g e per_item \<le> re_maximum_batch_size e"
proof -
  let ?a = "adaptive_batch_limit g (re_task_class e) (re_maximum_batch_size e) per_item"
  have le: "re_minimum_batch_size e \<le> re_maximum_batch_size e" and "0 < re_minimum_batch_size e"
    using assms by (auto simp: valid_estimate_def)
  then have "0 < re_maximum_batch_size e" by (metis order_less_le_trans)
  then have a: "?a \<le> re_maximum_batch_size e" by (rule adaptive_batch_limit_bounds)
  have half: "x div 2 \<le> m" if "x \<le> m" for x m :: size_t
    using that by (simp add: word_le_nat_alt unat_div)
  have mini: "minimum_size x y \<le> m" if "x \<le> m" for x y m :: size_t
    using that by (auto simp: minimum_size_def)
  show ?thesis
    using le a by (auto simp: adapted_maximum_def Let_def intro!: half mini)
qed

lemma grant_slots_grants:
  assumes "decision_grants (grant_slots available e batch maximum)"
  defines "d \<equiv> grant_slots available e batch maximum"
  shows "rd_batch_size d = batch"
    and "rd_cpu_threads d \<le> ra_cpu_available available"
    and "rd_cpu_threads d \<le> re_desired_cpu_threads e"
    and "0 < re_desired_cpu_threads e \<Longrightarrow> 0 < rd_cpu_threads d"
    and "rd_gpu_slots d \<le> ra_gpu_slots_available available"
    and "rd_io_slots d \<le> ra_io_slots_available available"
    and "rd_gpu_slots d \<le> re_desired_gpu_slots e"
    and "rd_io_slots d \<le> re_desired_io_slots e"
    and "rd_kind d = RESOURCE_START \<longleftrightarrow> maximum \<le> batch
      \<and> rd_cpu_threads d = re_desired_cpu_threads e
      \<and> rd_gpu_slots d = re_desired_gpu_slots e \<and> rd_io_slots d = re_desired_io_slots e"
proof -
  let ?lower = "\<lambda>x y :: u32. if x < y then x else y"
  let ?cpu = "?lower (re_desired_cpu_threads e) (ra_cpu_available available)"
  let ?gpu = "?lower (re_desired_gpu_slots e) (ra_gpu_slots_available available)"
  let ?io = "?lower (re_desired_io_slots e) (ra_io_slots_available available)"
  let ?reduced = "batch < maximum \<or> ?cpu < re_desired_cpu_threads e
    \<or> ?gpu < re_desired_gpu_slots e \<or> ?io < re_desired_io_slots e"
  have cond: "\<not> (ra_cpu_available available = 0
      \<or> re_desired_gpu_slots e > 0 \<and> ra_gpu_slots_available available = 0
      \<or> re_desired_io_slots e > 0 \<and> ra_io_slots_available available = 0)"
  proof
    assume "ra_cpu_available available = 0
      \<or> re_desired_gpu_slots e > 0 \<and> ra_gpu_slots_available available = 0
      \<or> re_desired_io_slots e > 0 \<and> ra_io_slots_available available = 0"
    with assms(1) show False by (simp only: grant_slots_def if_P decision_grants_wait)
  qed
  then have avail: "ra_cpu_available available \<noteq> 0" by blast
  have "\<exists>reason. d = set_decision (if ?reduced then RESOURCE_REDUCE_BATCH else RESOURCE_START)
      batch ?cpu ?gpu ?io reason"
    unfolding d_def grant_slots_def Let_def if_not_P [OF cond] by (rule exI, rule refl)
  then obtain reason where d: "d = set_decision
      (if ?reduced then RESOURCE_REDUCE_BATCH else RESOURCE_START) batch ?cpu ?gpu ?io reason"
    by blast
  have lower: "?lower x y \<le> x" "?lower x y \<le> y" "\<not> ?lower x y < x \<longleftrightarrow> ?lower x y = x" for x y
    by (auto simp: not_less)
  show "rd_batch_size d = batch" by (simp add: d)
  show "rd_cpu_threads d \<le> ra_cpu_available available" "rd_cpu_threads d \<le> re_desired_cpu_threads e"
    "rd_gpu_slots d \<le> ra_gpu_slots_available available" "rd_gpu_slots d \<le> re_desired_gpu_slots e"
    "rd_io_slots d \<le> ra_io_slots_available available" "rd_io_slots d \<le> re_desired_io_slots e"
    unfolding d set_decision_simps by (rule lower)+
  show "0 < re_desired_cpu_threads e \<Longrightarrow> 0 < rd_cpu_threads d"
    using avail by (simp add: d word_greater_zero_iff)
  have "rd_kind d = RESOURCE_START \<longleftrightarrow> \<not> ?reduced" by (simp only: d set_decision_simps) simp
  also have "\<dots> \<longleftrightarrow> maximum \<le> batch \<and> ?cpu = re_desired_cpu_threads e
      \<and> ?gpu = re_desired_gpu_slots e \<and> ?io = re_desired_io_slots e"
    by (simp only: de_Morgan_disj lower not_less [of batch maximum])
  finally show "rd_kind d = RESOURCE_START \<longleftrightarrow> maximum \<le> batch
      \<and> rd_cpu_threads d = re_desired_cpu_threads e
      \<and> rd_gpu_slots d = re_desired_gpu_slots e \<and> rd_io_slots d = re_desired_io_slots e"
    by (simp only: d set_decision_simps)
qed

lemma admission_grantE:
  assumes "decision_grants (admission_decision g s e floors)"
  obtains fixed per_item available batch maximum where
    "memory_demand g e = Some (fixed, per_item)"
    "availability_locked g s (mf_admission_floor floors) = Some available"
    "available_batch g available e fixed per_item = Some batch"
    "maximum = adapted_maximum g e per_item"
    "re_minimum_batch_size e \<le> minimum_size batch maximum"
    "admission_decision g s e floors = grant_slots available e (minimum_size batch maximum) maximum"
    "decision_grants (grant_slots available e (minimum_size batch maximum) maximum)"
    "g_pressure g \<noteq> PRESSURE_RED" "host_load_wait g s e = None"
  using assms
  by (auto simp: admission_decision_def Let_def not_less split: if_splits option.splits)

text \<open>
  The memory a batch charges to the host, and the GPU memory it charges to a separate GPU.
\<close>

definition host_demand :: "hardware_profile \<Rightarrow> resource_estimate \<Rightarrow> size_t \<Rightarrow> nat" where
  "host_demand profile e batch =
     unat (re_memory_fixed_bytes e) + unat (re_memory_bytes_per_item e) * unat batch
     + (if hp_gpu_uses_shared_memory profile
        then unat (re_gpu_memory_fixed_bytes e)
          + unat (re_gpu_memory_bytes_per_item e) * unat batch
        else 0)"

definition gpu_demand :: "resource_estimate \<Rightarrow> size_t \<Rightarrow> nat" where
  "gpu_demand e batch = unat (re_gpu_memory_fixed_bytes e)
     + unat (re_gpu_memory_bytes_per_item e) * unat batch"

lemma memory_demand_host:
  assumes "memory_demand g e = Some (fixed, per_item)"
  shows "unat fixed + unat per_item * unat batch = host_demand (g_profile g) e batch"
proof (cases "hp_gpu_uses_shared_memory (g_profile g)")
  case True
  let ?mf = "re_memory_fixed_bytes e" and ?gf = "re_gpu_memory_fixed_bytes e"
    and ?mp = "re_memory_bytes_per_item e" and ?gp = "re_gpu_memory_bytes_per_item e"
  from assms True have guards: "\<not> ?mf > UINT64_MAX - ?gf" "\<not> ?mp > UINT64_MAX - ?gp"
    and fixed: "fixed = ?mf + ?gf" and per: "per_item = ?mp + ?gp"
    by (auto simp: memory_demand_def split: if_splits)
  have "unat fixed = unat ?mf + unat ?gf" "unat per_item = unat ?mp + unat ?gp"
    using guards fixed per by (auto simp: add_guard64 intro!: unat_add64)
  with True show ?thesis by (simp add: host_demand_def algebra_simps)
next
  case False
  with assms show ?thesis by (auto simp: memory_demand_def host_demand_def)
qed

lemma availability_fields:
  assumes "availability_locked g s reserve = Some a"
  shows "unat (ra_memory_available_bytes a) =
      min (unat (rs_memory_available_bytes s)) (unat (hp_memory_total_bytes (g_profile g)))
        - unat reserve - unat (g_memory_reserved_bytes g)"
    and "ra_cpu_available a =
      subtract_unsigned (cp_compute_cpu_count (g_cpu_policy g)) (g_cpu_reserved g)"
    and "ra_gpu_slots_available a =
      subtract_unsigned (rp_gpu_slot_capacity (g_policy g)) (g_gpu_slots_reserved g)"
    and "ra_io_slots_available a =
      subtract_unsigned (rp_io_slot_capacity (g_policy g)) (g_io_slots_reserved g)"
    and "\<not> hp_gpu_uses_shared_memory (g_profile g) \<Longrightarrow> ra_gpu_memory_known a \<Longrightarrow>
      hp_gpu_memory_known (g_profile g) \<and> rs_gpu_memory_available_known s \<and>
      ra_gpu_memory_available_bytes a = subtract_floor
        (subtract_floor (rs_gpu_memory_available_bytes s) (rp_gpu_memory_reserve_bytes (g_policy g)))
        (g_gpu_memory_reserved_bytes g)"
    and "valid_snapshot (g_profile g) s"
  using assms
  by (auto simp: availability_locked_def Let_def unat_subtract_floor unat_minimum_uint64
    split: if_splits)

text \<open>
  A grant on any Governor state: the host memory it charges, together with what is already
  reserved, leaves the admission floor free, and so does the GPU memory.
\<close>

lemma admission_grant_host_memory:
  assumes "decision_grants (admission_decision g s e floors)"
    and "valid_estimate e"
  defines "d \<equiv> admission_decision g s e floors"
  shows "unat (g_memory_reserved_bytes g) + host_demand (g_profile g) e (rd_batch_size d)
      + unat (mf_admission_floor floors)
      \<le> min (unat (rs_memory_available_bytes s)) (unat (hp_memory_total_bytes (g_profile g)))
    \<or> host_demand (g_profile g) e (rd_batch_size d) = 0"
    and "re_minimum_batch_size e \<le> rd_batch_size d"
    and "rd_batch_size d \<le> re_maximum_batch_size e"
proof -
  obtain fixed per_item available batch maximum where
    demand: "memory_demand g e = Some (fixed, per_item)"
    and avail: "availability_locked g s (mf_admission_floor floors) = Some available"
    and batch: "available_batch g available e fixed per_item = Some batch"
    and maximum: "maximum = adapted_maximum g e per_item"
    and minimum: "re_minimum_batch_size e \<le> minimum_size batch maximum"
    and d: "d = grant_slots available e (minimum_size batch maximum) maximum"
    and grants: "decision_grants (grant_slots available e (minimum_size batch maximum) maximum)"
    using admission_grantE [OF assms(1)] unfolding d_def by metis
  have b: "rd_batch_size d = minimum_size batch maximum"
    unfolding d by (rule grant_slots_grants(1) [OF grants])
  show "re_minimum_batch_size e \<le> rd_batch_size d" using minimum b by simp
  show "rd_batch_size d \<le> re_maximum_batch_size e"
    using b maximum adapted_maximum_le [OF assms(2), of g per_item]
      minimum_size_le(2) [of batch maximum] by (metis order_trans)
  have "0 < re_minimum_batch_size e" using assms(2) by (simp add: valid_estimate_def)
  then have pos: "0 < rd_batch_size d" using minimum b by (metis order_less_le_trans)
  have "rd_batch_size d \<le> batch" using b by simp
  moreover have "batch \<le> batch_capacity (ra_memory_available_bytes available) fixed per_item"
    using batch by (auto simp: available_batch_def Let_def split: if_splits)
  ultimately have "rd_batch_size d
      \<le> batch_capacity (ra_memory_available_bytes available) fixed per_item"
    by (rule order_trans)
  then have "unat fixed + unat per_item * unat (rd_batch_size d)
      \<le> unat (ra_memory_available_bytes available)"
    using pos by (rule batch_capacity_fits)
  then have "host_demand (g_profile g) e (rd_batch_size d)
      \<le> min (unat (rs_memory_available_bytes s)) (unat (hp_memory_total_bytes (g_profile g)))
        - unat (mf_admission_floor floors) - unat (g_memory_reserved_bytes g)"
    unfolding memory_demand_host [OF demand] availability_fields(1) [OF avail] .
  then show "unat (g_memory_reserved_bytes g) + host_demand (g_profile g) e (rd_batch_size d)
      + unat (mf_admission_floor floors)
      \<le> min (unat (rs_memory_available_bytes s)) (unat (hp_memory_total_bytes (g_profile g)))
    \<or> host_demand (g_profile g) e (rd_batch_size d) = 0"
    by linarith
qed

lemma admission_grant_gpu_memory:
  assumes "decision_grants (admission_decision g s e floors)"
    and "valid_estimate e" and "\<not> hp_gpu_uses_shared_memory (g_profile g)"
  defines "d \<equiv> admission_decision g s e floors"
  shows "gpu_demand e (rd_batch_size d) = 0 \<or>
    hp_gpu_memory_known (g_profile g) \<and> rs_gpu_memory_available_known s \<and>
    unat (g_gpu_memory_reserved_bytes g) + gpu_demand e (rd_batch_size d)
      + unat (rp_gpu_memory_reserve_bytes (g_policy g))
      \<le> unat (rs_gpu_memory_available_bytes s)"
proof (cases "uses_separate_gpu_memory g e")
  case False
  with assms(3) show ?thesis by (simp add: uses_separate_gpu_memory_def gpu_demand_def word_greater_zero_iff)
next
  case True
  obtain fixed per_item available batch maximum where
    avail: "availability_locked g s (mf_admission_floor floors) = Some available"
    and batch: "available_batch g available e fixed per_item = Some batch"
    and minimum: "re_minimum_batch_size e \<le> minimum_size batch maximum"
    and d: "d = grant_slots available e (minimum_size batch maximum) maximum"
    and grants: "decision_grants (grant_slots available e (minimum_size batch maximum) maximum)"
    using admission_grantE [OF assms(1)] unfolding d_def by metis
  have b: "rd_batch_size d = minimum_size batch maximum"
    unfolding d by (rule grant_slots_grants(1) [OF grants])
  have known: "ra_gpu_memory_known available" and
    le: "batch \<le> batch_capacity (ra_gpu_memory_available_bytes available)
          (re_gpu_memory_fixed_bytes e) (re_gpu_memory_bytes_per_item e)"
    using batch True by (auto simp: available_batch_def Let_def split: if_splits)
  have "0 < re_minimum_batch_size e" using assms(2) by (simp add: valid_estimate_def)
  then have pos: "0 < rd_batch_size d" using minimum b by (metis order_less_le_trans)
  have "rd_batch_size d \<le> batch" using b by simp
  then have "gpu_demand e (rd_batch_size d) \<le> unat (ra_gpu_memory_available_bytes available)"
    unfolding gpu_demand_def using le pos by (metis batch_capacity_fits order_trans)
  with availability_fields(5) [OF avail assms(3) known] show ?thesis
    by (auto simp: unat_subtract_floor)
qed

text \<open>The three ways \<open>evaluate_locked\<close> writes a decision.\<close>

lemma evaluate_lockedE:
  assumes "evaluate_locked env s e upd floors g = Some (h, d)"
  obtains (invalid) "\<not> valid_estimate e" "h = g" "d = reject ''Estimation de ressources invalide.''"
  | (stale) now reason where "valid_estimate e" "governor_now g env = Some now"
      "\<not> snapshot_is_fresh now s" "h = g" "d = wait reason"
  | (decided) now where "valid_estimate e" "governor_now g env = Some now" "snapshot_is_fresh now s"
      "h = (if upd then update_pressure_locked s floors g else g)"
      "d = admission_decision h s e floors"
proof (cases "valid_estimate e")
  case False
  with assms invalid show ?thesis by (simp add: evaluate_locked_def)
next
  case True
  then obtain now where now: "governor_now g env = Some now"
    using assms by (cases "governor_now g env") (simp_all add: evaluate_locked_def)
  show ?thesis
  proof (cases "snapshot_is_fresh now s")
    case stale_snapshot: False
    have "evaluate_locked env s e upd floors g = Some (g, wait (''Instantan'' @ e_acute
        @ '' de ressources p'' @ e_acute @ ''rim'' @ e_acute @ ''.''))"
      by (simp only: evaluate_locked_def True now stale_snapshot not_True_eq_False
        not_False_eq_True if_True if_False option.case)
    with assms have "h = g" "d = wait (''Instantan'' @ e_acute
        @ '' de ressources p'' @ e_acute @ ''rim'' @ e_acute @ ''.'')"
      by (simp_all only: option.inject prod.inject)
    then show ?thesis by (rule stale [OF True now stale_snapshot])
  next
    case fresh: True
    let ?h = "if upd then update_pressure_locked s floors g else g"
    have "evaluate_locked env s e upd floors g = Some (?h, admission_decision ?h s e floors)"
      by (simp only: evaluate_locked_def True now fresh not_True_eq_False if_False option.case Let_def)
    with assms have "Some (h, d) = Some (?h, admission_decision ?h s e floors)" by (rule trans [OF sym])
    then have h: "h = ?h" and d: "d = admission_decision ?h s e floors" by blast+
    from d have "d = admission_decision h s e floors" by (simp only: h)
    with h show ?thesis by (rule decided [OF True now fresh])
  qed
qed

end
