(* ===== verification/Governor_Reservations.thy ===== *)
theory Governor_Reservations
  imports Governor_Admission
begin

text \<open>
  The Governor's public operations on reservations and policy
  (\<open>src/resource_governor.c\<close>): create, destroy, set_policy, reserve, reserve_available,
  release, the queries, record_batch, decide and the bounded wait. Each returns the new
  state; the lemmas show that \<open>accounts_inv\<close> holds from \<open>create\<close> on.
\<close>

section \<open>Creation, destruction and policy\<close>

text \<open>
  \<open>create\<close>: \<^const>\<open>None\<close> is the null pointer (invalid policy or failed allocation).
  \<open>topology\<close> is what \<open>capture_live_cpu_topology\<close> stored. The construction of the mutex and
  the condition variable is taken to succeed with the allocation.
\<close>

definition governor_create ::
    "string option \<Rightarrow> environment \<Rightarrow> cpu_topology_input \<Rightarrow> hardware_profile \<Rightarrow> resource_policy
      \<Rightarrow> governor option" where
  "governor_create mesa env topology profile policy =
     (if \<not> valid_policy profile policy then None
      else if \<not> ev_alloc env then None
      else case build_cpu_policy mesa profile policy (Some topology) of
        None \<Rightarrow> None
      | Some cpu_policy \<Rightarrow>
          Some \<lparr>g_generation = 0, g_profile = profile, g_policy = policy,
             g_next_reservation_id = 1, g_memory_reserved_bytes = 0,
             g_gpu_memory_reserved_bytes = 0, g_cpu_reserved = 0, g_gpu_slots_reserved = 0,
             g_io_slots_reserved = 0, g_batch_rings = replicate 6 empty_ring,
             g_cpu_topology = topology, g_cpu_policy = cpu_policy, g_active_count = 0,
             g_swap_baseline_known = False, g_last_swap_pages_in = 0, g_last_swap_pages_out = 0,
             g_pressure_streak = 0, g_recovery_streak = 0, g_slow_start_streak = 0,
             g_slow_start_limit = SIZE_MAX, g_slow_start_active = False,
             g_pressure = PRESSURE_GREEN, g_internal_now = None,
             g_internal_force_capture_failure = False, g_active = [], g_released = [],
             g_heap_next = 0\<rparr>)"

text \<open>The addresses \<open>destroy\<close> frees, in order.\<close>

definition governor_destroy :: "'a governor_scheme \<Rightarrow> nat list" where
  "governor_destroy g = map rv_address (g_active g) @ map rv_address (g_released g)"

definition set_policy ::
    "string option \<Rightarrow> resource_policy \<Rightarrow> 'a governor_scheme \<Rightarrow> 'a governor_scheme \<times> bool" where
  "set_policy mesa policy g =
     (let profile = g_profile g in
      if \<not> valid_policy profile policy then (g, False)
      else case build_cpu_policy mesa profile policy (Some (g_cpu_topology g)) of
        None \<Rightarrow> (g, False)
      | Some cpu_policy \<Rightarrow>
          if memory_budget profile policy \<ge> g_memory_reserved_bytes g
             \<and> gpu_budget profile policy \<ge> g_gpu_memory_reserved_bytes g
             \<and> cp_compute_cpu_count cpu_policy \<ge> g_cpu_reserved g
             \<and> rp_gpu_slot_capacity policy \<ge> g_gpu_slots_reserved g
             \<and> rp_io_slot_capacity policy \<ge> g_io_slots_reserved g
          then (g\<lparr>g_policy := policy, g_cpu_policy := cpu_policy\<rparr>, True)
          else (g, False))"

section \<open>Reservation\<close>

definition activate_reservation_locked ::
    "environment \<Rightarrow> resource_estimate \<Rightarrow> resource_decision \<Rightarrow> 'a governor_scheme
      \<Rightarrow> ('a governor_scheme \<times> nat) option" where
  "activate_reservation_locked env e d g =
     (if g_next_reservation_id g = 0 then None
      else case resource_size (re_memory_fixed_bytes e) (re_memory_bytes_per_item e)
                  (rd_batch_size d) of
        None \<Rightarrow> None
      | Some memory_bytes \<Rightarrow>
          (case resource_size (re_gpu_memory_fixed_bytes e) (re_gpu_memory_bytes_per_item e)
                  (rd_batch_size d) of
            None \<Rightarrow> None
          | Some gpu_memory_bytes \<Rightarrow>
              (case (if hp_gpu_uses_shared_memory (g_profile g)
                     then add_uint64 memory_bytes gpu_memory_bytes else Some memory_bytes) of
                None \<Rightarrow> None
              | Some charged_memory_bytes \<Rightarrow>
                  (case ev_realtime env of
                    None \<Rightarrow> None
                  | Some created_at \<Rightarrow>
                      let created =
                        \<lparr>rv_address = g_heap_next g,
                          rv_information =
                            \<lparr>ri_id = g_next_reservation_id g, ri_memory_bytes = memory_bytes,
                              ri_gpu_memory_bytes = gpu_memory_bytes,
                              ri_cpu_threads = rd_cpu_threads d, ri_gpu_slots = rd_gpu_slots d,
                              ri_io_slots = rd_io_slots d, ri_batch_size = rd_batch_size d,
                              ri_task_class = re_task_class e, ri_state = RESERVATION_ACTIVE,
                              ri_created_at = created_at\<rparr>,
                          rv_charged_memory_bytes = charged_memory_bytes\<rparr>
                      in Some (g\<lparr>g_next_reservation_id := g_next_reservation_id g + 1,
                             g_active := created # g_active g,
                             g_memory_reserved_bytes :=
                               g_memory_reserved_bytes g + charged_memory_bytes,
                             g_gpu_memory_reserved_bytes :=
                               g_gpu_memory_reserved_bytes g + gpu_memory_bytes,
                             g_cpu_reserved := g_cpu_reserved g + rd_cpu_threads d,
                             g_gpu_slots_reserved := g_gpu_slots_reserved g + rd_gpu_slots d,
                             g_io_slots_reserved := g_io_slots_reserved g + rd_io_slots d,
                             g_active_count := g_active_count g + 1,
                             g_generation := g_generation g + 1,
                             g_heap_next := g_heap_next g + 1\<rparr>, g_heap_next g)))))"

text \<open>
  What a call gives back: the C return value, the decision if it was written, the
  reservation pointer (its address) or null.
\<close>

record reserve_result =
  rr_ok :: bool
  rr_decision :: "resource_decision option"
  rr_reservation :: "nat option"

definition governor_reserve ::
    "environment \<Rightarrow> resource_snapshot \<Rightarrow> resource_estimate \<Rightarrow> 'a governor_scheme
      \<Rightarrow> 'a governor_scheme \<times> reserve_result" where
  "governor_reserve env s e g =
     (let failed = \<lparr>rr_ok = False, rr_decision = None, rr_reservation = None\<rparr> in
      if \<not> ev_alloc env then (g, failed)
      else if \<not> valid_snapshot (g_profile g) s then (g, failed)
      else case evaluate_locked env s e True (internal_memory_floors_locked g) g of
        None \<Rightarrow> (g, failed)
      | Some (g, d) \<Rightarrow>
          if rd_kind d \<noteq> RESOURCE_START \<and> rd_kind d \<noteq> RESOURCE_REDUCE_BATCH
          then (g, \<lparr>rr_ok = True, rr_decision = Some d, rr_reservation = None\<rparr>)
          else case activate_reservation_locked env e d g of
            None \<Rightarrow> (g, \<lparr>rr_ok = False,
                rr_decision = Some (reject (''Impossible d'' @ [CHR 0x27] @ ''activer la r''
                  @ e_acute @ ''servation.'')),
                rr_reservation = None\<rparr>)
          | Some (g, created) \<Rightarrow>
              (g, \<lparr>rr_ok = True, rr_decision = Some d, rr_reservation = Some created\<rparr>))"

definition governor_reserve_available ::
    "environment \<Rightarrow> resource_estimate \<Rightarrow> 'a governor_scheme
      \<Rightarrow> 'a governor_scheme \<times> reserve_result" where
  "governor_reserve_available env e g =
     (let failed = \<lparr>rr_ok = False, rr_decision = None, rr_reservation = None\<rparr> in
      if g_internal_force_capture_failure g then (g, failed)
      else case ev_capture env of
        None \<Rightarrow> (g, failed)
      | Some snapshot \<Rightarrow> governor_reserve env snapshot e g)"

section \<open>Release and queries\<close>

definition find_reservation :: "reservation list \<Rightarrow> nat \<Rightarrow> reservation option" where
  "find_reservation rs address = find (\<lambda>r. rv_address r = address) rs"

text \<open>Unlinking: the list without its first element at the address.\<close>

fun unlink_reservation :: "nat \<Rightarrow> reservation list \<Rightarrow> reservation list" where
  "unlink_reservation address [] = []"
| "unlink_reservation address (r # rs) =
     (if rv_address r = address then rs else r # unlink_reservation address rs)"

definition mark_released :: "reservation \<Rightarrow> reservation" where
  "mark_released r =
     r\<lparr>rv_information := (rv_information r)\<lparr>ri_state := RESERVATION_RELEASED\<rparr>\<rparr>"

definition governor_release :: "nat \<Rightarrow> 'a governor_scheme \<Rightarrow> 'a governor_scheme \<times> bool" where
  "governor_release address g =
     (case find_reservation (g_active g) address of
        None \<Rightarrow> (g, False)
      | Some r \<Rightarrow>
          (g\<lparr>g_active := unlink_reservation address (g_active g),
             g_memory_reserved_bytes := g_memory_reserved_bytes g - rv_charged_memory_bytes r,
             g_gpu_memory_reserved_bytes := g_gpu_memory_reserved_bytes g - r_gpu_memory r,
             g_cpu_reserved := g_cpu_reserved g - r_cpu r,
             g_gpu_slots_reserved := g_gpu_slots_reserved g - r_gpu_slots r,
             g_io_slots_reserved := g_io_slots_reserved g - r_io_slots r,
             g_active_count := g_active_count g - 1,
             g_released := mark_released r # g_released g,
             g_generation := g_generation g + 1\<rparr>, True))"

definition reservation_is_valid :: "nat \<Rightarrow> 'a governor_scheme \<Rightarrow> bool" where
  "reservation_is_valid address g = (find_reservation (g_active g) address \<noteq> None)"

definition reservation_get :: "nat \<Rightarrow> 'a governor_scheme \<Rightarrow> reservation_info option" where
  "reservation_get address g =
     (case find_reservation (g_active g) address of
        Some r \<Rightarrow> Some (rv_information r)
      | None \<Rightarrow> map_option rv_information (find_reservation (g_released g) address))"

definition reservation_get_active :: "nat \<Rightarrow> 'a governor_scheme \<Rightarrow> reservation_info option" where
  "reservation_get_active address g =
     map_option rv_information (find_reservation (g_active g) address)"

definition list_reservations :: "nat \<Rightarrow> 'a governor_scheme \<Rightarrow> reservation_info list" where
  "list_reservations capacity g = map rv_information (take capacity (g_active g))"

definition reservation_count :: "'a governor_scheme \<Rightarrow> size_t" where
  "reservation_count g = g_active_count g"

section \<open>Batch measurements and plain decisions\<close>

definition governor_record_batch ::
    "task_class \<Rightarrow> size_t \<Rightarrow> u64 \<Rightarrow> size_t \<Rightarrow> 'a governor_scheme \<Rightarrow> 'a governor_scheme \<times> bool" where
  "governor_record_batch task_class batch_size duration_ns peak_memory_bytes g =
     (if batch_size = 0 then (g, True)
      else case record_batch_locked task_class batch_size duration_ns peak_memory_bytes g of
        None \<Rightarrow> (g, False)
      | Some g \<Rightarrow> (g\<lparr>g_generation := g_generation g + 1\<rparr>, True))"

definition request_estimate :: "resource_request \<Rightarrow> resource_estimate" where
  "request_estimate q =
     \<lparr>re_memory_fixed_bytes = 0, re_gpu_memory_fixed_bytes = 0,
       re_memory_bytes_per_item = rq_memory_bytes_per_item q,
       re_gpu_memory_bytes_per_item = rq_gpu_memory_bytes_per_item q,
       re_minimum_batch_size = rq_minimum_batch_size q,
       re_maximum_batch_size = rq_preferred_batch_size q,
       re_desired_cpu_threads = rq_requested_cpu_threads q,
       re_desired_gpu_slots = (if rq_gpu_memory_bytes_per_item q > 0 then 1 else 0),
       re_desired_io_slots = (if rq_io_intensive q then 1 else 0),
       re_task_class = (if rq_io_intensive q then RESOURCE_TASK_IO else RESOURCE_TASK_GENERAL)\<rparr>"

definition governor_decide ::
    "environment \<Rightarrow> resource_snapshot \<Rightarrow> resource_request \<Rightarrow> 'a governor_scheme
      \<Rightarrow> 'a governor_scheme \<times> resource_decision option" where
  "governor_decide env s q g =
     (if \<not> valid_snapshot (g_profile g) s then (g, None)
      else case evaluate_locked env s (request_estimate q) True
                  (internal_memory_floors_locked g) g of
        None \<Rightarrow> (g, None)
      | Some (g, d) \<Rightarrow> (g, Some d))"

section \<open>The bounded wait\<close>

text \<open>\<open>clock_gettime\<close> plus the timeout, normalised.\<close>

definition wait_deadline :: "timespec \<Rightarrow> u64 \<Rightarrow> timespec" where
  "wait_deadline now timeout_ns =
     (let sec = tv_sec now + uint (timeout_ns div 1000000000);
          nsec = tv_nsec now + uint (timeout_ns mod 1000000000)
      in if nsec \<ge> 1000000000 then \<lparr>tv_sec = sec + 1, tv_nsec = nsec - 1000000000\<rparr>
         else \<lparr>tv_sec = sec, tv_nsec = nsec\<rparr>)"

datatype timedwait_result = WAIT_WOKEN | WAIT_TIMEDOUT | WAIT_FAILED

text \<open>
  The wait loop: each element is what one \<open>pthread_cond_timedwait\<close> returned and the
  generation found when the mutex was taken back. \<^const>\<open>None\<close>: still waiting.
\<close>

fun wait_loop :: "u64 \<Rightarrow> u64 \<Rightarrow> (timedwait_result \<times> u64) list \<Rightarrow> bool option" where
  "wait_loop observed generation [] = (if generation \<noteq> observed then Some True else None)"
| "wait_loop observed generation ((result, generation') # rest) =
     (if generation \<noteq> observed then Some True
      else case result of
        WAIT_TIMEDOUT \<Rightarrow> Some (generation' \<noteq> observed)
      | WAIT_FAILED \<Rightarrow> Some False
      | WAIT_WOKEN \<Rightarrow> wait_loop observed generation' rest)"

definition wait_for_change ::
    "environment \<Rightarrow> u64 \<Rightarrow> (timedwait_result \<times> u64) list \<Rightarrow> 'a governor_scheme \<Rightarrow> bool option" where
  "wait_for_change env observed events g =
     (case ev_monotonic env of
        None \<Rightarrow> Some False
      | Some now \<Rightarrow> wait_loop observed (g_generation g) events)"

end
