(* ===== verification/Governor_Safety.thy ===== *)
theory Governor_Safety
  imports Governor_Reservations
begin

text \<open>
  The accounting of the Governor: \<open>gov_inv\<close> holds after \<open>create\<close> and every operation keeps
  it, so it holds in every reachable state; what a reservation charges stays above the
  host-memory floor; \<open>release\<close> undoes \<open>reserve\<close>.
\<close>

section \<open>Creation, policy, measurements\<close>

lemma governor_create_inv:
  assumes "governor_create mesa env topology profile policy = Some g"
  shows "gov_inv g" and "g_active g = []" and "g_released g = []" and "g_profile g = profile"
proof -
  have v: "valid_policy profile policy"
    using assms by (auto simp: governor_create_def split: if_splits)
  obtain cpu where g: "g = \<lparr>g_generation = 0, g_profile = profile, g_policy = policy,
             g_next_reservation_id = 1, g_memory_reserved_bytes = 0,
             g_gpu_memory_reserved_bytes = 0, g_cpu_reserved = 0, g_gpu_slots_reserved = 0,
             g_io_slots_reserved = 0, g_batch_rings = replicate 6 empty_ring,
             g_cpu_topology = topology, g_cpu_policy = cpu, g_active_count = 0,
             g_swap_baseline_known = False, g_last_swap_pages_in = 0, g_last_swap_pages_out = 0,
             g_pressure_streak = 0, g_recovery_streak = 0, g_slow_start_streak = 0,
             g_slow_start_limit = SIZE_MAX, g_slow_start_active = False,
             g_pressure = PRESSURE_GREEN, g_internal_now = None,
             g_internal_force_capture_failure = False, g_active = [], g_released = [],
             g_heap_next = 0\<rparr>"
    using assms by (auto simp: governor_create_def split: if_splits option.splits)
  have r: "list_all ring_ok (replicate 6 empty_ring)" by (simp add: list_all_iff)
  show "gov_inv g" using v r
    by (simp add: g gov_inv_def accounts_inv_def gov_counters_def gov_budgets_def gov_heap_def
      gov_ids_def gov_states_def charged_sum_def pressure_inv_def rings_inv_def
      word_greater_zero_iff)
  show "g_active g = []" "g_released g = []" "g_profile g = profile" by (simp_all add: g)
qed

lemma set_policy_inv:
  assumes "gov_inv g"
  shows "gov_inv (fst (set_policy mesa policy g))"
  using assms
  by (auto simp: set_policy_def Let_def gov_inv_def accounts_inv_def gov_counters_def
    gov_budgets_def gov_heap_def gov_ids_def gov_states_def charged_sum_def pressure_inv_def
    rings_inv_def split: option.splits)

lemma gov_inv_transfer:
  assumes "gov_inv g" and "gov_accounts h = gov_accounts g"
    and "pressure_inv h" and "rings_inv h"
  shows "gov_inv h"
  using assms accounts_inv_cong [of h g] by (simp add: gov_inv_def)

lemma record_batch_locked_inv:
  assumes "gov_inv g" and "record_batch_locked c b dur peak g = Some h"
  shows "gov_inv h"
proof -
  have c: "\<not> c > RESOURCE_TASK_MIXED"
    and h: "h = g\<lparr>g_batch_rings := (g_batch_rings g)[unat c := ring_push
      \<lparr>bm_batch_size = b, bm_duration_ns = dur, bm_peak_memory_bytes = peak\<rparr>
      (g_batch_rings g ! unat c)]\<rparr>"
    using assms(2) by (auto simp: record_batch_locked_def Let_def split: if_splits)
  have "unat c \<le> 5" using c by (simp add: not_less word_le_nat_alt)
  then have "unat c < length (g_batch_rings g)" using assms(1) by (simp add: gov_inv_def rings_inv_def)
  then have "ring_ok (g_batch_rings g ! unat c)"
    using assms(1) by (simp add: gov_inv_def rings_inv_def list_all_length)
  then have "rings_inv h"
    using assms(1) by (simp add: h gov_inv_def rings_inv_def list_all_update)
  moreover have "gov_accounts h = gov_accounts g" by (simp add: h gov_accounts_def)
  moreover have "pressure_inv h" using assms(1) by (simp add: h gov_inv_def pressure_inv_def)
  ultimately show ?thesis using assms(1) gov_inv_transfer by blast
qed

lemma generation_bump [simp]:
  "gov_inv (g\<lparr>g_generation := x\<rparr>) = gov_inv g"
  by (simp add: gov_inv_def accounts_inv_def gov_counters_def gov_budgets_def gov_heap_def
    gov_ids_def gov_states_def charged_sum_def pressure_inv_def rings_inv_def)

lemma governor_record_batch_inv:
  "gov_inv g \<Longrightarrow> gov_inv (fst (governor_record_batch c b dur peak g))"
  by (auto simp: governor_record_batch_def record_batch_locked_inv split: option.splits)

section \<open>The pressure update\<close>

lemma update_pressure_inv:
  assumes "pressure_inv g"
  shows "pressure_inv (update_pressure_locked s floors g)"
proof -
  have inc: "increment_to_limit x 3 < 3 \<or> 3 \<le> increment_to_limit x 3" for x by auto
  have streak: "increment_to_limit (g_pressure_streak g) 2 \<le> 2"
    using assms by (auto simp: pressure_inv_def intro: increment_to_limit_le)
  have double: "0 < l * 2" if "0 < l" "\<not> l > SIZE_MAX div 2" for l :: size_t
  proof -
    have "unat l \<le> unat (SIZE_MAX div 2 :: size_t)" using that(2) by (simp add: word_le_nat_alt not_less)
    also have "\<dots> = 9223372036854775807" by (simp add: unat_div unat_max64)
    finally have "unat (l * 2) = unat l * 2" by (intro unat_mult64 [of l 2, simplified]) simp
    then show ?thesis using that(1) by (simp add: word_less_nat_alt)
  qed
  show ?thesis
    using assms streak double
    by (auto simp: pressure_inv_def pressure_update_defs Let_def not_le word_greater_zero_iff
      split: pressure.splits)
qed

lemma evaluate_locked_inv:
  assumes "gov_inv g" and "evaluate_locked env s e upd floors g = Some (h, d)"
  shows "gov_inv h" and "gov_accounts h = gov_accounts g"
proof -
  have "h = g \<or> h = update_pressure_locked s floors g"
    using assms(2) by (auto simp: evaluate_locked_def Let_def split: if_splits option.splits)
  then show "gov_accounts h = gov_accounts g" by auto
  moreover have "pressure_inv h" "rings_inv h"
    using \<open>h = g \<or> _\<close> assms(1) update_pressure_inv by (auto simp: gov_inv_def rings_inv_def)
  ultimately show "gov_inv h" using assms(1) gov_inv_transfer by blast
qed

section \<open>Activation\<close>

text \<open>
  What a decision must satisfy for its activation to keep the accounts: the capability path
  and the plain path both establish it.
\<close>

definition grant_fits :: "'a governor_scheme \<Rightarrow> resource_estimate \<Rightarrow> resource_decision \<Rightarrow> bool" where
  "grant_fits g e d \<longleftrightarrow>
     unat (g_memory_reserved_bytes g) + host_demand (g_profile g) e (rd_batch_size d)
       \<le> unat (memory_budget (g_profile g) (g_policy g))
     \<and> (\<not> hp_gpu_uses_shared_memory (g_profile g) \<longrightarrow>
         unat (g_gpu_memory_reserved_bytes g) + gpu_demand e (rd_batch_size d)
           \<le> unat (gpu_budget (g_profile g) (g_policy g)))
     \<and> 0 < rd_cpu_threads d
     \<and> rd_cpu_threads d \<le> cp_compute_cpu_count (g_cpu_policy g) - g_cpu_reserved g
     \<and> rd_gpu_slots d \<le> rp_gpu_slot_capacity (g_policy g) - g_gpu_slots_reserved g
     \<and> rd_io_slots d \<le> rp_io_slot_capacity (g_policy g) - g_io_slots_reserved g"

lemma subtract_unsigned_le: "b \<le> a \<Longrightarrow> subtract_unsigned a b = a - b"
  by (auto simp: subtract_unsigned_def)

lemma admission_grant_fits:
  assumes "accounts_inv g" and "valid_estimate e"
    and "mf_admission_floor floors = rp_system_memory_reserve_bytes (g_policy g)"
    and "decision_grants (admission_decision g s e floors)"
  shows "grant_fits g e (admission_decision g s e floors)"
proof -
  let ?d = "admission_decision g s e floors"
  have policy: "valid_policy (g_profile g) (g_policy g)" and budgets: "gov_budgets g"
    using assms(1) by (auto simp: accounts_inv_def)
  have floor: "rp_system_memory_reserve_bytes (g_policy g) \<le> hp_memory_total_bytes (g_profile g)"
    using policy by (auto simp: valid_policy_def)
  have mb: "unat (memory_budget (g_profile g) (g_policy g)) =
      unat (hp_memory_total_bytes (g_profile g)) - unat (rp_system_memory_reserve_bytes (g_policy g))"
    using floor by (simp add: memory_budget_def unat_sub)
  have reserved: "unat (g_memory_reserved_bytes g) \<le> unat (memory_budget (g_profile g) (g_policy g))"
    using budgets by (simp add: gov_budgets_def word_le_nat_alt)
  have host: "unat (g_memory_reserved_bytes g) + host_demand (g_profile g) e (rd_batch_size ?d)
      \<le> unat (memory_budget (g_profile g) (g_policy g))"
    using admission_grant_host_memory(1) [OF assms(4,2)] mb reserved assms(3) by auto
  obtain available maximum batch where
    avail: "availability_locked g s (mf_admission_floor floors) = Some available"
    and d: "?d = grant_slots available e (minimum_size batch maximum) maximum"
    and grants: "decision_grants (grant_slots available e (minimum_size batch maximum) maximum)"
    using admission_grantE [OF assms(4)] by metis
  have gpu: "unat (g_gpu_memory_reserved_bytes g) + gpu_demand e (rd_batch_size ?d)
      \<le> unat (gpu_budget (g_profile g) (g_policy g))" if ns: "\<not> hp_gpu_uses_shared_memory (g_profile g)"
  proof (cases "gpu_demand e (rd_batch_size ?d) = 0")
    case True
    then show ?thesis using budgets by (simp add: gov_budgets_def word_le_nat_alt)
  next
    case False
    with admission_grant_gpu_memory [OF assms(4,2) ns]
    have k: "hp_gpu_memory_known (g_profile g)" "rs_gpu_memory_available_known s"
      "unat (g_gpu_memory_reserved_bytes g) + gpu_demand e (rd_batch_size ?d)
        + unat (rp_gpu_memory_reserve_bytes (g_policy g)) \<le> unat (rs_gpu_memory_available_bytes s)"
      by auto
    have "rs_gpu_memory_available_bytes s \<le> hp_gpu_memory_total_bytes (g_profile g)"
      using availability_fields(6) [OF avail] k(1,2) ns by (simp add: valid_snapshot_def)
    moreover have "rp_gpu_memory_reserve_bytes (g_policy g) \<le> hp_gpu_memory_total_bytes (g_profile g)"
      using policy k(1) by (auto simp: valid_policy_def)
    ultimately show ?thesis
      using k ns by (simp add: gpu_budget_def unat_sub word_le_nat_alt)
  qed
  note slots = grant_slots_grants [OF grants, folded d]
  have "0 < rd_cpu_threads ?d" using slots(4) assms(2) by (simp add: valid_estimate_def)
  with host gpu slots(2,5,6) budgets availability_fields(2,3,4) [OF avail] show ?thesis
    by (simp add: grant_fits_def gov_budgets_def subtract_unsigned_le)
qed

lemma uma_gpu_le_memory:
  assumes "accounts_inv g" and "hp_gpu_uses_shared_memory (g_profile g)"
  shows "unat (g_gpu_memory_reserved_bytes g) \<le> unat (g_memory_reserved_bytes g)"
proof -
  have "\<forall>r \<in> set (g_active g). unat (r_gpu_memory r) \<le> unat (rv_charged_memory_bytes r)"
    using assms by (auto simp: accounts_inv_def gov_states_def reservation_ok_def)
  then have "charged_sum r_gpu_memory g \<le> charged_sum rv_charged_memory_bytes g"
    by (simp add: charged_sum_def sum_list_mono)
  then show ?thesis using assms(1) by (simp add: accounts_inv_def gov_counters_def)
qed

lemma activateE:
  assumes "activate_reservation_locked env e d g = Some (h, a)"
  obtains m gm charged created_at r where
    "g_next_reservation_id g \<noteq> 0" "a = g_heap_next g"
    "unat m = unat (re_memory_fixed_bytes e) + unat (re_memory_bytes_per_item e) * unat (rd_batch_size d)"
    "unat gm = gpu_demand e (rd_batch_size d)"
    "unat charged = host_demand (g_profile g) e (rd_batch_size d)"
    "unat charged = unat m + (if hp_gpu_uses_shared_memory (g_profile g) then unat gm else 0)"
    "r = \<lparr>rv_address = g_heap_next g,
       rv_information = \<lparr>ri_id = g_next_reservation_id g, ri_memory_bytes = m,
         ri_gpu_memory_bytes = gm, ri_cpu_threads = rd_cpu_threads d,
         ri_gpu_slots = rd_gpu_slots d, ri_io_slots = rd_io_slots d,
         ri_batch_size = rd_batch_size d, ri_task_class = re_task_class e,
         ri_state = RESERVATION_ACTIVE, ri_created_at = created_at\<rparr>,
       rv_charged_memory_bytes = charged\<rparr>"
    "h = g\<lparr>g_next_reservation_id := g_next_reservation_id g + 1, g_active := r # g_active g,
       g_memory_reserved_bytes := g_memory_reserved_bytes g + rv_charged_memory_bytes r,
       g_gpu_memory_reserved_bytes := g_gpu_memory_reserved_bytes g + r_gpu_memory r,
       g_cpu_reserved := g_cpu_reserved g + r_cpu r,
       g_gpu_slots_reserved := g_gpu_slots_reserved g + r_gpu_slots r,
       g_io_slots_reserved := g_io_slots_reserved g + r_io_slots r,
       g_active_count := g_active_count g + 1, g_generation := g_generation g + 1,
       g_heap_next := g_heap_next g + 1\<rparr>"
proof -
  from assms obtain m gm charged created_at where
    n: "g_next_reservation_id g \<noteq> 0"
    and m: "resource_size (re_memory_fixed_bytes e) (re_memory_bytes_per_item e) (rd_batch_size d) = Some m"
    and gm: "resource_size (re_gpu_memory_fixed_bytes e) (re_gpu_memory_bytes_per_item e)
        (rd_batch_size d) = Some gm"
    and c: "(if hp_gpu_uses_shared_memory (g_profile g) then add_uint64 m gm else Some m) = Some charged"
    and t: "ev_realtime env = Some created_at"
    by (auto simp: activate_reservation_locked_def split: if_splits option.splits)
  have um: "unat m = unat (re_memory_fixed_bytes e) + unat (re_memory_bytes_per_item e) * unat (rd_batch_size d)"
    using m by (rule unat_resource_size)
  have ug: "unat gm = gpu_demand e (rd_batch_size d)"
    using unat_resource_size [OF gm] by (simp add: gpu_demand_def)
  have uc: "unat charged = unat m + (if hp_gpu_uses_shared_memory (g_profile g) then unat gm else 0)"
    using c unat_add_uint64 by (auto split: if_splits)
  show ?thesis
  proof (rule that [OF n _ um ug _ uc refl])
    show "a = g_heap_next g"
      using assms n m gm c t by (simp add: activate_reservation_locked_def Let_def)
    show "unat charged = host_demand (g_profile g) e (rd_batch_size d)"
      using uc um ug by (simp add: host_demand_def gpu_demand_def)
  qed (use assms n m gm c t in \<open>auto simp: activate_reservation_locked_def Let_def\<close>)
qed

lemma active_length_bound:
  assumes "accounts_inv g"
  shows "length (g_active g) \<le> unat (g_cpu_reserved g)"
proof -
  have "\<forall>r \<in> set (g_active g). 1 \<le> unat (r_cpu r)"
    using assms by (auto simp: accounts_inv_def gov_states_def reservation_ok_def word_less_nat_alt Suc_le_eq)
  then have "sum_list (map (\<lambda>r. 1) (g_active g)) \<le> charged_sum r_cpu g"
    unfolding charged_sum_def by (intro sum_list_mono) auto
  then show ?thesis using assms by (simp add: accounts_inv_def gov_counters_def sum_list_triv)
qed

lemma next_id_fresh:
  assumes "n \<noteq> (0 :: u64)" and "\<And>x. x \<in> A \<Longrightarrow> x < n"
  shows "n \<notin> A" and "n + 1 = 0 \<or> (\<forall>x \<in> insert n A. x < n + 1)"
proof -
  show "n \<notin> A" using assms(2) by blast
  have "x < n + 1" if "x \<le> n" "n + 1 \<noteq> 0" for x :: u64
  proof -
    have "unat (n + 1) = unat n + 1" using that(2) by (rule unat_succ64)
    then show ?thesis using that(1) by (simp add: word_less_nat_alt word_le_nat_alt)
  qed
  with assms(2) show "n + 1 = 0 \<or> (\<forall>x \<in> insert n A. x < n + 1)" by (auto intro: less_imp_le)
qed

lemma activate_accounts_inv:
  assumes inv: "accounts_inv g" and fits: "grant_fits g e d"
    and act: "activate_reservation_locked env e d g = Some (h, a)"
  shows "accounts_inv h"
proof -
  obtain m gm charged created_at r where
    n: "g_next_reservation_id g \<noteq> 0" and
    gm: "unat gm = gpu_demand e (rd_batch_size d)" and
    c: "unat charged = host_demand (g_profile g) e (rd_batch_size d)" and
    cm: "unat charged = unat m + (if hp_gpu_uses_shared_memory (g_profile g) then unat gm else 0)" and
    r: "r = \<lparr>rv_address = g_heap_next g,
       rv_information = \<lparr>ri_id = g_next_reservation_id g, ri_memory_bytes = m,
         ri_gpu_memory_bytes = gm, ri_cpu_threads = rd_cpu_threads d,
         ri_gpu_slots = rd_gpu_slots d, ri_io_slots = rd_io_slots d,
         ri_batch_size = rd_batch_size d, ri_task_class = re_task_class e,
         ri_state = RESERVATION_ACTIVE, ri_created_at = created_at\<rparr>,
       rv_charged_memory_bytes = charged\<rparr>" and
    h: "h = g\<lparr>g_next_reservation_id := g_next_reservation_id g + 1, g_active := r # g_active g,
       g_memory_reserved_bytes := g_memory_reserved_bytes g + rv_charged_memory_bytes r,
       g_gpu_memory_reserved_bytes := g_gpu_memory_reserved_bytes g + r_gpu_memory r,
       g_cpu_reserved := g_cpu_reserved g + r_cpu r,
       g_gpu_slots_reserved := g_gpu_slots_reserved g + r_gpu_slots r,
       g_io_slots_reserved := g_io_slots_reserved g + r_io_slots r,
       g_active_count := g_active_count g + 1, g_generation := g_generation g + 1,
       g_heap_next := g_heap_next g + 1\<rparr>"
    using activateE [OF act] by metis
  have counters: "gov_counters g" and budgets: "gov_budgets g" and heap: "gov_heap g"
    and ids: "gov_ids g" and states: "gov_states g"
    and policy: "valid_policy (g_profile g) (g_policy g)"
    using inv by (auto simp: accounts_inv_def)
  have active: "g_active h = r # g_active g" by (simp add: h)
  have mem_le: "rv_charged_memory_bytes r \<le> memory_budget (g_profile g) (g_policy g) - g_memory_reserved_bytes g"
    using fits budgets c r by (auto simp: grant_fits_def gov_budgets_def word_le_nat_alt unat_sub)
  note mem = charged_sum_add [where f = rv_charged_memory_bytes, OF _ active _ mem_le]
  have gpu_le: "r_gpu_memory r \<le> gpu_budget (g_profile g) (g_policy g) - g_gpu_memory_reserved_bytes g"
  proof (cases "hp_gpu_uses_shared_memory (g_profile g)")
    case False
    then show ?thesis
      using fits budgets gm r by (auto simp: grant_fits_def gov_budgets_def word_le_nat_alt unat_sub)
  next
    case True
    have "unat (g_gpu_memory_reserved_bytes g) + unat gm \<le> unat (g_memory_reserved_bytes g) + unat charged"
      using uma_gpu_le_memory [OF inv True] cm True by simp
    also have "\<dots> \<le> unat (memory_budget (g_profile g) (g_policy g))"
      using fits c by (simp add: grant_fits_def)
    also have "\<dots> \<le> unat UINT64_MAX" by (metis unat_le_max64 unat_max64)
    finally have "unat gm \<le> unat UINT64_MAX - unat (g_gpu_memory_reserved_bytes g)" by simp
    then show ?thesis using True r
      by (simp add: gpu_budget_def word_le_nat_alt max64_sub [simplified] unat_max64)
  qed
  note gpu = charged_sum_add [where f = r_gpu_memory, OF _ active _ gpu_le]
  have cpu_le: "r_cpu r \<le> cp_compute_cpu_count (g_cpu_policy g) - g_cpu_reserved g"
    and gs_le: "r_gpu_slots r \<le> rp_gpu_slot_capacity (g_policy g) - g_gpu_slots_reserved g"
    and io_le: "r_io_slots r \<le> rp_io_slot_capacity (g_policy g) - g_io_slots_reserved g"
    using fits r by (auto simp: grant_fits_def)
  note cpu = charged_sum_add [where f = r_cpu, OF _ active _ cpu_le]
    and gs = charged_sum_add [where f = r_gpu_slots, OF _ active _ gs_le]
    and io = charged_sum_add [where f = r_io_slots, OF _ active _ io_le]
  have count: "unat (g_active_count g + 1) = Suc (length (g_active g))"
  proof -
    have "unat (g_active_count g) \<le> unat (g_cpu_reserved g)"
      using counters active_length_bound [OF inv] by (simp add: gov_counters_def)
    then have "unat (g_active_count g) + unat (1 :: u64) < 18446744073709551616"
      using unat_lt32 [of "g_cpu_reserved g"] by simp
    then show ?thesis using counters unat_add64 by (fastforce simp: gov_counters_def)
  qed
  have "gov_counters h"
    using counters budgets mem(1) gpu(1) cpu(1) gs(1) io(1) count
    by (simp add: gov_counters_def gov_budgets_def h)
  moreover have "gov_budgets h"
    using counters budgets mem(2) gpu(2) cpu(2) gs(2) io(2)
    by (simp add: gov_counters_def gov_budgets_def h)
  moreover have "gov_heap h"
    using heap r by (auto simp: gov_heap_def h lessThan_Suc)
  moreover have "gov_ids h"
    using ids n r next_id_fresh [OF n, of "rv_id ` set (gov_objects g)"]
    by (auto simp: gov_ids_def h image_iff)
  moreover have "gov_states h"
    using states r n cm fits by (auto simp: gov_states_def h reservation_ok_def grant_fits_def)
  ultimately show ?thesis using policy by (simp add: accounts_inv_def h)
qed

section \<open>Release\<close>

lemma find_reservation_Some:
  "find_reservation rs a = Some r \<Longrightarrow> r \<in> set rs \<and> rv_address r = a"
  by (auto simp: find_reservation_def find_Some_iff)

lemma find_reservation_None:
  "find_reservation rs a = None \<longleftrightarrow> a \<notin> rv_address ` set rs"
  by (auto simp: find_reservation_def find_None_iff)

lemma unlink_reservation_filter:
  "distinct (map rv_address rs) \<Longrightarrow>
     unlink_reservation a rs = filter (\<lambda>r. rv_address r \<noteq> a) rs"
proof (induction rs)
  case Nil
  then show ?case by simp
next
  case (Cons r rs)
  moreover have "filter (\<lambda>x. rv_address x \<noteq> rv_address r) rs = rs"
    using Cons.prems by (auto simp: filter_id_conv image_iff)
  ultimately show ?case by auto
qed

lemma mark_released_simps [simp]:
  "rv_address (mark_released r) = rv_address r"
  "rv_id (mark_released r) = rv_id r"
  "ri_state (rv_information (mark_released r)) = RESERVATION_RELEASED"
  "reservation_ok p (mark_released r) = reservation_ok p r"
  by (simp_all add: mark_released_def reservation_ok_def)

lemma release_accounts_inv:
  assumes inv: "accounts_inv g" and rel: "governor_release a g = (h, True)"
  shows "accounts_inv h"
proof -
  obtain r where r: "r \<in> set (g_active g)" "rv_address r = a"
    and h: "h = g\<lparr>g_active := unlink_reservation a (g_active g),
             g_memory_reserved_bytes := g_memory_reserved_bytes g - rv_charged_memory_bytes r,
             g_gpu_memory_reserved_bytes := g_gpu_memory_reserved_bytes g - r_gpu_memory r,
             g_cpu_reserved := g_cpu_reserved g - r_cpu r,
             g_gpu_slots_reserved := g_gpu_slots_reserved g - r_gpu_slots r,
             g_io_slots_reserved := g_io_slots_reserved g - r_io_slots r,
             g_active_count := g_active_count g - 1,
             g_released := mark_released r # g_released g,
             g_generation := g_generation g + 1\<rparr>"
    using rel find_reservation_Some by (fastforce simp: governor_release_def split: option.splits)
  have counters: "gov_counters g" and budgets: "gov_budgets g" and heap: "gov_heap g"
    and ids: "gov_ids g" and states: "gov_states g"
    and policy: "valid_policy (g_profile g) (g_policy g)"
    using inv by (auto simp: accounts_inv_def)
  have d: "distinct (map rv_address (g_active g))"
    using heap by (simp add: gov_heap_def)
  have active: "g_active h = filter (\<lambda>x. rv_address x \<noteq> rv_address r) (g_active g)"
    using unlink_reservation_filter [OF d, of a] r by (simp add: h)
  note remove = charged_sum_remove [where f = rv_charged_memory_bytes, OF _ d r(1) active]
    charged_sum_remove [where f = r_gpu_memory, OF _ d r(1) active]
    charged_sum_remove [where f = r_cpu, OF _ d r(1) active]
    charged_sum_remove [where f = r_gpu_slots, OF _ d r(1) active]
    charged_sum_remove [where f = r_io_slots, OF _ d r(1) active]
  have len: "length (g_active g) = Suc (length (g_active h))"
    unfolding active by (rule filter_key_length [OF d r(1)])
  have cnt: "unat (g_active_count g) = Suc (length (g_active h))"
    using counters len by (simp add: gov_counters_def)
  then have "g_active_count g \<noteq> 0" by auto
  then have "unat (g_active_count g - 1) = length (g_active h)"
    using cnt by (simp add: unat_minus_one)
  then have c': "gov_counters h"
    using counters remove by (simp add: gov_counters_def h)
  have sub: "x - y \<le> z" if "x \<le> z" "y \<le> x" for x y z :: "'w::len word"
    using that by (simp add: word_le_nat_alt unat_sub)
  have b': "gov_budgets h"
    using budgets counters charged_member [where f = rv_charged_memory_bytes, OF _ r(1)]
      charged_member [where f = r_gpu_memory, OF _ r(1)] charged_member [where f = r_cpu, OF _ r(1)]
      charged_member [where f = r_gpu_slots, OF _ r(1)] charged_member [where f = r_io_slots, OF _ r(1)]
    by (auto simp: gov_budgets_def gov_counters_def h intro!: sub)
  have kept: "set (g_active h) \<union> {r} = set (g_active g)" "r \<notin> set (g_active h)"
    using r active by (auto simp: inj_on_def dest: inj_onD [OF distinct_map [THEN iffD1, OF d, THEN conjunct2]])
  have released: "g_released h = mark_released r # g_released g" by (simp add: h)
  have objects: "f ` set (gov_objects h) = f ` set (gov_objects g)"
    if "f (mark_released r) = f r" for f :: "reservation \<Rightarrow> 'z"
    using kept that released by auto
  have dist: "distinct (map f (gov_objects h))"
    if f: "f (mark_released r) = f r" and o: "distinct (map f (gov_objects g))"
    for f :: "reservation \<Rightarrow> 'z"
  proof -
    have "inj_on f (set (g_active g))" using o by (simp add: distinct_map)
    then have "f r \<notin> f ` set (g_active h)" using kept by (auto dest: inj_onD)
    moreover have "distinct (map f (g_active h))" using o active by (simp add: distinct_map_filter_key)
    ultimately show ?thesis using o kept(1) released f by (auto simp: image_iff)
  qed
  have "gov_heap h" using heap objects [of rv_address] dist [of rv_address]
    by (simp add: gov_heap_def) (simp add: h)
  moreover have "\<forall>x \<in> set (gov_objects h). rv_id x < n"
    if "\<forall>x \<in> set (gov_objects g). rv_id x < n" for n
    using that kept released by auto
  then have "gov_ids h"
    using ids dist [of rv_id] unfolding gov_ids_def by (auto simp: h)
  moreover have "gov_states h"
    using states kept by (auto simp: gov_states_def h)
  ultimately show ?thesis using policy c' b' by (simp add: accounts_inv_def h)
qed

section \<open>Reserve and the other operations\<close>

lemma internal_floors_admission [simp]:
  "mf_admission_floor (internal_memory_floors_locked g) = rp_system_memory_reserve_bytes (g_policy g)"
  by (simp add: internal_memory_floors_locked_def Let_def)

lemma accounts_fields:
  assumes "gov_accounts h = gov_accounts g"
  shows "g_profile h = g_profile g" "g_policy h = g_policy g" "g_active h = g_active g"
    "g_memory_reserved_bytes h = g_memory_reserved_bytes g"
    "g_gpu_memory_reserved_bytes h = g_gpu_memory_reserved_bytes g"
    "g_cpu_reserved h = g_cpu_reserved g" "g_gpu_slots_reserved h = g_gpu_slots_reserved g"
    "g_io_slots_reserved h = g_io_slots_reserved g" "g_released h = g_released g"
    "g_active_count h = g_active_count g" "g_heap_next h = g_heap_next g"
    "g_next_reservation_id h = g_next_reservation_id g" "g_cpu_policy h = g_cpu_policy g"
  using assms by (simp_all add: gov_accounts_def)

lemma evaluate_locked_grants:
  assumes "evaluate_locked env s e upd floors g = Some (h, d)" and "decision_grants d"
  shows "valid_estimate e" and "d = admission_decision h s e floors"
    and "h = (if upd then update_pressure_locked s floors g else g)"
    and "\<exists>now. governor_now g env = Some now \<and> snapshot_is_fresh now s"
proof -
  have "valid_estimate e \<and> d = admission_decision h s e floors
      \<and> h = (if upd then update_pressure_locked s floors g else g)
      \<and> (\<exists>now. governor_now g env = Some now \<and> snapshot_is_fresh now s)"
    using assms(1)
  proof (cases rule: evaluate_lockedE)
    case (decided now)
    then show ?thesis by blast
  qed (use assms(2) in simp_all)
  then show "valid_estimate e" "d = admission_decision h s e floors"
    "h = (if upd then update_pressure_locked s floors g else g)"
    "\<exists>now. governor_now g env = Some now \<and> snapshot_is_fresh now s" by blast+
qed

text \<open>The only way a reserve gives a reservation.\<close>

lemma governor_reserve_cases:
  assumes "governor_reserve env s e g = (h, r)"
  obtains (failed) "h = g" "\<not> rr_ok r" "rr_decision r = None" "rr_reservation r = None"
      "\<not> ev_alloc env \<or> \<not> valid_snapshot (g_profile g) s
        \<or> evaluate_locked env s e True (internal_memory_floors_locked g) g = None"
  | (refused) d where "ev_alloc env" "valid_snapshot (g_profile g) s"
      "evaluate_locked env s e True (internal_memory_floors_locked g) g = Some (h, d)"
      "\<not> decision_grants d" "rr_ok r" "rr_decision r = Some d" "rr_reservation r = None"
  | (not_activated) d reason where "ev_alloc env" "valid_snapshot (g_profile g) s"
      "evaluate_locked env s e True (internal_memory_floors_locked g) g = Some (h, d)"
      "decision_grants d" "activate_reservation_locked env e d h = None"
      "\<not> rr_ok r" "rr_decision r = Some (reject reason)" "rr_reservation r = None"
  | (granted) g1 d a where "ev_alloc env" "valid_snapshot (g_profile g) s"
      "evaluate_locked env s e True (internal_memory_floors_locked g) g = Some (g1, d)"
      "decision_grants d" "activate_reservation_locked env e d g1 = Some (h, a)"
      "rr_ok r" "rr_decision r = Some d" "rr_reservation r = Some a"
proof (cases "ev_alloc env \<and> valid_snapshot (g_profile g) s")
  case False
  then have "governor_reserve env s e g =
      (g, \<lparr>rr_ok = False, rr_decision = None, rr_reservation = None\<rparr>)"
    by (auto simp: governor_reserve_def Let_def)
  then show ?thesis using assms False by (intro failed) auto
next
  case True
  then have unfold: "governor_reserve env s e g =
    (case evaluate_locked env s e True (internal_memory_floors_locked g) g of
        None \<Rightarrow> (g, \<lparr>rr_ok = False, rr_decision = None, rr_reservation = None\<rparr>)
      | Some (g, d) \<Rightarrow>
          if rd_kind d \<noteq> RESOURCE_START \<and> rd_kind d \<noteq> RESOURCE_REDUCE_BATCH
          then (g, \<lparr>rr_ok = True, rr_decision = Some d, rr_reservation = None\<rparr>)
          else case activate_reservation_locked env e d g of
            None \<Rightarrow> (g, \<lparr>rr_ok = False,
                rr_decision = Some (reject (''Impossible d'' @ [CHR 0x27] @ ''activer la r''
                  @ e_acute @ ''servation.'')),
                rr_reservation = None\<rparr>)
          | Some (g, created) \<Rightarrow>
              (g, \<lparr>rr_ok = True, rr_decision = Some d, rr_reservation = Some created\<rparr>))"
    by (simp only: governor_reserve_def Let_def not_True_eq_False if_False)
  show ?thesis
  proof (cases "evaluate_locked env s e True (internal_memory_floors_locked g) g")
    case None
    with assms failed show ?thesis unfolding unfold by auto
  next
    case (Some p)
    obtain g1 d where p: "p = (g1, d)" by fastforce
    show ?thesis
    proof (cases "decision_grants d")
      case False
      with assms Some p True refused show ?thesis unfolding unfold by (auto simp: decision_grants_def)
    next
      case dg: True
      then have k: "\<not> (rd_kind d \<noteq> RESOURCE_START \<and> rd_kind d \<noteq> RESOURCE_REDUCE_BATCH)"
        by (auto simp: decision_grants_def)
      show ?thesis
      proof (cases "activate_reservation_locked env e d g1")
        case None
        with assms Some p True dg k not_activated show ?thesis unfolding unfold by auto
      next
        case (Some q)
        with assms \<open>evaluate_locked _ _ _ _ _ _ = Some p\<close> p True dg k granted show ?thesis
          unfolding unfold by (cases q) auto
      qed
    qed
  qed
qed

text \<open>The only way a reserve gives a reservation, and the only states it leaves otherwise.\<close>

lemma governor_reserve_granted:
  assumes "governor_reserve env s e g = (h, r)" and "rr_reservation r = Some a"
  obtains g1 d where
    "evaluate_locked env s e True (internal_memory_floors_locked g) g = Some (g1, d)"
    "decision_grants d" "activate_reservation_locked env e d g1 = Some (h, a)"
    "rr_ok r" "rr_decision r = Some d" "valid_snapshot (g_profile g) s" "ev_alloc env"
  using assms(1) by (cases rule: governor_reserve_cases) (use assms(2) in auto)

lemma governor_reserve_refused:
  assumes "governor_reserve env s e g = (h, r)" and "rr_reservation r = None"
  shows "h = g \<or> (\<exists>d. evaluate_locked env s e True (internal_memory_floors_locked g) g = Some (h, d))"
  using assms(1) by (cases rule: governor_reserve_cases) (use assms(2) in auto)

lemma activate_keeps:
  assumes "activate_reservation_locked env e d g = Some (h, a)"
  shows "pressure_inv h = pressure_inv g" and "rings_inv h = rings_inv g"
    and "g_profile h = g_profile g" and "g_policy h = g_policy g"
  by (rule activateE [OF assms]; simp add: pressure_inv_def rings_inv_def)+

lemma governor_reserve_inv:
  assumes inv: "gov_inv g"
  shows "gov_inv (fst (governor_reserve env s e g))"
proof -
  obtain h r where hr: "governor_reserve env s e g = (h, r)" by fastforce
  show ?thesis
  proof (cases "rr_reservation r")
    case None
    from governor_reserve_refused [OF hr None] inv evaluate_locked_inv hr show ?thesis by fastforce
  next
    case (Some a)
    let ?floors = "internal_memory_floors_locked g"
    obtain g1 d where ev: "evaluate_locked env s e True ?floors g = Some (g1, d)"
      and dg: "decision_grants d" and act: "activate_reservation_locked env e d g1 = Some (h, a)"
      using governor_reserve_granted [OF hr Some] by metis
    note ev' = evaluate_locked_inv [OF inv ev] and fields = accounts_fields [OF evaluate_locked_inv(2) [OF inv ev]]
    have "grant_fits g1 e d"
      unfolding evaluate_locked_grants(2) [OF ev dg]
      using ev'(1) fields evaluate_locked_grants [OF ev dg] dg
      by (intro admission_grant_fits) (auto simp: gov_inv_def)
    then have "accounts_inv h"
      using activate_accounts_inv act ev'(1) by (auto simp: gov_inv_def)
    then show ?thesis using activate_keeps [OF act] ev'(1) hr by (simp add: gov_inv_def)
  qed
qed

lemma governor_reserve_available_inv:
  "gov_inv g \<Longrightarrow> gov_inv (fst (governor_reserve_available env e g))"
  by (auto simp: governor_reserve_available_def Let_def governor_reserve_inv split: option.splits)

lemma governor_release_False: "governor_release a g = (h, False) \<Longrightarrow> h = g"
  by (auto simp: governor_release_def split: option.splits)

lemma governor_release_inv:
  assumes "gov_inv g"
  shows "gov_inv (fst (governor_release a g))"
proof -
  obtain h b where hb: "governor_release a g = (h, b)" by fastforce
  show ?thesis
  proof (cases b)
    case True
    with hb have "accounts_inv h" using release_accounts_inv assms by (auto simp: gov_inv_def)
    moreover have "pressure_inv h" "rings_inv h"
      using hb assms by (auto simp: governor_release_def gov_inv_def pressure_inv_def rings_inv_def
        split: option.splits)
    ultimately show ?thesis using hb by (simp add: gov_inv_def)
  next
    case False
    with hb governor_release_False assms show ?thesis by fastforce
  qed
qed

lemma governor_decide_inv: "gov_inv g \<Longrightarrow> gov_inv (fst (governor_decide env s q g))"
  by (auto simp: governor_decide_def dest: evaluate_locked_inv(1) split: option.splits)

text \<open>The states a Governor goes through, from its creation by any operations.\<close>

inductive gov_step :: "'a governor_scheme \<Rightarrow> 'a governor_scheme \<Rightarrow> bool" where
  step_reserve: "gov_step g (fst (governor_reserve env s e g))"
| step_reserve_available: "gov_step g (fst (governor_reserve_available env e g))"
| step_release: "gov_step g (fst (governor_release a g))"
| step_set_policy: "gov_step g (fst (set_policy mesa policy g))"
| step_record_batch: "gov_step g (fst (governor_record_batch c b dur peak g))"
| step_decide: "gov_step g (fst (governor_decide env s q g))"

inductive_cases gov_stepE: "gov_step g h"

inductive gov_reachable :: "governor \<Rightarrow> bool" where
  reach_create: "governor_create mesa env topology profile policy = Some g \<Longrightarrow> gov_reachable g"
| reach_step: "gov_reachable g \<Longrightarrow> gov_step g h \<Longrightarrow> gov_reachable h"

lemma gov_step_inv: "gov_step g h \<Longrightarrow> gov_inv g \<Longrightarrow> gov_inv h"
  by (auto elim!: gov_stepE simp: governor_reserve_inv governor_reserve_available_inv
    governor_release_inv set_policy_inv governor_record_batch_inv governor_decide_inv)

lemma gov_reachable_inv: "gov_reachable g \<Longrightarrow> gov_inv g"
  by (induction rule: gov_reachable.induct) (auto simp: governor_create_inv(1) gov_step_inv)

section \<open>A concrete Governor\<close>

definition sample_snapshot :: resource_snapshot where
  "sample_snapshot =
     \<lparr>rs_captured_at = \<lparr>tv_sec = 100, tv_nsec = 0\<rparr>, rs_memory_available_bytes = 12000000000,
       rs_gpu_memory_available_known = False, rs_gpu_memory_available_bytes = 0,
       rs_cpu_load_1m = 1, rs_cpu_pressure_known = True, rs_cpu_pressure_avg10 = 0,
       rs_memory_pressure_known = True, rs_memory_pressure_avg10 = 0,
       rs_io_pressure_known = False, rs_io_pressure_avg10 = 0,
       rs_swap_activity_known = False, rs_swap_pages_in = 0, rs_swap_pages_out = 0\<rparr>"

definition sample_env :: environment where
  "sample_env = \<lparr>ev_alloc = True, ev_monotonic = Some \<lparr>tv_sec = 100, tv_nsec = 500\<rparr>,
     ev_realtime = Some \<lparr>tv_sec = 1700000000, tv_nsec = 0\<rparr>, ev_capture = Some sample_snapshot\<rparr>"

definition sample_estimate :: resource_estimate where
  "sample_estimate =
     \<lparr>re_memory_fixed_bytes = 1000000, re_gpu_memory_fixed_bytes = 2000000,
       re_memory_bytes_per_item = 1000, re_gpu_memory_bytes_per_item = 500,
       re_minimum_batch_size = 1, re_maximum_batch_size = 64, re_desired_cpu_threads = 2,
       re_desired_gpu_slots = 1, re_desired_io_slots = 0, re_task_class = RESOURCE_TASK_GPU\<rparr>"

definition sample_governor :: governor where
  "sample_governor = the (governor_create None sample_env sample_topology sample_profile sample_policy)"

lemma sample_governor_created:
  "governor_create None sample_env sample_topology sample_profile sample_policy = Some sample_governor"
proof -
  have "governor_create None sample_env sample_topology sample_profile sample_policy \<noteq> None"
    using build_cpu_policy_returns [of sample_policy sample_profile None "Some sample_topology"]
      sample_policy_valid
    by (auto simp: governor_create_def sample_env_def valid_policy_def)
  then show ?thesis by (auto simp: sample_governor_def)
qed

lemma sample_governor_inv: "gov_inv sample_governor"
  by (rule governor_create_inv(1) [OF sample_governor_created])

lemma sample_reserve:
  "rr_reservation (snd (governor_reserve sample_env sample_snapshot sample_estimate sample_governor))
     = Some 0
   \<and> map_option rd_batch_size (rr_decision (snd (governor_reserve sample_env sample_snapshot
       sample_estimate sample_governor))) = Some 64"
  by code_simp

end
