(* ===== verification/Governor_Pressure.thy ===== *)
theory Governor_Pressure
  imports Governor_Safety
begin

text \<open>
  The host-pressure state machine of \<open>evaluate_locked\<close>: GREEN, YELLOW, RED with the streak
  counters and the slow start. Safety: the hard floor stops all new work, the default caution
  band never escalates to RED, and RED is left only after six calm evaluations. Liveness: 198
  calm evaluations bring any state back to GREEN with the slow start finished.
\<close>

section \<open>What one evaluation does\<close>

definition calm :: "'a governor_scheme \<Rightarrow> memory_floors \<Rightarrow> resource_snapshot \<Rightarrow> bool" where
  "calm g floors s \<longleftrightarrow> \<not> hard_memory_pressure floors s \<and> \<not> pressure_signal g floors s
     \<and> \<not> caution_memory_pressure floors s"

lemma update_pressure_hard:
  assumes "hard_memory_pressure floors s"
  shows "g_pressure (update_pressure_locked s floors g) = PRESSURE_RED"
    and "g_slow_start_limit (update_pressure_locked s floors g) = 1"
    and "g_slow_start_active (update_pressure_locked s floors g)"
    and "g_recovery_streak (update_pressure_locked s floors g) = 0"
  using assms by (simp_all add: update_pressure_locked_def enter_hard_pressure_def Let_def)

lemma update_pressure_caution:
  assumes "\<not> hard_memory_pressure floors s" and "\<not> pressure_signal g floors s"
    and "caution_memory_pressure floors s"
  shows "g_pressure (update_pressure_locked s floors g) =
      (if g_pressure g = PRESSURE_RED then PRESSURE_RED else PRESSURE_YELLOW)"
    and "g_slow_start_limit (update_pressure_locked s floors g) = 1"
    and "g_slow_start_active (update_pressure_locked s floors g)"
  using assms
  by (simp_all add: update_pressure_locked_def update_swap_baseline_def hold_caution_def Let_def)

text \<open>The hard floor is the policy's emergency floor, whichever floors are in force.\<close>

lemma internal_floors_hard [simp]:
  "mf_hard_floor (internal_memory_floors_locked g) = rp_emergency_memory_floor_bytes (g_policy g)"
  by (simp add: internal_memory_floors_locked_def Let_def)

lemma red_never_grants:
  "g_pressure g = PRESSURE_RED \<Longrightarrow>
     rd_kind (admission_decision g s e floors) = RESOURCE_WAIT"
  by (simp add: admission_decision_def)

text \<open>
  When the available memory is at or below the emergency floor, a valid request with a
  fresh snapshot is answered WAIT with no reservation, and the Governor is RED with its slow
  start reset to one item.
\<close>

theorem hard_floor_stops_admission:
  assumes "ev_alloc env" and "valid_snapshot (g_profile g) s" and "valid_estimate e"
    and "governor_now g env = Some now" and "snapshot_is_fresh now s"
    and "0 < rp_emergency_memory_floor_bytes (g_policy g)"
    and "rs_memory_available_bytes s \<le> rp_emergency_memory_floor_bytes (g_policy g)"
    and "governor_reserve env s e g = (h, r)"
  shows "rr_ok r \<and> map_option rd_kind (rr_decision r) = Some RESOURCE_WAIT
    \<and> rr_reservation r = None \<and> g_pressure h = PRESSURE_RED
    \<and> g_slow_start_active h \<and> g_slow_start_limit h = 1 \<and> gov_accounts h = gov_accounts g"
proof -
  let ?floors = "internal_memory_floors_locked g"
  let ?g = "update_pressure_locked s ?floors g"
  have hard: "hard_memory_pressure ?floors s"
    using assms(6,7) by (simp add: hard_memory_pressure_def)
  note red = update_pressure_hard [OF hard, of g]
  have kind: "rd_kind (admission_decision ?g s e ?floors) = RESOURCE_WAIT"
    using red(1) by (rule red_never_grants)
  have ev: "evaluate_locked env s e True ?floors g = Some (?g, admission_decision ?g s e ?floors)"
    using assms(3-5) by (simp add: evaluate_locked_def Let_def)
  have ng: "\<not> decision_grants (admission_decision ?g s e ?floors)"
    using kind by (simp add: decision_grants_def)
  from assms(8) show ?thesis
  proof (cases rule: governor_reserve_cases)
    case failed
    then show ?thesis using assms(1,2) ev by simp
  next
    case (refused d)
    then show ?thesis using ev red kind by auto
  next
    case (not_activated d reason)
    then show ?thesis using ev ng by auto
  next
    case (granted g1 d a)
    then show ?thesis using ev ng by auto
  qed
qed

theorem hard_floor_stops_admission_witness:
  "g_pressure (fst (governor_reserve sample_env (sample_snapshot\<lparr>rs_memory_available_bytes := 1000\<rparr>)
     sample_estimate sample_governor)) = PRESSURE_RED"
proof -
  let ?s = "sample_snapshot\<lparr>rs_memory_available_bytes := 1000\<rparr>"
  have h: "ev_alloc sample_env" "valid_snapshot (g_profile sample_governor) ?s"
    "valid_estimate sample_estimate"
    "governor_now sample_governor sample_env = Some \<lparr>tv_sec = 100, tv_nsec = 500\<rparr>"
    "snapshot_is_fresh \<lparr>tv_sec = 100, tv_nsec = 500\<rparr> ?s"
    "0 < rp_emergency_memory_floor_bytes (g_policy sample_governor)"
    "rs_memory_available_bytes ?s \<le> rp_emergency_memory_floor_bytes (g_policy sample_governor)"
    by code_simp+
  from hard_floor_stops_admission [OF h surjective_pairing] show ?thesis by simp
qed

text \<open>
  With the default policy the 3 to 4 GiB caution band is not an escalation: an
  evaluation there, without PSI pressure or new swap activity, never makes a Governor RED
  that was not RED before; it holds YELLOW and resets the slow start to one item.
\<close>

theorem caution_band_never_escalates:
  assumes "rp_system_memory_reserve_bytes (g_policy g)
      = default_host_memory_reserve (hp_memory_total_bytes (g_profile g))"
    and "rp_emergency_memory_floor_bytes (g_policy g) = rp_system_memory_reserve_bytes (g_policy g)"
    and "rp_emergency_memory_floor_bytes (g_policy g) < rs_memory_available_bytes s"
    and "rs_memory_available_bytes s \<le> default_host_memory_caution
      (hp_memory_total_bytes (g_profile g)) (rp_system_memory_reserve_bytes (g_policy g))"
    and "\<not> psi_pressure (g_policy g) s" and "\<not> swap_changed g s"
    and "h = update_pressure_locked s (internal_memory_floors_locked g) g"
  shows "g_pressure h = (if g_pressure g = PRESSURE_RED then PRESSURE_RED else PRESSURE_YELLOW)
    \<and> g_slow_start_active h \<and> g_slow_start_limit h = 1"
proof -
  let ?floors = "internal_memory_floors_locked g"
  have f: "mf_caution_floor ?floors = default_host_memory_caution
      (hp_memory_total_bytes (g_profile g)) (rp_system_memory_reserve_bytes (g_policy g))"
    "mf_caution_is_non_escalating_band ?floors"
    using assms(1,2) by (simp_all add: internal_memory_floors_locked_def Let_def)
  have "\<not> hard_memory_pressure ?floors s"
    using assms(3) by (simp add: hard_memory_pressure_def not_le)
  moreover have "\<not> pressure_signal g ?floors s"
    using assms(5,6) f by (simp add: pressure_signal_def)
  moreover have "0 < rs_memory_available_bytes s"
    using assms(3) by (metis word_neq_0_conv word_not_simps(1))
  then have "caution_memory_pressure ?floors s"
    using assms(4) f by (simp add: caution_memory_pressure_def word_less_nat_alt word_le_nat_alt)
  ultimately show ?thesis using update_pressure_caution [of ?floors s g] assms(7) by blast
qed

theorem caution_band_never_escalates_witness:
  "let g = the (governor_create None sample_env sample_topology sample_profile
       (policy_default_value sample_profile));
     s = sample_snapshot\<lparr>rs_memory_available_bytes := 4000000000\<rparr>
   in g_pressure (update_pressure_locked s (internal_memory_floors_locked g) g) = PRESSURE_YELLOW"
proof -
  let ?g = "the (governor_create None sample_env sample_topology sample_profile
      (policy_default_value sample_profile))"
  let ?s = "sample_snapshot\<lparr>rs_memory_available_bytes := 4000000000\<rparr>"
  have h: "rp_system_memory_reserve_bytes (g_policy ?g)
      = default_host_memory_reserve (hp_memory_total_bytes (g_profile ?g))"
    "rp_emergency_memory_floor_bytes (g_policy ?g) = rp_system_memory_reserve_bytes (g_policy ?g)"
    "rp_emergency_memory_floor_bytes (g_policy ?g) < rs_memory_available_bytes ?s"
    "rs_memory_available_bytes ?s \<le> default_host_memory_caution
      (hp_memory_total_bytes (g_profile ?g)) (rp_system_memory_reserve_bytes (g_policy ?g))"
    "\<not> psi_pressure (g_policy ?g) ?s" "\<not> swap_changed ?g ?s" "g_pressure ?g = PRESSURE_GREEN"
    by code_simp+
  from caution_band_never_escalates [OF h(1-6) refl] h(7) show ?thesis by (simp add: Let_def)
qed

text \<open>
  The slow start caps the batch after the minimum of the estimate was applied: while
  the slow-start limit is below an estimate's minimum batch, no evaluation grants it, although
  the comment in \<open>evaluate_locked\<close> says the adjustment never falls below the minimum.
\<close>

theorem slow_start_blocks_larger_minimum:
  assumes "g_slow_start_active g" and "g_slow_start_limit g < re_minimum_batch_size e"
  shows "\<not> decision_grants (admission_decision g s e floors)"
proof
  assume "decision_grants (admission_decision g s e floors)"
  then obtain batch per_item where m: "re_minimum_batch_size e
      \<le> minimum_size batch (adapted_maximum g e per_item)"
    using admission_grantE by metis
  let ?min = "re_minimum_batch_size e"
  have "\<not> minimum_size x (g_slow_start_limit g) > ?min" for x
    using assms(2) minimum_size_le(2) [of x "g_slow_start_limit g"]
    by (meson leD le_less_trans less_imp_le)
  then have "adapted_maximum g e per_item \<le> g_slow_start_limit g"
    using assms(1) by (simp add: adapted_maximum_def Let_def)
  moreover have "?min \<le> adapted_maximum g e per_item"
    using m minimum_size_le(2) order_trans by blast
  ultimately show False using assms(2) by (meson leD le_less_trans order_trans)
qed

theorem slow_start_blocks_larger_minimum_witness:
  "\<not> decision_grants (admission_decision
      (update_pressure_locked (sample_snapshot\<lparr>rs_memory_available_bytes := 1000\<rparr>)
         (internal_memory_floors_locked sample_governor) sample_governor)
      sample_snapshot (sample_estimate\<lparr>re_minimum_batch_size := 2\<rparr>)
      (internal_memory_floors_locked sample_governor))"
proof -
  let ?s = "sample_snapshot\<lparr>rs_memory_available_bytes := 1000\<rparr>"
  have "hard_memory_pressure (internal_memory_floors_locked sample_governor) ?s" by code_simp
  note u = update_pressure_hard [OF this, of sample_governor]
  show ?thesis by (rule slow_start_blocks_larger_minimum) (use u in simp_all)
qed

section \<open>Recovery\<close>

text \<open>A run of evaluations on the snapshots and floors of a list.\<close>

fun pressure_run :: "(resource_snapshot \<times> memory_floors) list \<Rightarrow> 'a governor_scheme
    \<Rightarrow> 'a governor_scheme" where
  "pressure_run [] g = g"
| "pressure_run ((s, floors) # inputs) g = pressure_run inputs (update_pressure_locked s floors g)"

fun calm_evaluations :: "(resource_snapshot \<times> memory_floors) list \<Rightarrow> 'a governor_scheme \<Rightarrow> nat" where
  "calm_evaluations [] g = 0"
| "calm_evaluations ((s, floors) # inputs) g =
     (if calm g floors s then 1 else 0) + calm_evaluations inputs (update_pressure_locked s floors g)"

text \<open>The calm evaluations still owed before GREEN.\<close>

definition recovery_debt :: "'a governor_scheme \<Rightarrow> nat" where
  "recovery_debt g = (case g_pressure g of
     PRESSURE_GREEN \<Rightarrow> 0
   | PRESSURE_YELLOW \<Rightarrow> 3 - unat (g_recovery_streak g)
   | PRESSURE_RED \<Rightarrow> 6 - unat (g_recovery_streak g))"

lemma unat_streak: "unat (increment_to_limit v 3) = min (unat v + 1) 3"
proof (cases "v < 3")
  case True
  then have "unat v < 3" by (simp add: word_less_nat_alt)
  then have "unat (v + 1) = unat v + 1" using unat_add32 [of v 1] by simp
  with True \<open>unat v < 3\<close> show ?thesis by (simp add: increment_to_limit_def)
next
  case False
  then have "3 \<le> unat v" by (simp add: word_less_nat_alt not_less)
  with False show ?thesis by (simp add: increment_to_limit_def)
qed

lemma streak_reached: "(3 :: u32) \<le> increment_to_limit v 3 \<longleftrightarrow> 2 \<le> unat v"
  by (auto simp: word_le_nat_alt unat_streak)

lemma recovery_debt_step:
  assumes "pressure_inv g"
  shows "recovery_debt g \<le> recovery_debt (update_pressure_locked s floors g)
    + (if calm g floors s then 1 else 0)"
proof (cases "calm g floors s")
  case True
  have "unat (g_recovery_streak g) < 3" using assms by (simp add: pressure_inv_def word_less_nat_alt)
  with True show ?thesis
    by (auto simp: calm_def update_pressure_locked_def update_swap_baseline_def recover_pressure_def
      Let_def recovery_debt_def streak_reached unat_streak split: pressure.split)
next
  case False
  then show ?thesis
    by (auto simp: calm_def update_pressure_locked_def update_swap_baseline_def raise_pressure_def
      hold_caution_def enter_hard_pressure_def Let_def recovery_debt_def split: pressure.split)
qed

lemma recovery_debt_run:
  assumes "pressure_inv g"
  shows "recovery_debt g \<le> recovery_debt (pressure_run inputs g) + calm_evaluations inputs g"
  using assms
proof (induction inputs arbitrary: g)
  case Nil
  then show ?case by simp
next
  case (Cons i inputs)
  obtain s floors where i: "i = (s, floors)" by fastforce
  from Cons.IH [OF update_pressure_inv [OF Cons.prems], of s floors]
    recovery_debt_step [OF Cons.prems, of s floors] i show ?case by simp
qed

text \<open>
  RED is not left early: from a RED Governor whose recovery has not begun, a run of
  evaluations ends GREEN only if at least six of them found a calm host.
\<close>

theorem red_needs_six_calm_evaluations:
  assumes "gov_inv g" and "g_pressure g = PRESSURE_RED" and "g_recovery_streak g = 0"
    and "g_pressure (pressure_run inputs g) = PRESSURE_GREEN"
  shows "6 \<le> calm_evaluations inputs g"
  using recovery_debt_run [of g inputs] assms by (simp add: gov_inv_def recovery_debt_def)

definition red_governor :: governor where
  "red_governor = update_pressure_locked (sample_snapshot\<lparr>rs_memory_available_bytes := 1000\<rparr>)
     (internal_memory_floors_locked sample_governor) sample_governor"

definition calm_inputs :: "nat \<Rightarrow> (resource_snapshot \<times> memory_floors) list" where
  "calm_inputs n = replicate n (sample_snapshot, internal_memory_floors_locked sample_governor)"

lemma update_pressure_gov_inv:
  assumes "gov_inv g"
  shows "gov_inv (update_pressure_locked s floors g)"
proof (rule gov_inv_transfer [OF assms update_pressure_accounts])
  show "pressure_inv (update_pressure_locked s floors g)"
    using assms by (intro update_pressure_inv) (simp add: gov_inv_def)
  show "rings_inv (update_pressure_locked s floors g)"
    using assms by (simp add: gov_inv_def rings_inv_def)
qed

lemma red_governor_inv: "gov_inv red_governor"
  unfolding red_governor_def by (rule update_pressure_gov_inv [OF sample_governor_inv])

theorem red_needs_six_calm_evaluations_witness:
  "g_pressure red_governor = PRESSURE_RED
   \<and> g_pressure (pressure_run (calm_inputs 6) red_governor) = PRESSURE_GREEN
   \<and> 6 \<le> calm_evaluations (calm_inputs 6) red_governor"
proof -
  have h: "g_pressure red_governor = PRESSURE_RED" "g_recovery_streak red_governor = 0"
    "g_pressure (pressure_run (calm_inputs 6) red_governor) = PRESSURE_GREEN"
    by code_simp+
  from red_needs_six_calm_evaluations [OF red_governor_inv h] h show ?thesis by blast
qed

text \<open>The doublings left before the slow-start limit passes half of \<open>SIZE_MAX\<close>.\<close>

function doublings :: "nat \<Rightarrow> nat" where
  "doublings l = (if l = 0 \<or> 9223372036854775808 \<le> l then 0 else Suc (doublings (2 * l)))"
  by pat_completeness auto
termination by (relation "measure (\<lambda>l. 9223372036854775808 - l)") auto

declare doublings.simps [simp del]

lemma doublings_le: "9223372036854775808 \<le> l * 2 ^ k \<Longrightarrow> doublings l \<le> k"
proof (induction k arbitrary: l)
  case 0
  then show ?case by (simp add: doublings.simps)
next
  case (Suc k)
  then have "doublings (2 * l) \<le> k" by (simp add: mult.commute mult.left_commute)
  then show ?case by (subst doublings.simps) simp
qed

lemma doublings_bound: "0 < l \<Longrightarrow> doublings l \<le> 63"
proof -
  assume "0 < l"
  then have "1 * 2 ^ 63 \<le> l * (2 ^ 63 :: nat)" by (intro mult_le_mono1) simp
  then show ?thesis by (intro doublings_le) simp
qed

text \<open>The calm evaluations that suffice to finish recovery and slow start.\<close>

definition recovery_potential :: "'a governor_scheme \<Rightarrow> nat" where
  "recovery_potential g = (case g_pressure g of
     PRESSURE_RED \<Rightarrow> 198 - unat (g_recovery_streak g)
   | PRESSURE_YELLOW \<Rightarrow> 195 - unat (g_recovery_streak g)
   | PRESSURE_GREEN \<Rightarrow>
       if g_slow_start_active g
       then 3 * (doublings (unat (g_slow_start_limit g)) + 1) - unat (g_slow_start_streak g)
       else 0)"

lemma half_size_max: "(l :: size_t) > SIZE_MAX div 2 \<longleftrightarrow> 9223372036854775808 \<le> unat l"
  by (simp add: word_less_nat_alt unat_div unat_max64) linarith

lemma recovery_potential_step:
  assumes "pressure_inv g" and "calm g floors s"
  shows "recovery_potential (update_pressure_locked s floors g) \<le> recovery_potential g - 1"
proof -
  let ?l = "g_slow_start_limit g"
  have r: "unat (g_recovery_streak g) < 3" "unat (g_slow_start_streak g) < 3" and l: "0 < unat ?l"
    using assms(1) by (simp_all add: pressure_inv_def word_less_nat_alt)
  have u: "update_pressure_locked s floors g = recover_pressure (update_swap_baseline s g)"
    using assms(2) by (auto simp: calm_def update_pressure_locked_def Let_def)
  show ?thesis
  proof (cases "g_pressure g")
    case PRESSURE_RED
    then show ?thesis using r
      by (auto simp: u recover_pressure_def update_swap_baseline_def Let_def recovery_potential_def
        streak_reached unat_streak)
  next
    case PRESSURE_YELLOW
    have "doublings (unat ?l) \<le> 63" "doublings 1 \<le> 63" using l by (simp_all add: doublings_bound)
    then show ?thesis using r PRESSURE_YELLOW
      by (auto simp: u recover_pressure_def update_swap_baseline_def Let_def recovery_potential_def
        streak_reached unat_streak)
  next
    case PRESSURE_GREEN
    have "unat (?l * 2) = 2 * unat ?l" if "\<not> ?l > SIZE_MAX div 2"
    proof -
      have "unat ?l < 9223372036854775808" using that unfolding half_size_max by simp
      then show ?thesis using unat_mult64 [of ?l 2] by simp
    qed
    moreover have "doublings (unat ?l) = Suc (doublings (2 * unat ?l))" if "\<not> ?l > SIZE_MAX div 2"
      using that l unfolding half_size_max by (subst doublings.simps) simp
    ultimately show ?thesis using r PRESSURE_GREEN
      by (auto simp: u recover_pressure_def update_swap_baseline_def Let_def recovery_potential_def
        streak_reached unat_streak)
  qed
qed

fun all_calm :: "(resource_snapshot \<times> memory_floors) list \<Rightarrow> 'a governor_scheme \<Rightarrow> bool" where
  "all_calm [] g = True"
| "all_calm ((s, floors) # inputs) g \<longleftrightarrow>
     calm g floors s \<and> all_calm inputs (update_pressure_locked s floors g)"

lemma recovery_potential_run:
  assumes "pressure_inv g" and "all_calm inputs g"
  shows "recovery_potential (pressure_run inputs g) \<le> recovery_potential g - length inputs"
  using assms
proof (induction inputs arbitrary: g)
  case Nil
  then show ?case by simp
next
  case (Cons i inputs)
  obtain s floors where i: "i = (s, floors)" by fastforce
  from Cons.IH [OF update_pressure_inv [OF Cons.prems(1)], of s floors]
    recovery_potential_step [OF Cons.prems(1), of floors s] Cons.prems(2) i show ?case by simp
qed

lemma pressure_run_inv: "pressure_inv g \<Longrightarrow> pressure_inv (pressure_run inputs g)"
  by (induction inputs g rule: pressure_run.induct) (auto simp: update_pressure_inv)

text \<open>
  Recovery completes: whatever its state, a Governor that finds a calm host in 198
  consecutive evaluations is GREEN with its slow start finished and its batch limit open.
\<close>

theorem calm_host_recovers:
  assumes "gov_inv g" and "all_calm inputs g" and "198 \<le> length inputs"
  shows "g_pressure (pressure_run inputs g) = PRESSURE_GREEN
    \<and> \<not> g_slow_start_active (pressure_run inputs g)
    \<and> g_slow_start_limit (pressure_run inputs g) = SIZE_MAX"
proof -
  let ?h = "pressure_run inputs g"
  have p: "pressure_inv g" and ph: "pressure_inv ?h"
    using assms(1) pressure_run_inv by (auto simp: gov_inv_def)
  have "0 < unat (g_slow_start_limit g)" using p by (simp add: pressure_inv_def word_less_nat_alt)
  from doublings_bound [OF this] have "recovery_potential g \<le> 198"
    by (cases "g_pressure g") (auto simp: recovery_potential_def)
  then have z: "recovery_potential ?h = 0"
    using recovery_potential_run [OF p assms(2)] assms(3) by simp
  have "unat (g_recovery_streak ?h) < 3" "unat (g_slow_start_streak ?h) < 3"
    using ph by (simp_all add: pressure_inv_def word_less_nat_alt)
  with z ph show ?thesis
    by (auto simp: recovery_potential_def pressure_inv_def split: pressure.splits if_splits)
qed

lemma sample_calm:
  assumes "g_policy g = g_policy sample_governor"
  shows "calm g (internal_memory_floors_locked sample_governor) sample_snapshot"
proof -
  have "\<not> hard_memory_pressure (internal_memory_floors_locked sample_governor) sample_snapshot"
    "\<not> caution_memory_pressure (internal_memory_floors_locked sample_governor) sample_snapshot"
    "\<not> psi_pressure (g_policy sample_governor) sample_snapshot"
    "\<not> rs_swap_activity_known sample_snapshot"
    by code_simp+
  with assms show ?thesis by (simp add: calm_def pressure_signal_def swap_changed_def)
qed

lemma calm_inputs_calm: "g_policy g = g_policy sample_governor \<Longrightarrow> all_calm (calm_inputs n) g"
proof (induction n arbitrary: g)
  case 0
  then show ?case by (simp add: calm_inputs_def)
next
  case (Suc n)
  let ?h = "update_pressure_locked sample_snapshot (internal_memory_floors_locked sample_governor) g"
  have "g_policy ?h = g_policy g" by (rule accounts_fields(2)) simp
  with Suc have "all_calm (calm_inputs n) ?h" by simp
  with sample_calm [OF Suc.prems] show ?case by (simp add: calm_inputs_def)
qed

theorem calm_host_recovers_witness:
  "g_pressure red_governor = PRESSURE_RED
   \<and> g_pressure (pressure_run (calm_inputs 198) red_governor) = PRESSURE_GREEN
   \<and> \<not> g_slow_start_active (pressure_run (calm_inputs 198) red_governor)"
proof -
  have "g_policy red_governor = g_policy sample_governor"
    unfolding red_governor_def by (rule accounts_fields(2)) simp
  then have "all_calm (calm_inputs 198) red_governor" by (rule calm_inputs_calm)
  moreover have "g_pressure red_governor = PRESSURE_RED" by code_simp
  moreover have "198 \<le> length (calm_inputs 198)" by (simp add: calm_inputs_def)
  ultimately show ?thesis using calm_host_recovers [OF red_governor_inv] by blast
qed

end
