(* ===== verification/Feedback_State.thy ===== *)
theory Feedback_State
  imports Governor_State
begin

text \<open>
  The Governor's private capability and feedback data
  (\<open>src/resource_governor_internal.h\<close> and \<open>src/resource_governor.c\<close>): Task capabilities
  and their envelope, the sequence selection and diagnostic, the saturating aggregates, and
  the bounded table of 32 feedback entries keyed by Task kind, version and backend, with
  its deterministic replacement. A telemetry value with a \<open>_known\<close> flag is an \<open>option\<close>.
\<close>

section \<open>Capabilities\<close>

datatype backend = BACKEND_FIXED | BACKEND_CPU | BACKEND_ORB_VULKAN | BACKEND_MIXED

fun backend_index :: "backend \<Rightarrow> nat" where
  "backend_index BACKEND_FIXED = 0"
| "backend_index BACKEND_CPU = 1"
| "backend_index BACKEND_ORB_VULKAN = 2"
| "backend_index BACKEND_MIXED = 3"

lemma backend_index_less [simp]: "backend_index b < 4"
  by (cases b) simp_all

lemma backend_index_inject [simp]: "backend_index a = backend_index b \<longleftrightarrow> a = b"
  by (cases a; cases b) simp_all

record task_capability =
  tc_estimate :: resource_estimate
  tc_backend :: backend
  tc_inflight_limit :: size_t
  tc_minimum_inflight_limit :: size_t
  tc_gpu_memory_bytes_per_inflight :: u64
  tc_helper_limit :: u32
  tc_preferred :: bool
  tc_cpu_reducible :: bool
  tc_batch_adaptive :: bool
  tc_cpu_batch_coupled :: bool
  tc_sustained_gpu_batch_feedback :: bool
  tc_inflight_adaptive :: bool
  tc_requires_runtime_backend :: bool

definition RESOURCE_CAPABILITY_MAX :: nat where "RESOURCE_CAPABILITY_MAX = 4"
definition DIAGNOSTIC_REASON_CAPACITY :: nat where "DIAGNOSTIC_REASON_CAPACITY = 96"
definition TASK_KIND_CAPACITY :: nat where "TASK_KIND_CAPACITY = 65"
definition CAPABILITY_FEEDBACK_CAPACITY :: nat where "CAPABILITY_FEEDBACK_CAPACITY = 32"

text \<open>The first \<open>count\<close> capabilities of the envelope.\<close>

type_synonym capability_envelope = "task_capability list"

record capability_selection =
  cs_capability_index :: nat
  cs_capability :: task_capability
  cs_reservation_estimate :: resource_estimate
  cs_decision :: resource_decision
  cs_inflight_limit :: size_t
  cs_pressure :: pressure
  cs_reason :: string

section \<open>Telemetry, diagnostics and aggregates\<close>

record host_telemetry =
  ht_memory_available_bytes :: "u64 option"
  ht_memory_psi_some_basis_points :: "u32 option"
  ht_memory_psi_full_basis_points :: "u32 option"
  ht_io_psi_some_basis_points :: "u32 option"
  ht_io_psi_full_basis_points :: "u32 option"
  ht_swap_delta :: "(u64 \<times> u64) option"
  ht_compute_pool_utilization_basis_points :: "u32 option"
  ht_gpu_busy_basis_points :: "u32 option"
  ht_process_rss_bytes :: "u64 option"
  ht_process_peak_rss_bytes :: "u64 option"

definition unknown_telemetry :: host_telemetry where
  "unknown_telemetry = \<lparr>ht_memory_available_bytes = None,
     ht_memory_psi_some_basis_points = None, ht_memory_psi_full_basis_points = None,
     ht_io_psi_some_basis_points = None, ht_io_psi_full_basis_points = None,
     ht_swap_delta = None, ht_compute_pool_utilization_basis_points = None,
     ht_gpu_busy_basis_points = None, ht_process_rss_bytes = None,
     ht_process_peak_rss_bytes = None\<rparr>"

record execution_metrics =
  em_vulkan_submits :: u64
  em_vulkan_completions :: u64
  em_vulkan_submit_cpu_ns :: u64
  em_vulkan_fence_wait_ns :: u64
  em_vulkan_readback_ns :: u64
  em_vulkan_gpu_time_known :: bool
  em_vulkan_gpu_ns :: u64
  em_vulkan_starvation_ns :: u64
  em_matcher_cpu_ns :: u64
  em_publication_ns :: u64
  em_fallback_items_saturated :: bool
  em_local_ineligible_fallback_items :: u64
  em_backend_failure_fallback_items :: u64
  em_backend_other_fallback_items :: u64

definition zero_metrics :: execution_metrics where
  "zero_metrics = \<lparr>em_vulkan_submits = 0, em_vulkan_completions = 0,
     em_vulkan_submit_cpu_ns = 0, em_vulkan_fence_wait_ns = 0, em_vulkan_readback_ns = 0,
     em_vulkan_gpu_time_known = False, em_vulkan_gpu_ns = 0, em_vulkan_starvation_ns = 0,
     em_matcher_cpu_ns = 0, em_publication_ns = 0, em_fallback_items_saturated = False,
     em_local_ineligible_fallback_items = 0, em_backend_failure_fallback_items = 0,
     em_backend_other_fallback_items = 0\<rparr>"

datatype fallback_item_cause =
  FALLBACK_ITEM_LOCAL_INELIGIBLE | FALLBACK_ITEM_BACKEND_FAILURE | FALLBACK_ITEM_OTHER

record sequence_diagnostic =
  sd_serial :: u64
  sd_task_kind :: string
  sd_task_kind_version :: u32
  sd_backend :: backend
  sd_actual_backend :: backend
  sd_backend_fallback :: bool
  sd_previous_wall_time_ns :: u64
  sd_items_completed :: size_t
  sd_durable_items_per_second_milli :: u64
  sd_batch_size :: size_t
  sd_inflight_limit :: size_t
  sd_helper_limit :: u32
  sd_memory_bytes :: u64
  sd_gpu_memory_bytes :: u64
  sd_cpu_threads :: u32
  sd_gpu_slots :: u32
  sd_io_slots :: u32
  sd_pressure :: pressure
  sd_host :: host_telemetry
  sd_execution :: execution_metrics
  sd_reason :: string
  sd_backend_reason :: string

definition zero_diagnostic :: sequence_diagnostic where
  "zero_diagnostic = \<lparr>sd_serial = 0, sd_task_kind = [], sd_task_kind_version = 0,
     sd_backend = BACKEND_FIXED, sd_actual_backend = BACKEND_FIXED, sd_backend_fallback = False,
     sd_previous_wall_time_ns = 0, sd_items_completed = 0,
     sd_durable_items_per_second_milli = 0, sd_batch_size = 0, sd_inflight_limit = 0,
     sd_helper_limit = 0, sd_memory_bytes = 0, sd_gpu_memory_bytes = 0, sd_cpu_threads = 0,
     sd_gpu_slots = 0, sd_io_slots = 0, sd_pressure = PRESSURE_GREEN,
     sd_host = unknown_telemetry, sd_execution = zero_metrics, sd_reason = [],
     sd_backend_reason = []\<rparr>"

text \<open>
  \<open>Lardon3DResourceSequenceAggregate\<close>. The two arrays indexed by backend are lists of four;
  a gauge with a known flag is an option.
\<close>

record sequence_aggregate =
  sa_saturated :: bool
  sa_admission_count :: u64
  sa_sequence_count :: u64
  sa_durable_items :: u64
  sa_total_wall_time_ns :: u64
  sa_backend_fallback_sequences :: u64
  sa_backend_ineligible_fallback_sequences :: u64
  sa_backend_failure_fallback_sequences :: u64
  sa_backend_other_fallback_sequences :: u64
  sa_local_ineligible_fallback_items :: u64
  sa_backend_failure_fallback_items :: u64
  sa_backend_other_fallback_items :: u64
  sa_selected_backend_admissions :: "u64 list"
  sa_actual_backend_sequences :: "u64 list"
  sa_contract_change_count :: u64
  sa_minimum_memory_available_bytes :: "u64 option"
  sa_maximum_gpu_busy_basis_points :: "u32 option"
  sa_maximum_process_rss_bytes :: "u64 option"
  sa_maximum_process_peak_rss_bytes :: "u64 option"
  sa_vulkan_submits :: u64
  sa_vulkan_completions :: u64
  sa_vulkan_submit_cpu_ns :: u64
  sa_vulkan_fence_wait_ns :: u64
  sa_vulkan_readback_ns :: u64
  sa_vulkan_gpu_known_sequences :: u64
  sa_vulkan_gpu_ns :: u64
  sa_vulkan_starvation_ns :: u64
  sa_matcher_cpu_ns :: u64
  sa_publication_ns :: u64

definition zero_aggregate :: sequence_aggregate where
  "zero_aggregate = \<lparr>sa_saturated = False, sa_admission_count = 0, sa_sequence_count = 0,
     sa_durable_items = 0, sa_total_wall_time_ns = 0, sa_backend_fallback_sequences = 0,
     sa_backend_ineligible_fallback_sequences = 0, sa_backend_failure_fallback_sequences = 0,
     sa_backend_other_fallback_sequences = 0, sa_local_ineligible_fallback_items = 0,
     sa_backend_failure_fallback_items = 0, sa_backend_other_fallback_items = 0,
     sa_selected_backend_admissions = [0, 0, 0, 0], sa_actual_backend_sequences = [0, 0, 0, 0],
     sa_contract_change_count = 0, sa_minimum_memory_available_bytes = None,
     sa_maximum_gpu_busy_basis_points = None, sa_maximum_process_rss_bytes = None,
     sa_maximum_process_peak_rss_bytes = None, sa_vulkan_submits = 0,
     sa_vulkan_completions = 0, sa_vulkan_submit_cpu_ns = 0, sa_vulkan_fence_wait_ns = 0,
     sa_vulkan_readback_ns = 0, sa_vulkan_gpu_known_sequences = 0, sa_vulkan_gpu_ns = 0,
     sa_vulkan_starvation_ns = 0, sa_matcher_cpu_ns = 0, sa_publication_ns = 0\<rparr>"

section \<open>Feedback entries and the extended Governor\<close>

datatype trial_dimension = TRIAL_NONE | TRIAL_CPU | TRIAL_INFLIGHT | TRIAL_BATCH

record feedback =
  fb_used :: bool
  fb_task_kind :: string
  fb_task_kind_version :: u32
  fb_backend :: backend
  fb_adaptive_cpu_limit :: u32
  fb_accepted_cpu_limit :: u32
  fb_adaptive_batch_limit :: size_t
  fb_accepted_batch_limit :: size_t
  fb_adaptive_inflight_limit :: size_t
  fb_accepted_inflight_limit :: size_t
  fb_trial_dimension :: trial_dimension
  fb_baseline_observations :: nat
  fb_trial_observations :: nat
  fb_baseline_rate_milli :: u64
  fb_baseline_rates_milli :: "u64 list"
  fb_trial_rates_milli :: "u64 list"
  fb_cpu_growth_stopped :: bool
  fb_inflight_growth_stopped :: bool
  fb_batch_growth_stopped :: bool
  fb_diagnostic_serial :: u64
  fb_diagnostic_update_order :: u64
  fb_diagnostic :: sequence_diagnostic
  fb_aggregate :: sequence_aggregate
  fb_aggregate_selection_known :: bool
  fb_aggregate_cpu_threads :: u32
  fb_aggregate_gpu_slots :: u32
  fb_aggregate_io_slots :: u32
  fb_aggregate_batch_size :: size_t
  fb_aggregate_inflight_limit :: size_t
  fb_aggregate_helper_limit :: u32

definition no_rates :: "u64 list" where "no_rates = replicate 8 0"

text \<open>The zeroed entry, as \<open>calloc\<close> and the compound literal leave it.\<close>

definition zero_feedback :: feedback where
  "zero_feedback = \<lparr>fb_used = False, fb_task_kind = [], fb_task_kind_version = 0,
     fb_backend = BACKEND_FIXED, fb_adaptive_cpu_limit = 0, fb_accepted_cpu_limit = 0,
     fb_adaptive_batch_limit = 0, fb_accepted_batch_limit = 0, fb_adaptive_inflight_limit = 0,
     fb_accepted_inflight_limit = 0, fb_trial_dimension = TRIAL_NONE,
     fb_baseline_observations = 0, fb_trial_observations = 0, fb_baseline_rate_milli = 0,
     fb_baseline_rates_milli = no_rates, fb_trial_rates_milli = no_rates,
     fb_cpu_growth_stopped = False, fb_inflight_growth_stopped = False,
     fb_batch_growth_stopped = False, fb_diagnostic_serial = 0, fb_diagnostic_update_order = 0,
     fb_diagnostic = zero_diagnostic, fb_aggregate = zero_aggregate,
     fb_aggregate_selection_known = False, fb_aggregate_cpu_threads = 0,
     fb_aggregate_gpu_slots = 0, fb_aggregate_io_slots = 0, fb_aggregate_batch_size = 0,
     fb_aggregate_inflight_limit = 0, fb_aggregate_helper_limit = 0\<rparr>"

record feedback_governor = governor +
  cg_feedback :: "feedback list"
  cg_feedback_replace :: nat
  cg_diagnostic_serial :: u64
  cg_diagnostic_update_order :: u64
  cg_orb_vulkan_backend_available :: bool
  cg_host_telemetry :: host_telemetry

text \<open>The fields as \<open>create\<close> leaves them.\<close>

definition fresh_feedback :: "governor \<Rightarrow> feedback_governor" where
  "fresh_feedback g = governor.extend g
     \<lparr>cg_feedback = replicate CAPABILITY_FEEDBACK_CAPACITY zero_feedback,
       cg_feedback_replace = 0, cg_diagnostic_serial = 0, cg_diagnostic_update_order = 0,
       cg_orb_vulkan_backend_available = False, cg_host_telemetry = unknown_telemetry\<rparr>"

section \<open>Saturating aggregates\<close>

definition aggregate_add :: "u64 \<Rightarrow> u64 \<Rightarrow> bool \<Rightarrow> u64 \<times> bool" where
  "aggregate_add value amount saturated =
     (if value > UINT64_MAX - amount then (UINT64_MAX, True) else (value + amount, saturated))"

text \<open>\<open>aggregate_add(&aggregate->field, amount, &aggregate->saturated)\<close>.\<close>

definition aggregate_counter ::
    "(sequence_aggregate \<Rightarrow> u64) \<Rightarrow> ((u64 \<Rightarrow> u64) \<Rightarrow> sequence_aggregate \<Rightarrow> sequence_aggregate)
      \<Rightarrow> u64 \<Rightarrow> sequence_aggregate \<Rightarrow> sequence_aggregate" where
  "aggregate_counter get upd amount a =
     (let (v, s) = aggregate_add (get a) amount (sa_saturated a)
      in upd (\<lambda>_. v) (a\<lparr>sa_saturated := s\<rparr>))"

text \<open>The same on an element of an array indexed by backend.\<close>

definition aggregate_element ::
    "(sequence_aggregate \<Rightarrow> u64 list)
      \<Rightarrow> ((u64 list \<Rightarrow> u64 list) \<Rightarrow> sequence_aggregate \<Rightarrow> sequence_aggregate)
      \<Rightarrow> backend \<Rightarrow> u64 \<Rightarrow> sequence_aggregate \<Rightarrow> sequence_aggregate" where
  "aggregate_element get upd b amount a =
     (let (v, s) = aggregate_add (get a ! backend_index b) amount (sa_saturated a)
      in upd (\<lambda>xs. xs[backend_index b := v]) (a\<lparr>sa_saturated := s\<rparr>))"

definition minimum_gauge :: "('w::len word) option \<Rightarrow> 'w word option \<Rightarrow> 'w word option" where
  "minimum_gauge gauge sample =
     (case sample of None \<Rightarrow> gauge
      | Some x \<Rightarrow> (case gauge of None \<Rightarrow> Some x
          | Some y \<Rightarrow> if x < y then Some x else gauge))"

definition maximum_gauge :: "('w::len word) option \<Rightarrow> 'w word option \<Rightarrow> 'w word option" where
  "maximum_gauge gauge sample =
     (case sample of None \<Rightarrow> gauge
      | Some x \<Rightarrow> (case gauge of None \<Rightarrow> Some x
          | Some y \<Rightarrow> if x > y then Some x else gauge))"

lemma aggregate_add_spec:
  assumes "aggregate_add v a s = (w, t)"
  shows "unat w = min (unat UINT64_MAX) (unat v + unat a)"
    and "t \<longleftrightarrow> s \<or> unat UINT64_MAX < unat v + unat a"
proof -
  have guard: "v > UINT64_MAX - a \<longleftrightarrow> unat UINT64_MAX < unat v + unat a"
    using unat_le_max64 [of a] by (auto simp: word_less_nat_alt max64_sub [simplified] unat_max64)
  show "unat w = min (unat UINT64_MAX) (unat v + unat a)"
  proof (cases "v > UINT64_MAX - a")
    case True
    then have "w = UINT64_MAX" using assms by (simp add: aggregate_add_def)
    with True guard show ?thesis by simp
  next
    case False
    then have "w = v + a" using assms by (simp add: aggregate_add_def)
    moreover have "\<not> unat UINT64_MAX < unat v + unat a" using False guard by simp
    ultimately show ?thesis using unat_max64 unat_add64 [of v a] by simp
  qed
  show "t \<longleftrightarrow> s \<or> unat UINT64_MAX < unat v + unat a"
    using assms guard by (auto simp: aggregate_add_def split: if_splits)
qed

section \<open>The feedback table\<close>

definition feedback_key :: "string \<Rightarrow> u32 \<Rightarrow> backend \<Rightarrow> feedback \<Rightarrow> bool" where
  "feedback_key kind version b f \<longleftrightarrow>
     fb_used f \<and> fb_task_kind_version f = version \<and> fb_backend f = b \<and> fb_task_kind f = kind"

text \<open>The first index whose entry satisfies the test.\<close>

fun first_index :: "('a \<Rightarrow> bool) \<Rightarrow> 'a list \<Rightarrow> nat option" where
  "first_index p [] = None"
| "first_index p (x # xs) = (if p x then Some 0 else map_option Suc (first_index p xs))"

text \<open>
  \<open>capability_feedback_locked\<close>: the index of the entry, if there is one, in the table it
  leaves (a new entry takes the first unused slot, or the replacement cursor's).
\<close>

definition capability_feedback_locked ::
    "string \<Rightarrow> u32 \<Rightarrow> backend \<Rightarrow> bool \<Rightarrow> 'a feedback_governor_scheme
      \<Rightarrow> 'a feedback_governor_scheme \<times> nat option" where
  "capability_feedback_locked kind version b create g =
     (if kind = [] then (g, None)
      else case first_index (feedback_key kind version b) (cg_feedback g) of
        Some i \<Rightarrow> (g, Some i)
      | None \<Rightarrow>
          if \<not> create then (g, None)
          else
            let (g, selected) =
              (case first_index (\<lambda>f. \<not> fb_used f) (cg_feedback g) of
                 Some i \<Rightarrow> (g, i)
               | None \<Rightarrow>
                   (g\<lparr>cg_feedback_replace :=
                        (cg_feedback_replace g + 1) mod CAPABILITY_FEEDBACK_CAPACITY\<rparr>,
                    cg_feedback_replace g));
              entry = zero_feedback\<lparr>fb_used := True,
                fb_task_kind_version := version, fb_backend := b,
                fb_task_kind := copy_text TASK_KIND_CAPACITY kind\<rparr>
            in (g\<lparr>cg_feedback := (cg_feedback g)[selected := entry]\<rparr>, Some selected))"

definition update_feedback ::
    "nat \<Rightarrow> (feedback \<Rightarrow> feedback) \<Rightarrow> 'a feedback_governor_scheme \<Rightarrow> 'a feedback_governor_scheme" where
  "update_feedback i f g = g\<lparr>cg_feedback := (cg_feedback g)[i := f (cg_feedback g ! i)]\<rparr>"

lemma first_index_Some:
  "first_index p xs = Some i \<longleftrightarrow> i < length xs \<and> p (xs ! i) \<and> (\<forall>j < i. \<not> p (xs ! j))"
proof (induction xs arbitrary: i)
  case Nil
  then show ?case by simp
next
  case (Cons x xs)
  then show ?case
    by (cases i) (auto simp: All_less_Suc2 split: option.splits)
qed

lemma first_index_None: "first_index p xs = None \<longleftrightarrow> (\<forall>x \<in> set xs. \<not> p x)"
  by (induction xs) auto

text \<open>
  The table stays bounded and keyed: 32 entries, the replacement cursor within them, and no
  two used entries with one key.
\<close>

definition table_inv :: "'a feedback_governor_scheme \<Rightarrow> bool" where
  "table_inv g \<longleftrightarrow> length (cg_feedback g) = CAPABILITY_FEEDBACK_CAPACITY
     \<and> cg_feedback_replace g < CAPABILITY_FEEDBACK_CAPACITY
     \<and> (\<forall>i < CAPABILITY_FEEDBACK_CAPACITY. \<forall>j < CAPABILITY_FEEDBACK_CAPACITY.
          fb_used (cg_feedback g ! i) \<and> fb_used (cg_feedback g ! j)
          \<and> fb_task_kind (cg_feedback g ! i) = fb_task_kind (cg_feedback g ! j)
          \<and> fb_task_kind_version (cg_feedback g ! i) = fb_task_kind_version (cg_feedback g ! j)
          \<and> fb_backend (cg_feedback g ! i) = fb_backend (cg_feedback g ! j) \<longrightarrow> i = j)"

lemma fresh_feedback_table [simp]: "table_inv (fresh_feedback g)"
  by (simp add: table_inv_def fresh_feedback_def governor.defs CAPABILITY_FEEDBACK_CAPACITY_def
    zero_feedback_def)

end
