(* ===== verification/Capability_Trials.thy ===== *)
theory Capability_Trials
  imports Feedback_State
begin

text \<open>
  Throughput feedback (\<open>src/resource_governor.c\<close>): the observation windows, the 5 percent
  improvement test, the trial rungs of CPU, inflight and batch limits, and the private
  operations that record a completed sequence and read the diagnostics and aggregates back.
\<close>

definition CAPABILITY_THROUGHPUT_OBSERVATIONS :: nat where
  "CAPABILITY_THROUGHPUT_OBSERVATIONS = 2"
definition GPU_BATCH_THROUGHPUT_OBSERVATIONS :: nat where
  "GPU_BATCH_THROUGHPUT_OBSERVATIONS = 8"

section \<open>Observation windows\<close>

definition clear_baseline_rate_observations :: "feedback \<Rightarrow> feedback" where
  "clear_baseline_rate_observations f =
     f\<lparr>fb_baseline_observations := 0, fb_baseline_rates_milli := no_rates\<rparr>"

definition clear_trial_rate_observations :: "feedback \<Rightarrow> feedback" where
  "clear_trial_rate_observations f =
     f\<lparr>fb_trial_observations := 0, fb_trial_rates_milli := no_rates\<rparr>"

definition required_throughput_observations :: "task_capability \<Rightarrow> trial_dimension \<Rightarrow> nat" where
  "required_throughput_observations c dimension =
     (if tc_sustained_gpu_batch_feedback c \<and> (dimension = TRIAL_NONE \<or> dimension = TRIAL_BATCH)
      then GPU_BATCH_THROUGHPUT_OBSERVATIONS else CAPABILITY_THROUGHPUT_OBSERVATIONS)"

text \<open>The two sums of the loop: quotients in 64 bits, remainders in \<open>unsigned int\<close>.\<close>

fun rate_sums :: "u64 list \<Rightarrow> u64 \<Rightarrow> u64 \<Rightarrow> u32 \<Rightarrow> u64 \<times> u32" where
  "rate_sums [] observations quotient_sum remainder_sum = (quotient_sum, remainder_sum)"
| "rate_sums (rate # rates) observations quotient_sum remainder_sum =
     rate_sums rates observations (quotient_sum + rate div observations)
       (remainder_sum + ucast (rate mod observations))"

definition average_rate_observations :: "u64 list \<Rightarrow> nat \<Rightarrow> u64" where
  "average_rate_observations rates observations =
     (if observations = 0 \<or> observations > GPU_BATCH_THROUGHPUT_OBSERVATIONS then 0
      else case rate_sums (take observations rates) (of_nat observations) 0 0 of
        (quotient_sum, remainder_sum) \<Rightarrow> quotient_sum + ucast (remainder_sum div of_nat observations))"

definition trial_observation_reason :: "task_capability \<Rightarrow> trial_dimension \<Rightarrow> string" where
  "trial_observation_reason c dimension =
     (if dimension = TRIAL_CPU then ''cpu-throughput-trial''
      else if dimension = TRIAL_INFLIGHT then ''inflight-throughput-trial''
      else if tc_sustained_gpu_batch_feedback c then ''gpu-batch-throughput-trial''
      else ''throughput-trial'')"

definition trial_result_reason :: "task_capability \<Rightarrow> trial_dimension \<Rightarrow> bool \<Rightarrow> string" where
  "trial_result_reason c dimension improved =
     (if dimension = TRIAL_CPU
      then (if improved then ''cpu-throughput-improved'' else ''cpu-throughput-no-gain'')
      else if dimension = TRIAL_INFLIGHT
      then (if improved then ''inflight-throughput-improved''
            else ''inflight-throughput-no-gain'')
      else if tc_sustained_gpu_batch_feedback c
      then (if improved then ''gpu-batch-throughput-improved''
            else ''gpu-batch-throughput-no-gain'')
      else (if improved then ''throughput-improved'' else ''throughput-no-gain''))"

section \<open>Limits and trials\<close>

definition minimum_inflight :: "task_capability \<Rightarrow> size_t" where
  "minimum_inflight c =
     (if tc_minimum_inflight_limit c \<noteq> 0 then tc_minimum_inflight_limit c
      else tc_inflight_limit c)"

definition reset_capability_throughput_feedback :: "task_capability \<Rightarrow> feedback \<Rightarrow> feedback" where
  "reset_capability_throughput_feedback c f =
     (let minimum_cpu = (if tc_cpu_reducible c then 1 else re_desired_cpu_threads (tc_estimate c));
          batch = (if tc_batch_adaptive c then re_minimum_batch_size (tc_estimate c)
                   else re_maximum_batch_size (tc_estimate c));
          f = f\<lparr>fb_adaptive_cpu_limit := minimum_cpu, fb_accepted_cpu_limit := minimum_cpu,
                fb_adaptive_batch_limit := batch, fb_accepted_batch_limit := batch,
                fb_adaptive_inflight_limit := minimum_inflight c,
                fb_accepted_inflight_limit := minimum_inflight c,
                fb_trial_dimension := TRIAL_NONE\<rparr>
      in (clear_trial_rate_observations (clear_baseline_rate_observations f))
           \<lparr>fb_baseline_rate_milli := 0, fb_cpu_growth_stopped := False,
             fb_inflight_growth_stopped := False, fb_batch_growth_stopped := False\<rparr>)"

definition throughput_materially_improved :: "u64 \<Rightarrow> u64 \<Rightarrow> bool" where
  "throughput_materially_improved trial baseline =
     (if baseline = 0 then trial > 0
      else let increase = baseline div 20 + (if baseline mod 20 \<noteq> 0 then 1 else 0)
           in baseline \<le> UINT64_MAX - increase \<and> trial \<ge> baseline + increase)"

definition next_trial_batch :: "size_t \<Rightarrow> size_t \<Rightarrow> size_t" where
  "next_trial_batch current maximum =
     (if current \<ge> maximum then maximum
      else if current > maximum div 2 then maximum else current * 2)"

definition next_trial_cpu :: "u32 \<Rightarrow> u32 \<Rightarrow> u32" where
  "next_trial_cpu current maximum =
     (if current \<ge> maximum then maximum
      else let n = (if current > UINT_MAX div 2 then maximum else current * 2)
           in if n < maximum then n else maximum)"

definition trial_cpu_max :: "u32 \<Rightarrow> task_capability \<Rightarrow> u32" where
  "trial_cpu_max compute_cpu_count c =
     (if re_desired_cpu_threads (tc_estimate c) < compute_cpu_count
      then re_desired_cpu_threads (tc_estimate c) else compute_cpu_count)"

text \<open>
  \<open>open_next_capability_trial_locked\<close>; of the Governor it reads \<open>cpu_policy.compute_cpu_count\<close>.
\<close>

definition open_next_capability_trial_locked ::
    "u32 \<Rightarrow> task_capability \<Rightarrow> feedback \<Rightarrow> feedback" where
  "open_next_capability_trial_locked compute_cpu_count c f =
     (let cpu_max = trial_cpu_max compute_cpu_count c;
          maximum_batch = re_maximum_batch_size (tc_estimate c)
      in if tc_cpu_reducible c \<and> \<not> fb_cpu_growth_stopped f \<and> fb_accepted_cpu_limit f < cpu_max
      then
        let cpu = next_trial_cpu (fb_accepted_cpu_limit f) cpu_max in
        clear_trial_rate_observations
          (f\<lparr>fb_adaptive_cpu_limit := cpu,
             fb_adaptive_batch_limit :=
               (if tc_cpu_batch_coupled c then minimum_size (ucast cpu) maximum_batch
                else fb_accepted_batch_limit f),
             fb_adaptive_inflight_limit := fb_accepted_inflight_limit f,
             fb_trial_dimension := TRIAL_CPU\<rparr>)
      else if tc_inflight_adaptive c \<and> \<not> fb_inflight_growth_stopped f
        \<and> fb_accepted_inflight_limit f < tc_inflight_limit c
      then
        if tc_batch_adaptive c \<and> fb_accepted_batch_limit f < 2
        then
          if \<not> fb_batch_growth_stopped f \<and> maximum_batch \<ge> 2
          then clear_trial_rate_observations
            (f\<lparr>fb_adaptive_cpu_limit := fb_accepted_cpu_limit f,
               fb_adaptive_inflight_limit := fb_accepted_inflight_limit f,
               fb_adaptive_batch_limit := 2, fb_trial_dimension := TRIAL_BATCH\<rparr>)
          else f
        else clear_trial_rate_observations
          (f\<lparr>fb_adaptive_cpu_limit := fb_accepted_cpu_limit f,
             fb_adaptive_batch_limit := fb_accepted_batch_limit f,
             fb_adaptive_inflight_limit :=
               next_trial_batch (fb_accepted_inflight_limit f) (tc_inflight_limit c),
             fb_trial_dimension := TRIAL_INFLIGHT\<rparr>)
      else if tc_batch_adaptive c \<and> \<not> fb_batch_growth_stopped f
        \<and> fb_accepted_batch_limit f < maximum_batch
      then clear_trial_rate_observations
        (f\<lparr>fb_adaptive_cpu_limit := fb_accepted_cpu_limit f,
           fb_adaptive_batch_limit := next_trial_batch (fb_accepted_batch_limit f) maximum_batch,
           fb_trial_dimension := TRIAL_BATCH\<rparr>)
      else f\<lparr>fb_adaptive_cpu_limit := fb_accepted_cpu_limit f,
             fb_adaptive_batch_limit := fb_accepted_batch_limit f,
             fb_adaptive_inflight_limit := fb_accepted_inflight_limit f,
             fb_trial_dimension := TRIAL_NONE\<rparr>)"

section \<open>One recorded sequence\<close>

definition set_diagnostic_reason :: "string \<Rightarrow> feedback \<Rightarrow> feedback" where
  "set_diagnostic_reason reason f =
     f\<lparr>fb_diagnostic := (fb_diagnostic f)\<lparr>sd_reason := copy_text DIAGNOSTIC_REASON_CAPACITY reason\<rparr>\<rparr>"

definition durable_rate :: "size_t \<Rightarrow> u64 \<Rightarrow> u64" where
  "durable_rate items_completed wall_time_ns =
     (if items_completed > 0 \<and> items_completed \<le> UINT64_MAX div 1000000000000
      then items_completed * 1000000000000 div wall_time_ns else 0)"

definition trial_exercised :: "capability_selection \<Rightarrow> feedback \<Rightarrow> bool" where
  "trial_exercised s f =
     (case fb_trial_dimension f of
        TRIAL_CPU \<Rightarrow> rd_cpu_threads (cs_decision s) = fb_adaptive_cpu_limit f
          \<and> (\<not> tc_cpu_batch_coupled (cs_capability s)
             \<or> rd_batch_size (cs_decision s) = fb_adaptive_batch_limit f)
      | TRIAL_INFLIGHT \<Rightarrow> cs_inflight_limit s = fb_adaptive_inflight_limit f
      | _ \<Rightarrow> rd_batch_size (cs_decision s) = fb_adaptive_batch_limit f)"

text \<open>The end of a trial: its rate is judged, the limits move, the next trial opens.\<close>

definition accept_trial :: "task_capability \<Rightarrow> trial_dimension \<Rightarrow> feedback \<Rightarrow> feedback" where
  "accept_trial c dimension f =
     (case dimension of
        TRIAL_CPU \<Rightarrow>
          (if tc_cpu_batch_coupled c
           then f\<lparr>fb_accepted_cpu_limit := fb_adaptive_cpu_limit f,
                  fb_accepted_batch_limit := fb_adaptive_batch_limit f\<rparr>
           else f\<lparr>fb_accepted_cpu_limit := fb_adaptive_cpu_limit f\<rparr>)
      | TRIAL_INFLIGHT \<Rightarrow> f\<lparr>fb_accepted_inflight_limit := fb_adaptive_inflight_limit f\<rparr>
      | _ \<Rightarrow> f\<lparr>fb_accepted_batch_limit := fb_adaptive_batch_limit f\<rparr>)"

definition refuse_trial :: "trial_dimension \<Rightarrow> feedback \<Rightarrow> feedback" where
  "refuse_trial dimension f =
     (case dimension of
        TRIAL_CPU \<Rightarrow> f\<lparr>fb_adaptive_cpu_limit := fb_accepted_cpu_limit f,
          fb_cpu_growth_stopped := True\<rparr>
      | TRIAL_INFLIGHT \<Rightarrow> f\<lparr>fb_adaptive_inflight_limit := fb_accepted_inflight_limit f,
          fb_inflight_growth_stopped := True\<rparr>
      | _ \<Rightarrow> f\<lparr>fb_adaptive_batch_limit := fb_accepted_batch_limit f,
          fb_batch_growth_stopped := True\<rparr>)"

definition complete_trial :: "u32 \<Rightarrow> task_capability \<Rightarrow> nat \<Rightarrow> feedback \<Rightarrow> feedback" where
  "complete_trial compute_cpu_count c required f =
     (let dimension = fb_trial_dimension f;
          trial_rate =
            (if tc_sustained_gpu_batch_feedback c \<and> dimension = TRIAL_BATCH
             then average_rate_observations (fb_trial_rates_milli f) required
             else minimum_uint64 (fb_trial_rates_milli f ! 0) (fb_trial_rates_milli f ! 1));
          f = (clear_trial_rate_observations f)\<lparr>fb_trial_dimension := TRIAL_NONE\<rparr>;
          improved = throughput_materially_improved trial_rate (fb_baseline_rate_milli f);
          f = (if improved
               then (accept_trial c dimension f)
                 \<lparr>fb_baseline_rate_milli := trial_rate, fb_baseline_observations := required\<rparr>
               else refuse_trial dimension f)
      in set_diagnostic_reason (trial_result_reason c dimension improved)
           (open_next_capability_trial_locked compute_cpu_count c f))"

definition push_trial_rate :: "nat \<Rightarrow> u64 \<Rightarrow> feedback \<Rightarrow> feedback" where
  "push_trial_rate required rate f =
     (let f = (if fb_trial_observations f \<ge> required then clear_trial_rate_observations f else f)
      in f\<lparr>fb_trial_rates_milli := (fb_trial_rates_milli f)[fb_trial_observations f := rate],
           fb_trial_observations := fb_trial_observations f + 1\<rparr>)"

definition push_baseline_rate :: "nat \<Rightarrow> u64 \<Rightarrow> feedback \<Rightarrow> feedback" where
  "push_baseline_rate required rate f =
     (let f = (if fb_baseline_observations f \<ge> required
               then clear_baseline_rate_observations f else f)
      in f\<lparr>fb_baseline_rates_milli :=
             (fb_baseline_rates_milli f)[fb_baseline_observations f := rate],
           fb_baseline_observations := fb_baseline_observations f + 1\<rparr>)"

definition observe_trial :: "u32 \<Rightarrow> capability_selection \<Rightarrow> feedback \<Rightarrow> feedback" where
  "observe_trial compute_cpu_count s f =
     (let c = cs_capability s; rate = sd_durable_items_per_second_milli (fb_diagnostic f);
          hold = trial_observation_reason c (fb_trial_dimension f)
      in if \<not> trial_exercised s f
      then set_diagnostic_reason hold
        (if tc_sustained_gpu_batch_feedback c \<and> fb_trial_dimension f = TRIAL_BATCH
         then clear_trial_rate_observations f else f)
      else
        let required = required_throughput_observations c (fb_trial_dimension f);
            f = push_trial_rate required rate f
        in if fb_trial_observations f < required then set_diagnostic_reason hold f
           else complete_trial compute_cpu_count c required f)"

definition observe_baseline :: "u32 \<Rightarrow> capability_selection \<Rightarrow> feedback \<Rightarrow> feedback" where
  "observe_baseline compute_cpu_count s f =
     (let c = cs_capability s; rate = sd_durable_items_per_second_milli (fb_diagnostic f) in
      if fb_baseline_rate_milli f \<noteq> 0 then set_diagnostic_reason ''hold-deadband'' f
      else
        let required = required_throughput_observations c TRIAL_NONE;
            exercised = (\<not> tc_sustained_gpu_batch_feedback c
              \<or> rd_batch_size (cs_decision s) = fb_accepted_batch_limit f);
            f = (if exercised then push_baseline_rate required rate f
                 else clear_baseline_rate_observations f)
        in if exercised \<and> fb_baseline_observations f = required
           then
             let f = open_next_capability_trial_locked compute_cpu_count c
                   (f\<lparr>fb_baseline_rate_milli :=
                        average_rate_observations (fb_baseline_rates_milli f) required\<rparr>)
             in set_diagnostic_reason (trial_observation_reason c (fb_trial_dimension f)) f
           else set_diagnostic_reason
             (if tc_sustained_gpu_batch_feedback c then ''gpu-batch-baseline''
              else ''hold-deadband'') f)"

text \<open>The feedback branch of a recorded sequence, for an adaptive capability.\<close>

definition train_feedback :: "u32 \<Rightarrow> capability_selection \<Rightarrow> backend \<Rightarrow> feedback \<Rightarrow> feedback" where
  "train_feedback compute_cpu_count s actual_backend f =
     (let c = cs_capability s in
      if cs_pressure s \<noteq> PRESSURE_GREEN
      then set_diagnostic_reason ''pressure-decrease'' (reset_capability_throughput_feedback c f)
      else if tc_backend c = BACKEND_ORB_VULKAN \<and> actual_backend \<noteq> BACKEND_ORB_VULKAN
      then set_diagnostic_reason ''backend-fallback-hold''
        (clear_trial_rate_observations
          ((clear_baseline_rate_observations
              (f\<lparr>fb_adaptive_cpu_limit := fb_accepted_cpu_limit f,
                 fb_adaptive_batch_limit := fb_accepted_batch_limit f,
                 fb_adaptive_inflight_limit := fb_accepted_inflight_limit f,
                 fb_trial_dimension := TRIAL_NONE\<rparr>))\<lparr>fb_baseline_rate_milli := 0\<rparr>))
      else if sd_durable_items_per_second_milli (fb_diagnostic f) = 0
      then set_diagnostic_reason ''throughput-no-work''
        (if tc_sustained_gpu_batch_feedback c
         then clear_trial_rate_observations (clear_baseline_rate_observations f) else f)
      else if fb_trial_dimension f \<noteq> TRIAL_NONE
      then observe_trial compute_cpu_count s f
      else observe_baseline compute_cpu_count s f)"

definition adaptive_capability :: "task_capability \<Rightarrow> bool" where
  "adaptive_capability c \<longleftrightarrow> tc_cpu_reducible c \<or> tc_batch_adaptive c \<or> tc_inflight_adaptive c"

end
