(* ===== verification/Sequence_Records.thy ===== *)
theory Sequence_Records
  imports Capability_Trials
begin

text \<open>
  The private records of sequences (\<open>src/resource_governor.c\<close>): the saturating aggregates of
  admissions and completed sequences, the diagnostic serial, the operations
  \<open>record_sequence_execution_metrics\<close> and \<open>record_fallback_items\<close>, and the queries
  \<open>last_diagnostic\<close>, \<open>diagnostic_since\<close> and \<open>sequence_aggregate\<close>.
\<close>

section \<open>Aggregates\<close>

text \<open>The most recently updated entry of the kind and version with a known selection.\<close>

definition previous_selection :: "string \<Rightarrow> u32 \<Rightarrow> feedback list \<Rightarrow> feedback option" where
  "previous_selection kind version fs =
     fold (\<lambda>candidate previous.
       if fb_used candidate \<and> fb_aggregate_selection_known candidate
          \<and> fb_task_kind_version candidate = version \<and> fb_task_kind candidate = kind
          \<and> (case previous of None \<Rightarrow> True
             | Some p \<Rightarrow> fb_diagnostic_update_order candidate > fb_diagnostic_update_order p)
       then Some candidate else previous) fs None"

definition contract_changed :: "capability_selection \<Rightarrow> feedback \<Rightarrow> bool" where
  "contract_changed s previous \<longleftrightarrow>
     fb_backend previous \<noteq> tc_backend (cs_capability s)
     \<or> fb_aggregate_cpu_threads previous \<noteq> rd_cpu_threads (cs_decision s)
     \<or> fb_aggregate_gpu_slots previous \<noteq> rd_gpu_slots (cs_decision s)
     \<or> fb_aggregate_io_slots previous \<noteq> rd_io_slots (cs_decision s)
     \<or> fb_aggregate_batch_size previous \<noteq> rd_batch_size (cs_decision s)
     \<or> fb_aggregate_inflight_limit previous \<noteq> cs_inflight_limit s
     \<or> fb_aggregate_helper_limit previous \<noteq> tc_helper_limit (cs_capability s)"

definition aggregate_admission :: "feedback list \<Rightarrow> capability_selection \<Rightarrow> feedback \<Rightarrow> feedback" where
  "aggregate_admission fs s f =
     (let a = aggregate_counter sa_admission_count sa_admission_count_update 1 (fb_aggregate f);
          a = aggregate_element sa_selected_backend_admissions sa_selected_backend_admissions_update
                (tc_backend (cs_capability s)) 1 a;
          changed = (case previous_selection (fb_task_kind f) (fb_task_kind_version f) fs of
              None \<Rightarrow> False
            | Some previous \<Rightarrow> contract_changed s previous);
          a = (if changed
               then aggregate_counter sa_contract_change_count sa_contract_change_count_update 1 a
               else a)
      in f\<lparr>fb_aggregate := a, fb_aggregate_selection_known := True,
           fb_aggregate_cpu_threads := rd_cpu_threads (cs_decision s),
           fb_aggregate_gpu_slots := rd_gpu_slots (cs_decision s),
           fb_aggregate_io_slots := rd_io_slots (cs_decision s),
           fb_aggregate_batch_size := rd_batch_size (cs_decision s),
           fb_aggregate_inflight_limit := cs_inflight_limit s,
           fb_aggregate_helper_limit := tc_helper_limit (cs_capability s)\<rparr>)"

definition aggregate_fallback :: "string \<Rightarrow> sequence_aggregate \<Rightarrow> sequence_aggregate" where
  "aggregate_fallback backend_reason a =
     (let a = aggregate_counter sa_backend_fallback_sequences
                sa_backend_fallback_sequences_update 1 a
      in if backend_reason = ''vulkan-and-ineligible-pair-cpu-fallback''
           \<or> backend_reason = ''vulkan-ineligible-whole-pair-cpu-fallback''
      then aggregate_counter sa_backend_ineligible_fallback_sequences
             sa_backend_ineligible_fallback_sequences_update 1 a
      else if backend_reason = ''vulkan-and-whole-pair-cpu-fallback''
           \<or> backend_reason = ''vulkan-failed-whole-pair-cpu-fallback''
      then aggregate_counter sa_backend_failure_fallback_sequences
             sa_backend_failure_fallback_sequences_update 1 a
      else aggregate_counter sa_backend_other_fallback_sequences
             sa_backend_other_fallback_sequences_update 1 a)"

definition aggregate_gauges :: "host_telemetry \<Rightarrow> sequence_aggregate \<Rightarrow> sequence_aggregate" where
  "aggregate_gauges host a =
     a\<lparr>sa_minimum_memory_available_bytes :=
         minimum_gauge (sa_minimum_memory_available_bytes a) (ht_memory_available_bytes host),
       sa_maximum_gpu_busy_basis_points :=
         maximum_gauge (sa_maximum_gpu_busy_basis_points a) (ht_gpu_busy_basis_points host),
       sa_maximum_process_rss_bytes :=
         maximum_gauge (sa_maximum_process_rss_bytes a) (ht_process_rss_bytes host),
       sa_maximum_process_peak_rss_bytes :=
         maximum_gauge (sa_maximum_process_peak_rss_bytes a) (ht_process_peak_rss_bytes host)\<rparr>"

definition aggregate_metrics :: "execution_metrics \<Rightarrow> sequence_aggregate \<Rightarrow> sequence_aggregate" where
  "aggregate_metrics m a =
     (let a = aggregate_counter sa_vulkan_submits sa_vulkan_submits_update (em_vulkan_submits m) a;
          a = aggregate_counter sa_vulkan_completions sa_vulkan_completions_update
                (em_vulkan_completions m) a;
          a = aggregate_counter sa_vulkan_submit_cpu_ns sa_vulkan_submit_cpu_ns_update
                (em_vulkan_submit_cpu_ns m) a;
          a = aggregate_counter sa_vulkan_fence_wait_ns sa_vulkan_fence_wait_ns_update
                (em_vulkan_fence_wait_ns m) a;
          a = aggregate_counter sa_vulkan_readback_ns sa_vulkan_readback_ns_update
                (em_vulkan_readback_ns m) a;
          a = (if em_vulkan_gpu_time_known m
               then aggregate_counter sa_vulkan_gpu_ns sa_vulkan_gpu_ns_update (em_vulkan_gpu_ns m)
                 (aggregate_counter sa_vulkan_gpu_known_sequences
                   sa_vulkan_gpu_known_sequences_update 1 a)
               else a);
          a = aggregate_counter sa_vulkan_starvation_ns sa_vulkan_starvation_ns_update
                (em_vulkan_starvation_ns m) a;
          a = aggregate_counter sa_matcher_cpu_ns sa_matcher_cpu_ns_update
                (em_matcher_cpu_ns m) a
      in aggregate_counter sa_publication_ns sa_publication_ns_update (em_publication_ns m) a)"

text \<open>On LP64 \<open>items\<close> is \<open>items_completed\<close> itself, so its saturation branch is dead.\<close>

definition aggregate_sequence ::
    "u64 \<Rightarrow> size_t \<Rightarrow> backend \<Rightarrow> string \<Rightarrow> execution_metrics option \<Rightarrow> feedback \<Rightarrow> feedback" where
  "aggregate_sequence wall_time_ns items_completed actual_backend backend_reason metrics f =
     (let a = aggregate_counter sa_sequence_count sa_sequence_count_update 1 (fb_aggregate f);
          a = aggregate_counter sa_durable_items sa_durable_items_update items_completed a;
          a = aggregate_counter sa_total_wall_time_ns sa_total_wall_time_ns_update wall_time_ns a;
          a = aggregate_element sa_actual_backend_sequences sa_actual_backend_sequences_update
                actual_backend 1 a;
          a = (if actual_backend \<noteq> fb_backend f then aggregate_fallback backend_reason a else a);
          a = aggregate_gauges (sd_host (fb_diagnostic f)) a;
          a = (case metrics of None \<Rightarrow> a | Some m \<Rightarrow> aggregate_metrics m a)
      in f\<lparr>fb_aggregate := a\<rparr>)"

section \<open>The diagnostic serial\<close>

definition advance_diagnostic_serial_locked ::
    "nat \<Rightarrow> 'a feedback_governor_scheme \<Rightarrow> 'a feedback_governor_scheme" where
  "advance_diagnostic_serial_locked i g =
     (let serial = (if cg_diagnostic_serial g < UINT64_MAX then cg_diagnostic_serial g + 1
                    else cg_diagnostic_serial g);
          (table, order) =
            (if cg_diagnostic_update_order g = UINT64_MAX
             then (map (\<lambda>f. f\<lparr>fb_diagnostic_update_order := 0\<rparr>) (cg_feedback g), 0)
             else (cg_feedback g, cg_diagnostic_update_order g))
      in update_feedback i (\<lambda>f. f\<lparr>fb_diagnostic_update_order := order + 1,
             fb_diagnostic_serial := serial,
             fb_diagnostic := (fb_diagnostic f)\<lparr>sd_serial := serial\<rparr>\<rparr>)
           (g\<lparr>cg_diagnostic_serial := serial, cg_feedback := table,
              cg_diagnostic_update_order := order + 1\<rparr>))"

section \<open>Recording\<close>

text \<open>
  \<open>telemetry\<close> is what \<open>capture_host_telemetry\<close> leaves in \<open>governor->host_telemetry\<close>. The
  \<open>Lardon3DResourceBackend\<close> range check always passes on the four constructors.
\<close>

definition record_sequence_diagnostic ::
    "host_telemetry \<Rightarrow> capability_selection \<Rightarrow> u64 \<Rightarrow> size_t \<Rightarrow> backend \<Rightarrow> string
      \<Rightarrow> execution_metrics option \<Rightarrow> feedback \<Rightarrow> feedback" where
  "record_sequence_diagnostic host s wall_time_ns items_completed actual_backend backend_reason
      metrics f =
     f\<lparr>fb_diagnostic := (fb_diagnostic f)
         \<lparr>sd_previous_wall_time_ns := wall_time_ns, sd_items_completed := items_completed,
           sd_actual_backend := actual_backend,
           sd_backend_fallback := (actual_backend \<noteq> tc_backend (cs_capability s)),
           sd_host := host,
           sd_execution := (case metrics of None \<Rightarrow> zero_metrics | Some m \<Rightarrow> m),
           sd_backend_reason := copy_text DIAGNOSTIC_REASON_CAPACITY backend_reason,
           sd_durable_items_per_second_milli := durable_rate items_completed wall_time_ns\<rparr>\<rparr>"

definition record_sequence_execution_metrics ::
    "host_telemetry \<Rightarrow> string \<Rightarrow> u32 \<Rightarrow> capability_selection \<Rightarrow> u64 \<Rightarrow> size_t \<Rightarrow> backend
      \<Rightarrow> string \<Rightarrow> execution_metrics option \<Rightarrow> 'a feedback_governor_scheme
      \<Rightarrow> 'a feedback_governor_scheme \<times> bool" where
  "record_sequence_execution_metrics telemetry kind version s wall_time_ns items_completed
      actual_backend backend_reason metrics g =
     (if kind = [] \<or> wall_time_ns = 0 then (g, False)
      else
        let g = g\<lparr>cg_host_telemetry := telemetry\<rparr> in
        case capability_feedback_locked kind version (tc_backend (cs_capability s)) True g of
          (g, None) \<Rightarrow> (g, False)
        | (g, Some i) \<Rightarrow>
            let f = record_sequence_diagnostic (cg_host_telemetry g) s wall_time_ns
                      items_completed actual_backend backend_reason metrics (cg_feedback g ! i);
                f = (if adaptive_capability (cs_capability s)
                     then train_feedback (cp_compute_cpu_count (g_cpu_policy g)) s actual_backend f
                     else f);
                f = aggregate_sequence wall_time_ns items_completed actual_backend
                      backend_reason metrics f;
                g = advance_diagnostic_serial_locked i (update_feedback i (\<lambda>_. f) g)
            in (g\<lparr>g_generation := g_generation g + 1\<rparr>, True))"

definition record_sequence_execution ::
    "host_telemetry \<Rightarrow> string \<Rightarrow> u32 \<Rightarrow> capability_selection \<Rightarrow> u64 \<Rightarrow> size_t \<Rightarrow> backend
      \<Rightarrow> string \<Rightarrow> 'a feedback_governor_scheme \<Rightarrow> 'a feedback_governor_scheme \<times> bool" where
  "record_sequence_execution telemetry kind version s wall_time_ns items_completed
      actual_backend backend_reason g =
     record_sequence_execution_metrics telemetry kind version s wall_time_ns items_completed
       actual_backend backend_reason None g"

definition record_sequence ::
    "host_telemetry \<Rightarrow> string \<Rightarrow> u32 \<Rightarrow> capability_selection \<Rightarrow> u64 \<Rightarrow> size_t
      \<Rightarrow> 'a feedback_governor_scheme \<Rightarrow> 'a feedback_governor_scheme \<times> bool" where
  "record_sequence telemetry kind version s wall_time_ns items_completed g =
     record_sequence_execution telemetry kind version s wall_time_ns items_completed
       (tc_backend (cs_capability s)) ''selected-backend-completed'' g"

definition record_fallback_items ::
    "string \<Rightarrow> u32 \<Rightarrow> capability_selection \<Rightarrow> fallback_item_cause \<Rightarrow> u64
      \<Rightarrow> 'a feedback_governor_scheme \<Rightarrow> 'a feedback_governor_scheme \<times> bool" where
  "record_fallback_items kind version s cause item_count g =
     (if kind = [] \<or> tc_backend (cs_capability s) \<noteq> BACKEND_ORB_VULKAN then (g, False)
      else case capability_feedback_locked kind version (tc_backend (cs_capability s)) True g of
        (g, None) \<Rightarrow> (g, False)
      | (g, Some i) \<Rightarrow>
          (update_feedback i (\<lambda>f. f\<lparr>fb_aggregate :=
             (case cause of
                FALLBACK_ITEM_LOCAL_INELIGIBLE \<Rightarrow>
                  aggregate_counter sa_local_ineligible_fallback_items
                    sa_local_ineligible_fallback_items_update item_count
              | FALLBACK_ITEM_BACKEND_FAILURE \<Rightarrow>
                  aggregate_counter sa_backend_failure_fallback_items
                    sa_backend_failure_fallback_items_update item_count
              | FALLBACK_ITEM_OTHER \<Rightarrow>
                  aggregate_counter sa_backend_other_fallback_items
                    sa_backend_other_fallback_items_update item_count) (fb_aggregate f)\<rparr>) g, True))"

section \<open>Queries\<close>

definition diagnostic_newer :: "feedback \<Rightarrow> feedback \<Rightarrow> bool" where
  "diagnostic_newer candidate best \<longleftrightarrow>
     fb_diagnostic_serial candidate > fb_diagnostic_serial best
     \<or> fb_diagnostic_serial candidate = fb_diagnostic_serial best
       \<and> fb_diagnostic_update_order candidate > fb_diagnostic_update_order best"

fun best_diagnostic :: "string \<Rightarrow> u32 \<Rightarrow> feedback list \<Rightarrow> feedback option \<Rightarrow> feedback option" where
  "best_diagnostic kind version [] best = best"
| "best_diagnostic kind version (candidate # fs) best =
     best_diagnostic kind version fs
       (if fb_used candidate \<and> fb_task_kind_version candidate = version
           \<and> fb_task_kind candidate = kind \<and> sd_task_kind (fb_diagnostic candidate) \<noteq> []
           \<and> (case best of None \<Rightarrow> True | Some b \<Rightarrow> diagnostic_newer candidate b)
        then Some candidate else best)"

definition last_diagnostic ::
    "string \<Rightarrow> u32 \<Rightarrow> 'a feedback_governor_scheme \<Rightarrow> sequence_diagnostic option" where
  "last_diagnostic kind version g =
     map_option fb_diagnostic (best_diagnostic kind version (cg_feedback g) None)"

definition diagnostic_since ::
    "string \<Rightarrow> u32 \<Rightarrow> u64 \<Rightarrow> 'a feedback_governor_scheme \<Rightarrow> sequence_diagnostic option" where
  "diagnostic_since kind version after_serial g =
     (case last_diagnostic kind version g of
        Some d \<Rightarrow> if sd_serial d > after_serial then Some d else None
      | None \<Rightarrow> None)"

definition merge_counter ::
    "(sequence_aggregate \<Rightarrow> u64) \<Rightarrow> ((u64 \<Rightarrow> u64) \<Rightarrow> sequence_aggregate \<Rightarrow> sequence_aggregate)
      \<Rightarrow> sequence_aggregate \<Rightarrow> sequence_aggregate \<Rightarrow> sequence_aggregate" where
  "merge_counter get upd source result = aggregate_counter get upd (get source) result"

definition merge_backend ::
    "sequence_aggregate \<Rightarrow> backend \<Rightarrow> sequence_aggregate \<Rightarrow> sequence_aggregate" where
  "merge_backend source b result =
     aggregate_element sa_actual_backend_sequences sa_actual_backend_sequences_update b
       (sa_actual_backend_sequences source ! backend_index b)
       (aggregate_element sa_selected_backend_admissions sa_selected_backend_admissions_update b
         (sa_selected_backend_admissions source ! backend_index b) result)"

text \<open>The 22 counters, in the order of \<open>MERGE_COUNTER\<close>.\<close>

definition merge_fields ::
    "((sequence_aggregate \<Rightarrow> u64)
      \<times> ((u64 \<Rightarrow> u64) \<Rightarrow> sequence_aggregate \<Rightarrow> sequence_aggregate)) list" where
  "merge_fields =
     [(sa_admission_count, sa_admission_count_update),
      (sa_sequence_count, sa_sequence_count_update),
      (sa_durable_items, sa_durable_items_update),
      (sa_total_wall_time_ns, sa_total_wall_time_ns_update),
      (sa_backend_fallback_sequences, sa_backend_fallback_sequences_update),
      (sa_backend_ineligible_fallback_sequences, sa_backend_ineligible_fallback_sequences_update),
      (sa_backend_failure_fallback_sequences, sa_backend_failure_fallback_sequences_update),
      (sa_backend_other_fallback_sequences, sa_backend_other_fallback_sequences_update),
      (sa_local_ineligible_fallback_items, sa_local_ineligible_fallback_items_update),
      (sa_backend_failure_fallback_items, sa_backend_failure_fallback_items_update),
      (sa_backend_other_fallback_items, sa_backend_other_fallback_items_update),
      (sa_contract_change_count, sa_contract_change_count_update),
      (sa_vulkan_submits, sa_vulkan_submits_update),
      (sa_vulkan_completions, sa_vulkan_completions_update),
      (sa_vulkan_submit_cpu_ns, sa_vulkan_submit_cpu_ns_update),
      (sa_vulkan_fence_wait_ns, sa_vulkan_fence_wait_ns_update),
      (sa_vulkan_readback_ns, sa_vulkan_readback_ns_update),
      (sa_vulkan_gpu_known_sequences, sa_vulkan_gpu_known_sequences_update),
      (sa_vulkan_gpu_ns, sa_vulkan_gpu_ns_update),
      (sa_vulkan_starvation_ns, sa_vulkan_starvation_ns_update),
      (sa_matcher_cpu_ns, sa_matcher_cpu_ns_update),
      (sa_publication_ns, sa_publication_ns_update)]"

definition merge_aggregate :: "sequence_aggregate \<Rightarrow> sequence_aggregate \<Rightarrow> sequence_aggregate" where
  "merge_aggregate source result =
     (let result = result\<lparr>sa_saturated := (sa_saturated result \<or> sa_saturated source)\<rparr>;
          result = fold (\<lambda>(get, upd). merge_counter get upd source) merge_fields result;
          result = fold (merge_backend source)
            [BACKEND_FIXED, BACKEND_CPU, BACKEND_ORB_VULKAN, BACKEND_MIXED] result
      in result\<lparr>
           sa_minimum_memory_available_bytes :=
             minimum_gauge (sa_minimum_memory_available_bytes result)
               (sa_minimum_memory_available_bytes source),
           sa_maximum_gpu_busy_basis_points :=
             maximum_gauge (sa_maximum_gpu_busy_basis_points result)
               (sa_maximum_gpu_busy_basis_points source),
           sa_maximum_process_rss_bytes :=
             maximum_gauge (sa_maximum_process_rss_bytes result)
               (sa_maximum_process_rss_bytes source),
           sa_maximum_process_peak_rss_bytes :=
             maximum_gauge (sa_maximum_process_peak_rss_bytes result)
               (sa_maximum_process_peak_rss_bytes source)\<rparr>)"

definition aggregate_entries :: "string \<Rightarrow> u32 \<Rightarrow> feedback list \<Rightarrow> feedback list" where
  "aggregate_entries kind version fs =
     filter (\<lambda>f. fb_used f \<and> fb_task_kind_version f = version \<and> fb_task_kind f = kind) fs"

definition governor_sequence_aggregate ::
    "string \<Rightarrow> u32 \<Rightarrow> 'a feedback_governor_scheme \<Rightarrow> sequence_aggregate option" where
  "governor_sequence_aggregate kind version g =
     (if kind = [] then None
      else case aggregate_entries kind version (cg_feedback g) of
        [] \<Rightarrow> None
      | fs \<Rightarrow> Some (fold (\<lambda>f. merge_aggregate (fb_aggregate f)) fs zero_aggregate))"

end
