(* ===== verification/Capability_Admission.thy ===== *)
theory Capability_Admission
  imports Sequence_Records Governor_Safety
begin

text \<open>
  Capability admission (\<open>src/resource_governor.c\<close>): the envelope's validity, the evaluation of
  one capability under its learned limits (\<open>try_capability_locked\<close>) and
  \<open>internal_reserve_capability\<close> with \<open>internal_reserve_capability_available\<close>.
\<close>

definition valid_capability :: "task_capability \<Rightarrow> bool" where
  "valid_capability c \<longleftrightarrow>
     valid_estimate (tc_estimate c) \<and> tc_backend c \<noteq> BACKEND_MIXED \<and> tc_inflight_limit c \<noteq> 0
     \<and> \<not> (minimum_inflight c > tc_inflight_limit c
        \<or> tc_inflight_adaptive c
          \<and> (tc_minimum_inflight_limit c = 0 \<or> tc_gpu_memory_bytes_per_inflight c = 0)
        \<or> \<not> tc_inflight_adaptive c \<and> tc_minimum_inflight_limit c \<noteq> 0
          \<and> tc_minimum_inflight_limit c \<noteq> tc_inflight_limit c
        \<or> tc_gpu_memory_bytes_per_inflight c \<noteq> 0
          \<and> tc_inflight_limit c > UINT64_MAX div tc_gpu_memory_bytes_per_inflight c
        \<or> tc_gpu_memory_bytes_per_inflight c \<noteq> 0
          \<and> re_gpu_memory_fixed_bytes (tc_estimate c)
              > UINT64_MAX - tc_inflight_limit c * tc_gpu_memory_bytes_per_inflight c)"

definition valid_capability_envelope :: "capability_envelope \<Rightarrow> bool" where
  "valid_capability_envelope envelope \<longleftrightarrow>
     envelope \<noteq> [] \<and> length envelope \<le> RESOURCE_CAPABILITY_MAX
     \<and> list_all valid_capability envelope"

definition selection_reason :: "string \<Rightarrow> capability_selection \<Rightarrow> capability_selection" where
  "selection_reason reason s = s\<lparr>cs_reason := copy_text DIAGNOSTIC_REASON_CAPACITY reason\<rparr>"

text \<open>The GPU bytes of the selected requests, over the capability's fixed bytes.\<close>

definition inflight_gpu_bytes :: "task_capability \<Rightarrow> size_t \<Rightarrow> u64 option" where
  "inflight_gpu_bytes c inflight =
     add_uint64 (re_gpu_memory_fixed_bytes (tc_estimate c))
       (inflight * tc_gpu_memory_bytes_per_inflight c)"

definition charge_inflight ::
    "task_capability \<Rightarrow> size_t \<Rightarrow> resource_estimate \<Rightarrow> resource_estimate option" where
  "charge_inflight c inflight operational =
     (if tc_gpu_memory_bytes_per_inflight c \<noteq> 0
      then map_option (\<lambda>bytes. operational\<lparr>re_gpu_memory_fixed_bytes := bytes\<rparr>)
             (inflight_gpu_bytes c inflight)
      else Some operational)"

text \<open>The operational estimate of the capability under the limits of its feedback.\<close>

definition limited_estimate :: "task_capability \<Rightarrow> feedback \<Rightarrow> resource_estimate" where
  "limited_estimate c f =
     (let e = tc_estimate c;
          e = (if tc_cpu_reducible c then e\<lparr>re_desired_cpu_threads := fb_adaptive_cpu_limit f\<rparr>
               else e)
      in if tc_batch_adaptive c
         then e\<lparr>re_maximum_batch_size :=
                  minimum_size (re_maximum_batch_size e) (fb_adaptive_batch_limit f)\<rparr>
         else e)"

definition reduce_under_pressure ::
    "task_capability \<Rightarrow> resource_estimate \<Rightarrow> resource_decision \<Rightarrow> size_t
      \<Rightarrow> resource_decision \<times> size_t" where
  "reduce_under_pressure c operational d inflight =
     (if \<not> decision_grants d then (d, inflight)
      else
        let d = (if tc_batch_adaptive c then d\<lparr>rd_batch_size := re_minimum_batch_size operational\<rparr>
                 else d);
            d = (if tc_cpu_reducible c then d\<lparr>rd_cpu_threads := 1\<rparr> else d);
            inflight = (if tc_inflight_adaptive c then tc_minimum_inflight_limit c else inflight);
            reduced =
              (tc_batch_adaptive c \<and> rd_batch_size d < re_maximum_batch_size (tc_estimate c)
               \<or> tc_cpu_reducible c \<and> rd_cpu_threads d < re_desired_cpu_threads (tc_estimate c)
               \<or> tc_inflight_adaptive c \<and> inflight < tc_inflight_limit c);
            d = (if reduced then d\<lparr>rd_kind := RESOURCE_REDUCE_BATCH\<rparr> else d)
        in (d\<lparr>rd_reason := copy_text RESOURCE_REASON_CAPACITY
               (''Pression active : capacit'' @ e_acute @ '' adaptative r'' @ e_acute
                @ ''duite au minimum.'')\<rparr>, inflight))"

definition trial_batch_reason :: "task_capability \<Rightarrow> feedback \<Rightarrow> string" where
  "trial_batch_reason c f =
     (let starvation_signal = (tc_backend c = BACKEND_ORB_VULKAN
            \<and> em_vulkan_starvation_ns (sd_execution (fb_diagnostic f)) > 0);
          low_or_unknown_busy = (case ht_gpu_busy_basis_points (sd_host (fb_diagnostic f)) of
              None \<Rightarrow> True | Some busy \<Rightarrow> busy < 8000)
      in if tc_sustained_gpu_batch_feedback c then ''gpu-batch-throughput-trial''
         else if starvation_signal \<and> low_or_unknown_busy then ''gpu-starvation-throughput-trial''
         else ''throughput-trial'')"

definition granted_reason ::
    "pressure \<Rightarrow> task_capability \<Rightarrow> resource_estimate \<Rightarrow> size_t \<Rightarrow> feedback \<Rightarrow> string" where
  "granted_reason pressure c operational inflight f =
     (if pressure \<noteq> PRESSURE_GREEN then ''pressure-decrease''
      else if fb_trial_dimension f = TRIAL_CPU then ''cpu-throughput-trial''
      else if fb_trial_dimension f = TRIAL_INFLIGHT then ''inflight-throughput-trial''
      else if fb_trial_dimension f = TRIAL_BATCH then trial_batch_reason c f
      else if tc_batch_adaptive c \<and> fb_batch_growth_stopped f
      then (if tc_sustained_gpu_batch_feedback c then ''gpu-batch-throughput-no-gain''
            else ''throughput-no-gain'')
      else if tc_cpu_reducible c \<and> fb_cpu_growth_stopped f then ''cpu-throughput-no-gain''
      else if tc_inflight_adaptive c \<and> fb_inflight_growth_stopped f
      then ''inflight-throughput-no-gain''
      else if tc_batch_adaptive c
           \<and> re_maximum_batch_size operational < re_maximum_batch_size (tc_estimate c)
        \<or> tc_cpu_reducible c
           \<and> re_desired_cpu_threads operational < re_desired_cpu_threads (tc_estimate c)
        \<or> tc_inflight_adaptive c \<and> inflight < tc_inflight_limit c
      then ''healthy-slow-start''
      else if tc_backend c = BACKEND_ORB_VULKAN then ''gpu-first''
      else if tc_backend c = BACKEND_FIXED then ''fixed-envelope'' else ''cpu-selected'')"

text \<open>
  \<open>try_capability_locked\<close>. \<open>Inl\<close> is the \<open>false\<close> return with the Governor it leaves (the
  feedback entry may be new); \<open>Inr\<close> has the selection written.
\<close>

definition try_capability_locked ::
    "environment \<Rightarrow> resource_snapshot \<Rightarrow> string \<Rightarrow> u32 \<Rightarrow> task_capability \<Rightarrow> nat \<Rightarrow> bool
      \<Rightarrow> memory_floors \<Rightarrow> 'a feedback_governor_scheme
      \<Rightarrow> 'a feedback_governor_scheme + 'a feedback_governor_scheme \<times> capability_selection" where
  "try_capability_locked env snapshot kind version c index update_pressure floors g =
     (case capability_feedback_locked kind version (tc_backend c) True g of
        (g, None) \<Rightarrow> Inl g
      | (g, Some i) \<Rightarrow>
          let f = cg_feedback g ! i;
              uninitialised = (adaptive_capability c
                \<and> (fb_adaptive_cpu_limit f = 0 \<or> fb_adaptive_batch_limit f = 0
                   \<or> fb_adaptive_inflight_limit f = 0));
              f = (if uninitialised then reset_capability_throughput_feedback c f else f);
              g = update_feedback i (\<lambda>_. f) g;
              inflight = (if tc_inflight_adaptive c then fb_adaptive_inflight_limit f
                          else tc_inflight_limit c)
          in case charge_inflight c inflight (limited_estimate c f) of
            None \<Rightarrow> Inl g
          | Some operational \<Rightarrow>
              (case evaluate_locked env snapshot operational update_pressure floors g of
                None \<Rightarrow> Inl g
              | Some (g, d) \<Rightarrow>
                  let pressured = (adaptive_capability c \<and> g_pressure g \<noteq> PRESSURE_GREEN);
                      (d, inflight) = (if pressured then reduce_under_pressure c operational d inflight
                                       else (d, inflight));
                      f = (if pressured then reset_capability_throughput_feedback c f else f);
                      g = update_feedback i (\<lambda>_. f) g
                  in case charge_inflight c inflight operational of
                    None \<Rightarrow> Inl g
                  | Some operational \<Rightarrow>
                      let d = (if decision_grants d \<and> \<not> tc_cpu_reducible c
                                 \<and> rd_cpu_threads d \<noteq> re_desired_cpu_threads (tc_estimate c)
                               then wait (''Le compte CPU fixe n'' @ [CHR 0x27]
                                      @ ''est pas disponible.'') else d);
                          s = \<lparr>cs_capability_index = index, cs_capability = c,
                                cs_reservation_estimate = operational, cs_decision = d,
                                cs_inflight_limit = inflight, cs_pressure = g_pressure g,
                                cs_reason = []\<rparr>
                      in Inr (g, if decision_grants d
                              then selection_reason
                                (granted_reason (g_pressure g) c operational inflight f) s
                              else s)))"

definition capability_hardware_safe_locked :: "'a governor_scheme \<Rightarrow> task_capability \<Rightarrow> bool" where
  "capability_hardware_safe_locked g c \<longleftrightarrow>
     tc_backend c = BACKEND_ORB_VULKAN \<and> hp_gpu_available (g_profile g)"

definition runtime_capability_available_locked ::
    "'a feedback_governor_scheme \<Rightarrow> task_capability \<Rightarrow> bool" where
  "runtime_capability_available_locked g c \<longleftrightarrow>
     \<not> tc_requires_runtime_backend c
     \<or> cg_orb_vulkan_backend_available g \<and> capability_hardware_safe_locked g c"

text \<open>The diagnostic an admission writes over the entry's previous one.\<close>

definition admission_diagnostic ::
    "string \<Rightarrow> u32 \<Rightarrow> capability_selection \<Rightarrow> reservation_info \<Rightarrow> host_telemetry
      \<Rightarrow> sequence_diagnostic \<Rightarrow> sequence_diagnostic" where
  "admission_diagnostic kind version s information host previous =
     zero_diagnostic\<lparr>sd_task_kind_version := version,
       sd_backend := tc_backend (cs_capability s),
       sd_actual_backend := tc_backend (cs_capability s),
       sd_previous_wall_time_ns := sd_previous_wall_time_ns previous,
       sd_items_completed := sd_items_completed previous,
       sd_durable_items_per_second_milli := sd_durable_items_per_second_milli previous,
       sd_execution := sd_execution previous,
       sd_batch_size := rd_batch_size (cs_decision s),
       sd_inflight_limit := cs_inflight_limit s,
       sd_helper_limit := tc_helper_limit (cs_capability s),
       sd_memory_bytes := ri_memory_bytes information,
       sd_gpu_memory_bytes := ri_gpu_memory_bytes information,
       sd_cpu_threads := rd_cpu_threads (cs_decision s),
       sd_gpu_slots := rd_gpu_slots (cs_decision s),
       sd_io_slots := rd_io_slots (cs_decision s),
       sd_pressure := cs_pressure s, sd_host := host,
       sd_task_kind := copy_text TASK_KIND_CAPACITY kind,
       sd_reason := copy_text DIAGNOSTIC_REASON_CAPACITY (cs_reason s),
       sd_backend_reason := ''selected-backend-executing''\<rparr>"

text \<open>What the search over the envelope has seen so far.\<close>

record capability_search =
  sr_pressure_updated :: bool
  sr_saw_wait :: bool
  sr_evaluated :: bool
  sr_last :: capability_selection

definition zero_decision :: resource_decision where
  "zero_decision = \<lparr>rd_kind = RESOURCE_START, rd_batch_size = 0, rd_cpu_threads = 0,
     rd_gpu_slots = 0, rd_io_slots = 0, rd_reason = []\<rparr>"

definition zero_estimate :: resource_estimate where
  "zero_estimate = \<lparr>re_memory_fixed_bytes = 0, re_gpu_memory_fixed_bytes = 0,
     re_memory_bytes_per_item = 0, re_gpu_memory_bytes_per_item = 0,
     re_minimum_batch_size = 0, re_maximum_batch_size = 0, re_desired_cpu_threads = 0,
     re_desired_gpu_slots = 0, re_desired_io_slots = 0, re_task_class = RESOURCE_TASK_GENERAL\<rparr>"

definition zero_selection :: capability_selection where
  "zero_selection = \<lparr>cs_capability_index = 0,
     cs_capability = \<lparr>tc_estimate = zero_estimate, tc_backend = BACKEND_FIXED,
       tc_inflight_limit = 0, tc_minimum_inflight_limit = 0,
       tc_gpu_memory_bytes_per_inflight = 0, tc_helper_limit = 0, tc_preferred = False,
       tc_cpu_reducible = False, tc_batch_adaptive = False, tc_cpu_batch_coupled = False,
       tc_sustained_gpu_batch_feedback = False, tc_inflight_adaptive = False,
       tc_requires_runtime_backend = False\<rparr>,
     cs_reservation_estimate = zero_estimate, cs_decision = zero_decision,
     cs_inflight_limit = 0, cs_pressure = PRESSURE_GREEN, cs_reason = []\<rparr>"

text \<open>The two passes over the envelope, preferred capabilities first, with their indexes.\<close>

definition search_order :: "capability_envelope \<Rightarrow> (nat \<times> task_capability) list" where
  "search_order envelope =
     filter (\<lambda>(i, c). tc_preferred c) (enumerate 0 envelope)
     @ filter (\<lambda>(i, c). \<not> tc_preferred c) (enumerate 0 envelope)"

text \<open>A granted candidate is activated and recorded; \<open>Inl\<close>: the activation failed.\<close>

definition grant_capability ::
    "environment \<Rightarrow> string \<Rightarrow> u32 \<Rightarrow> nat \<Rightarrow> nat \<Rightarrow> capability_selection
      \<Rightarrow> 'a feedback_governor_scheme
      \<Rightarrow> 'a feedback_governor_scheme
         + 'a feedback_governor_scheme \<times> capability_selection \<times> nat" where
  "grant_capability env kind version envelope_count index candidate g =
     (let candidate = (if tc_backend (cs_capability candidate) = BACKEND_CPU
                         \<and> envelope_count > 1 \<and> index \<noteq> 0
                       then selection_reason ''cpu-fallback-gpu-non-admitted'' candidate
                       else candidate)
      in case activate_reservation_locked env (cs_reservation_estimate candidate)
               (cs_decision candidate) g of
        None \<Rightarrow> Inl g
      | Some (g, created) \<Rightarrow>
          (case capability_feedback_locked kind version (tc_backend (cs_capability candidate)) True g of
            (g, None) \<Rightarrow> Inl g
          | (g, Some i) \<Rightarrow>
              let f = cg_feedback g ! i;
                  f = f\<lparr>fb_diagnostic := admission_diagnostic kind version candidate
                         (rv_information (hd (g_active g))) (cg_host_telemetry g)
                         (fb_diagnostic f)\<rparr>;
                  g = update_feedback i (\<lambda>_. f) g;
                  g = update_feedback i (aggregate_admission (cg_feedback g) candidate) g
              in Inr (advance_diagnostic_serial_locked i g, candidate, created)))"

datatype 'g search_result =
  SEARCH_FAILED 'g
| SEARCH_GRANTED 'g capability_selection nat
| SEARCH_EXHAUSTED 'g capability_search

fun search_capabilities ::
    "environment \<Rightarrow> resource_snapshot \<Rightarrow> string \<Rightarrow> u32 \<Rightarrow> nat \<Rightarrow> memory_floors
      \<Rightarrow> (nat \<times> task_capability) list \<Rightarrow> capability_search \<Rightarrow> 'a feedback_governor_scheme
      \<Rightarrow> 'a feedback_governor_scheme search_result" where
  "search_capabilities env snapshot kind version n floors [] sr g = SEARCH_EXHAUSTED g sr"
| "search_capabilities env snapshot kind version n floors ((index, c) # rest) sr g =
     (if \<not> runtime_capability_available_locked g c
      then search_capabilities env snapshot kind version n floors rest sr g
      else case try_capability_locked env snapshot kind version c index
                  (\<not> sr_pressure_updated sr) floors g of
        Inl g \<Rightarrow> SEARCH_FAILED g
      | Inr (g, candidate) \<Rightarrow>
          if decision_grants (cs_decision candidate)
          then (case grant_capability env kind version n index candidate g of
            Inl g \<Rightarrow> SEARCH_FAILED g
          | Inr (g, selection, created) \<Rightarrow> SEARCH_GRANTED g selection created)
          else search_capabilities env snapshot kind version n floors rest
            \<lparr>sr_pressure_updated = True,
              sr_saw_wait = (sr_saw_wait sr \<or> rd_kind (cs_decision candidate) = RESOURCE_WAIT),
              sr_evaluated = True, sr_last = candidate\<rparr> g)"

record capability_result =
  cr_ok :: bool
  cr_selection :: "capability_selection option"
  cr_reservation :: "nat option"

definition refused_selection :: "capability_search \<Rightarrow> pressure \<Rightarrow> capability_selection" where
  "refused_selection sr pressure =
     (let last_selection = sr_last sr;
          last_selection =
            (if \<not> sr_evaluated sr
             then selection_reason ''no-runtime-capability''
               (last_selection\<lparr>cs_decision := reject (''Aucune capacit'' @ e_acute @ '' d''
                  @ [CHR 0x27] @ ''ex'' @ e_acute @ ''cution disponible.'')\<rparr>)
             else if sr_saw_wait sr
             then selection_reason ''all-capabilities-wait''
               (last_selection\<lparr>cs_decision := wait (''Aucune capacit'' @ e_acute @ '' n''
                  @ [CHR 0x27] @ ''est actuellement admissible.'')\<rparr>)
             else last_selection)
      in last_selection\<lparr>cs_pressure := pressure\<rparr>)"

definition reserve_capability ::
    "environment \<Rightarrow> resource_snapshot \<Rightarrow> string \<Rightarrow> u32 \<Rightarrow> capability_envelope
      \<Rightarrow> 'a feedback_governor_scheme \<Rightarrow> 'a feedback_governor_scheme \<times> capability_result" where
  "reserve_capability env snapshot kind version envelope g =
     (let failed = \<lparr>cr_ok = False, cr_selection = None, cr_reservation = None\<rparr>;
          feedback_kind = (if kind \<noteq> [] then kind else ''task.untyped'')
      in if \<not> valid_capability_envelope envelope then (g, failed)
      else if \<not> ev_alloc env then (g, failed)
      else if \<not> valid_snapshot (g_profile g) snapshot then (g, failed)
      else case search_capabilities env snapshot feedback_kind version (length envelope)
                  (internal_memory_floors_locked g) (search_order envelope)
                  \<lparr>sr_pressure_updated = False, sr_saw_wait = False, sr_evaluated = False,
                    sr_last = zero_selection\<rparr> g of
        SEARCH_FAILED g \<Rightarrow> (g, failed)
      | SEARCH_GRANTED g selection created \<Rightarrow>
          (g, \<lparr>cr_ok = True, cr_selection = Some selection, cr_reservation = Some created\<rparr>)
      | SEARCH_EXHAUSTED g sr \<Rightarrow>
          (g, \<lparr>cr_ok = True, cr_selection = Some (refused_selection sr (g_pressure g)),
                cr_reservation = None\<rparr>))"

text \<open>
  \<open>internal_reserve_capability_available\<close>; \<open>telemetry\<close> is what \<open>capture_host_telemetry\<close>
  leaves in the Governor.
\<close>

definition reserve_capability_available ::
    "environment \<Rightarrow> host_telemetry \<Rightarrow> string \<Rightarrow> u32 \<Rightarrow> capability_envelope
      \<Rightarrow> 'a feedback_governor_scheme \<Rightarrow> 'a feedback_governor_scheme \<times> capability_result" where
  "reserve_capability_available env telemetry kind version envelope g =
     (let failed = \<lparr>cr_ok = False, cr_selection = None, cr_reservation = None\<rparr> in
      if g_internal_force_capture_failure g then (g, failed)
      else
        let g = g\<lparr>cg_host_telemetry := telemetry\<rparr> in
        case ev_capture env of
          None \<Rightarrow> (g, failed)
        | Some snapshot \<Rightarrow> reserve_capability env snapshot kind version envelope g)"

end
