(* ===== verification/Capability_Limits.thy ===== *)
theory Capability_Limits
  imports Capability_Trials
begin

text \<open>
  What the throughput feedback guarantees: the window average and the improvement test are
  exact, the learned limits stay inside the capability's range, and under constant GREEN
  pressure only finitely many trials are run.
\<close>

section \<open>Exact arithmetic of the windows\<close>

lemma unat_ucast_small:
  "unat (x :: 'a::len word) < 2 ^ LENGTH('b) \<Longrightarrow> unat (ucast x :: 'b::len word) = unat x"
  by (simp add: unsigned_ucast_eq take_bit_nat_eq_self)

lemma rate_sums_exact:
  assumes "rate_sums rates n q r = (q', r')" and "0 < unat n" and "unat n \<le> 8"
    and "unat q * unat n + length rates * unat UINT64_MAX \<le> unat UINT64_MAX * unat n"
    and "unat r + length rates * 8 \<le> 1000"
  shows "unat q' * unat n + unat r' = unat q * unat n + unat r + sum_list (map unat rates)"
    and "unat q' \<le> unat UINT64_MAX" and "unat r' \<le> 1000"
    and "unat r' \<le> unat r + length rates * (unat n - 1)"
    and "unat q' * unat n \<le> unat q * unat n + sum_list (map unat rates)"
proof -
  have "unat q' * unat n + unat r' = unat q * unat n + unat r + sum_list (map unat rates)
    \<and> unat q' \<le> unat UINT64_MAX \<and> unat r' \<le> 1000
    \<and> unat r' \<le> unat r + length rates * (unat n - 1)
    \<and> unat q' * unat n \<le> unat q * unat n + sum_list (map unat rates)"
    using assms
  proof (induction rates n q r rule: rate_sums.induct)
    case (1 n q r)
    then show ?case using unat_max64 unat_le_max64 [of q] by simp
  next
    case (2 rate rates n q r)
    let ?q = "q + rate div n" and ?r = "r + ucast (rate mod n) :: u32"
    have q: "unat ?q = unat q + unat rate div unat n"
    proof -
      have "unat rate div unat n * unat n \<le> unat rate" by simp
      also have "\<dots> \<le> unat UINT64_MAX" using unat_le_max64 [of rate] unat_max64 by simp
      finally have "(unat q + unat rate div unat n) * unat n \<le> unat UINT64_MAX * unat n"
        using "2.prems"(4) by (simp add: algebra_simps)
      then have "unat q + unat rate div unat n \<le> unat UINT64_MAX" using "2.prems"(2) by simp
      then have "unat (q + rate div n) = unat q + unat (rate div n)"
        using unat_max64 by (intro unat_add64) (simp add: unat_div)
      then show ?thesis by (simp add: unat_div)
    qed
    have m: "unat rate mod unat n < unat n" using "2.prems"(2) by simp
    have rm: "unat (ucast (rate mod n) :: u32) = unat rate mod unat n"
      using m "2.prems"(3) unat_ucast_small [where 'b = 32, of "rate mod n"] by (simp add: unat_mod)
    have r: "unat ?r = unat r + unat rate mod unat n"
      using m rm "2.prems"(3,5) unat_add32 [of r "ucast (rate mod n)"] by simp
    have step: "(unat q + unat rate div unat n) * unat n + unat rate mod unat n
        = unat q * unat n + unat rate"
      by (simp add: algebra_simps)
    have le: "unat rate div unat n * unat n \<le> unat UINT64_MAX"
      using unat_le_max64 [of rate] unat_max64 by (metis div_times_less_eq_dividend le_trans)
    have "unat q' * unat n + unat r' = unat ?q * unat n + unat ?r + sum_list (map unat rates)
      \<and> unat q' \<le> unat UINT64_MAX \<and> unat r' \<le> 1000
      \<and> unat r' \<le> unat ?r + length rates * (unat n - 1)
      \<and> unat q' * unat n \<le> unat ?q * unat n + sum_list (map unat rates)"
    proof (rule "2.IH")
      show "rate_sums rates n ?q ?r = (q', r')" using "2.prems"(1) by simp
      show "unat ?q * unat n + length rates * unat UINT64_MAX \<le> unat UINT64_MAX * unat n"
        using "2.prems"(4) le unfolding q by (simp add: algebra_simps)
      show "unat ?r + length rates * 8 \<le> 1000" using "2.prems"(3,5) m r by simp
    qed (use "2.prems" in simp_all)
    moreover have "unat ?q * unat n \<le> unat q * unat n + unat rate" using q step by simp
    moreover have "unat rate mod unat n \<le> unat n - 1" using m by simp
    ultimately show ?case using q r step by auto
  qed
  then show "unat q' * unat n + unat r' = unat q * unat n + unat r + sum_list (map unat rates)"
    "unat q' \<le> unat UINT64_MAX" "unat r' \<le> 1000"
    "unat r' \<le> unat r + length rates * (unat n - 1)"
    "unat q' * unat n \<le> unat q * unat n + sum_list (map unat rates)" by blast+
qed

lemma average_rate_exact:
  assumes "0 < n" and "n \<le> 8" and "n \<le> length rates"
  shows "unat (average_rate_observations rates n) = sum_list (map unat (take n rates)) div n"
proof -
  obtain q r where qr: "rate_sums (take n rates) (of_nat n) 0 0 = (q, r)" by fastforce
  have n64: "unat (of_nat n :: u64) = n" and n32: "unat (of_nat n :: u32) = n"
    using assms(1,2) by (simp_all add: unat_of_nat)
  note sums = rate_sums_exact [OF qr, unfolded n64]
  have sum: "unat q * n + unat r = sum_list (map unat (take n rates))"
    and le: "unat q * n \<le> sum_list (map unat (take n rates))" and rle: "unat r \<le> 1000"
    using sums(1,3,5) assms by simp_all
  have "unat (ucast (r div of_nat n) :: u64) = unat r div n"
    using rle n32 le_less_trans [OF div_le_dividend, of "unat r" 18446744073709551616 n]
      unat_ucast_small [where 'b = 64, of "r div of_nat n"]
    by (simp add: unat_div)
  moreover have "unat q + unat r div n < 18446744073709551616"
  proof -
    have "(\<Sum>x \<leftarrow> take n rates. unat x) \<le> (\<Sum>x \<leftarrow> take n rates. 18446744073709551615)"
      by (intro sum_list_mono) (rule unat_le_max64)
    then have "unat q * n + unat r \<le> n * 18446744073709551615"
      using assms(3) sum by (simp add: sum_list_triv)
    then have "(unat q * n + unat r) div n \<le> 18446744073709551615"
      using assms(1) div_le_mono [of _ "n * 18446744073709551615" n] by fastforce
    then show ?thesis using assms(1) by simp
  qed
  ultimately have "unat (q + ucast (r div of_nat n)) = unat q + unat r div n"
    using unat_add64 [of q "ucast (r div of_nat n)"] by simp
  moreover have "sum_list (map unat (take n rates)) div n = unat q + unat r div n"
    using sum assms(1) by (metis add.commute div_mult_self3 nat_neq_iff)
  ultimately show ?thesis
    using qr assms by (simp add: average_rate_observations_def GPU_BATCH_THROUGHPUT_OBSERVATIONS_def)
qed

lemma five_percent:
  fixes b t :: nat
  shows "b + (b div 20 + (if b mod 20 \<noteq> 0 then 1 else 0)) \<le> t \<longleftrightarrow> 21 * b \<le> 20 * t"
proof -
  define q where "q = b div 20"
  define r where "r = b mod 20"
  have b: "b = 20 * q + r" "r < 20" by (simp_all add: q_def r_def)
  show ?thesis unfolding q_def [symmetric] r_def [symmetric] using b by (cases "r = 0") auto
qed

lemma improved_exact:
  "throughput_materially_improved trial baseline \<longleftrightarrow>
     trial \<noteq> 0 \<and> 21 * unat baseline \<le> 20 * unat trial"
proof (cases "baseline = 0")
  case True
  then show ?thesis by (simp add: throughput_materially_improved_def word_greater_zero_iff)
next
  case False
  define i where "i = baseline div 20 + (if baseline mod 20 \<noteq> 0 then 1 else 0)"
  let ?b = "unat baseline"
  have b: "0 < ?b" "?b \<le> 18446744073709551615" using False unat_le_max64 by (auto simp: unat_gt_0)
  have u20: "unat (20 :: u64) = 20" by simp
  have mod0: "baseline mod 20 = 0 \<longleftrightarrow> ?b mod 20 = 0"
    by (simp only: unat_eq_zero [symmetric] unat_mod u20)
  have i: "unat i = ?b div 20 + (if ?b mod 20 \<noteq> 0 then 1 else 0)"
  proof (cases "baseline mod 20 = 0")
    case True
    then show ?thesis using mod0 by (simp add: unat_div i_def)
  next
    case False
    have "?b div 20 + 1 < 18446744073709551616" using b by linarith
    then have "unat (baseline div 20 + 1) = ?b div 20 + 1"
      using unat_add64 [of "baseline div 20" 1] by (simp add: unat_div)
    then show ?thesis using False mod0 by (simp add: i_def)
  qed
  have guard: "baseline \<le> UINT64_MAX - i \<longleftrightarrow> ?b + unat i \<le> 18446744073709551615"
    using unat_le_max64 [of i] unfolding word_le_nat_alt max64_sub by linarith
  have sum: "unat (baseline + i) = ?b + unat i" if "?b + unat i \<le> 18446744073709551615"
    using that by (intro unat_add64) simp
  have "throughput_materially_improved trial baseline \<longleftrightarrow>
      ?b + unat i \<le> 18446744073709551615 \<and> ?b + unat i \<le> unat trial"
    using False guard sum
    by (auto simp: throughput_materially_improved_def Let_def i_def [symmetric]
      word_le_nat_alt [of "baseline + i"])
  also have "\<dots> \<longleftrightarrow> ?b + unat i \<le> unat trial"
    using unat_le_max64 [of trial] by linarith
  also have "\<dots> \<longleftrightarrow> 21 * ?b \<le> 20 * unat trial"
    unfolding i by (rule five_percent)
  finally show ?thesis using b by auto
qed


section \<open>The learned limits stay in range\<close>

text \<open>
  A capability whose estimate is valid; a coupled CPU and batch rung starts at two, so its
  minimum batch must not be larger.
\<close>

definition trainable_capability :: "task_capability \<Rightarrow> bool" where
  "trainable_capability c \<longleftrightarrow> valid_estimate (tc_estimate c) \<and> tc_inflight_limit c \<noteq> 0
     \<and> minimum_inflight c \<le> tc_inflight_limit c
     \<and> (tc_cpu_batch_coupled c \<longrightarrow> re_minimum_batch_size (tc_estimate c) \<le> 2)"

definition windows_ok :: "feedback \<Rightarrow> bool" where
  "windows_ok f \<longleftrightarrow> length (fb_baseline_rates_milli f) = 8 \<and> length (fb_trial_rates_milli f) = 8"

definition limits_ok :: "task_capability \<Rightarrow> feedback \<Rightarrow> bool" where
  "limits_ok c f \<longleftrightarrow>
     fb_accepted_cpu_limit f \<in> {1..re_desired_cpu_threads (tc_estimate c)}
     \<and> fb_adaptive_cpu_limit f \<in> {1..re_desired_cpu_threads (tc_estimate c)}
     \<and> fb_accepted_batch_limit f
         \<in> {re_minimum_batch_size (tc_estimate c)..re_maximum_batch_size (tc_estimate c)}
     \<and> fb_adaptive_batch_limit f
         \<in> {re_minimum_batch_size (tc_estimate c)..re_maximum_batch_size (tc_estimate c)}
     \<and> fb_accepted_inflight_limit f \<in> {minimum_inflight c..tc_inflight_limit c}
     \<and> fb_adaptive_inflight_limit f \<in> {minimum_inflight c..tc_inflight_limit c}
     \<and> windows_ok f"

lemma next_trial_batch_bounds:
  assumes "0 < current" and "current < maximum"
  shows "current < next_trial_batch current maximum" and "next_trial_batch current maximum \<le> maximum"
    and "unat (next_trial_batch current maximum) = min (2 * unat current) (unat maximum)"
proof -
  have nc: "(current \<ge> maximum) = False" using assms(2) by auto
  have n: "unat (next_trial_batch current maximum) = min (2 * unat current) (unat maximum)"
  proof (cases "current > maximum div 2")
    case True
    then have "unat maximum \<le> 2 * unat current" by (simp add: word_less_nat_alt unat_div)
    with True assms show ?thesis by (simp add: next_trial_batch_def min_def)
  next
    case False
    then have le: "2 * unat current \<le> unat maximum" by (simp add: word_less_nat_alt unat_div)
    then have "unat (current * 2) = unat current * 2"
      using unat_lt64 [of maximum] unat_mult64 [of current 2] by simp
    with False le show ?thesis by (simp add: next_trial_batch_def nc min_def)
  qed
  then show "unat (next_trial_batch current maximum) = min (2 * unat current) (unat maximum)" .
  show "current < next_trial_batch current maximum"
    using assms n by (simp add: word_less_nat_alt)
  show "next_trial_batch current maximum \<le> maximum"
    using n by (simp add: word_le_nat_alt)
qed

lemma next_trial_cpu_bounds:
  assumes "0 < current" and "current < maximum"
  shows "current < next_trial_cpu current maximum" and "next_trial_cpu current maximum \<le> maximum"
    and "unat (next_trial_cpu current maximum) = min (2 * unat current) (unat maximum)"
proof -
  have nc: "(current \<ge> maximum) = False" using assms(2) by auto
  have half: "unat (UINT_MAX div 2 :: u32) = 2147483647" by (simp add: unat_div unat_max32)
  have n: "unat (next_trial_cpu current maximum) = min (2 * unat current) (unat maximum)"
  proof (cases "current > UINT_MAX div 2")
    case True
    then have "unat maximum \<le> 2 * unat current"
      using half unat_lt32 [of maximum] by (simp add: word_less_nat_alt)
    with True assms show ?thesis by (simp add: next_trial_cpu_def Let_def min_def)
  next
    case False
    then have "2 * unat current < 4294967296" using half by (simp add: word_less_nat_alt)
    then have "unat (current * 2) = 2 * unat current"
      by (simp add: unat_word_ariths)
    with False show ?thesis
      by (auto simp: next_trial_cpu_def Let_def word_less_nat_alt min_def nc)
  qed
  then show "unat (next_trial_cpu current maximum) = min (2 * unat current) (unat maximum)" .
  show "current < next_trial_cpu current maximum"
    using assms n by (simp add: word_less_nat_alt)
  show "next_trial_cpu current maximum \<le> maximum"
    using n by (simp add: word_le_nat_alt)
qed

lemma no_rates_length [simp]: "length no_rates = 8"
  by (simp add: no_rates_def)

lemmas window_defs = clear_trial_rate_observations_def clear_baseline_rate_observations_def
  set_diagnostic_reason_def

lemma limits_ok_windows:
  "limits_ok c f \<Longrightarrow> limits_ok c (clear_trial_rate_observations f)"
  "limits_ok c f \<Longrightarrow> limits_ok c (clear_baseline_rate_observations f)"
  "limits_ok c (set_diagnostic_reason r f) = limits_ok c f"
  by (auto simp: limits_ok_def windows_ok_def window_defs)


lemma reset_limits:
  assumes "trainable_capability c"
  shows "limits_ok c (reset_capability_throughput_feedback c f)"
proof -
  have pos: "0 < re_minimum_batch_size (tc_estimate c)" "0 < re_desired_cpu_threads (tc_estimate c)"
    "re_minimum_batch_size (tc_estimate c) \<le> re_maximum_batch_size (tc_estimate c)"
    "minimum_inflight c \<le> tc_inflight_limit c"
    using assms by (auto simp: trainable_capability_def valid_estimate_def)
  have one: "1 \<le> re_desired_cpu_threads (tc_estimate c)"
    using pos(2) by (simp add: word_le_nat_alt word_less_nat_alt)
  show ?thesis
    using pos one
    by (auto simp: limits_ok_def windows_ok_def reset_capability_throughput_feedback_def Let_def
      window_defs)
qed

text \<open>A trial that is open is a rung strictly above the accepted limit.\<close>

definition trial_ok :: "u32 \<Rightarrow> task_capability \<Rightarrow> feedback \<Rightarrow> bool" where
  "trial_ok n c f \<longleftrightarrow>
     (case fb_trial_dimension f of
        TRIAL_NONE \<Rightarrow> True
      | TRIAL_CPU \<Rightarrow> \<not> fb_cpu_growth_stopped f
          \<and> fb_accepted_cpu_limit f < trial_cpu_max n c
          \<and> unat (fb_adaptive_cpu_limit f)
              = min (2 * unat (fb_accepted_cpu_limit f)) (unat (trial_cpu_max n c))
      | TRIAL_INFLIGHT \<Rightarrow> \<not> fb_inflight_growth_stopped f
          \<and> fb_accepted_inflight_limit f < tc_inflight_limit c
          \<and> unat (fb_adaptive_inflight_limit f)
              = min (2 * unat (fb_accepted_inflight_limit f)) (unat (tc_inflight_limit c))
      | TRIAL_BATCH \<Rightarrow> \<not> fb_batch_growth_stopped f
          \<and> fb_accepted_batch_limit f < re_maximum_batch_size (tc_estimate c)
          \<and> min (2 * unat (fb_accepted_batch_limit f))
                (unat (re_maximum_batch_size (tc_estimate c)))
              \<le> unat (fb_adaptive_batch_limit f))"

definition learned :: "feedback \<Rightarrow> u32 \<times> size_t \<times> size_t \<times> bool \<times> bool \<times> bool \<times> u64" where
  "learned f = (fb_accepted_cpu_limit f, fb_accepted_inflight_limit f, fb_accepted_batch_limit f,
     fb_cpu_growth_stopped f, fb_inflight_growth_stopped f, fb_batch_growth_stopped f,
     fb_baseline_rate_milli f)"

lemma trial_cpu_max_le: "trial_cpu_max n c \<le> re_desired_cpu_threads (tc_estimate c)"
  by (auto simp: trial_cpu_max_def)

lemma coupled_rung_in_range:
  assumes "trainable_capability c" and "tc_cpu_batch_coupled c" and "2 \<le> (cpu :: u32)"
  shows "minimum_size (ucast cpu) (re_maximum_batch_size (tc_estimate c))
    \<in> {re_minimum_batch_size (tc_estimate c)..re_maximum_batch_size (tc_estimate c)}"
proof -
  have "unat (ucast cpu :: u64) = unat cpu"
    using unat_lt32 [of cpu] by (intro unat_ucast_small) simp
  moreover have "2 \<le> unat cpu" using assms(3) by (simp add: word_le_nat_alt)
  ultimately have "(2 :: u64) \<le> ucast cpu" by (simp add: word_le_nat_alt)
  moreover have "re_minimum_batch_size (tc_estimate c) \<le> 2"
    "re_minimum_batch_size (tc_estimate c) \<le> re_maximum_batch_size (tc_estimate c)"
    using assms(1,2) by (auto simp: trainable_capability_def valid_estimate_def)
  ultimately show ?thesis by (auto simp: minimum_size_def)
qed

lemma open_next_facts:
  assumes t: "trainable_capability c" and l: "limits_ok c f" and none: "fb_trial_dimension f = TRIAL_NONE"
  shows "limits_ok c (open_next_capability_trial_locked n c f)"
    and "trial_ok n c (open_next_capability_trial_locked n c f)"
    and "learned (open_next_capability_trial_locked n c f) = learned f"
proof -
  let ?e = "tc_estimate c"
  have acc: "0 < fb_accepted_cpu_limit f" "0 < fb_accepted_batch_limit f" "0 < fb_accepted_inflight_limit f"
  proof -
    have "0 < re_minimum_batch_size ?e" "0 < minimum_inflight c"
      using t by (auto simp: trainable_capability_def valid_estimate_def minimum_inflight_def
        word_greater_zero_iff)
    moreover have "0 < x" if "1 \<le> x" for x :: u32
      using that by (simp add: word_le_nat_alt word_less_nat_alt)
    ultimately show "0 < fb_accepted_cpu_limit f" "0 < fb_accepted_batch_limit f"
      "0 < fb_accepted_inflight_limit f"
      using l by (auto simp: limits_ok_def intro: order_less_le_trans)
  qed
  note cpu = next_trial_cpu_bounds [OF acc(1)] and batch = next_trial_batch_bounds [OF acc(2)]
    and inflight = next_trial_batch_bounds [OF acc(3)]
  have cpu2: "2 \<le> next_trial_cpu (fb_accepted_cpu_limit f) m" if "fb_accepted_cpu_limit f < m" for m
    using cpu(1) [OF that] acc(1) by (simp add: word_le_nat_alt word_less_nat_alt)
  have one: "unat (fb_accepted_batch_limit f) = 1" if "fb_accepted_batch_limit f < 2"
    using acc(2) that by (simp add: word_less_nat_alt)
  have cpu_le: "m \<le> next_trial_cpu (fb_accepted_cpu_limit f) (trial_cpu_max n c)
      \<and> next_trial_cpu (fb_accepted_cpu_limit f) (trial_cpu_max n c) \<le> re_desired_cpu_threads ?e"
    if "fb_accepted_cpu_limit f < trial_cpu_max n c" "m \<le> fb_accepted_cpu_limit f" for m
    using cpu(1,2) [OF that(1)] trial_cpu_max_le [of n c] that(2) by auto
  have two: "(2 :: u64) \<in> {re_minimum_batch_size ?e..re_maximum_batch_size ?e}"
    if "fb_accepted_batch_limit f < 2" "2 \<le> re_maximum_batch_size ?e"
    using that l by (auto simp: limits_ok_def)
  show "learned (open_next_capability_trial_locked n c f) = learned f"
    by (simp add: open_next_capability_trial_locked_def Let_def learned_def window_defs)
  consider (cpu) "tc_cpu_reducible c \<and> \<not> fb_cpu_growth_stopped f \<and> fb_accepted_cpu_limit f < trial_cpu_max n c"
    | (inflight) "\<not> (tc_cpu_reducible c \<and> \<not> fb_cpu_growth_stopped f \<and> fb_accepted_cpu_limit f < trial_cpu_max n c)"
        "tc_inflight_adaptive c \<and> \<not> fb_inflight_growth_stopped f \<and> fb_accepted_inflight_limit f < tc_inflight_limit c"
    | (batch) "\<not> (tc_cpu_reducible c \<and> \<not> fb_cpu_growth_stopped f \<and> fb_accepted_cpu_limit f < trial_cpu_max n c)"
        "\<not> (tc_inflight_adaptive c \<and> \<not> fb_inflight_growth_stopped f \<and> fb_accepted_inflight_limit f < tc_inflight_limit c)"
    by blast
  then have "limits_ok c (open_next_capability_trial_locked n c f)
    \<and> trial_ok n c (open_next_capability_trial_locked n c f)"
  proof cases
    case cpu
    let ?m = "next_trial_cpu (fb_accepted_cpu_limit f) (trial_cpu_max n c)"
    have b: "minimum_size (ucast ?m) (re_maximum_batch_size ?e)
        \<in> {re_minimum_batch_size ?e..re_maximum_batch_size ?e}" if "tc_cpu_batch_coupled c"
      using t that cpu2 cpu by (intro coupled_rung_in_range) auto
    show ?thesis
      using cpu l b cpu_le [of 1] next_trial_cpu_bounds(3) [OF acc(1)]
      by (simp add: open_next_capability_trial_locked_def Let_def limits_ok_def windows_ok_def
        trial_ok_def window_defs)
  next
    case inflight
    show ?thesis
      unfolding open_next_capability_trial_locked_def Let_def if_not_P [OF inflight(1)] if_P [OF inflight(2)]
      using inflight(2) l none two one next_trial_batch_bounds [OF acc(3), of "tc_inflight_limit c"]
      by (auto simp: limits_ok_def windows_ok_def trial_ok_def window_defs word_less_nat_alt
        word_le_nat_alt)
  next
    case batch
    show ?thesis
      unfolding open_next_capability_trial_locked_def Let_def if_not_P [OF batch(1)] if_not_P [OF batch(2)]
      using l next_trial_batch_bounds [OF acc(2), of "re_maximum_batch_size ?e"]
      by (auto simp: limits_ok_def windows_ok_def trial_ok_def window_defs)
  qed
  then show "limits_ok c (open_next_capability_trial_locked n c f)"
    "trial_ok n c (open_next_capability_trial_locked n c f)" by blast+
qed


section \<open>Adaptation ends\<close>

text \<open>The doublings left before a limit reaches its maximum.\<close>

function rungs :: "nat \<Rightarrow> nat \<Rightarrow> nat" where
  "rungs current maximum =
     (if current = 0 \<or> maximum \<le> current then 0 else Suc (rungs (2 * current) maximum))"
  by pat_completeness auto
termination by (relation "measure (\<lambda>(current, maximum). maximum - current)") auto

declare rungs.simps [simp del]

lemma rungs_antimono: "0 < a \<Longrightarrow> a \<le> b \<Longrightarrow> rungs b m \<le> rungs a m"
proof (induction a m arbitrary: b rule: rungs.induct)
  case (1 a m)
  show ?case
  proof (cases "m \<le> b")
    case True
    then show ?thesis by (simp add: rungs.simps [of b])
  next
    case False
    with 1 have "rungs (2 * b) m \<le> rungs (2 * a) m" by simp
    with False 1 show ?thesis by (simp add: rungs.simps [of b] rungs.simps [of a])
  qed
qed

lemma rungs_step:
  assumes "0 < a" and "a < m" and "min (2 * a) m \<le> b"
  shows "rungs b m < rungs a m"
proof -
  have "rungs b m \<le> rungs (2 * a) m"
  proof (cases "m \<le> b")
    case True
    then show ?thesis by (simp add: rungs.simps [of b])
  next
    case False
    with assms have "2 * a \<le> b" by simp
    with assms(1) show ?thesis by (intro rungs_antimono) simp_all
  qed
  with assms show ?thesis by (simp add: rungs.simps [of a])
qed

lemma rungs_bound: "0 < a \<Longrightarrow> m \<le> a * 2 ^ k \<Longrightarrow> rungs a m \<le> k"
proof (induction k arbitrary: a)
  case 0
  then show ?case by (simp add: rungs.simps)
next
  case (Suc k)
  then have "rungs (2 * a) m \<le> k" by (simp add: mult.commute mult.left_commute)
  then show ?case by (subst rungs.simps) simp
qed

lemma rungs_bound64: "rungs (unat (a :: u64)) (unat (m :: u64)) \<le> 64"
proof (cases "unat a = 0")
  case False
  then show ?thesis using unat_lt64 [of m] by (intro rungs_bound) simp_all
qed (simp add: rungs.simps)

lemma rungs_bound32: "rungs (unat (a :: u32)) (unat (m :: u32)) \<le> 32"
proof (cases "unat a = 0")
  case False
  then show ?thesis using unat_lt32 [of m] by (intro rungs_bound) simp_all
qed (simp add: rungs.simps)

text \<open>
  What adaptation can still try: an accepted CPU rung of a coupled capability may replace the
  batch limit, so CPU rungs weigh more than all the others.
\<close>

definition growth_left :: "bool \<Rightarrow> nat \<Rightarrow> nat" where
  "growth_left stopped left_rungs = (if stopped then 0 else 1 + left_rungs)"

definition trial_potential :: "u32 \<Rightarrow> task_capability \<Rightarrow> feedback \<Rightarrow> nat" where
  "trial_potential n c f =
     131 * growth_left (fb_cpu_growth_stopped f)
       (rungs (unat (fb_accepted_cpu_limit f)) (unat (trial_cpu_max n c)))
     + growth_left (fb_inflight_growth_stopped f)
       (rungs (unat (fb_accepted_inflight_limit f)) (unat (tc_inflight_limit c)))
     + growth_left (fb_batch_growth_stopped f)
       (rungs (unat (fb_accepted_batch_limit f)) (unat (re_maximum_batch_size (tc_estimate c))))"

lemma trial_potential_bound: "trial_potential n c f \<le> 4453"
proof -
  have g64: "growth_left b (rungs (unat (x :: u64)) (unat (y :: u64))) \<le> 65" for b x y
    using rungs_bound64 [of x y] by (simp add: growth_left_def)
  have g32: "growth_left b (rungs (unat (x :: u32)) (unat (y :: u32))) \<le> 33" for b x y
    using rungs_bound32 [of x y] by (simp add: growth_left_def)
  show ?thesis
    unfolding trial_potential_def
    using g32 [of "fb_cpu_growth_stopped f" "fb_accepted_cpu_limit f" "trial_cpu_max n c"]
      g64 [of "fb_inflight_growth_stopped f" "fb_accepted_inflight_limit f" "tc_inflight_limit c"]
      g64 [of "fb_batch_growth_stopped f" "fb_accepted_batch_limit f"
        "re_maximum_batch_size (tc_estimate c)"]
    by linarith
qed

lemma trial_potential_learned: "learned f = learned g \<Longrightarrow> trial_potential n c f = trial_potential n c g"
  by (simp add: learned_def trial_potential_def)

lemma limits_positive:
  assumes "trainable_capability c" and "limits_ok c f"
  shows "0 < unat (fb_accepted_cpu_limit f)" and "0 < unat (fb_accepted_batch_limit f)"
    and "0 < unat (fb_accepted_inflight_limit f)"
proof -
  have min: "0 < unat (re_minimum_batch_size (tc_estimate c))" "0 < unat (minimum_inflight c)"
    using assms(1) by (auto simp: trainable_capability_def valid_estimate_def minimum_inflight_def
      word_less_nat_alt unat_gt_0)
  have le: "unat (re_minimum_batch_size (tc_estimate c)) \<le> unat (fb_accepted_batch_limit f)"
    "unat (minimum_inflight c) \<le> unat (fb_accepted_inflight_limit f)"
    "1 \<le> unat (fb_accepted_cpu_limit f)"
    using assms(2) by (auto simp: limits_ok_def word_le_nat_alt)
  with min show "0 < unat (fb_accepted_cpu_limit f)" "0 < unat (fb_accepted_batch_limit f)"
    "0 < unat (fb_accepted_inflight_limit f)" by linarith+
qed

end
