(* ===== verification/Capability_Adaptation.thy ===== *)
theory Capability_Adaptation
  imports Capability_Limits
begin

text \<open>
  The throughput feedback as a whole: what one trained sequence does to the learned limits,
  and the properties of a run of sequences.
\<close>

section \<open>The end of a trial\<close>

definition trial_rate :: "task_capability \<Rightarrow> nat \<Rightarrow> feedback \<Rightarrow> u64" where
  "trial_rate c required f =
     (if tc_sustained_gpu_batch_feedback c \<and> fb_trial_dimension f = TRIAL_BATCH
      then average_rate_observations (fb_trial_rates_milli f) required
      else minimum_uint64 (fb_trial_rates_milli f ! 0) (fb_trial_rates_milli f ! 1))"

lemma learned_reason [simp]:
  "learned (set_diagnostic_reason r f) = learned f"
  "trial_ok n c (set_diagnostic_reason r f) = trial_ok n c f"
  "limits_ok c (set_diagnostic_reason r f) = limits_ok c f"
  "learned (clear_trial_rate_observations f) = learned f"
  "learned (clear_baseline_rate_observations f) = learned f"
  "trial_ok n c (clear_trial_rate_observations f) = trial_ok n c f"
  "trial_ok n c (clear_baseline_rate_observations f) = trial_ok n c f"
  by (auto simp: learned_def trial_ok_def limits_ok_def windows_ok_def window_defs
    split: trial_dimension.split)

lemma complete_trial_unfold:
  "complete_trial n c required f =
     (let improved = throughput_materially_improved (trial_rate c required f) (fb_baseline_rate_milli f);
          cleared = (clear_trial_rate_observations f)\<lparr>fb_trial_dimension := TRIAL_NONE\<rparr>;
          judged = (if improved
            then (accept_trial c (fb_trial_dimension f) cleared)
              \<lparr>fb_baseline_rate_milli := trial_rate c required f, fb_baseline_observations := required\<rparr>
            else refuse_trial (fb_trial_dimension f) cleared)
      in set_diagnostic_reason (trial_result_reason c (fb_trial_dimension f) improved)
           (open_next_capability_trial_locked n c judged))"
  by (simp add: complete_trial_def trial_rate_def Let_def window_defs)

lemma accept_limits:
  assumes "limits_ok c f" and "fb_trial_dimension f \<noteq> TRIAL_NONE"
  shows "limits_ok c ((accept_trial c d
      ((clear_trial_rate_observations f)\<lparr>fb_trial_dimension := TRIAL_NONE\<rparr>))
      \<lparr>fb_baseline_rate_milli := r, fb_baseline_observations := k\<rparr>)"
    and "limits_ok c (refuse_trial d
      ((clear_trial_rate_observations f)\<lparr>fb_trial_dimension := TRIAL_NONE\<rparr>))"
  using assms
  by (auto simp: accept_trial_def refuse_trial_def limits_ok_def windows_ok_def window_defs
    split: trial_dimension.split)

lemma accept_potential:
  assumes t: "trainable_capability c" and l: "limits_ok c f" and ok: "trial_ok n c f"
    and d: "fb_trial_dimension f \<noteq> TRIAL_NONE"
  defines "cleared \<equiv> (clear_trial_rate_observations f)\<lparr>fb_trial_dimension := TRIAL_NONE\<rparr>"
  shows "trial_potential n c ((accept_trial c (fb_trial_dimension f) cleared)
      \<lparr>fb_baseline_rate_milli := r, fb_baseline_observations := k\<rparr>) < trial_potential n c f"
    and "trial_potential n c (refuse_trial (fb_trial_dimension f) cleared) < trial_potential n c f"
proof -
  note pos = limits_positive [OF t l]
  have less: "rungs b m < rungs a m" if "0 < a" "a < m" "min (2 * a) m \<le> b" for a b m :: nat
    using rungs_step that by blast
  have cpu_weight: "growth_left s (rungs (unat (x :: u64)) (unat (y :: u64))) \<le> 65" for s x y
    using rungs_bound64 [of x y] by (simp add: growth_left_def)
  have cpu: "rungs (unat (fb_adaptive_cpu_limit f)) (unat (trial_cpu_max n c))
      < rungs (unat (fb_accepted_cpu_limit f)) (unat (trial_cpu_max n c))"
    if "fb_trial_dimension f = TRIAL_CPU"
    using ok that pos(1) by (intro less) (auto simp: trial_ok_def word_less_nat_alt)
  have inflight: "rungs (unat (fb_adaptive_inflight_limit f)) (unat (tc_inflight_limit c))
      < rungs (unat (fb_accepted_inflight_limit f)) (unat (tc_inflight_limit c))"
    if "fb_trial_dimension f = TRIAL_INFLIGHT"
    using ok that pos(3) by (intro less) (auto simp: trial_ok_def word_less_nat_alt)
  have batch: "rungs (unat (fb_adaptive_batch_limit f)) (unat (re_maximum_batch_size (tc_estimate c)))
      < rungs (unat (fb_accepted_batch_limit f)) (unat (re_maximum_batch_size (tc_estimate c)))"
    if "fb_trial_dimension f = TRIAL_BATCH"
    using ok that pos(2) by (intro less) (auto simp: trial_ok_def word_less_nat_alt)
  have coupled: "growth_left (fb_batch_growth_stopped f)
      (rungs (unat (fb_adaptive_batch_limit f)) (unat (re_maximum_batch_size (tc_estimate c)))) \<le> 65"
    by (rule cpu_weight)
  show "trial_potential n c ((accept_trial c (fb_trial_dimension f) cleared)
      \<lparr>fb_baseline_rate_milli := r, fb_baseline_observations := k\<rparr>) < trial_potential n c f"
    using d ok cpu inflight batch coupled
    by (cases "fb_trial_dimension f")
      (auto simp: accept_trial_def cleared_def trial_potential_def trial_ok_def window_defs
        growth_left_def)
  show "trial_potential n c (refuse_trial (fb_trial_dimension f) cleared) < trial_potential n c f"
    using d ok
    by (cases "fb_trial_dimension f")
      (auto simp: refuse_trial_def cleared_def trial_potential_def trial_ok_def window_defs
        growth_left_def)
qed

lemma complete_trial_facts:
  assumes "trainable_capability c" and "limits_ok c f" and "trial_ok n c f"
    and d: "fb_trial_dimension f \<noteq> TRIAL_NONE"
  shows "limits_ok c (complete_trial n c k f)" and "trial_ok n c (complete_trial n c k f)"
    and "trial_potential n c (complete_trial n c k f) < trial_potential n c f"
    and "fb_baseline_rate_milli (complete_trial n c k f) =
      (if throughput_materially_improved (trial_rate c k f) (fb_baseline_rate_milli f)
       then trial_rate c k f else fb_baseline_rate_milli f)"
    and "\<not> throughput_materially_improved (trial_rate c k f) (fb_baseline_rate_milli f) \<Longrightarrow>
      fb_accepted_cpu_limit (complete_trial n c k f) = fb_accepted_cpu_limit f
      \<and> fb_accepted_inflight_limit (complete_trial n c k f) = fb_accepted_inflight_limit f
      \<and> fb_accepted_batch_limit (complete_trial n c k f) = fb_accepted_batch_limit f"
proof -
  define improved where "improved = throughput_materially_improved (trial_rate c k f) (fb_baseline_rate_milli f)"
  define cleared where "cleared = (clear_trial_rate_observations f)\<lparr>fb_trial_dimension := TRIAL_NONE\<rparr>"
  define judged where "judged = (if improved
      then (accept_trial c (fb_trial_dimension f) cleared)
        \<lparr>fb_baseline_rate_milli := trial_rate c k f, fb_baseline_observations := k\<rparr>
      else refuse_trial (fb_trial_dimension f) cleared)"
  have eq: "complete_trial n c k f =
      set_diagnostic_reason (trial_result_reason c (fb_trial_dimension f) improved)
        (open_next_capability_trial_locked n c judged)"
    by (simp add: complete_trial_unfold Let_def improved_def cleared_def judged_def)
  have l: "limits_ok c judged"
    using accept_limits [OF assms(2) d] by (simp add: judged_def cleared_def)
  have none: "fb_trial_dimension judged = TRIAL_NONE"
    by (auto simp: judged_def cleared_def accept_trial_def refuse_trial_def split: trial_dimension.split)
  note facts = open_next_facts [OF assms(1) l none, of n]
  show "limits_ok c (complete_trial n c k f)" "trial_ok n c (complete_trial n c k f)"
    using facts by (simp_all add: eq)
  have "trial_potential n c (complete_trial n c k f) = trial_potential n c judged"
    by (rule trial_potential_learned) (simp add: eq facts(3))
  then show "trial_potential n c (complete_trial n c k f) < trial_potential n c f"
    using accept_potential [OF assms] by (simp add: judged_def cleared_def)
  have learned: "learned (complete_trial n c k f) = learned judged" by (simp add: eq facts(3))
  show "fb_baseline_rate_milli (complete_trial n c k f) =
      (if throughput_materially_improved (trial_rate c k f) (fb_baseline_rate_milli f)
       then trial_rate c k f else fb_baseline_rate_milli f)"
    using learned unfolding improved_def [symmetric]
    by (auto simp: learned_def judged_def cleared_def refuse_trial_def window_defs
      split: trial_dimension.split)
  show "fb_accepted_cpu_limit (complete_trial n c k f) = fb_accepted_cpu_limit f
      \<and> fb_accepted_inflight_limit (complete_trial n c k f) = fb_accepted_inflight_limit f
      \<and> fb_accepted_batch_limit (complete_trial n c k f) = fb_accepted_batch_limit f"
    if "\<not> throughput_materially_improved (trial_rate c k f) (fb_baseline_rate_milli f)"
    using learned that unfolding improved_def [symmetric]
    by (auto simp: learned_def judged_def cleared_def refuse_trial_def window_defs
      split: trial_dimension.split)
qed


section \<open>One trained sequence\<close>

definition observes :: "capability_selection \<Rightarrow> backend \<Rightarrow> feedback \<Rightarrow> bool" where
  "observes s actual f \<longleftrightarrow> cs_pressure s = PRESSURE_GREEN
     \<and> \<not> (tc_backend (cs_capability s) = BACKEND_ORB_VULKAN \<and> actual \<noteq> BACKEND_ORB_VULKAN)
     \<and> sd_durable_items_per_second_milli (fb_diagnostic f) \<noteq> 0"

text \<open>The sequence is the last observation the open trial waits for.\<close>

definition completes_trial :: "capability_selection \<Rightarrow> backend \<Rightarrow> feedback \<Rightarrow> bool" where
  "completes_trial s actual f \<longleftrightarrow> observes s actual f \<and> fb_trial_dimension f \<noteq> TRIAL_NONE
     \<and> trial_exercised s f
     \<and> (let required = required_throughput_observations (cs_capability s) (fb_trial_dimension f)
        in required \<le> fb_trial_observations
             (push_trial_rate required (sd_durable_items_per_second_milli (fb_diagnostic f)) f))"

lemma push_rate_keeps [simp]:
  "limits_ok c f \<Longrightarrow> limits_ok c (push_trial_rate k r f)"
  "limits_ok c f \<Longrightarrow> limits_ok c (push_baseline_rate k r f)"
  "trial_ok n c (push_trial_rate k r f) = trial_ok n c f"
  "trial_ok n c (push_baseline_rate k r f) = trial_ok n c f"
  "learned (push_trial_rate k r f) = learned f"
  "learned (push_baseline_rate k r f) = learned f"
  "fb_trial_dimension (push_trial_rate k r f) = fb_trial_dimension f"
  "fb_trial_dimension (push_baseline_rate k r f) = fb_trial_dimension f"
  by (auto simp: push_trial_rate_def push_baseline_rate_def Let_def limits_ok_def windows_ok_def
    trial_ok_def learned_def window_defs split: trial_dimension.split)

lemma observe_trial_facts:
  assumes "trainable_capability (cs_capability s)" and "limits_ok (cs_capability s) f"
    and "trial_ok n (cs_capability s) f" and "observes s actual f"
    and d: "fb_trial_dimension f \<noteq> TRIAL_NONE"
  defines "c \<equiv> cs_capability s"
  defines "k \<equiv> required_throughput_observations c (fb_trial_dimension f)"
  defines "g \<equiv> push_trial_rate k (sd_durable_items_per_second_milli (fb_diagnostic f)) f"
  shows "limits_ok c (observe_trial n s f)" and "trial_ok n c (observe_trial n s f)"
    and "completes_trial s actual f \<Longrightarrow> observe_trial n s f = complete_trial n c k g"
    and "\<not> completes_trial s actual f \<Longrightarrow> learned (observe_trial n s f) = learned f"
proof -
  have compl: "completes_trial s actual f \<longleftrightarrow> trial_exercised s f \<and> k \<le> fb_trial_observations g"
    using assms(4) d by (simp add: completes_trial_def Let_def k_def g_def c_def)
  have eq: "observe_trial n s f =
     (if \<not> trial_exercised s f
      then set_diagnostic_reason (trial_observation_reason c (fb_trial_dimension f))
        (if tc_sustained_gpu_batch_feedback c \<and> fb_trial_dimension f = TRIAL_BATCH
         then clear_trial_rate_observations f else f)
      else if fb_trial_observations g < k
      then set_diagnostic_reason (trial_observation_reason c (fb_trial_dimension f)) g
      else complete_trial n c k g)"
    by (simp add: observe_trial_def Let_def c_def k_def g_def)
  have g: "limits_ok c g" "trial_ok n c g" "fb_trial_dimension g \<noteq> TRIAL_NONE" "learned g = learned f"
    using assms(2,3) d by (simp_all add: g_def c_def)
  note facts = complete_trial_facts [OF assms(1) [folded c_def] g(1,2,3)]
  show "limits_ok c (observe_trial n s f)" "trial_ok n c (observe_trial n s f)"
    using facts g assms(2,3) limits_ok_windows by (auto simp: eq c_def)
  show "observe_trial n s f = complete_trial n c k g" if "completes_trial s actual f"
    using that compl by (simp add: eq)
  show "learned (observe_trial n s f) = learned f" if "\<not> completes_trial s actual f"
    using that compl g by (auto simp: eq)
qed

lemma observe_baseline_facts:
  assumes t: "trainable_capability (cs_capability s)" and l: "limits_ok (cs_capability s) f"
    and none: "fb_trial_dimension f = TRIAL_NONE"
  defines "c \<equiv> cs_capability s"
  shows "limits_ok c (observe_baseline n s f)" and "trial_ok n c (observe_baseline n s f)"
    and "fb_accepted_cpu_limit (observe_baseline n s f) = fb_accepted_cpu_limit f"
    and "fb_accepted_inflight_limit (observe_baseline n s f) = fb_accepted_inflight_limit f"
    and "fb_accepted_batch_limit (observe_baseline n s f) = fb_accepted_batch_limit f"
    and "trial_potential n c (observe_baseline n s f) = trial_potential n c f"
proof -
  let ?k = "required_throughput_observations c TRIAL_NONE"
  let ?r = "sd_durable_items_per_second_milli (fb_diagnostic f)"
  have ok: "trial_ok n c f" using none by (simp add: trial_ok_def)
  have base: "limits_ok c (g\<lparr>fb_baseline_rate_milli := r\<rparr>) = limits_ok c g"
    "fb_trial_dimension (clear_baseline_rate_observations g) = fb_trial_dimension g"
    "fb_baseline_rate_milli (g\<lparr>fb_baseline_rate_milli := r\<rparr>) = r" for g r
    by (simp_all add: limits_ok_def windows_ok_def clear_baseline_rate_observations_def)
  have "limits_ok c (observe_baseline n s f) \<and> trial_ok n c (observe_baseline n s f)
    \<and> (\<exists>r. learned (observe_baseline n s f) = learned (f\<lparr>fb_baseline_rate_milli := r\<rparr>))"
  proof (cases "fb_baseline_rate_milli f \<noteq> 0")
    case True
    then have "observe_baseline n s f = set_diagnostic_reason ''hold-deadband'' f"
      by (simp add: observe_baseline_def)
    moreover have "learned f = learned (f\<lparr>fb_baseline_rate_milli := fb_baseline_rate_milli f\<rparr>)"
      by (simp add: learned_def)
    ultimately show ?thesis
      using l ok by (auto simp: c_def intro!: exI [of _ "fb_baseline_rate_milli f"])
  next
    case False
    define exercised where "exercised = (\<not> tc_sustained_gpu_batch_feedback c
        \<or> rd_batch_size (cs_decision s) = fb_accepted_batch_limit f)"
    define g where "g = (if exercised then push_baseline_rate ?k ?r f
        else clear_baseline_rate_observations f)"
    have g: "limits_ok c g" "trial_ok n c g" "fb_trial_dimension g = TRIAL_NONE" "learned g = learned f"
      using l ok none limits_ok_windows base(2) by (auto simp: g_def c_def)
    have gl: "learned (g\<lparr>fb_baseline_rate_milli := r\<rparr>) = learned (f\<lparr>fb_baseline_rate_milli := r\<rparr>)" for r
      using g(4) by (simp add: learned_def)
    let ?avg = "average_rate_observations (fb_baseline_rates_milli g) ?k"
    let ?h = "open_next_capability_trial_locked n c (g\<lparr>fb_baseline_rate_milli := ?avg\<rparr>)"
    have eq: "observe_baseline n s f =
      (if exercised \<and> fb_baseline_observations g = ?k
       then set_diagnostic_reason (trial_observation_reason c (fb_trial_dimension ?h)) ?h
       else set_diagnostic_reason (if tc_sustained_gpu_batch_feedback c then ''gpu-batch-baseline''
              else ''hold-deadband'') g)"
      using False by (simp add: observe_baseline_def Let_def c_def g_def exercised_def)
    have g': "limits_ok c (g\<lparr>fb_baseline_rate_milli := ?avg\<rparr>)"
      "fb_trial_dimension (g\<lparr>fb_baseline_rate_milli := ?avg\<rparr>) = TRIAL_NONE"
      using g base(1) by simp_all
    note facts = open_next_facts [OF t [folded c_def] g', of n]
    have same: "learned g = learned (f\<lparr>fb_baseline_rate_milli := fb_baseline_rate_milli f\<rparr>)"
      using g(4) by (simp add: learned_def)
    show ?thesis
    proof (cases "exercised \<and> fb_baseline_observations g = ?k")
      case True
      then show ?thesis using facts gl unfolding eq by auto
    next
      case False
      then show ?thesis
        using g same unfolding eq if_not_P [OF False]
        by (auto intro!: exI [of _ "fb_baseline_rate_milli f"])
    qed
  qed
  then obtain r where
    lim: "limits_ok c (observe_baseline n s f)" "trial_ok n c (observe_baseline n s f)"
    and le: "learned (observe_baseline n s f) = learned (f\<lparr>fb_baseline_rate_milli := r\<rparr>)" by blast
  show "limits_ok c (observe_baseline n s f)" "trial_ok n c (observe_baseline n s f)" by (rule lim)+
  show "fb_accepted_cpu_limit (observe_baseline n s f) = fb_accepted_cpu_limit f"
    "fb_accepted_inflight_limit (observe_baseline n s f) = fb_accepted_inflight_limit f"
    "fb_accepted_batch_limit (observe_baseline n s f) = fb_accepted_batch_limit f"
    "trial_potential n c (observe_baseline n s f) = trial_potential n c f"
    using le trial_potential_learned [OF le, of n c] by (simp_all add: learned_def trial_potential_def)
qed


lemma train_feedback_cases:
  assumes "cs_pressure s = PRESSURE_GREEN"
  obtains (fallback) "\<not> observes s actual f"
      "tc_backend (cs_capability s) = BACKEND_ORB_VULKAN" "actual \<noteq> BACKEND_ORB_VULKAN"
      "train_feedback n s actual f = set_diagnostic_reason ''backend-fallback-hold''
        (clear_trial_rate_observations
          ((clear_baseline_rate_observations
              (f\<lparr>fb_adaptive_cpu_limit := fb_accepted_cpu_limit f,
                 fb_adaptive_batch_limit := fb_accepted_batch_limit f,
                 fb_adaptive_inflight_limit := fb_accepted_inflight_limit f,
                 fb_trial_dimension := TRIAL_NONE\<rparr>))\<lparr>fb_baseline_rate_milli := 0\<rparr>))"
  | (idle) g where "\<not> observes s actual f" "g \<in> {f, clear_trial_rate_observations (clear_baseline_rate_observations f)}"
      "train_feedback n s actual f = set_diagnostic_reason ''throughput-no-work'' g"
  | (trial) "observes s actual f" "fb_trial_dimension f \<noteq> TRIAL_NONE"
      "train_feedback n s actual f = observe_trial n s f"
  | (baseline) "observes s actual f" "fb_trial_dimension f = TRIAL_NONE"
      "train_feedback n s actual f = observe_baseline n s f"
proof (cases "tc_backend (cs_capability s) = BACKEND_ORB_VULKAN \<and> actual \<noteq> BACKEND_ORB_VULKAN")
  case True
  with assms show ?thesis by (intro fallback) (auto simp: train_feedback_def observes_def)
next
  case pure: False
  show ?thesis
  proof (cases "sd_durable_items_per_second_milli (fb_diagnostic f) = 0")
    case True
    have "\<not> observes s actual f" using True by (simp add: observes_def)
    moreover have "train_feedback n s actual f = set_diagnostic_reason ''throughput-no-work''
        (if tc_sustained_gpu_batch_feedback (cs_capability s)
         then clear_trial_rate_observations (clear_baseline_rate_observations f) else f)"
      unfolding train_feedback_def Let_def using assms True by (simp add: if_not_P [OF pure])
    ultimately show ?thesis
      using idle [of "if tc_sustained_gpu_batch_feedback (cs_capability s)
         then clear_trial_rate_observations (clear_baseline_rate_observations f) else f"] by auto
  next
    case False
    then have obs: "observes s actual f" using assms pure by (auto simp: observes_def)
    have eq: "train_feedback n s actual f =
       (if fb_trial_dimension f \<noteq> TRIAL_NONE then observe_trial n s f else observe_baseline n s f)"
      unfolding train_feedback_def Let_def using assms False by (simp add: if_not_P [OF pure])
    show ?thesis
    proof (cases "fb_trial_dimension f = TRIAL_NONE")
      case True
      with eq show ?thesis by (intro baseline [OF obs]) simp_all
    next
      case False
      with eq show ?thesis by (intro trial [OF obs]) simp_all
    qed
  qed
qed

text \<open>The accepted limits, which only a measured gain may move.\<close>

definition accepted_limits :: "feedback \<Rightarrow> u32 \<times> size_t \<times> size_t" where
  "accepted_limits f =
     (fb_accepted_cpu_limit f, fb_accepted_inflight_limit f, fb_accepted_batch_limit f)"

lemma accepted_learned: "learned f = learned g \<Longrightarrow> accepted_limits f = accepted_limits g"
  by (simp add: learned_def accepted_limits_def)

lemma train_feedback_facts:
  fixes actual :: backend
  assumes t: "trainable_capability (cs_capability s)" and l: "limits_ok (cs_capability s) f"
    and ok: "trial_ok n (cs_capability s) f" and green: "cs_pressure s = PRESSURE_GREEN"
  defines "c \<equiv> cs_capability s"
  defines "g \<equiv> train_feedback n s actual f"
  shows "limits_ok c g" and "trial_ok n c g"
    and "trial_potential n c g + (if completes_trial s actual f then 1 else 0) \<le> trial_potential n c f"
    and "accepted_limits g \<noteq> accepted_limits f \<Longrightarrow> completes_trial s actual f
      \<and> throughput_materially_improved (fb_baseline_rate_milli g) (fb_baseline_rate_milli f)"
proof -
  have "limits_ok c g \<and> trial_ok n c g
    \<and> trial_potential n c g + (if completes_trial s actual f then 1 else 0) \<le> trial_potential n c f
    \<and> (accepted_limits g \<noteq> accepted_limits f \<longrightarrow> completes_trial s actual f
      \<and> throughput_materially_improved (fb_baseline_rate_milli g) (fb_baseline_rate_milli f))"
    using green
  proof (cases rule: train_feedback_cases [of s actual f n])
    case fallback
    then have "\<not> completes_trial s actual f" by (simp add: completes_trial_def)
    with l show ?thesis
      unfolding g_def fallback(4)
      by (simp add: c_def limits_ok_def windows_ok_def trial_ok_def window_defs
        trial_potential_def accepted_limits_def)
  next
    case (idle h)
    then have "\<not> completes_trial s actual f" by (simp add: completes_trial_def)
    moreover have "learned h = learned f" "limits_ok c h" "trial_ok n c h"
      using idle(2) l ok limits_ok_windows by (auto simp: c_def)
    ultimately show ?thesis
      unfolding g_def idle(3)
      using trial_potential_learned [of "set_diagnostic_reason ''throughput-no-work'' h" f n c]
        accepted_learned [of "set_diagnostic_reason ''throughput-no-work'' h" f] by simp
  next
    case trial
    note facts = observe_trial_facts [OF t l ok trial(1,2), folded c_def]
    show ?thesis
    proof (cases "completes_trial s actual f")
      case True
      define k where "k = required_throughput_observations c (fb_trial_dimension f)"
      define h where "h = push_trial_rate k (sd_durable_items_per_second_milli (fb_diagnostic f)) f"
      have g: "g = complete_trial n c k h"
        unfolding g_def trial(3) k_def h_def by (rule facts(3) [OF True])
      have h: "limits_ok c h" "trial_ok n c h" "fb_trial_dimension h \<noteq> TRIAL_NONE" "learned h = learned f"
        using l ok trial(2) by (simp_all add: h_def c_def)
      note compl = complete_trial_facts [OF t [folded c_def] h(1,2,3), of k]
      have same: "fb_baseline_rate_milli h = fb_baseline_rate_milli f"
        "accepted_limits h = accepted_limits f" "trial_potential n c h = trial_potential n c f"
        using h(4) trial_potential_learned [OF h(4)] by (auto simp: learned_def accepted_limits_def)
      have "accepted_limits g = accepted_limits h"
        if "\<not> throughput_materially_improved (trial_rate c k h) (fb_baseline_rate_milli h)"
        using compl(5) [OF that] by (simp add: g accepted_limits_def)
      then show ?thesis using True compl(1-4) same unfolding g by (auto split: if_splits)
    next
      case False
      then show ?thesis
        using facts(1,2) facts(4) [OF False] trial_potential_learned [OF facts(4) [OF False], of n c]
        unfolding g_def trial(3) by (auto simp: learned_def accepted_limits_def)
    qed
  next
    case baseline
    note facts = observe_baseline_facts [OF t l baseline(2), folded c_def, of n]
    have "\<not> completes_trial s actual f" using baseline(2) by (simp add: completes_trial_def)
    then show ?thesis
      using facts unfolding g_def baseline(3) by (simp add: accepted_limits_def)
  qed
  then show "limits_ok c g" "trial_ok n c g"
    "trial_potential n c g + (if completes_trial s actual f then 1 else 0) \<le> trial_potential n c f"
    "accepted_limits g \<noteq> accepted_limits f \<Longrightarrow> completes_trial s actual f
      \<and> throughput_materially_improved (fb_baseline_rate_milli g) (fb_baseline_rate_milli f)"
    by blast+
qed

lemma train_pressured:
  assumes "cs_pressure s \<noteq> PRESSURE_GREEN" and "trainable_capability (cs_capability s)"
  shows "limits_ok (cs_capability s) (train_feedback n s actual f)"
    and "trial_ok n (cs_capability s) (train_feedback n s actual f)"
    and "learned (train_feedback n s actual f)
      = learned (reset_capability_throughput_feedback (cs_capability s) f)"
proof -
  let ?r = "reset_capability_throughput_feedback (cs_capability s) f"
  have eq: "train_feedback n s actual f = set_diagnostic_reason ''pressure-decrease'' ?r"
    using assms(1) by (simp add: train_feedback_def Let_def)
  have "fb_trial_dimension ?r = TRIAL_NONE"
    by (simp add: reset_capability_throughput_feedback_def Let_def window_defs)
  then have "trial_ok n (cs_capability s) ?r" by (simp add: trial_ok_def)
  then show "limits_ok (cs_capability s) (train_feedback n s actual f)"
    "trial_ok n (cs_capability s) (train_feedback n s actual f)"
    "learned (train_feedback n s actual f) = learned ?r"
    using reset_limits [OF assms(2), of f] by (simp_all add: eq)
qed

section \<open>Runs\<close>

text \<open>
  A run of recorded sequences of one capability: each has its selection, the backend it ran
  on and its durable rate. The count is that of completed trials.
\<close>

definition observed_rate :: "u64 \<Rightarrow> feedback \<Rightarrow> feedback" where
  "observed_rate rate f =
     f\<lparr>fb_diagnostic := (fb_diagnostic f)\<lparr>sd_durable_items_per_second_milli := rate\<rparr>\<rparr>"

fun train_run :: "u32 \<Rightarrow> (capability_selection \<times> backend \<times> u64) list \<Rightarrow> feedback
    \<Rightarrow> feedback \<times> nat" where
  "train_run n [] f = (f, 0)"
| "train_run n ((s, actual, rate) # rest) f =
     (let f = observed_rate rate f; (h, k) = train_run n rest (train_feedback n s actual f)
      in (h, k + (if completes_trial s actual f then 1 else 0)))"

lemma observed_rate_keeps [simp]:
  "limits_ok c (observed_rate r f) = limits_ok c f"
  "trial_ok n c (observed_rate r f) = trial_ok n c f"
  "trial_potential n c (observed_rate r f) = trial_potential n c f"
  by (simp_all add: observed_rate_def limits_ok_def windows_ok_def trial_ok_def trial_potential_def
    cong: trial_dimension.case_cong)

lemma train_run_potential:
  assumes "trainable_capability c" and "limits_ok c f" and "trial_ok n c f"
    and "\<forall>(s, actual, rate) \<in> set run. cs_capability s = c \<and> cs_pressure s = PRESSURE_GREEN"
  shows "limits_ok c (fst (train_run n run f)) \<and> trial_ok n c (fst (train_run n run f))
    \<and> trial_potential n c (fst (train_run n run f)) + snd (train_run n run f) \<le> trial_potential n c f"
  using assms
proof (induction run arbitrary: f)
  case Nil
  then show ?case by simp
next
  case (Cons x run)
  obtain s actual rate where x: "x = (s, actual, rate)" by (cases x)
  let ?f = "observed_rate rate f"
  have s: "cs_capability s = c" "cs_pressure s = PRESSURE_GREEN" using Cons.prems(4) by (auto simp: x)
  note facts = train_feedback_facts [of s ?f n actual, unfolded s(1), OF Cons.prems(1) _ _ s(2)]
  have step: "limits_ok c (train_feedback n s actual ?f)" "trial_ok n c (train_feedback n s actual ?f)"
    "trial_potential n c (train_feedback n s actual ?f) + (if completes_trial s actual ?f then 1 else 0)
      \<le> trial_potential n c f"
    using facts(1-3) Cons.prems(2,3) by simp_all
  have "\<forall>(s, actual, rate) \<in> set run. cs_capability s = c \<and> cs_pressure s = PRESSURE_GREEN"
    using Cons.prems(4) by auto
  from Cons.IH [OF Cons.prems(1) step(1,2) this] step(3) show ?case
    by (auto simp: x Let_def split: prod.split)
qed


section \<open>Properties\<close>

text \<open>
  The two measurements of the feedback are exact, without overflow: the window average is
  the floor of the mean of its observations, and a trial is accepted exactly when its rate is
  positive and at least 5 percent above the baseline (21 * baseline at most 20 * trial over
  the integers).
\<close>

theorem throughput_tests_are_exact:
  assumes "0 < n" and "n \<le> 8" and "n \<le> length rates"
  shows "unat (average_rate_observations rates n) = sum_list (map unat (take n rates)) div n
    \<and> (throughput_materially_improved trial baseline \<longleftrightarrow>
        trial \<noteq> 0 \<and> 21 * unat baseline \<le> 20 * unat trial)"
  using average_rate_exact [OF assms] improved_exact by blast

theorem throughput_tests_are_exact_witness:
  "unat (average_rate_observations [UINT64_MAX, UINT64_MAX, UINT64_MAX - 1] 3)
     = sum_list (map unat [UINT64_MAX, UINT64_MAX, UINT64_MAX - 1]) div 3
   \<and> (throughput_materially_improved UINT64_MAX UINT64_MAX \<longleftrightarrow>
        UINT64_MAX \<noteq> 0 \<and> 21 * unat UINT64_MAX \<le> 20 * unat UINT64_MAX)"
  using throughput_tests_are_exact [of 3 "[UINT64_MAX, UINT64_MAX, UINT64_MAX - 1]" UINT64_MAX UINT64_MAX]
  by simp

text \<open>
  An accepted limit moves only on a measured gain: when one sequence recorded under GREEN
  pressure changes an accepted limit, it was the last observation of an exercised trial, and
  the new baseline rate is at least 5 percent above the old one.
\<close>

theorem accepted_limits_need_a_measured_gain:
  fixes actual :: backend
  assumes "trainable_capability (cs_capability s)" and "limits_ok (cs_capability s) f"
    and "trial_ok n (cs_capability s) f" and "cs_pressure s = PRESSURE_GREEN"
  shows "accepted_limits (train_feedback n s actual f) = accepted_limits f
    \<or> (completes_trial s actual f
       \<and> 21 * unat (fb_baseline_rate_milli f)
           \<le> 20 * unat (fb_baseline_rate_milli (train_feedback n s actual f)))"
  using train_feedback_facts(4) [OF assms] improved_exact by blast

definition sample_capability :: task_capability where
  "sample_capability =
     \<lparr>tc_estimate = \<lparr>re_memory_fixed_bytes = 1000, re_gpu_memory_fixed_bytes = 0,
        re_memory_bytes_per_item = 100, re_gpu_memory_bytes_per_item = 0,
        re_minimum_batch_size = 1, re_maximum_batch_size = 8, re_desired_cpu_threads = 3,
        re_desired_gpu_slots = 0, re_desired_io_slots = 0, re_task_class = RESOURCE_TASK_CPU\<rparr>,
       tc_backend = BACKEND_CPU, tc_inflight_limit = 1, tc_minimum_inflight_limit = 0,
       tc_gpu_memory_bytes_per_inflight = 0, tc_helper_limit = 0, tc_preferred = False,
       tc_cpu_reducible = True, tc_batch_adaptive = True, tc_cpu_batch_coupled = False,
       tc_sustained_gpu_batch_feedback = False, tc_inflight_adaptive = False,
       tc_requires_runtime_backend = False\<rparr>"

definition sample_selection :: "u32 \<Rightarrow> size_t \<Rightarrow> capability_selection" where
  "sample_selection cpu batch =
     \<lparr>cs_capability_index = 0, cs_capability = sample_capability,
       cs_reservation_estimate = tc_estimate sample_capability,
       cs_decision = \<lparr>rd_kind = RESOURCE_START, rd_batch_size = batch, rd_cpu_threads = cpu,
         rd_gpu_slots = 0, rd_io_slots = 0, rd_reason = []\<rparr>,
       cs_inflight_limit = 1, cs_pressure = PRESSURE_GREEN, cs_reason = []\<rparr>"

definition sample_feedback :: feedback where
  "sample_feedback = reset_capability_throughput_feedback sample_capability zero_feedback"

text \<open>Two baseline sequences, a CPU trial that gains, one that does not, a batch trial that gains.\<close>

definition sample_run :: "(capability_selection \<times> backend \<times> u64) list" where
  "sample_run =
     [(sample_selection 1 1, BACKEND_CPU, 100), (sample_selection 1 1, BACKEND_CPU, 100),
      (sample_selection 2 1, BACKEND_CPU, 106), (sample_selection 2 1, BACKEND_CPU, 106),
      (sample_selection 3 1, BACKEND_CPU, 106), (sample_selection 3 1, BACKEND_CPU, 106),
      (sample_selection 2 2, BACKEND_CPU, 120), (sample_selection 2 2, BACKEND_CPU, 119)]"

lemma sample_trainable: "trainable_capability sample_capability"
  by (simp add: trainable_capability_def valid_estimate_def sample_capability_def
    minimum_inflight_def)

lemma sample_feedback_ok: "limits_ok sample_capability sample_feedback"
  "trial_ok n sample_capability sample_feedback"
proof -
  show "limits_ok sample_capability sample_feedback"
    unfolding sample_feedback_def by (rule reset_limits [OF sample_trainable])
  show "trial_ok n sample_capability sample_feedback"
    by (simp add: trial_ok_def sample_feedback_def reset_capability_throughput_feedback_def Let_def
      window_defs)
qed

lemma sample_run_capability:
  "\<forall>(s, actual, rate) \<in> set sample_run. cs_capability s = sample_capability \<and> cs_pressure s = PRESSURE_GREEN"
  by (simp add: sample_run_def sample_selection_def)

definition sample_trained :: feedback where
  "sample_trained = observed_rate 106 (fst (train_run 8 (take 3 sample_run) sample_feedback))"

lemma sample_trained_ok:
  "limits_ok sample_capability sample_trained" "trial_ok 8 sample_capability sample_trained"
proof -
  have "\<forall>(s, actual, rate) \<in> set (take 3 sample_run).
      cs_capability s = sample_capability \<and> cs_pressure s = PRESSURE_GREEN"
    using sample_run_capability set_take_subset by fast
  from train_run_potential [OF sample_trainable sample_feedback_ok this]
  show "limits_ok sample_capability sample_trained" "trial_ok 8 sample_capability sample_trained"
    by (simp_all add: sample_trained_def)
qed

lemma sample_gain:
  "accepted_limits sample_trained = (1, 1, 1)
   \<and> accepted_limits (train_feedback 8 (sample_selection 2 1) BACKEND_CPU sample_trained) = (2, 1, 1)"
  by code_simp

theorem accepted_limits_need_a_measured_gain_witness:
  "21 * unat (fb_baseline_rate_milli sample_trained)
     \<le> 20 * unat (fb_baseline_rate_milli
         (train_feedback 8 (sample_selection 2 1) BACKEND_CPU sample_trained))"
proof -
  have c: "cs_capability (sample_selection 2 1) = sample_capability"
    "cs_pressure (sample_selection 2 1) = PRESSURE_GREEN" by (simp_all add: sample_selection_def)
  show ?thesis
    using accepted_limits_need_a_measured_gain [of "sample_selection 2 1" sample_trained 8 BACKEND_CPU]
      sample_trainable sample_trained_ok sample_gain unfolding c by auto
qed



end
