(* ===== verification/Capability_Safety.thy ===== *)
theory Capability_Safety
  imports Capability_Admission Capability_Adaptation
begin

text \<open>
  What capability admission guarantees: it keeps the Governor's accounts and the feedback
  table, a granted contract lies inside the capability's range and inside the budgets, and
  under pressure an adaptive capability is granted its minimum only.
\<close>

section \<open>The feedback fields leave the accounts alone\<close>

lemma feedback_update_inv [simp]:
  "gov_inv (g\<lparr>cg_feedback := x\<rparr>) = gov_inv g"
  "gov_inv (g\<lparr>cg_feedback_replace := y\<rparr>) = gov_inv g"
  "gov_inv (g\<lparr>cg_diagnostic_serial := z\<rparr>) = gov_inv g"
  "gov_inv (g\<lparr>cg_diagnostic_update_order := z\<rparr>) = gov_inv g"
  "gov_inv (g\<lparr>cg_host_telemetry := t\<rparr>) = gov_inv g"
  "gov_accounts (g\<lparr>cg_feedback := x\<rparr>) = gov_accounts g"
  "gov_accounts (g\<lparr>cg_feedback_replace := y\<rparr>) = gov_accounts g"
  "gov_accounts (g\<lparr>cg_diagnostic_serial := z\<rparr>) = gov_accounts g"
  "gov_accounts (g\<lparr>cg_diagnostic_update_order := z\<rparr>) = gov_accounts g"
  "gov_accounts (g\<lparr>cg_host_telemetry := t\<rparr>) = gov_accounts g"
  by (simp_all add: gov_inv_def accounts_inv_def gov_counters_def gov_budgets_def gov_heap_def
    gov_ids_def gov_states_def charged_sum_def pressure_inv_def rings_inv_def gov_accounts_def)

lemma update_feedback_keeps [simp]:
  "gov_inv (update_feedback i f g) = gov_inv g"
  "gov_accounts (update_feedback i f g) = gov_accounts g"
  "g_pressure (update_feedback i f g) = g_pressure g"
  "length (cg_feedback (update_feedback i f g)) = length (cg_feedback g)"
  "cg_feedback_replace (update_feedback i f g) = cg_feedback_replace g"
  by (simp_all add: update_feedback_def)

lemma advance_serial_keeps [simp]:
  "gov_inv (advance_diagnostic_serial_locked i g) = gov_inv g"
  "gov_accounts (advance_diagnostic_serial_locked i g) = gov_accounts g"
  "g_pressure (advance_diagnostic_serial_locked i g) = g_pressure g"
  "length (cg_feedback (advance_diagnostic_serial_locked i g)) = length (cg_feedback g)"
  "cg_feedback_replace (advance_diagnostic_serial_locked i g) = cg_feedback_replace g"
  by (simp_all add: advance_diagnostic_serial_locked_def Let_def split: prod.split)

text \<open>The feedback fields of two states with one \<open>more\<close> part agree.\<close>

lemma feedback_of_more:
  assumes "governor.more h = governor.more g"
  shows "cg_feedback h = cg_feedback g" and "cg_feedback_replace h = cg_feedback_replace g"
    and "cg_diagnostic_serial h = cg_diagnostic_serial g"
    and "cg_diagnostic_update_order h = cg_diagnostic_update_order g"
    and "cg_orb_vulkan_backend_available h = cg_orb_vulkan_backend_available g"
    and "cg_host_telemetry h = cg_host_telemetry g"
proof -
  have *: "(cg_feedback h, cg_feedback_replace h, cg_diagnostic_serial h,
      cg_diagnostic_update_order h, cg_orb_vulkan_backend_available h, cg_host_telemetry h)
    = (cg_feedback g, cg_feedback_replace g, cg_diagnostic_serial g,
      cg_diagnostic_update_order g, cg_orb_vulkan_backend_available g, cg_host_telemetry g)"
    using assms by (cases g rule: feedback_governor.cases_scheme; cases h rule: feedback_governor.cases_scheme) simp
  then show "cg_feedback h = cg_feedback g" "cg_feedback_replace h = cg_feedback_replace g"
    "cg_diagnostic_serial h = cg_diagnostic_serial g"
    "cg_diagnostic_update_order h = cg_diagnostic_update_order g"
    "cg_orb_vulkan_backend_available h = cg_orb_vulkan_backend_available g"
    "cg_host_telemetry h = cg_host_telemetry g" by simp_all
qed

lemma evaluate_more:
  assumes "evaluate_locked env s e upd floors g = Some (h, d)"
  shows "governor.more h = governor.more g"
proof -
  have "h = g \<or> h = update_pressure_locked s floors g"
    using assms by (auto simp: evaluate_locked_def Let_def split: if_splits option.splits)
  then show ?thesis by auto
qed

lemma activate_more:
  assumes "activate_reservation_locked env e d g = Some (h, a)"
  shows "governor.more h = governor.more g" and "g_pressure h = g_pressure g"
  by (rule activateE [OF assms]; simp)+

section \<open>The feedback table\<close>

definition entry_key :: "feedback \<Rightarrow> string \<times> u32 \<times> backend" where
  "entry_key f = (fb_task_kind f, fb_task_kind_version f, fb_backend f)"

lemma table_inv_alt:
  "table_inv g \<longleftrightarrow> length (cg_feedback g) = 32 \<and> cg_feedback_replace g < 32
     \<and> (\<forall>i < 32. \<forall>j < 32. fb_used (cg_feedback g ! i) \<and> fb_used (cg_feedback g ! j)
          \<and> entry_key (cg_feedback g ! i) = entry_key (cg_feedback g ! j) \<longrightarrow> i = j)"
  by (auto simp: table_inv_def CAPABILITY_FEEDBACK_CAPACITY_def entry_key_def)

lemma feedback_key_alt: "feedback_key kind version b f \<longleftrightarrow> fb_used f \<and> entry_key f = (kind, version, b)"
  by (auto simp: feedback_key_def entry_key_def)

text \<open>Updates that keep the keys keep the table.\<close>

lemma table_inv_same_keys:
  assumes "table_inv g" and "length (cg_feedback h) = length (cg_feedback g)"
    and "cg_feedback_replace h = cg_feedback_replace g"
    and "\<And>j. j < 32 \<Longrightarrow> fb_used (cg_feedback h ! j) = fb_used (cg_feedback g ! j)
      \<and> entry_key (cg_feedback h ! j) = entry_key (cg_feedback g ! j)"
  shows "table_inv h"
  using assms by (simp add: table_inv_alt)

lemma update_feedback_table:
  assumes "table_inv g"
    and "fb_used (f (cg_feedback g ! i)) = fb_used (cg_feedback g ! i)"
    and "entry_key (f (cg_feedback g ! i)) = entry_key (cg_feedback g ! i)"
  shows "table_inv (update_feedback i f g)"
proof (rule table_inv_same_keys [OF assms(1)])
  show "fb_used (cg_feedback (update_feedback i f g) ! j) = fb_used (cg_feedback g ! j)
      \<and> entry_key (cg_feedback (update_feedback i f g) ! j) = entry_key (cg_feedback g ! j)" for j
    using assms(2,3) by (cases "j = i"; cases "i < length (cg_feedback g)")
      (simp_all add: update_feedback_def list_update_beyond)
qed simp_all

lemma advance_serial_entries:
  assumes "i < length (cg_feedback g)" and "j < length (cg_feedback g)"
  shows "\<exists>order serial diag. cg_feedback (advance_diagnostic_serial_locked i g) ! j =
    (cg_feedback g ! j)\<lparr>fb_diagnostic_update_order := order, fb_diagnostic_serial := serial,
      fb_diagnostic := diag\<rparr>"
proof -
  have self: "f = f\<lparr>fb_diagnostic_update_order := fb_diagnostic_update_order f,
      fb_diagnostic_serial := fb_diagnostic_serial f, fb_diagnostic := fb_diagnostic f\<rparr>" for f
    by simp
  have one: "f\<lparr>fb_diagnostic_update_order := a\<rparr> = f\<lparr>fb_diagnostic_update_order := a,
      fb_diagnostic_serial := fb_diagnostic_serial f, fb_diagnostic := fb_diagnostic f\<rparr>" for f a
    by simp
  show ?thesis
    using assms
    by (auto simp: advance_diagnostic_serial_locked_def Let_def update_feedback_def nth_list_update
      intro: self one split: prod.split)
qed

lemma advance_serial_table [simp]:
  assumes "table_inv g" and "i < 32"
  shows "table_inv (advance_diagnostic_serial_locked i g)"
proof -
  have len: "length (cg_feedback g) = 32" using assms(1) by (simp add: table_inv_alt)
  show ?thesis
  proof (rule table_inv_same_keys [OF assms(1)])
    show "fb_used (cg_feedback (advance_diagnostic_serial_locked i g) ! j) = fb_used (cg_feedback g ! j)
      \<and> entry_key (cg_feedback (advance_diagnostic_serial_locked i g) ! j) = entry_key (cg_feedback g ! j)"
      if "j < 32" for j
      using advance_serial_entries [of i g j] assms(2) that len by (auto simp: entry_key_def)
  qed simp_all
qed

text \<open>Looking an entry up, creating it when needed.\<close>

lemma capability_feedback_lookup:
  assumes t: "table_inv g" and k: "kind \<noteq> []" "length kind < TASK_KIND_CAPACITY"
    and "capability_feedback_locked kind version b True g = (h, r)"
  obtains i where "r = Some i" "i < 32" "feedback_key kind version b (cg_feedback h ! i)" "table_inv h"
    "gov_accounts h = gov_accounts g" "gov_inv h = gov_inv g" "g_pressure h = g_pressure g"
    "cg_host_telemetry h = cg_host_telemetry g"
    "cg_diagnostic_serial h = cg_diagnostic_serial g"
    "cg_diagnostic_update_order h = cg_diagnostic_update_order g"
    "\<And>j. j < 32 \<Longrightarrow> cg_feedback h ! j = cg_feedback g ! j
      \<or> j = i \<and> cg_feedback h ! i = zero_feedback\<lparr>fb_used := True, fb_task_kind_version := version,
          fb_backend := b, fb_task_kind := kind\<rparr>"
proof (cases "first_index (feedback_key kind version b) (cg_feedback g)")
  case (Some i)
  then have eq: "h = g" "r = Some i" using assms(4) k by (simp_all add: capability_feedback_locked_def)
  have i: "i < 32" "feedback_key kind version b (cg_feedback g ! i)"
    using Some t by (auto simp: first_index_Some table_inv_alt)
  show ?thesis by (rule that [of i]) (use eq i t in auto)
next
  case None
  define entry where "entry = zero_feedback\<lparr>fb_used := True, fb_task_kind_version := version,
      fb_backend := b, fb_task_kind := kind\<rparr>"
  have len: "length (cg_feedback g) = 32" "cg_feedback_replace g < 32"
    using t by (auto simp: table_inv_alt)
  have fresh: "\<not> feedback_key kind version b (cg_feedback g ! j)" if "j < 32" for j
    using None that len by (auto simp: first_index_None)
  have kind: "copy_text TASK_KIND_CAPACITY kind = kind" using k(2) by simp
  obtain i rep where eq: "r = Some i" "h = g\<lparr>cg_feedback_replace := rep, cg_feedback := (cg_feedback g)[i := entry]\<rparr>"
    and i: "i < 32" and rep: "rep < 32"
  proof (cases "first_index (\<lambda>f. \<not> fb_used f) (cg_feedback g)")
    case no: None
    have "r = Some (cg_feedback_replace g) \<and> h = g\<lparr>cg_feedback_replace := (cg_feedback_replace g + 1) mod 32,
        cg_feedback := (cg_feedback g)[cg_feedback_replace g := entry]\<rparr>"
      using assms(4) k(1) None no kind
      by (simp add: capability_feedback_locked_def Let_def CAPABILITY_FEEDBACK_CAPACITY_def entry_def)
    then show ?thesis
      using len by (intro that [of "cg_feedback_replace g" "(cg_feedback_replace g + 1) mod 32"]) auto
  next
    case (Some j)
    have "r = Some j \<and> h = g\<lparr>cg_feedback := (cg_feedback g)[j := entry]\<rparr>"
      using assms(4) k(1) None Some kind
      by (simp add: capability_feedback_locked_def Let_def entry_def)
    moreover have "j < 32" using Some len by (auto simp: first_index_Some)
    ultimately show ?thesis using len by (intro that [of j "cg_feedback_replace g"]) auto
  qed
  have entries: "cg_feedback h ! j = (if j = i then entry else cg_feedback g ! j)" if "j < 32" for j
    using that i len by (simp add: eq(2) nth_list_update)
  have "table_inv h"
    using t fresh rep i len entries
    by (auto simp: table_inv_alt eq(2) entry_def entry_key_def feedback_key_def nth_list_update)
  moreover have "feedback_key kind version b (cg_feedback h ! i)"
    using entries [OF i] by (simp add: entry_def feedback_key_def)
  ultimately show ?thesis
    using i entries by (intro that [of i]) (auto simp: eq entry_def gov_accounts_def)
qed


section \<open>One candidate\<close>

lemma try_capabilityE:
  assumes "try_capability_locked env snapshot kind version c index upd floors g = Inr (h, s)"
  obtains g1 i f inflight operational g2 d d2 inflight2 operational2 f2 d3 where
    "capability_feedback_locked kind version (tc_backend c) True g = (g1, Some i)"
    "f = (if adaptive_capability c \<and> (fb_adaptive_cpu_limit (cg_feedback g1 ! i) = 0
        \<or> fb_adaptive_batch_limit (cg_feedback g1 ! i) = 0
        \<or> fb_adaptive_inflight_limit (cg_feedback g1 ! i) = 0)
      then reset_capability_throughput_feedback c (cg_feedback g1 ! i) else cg_feedback g1 ! i)"
    "inflight = (if tc_inflight_adaptive c then fb_adaptive_inflight_limit f else tc_inflight_limit c)"
    "charge_inflight c inflight (limited_estimate c f) = Some operational"
    "evaluate_locked env snapshot operational upd floors (update_feedback i (\<lambda>_. f) g1) = Some (g2, d)"
    "(d2, inflight2) = (if adaptive_capability c \<and> g_pressure g2 \<noteq> PRESSURE_GREEN
      then reduce_under_pressure c operational d inflight else (d, inflight))"
    "f2 = (if adaptive_capability c \<and> g_pressure g2 \<noteq> PRESSURE_GREEN
      then reset_capability_throughput_feedback c f else f)"
    "charge_inflight c inflight2 operational = Some operational2"
    "d3 = (if decision_grants d2 \<and> \<not> tc_cpu_reducible c
        \<and> rd_cpu_threads d2 \<noteq> re_desired_cpu_threads (tc_estimate c)
      then wait (''Le compte CPU fixe n'' @ [CHR 0x27] @ ''est pas disponible.'') else d2)"
    "h = update_feedback i (\<lambda>_. f2) g2"
    "cs_capability s = c" "cs_capability_index s = index" "cs_reservation_estimate s = operational2"
    "cs_decision s = d3" "cs_inflight_limit s = inflight2" "cs_pressure s = g_pressure h"
proof -
  obtain g1 r where look: "capability_feedback_locked kind version (tc_backend c) True g = (g1, r)"
    by fastforce
  then obtain i where r: "r = Some i"
    using assms by (cases r) (auto simp: try_capability_locked_def)
  define f where "f = (if adaptive_capability c \<and> (fb_adaptive_cpu_limit (cg_feedback g1 ! i) = 0
        \<or> fb_adaptive_batch_limit (cg_feedback g1 ! i) = 0
        \<or> fb_adaptive_inflight_limit (cg_feedback g1 ! i) = 0)
      then reset_capability_throughput_feedback c (cg_feedback g1 ! i) else cg_feedback g1 ! i)"
  define inflight where
    "inflight = (if tc_inflight_adaptive c then fb_adaptive_inflight_limit f else tc_inflight_limit c)"
  note step1 = assms [unfolded try_capability_locked_def look r prod.case option.case Let_def,
    folded f_def, folded inflight_def]
  obtain operational where op: "charge_inflight c inflight (limited_estimate c f) = Some operational"
    using step1 by (cases "charge_inflight c inflight (limited_estimate c f)") simp_all
  obtain g2 d where ev: "evaluate_locked env snapshot operational upd floors
      (update_feedback i (\<lambda>_. f) g1) = Some (g2, d)"
    using step1 by (cases "evaluate_locked env snapshot operational upd floors
      (update_feedback i (\<lambda>_. f) g1)") (auto simp: op)
  define pressured where "pressured = (adaptive_capability c \<and> g_pressure g2 \<noteq> PRESSURE_GREEN)"
  obtain d2 inflight2 where red: "(d2, inflight2) =
      (if pressured then reduce_under_pressure c operational d inflight else (d, inflight))"
    by (metis surj_pair)
  define f2 where "f2 = (if pressured then reset_capability_throughput_feedback c f else f)"
  note step2 = step1 [unfolded op ev option.case prod.case, folded pressured_def,
    folded red f2_def, unfolded prod.case]
  obtain operational2 where op2: "charge_inflight c inflight2 operational = Some operational2"
    using step2 by (cases "charge_inflight c inflight2 operational") simp_all
  define d3 where "d3 = (if decision_grants d2 \<and> \<not> tc_cpu_reducible c
        \<and> rd_cpu_threads d2 \<noteq> re_desired_cpu_threads (tc_estimate c)
      then wait (''Le compte CPU fixe n'' @ [CHR 0x27] @ ''est pas disponible.'') else d2)"
  note step3 = step2 [unfolded op2 option.case, folded d3_def]
  show ?thesis
    by (rule that [OF look [unfolded r] f_def inflight_def op ev red [unfolded pressured_def]
      f2_def [unfolded pressured_def] op2 d3_def])
      (use step3 in \<open>auto simp: selection_reason_def\<close>)
qed


text \<open>What the evaluator grants, in the terms of the estimate it was given.\<close>

lemma evaluated_grant:
  assumes "gov_inv g" and ev: "evaluate_locked env s e upd floors g = Some (h, d)"
    and dg: "decision_grants d"
    and "mf_admission_floor floors = rp_system_memory_reserve_bytes (g_policy g)"
  shows "grant_fits h e d" and "rd_batch_size d \<in> {re_minimum_batch_size e..re_maximum_batch_size e}"
    and "0 < rd_cpu_threads d" and "rd_cpu_threads d \<le> re_desired_cpu_threads e"
proof -
  note e = evaluate_locked_grants [OF ev dg]
  have inv: "accounts_inv h" using evaluate_locked_inv(1) [OF assms(1) ev] by (simp add: gov_inv_def)
  have policy: "g_policy h = g_policy g"
    using accounts_fields [OF evaluate_locked_inv(2) [OF assms(1) ev]] by simp
  have dg': "decision_grants (admission_decision h s e floors)" using dg unfolding e(2) .
  show "grant_fits h e d"
    unfolding e(2) by (rule admission_grant_fits [OF inv e(1) _ dg']) (simp add: assms(4) policy)
  show "rd_batch_size d \<in> {re_minimum_batch_size e..re_maximum_batch_size e}"
    unfolding e(2) using admission_grant_host_memory(2,3) [OF dg' e(1)] by simp
  obtain available batch maximum where
    eq: "d = grant_slots available e (minimum_size batch maximum) maximum"
    and gr: "decision_grants (grant_slots available e (minimum_size batch maximum) maximum)"
    unfolding e(2) using admission_grantE [OF dg'] by metis
  show "rd_cpu_threads d \<le> re_desired_cpu_threads e" "0 < rd_cpu_threads d"
    unfolding eq using grant_slots_grants(3,4) [OF gr] e(1) by (auto simp: valid_estimate_def)
qed

lemma grant_fits_smaller:
  assumes "grant_fits g e d"
    and "e' = e\<lparr>re_gpu_memory_fixed_bytes := x\<rparr>" and "unat x \<le> unat (re_gpu_memory_fixed_bytes e)"
    and "rd_batch_size d' \<le> rd_batch_size d" and "0 < rd_cpu_threads d'"
    and "rd_cpu_threads d' \<le> rd_cpu_threads d" and "rd_gpu_slots d' = rd_gpu_slots d"
    and "rd_io_slots d' = rd_io_slots d"
  shows "grant_fits g e' d'"
proof -
  have b: "unat (rd_batch_size d') \<le> unat (rd_batch_size d)" using assms(4) by (simp add: word_le_nat_alt)
  have "host_demand (g_profile g) e' (rd_batch_size d') \<le> host_demand (g_profile g) e (rd_batch_size d)"
    using assms(3) b by (auto simp: host_demand_def assms(2) intro!: add_mono mult_le_mono2)
  moreover have "gpu_demand e' (rd_batch_size d') \<le> gpu_demand e (rd_batch_size d)"
    using assms(3) b by (auto simp: gpu_demand_def assms(2) intro!: add_mono mult_le_mono2)
  ultimately show ?thesis
    using assms(1,5,6,7,8) by (auto simp: grant_fits_def)
qed

definition feedback_suits :: "task_capability \<Rightarrow> feedback \<Rightarrow> bool" where
  "feedback_suits c f \<longleftrightarrow> fb_adaptive_cpu_limit f = 0 \<or> fb_adaptive_batch_limit f = 0
     \<or> fb_adaptive_inflight_limit f = 0 \<or> limits_ok c f"

definition admissible_capability :: "task_capability \<Rightarrow> bool" where
  "admissible_capability c \<longleftrightarrow> valid_capability c
     \<and> (tc_cpu_batch_coupled c \<longrightarrow> re_minimum_batch_size (tc_estimate c) \<le> 2)"

lemma admissible_trainable: "admissible_capability c \<Longrightarrow> trainable_capability c"
  by (auto simp: admissible_capability_def trainable_capability_def valid_capability_def)

definition contract_in_range :: "task_capability \<Rightarrow> capability_selection \<Rightarrow> bool" where
  "contract_in_range c s \<longleftrightarrow>
     rd_batch_size (cs_decision s)
         \<in> {re_minimum_batch_size (tc_estimate c)..re_maximum_batch_size (tc_estimate c)}
     \<and> 0 < rd_cpu_threads (cs_decision s)
     \<and> rd_cpu_threads (cs_decision s) \<le> re_desired_cpu_threads (tc_estimate c)
     \<and> (\<not> tc_cpu_reducible c \<longrightarrow>
          rd_cpu_threads (cs_decision s) = re_desired_cpu_threads (tc_estimate c))
     \<and> cs_inflight_limit s \<in> {minimum_inflight c..tc_inflight_limit c}"

definition minimal_contract :: "task_capability \<Rightarrow> capability_selection \<Rightarrow> bool" where
  "minimal_contract c s \<longleftrightarrow>
     (tc_batch_adaptive c \<longrightarrow>
        rd_batch_size (cs_decision s) = re_minimum_batch_size (tc_estimate c))
     \<and> (tc_cpu_reducible c \<longrightarrow> rd_cpu_threads (cs_decision s) = 1)
     \<and> (tc_inflight_adaptive c \<longrightarrow> cs_inflight_limit s = minimum_inflight c)"

lemma charge_inflight_bytes:
  assumes "valid_capability c" and "inflight \<le> tc_inflight_limit c"
    and "charge_inflight c inflight e = Some e'"
  shows "tc_gpu_memory_bytes_per_inflight c = 0 \<and> e' = e
    \<or> (\<exists>x. e' = e\<lparr>re_gpu_memory_fixed_bytes := x\<rparr>
        \<and> unat x = unat (re_gpu_memory_fixed_bytes (tc_estimate c))
            + unat inflight * unat (tc_gpu_memory_bytes_per_inflight c))"
proof (cases "tc_gpu_memory_bytes_per_inflight c = 0")
  case True
  with assms(3) show ?thesis by (simp add: charge_inflight_def)
next
  case False
  let ?p = "tc_gpu_memory_bytes_per_inflight c"
  obtain x where e': "e' = e\<lparr>re_gpu_memory_fixed_bytes := x\<rparr>"
    and x: "add_uint64 (re_gpu_memory_fixed_bytes (tc_estimate c)) (inflight * ?p) = Some x"
    using assms(3) False by (auto simp: charge_inflight_def inflight_gpu_bytes_def)
  have "\<not> tc_inflight_limit c > UINT64_MAX div ?p" using assms(1) False by (auto simp: valid_capability_def)
  then have "inflight \<le> UINT64_MAX div ?p" using assms(2) by auto
  then have "\<not> inflight > UINT64_MAX div ?p" by auto
  then have "unat inflight * unat ?p < 18446744073709551616"
    using mult_guard64 [of ?p inflight] False by (simp add: word_greater_zero_iff)
  then have "unat (inflight * ?p) = unat inflight * unat ?p" by (intro unat_mult64)
  then show ?thesis using unat_add_uint64 [OF x] e' by auto
qed


lemma reduce_fields:
  assumes "(d2, inflight2) = reduce_under_pressure c e d inflight" and "decision_grants d"
  shows "rd_batch_size d2 = (if tc_batch_adaptive c then re_minimum_batch_size e else rd_batch_size d)"
    and "rd_cpu_threads d2 = (if tc_cpu_reducible c then 1 else rd_cpu_threads d)"
    and "rd_gpu_slots d2 = rd_gpu_slots d" and "rd_io_slots d2 = rd_io_slots d"
    and "inflight2 = (if tc_inflight_adaptive c then tc_minimum_inflight_limit c else inflight)"
  using assms by (simp_all add: reduce_under_pressure_def Let_def)

lemma reduce_refused: "\<not> decision_grants d \<Longrightarrow> reduce_under_pressure c e d inflight = (d, inflight)"
  by (simp add: reduce_under_pressure_def)

lemma limited_estimate_fields:
  "re_minimum_batch_size (limited_estimate c f) = re_minimum_batch_size (tc_estimate c)"
  "re_maximum_batch_size (limited_estimate c f) \<le> re_maximum_batch_size (tc_estimate c)"
  "re_desired_cpu_threads (limited_estimate c f) = (if tc_cpu_reducible c then fb_adaptive_cpu_limit f
     else re_desired_cpu_threads (tc_estimate c))"
  "re_gpu_memory_fixed_bytes (limited_estimate c f) = re_gpu_memory_fixed_bytes (tc_estimate c)"
  by (auto simp: limited_estimate_def Let_def minimum_size_def)

text \<open>A granted candidate: what it charges fits, its contract is in range.\<close>

lemma candidate_contract:
  assumes c: "admissible_capability c" and inv: "gov_inv g"
    and floor: "mf_admission_floor floors = rp_system_memory_reserve_bytes (g_policy g)"
    and ok: "adaptive_capability c \<Longrightarrow> limits_ok c f"
    and inflight: "inflight = (if tc_inflight_adaptive c then fb_adaptive_inflight_limit f else tc_inflight_limit c)"
    and op: "charge_inflight c inflight (limited_estimate c f) = Some operational"
    and ev: "evaluate_locked env snapshot operational upd floors g = Some (g2, d)"
    and red: "(d2, inflight2) = (if pressured then reduce_under_pressure c operational d inflight
      else (d, inflight))"
    and pressured: "pressured \<Longrightarrow> adaptive_capability c"
    and op2: "charge_inflight c inflight2 operational = Some operational2"
    and d3: "d3 = (if decision_grants d2 \<and> \<not> tc_cpu_reducible c
        \<and> rd_cpu_threads d2 \<noteq> re_desired_cpu_threads (tc_estimate c)
      then wait reason else d2)"
    and grants: "decision_grants d3"
    and s: "cs_decision s = d3" "cs_inflight_limit s = inflight2"
  shows "grant_fits g2 operational2 d3" and "contract_in_range c s"
    and "pressured \<Longrightarrow> minimal_contract c s"
proof -
  have valid: "valid_capability c" and e: "valid_estimate (tc_estimate c)"
    and min_le: "minimum_inflight c \<le> tc_inflight_limit c"
    using c by (auto simp: admissible_capability_def valid_capability_def)
  have min_eq: "minimum_inflight c = tc_minimum_inflight_limit c" if "tc_inflight_adaptive c"
    using valid that by (auto simp: valid_capability_def minimum_inflight_def)
  have d32: "d3 = d2" and g2: "decision_grants d2" and cpu_fixed:
    "\<not> tc_cpu_reducible c \<Longrightarrow> rd_cpu_threads d2 = re_desired_cpu_threads (tc_estimate c)"
    using d3 grants by (auto split: if_splits)
  have dg: "decision_grants d"
  proof (rule ccontr)
    assume "\<not> decision_grants d"
    with red g2 show False by (auto simp: reduce_refused split: if_splits)
  qed
  have range: "inflight \<in> {minimum_inflight c..tc_inflight_limit c}"
    using ok min_le inflight by (auto simp: limits_ok_def adaptive_capability_def)
  have fields: "rd_batch_size d2 = (if pressured \<and> tc_batch_adaptive c
        then re_minimum_batch_size operational else rd_batch_size d)"
    "rd_cpu_threads d2 = (if pressured \<and> tc_cpu_reducible c then 1 else rd_cpu_threads d)"
    "rd_gpu_slots d2 = rd_gpu_slots d" "rd_io_slots d2 = rd_io_slots d"
    "inflight2 = (if pressured \<and> tc_inflight_adaptive c then minimum_inflight c else inflight)"
    using red reduce_fields [of d2 inflight2 c operational d inflight] dg min_eq
    by (cases pressured; auto)+
  have range2: "inflight2 \<in> {minimum_inflight c..tc_inflight_limit c}" "inflight2 \<le> inflight"
    using fields(5) range min_le by auto
  have bytes: "tc_gpu_memory_bytes_per_inflight c = 0 \<and> operational = limited_estimate c f
    \<or> (\<exists>x. operational = (limited_estimate c f)\<lparr>re_gpu_memory_fixed_bytes := x\<rparr>
        \<and> unat x = unat (re_gpu_memory_fixed_bytes (tc_estimate c))
            + unat inflight * unat (tc_gpu_memory_bytes_per_inflight c))"
    using charge_inflight_bytes [OF valid _ op] range by auto
  have bytes2: "tc_gpu_memory_bytes_per_inflight c = 0 \<and> operational2 = operational
    \<or> (\<exists>x. operational2 = operational\<lparr>re_gpu_memory_fixed_bytes := x\<rparr>
        \<and> unat x = unat (re_gpu_memory_fixed_bytes (tc_estimate c))
            + unat inflight2 * unat (tc_gpu_memory_bytes_per_inflight c))"
    using charge_inflight_bytes [OF valid _ op2] range2 by auto
  have opf: "re_minimum_batch_size operational = re_minimum_batch_size (tc_estimate c)"
    "re_maximum_batch_size operational \<le> re_maximum_batch_size (tc_estimate c)"
    "re_desired_cpu_threads operational = (if tc_cpu_reducible c then fb_adaptive_cpu_limit f
       else re_desired_cpu_threads (tc_estimate c))"
    using bytes limited_estimate_fields [of c f] by auto
  note granted = evaluated_grant [OF inv ev dg floor]
  have cpu_le: "rd_cpu_threads d2 \<le> rd_cpu_threads d" "0 < rd_cpu_threads d2"
    using fields(2) granted(3) by (auto simp: word_le_nat_alt word_less_nat_alt)
  have desired: "re_desired_cpu_threads operational \<le> re_desired_cpu_threads (tc_estimate c)"
    using opf(3) ok by (auto simp: limits_ok_def adaptive_capability_def)
  have batch_le: "rd_batch_size d2 \<le> rd_batch_size d"
    using fields(1) granted(2) by auto
  obtain x where x: "operational2 = operational\<lparr>re_gpu_memory_fixed_bytes := x\<rparr>"
    "unat x \<le> unat (re_gpu_memory_fixed_bytes operational)"
  proof (cases "tc_gpu_memory_bytes_per_inflight c = 0")
    case True
    then obtain y where "operational2 = operational \<or> operational2 = operational\<lparr>re_gpu_memory_fixed_bytes := y\<rparr>
        \<and> unat y = unat (re_gpu_memory_fixed_bytes (tc_estimate c))"
      using bytes2 by auto
    moreover have "re_gpu_memory_fixed_bytes operational = re_gpu_memory_fixed_bytes (tc_estimate c)"
    proof -
      have "unat (re_gpu_memory_fixed_bytes operational) = unat (re_gpu_memory_fixed_bytes (tc_estimate c))"
        using bytes True limited_estimate_fields(4) [of c f] by auto
      then show ?thesis by (simp add: word_unat_eq_iff)
    qed
    moreover have "operational = operational\<lparr>re_gpu_memory_fixed_bytes := re_gpu_memory_fixed_bytes operational\<rparr>"
      by simp
    ultimately show ?thesis using that [of "re_gpu_memory_fixed_bytes operational"] that [of y] by auto
  next
    case False
    then obtain y z where "operational2 = operational\<lparr>re_gpu_memory_fixed_bytes := y\<rparr>"
      "unat y = unat (re_gpu_memory_fixed_bytes (tc_estimate c))
            + unat inflight2 * unat (tc_gpu_memory_bytes_per_inflight c)"
      "operational = (limited_estimate c f)\<lparr>re_gpu_memory_fixed_bytes := z\<rparr>"
      "unat z = unat (re_gpu_memory_fixed_bytes (tc_estimate c))
            + unat inflight * unat (tc_gpu_memory_bytes_per_inflight c)"
      using bytes bytes2 by auto
    moreover have "unat inflight2 \<le> unat inflight" using range2(2) by (simp add: word_le_nat_alt)
    ultimately show ?thesis using that [of y] by simp
  qed
  show "grant_fits g2 operational2 d3"
    unfolding d32 by (rule grant_fits_smaller [OF granted(1) x batch_le cpu_le(2,1) fields(3,4)])
  show "contract_in_range c s"
    using granted(2,4) fields(1) opf cpu_le desired cpu_fixed range2(1) batch_le
    by (auto simp: contract_in_range_def s d32 intro: order_trans)
  show "minimal_contract c s" if pressured
    using that fields(1,2,5) opf(1) by (simp add: minimal_contract_def s d32)
qed


section \<open>The search keeps the invariant\<close>

definition cap_inv :: "string \<Rightarrow> u32 \<Rightarrow> capability_envelope \<Rightarrow> 'a feedback_governor_scheme \<Rightarrow> bool" where
  "cap_inv kind version envelope g \<longleftrightarrow> gov_inv g \<and> table_inv g
     \<and> (\<forall>c \<in> set envelope. \<forall>j < 32. feedback_key kind version (tc_backend c) (cg_feedback g ! j)
          \<longrightarrow> feedback_suits c (cg_feedback g ! j))"

text \<open>What a Task's envelope must satisfy: its backends distinguish the feedback entries.\<close>

definition envelope_ok :: "string \<Rightarrow> capability_envelope \<Rightarrow> bool" where
  "envelope_ok kind envelope \<longleftrightarrow> kind \<noteq> [] \<and> length kind < TASK_KIND_CAPACITY
     \<and> valid_capability_envelope envelope \<and> list_all admissible_capability envelope
     \<and> distinct (map tc_backend envelope)"

lemma cap_inv_step:
  assumes "cap_inv kind version envelope g" and "gov_inv h" and "table_inv h"
    and "c \<in> set envelope" and "distinct (map tc_backend envelope)"
    and "\<And>j. j < 32 \<Longrightarrow> cg_feedback h ! j = cg_feedback g ! j
      \<or> feedback_key kind version (tc_backend c) (cg_feedback h ! j) \<and> feedback_suits c (cg_feedback h ! j)"
  shows "cap_inv kind version envelope h"
  unfolding cap_inv_def
proof (intro conjI ballI allI impI assms(2,3))
  fix c' j assume c': "c' \<in> set envelope" and j: "j < (32 :: nat)"
    and key: "feedback_key kind version (tc_backend c') (cg_feedback h ! j)"
  from assms(6) [OF j] show "feedback_suits c' (cg_feedback h ! j)"
  proof
    assume "cg_feedback h ! j = cg_feedback g ! j"
    with assms(1) c' j key show ?thesis by (auto simp: cap_inv_def)
  next
    assume *: "feedback_key kind version (tc_backend c) (cg_feedback h ! j) \<and> feedback_suits c (cg_feedback h ! j)"
    then have "tc_backend c' = tc_backend c" using key by (auto simp: feedback_key_def)
    then have "c' = c" using assms(4,5) c' by (auto simp: distinct_map inj_on_def)
    with * show ?thesis by simp
  qed
qed

lemma reset_key [simp]:
  "fb_used (reset_capability_throughput_feedback c f) = fb_used f"
  "entry_key (reset_capability_throughput_feedback c f) = entry_key f"
  by (simp_all add: reset_capability_throughput_feedback_def Let_def window_defs entry_key_def)

lemma limits_suit: "limits_ok c f \<Longrightarrow> feedback_suits c f"
  by (simp add: feedback_suits_def)

lemma try_capability_facts:
  assumes env: "envelope_ok kind envelope" and inv: "cap_inv kind version envelope g"
    and c: "c \<in> set envelope"
    and floor: "mf_admission_floor floors = rp_system_memory_reserve_bytes (g_policy g)"
    and run: "try_capability_locked e snapshot kind version c index upd floors g = Inr (h, s)"
  shows "cap_inv kind version envelope h" and "gov_accounts h = gov_accounts g"
    and "cs_capability s = c" and "cs_pressure s = g_pressure h" and "cs_capability_index s = index"
    and "decision_grants (cs_decision s) \<Longrightarrow> grant_fits h (cs_reservation_estimate s) (cs_decision s)
      \<and> contract_in_range c s
      \<and> (adaptive_capability c \<and> g_pressure h \<noteq> PRESSURE_GREEN \<longrightarrow> minimal_contract c s)"
proof -
  have adm: "admissible_capability c" and dist: "distinct (map tc_backend envelope)"
    and k: "kind \<noteq> []" "length kind < TASK_KIND_CAPACITY"
    using env c by (auto simp: envelope_ok_def list_all_iff)
  have gi: "gov_inv g" and ti: "table_inv g" using inv by (auto simp: cap_inv_def)
  from run obtain g1 i f inflight operational g2 d d2 inflight2 operational2 f2 d3 where
    look: "capability_feedback_locked kind version (tc_backend c) True g = (g1, Some i)"
    and f: "f = (if adaptive_capability c \<and> (fb_adaptive_cpu_limit (cg_feedback g1 ! i) = 0
        \<or> fb_adaptive_batch_limit (cg_feedback g1 ! i) = 0
        \<or> fb_adaptive_inflight_limit (cg_feedback g1 ! i) = 0)
      then reset_capability_throughput_feedback c (cg_feedback g1 ! i) else cg_feedback g1 ! i)"
    and inf: "inflight = (if tc_inflight_adaptive c then fb_adaptive_inflight_limit f else tc_inflight_limit c)"
    and op: "charge_inflight c inflight (limited_estimate c f) = Some operational"
    and ev: "evaluate_locked e snapshot operational upd floors (update_feedback i (\<lambda>_. f) g1) = Some (g2, d)"
    and red: "(d2, inflight2) = (if adaptive_capability c \<and> g_pressure g2 \<noteq> PRESSURE_GREEN
      then reduce_under_pressure c operational d inflight else (d, inflight))"
    and f2: "f2 = (if adaptive_capability c \<and> g_pressure g2 \<noteq> PRESSURE_GREEN
      then reset_capability_throughput_feedback c f else f)"
    and op2: "charge_inflight c inflight2 operational = Some operational2"
    and d3: "d3 = (if decision_grants d2 \<and> \<not> tc_cpu_reducible c
        \<and> rd_cpu_threads d2 \<noteq> re_desired_cpu_threads (tc_estimate c)
      then wait (''Le compte CPU fixe n'' @ [CHR 0x27] @ ''est pas disponible.'') else d2)"
    and h: "h = update_feedback i (\<lambda>_. f2) g2"
    and s: "cs_capability s = c" "cs_capability_index s = index" "cs_reservation_estimate s = operational2"
    "cs_decision s = d3" "cs_inflight_limit s = inflight2" "cs_pressure s = g_pressure h"
    by (rule try_capabilityE)
  obtain i' where i': "Some i = Some i'" "i' < 32" "feedback_key kind version (tc_backend c) (cg_feedback g1 ! i')"
    "table_inv g1" "gov_accounts g1 = gov_accounts g" "gov_inv g1 = gov_inv g"
    "\<And>j. j < 32 \<Longrightarrow> cg_feedback g1 ! j = cg_feedback g ! j
      \<or> j = i' \<and> cg_feedback g1 ! i' = zero_feedback\<lparr>fb_used := True, fb_task_kind_version := version,
          fb_backend := tc_backend c, fb_task_kind := kind\<rparr>"
    using capability_feedback_lookup [OF ti k look] by metis
  then have i: "i < 32" and ii: "i' = i" by simp_all
  let ?old = "cg_feedback g1 ! i"
  have kept: "feedback_key kind version (tc_backend c) (cg_feedback g ! i) \<Longrightarrow>
      feedback_suits c (cg_feedback g ! i)"
    using inv c i by (simp add: cap_inv_def)
  have created: "feedback_suits c (zero_feedback\<lparr>fb_used := True, fb_task_kind_version := version,
      fb_backend := tc_backend c, fb_task_kind := kind\<rparr>)"
    by (simp add: feedback_suits_def zero_feedback_def)
  have suits1: "feedback_suits c ?old"
    using i'(7) [OF i] i'(3) kept created unfolding ii by auto
  have lim: "limits_ok c f" if "adaptive_capability c"
    using suits1 that f reset_limits [OF admissible_trainable [OF adm]] by (auto simp: feedback_suits_def)
  have fsuits: "feedback_suits c f"
    using suits1 lim limits_suit by (cases "adaptive_capability c") (auto simp: f)
  have key: "fb_used f = fb_used ?old" "entry_key f = entry_key ?old" by (simp_all add: f)
  let ?g1 = "update_feedback i (\<lambda>_. f) g1"
  have gi1: "gov_inv ?g1" and t1: "table_inv ?g1" and acc1: "gov_accounts ?g1 = gov_accounts g"
    using gi i' key by (auto intro!: update_feedback_table simp: ii)
  note more = feedback_of_more [OF evaluate_more [OF ev]]
  have gi2: "gov_inv g2" and acc2: "gov_accounts g2 = gov_accounts g"
    using evaluate_locked_inv [OF gi1 ev] acc1 by simp_all
  have t2: "table_inv g2" using t1 more by (simp add: table_inv_def)
  have len: "length (cg_feedback g1) = 32" using i'(4) by (simp add: table_inv_alt)
  have at: "cg_feedback g2 ! i = f" using i len by (simp add: more update_feedback_def)
  have f2suits: "feedback_suits c f2" "fb_used f2 = fb_used f" "entry_key f2 = entry_key f"
    using fsuits limits_suit [OF reset_limits [OF admissible_trainable [OF adm]]] by (auto simp: f2)
  have th: "table_inv h"
    unfolding h using t2 f2suits at by (intro update_feedback_table) simp_all
  have entries: "cg_feedback h ! j = cg_feedback g ! j
      \<or> feedback_key kind version (tc_backend c) (cg_feedback h ! j) \<and> feedback_suits c (cg_feedback h ! j)"
    if "j < 32" for j
  proof (cases "j = i")
    case True
    have "cg_feedback h ! i = f2" using i len by (simp add: h more update_feedback_def)
    with True f2suits key i'(3) ii show ?thesis by (auto simp: feedback_key_alt)
  next
    case False
    then have "cg_feedback h ! j = cg_feedback g1 ! j" by (simp add: h more update_feedback_def)
    with i'(7) [OF that] False ii show ?thesis by auto
  qed
  have "gov_inv h" using gi2 by (simp add: h)
  then show "cap_inv kind version envelope h"
    by (rule cap_inv_step [OF inv _ th c dist entries])
  show "gov_accounts h = gov_accounts g" using acc2 by (simp add: h)
  show "cs_capability s = c" "cs_pressure s = g_pressure h" "cs_capability_index s = index" by (rule s)+
  show "grant_fits h (cs_reservation_estimate s) (cs_decision s) \<and> contract_in_range c s
      \<and> (adaptive_capability c \<and> g_pressure h \<noteq> PRESSURE_GREEN \<longrightarrow> minimal_contract c s)"
    if grants: "decision_grants (cs_decision s)"
  proof -
    have fl: "mf_admission_floor floors = rp_system_memory_reserve_bytes (g_policy ?g1)"
      using floor accounts_fields(2) [OF acc1] by simp
    have gd: "decision_grants d3" using grants by (simp add: s)
    note cc = candidate_contract [OF adm gi1 fl lim inf op ev red conjunct1 op2 d3 gd s(4,5)]
    have "grant_fits g2 operational2 d3" "contract_in_range c s" by (rule cc; assumption)+
    moreover have "minimal_contract c s" if "adaptive_capability c \<and> g_pressure h \<noteq> PRESSURE_GREEN"
      by (rule cc(3)) (use that in \<open>simp_all add: h\<close>)
    moreover have "grant_fits h operational2 d3 = grant_fits g2 operational2 d3"
      by (simp add: h update_feedback_def grant_fits_def)
    ultimately show ?thesis by (simp add: s)
  qed
qed


lemma admission_record_keeps [simp]:
  "fb_used (aggregate_admission fs s f) = fb_used f"
  "entry_key (aggregate_admission fs s f) = entry_key f"
  "feedback_suits c (aggregate_admission fs s f) = feedback_suits c f"
  "fb_used (f\<lparr>fb_diagnostic := d\<rparr>) = fb_used f"
  "entry_key (f\<lparr>fb_diagnostic := d\<rparr>) = entry_key f"
  "feedback_suits c (f\<lparr>fb_diagnostic := d\<rparr>) = feedback_suits c f"
  "entry_key (f\<lparr>fb_diagnostic_update_order := v\<rparr>) = entry_key f"
  "feedback_suits c (f\<lparr>fb_diagnostic_update_order := v\<rparr>) = feedback_suits c f"
  "entry_key (f\<lparr>fb_diagnostic_serial := v\<rparr>) = entry_key f"
  "feedback_suits c (f\<lparr>fb_diagnostic_serial := v\<rparr>) = feedback_suits c f"
  by (simp_all add: aggregate_admission_def Let_def entry_key_def feedback_suits_def limits_ok_def
    windows_ok_def)

text \<open>An update of one entry that keeps its key and its limits keeps the invariant.\<close>

lemma update_feedback_cap_inv:
  assumes "cap_inv kind version envelope g" and "i < 32"
    and "fb_used (f (cg_feedback g ! i)) = fb_used (cg_feedback g ! i)"
    and "entry_key (f (cg_feedback g ! i)) = entry_key (cg_feedback g ! i)"
    and "\<And>c. feedback_suits c (f (cg_feedback g ! i)) = feedback_suits c (cg_feedback g ! i)"
  shows "cap_inv kind version envelope (update_feedback i f g)"
proof -
  have len: "length (cg_feedback g) = 32" using assms(1) by (simp add: cap_inv_def table_inv_alt)
  have "table_inv (update_feedback i f g)"
    using assms by (intro update_feedback_table) (simp_all add: cap_inv_def)
  with assms len show ?thesis
    by (auto simp: cap_inv_def update_feedback_def feedback_key_alt nth_list_update
      simp del: update_feedback_keeps)
qed

lemma advance_serial_cap_inv:
  assumes "cap_inv kind version envelope g" and "i < 32"
  shows "cap_inv kind version envelope (advance_diagnostic_serial_locked i g)"
proof -
  let ?h = "advance_diagnostic_serial_locked i g"
  have len: "length (cg_feedback g) = 32" using assms(1) by (simp add: cap_inv_def table_inv_alt)
  have "fb_used (cg_feedback ?h ! j) = fb_used (cg_feedback g ! j)
    \<and> entry_key (cg_feedback ?h ! j) = entry_key (cg_feedback g ! j)
    \<and> feedback_suits c (cg_feedback ?h ! j) = feedback_suits c (cg_feedback g ! j)" if "j < 32" for j c
    using advance_serial_entries [of i g j] assms(2) that len by auto
  with assms show ?thesis by (simp add: cap_inv_def feedback_key_alt)
qed

lemma lookup_cap_inv:
  assumes env: "envelope_ok kind envelope" and inv: "cap_inv kind version envelope g"
    and c: "c \<in> set envelope"
    and look: "capability_feedback_locked kind version (tc_backend c) True g = (h, r)"
  obtains i where "r = Some i" "i < 32" "cap_inv kind version envelope h"
    "feedback_key kind version (tc_backend c) (cg_feedback h ! i)" "gov_accounts h = gov_accounts g"
proof -
  have k: "kind \<noteq> []" "length kind < TASK_KIND_CAPACITY" and dist: "distinct (map tc_backend envelope)"
    using env by (auto simp: envelope_ok_def)
  have gi: "gov_inv g" and ti: "table_inv g" using inv by (auto simp: cap_inv_def)
  have created: "feedback_suits c (zero_feedback\<lparr>fb_used := True, fb_task_kind_version := version,
      fb_backend := tc_backend c, fb_task_kind := kind\<rparr>)"
    by (simp add: feedback_suits_def zero_feedback_def)
  show ?thesis
  proof (rule capability_feedback_lookup [OF ti k look])
    fix i assume r: "r = Some i" and i: "i < 32"
      and key: "feedback_key kind version (tc_backend c) (cg_feedback h ! i)" and t: "table_inv h"
      and acc: "gov_accounts h = gov_accounts g" and gih: "gov_inv h = gov_inv g"
      and entries: "\<And>j. j < 32 \<Longrightarrow> cg_feedback h ! j = cg_feedback g ! j
        \<or> j = i \<and> cg_feedback h ! i = zero_feedback\<lparr>fb_used := True, fb_task_kind_version := version,
          fb_backend := tc_backend c, fb_task_kind := kind\<rparr>"
    have "cg_feedback h ! j = cg_feedback g ! j
      \<or> feedback_key kind version (tc_backend c) (cg_feedback h ! j) \<and> feedback_suits c (cg_feedback h ! j)"
      if "j < 32" for j
      using entries [OF that] key created by auto
    then have "cap_inv kind version envelope h"
      using cap_inv_step [OF inv _ t c dist] gi gih by simp
    with r i key acc show ?thesis by (intro that)
  qed
qed

definition same_contract :: "capability_selection \<Rightarrow> capability_selection \<Rightarrow> bool" where
  "same_contract s t \<longleftrightarrow> cs_capability s = cs_capability t \<and> cs_decision s = cs_decision t
     \<and> cs_inflight_limit s = cs_inflight_limit t \<and> cs_pressure s = cs_pressure t
     \<and> cs_capability_index s = cs_capability_index t
     \<and> cs_reservation_estimate s = cs_reservation_estimate t"

lemma grant_capability_facts:
  assumes env: "envelope_ok kind envelope" and inv: "cap_inv kind version envelope g"
    and c: "cs_capability candidate \<in> set envelope"
    and fits: "grant_fits g (cs_reservation_estimate candidate) (cs_decision candidate)"
  shows "grant_capability e kind version n index candidate g = Inr (h, s, a) \<Longrightarrow>
      cap_inv kind version envelope h \<and> same_contract s candidate
      \<and> (\<exists>g'. activate_reservation_locked e (cs_reservation_estimate candidate)
            (cs_decision candidate) g = Some (g', a) \<and> gov_accounts h = gov_accounts g')"
    and "grant_capability e kind version n index candidate g = Inl h \<Longrightarrow>
      cap_inv kind version envelope h \<and> gov_accounts h = gov_accounts g
      \<and> activate_reservation_locked e (cs_reservation_estimate candidate) (cs_decision candidate) g = None"
proof -
  define cand where "cand = (if tc_backend (cs_capability candidate) = BACKEND_CPU \<and> n > 1 \<and> index \<noteq> 0
      then selection_reason ''cpu-fallback-gpu-non-admitted'' candidate else candidate)"
  have same: "same_contract cand candidate"
    by (auto simp: cand_def same_contract_def selection_reason_def)
  note unfold = grant_capability_def [of e kind version n index candidate g, unfolded Let_def, folded cand_def]
  have act_inv: "cap_inv kind version envelope g'"
    if "activate_reservation_locked e (cs_reservation_estimate cand) (cs_decision cand) g = Some (g', a)" for g' a
  proof -
    have fits': "grant_fits g (cs_reservation_estimate cand) (cs_decision cand)"
      using fits same by (simp add: same_contract_def)
    have gi: "gov_inv g" using inv by (simp add: cap_inv_def)
    then have "accounts_inv g'"
      using activate_accounts_inv [OF _ fits' that] by (simp add: gov_inv_def)
    then have "gov_inv g'"
      using gi activate_keeps(1,2) [OF that] by (simp add: gov_inv_def)
    with inv show ?thesis
      using feedback_of_more [OF activate_more(1) [OF that]] by (simp add: cap_inv_def table_inv_def)
  qed
  show "cap_inv kind version envelope h \<and> same_contract s candidate
      \<and> (\<exists>g'. activate_reservation_locked e (cs_reservation_estimate candidate)
            (cs_decision candidate) g = Some (g', a) \<and> gov_accounts h = gov_accounts g')"
    if run: "grant_capability e kind version n index candidate g = Inr (h, s, a)"
  proof -
    have "activate_reservation_locked e (cs_reservation_estimate cand) (cs_decision cand) g \<noteq> None"
      using run unfolding unfold by (intro notI) simp
    then obtain g1 a1 where act: "activate_reservation_locked e (cs_reservation_estimate cand)
        (cs_decision cand) g = Some (g1, a1)" by auto
    obtain g2 r where look: "capability_feedback_locked kind version (tc_backend (cs_capability cand)) True g1 = (g2, r)"
      by fastforce
    have cin: "cs_capability cand \<in> set envelope" using c same by (simp add: same_contract_def)
    obtain i where i: "r = Some i" "i < 32" "cap_inv kind version envelope g2" "gov_accounts g2 = gov_accounts g1"
      using lookup_cap_inv [OF env act_inv [OF act] cin look] by metis
    define diag where "diag = admission_diagnostic kind version cand (rv_information (hd (g_active g2)))
        (cg_host_telemetry g2) (fb_diagnostic (cg_feedback g2 ! i))"
    define g3 where "g3 = update_feedback i (\<lambda>_. (cg_feedback g2 ! i)\<lparr>fb_diagnostic := diag\<rparr>) g2"
    define g4 where "g4 = update_feedback i (aggregate_admission (cg_feedback g3) cand) g3"
    have eq: "h = advance_diagnostic_serial_locked i g4" "s = cand" "a1 = a"
      using run unfolding unfold act by (auto simp: look i(1) diag_def g3_def g4_def)
    have "cap_inv kind version envelope g3"
      unfolding g3_def by (rule update_feedback_cap_inv [OF i(3,2)]) simp_all
    then have "cap_inv kind version envelope g4"
      unfolding g4_def using i(2) by (rule update_feedback_cap_inv) simp_all
    then have "cap_inv kind version envelope h"
      unfolding eq using i(2) by (rule advance_serial_cap_inv)
    moreover have "gov_accounts h = gov_accounts g1"
      using i(4) by (simp add: eq g3_def g4_def)
    ultimately show ?thesis using act same eq by (auto simp: same_contract_def)
  qed
  show "cap_inv kind version envelope h \<and> gov_accounts h = gov_accounts g
      \<and> activate_reservation_locked e (cs_reservation_estimate candidate) (cs_decision candidate) g = None"
    if run: "grant_capability e kind version n index candidate g = Inl h"
  proof (cases "activate_reservation_locked e (cs_reservation_estimate cand) (cs_decision cand) g")
    case None
    have "h = g" using run unfolding unfold None by simp
    with None inv same show ?thesis by (simp add: same_contract_def)
  next
    case (Some p)
    obtain g1 a where p: "p = (g1, a)" by fastforce
    note act = Some [unfolded p]
    obtain g2 r where look: "capability_feedback_locked kind version (tc_backend (cs_capability cand)) True g1 = (g2, r)"
      by fastforce
    have cin: "cs_capability cand \<in> set envelope" using c same by (simp add: same_contract_def)
    obtain i where "r = Some i"
      using lookup_cap_inv [OF env act_inv [OF act] cin look] by metis
    with run show ?thesis unfolding unfold act by (simp add: look)
  qed
qed

end
