(* ===== verification/Governor_Theorems.thy ===== *)
theory Governor_Theorems
  imports Governor_Safety
begin

text \<open>
  The properties of the Governor core: the accounting invariant in every reachable state,
  what a granted reservation guarantees, how release undoes it, and the host-pressure state
  machine.
\<close>

lemma activate_effects:
  assumes "activate_reservation_locked env e d g = Some (h, a)"
  obtains rv where "g_active h = rv # g_active g" "a = g_heap_next g" "rv_address rv = g_heap_next g"
    "rv_id rv = g_next_reservation_id g" "g_next_reservation_id g \<noteq> 0"
    "ri_state (rv_information rv) = RESERVATION_ACTIVE"
    "ri_batch_size (rv_information rv) = rd_batch_size d" "r_cpu rv = rd_cpu_threads d"
    "r_gpu_slots rv = rd_gpu_slots d" "r_io_slots rv = rd_io_slots d"
    "ri_task_class (rv_information rv) = re_task_class e"
    "unat (r_gpu_memory rv) = gpu_demand e (rd_batch_size d)"
    "unat (rv_charged_memory_bytes rv) = host_demand (g_profile g) e (rd_batch_size d)"
    "g_released h = g_released g" "g_profile h = g_profile g" "g_policy h = g_policy g"
    "g_memory_reserved_bytes h = g_memory_reserved_bytes g + rv_charged_memory_bytes rv"
    "g_gpu_memory_reserved_bytes h = g_gpu_memory_reserved_bytes g + r_gpu_memory rv"
    "g_cpu_reserved h = g_cpu_reserved g + r_cpu rv"
    "g_gpu_slots_reserved h = g_gpu_slots_reserved g + r_gpu_slots rv"
    "g_io_slots_reserved h = g_io_slots_reserved g + r_io_slots rv"
    "g_active_count h = g_active_count g + 1" "g_pressure h = g_pressure g"
    "g_generation h = g_generation g + 1"
proof (rule activateE [OF assms])
  fix m gm charged created_at r
  assume "g_next_reservation_id g \<noteq> 0" "a = g_heap_next g"
    "unat m = unat (re_memory_fixed_bytes e) + unat (re_memory_bytes_per_item e) * unat (rd_batch_size d)"
    "unat gm = gpu_demand e (rd_batch_size d)"
    "unat charged = host_demand (g_profile g) e (rd_batch_size d)"
    "r = \<lparr>rv_address = g_heap_next g,
       rv_information = \<lparr>ri_id = g_next_reservation_id g, ri_memory_bytes = m,
         ri_gpu_memory_bytes = gm, ri_cpu_threads = rd_cpu_threads d,
         ri_gpu_slots = rd_gpu_slots d, ri_io_slots = rd_io_slots d,
         ri_batch_size = rd_batch_size d, ri_task_class = re_task_class e,
         ri_state = RESERVATION_ACTIVE, ri_created_at = created_at\<rparr>,
       rv_charged_memory_bytes = charged\<rparr>"
    "h = g\<lparr>g_next_reservation_id := g_next_reservation_id g + 1, g_active := r # g_active g,
       g_memory_reserved_bytes := g_memory_reserved_bytes g + rv_charged_memory_bytes r,
       g_gpu_memory_reserved_bytes := g_gpu_memory_reserved_bytes g + r_gpu_memory r,
       g_cpu_reserved := g_cpu_reserved g + r_cpu r,
       g_gpu_slots_reserved := g_gpu_slots_reserved g + r_gpu_slots r,
       g_io_slots_reserved := g_io_slots_reserved g + r_io_slots r,
       g_active_count := g_active_count g + 1, g_generation := g_generation g + 1,
       g_heap_next := g_heap_next g + 1\<rparr>"
  then show thesis by (intro that [of r]) simp_all
qed

text \<open>A grant, put together: the evaluated state, the decision and the activation.\<close>

lemma reserve_grantE:
  assumes "gov_inv g" and "governor_reserve env s e g = (h, r)" and "rr_reservation r = Some a"
  obtains g1 d where "rr_decision r = Some d" "rr_ok r"
    "activate_reservation_locked env e d g1 = Some (h, a)"
    "gov_inv g1" "gov_accounts g1 = gov_accounts g" "decision_grants d" "valid_estimate e"
    "d = admission_decision g1 s e (internal_memory_floors_locked g)" "grant_fits g1 e d"
    "g1 = update_pressure_locked s (internal_memory_floors_locked g) g"
proof -
  obtain g1 d where
    ev: "evaluate_locked env s e True (internal_memory_floors_locked g) g = Some (g1, d)"
    and dg: "decision_grants d" and act: "activate_reservation_locked env e d g1 = Some (h, a)"
    and rd: "rr_decision r = Some d" "rr_ok r"
    using governor_reserve_granted [OF assms(2,3)] by metis
  note ev' = evaluate_locked_inv [OF assms(1) ev]
  note g1 = evaluate_locked_grants [OF ev dg]
  have "grant_fits g1 e d"
    unfolding g1(2) using ev'(1) accounts_fields [OF ev'(2)] g1(1,2) dg
    by (intro admission_grant_fits) (auto simp: gov_inv_def)
  with that [OF rd act ev' dg g1(1,2)] g1(3) show thesis by simp
qed

section \<open>Accounting\<close>

text \<open>
  C1. In every state a Governor reaches by its operations, each reserved counter is exactly
  the sum over the active reservations (no wrap-around, no leak), memory, GPU memory,
  CPU threads and both slot kinds stay within the budgets of the current policy, and no two
  reservations ever share an identifier.
\<close>

theorem governor_accounting:
  assumes "gov_reachable g"
  shows "unat (g_memory_reserved_bytes g) = (\<Sum>r\<leftarrow>g_active g. unat (rv_charged_memory_bytes r))
    \<and> unat (g_gpu_memory_reserved_bytes g) = (\<Sum>r\<leftarrow>g_active g. unat (r_gpu_memory r))
    \<and> unat (g_cpu_reserved g) = (\<Sum>r\<leftarrow>g_active g. unat (r_cpu r))
    \<and> unat (g_gpu_slots_reserved g) = (\<Sum>r\<leftarrow>g_active g. unat (r_gpu_slots r))
    \<and> unat (g_io_slots_reserved g) = (\<Sum>r\<leftarrow>g_active g. unat (r_io_slots r))
    \<and> unat (reservation_count g) = length (g_active g)
    \<and> g_memory_reserved_bytes g
        \<le> hp_memory_total_bytes (g_profile g) - rp_system_memory_reserve_bytes (g_policy g)
    \<and> g_gpu_memory_reserved_bytes g \<le> gpu_budget (g_profile g) (g_policy g)
    \<and> g_cpu_reserved g \<le> cp_compute_cpu_count (g_cpu_policy g)
    \<and> g_gpu_slots_reserved g \<le> rp_gpu_slot_capacity (g_policy g)
    \<and> g_io_slots_reserved g \<le> rp_io_slot_capacity (g_policy g)
    \<and> distinct (map rv_id (g_active g @ g_released g))"
  using gov_reachable_inv [OF assms]
  by (simp add: gov_inv_def accounts_inv_def gov_counters_def gov_budgets_def gov_ids_def
    charged_sum_def memory_budget_def reservation_count_def)

theorem governor_accounting_witness:
  "\<exists>g. gov_reachable g \<and> g_active g \<noteq> []
     \<and> unat (g_cpu_reserved g) = (\<Sum>r\<leftarrow>g_active g. unat (r_cpu r))"
proof -
  let ?g = "fst (governor_reserve sample_env sample_snapshot sample_estimate sample_governor)"
  have r: "gov_reachable ?g"
    by (rule reach_step [OF reach_create [OF sample_governor_created] step_reserve])
  have "0 < length (g_active ?g)" by code_simp
  with r governor_accounting [OF r] show ?thesis by (intro exI [of _ ?g]) auto
qed

text \<open>
  C2. A granted reservation: its batch is within the estimate's bounds, its identifier is new,
  it is recorded as active with the granted resources, and after charging it all reserved host
  memory together with the policy's system reserve fits in the memory the snapshot reports
  available (unless the grant needs no memory). On a UMA machine the charge counts the GPU
  bytes exactly once.
\<close>

theorem reserve_grant_contract:
  assumes "gov_inv g" and "governor_reserve env s e g = (h, r)" and "rr_reservation r = Some a"
  shows "\<exists>d info. rr_decision r = Some d \<and> reservation_get_active a h = Some info
    \<and> ri_state info = RESERVATION_ACTIVE \<and> ri_batch_size info = rd_batch_size d
    \<and> ri_cpu_threads info = rd_cpu_threads d \<and> 0 < rd_cpu_threads d
    \<and> rd_cpu_threads d \<le> re_desired_cpu_threads e
    \<and> re_minimum_batch_size e \<le> rd_batch_size d \<and> rd_batch_size d \<le> re_maximum_batch_size e
    \<and> ri_id info \<notin> rv_id ` set (g_active g @ g_released g)
    \<and> unat (g_memory_reserved_bytes h)
        = unat (g_memory_reserved_bytes g) + host_demand (g_profile g) e (rd_batch_size d)
    \<and> (unat (g_memory_reserved_bytes h) + unat (rp_system_memory_reserve_bytes (g_policy g))
          \<le> min (unat (rs_memory_available_bytes s)) (unat (hp_memory_total_bytes (g_profile g)))
        \<or> host_demand (g_profile g) e (rd_batch_size d) = 0)"
proof (rule reserve_grantE [OF assms])
  fix g1 d
  assume rd: "rr_decision r = Some d"
    and act: "activate_reservation_locked env e d g1 = Some (h, a)"
    and inv: "gov_inv g1" and acc: "gov_accounts g1 = gov_accounts g" and dg: "decision_grants d"
    and e: "valid_estimate e" and d: "d = admission_decision g1 s e (internal_memory_floors_locked g)"
    and fits: "grant_fits g1 e d"
  note fields = accounts_fields [OF acc]
  note host = admission_grant_host_memory [OF dg [unfolded d] e, folded d]
  have cpu: "rd_cpu_threads d \<le> re_desired_cpu_threads e"
    using admission_grantE [OF dg [unfolded d]] grant_slots_grants(3) d by metis
  obtain rv where rv: "g_active h = rv # g_active g1" "a = g_heap_next g1"
    "rv_address rv = g_heap_next g1" "rv_id rv = g_next_reservation_id g1"
    "g_next_reservation_id g1 \<noteq> 0" "ri_state (rv_information rv) = RESERVATION_ACTIVE"
    "ri_batch_size (rv_information rv) = rd_batch_size d" "r_cpu rv = rd_cpu_threads d"
    "unat (rv_charged_memory_bytes rv) = host_demand (g_profile g1) e (rd_batch_size d)"
    "g_memory_reserved_bytes h = g_memory_reserved_bytes g1 + rv_charged_memory_bytes rv"
    using activate_effects [OF act] by metis
  have get: "reservation_get_active a h = Some (rv_information rv)"
    using rv by (simp add: reservation_get_active_def find_reservation_def)
  have fresh: "rv_id rv \<notin> rv_id ` set (g_active g @ g_released g)"
    using inv rv(4,5) fields by (auto simp: gov_inv_def accounts_inv_def gov_ids_def)
  have "unat (g_memory_reserved_bytes g1) + unat (rv_charged_memory_bytes rv) < 18446744073709551616"
    using fits rv(9) unat_lt64 [of "memory_budget (g_profile g1) (g_policy g1)"]
    by (simp add: grant_fits_def)
  then have mem: "unat (g_memory_reserved_bytes h) =
      unat (g_memory_reserved_bytes g) + host_demand (g_profile g) e (rd_batch_size d)"
    using rv(9,10) fields by (simp add: unat_add64)
  show ?thesis
    using rd get rv(6-8) fits cpu host fresh mem fields
    by (intro exI [of _ d] exI [of _ "rv_information rv"]) (auto simp: grant_fits_def)
qed

theorem reserve_grant_contract_witness:
  "\<exists>d. rr_decision (snd (governor_reserve sample_env sample_snapshot sample_estimate sample_governor))
      = Some d \<and> rd_batch_size d \<le> 64"
  using reserve_grant_contract [OF sample_governor_inv surjective_pairing
    sample_reserve [THEN conjunct1]] by (auto simp: sample_estimate_def)

text \<open>
  C3. Releasing the reservation that a reserve granted succeeds once: it restores every
  counter, the active count and the active list to what they were before the reserve, keeps
  the record with state RELEASED, and a second release of the same pointer is refused and
  changes nothing.
\<close>

theorem release_undoes_reserve:
  assumes "gov_inv g" and "governor_reserve env s e g = (h, r)" and "rr_reservation r = Some a"
    and "governor_release a h = (k, released)"
  shows "released \<and> g_active k = g_active g
    \<and> g_memory_reserved_bytes k = g_memory_reserved_bytes g
    \<and> g_gpu_memory_reserved_bytes k = g_gpu_memory_reserved_bytes g
    \<and> g_cpu_reserved k = g_cpu_reserved g
    \<and> g_gpu_slots_reserved k = g_gpu_slots_reserved g
    \<and> g_io_slots_reserved k = g_io_slots_reserved g
    \<and> g_active_count k = g_active_count g
    \<and> map_option ri_state (reservation_get a k) = Some RESERVATION_RELEASED
    \<and> governor_release a k = (k, False)"
proof (rule reserve_grantE [OF assms(1-3)])
  fix g1 d
  assume act: "activate_reservation_locked env e d g1 = Some (h, a)"
    and inv: "gov_inv g1" and acc: "gov_accounts g1 = gov_accounts g"
  note fields = accounts_fields [OF acc]
  obtain rv where rv: "g_active h = rv # g_active g1" "a = g_heap_next g1"
    "rv_address rv = g_heap_next g1"
    "g_memory_reserved_bytes h = g_memory_reserved_bytes g1 + rv_charged_memory_bytes rv"
    "g_gpu_memory_reserved_bytes h = g_gpu_memory_reserved_bytes g1 + r_gpu_memory rv"
    "g_cpu_reserved h = g_cpu_reserved g1 + r_cpu rv"
    "g_gpu_slots_reserved h = g_gpu_slots_reserved g1 + r_gpu_slots rv"
    "g_io_slots_reserved h = g_io_slots_reserved g1 + r_io_slots rv"
    "g_active_count h = g_active_count g1 + 1" "g_released h = g_released g1"
    using activate_effects [OF act] by metis
  have found: "find_reservation (g_active h) a = Some rv"
    using rv by (simp add: find_reservation_def)
  have "rv_address ` set (gov_objects g1) = {..<g_heap_next g1}"
    using inv by (simp add: gov_inv_def accounts_inv_def gov_heap_def)
  then have gone: "find_reservation (g_active g1) a = None"
    using rv(2) by (auto simp: find_reservation_None)
  have k: "released" "g_active k = g_active g1" "g_released k = mark_released rv # g_released g1"
    "g_memory_reserved_bytes k = g_memory_reserved_bytes h - rv_charged_memory_bytes rv"
    "g_gpu_memory_reserved_bytes k = g_gpu_memory_reserved_bytes h - r_gpu_memory rv"
    "g_cpu_reserved k = g_cpu_reserved h - r_cpu rv"
    "g_gpu_slots_reserved k = g_gpu_slots_reserved h - r_gpu_slots rv"
    "g_io_slots_reserved k = g_io_slots_reserved h - r_io_slots rv"
    "g_active_count k = g_active_count h - 1"
    using assms(4) found rv by (auto simp: governor_release_def)
  have "reservation_get a k = Some (rv_information (mark_released rv))"
    using k gone rv by (simp add: reservation_get_def find_reservation_def)
  moreover have "governor_release a k = (k, False)"
    using k gone by (simp add: governor_release_def)
  ultimately show ?thesis using k rv fields by simp
qed

theorem release_undoes_reserve_witness:
  "\<exists>h r k. governor_reserve sample_env sample_snapshot sample_estimate sample_governor = (h, r)
     \<and> governor_release 0 h = (k, True) \<and> g_cpu_reserved k = 0
     \<and> governor_release 0 k = (k, False)"
proof -
  obtain h r where hr: "governor_reserve sample_env sample_snapshot sample_estimate sample_governor
      = (h, r)" by fastforce
  obtain k b where kb: "governor_release 0 h = (k, b)" by fastforce
  have "rr_reservation r = Some 0" using sample_reserve hr by simp
  from release_undoes_reserve [OF sample_governor_inv hr this kb] hr kb
  have "b" "g_cpu_reserved k = g_cpu_reserved sample_governor" "governor_release 0 k = (k, False)"
    by auto
  moreover have "g_cpu_reserved sample_governor = 0" by code_simp
  ultimately show ?thesis using hr kb by auto
qed

text \<open>
  The memory of the Governor is freed exactly once: in every reachable state the addresses
  \<open>destroy\<close> frees are exactly those of the reservations ever activated, without repetition.
\<close>

theorem destroy_frees_each_reservation_once:
  assumes "gov_reachable g"
  shows "distinct (governor_destroy g) \<and> set (governor_destroy g) = {..<g_heap_next g}"
  using gov_reachable_inv [OF assms]
  by (simp add: gov_inv_def accounts_inv_def gov_heap_def governor_destroy_def image_Un)

theorem destroy_frees_each_reservation_once_witness:
  "\<exists>g. gov_reachable g \<and> set (governor_destroy g) = {0}"
proof -
  let ?g = "fst (governor_reserve sample_env sample_snapshot sample_estimate sample_governor)"
  have r: "gov_reachable ?g"
    by (rule reach_step [OF reach_create [OF sample_governor_created] step_reserve])
  have "g_heap_next ?g = 1" by code_simp
  with destroy_frees_each_reservation_once [OF r] r show ?thesis by (intro exI [of _ ?g]) auto
qed

section \<open>Refusals\<close>

text \<open>
  Identifiers are never reused: once the 64-bit identifier counter has wrapped to 0, no
  reserve grants a reservation any more, whatever the snapshot and the estimate, and the
  accounts stay as they are.
\<close>

theorem exhausted_identifiers_refuse:
  assumes "g_next_reservation_id g = 0" and "gov_inv g" and "governor_reserve env s e g = (h, r)"
  shows "rr_reservation r = None \<and> g_next_reservation_id h = 0
    \<and> g_active h = g_active g \<and> g_memory_reserved_bytes h = g_memory_reserved_bytes g"
proof -
  have none: "activate_reservation_locked env e d g1 = None"
    if "gov_accounts g1 = gov_accounts g" for g1 :: "'a governor_scheme" and d
    using accounts_fields(12) [OF that] assms(1) by (simp add: activate_reservation_locked_def)
  from assms(3) show ?thesis
  proof (cases rule: governor_reserve_cases)
    case failed
    then show ?thesis using assms(1) by simp
  next
    case (refused d)
    then show ?thesis
      using accounts_fields [OF evaluate_locked_inv(2) [OF assms(2) refused(3)]] assms(1) by simp
  next
    case (not_activated d reason)
    then show ?thesis
      using accounts_fields [OF evaluate_locked_inv(2) [OF assms(2) not_activated(3)]] assms(1) by simp
  next
    case (granted g1 d a)
    then show ?thesis using none [OF evaluate_locked_inv(2) [OF assms(2) granted(3)]] by simp
  qed
qed

theorem exhausted_identifiers_refuse_witness:
  "\<exists>g :: governor. gov_inv g \<and> g_next_reservation_id g = 0
     \<and> rr_reservation (snd (governor_reserve sample_env sample_snapshot sample_estimate g)) = None"
proof -
  let ?g = "sample_governor\<lparr>g_next_reservation_id := 0\<rparr>"
  have i: "gov_inv ?g"
    using sample_governor_inv governor_create_inv(2,3) [OF sample_governor_created]
    by (simp add: gov_inv_def accounts_inv_def gov_counters_def gov_budgets_def gov_heap_def
      gov_ids_def gov_states_def charged_sum_def pressure_inv_def rings_inv_def)
  have "g_next_reservation_id ?g = 0" by simp
  from exhausted_identifiers_refuse [OF this i surjective_pairing] i this show ?thesis by blast
qed

section \<open>Measured batches\<close>

text \<open>
  Recording a measured batch appends it to the samples of its task class, keeping the
  last eight in order, leaves every other class alone, and touches no account.
\<close>

theorem recorded_batches_are_the_last_eight:
  assumes "gov_inv g" and "batch_size \<noteq> 0" and "task_class \<le> RESOURCE_TASK_MIXED"
    and "governor_record_batch task_class batch_size duration peak g = (h, ok)"
  defines "samples \<equiv> \<lambda>g i. ring_samples (g_batch_rings g ! i)"
  shows "ok \<and> samples h (unat task_class) =
      (let all = samples g (unat task_class) @ [\<lparr>bm_batch_size = batch_size,
          bm_duration_ns = duration, bm_peak_memory_bytes = peak\<rparr>]
       in drop (length all - 8) all)
    \<and> (\<forall>i. i \<noteq> unat task_class \<longrightarrow> samples h i = samples g i)
    \<and> gov_accounts h = gov_accounts g"
proof -
  let ?i = "unat task_class"
  let ?m = "\<lparr>bm_batch_size = batch_size, bm_duration_ns = duration, bm_peak_memory_bytes = peak\<rparr>"
  have nc: "(task_class > RESOURCE_TASK_MIXED) = False" using assms(3) by auto
  have "?i \<le> 5" using assms(3) by (simp add: word_le_nat_alt)
  then have i: "?i < length (g_batch_rings g)" and ok: "ring_ok (g_batch_rings g ! ?i)"
    using assms(1) by (auto simp: gov_inv_def rings_inv_def list_all_length)
  have h: "h = g\<lparr>g_batch_rings := (g_batch_rings g)[?i := ring_push ?m (g_batch_rings g ! ?i)],
      g_generation := g_generation g + 1\<rparr>" "ok"
    using assms(2,4) nc by (auto simp: governor_record_batch_def record_batch_locked_def Let_def)
  have "length (ring_samples (g_batch_rings g ! ?i)) = br_count (g_batch_rings g ! ?i)"
    by (simp add: ring_samples_def)
  then show ?thesis
    using h i ring_push_samples [OF ok, of ?m]
    by (simp add: samples_def Let_def BATCH_METRICS_CAPACITY_def gov_accounts_def)
qed

theorem recorded_batches_are_the_last_eight_witness:
  "ring_samples (g_batch_rings (fst (governor_record_batch RESOURCE_TASK_CPU 4 9 100 sample_governor)) ! 2)
     = [\<lparr>bm_batch_size = 4, bm_duration_ns = 9, bm_peak_memory_bytes = 100\<rparr>]"
proof -
  have "ring_samples (g_batch_rings sample_governor ! 2) = []" by code_simp
  with recorded_batches_are_the_last_eight [OF sample_governor_inv _ _ surjective_pairing,
      of 4 RESOURCE_TASK_CPU 9 100]
  show ?thesis by (simp add: Let_def)
qed

text \<open>
  C5. A batch limit reduced by measurements respects the memory contract: unless it is the
  floor of one item, the limit times the worst measured cost per item does not exceed the
  estimate's batch times its declared cost; the limit is always between one item and the
  estimate's batch.
\<close>

theorem adaptive_limit_respects_measurements:
  assumes "0 < static_batch" and "task_class \<le> RESOURCE_TASK_MIXED"
    and "m \<in> set (ring_samples (g_batch_rings g ! unat task_class))"
    and "0 < bm_batch_size m" and "0 < bm_peak_memory_bytes m" and "per_item \<noteq> 0"
  defines "limit \<equiv> adaptive_batch_limit g task_class static_batch per_item"
  shows "0 < limit \<and> limit \<le> static_batch
    \<and> (limit = 1 \<or> unat limit * unat (measured_cost m) \<le> unat static_batch * unat per_item)"
proof -
  let ?ring = "g_batch_rings g ! unat task_class"
  have nc: "(task_class > RESOURCE_TASK_MIXED) = False" using assms(2) by auto
  obtain worst n where w: "worst_measured_cost (ring_samples ?ring) 0 0 = (worst, n)" by fastforce
  have mem: "measured_cost m \<le> w' \<and> k < n'"
    if "worst_measured_cost ms x k = (w', n')" "m \<in> set ms" for ms x k w' n'
    using that
  proof (induction ms x k rule: worst_measured_cost.induct)
    case (2 m' ms x k)
    then show ?case
      using assms(4,5) worst_measured_cost_mono [of ms _ "Suc k" w' n']
      by (fastforce split: if_splits dest: worst_measured_cost_mono)
  qed simp
  from mem [OF w assms(3)] have le: "measured_cost m \<le> worst" and n: "n \<noteq> 0" by auto
  have ring: "br_count ?ring \<noteq> 0" using assms(3) by (auto simp: ring_samples_def)
  have nz: "static_batch \<noteq> 0" using assms(1) by (simp add: word_greater_zero_iff)
  have limit: "limit = (if worst \<le> per_item then static_batch
      else if static_batch > UINT64_MAX div per_item then 1
      else if static_batch * per_item div worst > 0 then static_batch * per_item div worst else 1)"
    using nz assms(6) nc w n ring by (simp add: limit_def adaptive_batch_limit_def Let_def)
  have fit: "unat limit * unat worst \<le> unat static_batch * unat per_item" if l: "limit \<noteq> 1"
  proof (cases "worst \<le> per_item")
    case True
    then have "limit = static_batch" using limit by simp
    with True show ?thesis by (simp add: word_le_nat_alt)
  next
    case False
    have p: "0 < per_item" using assms(6) by (simp add: word_greater_zero_iff)
    have g: "\<not> static_batch > UINT64_MAX div per_item"
      using False l limit by auto
    then have prod: "unat (static_batch * per_item) = unat static_batch * unat per_item"
      using mult_guard64 [OF p, of static_batch] by (intro unat_mult64) simp
    have "limit = static_batch * per_item div worst"
      using False g l limit by (auto split: if_splits)
    then have "unat limit = unat static_batch * unat per_item div unat worst"
      using prod by (simp add: unat_div)
    then show ?thesis by (metis div_times_less_eq_dividend)
  qed
  have "unat limit * unat (measured_cost m) \<le> unat limit * unat worst"
    using le by (simp add: word_le_nat_alt)
  then show ?thesis
    using fit adaptive_batch_limit_bounds [OF assms(1), of g task_class per_item]
    unfolding limit_def by (meson le_trans)
qed

theorem adaptive_limit_respects_measurements_witness:
  "let g = fst (governor_record_batch RESOURCE_TASK_CPU 4 9 100 sample_governor)
   in adaptive_batch_limit g RESOURCE_TASK_CPU 10 5 \<le> 10 \<and> adaptive_batch_limit g RESOURCE_TASK_CPU 10 5 = 2"
proof -
  let ?g = "fst (governor_record_batch RESOURCE_TASK_CPU 4 9 100 sample_governor)"
  let ?m = "\<lparr>bm_batch_size = 4, bm_duration_ns = 9, bm_peak_memory_bytes = 100\<rparr> :: batch_metrics"
  have "?m \<in> set (ring_samples (g_batch_rings ?g ! unat RESOURCE_TASK_CPU))" by code_simp
  from adaptive_limit_respects_measurements [OF _ _ this, of 10 5]
  have "adaptive_batch_limit ?g RESOURCE_TASK_CPU 10 5 \<le> 10" by simp
  moreover have "adaptive_batch_limit ?g RESOURCE_TASK_CPU 10 5 = 2" by code_simp
  ultimately show ?thesis by (simp add: Let_def)
qed

end
