(* ===== verification/Capability_Theorems.thy ===== *)
theory Capability_Theorems
  imports Capability_Safety Governor_Theorems
begin

text \<open>
  The properties of the capability path: what \<open>reserve_capability\<close> grants and keeps, its
  behaviour under pressure, and the private records of sequences.
\<close>

section \<open>The search over the envelope\<close>

definition granted_candidate ::
    "environment \<Rightarrow> capability_envelope \<Rightarrow> 'a feedback_governor_scheme \<Rightarrow> 'a feedback_governor_scheme
      \<Rightarrow> capability_selection \<Rightarrow> nat \<Rightarrow> bool" where
  "granted_candidate e envelope g h s a \<longleftrightarrow>
     cs_capability s \<in> set envelope \<and> runtime_capability_available_locked g (cs_capability s)
     \<and> decision_grants (cs_decision s) \<and> contract_in_range (cs_capability s) s
     \<and> (adaptive_capability (cs_capability s) \<and> cs_pressure s \<noteq> PRESSURE_GREEN
          \<longrightarrow> minimal_contract (cs_capability s) s)
     \<and> (\<exists>(g1 :: 'a feedback_governor_scheme) (g2 :: 'a feedback_governor_scheme).
          gov_accounts g1 = gov_accounts g
          \<and> activate_reservation_locked e (cs_reservation_estimate s) (cs_decision s) g1 = Some (g2, a)
          \<and> gov_accounts h = gov_accounts g2)"

lemma lookup_backend_available:
  assumes "capability_feedback_locked kind version b True g = (h, r)"
  shows "cg_orb_vulkan_backend_available h = cg_orb_vulkan_backend_available g"
  using assms
  by (auto simp: capability_feedback_locked_def Let_def split: if_splits option.splits prod.splits)

lemma try_available:
  assumes "try_capability_locked e snapshot kind version c index upd floors g = Inr (h, s)"
    and "gov_accounts h = gov_accounts g"
  shows "runtime_capability_available_locked h x = runtime_capability_available_locked g x"
proof -
  have "cg_orb_vulkan_backend_available h = cg_orb_vulkan_backend_available g"
    using assms(1)
  proof (rule try_capabilityE)
    fix g1 i f inflight operational g2 d d2 inflight2 operational2 f2 d3
    assume look: "capability_feedback_locked kind version (tc_backend c) True g = (g1, Some i)"
      and ev: "evaluate_locked e snapshot operational upd floors (update_feedback i (\<lambda>_. f) g1) = Some (g2, d)"
      and h: "h = update_feedback i (\<lambda>_. f2) g2"
    show ?thesis
      using lookup_backend_available [OF look] feedback_of_more(5) [OF evaluate_more [OF ev]]
      by (simp add: h update_feedback_def)
  qed
  with accounts_fields(1) [OF assms(2)] show ?thesis
    by (simp add: runtime_capability_available_locked_def capability_hardware_safe_locked_def)
qed

lemma try_capability_failed:
  assumes env: "envelope_ok kind envelope" and inv: "cap_inv kind version envelope g"
    and c: "c \<in> set envelope"
    and run: "try_capability_locked e snapshot kind version c index upd floors g = Inl h"
  shows "gov_accounts h = gov_accounts g \<and> gov_inv h"
proof -
  obtain g1 r where look: "capability_feedback_locked kind version (tc_backend c) True g = (g1, r)"
    by fastforce
  obtain i where i: "r = Some i" "cap_inv kind version envelope g1" "gov_accounts g1 = gov_accounts g"
    using lookup_cap_inv [OF env inv c look] by metis
  then have gi: "gov_inv g1" by (simp add: cap_inv_def)
  note step = run [unfolded try_capability_locked_def look i(1) prod.case option.case Let_def]
  define f where "f = (if adaptive_capability c \<and> (fb_adaptive_cpu_limit (cg_feedback g1 ! i) = 0
        \<or> fb_adaptive_batch_limit (cg_feedback g1 ! i) = 0
        \<or> fb_adaptive_inflight_limit (cg_feedback g1 ! i) = 0)
      then reset_capability_throughput_feedback c (cg_feedback g1 ! i) else cg_feedback g1 ! i)"
  define inflight where
    "inflight = (if tc_inflight_adaptive c then fb_adaptive_inflight_limit f else tc_inflight_limit c)"
  note step1 = step [folded f_def, folded inflight_def]
  show ?thesis
  proof (cases "charge_inflight c inflight (limited_estimate c f)")
    case None
    with step1 i gi show ?thesis by auto
  next
    case (Some operational)
    let ?g1 = "update_feedback i (\<lambda>_. f) g1"
    show ?thesis
    proof (cases "evaluate_locked e snapshot operational upd floors ?g1")
      case None
      with step1 Some i gi show ?thesis by auto
    next
      case ev: (Some p)
      obtain g2 d where p: "p = (g2, d)" by fastforce
      have gi1: "gov_inv ?g1" using gi by simp
      note facts = evaluate_locked_inv [OF gi1 ev [unfolded p]]
      obtain d2 inflight2 where red: "(if adaptive_capability c \<and> g_pressure g2 \<noteq> PRESSURE_GREEN
          then reduce_under_pressure c operational d inflight else (d, inflight)) = (d2, inflight2)"
        by fastforce
      note step2 = step1 [unfolded Some ev p option.case prod.case red]
      show ?thesis
      proof (cases "charge_inflight c inflight2 operational")
        case None
        with step2 facts i(3) show ?thesis by auto
      next
        case (Some operational2)
        with step2 show ?thesis by simp
      qed
    qed
  qed
qed

lemma search_facts:
  assumes "envelope_ok kind envelope" and "cap_inv kind version envelope g"
    and "mf_admission_floor floors = rp_system_memory_reserve_bytes (g_policy g)"
    and "\<forall>(i, c) \<in> set todo. c \<in> set envelope"
  shows "case search_capabilities e snapshot kind version n floors todo sr g of
      SEARCH_FAILED h \<Rightarrow> gov_inv h \<and> gov_accounts h = gov_accounts g
    | SEARCH_EXHAUSTED h _ \<Rightarrow> cap_inv kind version envelope h \<and> gov_accounts h = gov_accounts g
    | SEARCH_GRANTED h s a \<Rightarrow> cap_inv kind version envelope h \<and> granted_candidate e envelope g h s a"
  using assms
proof (induction e snapshot kind version n floors todo sr g rule: search_capabilities.induct)
  case (1 e snapshot kind version n floors sr g)
  then show ?case by simp
next
  case (2 e snapshot kind version n floors index c rest sr g)
  have c: "c \<in> set envelope" and rest: "\<forall>(i, c) \<in> set rest. c \<in> set envelope" using "2.prems"(4) by auto
  show ?case
  proof (cases "runtime_capability_available_locked g c")
    case False
    with "2.IH"(1) [OF False "2.prems"(1,2,3) rest] show ?thesis by simp
  next
    case avail: True
    show ?thesis
    proof (cases "try_capability_locked e snapshot kind version c index (\<not> sr_pressure_updated sr) floors g")
      case (Inl h)
      with avail try_capability_failed [OF "2.prems"(1,2) c Inl] show ?thesis by simp
    next
      case (Inr p)
      obtain h s where p: "p = (h, s)" by fastforce
      note run = Inr [unfolded p]
      note facts = try_capability_facts [OF "2.prems"(1,2) c "2.prems"(3) run]
      have floor: "mf_admission_floor floors = rp_system_memory_reserve_bytes (g_policy h)"
        using "2.prems"(3) accounts_fields(2) [OF facts(2)] by simp
      show ?thesis
      proof (cases "decision_grants (cs_decision s)")
        case False
        have IH: "case search_capabilities e snapshot kind version n floors rest
            \<lparr>sr_pressure_updated = True,
              sr_saw_wait = (sr_saw_wait sr \<or> rd_kind (cs_decision s) = RESOURCE_WAIT),
              sr_evaluated = True, sr_last = s\<rparr> h of
          SEARCH_FAILED k \<Rightarrow> gov_inv k \<and> gov_accounts k = gov_accounts h
        | SEARCH_EXHAUSTED k _ \<Rightarrow> cap_inv kind version envelope k \<and> gov_accounts k = gov_accounts h
        | SEARCH_GRANTED k s a \<Rightarrow> cap_inv kind version envelope k \<and> granted_candidate e envelope h k s a"
          using "2.IH"(2) [of "(h, s)" h s] avail run False "2.prems"(1) facts(1) floor rest by simp
        have "granted_candidate e envelope h k t a \<Longrightarrow> granted_candidate e envelope g k t a" for k t a
          using facts(2) try_available [OF run facts(2)] by (simp add: granted_candidate_def)
        with IH facts(2) avail run False show ?thesis by (simp split: search_result.splits)
      next
        case True
        note good = facts(6) [OF True]
        have cin: "cs_capability s \<in> set envelope" using c facts(3) by simp
        note grant = grant_capability_facts [OF "2.prems"(1) facts(1) cin conjunct1 [OF good]]
        show ?thesis
        proof (cases "grant_capability e kind version n index s h")
          case (Inl k)
          with grant(2) [OF Inl] facts(2) avail run True show ?thesis by (simp add: cap_inv_def)
        next
          case (Inr q)
          obtain k t a where q: "q = (k, t, a)" by (cases q) auto
          have g: "cap_inv kind version envelope k" "same_contract t s"
            "\<exists>g'. activate_reservation_locked e (cs_reservation_estimate s) (cs_decision s) h = Some (g', a)
              \<and> gov_accounts k = gov_accounts g'"
            using grant(1) [OF Inr [unfolded q]] by blast+
          have "granted_candidate e envelope g k t a"
            unfolding granted_candidate_def
          proof (intro conjI)
            show "cs_capability t \<in> set envelope" "runtime_capability_available_locked g (cs_capability t)"
              "decision_grants (cs_decision t)" "contract_in_range (cs_capability t) t"
              "adaptive_capability (cs_capability t) \<and> cs_pressure t \<noteq> PRESSURE_GREEN
                \<longrightarrow> minimal_contract (cs_capability t) t"
              using c facts(3,4) avail True good g(2)
              by (simp_all add: same_contract_def contract_in_range_def minimal_contract_def)
          qed (use g(2,3) facts(2) in \<open>auto simp: same_contract_def\<close>)
          with g(1) avail run True Inr q show ?thesis by simp
        qed
      qed
    qed
  qed
qed


lemma search_order_set: "(i, c) \<in> set (search_order envelope) \<Longrightarrow> c \<in> set envelope"
  by (auto simp: search_order_def in_set_enumerate_eq)

text \<open>The three results of \<open>reserve_capability\<close>.\<close>

lemma reserve_capability_cases:
  assumes env: "envelope_ok kind envelope" and inv: "cap_inv kind version envelope g"
    and run: "reserve_capability e snapshot kind version envelope g = (h, r)"
  obtains (failed) "\<not> cr_ok r" "cr_reservation r = None" "cr_selection r = None"
      "gov_inv h" "gov_accounts h = gov_accounts g"
  | (refused) s where "cr_ok r" "cr_reservation r = None" "cr_selection r = Some s"
      "cap_inv kind version envelope h" "gov_accounts h = gov_accounts g" "cs_pressure s = g_pressure h"
  | (granted) s a where "cr_ok r" "cr_reservation r = Some a" "cr_selection r = Some s"
      "cap_inv kind version envelope h" "granted_candidate e envelope g h s a"
      "ev_alloc e" "valid_snapshot (g_profile g) snapshot"
proof -
  have k: "kind \<noteq> []" and v: "valid_capability_envelope envelope" using env by (auto simp: envelope_ok_def)
  have gi: "gov_inv g" using inv by (simp add: cap_inv_def)
  let ?sr = "\<lparr>sr_pressure_updated = False, sr_saw_wait = False, sr_evaluated = False,
      sr_last = zero_selection\<rparr>"
  let ?res = "search_capabilities e snapshot kind version (length envelope)
      (internal_memory_floors_locked g) (search_order envelope) ?sr g"
  show ?thesis
  proof (cases "ev_alloc e \<and> valid_snapshot (g_profile g) snapshot")
    case False
    then have "h = g \<and> r = \<lparr>cr_ok = False, cr_selection = None, cr_reservation = None\<rparr>"
      using run v by (cases "ev_alloc e") (simp_all add: reserve_capability_def Let_def)
    then show ?thesis using gi by (intro failed) simp_all
  next
    case True
    then have eq: "reserve_capability e snapshot kind version envelope g =
      (case ?res of
        SEARCH_FAILED g \<Rightarrow> (g, \<lparr>cr_ok = False, cr_selection = None, cr_reservation = None\<rparr>)
      | SEARCH_GRANTED g selection created \<Rightarrow>
          (g, \<lparr>cr_ok = True, cr_selection = Some selection, cr_reservation = Some created\<rparr>)
      | SEARCH_EXHAUSTED g sr \<Rightarrow>
          (g, \<lparr>cr_ok = True, cr_selection = Some (refused_selection sr (g_pressure g)),
                cr_reservation = None\<rparr>))"
      using k v by (simp add: reserve_capability_def)
    have todo: "\<forall>(i, c) \<in> set (search_order envelope). c \<in> set envelope"
      using search_order_set by blast
    note facts = search_facts [OF env inv internal_floors_admission todo, of e snapshot "length envelope" ?sr]
    show ?thesis
    proof (cases ?res)
      case (SEARCH_FAILED k)
      with run eq facts show ?thesis by (intro failed) auto
    next
      case (SEARCH_GRANTED k s a)
      with run eq facts True show ?thesis by (intro granted [of a s]) auto
    next
      case (SEARCH_EXHAUSTED k sr)
      with run eq facts show ?thesis
        by (intro refused [of "refused_selection sr (g_pressure k)"])
          (auto simp: refused_selection_def Let_def)
    qed
  qed
qed

section \<open>Properties\<close>



definition sample_gpu_capability :: task_capability where
  "sample_gpu_capability = sample_capability\<lparr>tc_backend := BACKEND_ORB_VULKAN,
     tc_estimate := (tc_estimate sample_capability)\<lparr>re_desired_gpu_slots := 1,
       re_gpu_memory_fixed_bytes := 4096\<rparr>,
     tc_gpu_memory_bytes_per_inflight := 655360, tc_inflight_limit := 4,
     tc_minimum_inflight_limit := 1, tc_inflight_adaptive := True, tc_preferred := True,
     tc_requires_runtime_backend := True\<rparr>"

definition sample_envelope :: capability_envelope where
  "sample_envelope = [sample_gpu_capability, sample_capability]"

definition sample_feedback_governor :: feedback_governor where
  "sample_feedback_governor =
     (fresh_feedback sample_governor)\<lparr>cg_orb_vulkan_backend_available := True\<rparr>"

lemma sample_envelope_ok: "envelope_ok ''test'' sample_envelope"
  by code_simp

lemma fresh_inv: "gov_inv g \<Longrightarrow> gov_inv (fresh_feedback g)"
  by (cases g) (simp add: fresh_feedback_def governor.defs gov_inv_def accounts_inv_def
    gov_counters_def gov_budgets_def gov_heap_def gov_ids_def gov_states_def charged_sum_def
    pressure_inv_def rings_inv_def)

lemma sample_feedback_governor_inv: "cap_inv kind version envelope sample_feedback_governor"
proof -
  have "gov_inv sample_feedback_governor"
    using fresh_inv [OF sample_governor_inv]
    by (simp add: sample_feedback_governor_def gov_inv_def accounts_inv_def
      gov_counters_def gov_budgets_def gov_heap_def gov_ids_def gov_states_def charged_sum_def
      pressure_inv_def rings_inv_def)
  moreover have "cg_feedback sample_feedback_governor = replicate 32 zero_feedback"
    "cg_feedback_replace sample_feedback_governor = 0"
    by (simp_all add: sample_feedback_governor_def fresh_feedback_def governor.defs
      CAPABILITY_FEEDBACK_CAPACITY_def)
  ultimately show ?thesis
    by (simp add: cap_inv_def table_inv_def feedback_key_def CAPABILITY_FEEDBACK_CAPACITY_def
      zero_feedback_def)
qed

text \<open>A first candidate that is granted is the one reserved.\<close>

lemma reserve_first_candidate:
  assumes env: "envelope_ok kind envelope" and inv: "cap_inv kind version envelope g"
    and "ev_alloc e" and "valid_snapshot (g_profile g) snapshot"
    and order: "search_order envelope = (i, c) # rest"
    and "runtime_capability_available_locked g c"
    and run: "try_capability_locked e snapshot kind version c i True (internal_memory_floors_locked g) g
      = Inr (g1, s)"
    and "decision_grants (cs_decision s)"
    and act: "activate_reservation_locked e (cs_reservation_estimate s) (cs_decision s) g1 \<noteq> None"
  obtains a t where "cr_reservation (snd (reserve_capability e snapshot kind version envelope g)) = Some a"
    "cr_selection (snd (reserve_capability e snapshot kind version envelope g)) = Some t"
    "same_contract t s"
proof -
  have k: "kind \<noteq> []" and v: "valid_capability_envelope envelope" using env by (auto simp: envelope_ok_def)
  have c: "c \<in> set envelope" using search_order_set [of i c envelope] order by simp
  note facts = try_capability_facts [OF env inv c internal_floors_admission run]
  have cin: "cs_capability s \<in> set envelope" using c facts(3) by simp
  note grant = grant_capability_facts [OF env facts(1) cin conjunct1 [OF facts(6) [OF assms(8)]]]
  obtain h t a where gr: "grant_capability e kind version (length envelope) i s g1 = Inr (h, t, a)"
  proof (cases "grant_capability e kind version (length envelope) i s g1")
    case (Inl h)
    with grant(2) [OF Inl] act show ?thesis by simp
  next
    case (Inr q)
    then show ?thesis using that by (cases q) auto
  qed
  have "reserve_capability e snapshot kind version envelope g =
      (h, \<lparr>cr_ok = True, cr_selection = Some t, cr_reservation = Some a\<rparr>)"
    using assms(3,4,6,8) k v run gr by (simp add: reserve_capability_def order)
  with grant(1) [OF gr] show ?thesis by (intro that [of a t]) simp_all
qed

lemma sample_first:
  "case try_capability_locked sample_env sample_snapshot ''test'' 1 sample_gpu_capability 0 True
      (internal_memory_floors_locked sample_feedback_governor) sample_feedback_governor of
    Inl _ \<Rightarrow> False
  | Inr (g, s) \<Rightarrow> decision_grants (cs_decision s)
      \<and> activate_reservation_locked sample_env (cs_reservation_estimate s) (cs_decision s) g \<noteq> None"
  by code_simp

lemma sample_order: "search_order sample_envelope = [(0, sample_gpu_capability), (1, sample_capability)]"
  by (simp add: search_order_def sample_envelope_def sample_gpu_capability_def sample_capability_def
    enumerate_eq_zip)

lemma sample_available: "runtime_capability_available_locked sample_feedback_governor sample_gpu_capability
    \<and> ev_alloc sample_env \<and> valid_snapshot (g_profile sample_feedback_governor) sample_snapshot"
  by code_simp


text \<open>The same Governor, already YELLOW.\<close>

definition pressed_governor :: feedback_governor where
  "pressed_governor = sample_feedback_governor\<lparr>g_pressure := PRESSURE_YELLOW\<rparr>"

lemma pressed_first:
  "case try_capability_locked sample_env sample_snapshot ''test'' 1 sample_gpu_capability 0 True
      (internal_memory_floors_locked pressed_governor) pressed_governor of
    Inl _ \<Rightarrow> False
  | Inr (g, s) \<Rightarrow> decision_grants (cs_decision s) \<and> cs_pressure s = PRESSURE_YELLOW
      \<and> activate_reservation_locked sample_env (cs_reservation_estimate s) (cs_decision s) g \<noteq> None"
  by code_simp

lemma pressed_governor_inv: "cap_inv kind version envelope pressed_governor"
  using sample_feedback_governor_inv [of kind version envelope]
  by (auto simp: pressed_governor_def cap_inv_def table_inv_def gov_inv_def accounts_inv_def
      gov_counters_def gov_budgets_def gov_heap_def gov_ids_def gov_states_def charged_sum_def
      pressure_inv_def rings_inv_def)



end
