(* ===== verification/Sequence_Theorems.thy ===== *)
theory Sequence_Theorems
  imports Capability_Theorems
begin

text \<open>
  The properties of the private sequence records: recording never touches admission state,
  the newest diagnostic is the one a reader gets, and the aggregates are saturating sums.
\<close>

section \<open>Recording leaves admission alone\<close>

definition admission_state where
  "admission_state g = (gov_accounts g, g_pressure g, g_pressure_streak g, g_recovery_streak g,
     g_slow_start_streak g, g_slow_start_limit g, g_slow_start_active g, g_batch_rings g,
     g_swap_baseline_known g, g_last_swap_pages_in g, g_last_swap_pages_out g)"

lemma admission_state_keeps [simp]:
  "admission_state (g\<lparr>cg_feedback := x\<rparr>) = admission_state g"
  "admission_state (g\<lparr>cg_feedback_replace := n\<rparr>) = admission_state g"
  "admission_state (g\<lparr>cg_diagnostic_serial := z\<rparr>) = admission_state g"
  "admission_state (g\<lparr>cg_diagnostic_update_order := z\<rparr>) = admission_state g"
  "admission_state (g\<lparr>cg_host_telemetry := t\<rparr>) = admission_state g"
  "admission_state (g\<lparr>g_generation := z\<rparr>) = admission_state g"
  by (simp_all add: admission_state_def gov_accounts_def)

lemma admission_state_feedback [simp]:
  "admission_state (update_feedback i f g) = admission_state g"
  "admission_state (advance_diagnostic_serial_locked i g) = admission_state g"
  by (simp_all add: update_feedback_def advance_diagnostic_serial_locked_def Let_def split: prod.split)

lemma lookup_admission_state:
  "capability_feedback_locked kind version b create g = (h, r) \<Longrightarrow> admission_state h = admission_state g"
  by (auto simp: capability_feedback_locked_def Let_def split: if_splits option.splits prod.splits)

lemma lookup_created:
  assumes "kind \<noteq> []" and "length kind < TASK_KIND_CAPACITY" and "table_inv g"
  obtains h i where "capability_feedback_locked kind version b True g = (h, Some i)" "i < 32" "table_inv h"
    "feedback_key kind version b (cg_feedback h ! i)"
proof -
  obtain h r where look: "capability_feedback_locked kind version b True g = (h, r)" by fastforce
  then show ?thesis using capability_feedback_lookup [OF assms(3,1,2) look] that by metis
qed

lemma fallback_items_admission:
  "admission_state (fst (record_fallback_items kind version s cause n g)) = admission_state g"
proof -
  obtain h r where h: "capability_feedback_locked kind version BACKEND_ORB_VULKAN True g = (h, r)"
    by fastforce
  show ?thesis
    using lookup_admission_state [OF h]
    by (cases r; cases cause) (auto simp: record_fallback_items_def h)
qed

text \<open>
  Telemetry is separate from authority: recording a completed sequence or fallback items
  changes no reservation, counter, budget, pressure state or batch measurement of the
  Governor, whatever it is told; a refused call changes nothing else either, and an accepted
  sequence always advances the generation that wakes the waiters.
\<close>

theorem recording_never_touches_admission:
  "admission_state (fst (record_sequence_execution_metrics t kind version s wall items actual reason m g))
     = admission_state g
   \<and> admission_state (fst (record_fallback_items kind version s cause n g)) = admission_state g
   \<and> (snd (record_sequence_execution_metrics t kind version s wall items actual reason m g)
      \<longrightarrow> g_generation (fst (record_sequence_execution_metrics t kind version s wall items actual
            reason m g)) = g_generation g + 1)
   \<and> (kind = [] \<or> wall = 0 \<longrightarrow>
        record_sequence_execution_metrics t kind version s wall items actual reason m g = (g, False))
   \<and> (kind = [] \<or> tc_backend (cs_capability s) \<noteq> BACKEND_ORB_VULKAN \<longrightarrow>
        record_fallback_items kind version s cause n g = (g, False))"
proof -
  have gen: "g_generation (update_feedback i f k) = g_generation k"
    "g_generation (advance_diagnostic_serial_locked i k) = g_generation k"
    for i f and k :: "'a feedback_governor_scheme"
    by (simp_all add: update_feedback_def advance_diagnostic_serial_locked_def Let_def split: prod.split)
  have look_gen: "g_generation h = g_generation k"
    if "capability_feedback_locked kind version b True k = (h, r)"
    for b h r and k :: "'a feedback_governor_scheme"
    using that by (auto simp: capability_feedback_locked_def Let_def split: if_splits option.splits prod.splits)
  obtain h r where h: "capability_feedback_locked kind version (tc_backend (cs_capability s)) True
      (g\<lparr>cg_host_telemetry := t\<rparr>) = (h, r)"
    by fastforce
  show ?thesis
    using lookup_admission_state [OF h] look_gen [OF h] fallback_items_admission [of kind version s cause n g]
    by (cases r) (auto simp: record_sequence_execution_metrics_def Let_def h gen
      record_fallback_items_def)
qed

theorem recording_never_touches_admission_witness:
  "g_generation (fst (record_sequence unknown_telemetry ''test'' 1 (sample_selection 1 1) 1000 4
       sample_feedback_governor)) = g_generation sample_feedback_governor + 1
   \<and> admission_state (fst (record_sequence unknown_telemetry ''test'' 1 (sample_selection 1 1) 1000 4
       sample_feedback_governor)) = admission_state sample_feedback_governor"
proof -
  have t: "table_inv (sample_feedback_governor\<lparr>cg_host_telemetry := unknown_telemetry\<rparr>)"
    using sample_feedback_governor_inv [of "[]" 0 "[]"] by (simp add: cap_inv_def table_inv_def)
  obtain h i where look: "capability_feedback_locked ''test'' 1 BACKEND_CPU True
      (sample_feedback_governor\<lparr>cg_host_telemetry := unknown_telemetry\<rparr>) = (h, Some i)"
    by (rule lookup_created [OF _ _ t, of "''test''" 1 BACKEND_CPU])
      (simp_all add: TASK_KIND_CAPACITY_def)
  have b: "tc_backend (cs_capability (sample_selection 1 1)) = BACKEND_CPU"
    by (simp add: sample_selection_def sample_capability_def)
  have "snd (record_sequence_execution_metrics unknown_telemetry ''test'' 1 (sample_selection 1 1)
      1000 4 BACKEND_CPU ''selected-backend-completed'' None sample_feedback_governor)"
    by (simp add: record_sequence_execution_metrics_def b look Let_def)
  with recording_never_touches_admission [of unknown_telemetry "''test''" 1 "sample_selection 1 1"
      1000 4 BACKEND_CPU "''selected-backend-completed''" None sample_feedback_governor]
  show ?thesis by (simp add: record_sequence_def record_sequence_execution_def b)
qed

section \<open>The newest diagnostic\<close>

definition serial_inv :: "'a feedback_governor_scheme \<Rightarrow> bool" where
  "serial_inv g \<longleftrightarrow> (\<forall>j < 32. fb_diagnostic_serial (cg_feedback g ! j) \<le> cg_diagnostic_serial g
     \<and> fb_diagnostic_update_order (cg_feedback g ! j) \<le> cg_diagnostic_update_order g)"

definition diagnostic_matches :: "string \<Rightarrow> u32 \<Rightarrow> feedback \<Rightarrow> bool" where
  "diagnostic_matches kind version f \<longleftrightarrow> fb_used f \<and> fb_task_kind_version f = version
     \<and> fb_task_kind f = kind \<and> sd_task_kind (fb_diagnostic f) \<noteq> []"

lemma newer_asym: "diagnostic_newer a b \<Longrightarrow> \<not> diagnostic_newer b a"
  by (auto simp: diagnostic_newer_def)

lemma best_diagnostic_keeps:
  "(\<forall>f \<in> set fs. diagnostic_matches kind version f \<longrightarrow> diagnostic_newer b f) \<Longrightarrow>
     best_diagnostic kind version fs (Some b) = Some b"
  by (induction fs) (auto simp: diagnostic_matches_def dest: newer_asym)

lemma best_diagnostic_newest:
  assumes "i < length fs" and "diagnostic_matches kind version (fs ! i)"
    and "\<And>j. j < length fs \<Longrightarrow> j \<noteq> i \<Longrightarrow> diagnostic_newer (fs ! i) (fs ! j)"
    and "\<And>b. best = Some b \<Longrightarrow> diagnostic_newer (fs ! i) b"
  shows "best_diagnostic kind version fs best = Some (fs ! i)"
  using assms
proof (induction fs arbitrary: i best)
  case Nil
  then show ?case by simp
next
  case (Cons f fs)
  show ?case
  proof (cases i)
    case 0
    have "\<forall>x \<in> set fs. diagnostic_newer f x"
      using Cons.prems(3) [of "Suc _"] 0 by (auto simp: in_set_conv_nth)
    moreover have "best_diagnostic kind version (f # fs) best = best_diagnostic kind version fs (Some f)"
      using Cons.prems(2,4) 0 by (auto simp: diagnostic_matches_def split: option.splits)
    ultimately show ?thesis using best_diagnostic_keeps 0 by auto
  next
    case (Suc k)
    have newer: "diagnostic_newer (fs ! k) f" using Cons.prems(3) [of 0] Suc by simp
    have "best_diagnostic kind version fs c = Some (fs ! k)"
      if "\<And>b. c = Some b \<Longrightarrow> diagnostic_newer (fs ! k) b" for c
    proof (rule Cons.IH)
      show "k < length fs" "diagnostic_matches kind version (fs ! k)" using Cons.prems(1,2) Suc by simp_all
      show "diagnostic_newer (fs ! k) (fs ! j)" if "j < length fs" "j \<noteq> k" for j
        using Cons.prems(3) [of "Suc j"] that Suc by simp
    qed (rule that)
    note rest = this
    have "best_diagnostic kind version fs best = Some (fs ! k)" by (rule rest) (use Cons.prems(4) Suc in auto)
    moreover have "best_diagnostic kind version fs (Some f) = Some (fs ! k)" by (rule rest) (use newer in auto)
    ultimately show ?thesis using Suc by simp
  qed
qed

text \<open>Advancing the serial makes the entry the newest one, after renormalisation too.\<close>

lemma advance_serial_newest:
  assumes "serial_inv g" and "length (cg_feedback g) = 32" and "i < 32"
  defines "h \<equiv> advance_diagnostic_serial_locked i g"
  shows "serial_inv h" and "length (cg_feedback h) = 32"
    and "\<And>j. j < 32 \<Longrightarrow> j \<noteq> i \<Longrightarrow> diagnostic_newer (cg_feedback h ! i) (cg_feedback h ! j)"
    and "fb_diagnostic_serial (cg_feedback h ! i) = cg_diagnostic_serial h"
    and "cg_diagnostic_serial h =
      (if cg_diagnostic_serial g < UINT64_MAX then cg_diagnostic_serial g + 1 else cg_diagnostic_serial g)"
proof -
  let ?s = "cg_diagnostic_serial g" and ?o = "cg_diagnostic_update_order g"
  define serial where "serial = (if ?s < UINT64_MAX then ?s + 1 else ?s)"
  define base where "base = (if ?o = UINT64_MAX then 0 else ?o)"
  have inc: "x < y + 1" if "x \<le> y" "y \<noteq> UINT64_MAX" for x y :: u64
  proof -
    have "unat (y + 1) = unat y + 1"
    proof (rule unat_succ64)
      show "y + 1 \<noteq> 0" using that(2) by (metis add_diff_cancel diff_0)
    qed
    then show ?thesis using that(1) by (simp add: word_less_nat_alt word_le_nat_alt)
  qed
  have s_less: "x < serial \<or> x \<le> serial" "?s < UINT64_MAX \<Longrightarrow> x < serial" if "x \<le> ?s" for x
    using that inc [of x ?s] by (auto simp: serial_def)
  have entries: "cg_feedback h ! j =
      (if j = i then (cg_feedback g ! i)\<lparr>fb_diagnostic_update_order := base + 1, fb_diagnostic_serial := serial,
         fb_diagnostic := (fb_diagnostic (cg_feedback g ! i))\<lparr>sd_serial := serial\<rparr>\<rparr>
       else if ?o = UINT64_MAX then (cg_feedback g ! j)\<lparr>fb_diagnostic_update_order := 0\<rparr>
       else cg_feedback g ! j)" if "j < 32" for j
    using assms(2,3) that
    by (auto simp: h_def advance_diagnostic_serial_locked_def Let_def update_feedback_def
      serial_def base_def)
  have fields: "cg_diagnostic_serial h = serial" "cg_diagnostic_update_order h = base + 1"
    by (auto simp: h_def advance_diagnostic_serial_locked_def Let_def update_feedback_def serial_def
      base_def)
  have base: "base \<noteq> UINT64_MAX" by (auto simp: base_def)
  have order: "fb_diagnostic_update_order (cg_feedback h ! j) < base + 1" if "j < 32" "j \<noteq> i" for j
    using that entries [OF that(1)] assms(1) inc [OF _ base]
    by (auto simp: serial_inv_def base_def)
  have serials: "fb_diagnostic_serial (cg_feedback h ! j) \<le> ?s" if "j < 32" "j \<noteq> i" for j
    using that entries [OF that(1)] assms(1) by (auto simp: serial_inv_def)
  have s_le: "?s \<le> serial" using inc [of ?s ?s] by (auto simp: serial_def intro: less_imp_le)
  show "serial_inv h"
    unfolding serial_inv_def
  proof (intro allI impI)
    fix j :: nat assume j: "j < 32"
    show "fb_diagnostic_serial (cg_feedback h ! j) \<le> cg_diagnostic_serial h \<and>
        fb_diagnostic_update_order (cg_feedback h ! j) \<le> cg_diagnostic_update_order h"
    proof (cases "j = i")
      case True
      then show ?thesis using entries [OF j] by (simp add: fields)
    next
      case False
      then show ?thesis using serials [OF j False] order [OF j False] s_le by (auto simp: fields)
    qed
  qed
  show "length (cg_feedback h) = 32" using assms(2) by (simp add: h_def)
  show "fb_diagnostic_serial (cg_feedback h ! i) = cg_diagnostic_serial h"
    using entries [OF assms(3)] by (simp add: fields)
  show "cg_diagnostic_serial h = (if ?s < UINT64_MAX then ?s + 1 else ?s)"
    by (simp add: fields serial_def)
  show "diagnostic_newer (cg_feedback h ! i) (cg_feedback h ! j)" if "j < 32" "j \<noteq> i" for j
  proof -
    have i: "fb_diagnostic_serial (cg_feedback h ! i) = serial"
      "fb_diagnostic_update_order (cg_feedback h ! i) = base + 1"
      using entries [OF assms(3)] by simp_all
    have "fb_diagnostic_serial (cg_feedback h ! j) \<le> serial" using serials [OF that] s_le by simp
    then show ?thesis using order [OF that] i by (auto simp: diagnostic_newer_def)
  qed
qed


lemma activate_feedback:
  assumes "activate_reservation_locked env e d g = Some (h, a)"
  shows "cg_feedback h = cg_feedback g" and "cg_feedback_replace h = cg_feedback_replace g"
    and "cg_diagnostic_serial h = cg_diagnostic_serial g"
    and "cg_diagnostic_update_order h = cg_diagnostic_update_order g"
  using feedback_of_more [OF activate_more(1) [OF assms]] by simp_all

lemma lookup_serial_inv:
  assumes "table_inv g" "kind \<noteq> []" "length kind < TASK_KIND_CAPACITY" "serial_inv g"
    and look: "capability_feedback_locked kind version b True g = (h, r)"
  shows "serial_inv h" and "cg_diagnostic_serial h = cg_diagnostic_serial g"
proof -
  from capability_feedback_lookup [OF assms(1-3) look]
  obtain i where eq: "cg_diagnostic_serial h = cg_diagnostic_serial g"
      "cg_diagnostic_update_order h = cg_diagnostic_update_order g"
    and entries: "\<And>j. j < 32 \<Longrightarrow> cg_feedback h ! j = cg_feedback g ! j
      \<or> j = i \<and> cg_feedback h ! i = zero_feedback\<lparr>fb_used := True, fb_task_kind_version := version,
          fb_backend := b, fb_task_kind := kind\<rparr>"
    by metis
  show "cg_diagnostic_serial h = cg_diagnostic_serial g" by (rule eq)
  show "serial_inv h"
    unfolding serial_inv_def eq
  proof (intro allI impI)
    fix j :: nat assume "j < 32"
    then show "fb_diagnostic_serial (cg_feedback h ! j) \<le> cg_diagnostic_serial g
        \<and> fb_diagnostic_update_order (cg_feedback h ! j) \<le> cg_diagnostic_update_order g"
      using entries [of j] assms(4) by (auto simp: serial_inv_def zero_feedback_def)
  qed
qed

text \<open>
  What a reader of the diagnostics gets: once an admission is granted, the latest
  diagnostic of that kind and version describes exactly the granted selection (backend, batch,
  CPU threads, slots), carries the Governor's newest serial, which has advanced by one unless
  saturated, and is what a poll since any older serial returns. That the newest entry still
  wins when serials have saturated, and right after the update orders were renormalised, is
  part of the invariant that every grant re-establishes.
\<close>

theorem granted_selection_is_the_latest_diagnostic:
  assumes "table_inv g" and "serial_inv g" and "kind \<noteq> []" and "length kind < TASK_KIND_CAPACITY"
    and run: "grant_capability e kind version n index candidate g = Inr (h, s, a)"
  shows "\<exists>d. last_diagnostic kind version h = Some d
    \<and> sd_serial d = cg_diagnostic_serial h
    \<and> cg_diagnostic_serial h = (if cg_diagnostic_serial g < UINT64_MAX
        then cg_diagnostic_serial g + 1 else cg_diagnostic_serial g)
    \<and> sd_task_kind d = kind \<and> sd_backend d = tc_backend (cs_capability s)
    \<and> sd_batch_size d = rd_batch_size (cs_decision s)
    \<and> sd_cpu_threads d = rd_cpu_threads (cs_decision s)
    \<and> sd_gpu_slots d = rd_gpu_slots (cs_decision s)
    \<and> (\<forall>since. diagnostic_since kind version since h = (if sd_serial d > since then Some d else None))
    \<and> table_inv h \<and> serial_inv h"
proof -
  define cand where "cand = (if tc_backend (cs_capability candidate) = BACKEND_CPU \<and> n > 1 \<and> index \<noteq> 0
      then selection_reason ''cpu-fallback-gpu-non-admitted'' candidate else candidate)"
  note unfold = grant_capability_def [of e kind version n index candidate g, unfolded Let_def, folded cand_def]
  have "activate_reservation_locked e (cs_reservation_estimate cand) (cs_decision cand) g \<noteq> None"
    using run unfolding unfold by (intro notI) simp
  then obtain g1 a1 where act: "activate_reservation_locked e (cs_reservation_estimate cand)
      (cs_decision cand) g = Some (g1, a1)" by auto
  have g1: "table_inv g1" "serial_inv g1" "cg_diagnostic_serial g1 = cg_diagnostic_serial g"
    using assms(1,2) by (simp_all add: table_inv_def serial_inv_def activate_feedback [OF act])
  obtain g2 i where look: "capability_feedback_locked kind version (tc_backend (cs_capability cand)) True g1
      = (g2, Some i)" and i: "i < 32" and t2: "table_inv g2"
    and key: "feedback_key kind version (tc_backend (cs_capability cand)) (cg_feedback g2 ! i)"
    using lookup_created [OF assms(3,4) g1(1)] by metis
  note s2 = lookup_serial_inv [OF g1(1) assms(3,4) g1(2) look]
  define diag where "diag = admission_diagnostic kind version cand (rv_information (hd (g_active g2)))
      (cg_host_telemetry g2) (fb_diagnostic (cg_feedback g2 ! i))"
  define g3 where "g3 = update_feedback i (\<lambda>_. (cg_feedback g2 ! i)\<lparr>fb_diagnostic := diag\<rparr>) g2"
  define g4 where "g4 = update_feedback i (aggregate_admission (cg_feedback g3) cand) g3"
  have h: "h = advance_diagnostic_serial_locked i g4" "s = cand"
    using run unfolding unfold act by (auto simp: look diag_def g3_def g4_def)
  have len: "length (cg_feedback g2) = 32" using t2 by (simp add: table_inv_alt)
  have t3: "table_inv g3" unfolding g3_def
    by (rule update_feedback_table [OF t2]) (simp_all add: entry_key_def)
  have t4: "table_inv g4" unfolding g4_def
    by (rule update_feedback_table [OF t3])
      (simp_all add: aggregate_admission_def Let_def entry_key_def)
  have same: "fb_diagnostic_serial (cg_feedback g4 ! j) = fb_diagnostic_serial (cg_feedback g2 ! j)
      \<and> fb_diagnostic_update_order (cg_feedback g4 ! j) = fb_diagnostic_update_order (cg_feedback g2 ! j)"
    if "j < 32" for j
    using that i len by (auto simp: g4_def g3_def update_feedback_def nth_list_update
      aggregate_admission_def Let_def)
  have s4: "serial_inv g4"
    using s2(1) same by (simp add: serial_inv_def g4_def g3_def update_feedback_def)
  have l4: "length (cg_feedback g4) = 32" using t4 by (simp add: table_inv_alt)
  note adv = advance_serial_newest [OF s4 l4 i, folded h(1)]
  have entry: "fb_diagnostic (cg_feedback h ! i) = diag\<lparr>sd_serial := cg_diagnostic_serial h\<rparr>
      \<and> fb_used (cg_feedback h ! i) = fb_used (cg_feedback g2 ! i)
      \<and> entry_key (cg_feedback h ! i) = entry_key (cg_feedback g2 ! i)"
    using adv(4) i len
    by (auto simp: h(1) advance_diagnostic_serial_locked_def update_feedback_def Let_def g4_def g3_def
      aggregate_admission_def entry_key_def)
  have diag: "sd_task_kind diag = kind" "sd_backend diag = tc_backend (cs_capability s)"
    "sd_batch_size diag = rd_batch_size (cs_decision s)" "sd_cpu_threads diag = rd_cpu_threads (cs_decision s)"
    "sd_gpu_slots diag = rd_gpu_slots (cs_decision s)"
    using assms(4) by (simp_all add: diag_def admission_diagnostic_def h(2))
  have matches: "diagnostic_matches kind version (cg_feedback h ! i)"
    using entry key diag(1) assms(3) by (simp add: diagnostic_matches_def feedback_key_alt entry_key_def)
  have "best_diagnostic kind version (cg_feedback h) None = Some (cg_feedback h ! i)"
    using adv(2) i by (intro best_diagnostic_newest matches adv(3)) auto
  then have last: "last_diagnostic kind version h = Some (diag\<lparr>sd_serial := cg_diagnostic_serial h\<rparr>)"
    using entry by (simp add: last_diagnostic_def)
  have table: "table_inv h"
    unfolding h(1) using t4 i by (rule advance_serial_table)
  have "cg_diagnostic_serial g4 = cg_diagnostic_serial g"
    using s2(2) g1(3) by (simp add: g4_def g3_def update_feedback_def)
  then show ?thesis
    using last diag adv(1,5) table by (auto simp: diagnostic_since_def)
qed

theorem granted_selection_is_the_latest_diagnostic_witness:
  "\<exists>h s a d. grant_capability sample_env ''test'' 1 2 0 s sample_feedback_governor = Inr (h, s, a)
     \<and> last_diagnostic ''test'' 1 h = Some d \<and> sd_serial d = 1
     \<and> diagnostic_since ''test'' 1 0 h = Some d \<and> diagnostic_since ''test'' 1 1 h = None"
proof -
  have ser: "serial_inv sample_feedback_governor" "table_inv sample_feedback_governor"
      "cg_diagnostic_serial sample_feedback_governor = 0"
    using sample_feedback_governor_inv [of "[]" 0 "[]"]
    by (simp_all add: cap_inv_def serial_inv_def sample_feedback_governor_def fresh_feedback_def
      governor.defs CAPABILITY_FEEDBACK_CAPACITY_def zero_feedback_def)
  let ?s = "sample_selection 1 1"
  have "activate_reservation_locked sample_env (cs_reservation_estimate ?s) (cs_decision ?s)
      sample_feedback_governor \<noteq> None"
    by code_simp
  then obtain g1 a1 where act: "activate_reservation_locked sample_env (cs_reservation_estimate ?s)
      (cs_decision ?s) sample_feedback_governor = Some (g1, a1)" by auto
  have t1: "table_inv g1" using ser(2) by (simp add: table_inv_def activate_feedback [OF act])
  have k: "''test'' \<noteq> []" "length ''test'' < TASK_KIND_CAPACITY" by (simp_all add: TASK_KIND_CAPACITY_def)
  obtain g2 i where look: "capability_feedback_locked ''test'' 1 (tc_backend (cs_capability ?s)) True g1
      = (g2, Some i)"
    using lookup_created [OF k t1] by metis
  obtain h where run: "grant_capability sample_env ''test'' 1 2 0 ?s sample_feedback_governor
      = Inr (h, ?s, a1)"
    by (simp add: grant_capability_def act look Let_def)
  have max: "(0 :: u64) < UINT64_MAX" by code_simp
  from granted_selection_is_the_latest_diagnostic [OF ser(2,1) k run]
  obtain d where "last_diagnostic ''test'' 1 h = Some d" "sd_serial d = cg_diagnostic_serial h"
    "cg_diagnostic_serial h = 1"
    "\<forall>since. diagnostic_since ''test'' 1 since h = (if sd_serial d > since then Some d else None)"
    using ser(3) max by auto
  with run show ?thesis by (intro exI [of _ h] exI [of _ ?s] exI [of _ a1] exI [of _ d]) simp
qed

section \<open>Aggregates are saturating sums\<close>

definition sat_add :: "u64 \<Rightarrow> u64 \<Rightarrow> u64" where
  "sat_add v a = (if v > UINT64_MAX - a then UINT64_MAX else v + a)"

lemma sat_add_nat: "unat (sat_add v a) = min (unat UINT64_MAX) (unat v + unat a)"
proof -
  have "aggregate_add v a False = (sat_add v a, v > UINT64_MAX - a)"
    by (simp add: aggregate_add_def sat_add_def)
  then show ?thesis by (rule aggregate_add_spec(1))
qed

lemma aggregate_counter_alt:
  "aggregate_counter get upd x a = upd (\<lambda>_. sat_add (get a) x)
     (a\<lparr>sa_saturated := (sa_saturated a \<or> get a > UINT64_MAX - x)\<rparr>)"
  by (simp add: aggregate_counter_def aggregate_add_def sat_add_def)

lemma aggregate_element_alt:
  "aggregate_element get upd b x a = upd (\<lambda>xs. xs[backend_index b := sat_add (get a ! backend_index b) x])
     (a\<lparr>sa_saturated := (sa_saturated a \<or> get a ! backend_index b > UINT64_MAX - x)\<rparr>)"
  by (simp add: aggregate_element_def aggregate_add_def sat_add_def)

lemma merge_aggregate_fields:
  "\<forall>(get, upd) \<in> set merge_fields. get (merge_aggregate source result) = sat_add (get result) (get source)"
  by (simp add: merge_fields_def merge_aggregate_def merge_counter_def merge_backend_def Let_def
    aggregate_counter_alt aggregate_element_alt)

lemma merge_aggregate_saturated:
  assumes "\<not> sa_saturated (merge_aggregate source result)"
  shows "\<not> sa_saturated result"
    and "\<forall>(get, upd) \<in> set merge_fields. \<not> get result > UINT64_MAX - get source"
  using assms
  by (simp_all add: merge_fields_def merge_aggregate_def merge_counter_def merge_backend_def Let_def
    aggregate_counter_alt aggregate_element_alt)

lemma fold_saturating:
  assumes "\<And>source result. get (merge_aggregate source result) = sat_add (get result) (get source)"
  shows "unat (get (fold (\<lambda>f. merge_aggregate (fb_aggregate f)) fs a))
    = min (unat UINT64_MAX) (unat (get a) + (\<Sum>f\<leftarrow>fs. unat (get (fb_aggregate f))))"
proof (induction fs arbitrary: a)
  case Nil
  then show ?case using unat_le_max64 [of "get a"] by (simp add: unat_max64 min_def)
next
  case (Cons f fs)
  then show ?case by (simp add: assms sat_add_nat)
qed

lemma fold_saturated:
  assumes "\<not> sa_saturated (fold (\<lambda>f. merge_aggregate (fb_aggregate f)) fs a)"
    and exact: "\<And>source result. get (merge_aggregate source result) = sat_add (get result) (get source)"
    and guard: "\<And>source result. \<not> sa_saturated (merge_aggregate source result)
      \<Longrightarrow> \<not> get result > UINT64_MAX - get source"
  shows "unat (get (fold (\<lambda>f. merge_aggregate (fb_aggregate f)) fs a))
      = unat (get a) + (\<Sum>f\<leftarrow>fs. unat (get (fb_aggregate f))) \<and> \<not> sa_saturated a"
  using assms(1)
proof (induction fs arbitrary: a)
  case Nil
  then show ?case by simp
next
  case (Cons f fs)
  let ?m = "merge_aggregate (fb_aggregate f) a"
  have rest: "unat (get (fold (\<lambda>f. merge_aggregate (fb_aggregate f)) fs ?m))
      = unat (get ?m) + (\<Sum>f\<leftarrow>fs. unat (get (fb_aggregate f)))" "\<not> sa_saturated ?m"
    using Cons by simp_all
  have g: "\<not> get a > UINT64_MAX - get (fb_aggregate f)" by (rule guard [OF rest(2)])
  then have "get ?m = get a + get (fb_aggregate f)" by (simp add: exact sat_add_def)
  moreover have "unat (get a + get (fb_aggregate f)) = unat (get a) + unat (get (fb_aggregate f))"
    using g unat_le_max64 [of "get (fb_aggregate f)"]
    by (intro unat_add64) (simp add: word_less_nat_alt max64_sub [simplified])
  ultimately show ?case using rest merge_aggregate_saturated(1) [OF rest(2)] by simp
qed

text \<open>
  The private aggregate of a kind and version is the saturating sum of its entries over
  all backends: each of the 22 counters is the exact total clamped to the 64-bit maximum, never
  a wrapped value, and when the result is not marked saturated every counter is the exact total.
\<close>

theorem aggregates_are_saturating_sums:
  assumes "governor_sequence_aggregate kind version g = Some r"
  shows "\<forall>(get, upd) \<in> set merge_fields.
    unat (get r) = min (unat UINT64_MAX)
      (\<Sum>f\<leftarrow>aggregate_entries kind version (cg_feedback g). unat (get (fb_aggregate f)))
    \<and> (\<not> sa_saturated r \<longrightarrow> unat (get r)
        = (\<Sum>f\<leftarrow>aggregate_entries kind version (cg_feedback g). unat (get (fb_aggregate f))))"
proof -
  let ?fs = "aggregate_entries kind version (cg_feedback g)"
  have r: "r = fold (\<lambda>f. merge_aggregate (fb_aggregate f)) ?fs zero_aggregate"
    using assms by (auto simp: governor_sequence_aggregate_def split: if_splits list.splits)
  have zero: "\<forall>(get, upd) \<in> set merge_fields. get zero_aggregate = 0"
    by (simp add: merge_fields_def zero_aggregate_def)
  show ?thesis
  proof (clarify, intro conjI impI)
    fix get upd assume f: "(get, upd) \<in> set merge_fields"
    have exact: "get (merge_aggregate source result) = sat_add (get result) (get source)" for source result
      using merge_aggregate_fields [of source result] f by blast
    have z: "get zero_aggregate = 0" using zero f by blast
    show "unat (get r) = min (unat UINT64_MAX) (\<Sum>f\<leftarrow>?fs. unat (get (fb_aggregate f)))"
      using fold_saturating [of get ?fs zero_aggregate, OF exact] z by (simp add: r)
    assume "\<not> sa_saturated r"
    moreover have "\<not> get result > UINT64_MAX - get source"
      if "\<not> sa_saturated (merge_aggregate source result)" for source result
      using merge_aggregate_saturated(2) [OF that] f by blast
    ultimately show "unat (get r) = (\<Sum>f\<leftarrow>?fs. unat (get (fb_aggregate f)))"
      using fold_saturated [of ?fs zero_aggregate get, OF _ exact] z unfolding r by simp
  qed
qed

definition sample_aggregates :: "u64 \<Rightarrow> u64 \<Rightarrow> feedback_governor" where
  "sample_aggregates a b =
     (let f = zero_feedback\<lparr>fb_used := True, fb_task_kind := ''test'', fb_task_kind_version := 1\<rparr>
      in (fresh_feedback sample_governor)\<lparr>cg_feedback :=
           [f\<lparr>fb_backend := BACKEND_CPU, fb_aggregate := zero_aggregate\<lparr>sa_durable_items := a\<rparr>\<rparr>,
            f\<lparr>fb_backend := BACKEND_ORB_VULKAN, fb_aggregate := zero_aggregate\<lparr>sa_durable_items := b\<rparr>\<rparr>]
           @ replicate 30 zero_feedback\<rparr>)"

theorem aggregates_are_saturating_sums_witness:
  "\<exists>r r'. governor_sequence_aggregate ''test'' 1 (sample_aggregates 5 7) = Some r
     \<and> unat (sa_durable_items r) = 12
     \<and> governor_sequence_aggregate ''test'' 1 (sample_aggregates 5 UINT64_MAX) = Some r'
     \<and> unat (sa_durable_items r') = unat UINT64_MAX"
proof -
  have entries: "aggregate_entries ''test'' 1 (cg_feedback (sample_aggregates a b)) =
      take 2 (cg_feedback (sample_aggregates a b))" for a b
    by (simp add: aggregate_entries_def sample_aggregates_def Let_def zero_feedback_def)
  have some: "\<exists>r. governor_sequence_aggregate ''test'' 1 (sample_aggregates a b) = Some r" for a b
    using entries [of a b]
    by (simp add: governor_sequence_aggregate_def) (simp add: sample_aggregates_def Let_def)
  have items: "(\<Sum>f\<leftarrow>take 2 (cg_feedback (sample_aggregates a b)). unat (sa_durable_items (fb_aggregate f)))
      = unat a + unat b" for a b
    by (simp add: sample_aggregates_def Let_def)
  have field: "(sa_durable_items, sa_durable_items_update) \<in> set merge_fields"
    by (simp add: merge_fields_def)
  have sums: "unat (sa_durable_items r) = min (unat UINT64_MAX) (unat a + unat b)"
    if "governor_sequence_aggregate ''test'' 1 (sample_aggregates a b) = Some r" for a b r
    using bspec [OF aggregates_are_saturating_sums [OF that] field] by (simp only: prod.case entries items)
  have "(12 :: nat) \<le> unat UINT64_MAX" by (simp add: unat_max64)
  moreover obtain r where r: "governor_sequence_aggregate ''test'' 1 (sample_aggregates 5 7) = Some r"
    using some by blast
  moreover obtain r' where r': "governor_sequence_aggregate ''test'' 1 (sample_aggregates 5 UINT64_MAX) = Some r'"
    using some by blast
  ultimately show ?thesis using sums [OF r] sums [OF r'] by (simp add: unat_max64)
qed

end
