(* ===== verification/Checkpoint_Codec.thy ===== *)
theory Checkpoint_Codec
  imports Resource_Types
begin

text \<open>
  The Task checkpoint codec (\<open>src/task_checkpoint.c\<close>): the fixed 516-byte, little-endian
  layout with its FNV-1a checksum, the validation of durable snapshots and the decoder.
  Character arrays of the snapshot are byte buffers of their full capacity, as \<open>memcpy\<close>
  moves them; \<open>Lardon3DTaskState\<close> and the task class travel as raw 32-bit codes. The locale
  \<open>checked_codec\<close> is the contract the store relies on.
\<close>

type_synonym bytes = "u8 list"

section \<open>The durable snapshot\<close>

abbreviation (input) TASK_PENDING :: u32 where "TASK_PENDING \<equiv> 0"
abbreviation (input) TASK_RUNNING :: u32 where "TASK_RUNNING \<equiv> 1"
abbreviation (input) TASK_PAUSED :: u32 where "TASK_PAUSED \<equiv> 2"
abbreviation (input) TASK_CANCELLED :: u32 where "TASK_CANCELLED \<equiv> 3"
abbreviation (input) TASK_FAILED :: u32 where "TASK_FAILED \<equiv> 4"
abbreviation (input) TASK_COMPLETED :: u32 where "TASK_COMPLETED \<equiv> 5"

definition TASK_NAME_CAPACITY :: nat where "TASK_NAME_CAPACITY = 128"
definition TASK_MESSAGE_CAPACITY :: nat where "TASK_MESSAGE_CAPACITY = 256"

record durable_snapshot =
  ds_id :: u64
  ds_name :: bytes
  ds_estimate :: resource_estimate
  ds_progress :: u32
  ds_saved_state :: u32
  ds_recovery_state :: u32
  ds_message :: bytes
  ds_started_at :: timespec
  ds_finished_at :: timespec
  ds_sequence_count :: u32

text \<open>What the C types fix: the buffer sizes and a 64-bit \<open>time_t\<close>.\<close>

definition snapshot_typed :: "durable_snapshot \<Rightarrow> bool" where
  "snapshot_typed s \<longleftrightarrow> length (ds_name s) = TASK_NAME_CAPACITY
     \<and> length (ds_message s) = TASK_MESSAGE_CAPACITY
     \<and> tv_sec (ds_started_at s) < 2 ^ 63 \<and> tv_sec (ds_finished_at s) < 2 ^ 63"

definition valid_text :: "bytes \<Rightarrow> bool" where
  "valid_text text \<longleftrightarrow> 0 \<in> set text"

definition valid_time :: "timespec \<Rightarrow> bool" where
  "valid_time t \<longleftrightarrow> tv_nsec t \<ge> 0 \<and> tv_nsec t < 1000000000 \<and> tv_sec t \<ge> 0"

definition checkpoint_valid_snapshot :: "durable_snapshot \<Rightarrow> bool" where
  "checkpoint_valid_snapshot s \<longleftrightarrow>
     ds_id s \<noteq> 0 \<and> ds_name s ! 0 \<noteq> 0
     \<and> valid_text (ds_name s) \<and> valid_text (ds_message s)
     \<and> ds_progress s \<le> 100
     \<and> ds_saved_state s \<ge> TASK_PENDING \<and> ds_saved_state s \<le> TASK_COMPLETED
     \<and> ds_recovery_state s \<ge> TASK_PENDING \<and> ds_recovery_state s \<le> TASK_COMPLETED
     \<and> ds_recovery_state s =
         (if ds_saved_state s = TASK_RUNNING \<or> ds_saved_state s = TASK_PAUSED
          then TASK_PENDING else ds_saved_state s)
     \<and> (ds_recovery_state s \<noteq> TASK_COMPLETED \<or> ds_progress s = 100)
     \<and> valid_estimate (ds_estimate s)
     \<and> valid_time (ds_started_at s) \<and> valid_time (ds_finished_at s)"

section \<open>Little-endian integers and the checksum\<close>

definition put_u32 :: "u32 \<Rightarrow> bytes" where
  "put_u32 v = map (\<lambda>index. ucast (drop_bit (index * 8) v)) [0..<4]"

definition put_u64 :: "u64 \<Rightarrow> bytes" where
  "put_u64 v = map (\<lambda>index. ucast (drop_bit (index * 8) v)) [0..<8]"

fun get_loop :: "bytes \<Rightarrow> nat list \<Rightarrow> 'w::len word \<Rightarrow> 'w word" where
  "get_loop input [] v = v"
| "get_loop input (index # rest) v =
     get_loop input rest (v OR push_bit (index * 8) (ucast (input ! index)))"

definition get_u32 :: "bytes \<Rightarrow> u32" where
  "get_u32 input = get_loop input [0..<4] 0"

definition get_u64 :: "bytes \<Rightarrow> u64" where
  "get_u64 input = get_loop input [0..<8] 0"

definition fnv_step :: "u32 \<Rightarrow> u8 \<Rightarrow> u32" where
  "fnv_step hash b = (hash XOR ucast b) * 16777619"

fun payload_checksum_loop :: "bytes \<Rightarrow> u32 \<Rightarrow> u32" where
  "payload_checksum_loop [] hash = hash"
| "payload_checksum_loop (b # bs) hash = payload_checksum_loop bs (fnv_step hash b)"

definition payload_checksum :: "bytes \<Rightarrow> u32" where
  "payload_checksum data = payload_checksum_loop data 2166136261"

lemma length_put_u32 [simp]: "length (put_u32 v) = 4"
  by (simp add: put_u32_def)

lemma length_put_u64 [simp]: "length (put_u64 v) = 8"
  by (simp add: put_u64_def)

lemma bit_get_loop:
  "bit (get_loop input idx (v :: 'w::len word)) n \<longleftrightarrow> bit v n
     \<or> (\<exists>i \<in> set idx. n < LENGTH('w) \<and> i * 8 \<le> n \<and> bit (input ! i) (n - i * 8))"
  by (induction idx arbitrary: v)
    (auto simp: bit_or_iff bit_push_bit_iff bit_ucast_iff)

text \<open>The bytes of a word, read back with the loop, give the word.\<close>

lemma get_loop_bytes:
  fixes v :: "'w::len word"
  assumes "LENGTH('w) = 8 * k"
    and "\<And>i. i < k \<Longrightarrow> input ! i = ucast (drop_bit (i * 8) v)"
  shows "get_loop input [0..<k] 0 = v"
proof (rule bit_word_eqI)
  fix n assume n: "n < LENGTH('w)"
  have byte: "bit (input ! i) (n - i * 8) \<longleftrightarrow> n < i * 8 + 8 \<and> bit v n"
    if "i < k" "i * 8 \<le> n" for i
    using that n assms(2) [OF that(1)] by (auto simp: bit_ucast_iff bit_drop_bit_eq)
  have "n div 8 < k" using n assms(1) by simp
  moreover have "n div 8 * 8 \<le> n" "n < n div 8 * 8 + 8" by simp_all
  ultimately have "bit v n \<longleftrightarrow> (\<exists>i \<in> set [0..<k]. n < LENGTH('w) \<and> i * 8 \<le> n
      \<and> bit (input ! i) (n - i * 8))"
    using n byte by (auto intro: bexI [of _ "n div 8"])
  then show "bit (get_loop input [0..<k] 0 :: 'w word) n = bit v n"
    by (simp add: bit_get_loop)
qed

lemma get_put_u32 [simp]: "get_u32 (put_u32 v @ rest) = v"
  unfolding get_u32_def
  by (rule get_loop_bytes) (simp_all add: put_u32_def nth_append)

lemma get_put_u64 [simp]: "get_u64 (put_u64 v @ rest) = v"
  unfolding get_u64_def
  by (rule get_loop_bytes) (simp_all add: put_u64_def nth_append)

lemma ucast_byte_back: "(ucast (ucast b :: u32) :: u8) = b"
  by (rule bit_word_eqI) (simp add: bit_ucast_iff)

lemma fnv_multiplier_inverse: "(16777619 :: u32) * 899433627 = 1"
  by simp

lemma fnv_step_inj_hash: "fnv_step h b = fnv_step h' b \<Longrightarrow> h = h'"
proof -
  assume "fnv_step h b = fnv_step h' b"
  then have "(h XOR ucast b) * 16777619 * 899433627 = (h' XOR ucast b) * 16777619 * 899433627"
    by (simp add: fnv_step_def)
  then have "h XOR ucast b = h' XOR ucast b"
    by (simp only: mult.assoc fnv_multiplier_inverse mult_1_right)
  then have "(h XOR ucast b) XOR ucast b = (h' XOR ucast b) XOR ucast b" by simp
  then show "h = h'" by (simp add: xor.assoc)
qed

lemma fnv_step_inj_byte: "fnv_step h b = fnv_step h b' \<Longrightarrow> b = b'"
proof -
  assume "fnv_step h b = fnv_step h b'"
  then have "(h XOR ucast b) * 16777619 * 899433627 = (h XOR ucast b') * 16777619 * 899433627"
    by (simp add: fnv_step_def)
  then have "h XOR ucast b = h XOR ucast b'"
    by (simp only: mult.assoc fnv_multiplier_inverse mult_1_right)
  then have "h XOR (h XOR ucast b) = h XOR (h XOR ucast b')" by simp
  then have "(ucast b :: u32) = ucast b'" by (simp flip: xor.assoc)
  then have "(ucast (ucast b :: u32) :: u8) = ucast (ucast b' :: u32)" by simp
  then show "b = b'" by (simp only: ucast_byte_back)
qed

lemma checksum_loop_inj: "payload_checksum_loop bs h = payload_checksum_loop bs h' \<Longrightarrow> h = h'"
  by (induction bs arbitrary: h h') (auto dest: fnv_step_inj_hash)

lemma checksum_detects_byte:
  assumes "i < length data" and "b \<noteq> data ! i"
  shows "payload_checksum (data[i := b]) \<noteq> payload_checksum data"
proof -
  have "payload_checksum_loop (data[i := b]) h \<noteq> payload_checksum_loop data h" for h
    using assms
  proof (induction data arbitrary: i h)
    case Nil
    then show ?case by simp
  next
    case (Cons x xs)
    show ?case
    proof (cases i)
      case 0
      with Cons.prems show ?thesis
        using checksum_loop_inj fnv_step_inj_byte by (metis list_update_code(2) nth_Cons_0
          payload_checksum_loop.simps(2))
    next
      case (Suc j)
      with Cons show ?thesis by simp
    qed
  qed
  then show ?thesis by (simp add: payload_checksum_def)
qed

section \<open>Encoding and decoding\<close>

definition checkpoint_magic :: bytes where
  "checkpoint_magic = [0x4C, 0x33, 0x44, 0x54, 0x41, 0x53, 0x4B, 0]"

definition CHECKPOINT_SIZE :: nat where "CHECKPOINT_SIZE = 516"
definition CHECKPOINT_HEADER_SIZE :: nat where "CHECKPOINT_HEADER_SIZE = 20"
definition TASK_CHECKPOINT_VERSION :: u32 where "TASK_CHECKPOINT_VERSION = 1"

definition encode_time :: "timespec \<Rightarrow> bytes" where
  "encode_time t = put_u64 (word_of_int (tv_sec t)) @ put_u32 (word_of_int (tv_nsec t))"

definition encode_estimate :: "resource_estimate \<Rightarrow> bytes" where
  "encode_estimate e =
     put_u64 (re_memory_fixed_bytes e) @ put_u64 (re_gpu_memory_fixed_bytes e)
     @ put_u64 (re_memory_bytes_per_item e) @ put_u64 (re_gpu_memory_bytes_per_item e)
     @ put_u64 (re_minimum_batch_size e) @ put_u64 (re_maximum_batch_size e)
     @ put_u32 (re_desired_cpu_threads e) @ put_u32 (re_desired_gpu_slots e)
     @ put_u32 (re_desired_io_slots e) @ put_u32 (re_task_class e)"

definition encode_payload :: "durable_snapshot \<Rightarrow> bytes" where
  "encode_payload s =
     put_u64 (ds_id s) @ ds_name s @ encode_estimate (ds_estimate s)
     @ put_u32 (ds_progress s) @ put_u32 (ds_saved_state s) @ put_u32 (ds_recovery_state s)
     @ ds_message s @ encode_time (ds_started_at s) @ encode_time (ds_finished_at s)
     @ put_u32 (ds_sequence_count s)"

definition encode_header :: "bytes \<Rightarrow> bytes" where
  "encode_header payload = checkpoint_magic @ put_u32 TASK_CHECKPOINT_VERSION
     @ put_u32 (of_nat CHECKPOINT_SIZE) @ put_u32 (payload_checksum payload)"

definition checkpoint_encode :: "durable_snapshot \<Rightarrow> bytes" where
  "checkpoint_encode s = encode_header (encode_payload s) @ encode_payload s"

text \<open>\<open>GET64\<close> and \<open>GET32\<close>: the value at the cursor and the bytes after it.\<close>

definition GET64 :: "bytes \<Rightarrow> u64 \<times> bytes" where
  "GET64 data = (get_u64 data, drop 8 data)"

definition GET32 :: "bytes \<Rightarrow> u32 \<times> bytes" where
  "GET32 data = (get_u32 data, drop 4 data)"

definition GETBUF :: "nat \<Rightarrow> bytes \<Rightarrow> bytes \<times> bytes" where
  "GETBUF n data = (take n data, drop n data)"

definition decode_size :: "u64 \<Rightarrow> size_t option" where
  "decode_size v = (if v > SIZE_MAX then None else Some v)"

definition maximum_time_value :: u64 where
  "maximum_time_value = drop_bit 1 UINT64_MAX"

definition decode_time :: "u64 \<Rightarrow> int option" where
  "decode_time v = (if v > maximum_time_value then None else Some (uint v))"

definition decode_timespec :: "bytes \<Rightarrow> (timespec \<times> bytes) option" where
  "decode_timespec data =
     (let (seconds, data) = GET64 data in
      case decode_time seconds of
        None \<Rightarrow> None
      | Some sec \<Rightarrow>
          let (nanoseconds, data) = GET32 data
          in Some (\<lparr>tv_sec = sec, tv_nsec = uint nanoseconds\<rparr>, data))"

definition decode_estimate :: "bytes \<Rightarrow> (resource_estimate \<times> bytes) option" where
  "decode_estimate data =
     (let (memory_fixed, data) = GET64 data;
          (gpu_fixed, data) = GET64 data;
          (memory_per_item, data) = GET64 data;
          (gpu_per_item, data) = GET64 data;
          (minimum_value, data) = GET64 data
      in case decode_size minimum_value of
        None \<Rightarrow> None
      | Some minimum_batch \<Rightarrow>
          let (maximum_value, data) = GET64 data
          in case decode_size maximum_value of
            None \<Rightarrow> None
          | Some maximum_batch \<Rightarrow>
              let (cpu, data) = GET32 data;
                  (gpu, data) = GET32 data;
                  (io, data) = GET32 data;
                  (class_code, data) = GET32 data
              in Some (\<lparr>re_memory_fixed_bytes = memory_fixed,
                     re_gpu_memory_fixed_bytes = gpu_fixed,
                     re_memory_bytes_per_item = memory_per_item,
                     re_gpu_memory_bytes_per_item = gpu_per_item,
                     re_minimum_batch_size = minimum_batch,
                     re_maximum_batch_size = maximum_batch,
                     re_desired_cpu_threads = cpu, re_desired_gpu_slots = gpu,
                     re_desired_io_slots = io, re_task_class = class_code\<rparr>, data))"

text \<open>\<open>decode\<close>, from the end of the header on.\<close>

definition checkpoint_decode :: "bytes \<Rightarrow> durable_snapshot option" where
  "checkpoint_decode data =
     (let (id_value, data) = GET64 (drop CHECKPOINT_HEADER_SIZE data);
          (name, data) = GETBUF TASK_NAME_CAPACITY data
      in case decode_estimate data of
        None \<Rightarrow> None
      | Some (estimate, data) \<Rightarrow>
          let (progress, data) = GET32 data;
              (saved, data) = GET32 data;
              (recovery, data) = GET32 data;
              (message, data) = GETBUF TASK_MESSAGE_CAPACITY data
          in case decode_timespec data of
            None \<Rightarrow> None
          | Some (started, data) \<Rightarrow>
              (case decode_timespec data of
                None \<Rightarrow> None
              | Some (finished, data) \<Rightarrow>
                  let (sequence_count, data) = GET32 data
                  in Some \<lparr>ds_id = id_value, ds_name = name, ds_estimate = estimate,
                       ds_progress = progress, ds_saved_state = saved,
                       ds_recovery_state = recovery, ds_message = message,
                       ds_started_at = started, ds_finished_at = finished,
                       ds_sequence_count = sequence_count\<rparr>))"

datatype checkpoint_result =
  CHECKPOINT_OK | CHECKPOINT_NOT_FOUND | CHECKPOINT_INVALID | CHECKPOINT_UNSUPPORTED_VERSION
| CHECKPOINT_IO_ERROR | CHECKPOINT_PUBLISHED_NOT_DURABLE

text \<open>
  The checks of \<open>lardon3d_task_checkpoint_load\<close> on the bytes it read (at most one more than
  the size of a checkpoint).
\<close>

definition checkpoint_parse :: "bytes \<Rightarrow> checkpoint_result \<times> durable_snapshot option" where
  "checkpoint_parse data =
     (let used = length data in
      if used < CHECKPOINT_HEADER_SIZE \<or> take 8 data \<noteq> checkpoint_magic
      then (CHECKPOINT_INVALID, None)
      else if get_u32 (drop 8 data) \<noteq> TASK_CHECKPOINT_VERSION
      then (CHECKPOINT_UNSUPPORTED_VERSION, None)
      else if get_u32 (drop 12 data) \<noteq> of_nat CHECKPOINT_SIZE \<or> used \<noteq> CHECKPOINT_SIZE
        \<or> get_u32 (drop 16 data) \<noteq> payload_checksum (drop CHECKPOINT_HEADER_SIZE data)
      then (CHECKPOINT_INVALID, None)
      else case checkpoint_decode data of
        None \<Rightarrow> (CHECKPOINT_INVALID, None)
      | Some s \<Rightarrow> if checkpoint_valid_snapshot s then (CHECKPOINT_OK, Some s)
          else (CHECKPOINT_INVALID, None))"

section \<open>Round trip and corruption\<close>

lemma GET64_put [simp]: "GET64 (put_u64 v @ rest) = (v, rest)"
  by (simp add: GET64_def)

lemma GET32_put [simp]: "GET32 (put_u32 v @ rest) = (v, rest)"
  by (simp add: GET32_def)

lemma GET32_put_end [simp]: "GET32 (put_u32 v) = (v, [])"
  using GET32_put [of v "[]"] by simp

lemma GETBUF_append [simp]: "length b = n \<Longrightarrow> GETBUF n (b @ rest) = (b, rest)"
  by (simp add: GETBUF_def)

lemma decode_size_total [simp]: "decode_size v = Some v"
  by (simp add: decode_size_def)

lemma decode_estimate_encode [simp]:
  "decode_estimate (encode_estimate e @ rest) = Some (e, rest)"
  by (simp add: decode_estimate_def encode_estimate_def)

lemma decode_timespec_encode:
  assumes "valid_time t" and "tv_sec t < 2 ^ 63"
  shows "decode_timespec (encode_time t @ rest) = Some (t, rest)"
proof -
  have s: "uint (word_of_int (tv_sec t) :: u64) = tv_sec t"
    using assms by (simp add: valid_time_def uint_word_of_int_eq take_bit_int_eq_self)
  have n: "uint (word_of_int (tv_nsec t) :: u32) = tv_nsec t"
    using assms by (simp add: valid_time_def uint_word_of_int_eq take_bit_int_eq_self)
  have "uint maximum_time_value = 9223372036854775807" by (simp add: maximum_time_value_def mask_eq_exp_minus_1)
  then have "\<not> (word_of_int (tv_sec t) :: u64) > maximum_time_value"
    using s assms by (simp add: word_less_def)
  with s n show ?thesis
    by (simp add: decode_timespec_def encode_time_def decode_time_def)
qed

lemma length_encode_payload: "snapshot_typed s \<Longrightarrow> length (encode_payload s) = 496"
  by (simp add: encode_payload_def encode_estimate_def encode_time_def snapshot_typed_def
    TASK_NAME_CAPACITY_def TASK_MESSAGE_CAPACITY_def)

lemma length_encode_header [simp]: "length (encode_header p) = 20"
  by (simp add: encode_header_def checkpoint_magic_def)

lemma checkpoint_decode_encode:
  assumes "snapshot_typed s" and "checkpoint_valid_snapshot s"
  shows "checkpoint_decode (checkpoint_encode s) = Some s"
proof -
  have t: "decode_timespec (encode_time (ds_started_at s) @ rest) = Some (ds_started_at s, rest)"
    "decode_timespec (encode_time (ds_finished_at s) @ rest) = Some (ds_finished_at s, rest)" for rest
    using assms by (auto simp: snapshot_typed_def checkpoint_valid_snapshot_def
      intro!: decode_timespec_encode)
  show ?thesis
    using assms(1)
    by (simp add: checkpoint_decode_def checkpoint_encode_def CHECKPOINT_HEADER_SIZE_def
      encode_payload_def snapshot_typed_def t)
qed

lemma parse_encode:
  assumes "snapshot_typed s" and "checkpoint_valid_snapshot s"
  shows "length (checkpoint_encode s) = CHECKPOINT_SIZE"
    and "checkpoint_parse (checkpoint_encode s) = (CHECKPOINT_OK, Some s)"
proof -
  let ?p = "encode_payload s"
  show len: "length (checkpoint_encode s) = CHECKPOINT_SIZE"
    using length_encode_payload [OF assms(1)] by (simp add: checkpoint_encode_def CHECKPOINT_SIZE_def)
  have "take 8 (checkpoint_encode s) = checkpoint_magic"
    and "drop 8 (checkpoint_encode s) = put_u32 TASK_CHECKPOINT_VERSION
      @ put_u32 (of_nat CHECKPOINT_SIZE) @ put_u32 (payload_checksum ?p) @ ?p"
    and "drop 12 (checkpoint_encode s) = put_u32 (of_nat CHECKPOINT_SIZE)
      @ put_u32 (payload_checksum ?p) @ ?p"
    and "drop 16 (checkpoint_encode s) = put_u32 (payload_checksum ?p) @ ?p"
    and "drop CHECKPOINT_HEADER_SIZE (checkpoint_encode s) = ?p"
    by (simp_all add: checkpoint_encode_def encode_header_def checkpoint_magic_def
      CHECKPOINT_HEADER_SIZE_def)
  with len checkpoint_decode_encode [OF assms] assms(2)
  show "checkpoint_parse (checkpoint_encode s) = (CHECKPOINT_OK, Some s)"
    by (simp add: checkpoint_parse_def Let_def CHECKPOINT_HEADER_SIZE_def CHECKPOINT_SIZE_def)
qed

lemma parse_OK_facts:
  assumes "fst (checkpoint_parse data) = CHECKPOINT_OK"
  shows "length data = CHECKPOINT_SIZE" and "take 8 data = checkpoint_magic"
    and "get_u32 (drop 8 data) = TASK_CHECKPOINT_VERSION"
    and "get_u32 (drop 12 data) = of_nat CHECKPOINT_SIZE"
    and "get_u32 (drop 16 data) = payload_checksum (drop CHECKPOINT_HEADER_SIZE data)"
    and "\<exists>s. snd (checkpoint_parse data) = Some s \<and> checkpoint_valid_snapshot s
      \<and> checkpoint_decode data = Some s"
  using assms by (auto simp: checkpoint_parse_def Let_def split: if_splits option.splits)

lemma get_u32_byte:
  assumes "get_u32 xs = get_u32 ys" and "i < 4"
  shows "xs ! i = ys ! i"
proof (rule bit_word_eqI)
  fix n assume n: "n < LENGTH(8)"
  have b: "bit (get_u32 zs) (i * 8 + n) = bit (zs ! i) n" for zs
  proof -
    have "bit (get_u32 zs) (i * 8 + n) \<longleftrightarrow> (\<exists>j \<in> set [0..<4]. i * 8 + n < LENGTH(32)
        \<and> j * 8 \<le> i * 8 + n \<and> bit (zs ! j) (i * 8 + n - j * 8))"
      by (simp add: get_u32_def bit_get_loop)
    also have "\<dots> \<longleftrightarrow> bit (zs ! i) n"
    proof
      assume "\<exists>j \<in> set [0..<4]. i * 8 + n < LENGTH(32)
        \<and> j * 8 \<le> i * 8 + n \<and> bit (zs ! j) (i * 8 + n - j * 8)"
      then obtain j where j: "j * 8 \<le> i * 8 + n" "bit (zs ! j) (i * 8 + n - j * 8)" by blast
      from j(2) have "i * 8 + n - j * 8 < 8" using bit_imp_le_length [OF j(2)] by simp
      with j n have "j = i" by simp
      with j show "bit (zs ! i) n" by simp
    next
      assume "bit (zs ! i) n"
      then show "\<exists>j \<in> set [0..<4]. i * 8 + n < LENGTH(32)
        \<and> j * 8 \<le> i * 8 + n \<and> bit (zs ! j) (i * 8 + n - j * 8)"
        using assms(2) n by (intro bexI [of _ i]) auto
    qed
    finally show ?thesis .
  qed
  show "bit (xs ! i) n = bit (ys ! i) n" using b [of xs] b [of ys] assms(1) by simp
qed

lemma corrupted_refused:
  assumes "snapshot_typed s" and "checkpoint_valid_snapshot s"
    and "i < CHECKPOINT_SIZE" and "b \<noteq> checkpoint_encode s ! i"
  shows "fst (checkpoint_parse ((checkpoint_encode s)[i := b])) \<noteq> CHECKPOINT_OK"
proof
  let ?e = "checkpoint_encode s" and ?d = "(checkpoint_encode s)[i := b]"
  assume ok: "fst (checkpoint_parse ?d) = CHECKPOINT_OK"
  note bad = parse_OK_facts [OF ok]
  have good': "fst (checkpoint_parse ?e) = CHECKPOINT_OK" using parse_encode [OF assms(1,2)] by simp
  note good = parse_OK_facts [OF good']
  have i: "i < length ?e" using assms(3) good(1) by simp
  have di: "?d ! i \<noteq> ?e ! i" using i assms(4) by simp
  have at: "drop k ?d ! (i - k) \<noteq> drop k ?e ! (i - k)" if "k \<le> i" for k
    using di that i by simp
  consider "i < 8" | "8 \<le> i" "i < 12" | "12 \<le> i" "i < 16" | "16 \<le> i" "i < 20" | "20 \<le> i"
    by linarith
  then show False
  proof cases
    case 1
    then have "take 8 ?d ! i \<noteq> take 8 ?e ! i" using di by simp
    with bad(2) good(2) show False by simp
  next
    case 2
    with at [of 8] get_u32_byte [of "drop 8 ?d" "drop 8 ?e" "i - 8"] bad(3) good(3)
    show False by simp
  next
    case 3
    with at [of 12] get_u32_byte [of "drop 12 ?d" "drop 12 ?e" "i - 12"] bad(4) good(4)
    show False by simp
  next
    case 4
    have "drop CHECKPOINT_HEADER_SIZE ?d = drop CHECKPOINT_HEADER_SIZE ?e"
      using 4 by (simp add: CHECKPOINT_HEADER_SIZE_def drop_update_cancel)
    with 4 at [of 16] get_u32_byte [of "drop 16 ?d" "drop 16 ?e" "i - 16"] bad(5) good(5)
    show False by simp
  next
    case 5
    have p: "drop CHECKPOINT_HEADER_SIZE ?d = (drop CHECKPOINT_HEADER_SIZE ?e)[i - 20 := b]"
      using 5 by (simp add: CHECKPOINT_HEADER_SIZE_def drop_update_swap)
    have "payload_checksum ((drop CHECKPOINT_HEADER_SIZE ?e)[i - 20 := b])
        \<noteq> payload_checksum (drop CHECKPOINT_HEADER_SIZE ?e)"
      using 5 i assms(4) by (intro checksum_detects_byte) (simp_all add: CHECKPOINT_HEADER_SIZE_def)
    moreover have "get_u32 (drop 16 ?d) = get_u32 (drop 16 ?e)"
    proof -
      have "drop 16 ?d ! j = drop 16 ?e ! j" if "j < 4" for j
        using 5 that i by simp
      then show ?thesis by (simp add: get_u32_def upt_rec)
    qed
    ultimately show False using bad(5) good(5) p by simp
  qed
qed

text \<open>An accepted snapshot fits the C types, so it can be written again.\<close>

lemma decode_time_less: "decode_time v = Some t \<Longrightarrow> 0 \<le> t \<and> t < 2 ^ 63"
proof -
  assume d: "decode_time v = Some t"
  have "uint maximum_time_value = 9223372036854775807"
    by (simp add: maximum_time_value_def mask_eq_exp_minus_1)
  with d show ?thesis by (auto simp: decode_time_def word_less_def split: if_splits)
qed

lemma decode_timespec_facts:
  "decode_timespec data = Some (t, rest) \<Longrightarrow> tv_sec t < 2 ^ 63 \<and> rest = drop 12 data"
  by (auto simp: decode_timespec_def GET64_def GET32_def dest!: decode_time_less split: option.splits)

lemma decode_estimate_rest: "decode_estimate data = Some (e, rest) \<Longrightarrow> rest = drop 64 data"
  by (auto simp: decode_estimate_def GET64_def GET32_def)

lemma decode_typed:
  assumes "length data = CHECKPOINT_SIZE" and "checkpoint_decode data = Some s"
  shows "snapshot_typed s"
  using assms
  by (auto simp: checkpoint_decode_def GET64_def GET32_def GETBUF_def snapshot_typed_def
    CHECKPOINT_SIZE_def CHECKPOINT_HEADER_SIZE_def TASK_NAME_CAPACITY_def TASK_MESSAGE_CAPACITY_def
    dest!: decode_timespec_facts decode_estimate_rest split: option.splits)

lemma parse_OK_storable:
  assumes "checkpoint_parse data = (CHECKPOINT_OK, Some s)"
  shows "snapshot_typed s" and "checkpoint_valid_snapshot s"
proof -
  have ok: "fst (checkpoint_parse data) = CHECKPOINT_OK" using assms by simp
  show "snapshot_typed s" "checkpoint_valid_snapshot s"
    using parse_OK_facts(6) [OF ok] decode_typed [OF parse_OK_facts(1) [OF ok]] assms by auto
qed

text \<open>
  The contract a store of checkpoints relies on: a codec that reads back what it wrote and
  refuses every one-byte change of it.
\<close>

locale checked_codec =
  fixes enc :: "'s \<Rightarrow> bytes" and dec :: "bytes \<Rightarrow> 's option" and valid :: "'s \<Rightarrow> bool"
  assumes dec_enc: "valid s \<Longrightarrow> dec (enc s) = Some s"
    and dec_corrupt: "valid s \<Longrightarrow> i < length (enc s) \<Longrightarrow> b \<noteq> enc s ! i \<Longrightarrow> dec ((enc s)[i := b]) = None"
begin

lemma enc_inject: "valid s \<Longrightarrow> valid t \<Longrightarrow> enc s = enc t \<Longrightarrow> s = t"
  by (metis dec_enc option.inject)

lemma dec_other: "valid s \<Longrightarrow> dec data \<noteq> Some s \<Longrightarrow> data \<noteq> enc s"
  by (auto simp: dec_enc)

end

definition checkpoint_accept :: "bytes \<Rightarrow> durable_snapshot option" where
  "checkpoint_accept data =
     (case checkpoint_parse data of (CHECKPOINT_OK, Some s) \<Rightarrow> Some s | _ \<Rightarrow> None)"

definition storable_snapshot :: "durable_snapshot \<Rightarrow> bool" where
  "storable_snapshot s \<longleftrightarrow> snapshot_typed s \<and> checkpoint_valid_snapshot s"

interpretation checkpoint: checked_codec checkpoint_encode checkpoint_accept storable_snapshot
proof
  fix s
  assume s: "storable_snapshot s"
  then show "checkpoint_accept (checkpoint_encode s) = Some s"
    by (simp add: checkpoint_accept_def storable_snapshot_def parse_encode(2))
next
  fix s i b
  assume s: "storable_snapshot s" and i: "i < length (checkpoint_encode s)"
    and b: "b \<noteq> checkpoint_encode s ! i"
  have "i < CHECKPOINT_SIZE" using s i by (simp add: storable_snapshot_def parse_encode(1))
  then have "fst (checkpoint_parse ((checkpoint_encode s)[i := b])) \<noteq> CHECKPOINT_OK"
    using s b by (intro corrupted_refused) (auto simp: storable_snapshot_def)
  then show "checkpoint_accept ((checkpoint_encode s)[i := b]) = None"
    by (auto simp: checkpoint_accept_def split: prod.split checkpoint_result.split)
qed

section \<open>Properties\<close>

text \<open>
  C8. Every valid durable snapshot is written as exactly 516 bytes and read back as itself:
  \<open>load\<close>'s checks accept the encoding with the same snapshot, and two different snapshots
  have different encodings.
\<close>

theorem checkpoint_roundtrip:
  assumes "snapshot_typed s" and "checkpoint_valid_snapshot s"
  shows "length (checkpoint_encode s) = 516
    \<and> checkpoint_parse (checkpoint_encode s) = (CHECKPOINT_OK, Some s)
    \<and> (\<forall>t. snapshot_typed t \<and> checkpoint_valid_snapshot t
        \<and> checkpoint_encode t = checkpoint_encode s \<longrightarrow> t = s)"
  using parse_encode [OF assms] assms checkpoint.enc_inject [of _ s]
  by (auto simp: CHECKPOINT_SIZE_def storable_snapshot_def)

definition sample_durable :: durable_snapshot where
  "sample_durable =
     \<lparr>ds_id = 7, ds_name = 65 # replicate 127 0,
       ds_estimate = \<lparr>re_memory_fixed_bytes = 1000000, re_gpu_memory_fixed_bytes = 0,
         re_memory_bytes_per_item = 1000, re_gpu_memory_bytes_per_item = 0,
         re_minimum_batch_size = 1, re_maximum_batch_size = 64, re_desired_cpu_threads = 2,
         re_desired_gpu_slots = 0, re_desired_io_slots = 0, re_task_class = RESOURCE_TASK_CPU\<rparr>,
       ds_progress = 40, ds_saved_state = TASK_RUNNING, ds_recovery_state = TASK_PENDING,
       ds_message = replicate 256 0, ds_started_at = \<lparr>tv_sec = 1700000000, tv_nsec = 5\<rparr>,
       ds_finished_at = \<lparr>tv_sec = 0, tv_nsec = 0\<rparr>, ds_sequence_count = 3\<rparr>"

lemma sample_durable_storable: "snapshot_typed sample_durable" "checkpoint_valid_snapshot sample_durable"
  by (simp_all add: sample_durable_def snapshot_typed_def checkpoint_valid_snapshot_def
    TASK_NAME_CAPACITY_def TASK_MESSAGE_CAPACITY_def valid_text_def valid_time_def valid_estimate_def)

theorem checkpoint_roundtrip_witness:
  "checkpoint_parse (checkpoint_encode sample_durable) = (CHECKPOINT_OK, Some sample_durable)"
  using checkpoint_roundtrip [OF sample_durable_storable] by blast

text \<open>
  C9. Any change of a single byte of a written checkpoint, in the magic, the version, the
  size, the checksum or the payload, is detected: \<open>load\<close> never accepts the changed file.
\<close>

theorem checkpoint_detects_corruption:
  assumes "snapshot_typed s" and "checkpoint_valid_snapshot s"
    and "i < 516" and "b \<noteq> checkpoint_encode s ! i"
  shows "fst (checkpoint_parse ((checkpoint_encode s)[i := b])) \<noteq> CHECKPOINT_OK
    \<and> checkpoint_accept ((checkpoint_encode s)[i := b]) = None"
  using corrupted_refused [OF assms(1,2), of i b] assms parse_encode(1) [OF assms(1,2)]
    checkpoint.dec_corrupt [of s i b]
  by (simp add: CHECKPOINT_SIZE_def storable_snapshot_def)

theorem checkpoint_detects_corruption_witness:
  "checkpoint_encode sample_durable ! 0 = 0x4C
   \<and> fst (checkpoint_parse ((checkpoint_encode sample_durable)[0 := 0x4D])) \<noteq> CHECKPOINT_OK"
proof -
  have "checkpoint_encode sample_durable ! 0 = 0x4C"
    by (simp add: checkpoint_encode_def encode_header_def checkpoint_magic_def)
  with checkpoint_detects_corruption [OF sample_durable_storable, of 0 "0x4D"] show ?thesis by simp
qed

text \<open>
  \<open>load\<close> accepts a file only if it has exactly 516 bytes, carries the magic, version 1
  and a matching checksum, and its snapshot passes the validation: a truncated or extended
  file is never accepted, and the accepted state is the one a restart may resume from
  (RUNNING and PAUSED come back as PENDING, COMPLETED only with progress 100).
\<close>

theorem checkpoint_accepts_only_valid:
  assumes "fst (checkpoint_parse data) = CHECKPOINT_OK"
  shows "length data = 516 \<and> (\<exists>s. checkpoint_parse data = (CHECKPOINT_OK, Some s)
    \<and> checkpoint_valid_snapshot s \<and> ds_recovery_state s \<notin> {TASK_RUNNING, TASK_PAUSED}
    \<and> (ds_recovery_state s = TASK_COMPLETED \<longrightarrow> ds_progress s = 100)
    \<and> valid_estimate (ds_estimate s))"
proof -
  obtain s where s: "snd (checkpoint_parse data) = Some s" "checkpoint_valid_snapshot s"
    using parse_OK_facts(6) [OF assms] by blast
  then have "ds_recovery_state s \<notin> {TASK_RUNNING, TASK_PAUSED}"
    by (auto simp: checkpoint_valid_snapshot_def split: if_splits)
  with s assms parse_OK_facts(1) [OF assms] show ?thesis
    by (auto simp: CHECKPOINT_SIZE_def checkpoint_valid_snapshot_def prod_eq_iff)
qed

theorem checkpoint_accepts_only_valid_witness:
  "length (checkpoint_encode sample_durable) = 516"
  using checkpoint_accepts_only_valid [of "checkpoint_encode sample_durable"]
    parse_encode(2) [OF sample_durable_storable] by simp

end
