(* ===== verification/Checkpoint_Store.thy ===== *)
theory Checkpoint_Store
  imports Checkpoint_Codec
begin

text \<open>
  The durable checkpoint store (\<open>src/task_checkpoint.c\<close>): save, load, stage, promote and
  discard over a model of the file system in which every intermediate state can be hit by a
  crash. The file system is the usual POSIX contract: \<open>rename\<close> replaces a name atomically,
  \<open>fsync\<close> of a file makes its content durable, \<open>fsync\<close> of the directory makes its names
  durable; before that, each changed name survives a crash in its old or its new form, and a
  file that was not synced survives with any content.
\<close>

section \<open>The file system\<close>

record fs_file =
  ff_content :: bytes
  ff_synced :: bool

text \<open>What processes see, and what the last directory sync guarantees of each name.\<close>

record fs =
  fs_entries :: "string \<Rightarrow> fs_file option"
  fs_durable :: "string \<Rightarrow> bytes option"

definition fs_settled :: "fs \<Rightarrow> bool" where
  "fs_settled fs \<longleftrightarrow> (\<forall>p. fs_durable fs p = map_option ff_content (fs_entries fs p)
     \<and> (\<forall>f. fs_entries fs p = Some f \<longrightarrow> ff_synced f))"

text \<open>The contents a crash may leave under a name.\<close>

definition may_survive :: "fs \<Rightarrow> string \<Rightarrow> bytes option \<Rightarrow> bool" where
  "may_survive fs p c \<longleftrightarrow> c = fs_durable fs p
     \<or> (case fs_entries fs p of
          None \<Rightarrow> c = None
        | Some f \<Rightarrow> c \<noteq> None \<and> (ff_synced f \<longrightarrow> c = Some (ff_content f)))"

definition crash_leaves :: "fs \<Rightarrow> (string \<Rightarrow> bytes option) \<Rightarrow> bool" where
  "crash_leaves fs after \<longleftrightarrow> (\<forall>p. may_survive fs p (after p))"

definition fs_put :: "string \<Rightarrow> bytes \<Rightarrow> bool \<Rightarrow> fs \<Rightarrow> fs" where
  "fs_put p content synced fs =
     fs\<lparr>fs_entries := (fs_entries fs)(p := Some \<lparr>ff_content = content, ff_synced = synced\<rparr>)\<rparr>"

definition fs_rename :: "string \<Rightarrow> string \<Rightarrow> fs \<Rightarrow> fs" where
  "fs_rename source target fs =
     fs\<lparr>fs_entries := (fs_entries fs)(target := fs_entries fs source, source := None)\<rparr>"

definition fs_unlink :: "string \<Rightarrow> fs \<Rightarrow> fs" where
  "fs_unlink p fs = fs\<lparr>fs_entries := (fs_entries fs)(p := None)\<rparr>"

definition fs_sync_directory :: "fs \<Rightarrow> fs" where
  "fs_sync_directory fs =
     fs\<lparr>fs_durable := (\<lambda>p. case fs_entries fs p of
          None \<Rightarrow> None
        | Some f \<Rightarrow> if ff_synced f then Some (ff_content f) else fs_durable fs p)\<rparr>"

section \<open>The operations\<close>

datatype write_result = WRITE_EINTR | WRITE_ERROR | WRITE_BYTES nat

text \<open>
  The answers of the system calls of one operation: the six characters of \<open>mkstemp\<close>, the
  results of the \<open>write\<close> calls, and the success of each other call.
\<close>

record io_env =
  io_suffix :: string
  io_mkstemp :: bool
  io_writes :: "write_result list"
  io_fsync :: bool
  io_close :: bool
  io_rename :: bool
  io_unlink :: bool
  io_open :: bool
  io_read :: bool
  io_sync_directory :: bool

text \<open>
  \<open>write_all\<close>: the contents of the file after each call that wrote something, with the
  return value; \<^const>\<open>None\<close> when the given results end before the data is written.
\<close>

fun write_all :: "write_result list \<Rightarrow> bytes \<Rightarrow> bytes \<Rightarrow> (bool \<times> bytes list) option" where
  "write_all results written [] = Some (True, [])"
| "write_all [] written (b # bs) = None"
| "write_all (WRITE_EINTR # results) written (b # bs) = write_all results written (b # bs)"
| "write_all (WRITE_ERROR # results) written (b # bs) = Some (False, [])"
| "write_all (WRITE_BYTES n # results) written (b # bs) =
     (if n = 0 then Some (False, [])
      else case write_all results (written @ take n (b # bs)) (drop n (b # bs)) of
        None \<Rightarrow> None
      | Some (ok, states) \<Rightarrow> Some (ok, (written @ take n (b # bs)) # states))"

definition PATH_CAPACITY :: nat where "PATH_CAPACITY = 4096"

definition sync_parent_directory :: "io_env \<Rightarrow> string \<Rightarrow> fs \<Rightarrow> fs \<times> bool" where
  "sync_parent_directory env path fs =
     (if length path \<ge> PATH_CAPACITY \<or> \<not> io_open env \<or> \<not> io_sync_directory env then (fs, False)
      else (fs_sync_directory fs, True))"

definition staged_path :: "string \<Rightarrow> string option" where
  "staged_path path =
     (let staged = path @ ''.next'' in if length staged < PATH_CAPACITY then Some staged else None)"

definition temporary_name :: "io_env \<Rightarrow> string \<Rightarrow> string" where
  "temporary_name env path = path @ ''.tmp.'' @ io_suffix env"

text \<open>
  \<open>lardon3d_task_checkpoint_save\<close>: the result and the states of the file system it goes
  through, oldest first; the last one is the state it leaves.
\<close>

definition checkpoint_save ::
    "io_env \<Rightarrow> string \<Rightarrow> durable_snapshot \<Rightarrow> fs \<Rightarrow> (checkpoint_result \<times> fs list) option" where
  "checkpoint_save env path s fs =
     (if path = [] \<or> \<not> checkpoint_valid_snapshot s then Some (CHECKPOINT_INVALID, [fs])
      else if length path + 11 \<ge> PATH_CAPACITY then Some (CHECKPOINT_INVALID, [fs])
      else if \<not> io_mkstemp env then Some (CHECKPOINT_IO_ERROR, [fs])
      else
        let temporary = temporary_name env path;
            data = checkpoint_encode s;
            created = fs_put temporary [] False fs
        in case write_all (io_writes env) [] data of
          None \<Rightarrow> None
        | Some (written, contents) \<Rightarrow>
            let states = fs # created # map (\<lambda>c. fs_put temporary c False fs) contents;
                synced = (if written \<and> io_fsync env
                          then [fs_put temporary data True fs] else []);
                states = states @ synced;
                ready_to_publish = (written \<and> io_fsync env \<and> io_close env);
                current = last states
            in if \<not> ready_to_publish \<or> \<not> io_rename env
               then Some (CHECKPOINT_IO_ERROR,
                      states @ [if io_unlink env then fs_unlink temporary current else current])
               else
                 let renamed = fs_rename temporary path current
                 in case sync_parent_directory env path renamed of
                   (final, True) \<Rightarrow> Some (CHECKPOINT_OK, states @ [renamed, final])
                 | (final, False) \<Rightarrow>
                     Some (CHECKPOINT_PUBLISHED_NOT_DURABLE, states @ [renamed]))"

text \<open>\<open>load\<close>: the result, the snapshot, and the format version when the header was read.\<close>

definition checkpoint_load ::
    "io_env \<Rightarrow> string \<Rightarrow> fs \<Rightarrow> checkpoint_result \<times> durable_snapshot option \<times> u32 option" where
  "checkpoint_load env path fs =
     (if path = [] then (CHECKPOINT_INVALID, None, None)
      else case fs_entries fs path of
        None \<Rightarrow> (CHECKPOINT_NOT_FOUND, None, None)
      | Some f \<Rightarrow>
          if \<not> io_open env \<or> \<not> io_read env \<or> \<not> io_close env then (CHECKPOINT_IO_ERROR, None, None)
          else
            let data = take (CHECKPOINT_SIZE + 1) (ff_content f);
                (result, snapshot) = checkpoint_parse data
            in (result, snapshot,
                if length data < CHECKPOINT_HEADER_SIZE \<or> take 8 data \<noteq> checkpoint_magic
                then None else Some (get_u32 (drop 8 data))))"

definition checkpoint_stage ::
    "io_env \<Rightarrow> string \<Rightarrow> durable_snapshot \<Rightarrow> fs \<Rightarrow> (checkpoint_result \<times> fs list) option" where
  "checkpoint_stage env path s fs =
     (if path = [] then Some (CHECKPOINT_INVALID, [fs])
      else case staged_path path of
        None \<Rightarrow> Some (CHECKPOINT_INVALID, [fs])
      | Some staged \<Rightarrow> checkpoint_save env staged s fs)"

definition checkpoint_load_staged ::
    "io_env \<Rightarrow> string \<Rightarrow> fs \<Rightarrow> checkpoint_result \<times> durable_snapshot option \<times> u32 option" where
  "checkpoint_load_staged env path fs =
     (if path = [] then (CHECKPOINT_INVALID, None, None)
      else case staged_path path of
        None \<Rightarrow> (CHECKPOINT_INVALID, None, None)
      | Some staged \<Rightarrow> checkpoint_load env staged fs)"

definition checkpoint_discard_staged :: "io_env \<Rightarrow> string \<Rightarrow> fs \<Rightarrow> checkpoint_result \<times> fs list" where
  "checkpoint_discard_staged env path fs =
     (if path = [] then (CHECKPOINT_INVALID, [fs])
      else case staged_path path of
        None \<Rightarrow> (CHECKPOINT_INVALID, [fs])
      | Some staged \<Rightarrow>
          if fs_entries fs staged = None then (CHECKPOINT_OK, [fs])
          else if \<not> io_unlink env then (CHECKPOINT_IO_ERROR, [fs])
          else
            let unlinked = fs_unlink staged fs
            in case sync_parent_directory env staged unlinked of
              (final, True) \<Rightarrow> (CHECKPOINT_OK, [fs, unlinked, final])
            | (final, False) \<Rightarrow> (CHECKPOINT_PUBLISHED_NOT_DURABLE, [fs, unlinked]))"

text \<open>The three calls inside \<open>promote_staged\<close> have system calls of their own.\<close>

definition checkpoint_promote_staged ::
    "io_env \<Rightarrow> io_env \<Rightarrow> io_env \<Rightarrow> string \<Rightarrow> fs \<Rightarrow> (checkpoint_result \<times> fs list) option" where
  "checkpoint_promote_staged env_load env_save env_discard path fs =
     (case checkpoint_load_staged env_load path fs of
        (CHECKPOINT_OK, Some snapshot, Some version) \<Rightarrow>
          if version \<noteq> TASK_CHECKPOINT_VERSION
          then Some (CHECKPOINT_UNSUPPORTED_VERSION, [fs])
          else (case checkpoint_save env_save path snapshot fs of
            None \<Rightarrow> None
          | Some (saved, states) \<Rightarrow>
              if saved \<noteq> CHECKPOINT_OK then Some (saved, states)
              else (case checkpoint_discard_staged env_discard path (last states) of
                (result, states') \<Rightarrow> Some (result, states @ states')))
      | (result, _) \<Rightarrow> Some (result, [fs]))"

section \<open>Writing\<close>

lemma write_all_contents:
  "write_all results written data = Some (ok, states) \<Longrightarrow> c \<in> set states \<Longrightarrow> c \<noteq> [] \<or> written = []"
  by (induction results written data arbitrary: states rule: write_all.induct)
    (auto split: if_splits option.splits)

text \<open>A \<open>write\<close> that makes progress each time writes everything: the loop ends.\<close>

lemma write_all_returns:
  assumes "length data \<le> length results" and "\<forall>r \<in> set results. \<exists>n > 0. r = WRITE_BYTES n"
  shows "\<exists>states. write_all results written data = Some (True, states)
    \<and> (data \<noteq> [] \<longrightarrow> states \<noteq> [] \<and> last states = written @ data)"
  using assms
proof (induction results arbitrary: written data)
  case Nil
  then show ?case by simp
next
  case (Cons r results)
  show ?case
  proof (cases data)
    case Nil
    then show ?thesis by simp
  next
    case (Cons b bs)
    obtain n where n: "0 < n" "r = WRITE_BYTES n" using Cons.prems(2) by auto
    let ?rest = "drop n (b # bs)"
    have "length ?rest \<le> length results" using Cons.prems(1) Cons n by simp
    from Cons.IH [OF this, of "written @ take n (b # bs)"] Cons.prems(2)
    obtain states where s: "write_all results (written @ take n (b # bs)) ?rest = Some (True, states)"
      "?rest \<noteq> [] \<longrightarrow> states \<noteq> [] \<and> last states = (written @ take n (b # bs)) @ ?rest" by auto
    then show ?thesis
      using n Cons by (cases "?rest = []") auto
  qed
qed

section \<open>What a save may leave\<close>

definition fs_content :: "fs \<Rightarrow> string \<Rightarrow> bytes option" where
  "fs_content fs p = map_option ff_content (fs_entries fs p)"

text \<open>A state that differs from a settled one at most in the temporary name.\<close>

definition only_at :: "string \<Rightarrow> fs \<Rightarrow> fs \<Rightarrow> bool" where
  "only_at temporary fs st \<longleftrightarrow> fs_durable st = fs_durable fs
     \<and> (\<forall>p. p \<noteq> temporary \<longrightarrow> fs_entries st p = fs_entries fs p)"

lemma only_at_self [simp]: "only_at t fs fs"
  by (simp add: only_at_def)

lemma only_at_put [simp]: "only_at t fs (fs_put t c b fs)"
  by (simp add: only_at_def fs_put_def)

lemma only_at_unlink: "only_at t fs st \<Longrightarrow> only_at t fs (fs_unlink t st)"
  by (simp add: only_at_def fs_unlink_def)

lemma only_at_survive:
  assumes "fs_settled fs" and "only_at t fs st" and "p \<noteq> t" and "may_survive st p c"
  shows "c = fs_content fs p"
  using assms
  by (auto simp: only_at_def may_survive_def fs_settled_def fs_content_def split: option.splits)

lemma temporary_name_ne [simp]: "temporary_name env path \<noteq> path" "path \<noteq> temporary_name env path"
  by (auto simp: temporary_name_def)

lemma temporary_name_staged [simp]:
  "temporary_name env path \<noteq> path @ ''.next''" "path @ ''.next'' \<noteq> temporary_name env path"
  by (auto simp: temporary_name_def)

text \<open>The three ways a save ends, with the states it goes through.\<close>

lemma checkpoint_save_cases:
  assumes "checkpoint_save env path s fs = Some (r, states)"
  obtains (unpublished) "r = CHECKPOINT_INVALID \<or> r = CHECKPOINT_IO_ERROR" "states \<noteq> []"
      "\<forall>st \<in> set states. only_at (temporary_name env path) fs st"
  | (published) before synced where
      "checkpoint_valid_snapshot s" "path \<noteq> []" "synced = fs_put (temporary_name env path) (checkpoint_encode s) True fs"
      "\<forall>st \<in> set before. only_at (temporary_name env path) fs st"
      "r = CHECKPOINT_OK \<and> states = before @ [fs_rename (temporary_name env path) path synced,
         fs_sync_directory (fs_rename (temporary_name env path) path synced)]
       \<or> r = CHECKPOINT_PUBLISHED_NOT_DURABLE
         \<and> states = before @ [fs_rename (temporary_name env path) path synced]"
proof (cases "path = [] \<or> \<not> checkpoint_valid_snapshot s \<or> length path + 11 \<ge> PATH_CAPACITY
    \<or> \<not> io_mkstemp env")
  case True
  then have "r = CHECKPOINT_INVALID \<or> r = CHECKPOINT_IO_ERROR" "states = [fs]"
    using assms by (auto simp: checkpoint_save_def split: if_splits)
  then show ?thesis using unpublished by simp
next
  case False
  let ?t = "temporary_name env path" and ?data = "checkpoint_encode s"
  obtain written contents where w: "write_all (io_writes env) [] ?data = Some (written, contents)"
    using assms False by (auto simp: checkpoint_save_def Let_def split: option.splits)
  let ?partial = "fs # fs_put ?t [] False fs # map (\<lambda>c. fs_put ?t c False fs) contents"
  let ?synced = "fs_put ?t ?data True fs"
  have part: "\<forall>st \<in> set ?partial. only_at ?t fs st" by auto
  show ?thesis
  proof (cases "written \<and> io_fsync env")
    case False
    then have "r = CHECKPOINT_IO_ERROR" and states: "states = ?partial @
        [if io_unlink env then fs_unlink ?t (last ?partial) else last ?partial]"
      using assms \<open>\<not> (path = [] \<or> _)\<close> w by (auto simp: checkpoint_save_def Let_def)
    moreover have "only_at ?t fs (last ?partial)" using part by (rule bspec) (rule last_in_set, simp)
    ultimately show ?thesis using part unpublished by (auto simp: only_at_unlink)
  next
    case synced: True
    show ?thesis
    proof (cases "io_close env \<and> io_rename env")
      case False
      then have "r = CHECKPOINT_IO_ERROR" and states: "states = (?partial @ [?synced]) @
          [if io_unlink env then fs_unlink ?t ?synced else ?synced]"
        using assms \<open>\<not> (path = [] \<or> _)\<close> w synced by (auto simp: checkpoint_save_def Let_def)
      then show ?thesis using part unpublished by (auto simp: only_at_unlink)
    next
      case True
      then have "r = CHECKPOINT_OK \<and> states = (?partial @ [?synced]) @ [fs_rename ?t path ?synced,
           fs_sync_directory (fs_rename ?t path ?synced)]
         \<or> r = CHECKPOINT_PUBLISHED_NOT_DURABLE
           \<and> states = (?partial @ [?synced]) @ [fs_rename ?t path ?synced]"
        using assms \<open>\<not> (path = [] \<or> _)\<close> w synced
        by (auto simp: checkpoint_save_def Let_def sync_parent_directory_def split: if_splits)
      moreover have "\<forall>st \<in> set (?partial @ [?synced]). only_at ?t fs st" using part by auto
      ultimately show ?thesis
        using \<open>\<not> (path = [] \<or> _)\<close> by (intro published [OF _ _ refl]) auto
    qed
  qed
qed

lemma renamed_survive:
  assumes "fs_settled fs" and "t \<noteq> path"
    and "st = fs_rename t path (fs_put t data True fs)"
  shows "may_survive st path c \<Longrightarrow> c = fs_content fs path \<or> c = Some data"
    and "p \<noteq> path \<Longrightarrow> p \<noteq> t \<Longrightarrow> may_survive st p c \<Longrightarrow> c = fs_content fs p"
    and "may_survive (fs_sync_directory st) path c \<Longrightarrow> c = Some data"
    and "p \<noteq> path \<Longrightarrow> p \<noteq> t \<Longrightarrow> may_survive (fs_sync_directory st) p c \<Longrightarrow> c = fs_content fs p"
    and "fs_settled (fs_sync_directory st)"
    and "fs_content (fs_sync_directory st) path = Some data"
    and "p \<noteq> path \<Longrightarrow> p \<noteq> t \<Longrightarrow> fs_content (fs_sync_directory st) p = fs_content fs p"
  using assms
  by (auto simp: fs_settled_def fs_content_def may_survive_def fs_rename_def fs_put_def
    fs_sync_directory_def split: option.splits if_splits)

text \<open>Everything a crash during or after a save can leave.\<close>

lemma save_survive:
  assumes fs: "fs_settled fs" and save: "checkpoint_save env path s fs = Some (r, states)"
    and st: "st \<in> set states"
  shows "may_survive st path c \<Longrightarrow> c = fs_content fs path
      \<or> c = Some (checkpoint_encode s) \<and> r \<in> {CHECKPOINT_OK, CHECKPOINT_PUBLISHED_NOT_DURABLE}"
    and "p \<noteq> path \<Longrightarrow> p \<noteq> temporary_name env path \<Longrightarrow> may_survive st p c \<Longrightarrow> c = fs_content fs p"
proof -
  let ?t = "temporary_name env path"
  have "(may_survive st path c \<longrightarrow> c = fs_content fs path
      \<or> c = Some (checkpoint_encode s) \<and> r \<in> {CHECKPOINT_OK, CHECKPOINT_PUBLISHED_NOT_DURABLE})
    \<and> (p \<noteq> path \<longrightarrow> p \<noteq> ?t \<longrightarrow> may_survive st p c \<longrightarrow> c = fs_content fs p)"
    using save
  proof (cases rule: checkpoint_save_cases)
    case unpublished
    then have "only_at ?t fs st" using st by blast
    from only_at_survive [OF fs this] show ?thesis by (metis temporary_name_ne(2))
  next
    case (published before synced)
    let ?renamed = "fs_rename ?t path synced"
    consider "st \<in> set before" | "st = ?renamed" | "st = fs_sync_directory ?renamed"
      using st published(5) by auto
    then show ?thesis
    proof cases
      case 1
      then have "only_at ?t fs st" using published(4) by blast
      from only_at_survive [OF fs this] show ?thesis by (metis temporary_name_ne(2))
    next
      case 2
      then show ?thesis
        using renamed_survive(1,2) [OF fs temporary_name_ne(1) 2 [unfolded published(3)]] published(5)
        by blast
    next
      case 3
      have r: "?renamed = fs_rename ?t path (fs_put ?t (checkpoint_encode s) True fs)"
        using published(3) by simp
      show ?thesis
        using renamed_survive(3,4) [OF fs temporary_name_ne(1) r] published(5) 3 by blast
    qed
  qed
  then show "may_survive st path c \<Longrightarrow> c = fs_content fs path
      \<or> c = Some (checkpoint_encode s) \<and> r \<in> {CHECKPOINT_OK, CHECKPOINT_PUBLISHED_NOT_DURABLE}"
    and "p \<noteq> path \<Longrightarrow> p \<noteq> ?t \<Longrightarrow> may_survive st p c \<Longrightarrow> c = fs_content fs p"
    by blast+
qed

lemma save_OK:
  assumes "fs_settled fs" and "checkpoint_save env path s fs = Some (CHECKPOINT_OK, states)"
  shows "fs_settled (last states)" and "fs_content (last states) path = Some (checkpoint_encode s)"
    and "p \<noteq> path \<Longrightarrow> p \<noteq> temporary_name env path \<Longrightarrow> fs_content (last states) p = fs_content fs p"
    and "checkpoint_valid_snapshot s"
proof -
  have "fs_settled (last states) \<and> fs_content (last states) path = Some (checkpoint_encode s)
    \<and> checkpoint_valid_snapshot s
    \<and> (p \<noteq> path \<longrightarrow> p \<noteq> temporary_name env path \<longrightarrow> fs_content (last states) p = fs_content fs p)"
    using assms(2)
  proof (cases rule: checkpoint_save_cases)
    case unpublished
    then show ?thesis by simp
  next
    case (published before synced)
    let ?renamed = "fs_rename (temporary_name env path) path
      (fs_put (temporary_name env path) (checkpoint_encode s) True fs)"
    have "last states = fs_sync_directory ?renamed" using published by simp
    then show ?thesis
      using renamed_survive(5,6,7) [OF assms(1) temporary_name_ne(1) refl] published(1) by metis
  qed
  then show "fs_settled (last states)" "fs_content (last states) path = Some (checkpoint_encode s)"
    "p \<noteq> path \<Longrightarrow> p \<noteq> temporary_name env path \<Longrightarrow> fs_content (last states) p = fs_content fs p"
    "checkpoint_valid_snapshot s" by blast+
qed

lemma accept_OK_Some: "checkpoint_accept data = Some s \<longleftrightarrow> checkpoint_parse data = (CHECKPOINT_OK, Some s)"
  by (auto simp: checkpoint_accept_def split: prod.splits checkpoint_result.splits option.splits)

lemma load_OK_content:
  assumes "checkpoint_load env path fs = (CHECKPOINT_OK, Some s, v)"
  shows "\<exists>data. fs_content fs path = Some data \<and> checkpoint_parse data = (CHECKPOINT_OK, Some s)"
proof -
  obtain f where f: "fs_entries fs path = Some f"
    "checkpoint_parse (take (CHECKPOINT_SIZE + 1) (ff_content f)) = (CHECKPOINT_OK, Some s)"
    using assms by (auto simp: checkpoint_load_def Let_def split: if_splits option.splits prod.splits)
  have ok: "fst (checkpoint_parse (take (CHECKPOINT_SIZE + 1) (ff_content f))) = CHECKPOINT_OK"
    using f(2) by simp
  have "length (ff_content f) = CHECKPOINT_SIZE" using parse_OK_facts(1) [OF ok] by simp
  with f show ?thesis by (simp add: fs_content_def)
qed

lemma load_OK_version:
  assumes "checkpoint_load env path fs = (CHECKPOINT_OK, snapshot, v)"
  shows "v = Some TASK_CHECKPOINT_VERSION"
proof -
  obtain f where e: "fs_entries fs path = Some f"
    and io: "path \<noteq> []" "io_open env" "io_read env" "io_close env"
    using assms by (auto simp: checkpoint_load_def split: if_splits option.splits)
  define data where "data = take (CHECKPOINT_SIZE + 1) (ff_content f)"
  have load: "checkpoint_load env path fs = (fst (checkpoint_parse data), snd (checkpoint_parse data),
      if length data < CHECKPOINT_HEADER_SIZE \<or> take 8 data \<noteq> checkpoint_magic
      then None else Some (get_u32 (drop 8 data)))"
    using e io by (simp add: checkpoint_load_def Let_def split_beta data_def)
  then have ok: "fst (checkpoint_parse data) = CHECKPOINT_OK" using assms by simp
  have "\<not> (length data < CHECKPOINT_HEADER_SIZE \<or> take 8 data \<noteq> checkpoint_magic)"
    using parse_OK_facts(1,2) [OF ok] by (simp add: CHECKPOINT_SIZE_def CHECKPOINT_HEADER_SIZE_def)
  then show ?thesis
    using load assms parse_OK_facts(3) [OF ok] by (simp only: if_False prod.inject)
qed

lemma load_content_OK:
  assumes "fs_content fs path = Some data" and "checkpoint_parse data = (CHECKPOINT_OK, Some s)"
    and "path \<noteq> []" and "io_open env" and "io_read env" and "io_close env"
  shows "checkpoint_load env path fs = (CHECKPOINT_OK, Some s, Some TASK_CHECKPOINT_VERSION)"
proof -
  have ok: "fst (checkpoint_parse data) = CHECKPOINT_OK" using assms(2) by simp
  note facts = parse_OK_facts [OF ok]
  obtain f where f: "fs_entries fs path = Some f" "ff_content f = data"
    using assms(1) by (auto simp: fs_content_def)
  have "take (CHECKPOINT_SIZE + 1) data = data" using facts(1) by simp
  then show ?thesis
    using f facts(1-3) assms(2-6)
    by (simp add: checkpoint_load_def Let_def CHECKPOINT_SIZE_def CHECKPOINT_HEADER_SIZE_def)
qed

section \<open>Properties\<close>

text \<open>
  C6. A save is atomic under crashes: starting from a settled file system, a crash at any
  moment during or after it leaves under the checkpoint's name either exactly the previous
  content or a file that loads as the new snapshot, and nothing else changes except the
  temporary name. After OK the new snapshot is certain; after INVALID or IO_ERROR the previous
  content is.
\<close>

theorem checkpoint_save_crash_atomic:
  assumes "fs_settled fs" and "storable_snapshot s"
    and "checkpoint_save env path s fs = Some (r, states)"
    and "st \<in> set states" and "crash_leaves st after"
  shows "(after path = fs_content fs path
      \<or> (\<exists>data. after path = Some data \<and> checkpoint_accept data = Some s))
    \<and> (r = CHECKPOINT_OK \<and> st = last states \<longrightarrow>
        (\<exists>data. after path = Some data \<and> checkpoint_accept data = Some s))
    \<and> (r = CHECKPOINT_INVALID \<or> r = CHECKPOINT_IO_ERROR \<longrightarrow> after path = fs_content fs path)
    \<and> (\<forall>p. p \<noteq> path \<and> p \<noteq> temporary_name env path \<longrightarrow> after p = fs_content fs p)"
proof -
  have survive: "may_survive st p (after p)" for p using assms(5) by (simp add: crash_leaves_def)
  note path = save_survive(1) [OF assms(1,3,4) survive]
  have others: "\<forall>p. p \<noteq> path \<and> p \<noteq> temporary_name env path \<longrightarrow> after p = fs_content fs p"
    using save_survive(2) [OF assms(1,3,4) _ _ survive] by blast
  have accept: "checkpoint_accept (checkpoint_encode s) = Some s"
    using assms(2) by (rule checkpoint.dec_enc)
  have final: "after path = Some (checkpoint_encode s)" if "r = CHECKPOINT_OK" "st = last states"
  proof -
    have "fs_settled st" "fs_content st path = Some (checkpoint_encode s)"
      using save_OK(1,2) [OF assms(1)] assms(3) that by auto
    with survive [of path] show ?thesis
      by (auto simp: may_survive_def fs_settled_def fs_content_def split: option.splits)
  qed
  from path accept others final show ?thesis by auto
qed

definition sample_io :: io_env where
  "sample_io = \<lparr>io_suffix = ''abcdef'', io_mkstemp = True, io_writes = [WRITE_EINTR, WRITE_BYTES 600],
     io_fsync = True, io_close = True, io_rename = True, io_unlink = True, io_open = True,
     io_read = True, io_sync_directory = True\<rparr>"

definition empty_fs :: fs where
  "empty_fs = \<lparr>fs_entries = (\<lambda>_. None), fs_durable = (\<lambda>_. None)\<rparr>"

lemma write_all_once:
  "data \<noteq> [] \<Longrightarrow> length data \<le> n \<Longrightarrow>
     write_all [WRITE_EINTR, WRITE_BYTES n] w data = Some (True, [w @ data])"
  by (cases data) auto

lemma sample_save:
  assumes "storable_snapshot s" and "path \<noteq> []" and "length path + 11 < PATH_CAPACITY"
  shows "\<exists>states. checkpoint_save sample_io path s fs = Some (CHECKPOINT_OK, states)"
proof -
  have len: "length (checkpoint_encode s) = 516"
    using assms(1) parse_encode(1) by (simp add: storable_snapshot_def CHECKPOINT_SIZE_def)
  then have "checkpoint_encode s \<noteq> []" by auto
  then have w: "write_all (io_writes sample_io) [] (checkpoint_encode s)
      = Some (True, [checkpoint_encode s])"
    using write_all_once [of "checkpoint_encode s" 600 "[]"] len by (simp add: sample_io_def)
  show ?thesis
    using assms w
    by (simp add: checkpoint_save_def Let_def storable_snapshot_def sync_parent_directory_def)
      (simp add: sample_io_def)
qed

lemma sample_storable: "storable_snapshot sample_durable"
  using sample_durable_storable by (simp add: storable_snapshot_def)

theorem checkpoint_save_crash_atomic_witness:
  "\<exists>states. checkpoint_save sample_io ''task'' sample_durable empty_fs = Some (CHECKPOINT_OK, states)
     \<and> (\<forall>after. crash_leaves (last states) after \<longrightarrow>
          (\<exists>data. after ''task'' = Some data \<and> checkpoint_accept data = Some sample_durable))"
proof -
  obtain states where s: "checkpoint_save sample_io ''task'' sample_durable empty_fs
      = Some (CHECKPOINT_OK, states)"
    using sample_save [OF sample_storable, of "''task''" empty_fs] by (auto simp: PATH_CAPACITY_def)
  have "fs_settled empty_fs" by (simp add: fs_settled_def empty_fs_def)
  moreover have "states \<noteq> []" using s by (cases rule: checkpoint_save_cases) auto
  ultimately show ?thesis
    using checkpoint_save_crash_atomic [OF _ sample_storable s, of "last states"] s by auto
qed

section \<open>What a promotion may leave\<close>

lemma load_staged_OK:
  assumes "checkpoint_load_staged env path fs = (CHECKPOINT_OK, Some s, v)"
  obtains data where "staged_path path = Some (path @ ''.next'')" "path \<noteq> []"
    "fs_content fs (path @ ''.next'') = Some data" "checkpoint_parse data = (CHECKPOINT_OK, Some s)"
    "storable_snapshot s" "v = Some TASK_CHECKPOINT_VERSION"
proof -
  let ?next = "path @ ''.next''"
  have staged: "staged_path path = Some ?next" "path \<noteq> []"
    and load: "checkpoint_load env ?next fs = (CHECKPOINT_OK, Some s, v)"
    using assms by (auto simp: checkpoint_load_staged_def staged_path_def Let_def split: if_splits)
  obtain data where data: "fs_content fs ?next = Some data" "checkpoint_parse data = (CHECKPOINT_OK, Some s)"
    using load_OK_content [OF load] by blast
  have "storable_snapshot s" using parse_OK_storable [OF data(2)] by (simp add: storable_snapshot_def)
  then show ?thesis using that [OF staged data _ load_OK_version [OF load]] by blast
qed

text \<open>The states of a discard keep what is durable under the canonical name.\<close>

lemma discard_states:
  assumes "checkpoint_discard_staged env path fs = (r, states)" "staged_path path = Some (path @ ''.next'')"
    "fs_settled fs" "st \<in> set states"
  shows "may_survive st path c \<Longrightarrow> c = fs_content fs path"
    and "r = CHECKPOINT_OK \<Longrightarrow> fs_content (last states) (path @ ''.next'') = None
      \<and> fs_content (last states) path = fs_content fs path"
proof -
  let ?next = "path @ ''.next''"
  have states: "states = [fs] \<and> (r = CHECKPOINT_OK \<longrightarrow> fs_entries fs ?next = None)
      \<or> states = [fs, fs_unlink ?next fs, fs_sync_directory (fs_unlink ?next fs)]
      \<or> states = [fs, fs_unlink ?next fs] \<and> r \<noteq> CHECKPOINT_OK"
    using assms(1,2) by (auto simp: checkpoint_discard_staged_def sync_parent_directory_def Let_def split: if_splits)
  have "c = fs_content fs path"
    if "may_survive x path c" "x \<in> {fs, fs_unlink ?next fs, fs_sync_directory (fs_unlink ?next fs)}" for x
    using that assms(3)
    by (auto simp: may_survive_def fs_settled_def fs_content_def fs_unlink_def fs_sync_directory_def
      split: option.splits)
  then show "may_survive st path c \<Longrightarrow> c = fs_content fs path" using assms(4) states by auto
  show "r = CHECKPOINT_OK \<Longrightarrow> fs_content (last states) ?next = None
      \<and> fs_content (last states) path = fs_content fs path"
    using states by (auto simp: fs_content_def fs_unlink_def fs_sync_directory_def)
qed

lemma settled_survive: "fs_settled fs \<Longrightarrow> may_survive fs p c \<Longrightarrow> c = fs_content fs p"
  by (auto simp: may_survive_def fs_settled_def fs_content_def split: option.splits)

lemma next_name [simp]: "path @ ''.next'' \<noteq> path"
  by simp

lemma promote_survive:
  assumes fs: "fs_settled fs"
    and staged: "checkpoint_load_staged env path fs = (CHECKPOINT_OK, Some s, v)"
    and promote: "checkpoint_promote_staged env env_save env_discard path fs = Some (r, states)"
    and st: "st \<in> set states"
  shows "may_survive st path c \<Longrightarrow> c = fs_content fs path \<or> c = Some (checkpoint_encode s)"
    and "(\<forall>c. may_survive st path c \<longrightarrow> c = Some (checkpoint_encode s))
      \<or> (\<forall>c. may_survive st (path @ ''.next'') c \<longrightarrow> c = fs_content fs (path @ ''.next''))"
    and "r = CHECKPOINT_OK \<Longrightarrow> fs_content (last states) (path @ ''.next'') = None
      \<and> fs_content (last states) path = Some (checkpoint_encode s)"
proof -
  let ?next = "path @ ''.next''" and ?enc = "Some (checkpoint_encode s)"
  obtain data where d: "staged_path path = Some ?next" "v = Some TASK_CHECKPOINT_VERSION"
    using load_staged_OK [OF staged] by metis
  consider (early) "states = [fs]" "r \<noteq> CHECKPOINT_OK"
    | (saved) "checkpoint_save env_save path s fs = Some (r, states)" "r \<noteq> CHECKPOINT_OK"
    | (promoted) sstates dstates where
        "checkpoint_save env_save path s fs = Some (CHECKPOINT_OK, sstates)"
        "checkpoint_discard_staged env_discard path (last sstates) = (r, dstates)"
        "states = sstates @ dstates"
    using promote staged d(2)
    by (auto simp: checkpoint_promote_staged_def split: option.splits if_splits prod.splits)
  then have "(may_survive st path c \<longrightarrow> c = fs_content fs path \<or> c = ?enc)
    \<and> ((\<forall>c. may_survive st path c \<longrightarrow> c = ?enc) \<or> (\<forall>c. may_survive st ?next c \<longrightarrow> c = fs_content fs ?next))
    \<and> (r = CHECKPOINT_OK \<longrightarrow> fs_content (last states) ?next = None \<and> fs_content (last states) path = ?enc)"
  proof cases
    case early
    then show ?thesis using settled_survive [OF fs] st by auto
  next
    case saved
    then show ?thesis
      using save_survive(1) [OF fs saved(1) st] save_survive(2) [OF fs saved(1) st next_name temporary_name_staged(2)]
      by auto
  next
    case (promoted sstates dstates)
    note ok = save_OK [OF fs promoted(1)]
    note discard = discard_states [OF promoted(2) d(1) ok(1)]
    show ?thesis
    proof (cases "st \<in> set sstates")
      case True
      have "dstates \<noteq> []" using promoted(2) d(1)
        by (auto simp: checkpoint_discard_staged_def Let_def sync_parent_directory_def split: if_splits)
      then have last: "last states = last dstates" using promoted(3) by simp
      show ?thesis
        using save_survive(1) [OF fs promoted(1) True]
          save_survive(2) [OF fs promoted(1) True next_name temporary_name_staged(2)]
          discard(2) [OF last_in_set [OF \<open>dstates \<noteq> []\<close>]] ok(2) last by auto
    next
      case False
      then have "st \<in> set dstates" using st promoted(3) by simp
      moreover from this have "last states = last dstates" using promoted(3) by (cases dstates) auto
      ultimately show ?thesis using discard [OF \<open>st \<in> set dstates\<close>] ok(2) by auto
    qed
  qed
  then show "may_survive st path c \<Longrightarrow> c = fs_content fs path \<or> c = ?enc"
    and "(\<forall>c. may_survive st path c \<longrightarrow> c = ?enc) \<or> (\<forall>c. may_survive st ?next c \<longrightarrow> c = fs_content fs ?next)"
    and "r = CHECKPOINT_OK \<Longrightarrow> fs_content (last states) ?next = None \<and> fs_content (last states) path = ?enc"
    by blast+
qed

section \<open>Promotion is safe\<close>

text \<open>
  C7. Promotion never loses the staged checkpoint: when the staged file loads as a snapshot,
  a crash at any moment of \<open>promote_staged\<close> leaves that snapshot readable under the staged or
  the canonical name; and after OK it is the canonical one and the staged name is gone.
\<close>

theorem promote_keeps_staged_snapshot:
  assumes "fs_settled fs"
    and "checkpoint_load_staged env path fs = (CHECKPOINT_OK, Some s, v)"
    and "checkpoint_promote_staged env env_save env_discard path fs = Some (r, states)"
    and "st \<in> set states" and "crash_leaves st after"
  shows "(\<exists>p data. p \<in> {path, path @ ''.next''} \<and> after p = Some data
      \<and> checkpoint_accept data = Some s)
    \<and> (r = CHECKPOINT_OK \<longrightarrow> fs_content (last states) (path @ ''.next'') = None
        \<and> (\<exists>data. fs_content (last states) path = Some data \<and> checkpoint_accept data = Some s))"
proof -
  obtain data where data: "fs_content fs (path @ ''.next'') = Some data"
      "checkpoint_parse data = (CHECKPOINT_OK, Some s)" "storable_snapshot s"
    using load_staged_OK [OF assms(2)] by metis
  have accept: "checkpoint_accept data = Some s" using data(2) by (simp add: accept_OK_Some)
  have enc: "checkpoint_accept (checkpoint_encode s) = Some s" using data(3) by (rule checkpoint.dec_enc)
  have survive: "may_survive st p (after p)" for p using assms(5) by (simp add: crash_leaves_def)
  note states = promote_survive [OF assms(1-4)]
  from states(2) have "after path = Some (checkpoint_encode s) \<or> after (path @ ''.next'') = Some data"
    using survive data(1) by metis
  with states(3) accept enc show ?thesis by auto
qed

definition staged_fs :: fs where
  "staged_fs =
     \<lparr>fs_entries = (\<lambda>_. None)(''task.next'' :=
        Some \<lparr>ff_content = checkpoint_encode sample_durable, ff_synced = True\<rparr>),
      fs_durable = (\<lambda>_. None)(''task.next'' := Some (checkpoint_encode sample_durable))\<rparr>"

theorem promote_keeps_staged_snapshot_witness:
  "\<exists>r states. checkpoint_promote_staged sample_io sample_io sample_io ''task'' staged_fs = Some (r, states)
     \<and> (\<forall>st \<in> set states. \<forall>after. crash_leaves st after \<longrightarrow>
          (\<exists>p data. p \<in> {''task'', ''task.next''} \<and> after p = Some data
            \<and> checkpoint_accept data = Some sample_durable))"
proof -
  have settled: "fs_settled staged_fs" by (auto simp: fs_settled_def staged_fs_def)
  have content: "fs_content staged_fs ''task.next'' = Some (checkpoint_encode sample_durable)"
    by (simp add: fs_content_def staged_fs_def)
  have load: "checkpoint_load_staged sample_io ''task'' staged_fs
      = (CHECKPOINT_OK, Some sample_durable, Some TASK_CHECKPOINT_VERSION)"
    using load_content_OK [OF content parse_encode(2) [OF sample_durable_storable], of sample_io]
    by (simp add: checkpoint_load_staged_def staged_path_def Let_def PATH_CAPACITY_def)
      (simp add: sample_io_def)
  obtain states where save: "checkpoint_save sample_io ''task'' sample_durable staged_fs
      = Some (CHECKPOINT_OK, states)"
    using sample_save [OF sample_storable, of "''task''" staged_fs] by (auto simp: PATH_CAPACITY_def)
  obtain r states' where p: "checkpoint_promote_staged sample_io sample_io sample_io ''task'' staged_fs
      = Some (r, states')"
    using load save by (fastforce simp: checkpoint_promote_staged_def split: prod.split)
  from promote_keeps_staged_snapshot [OF settled load p] p show ?thesis by fastforce
qed

end
