(* ===== verification/Task_State.thy ===== *)
theory Task_State
  imports Capability_Admission Checkpoint_Codec
begin

text \<open>
  The Task of \<open>src/task.c\<close>: its state, its creation and restoration, its capability
  envelope, and every operation that is one critical section of the Task mutex. A Task's
  character arrays are the C texts they hold (no NUL inside); the callbacks and their user
  data are opaque, so a Task keeps only whether a finished callback is set. \<open>now\<close> is what
  \<open>clock_gettime (CLOCK_REALTIME)\<close> stores.
\<close>

section \<open>Data\<close>

datatype task_state = PENDING | RUNNING | PAUSED | CANCELLED | FAILED | COMPLETED

fun state_code :: "task_state \<Rightarrow> u32" where
  "state_code PENDING = 0"
| "state_code RUNNING = 1"
| "state_code PAUSED = 2"
| "state_code CANCELLED = 3"
| "state_code FAILED = 4"
| "state_code COMPLETED = 5"

record execution_contract =
  ec_batch_size :: size_t
  ec_memory_bytes :: u64
  ec_gpu_memory_bytes :: u64
  ec_cpu_threads :: u32
  ec_gpu_slots :: u32
  ec_io_slots :: u32

definition zero_contract :: execution_contract where
  "zero_contract = \<lparr>ec_batch_size = 0, ec_memory_bytes = 0, ec_gpu_memory_bytes = 0,
     ec_cpu_threads = 0, ec_gpu_slots = 0, ec_io_slots = 0\<rparr>"

text \<open>
  \<open>struct Lardon3DTask\<close> without its mutex, condition and opaque pointers.
  \<open>tk_governor_set\<close> is \<open>governor != NULL\<close>; reservations are the addresses of the
  Governor's model.
\<close>

record task =
  tk_id :: u64
  tk_name :: string
  tk_progress :: u32
  tk_durable_progress_known :: bool
  tk_durable_completed :: u64
  tk_durable_total :: u64
  tk_state :: task_state
  tk_message :: string
  tk_started_at :: timespec
  tk_finished_at :: timespec
  tk_finished_callback :: bool
  tk_finished_notified :: bool
  tk_finished_callback_running :: bool
  tk_kind :: string
  tk_kind_version :: u32
  tk_estimate :: resource_estimate
  tk_envelope :: capability_envelope
  tk_pending_selection :: capability_selection
  tk_selected_capability :: capability_selection
  tk_pending_reservation :: "nat option"
  tk_has_selected_capability :: bool
  tk_contract :: execution_contract
  tk_has_contract :: bool
  tk_pause_requested :: bool
  tk_cancel_requested :: bool
  tk_executing :: bool
  tk_governor_set :: bool
  tk_current_reservation :: "nat option"
  tk_sequence_count :: u32
  tk_fallback_item_high_water :: u64
  tk_fallback_items_saturated :: bool
  tk_local_ineligible_fallback_items :: u64
  tk_backend_failure_fallback_items :: u64
  tk_backend_other_fallback_items :: u64

definition is_terminal :: "task_state \<Rightarrow> bool" where
  "is_terminal s \<longleftrightarrow> s = CANCELLED \<or> s = FAILED \<or> s = COMPLETED"

definition recovery_state :: "task_state \<Rightarrow> task_state" where
  "recovery_state s = (if s = RUNNING \<or> s = PAUSED then PENDING else s)"

section \<open>Kinds\<close>

definition kind_character :: "nat \<Rightarrow> char \<Rightarrow> bool" where
  "kind_character index c \<longleftrightarrow>
     of_char c \<ge> (97 :: nat) \<and> of_char c \<le> (122 :: nat)
     \<or> of_char c \<ge> (48 :: nat) \<and> of_char c \<le> (57 :: nat)
     \<or> index > 0 \<and> (c = CHR ''.'' \<or> c = CHR ''_'' \<or> c = CHR ''-'')"

fun kind_characters :: "nat \<Rightarrow> string \<Rightarrow> bool" where
  "kind_characters index [] = True"
| "kind_characters index (c # rest) =
     (if \<not> kind_character index c then False else kind_characters (index + 1) rest)"

definition task_kind_is_valid :: "string \<Rightarrow> bool" where
  "task_kind_is_valid kind =
     (if length kind = 0 \<or> length kind \<ge> TASK_KIND_CAPACITY then False
      else kind_characters 0 kind)"

definition kind_has_validated_cpu_range :: "string \<Rightarrow> u32 \<Rightarrow> bool" where
  "kind_has_validated_cpu_range kind version =
     (if version \<noteq> 1 then False
      else kind = ''features.extract'' \<or> kind = ''features.extract.batch''
        \<or> kind = ''features.extract.sift'' \<or> kind = ''features.extract.rootsift''
        \<or> kind = ''visual_index.update'' \<or> kind = ''candidate_pair.generate''
        \<or> kind = ''geometric_verifier.run'')"

definition kind_has_validated_batch_range :: "string \<Rightarrow> u32 \<Rightarrow> bool" where
  "kind_has_validated_batch_range kind version \<longleftrightarrow>
     version = 1 \<and> (kind = ''candidate_pair.generate'' \<or> kind = ''features.extract.batch'')"

definition kind_has_coupled_cpu_batch_range :: "string \<Rightarrow> u32 \<Rightarrow> bool" where
  "kind_has_coupled_cpu_batch_range kind version \<longleftrightarrow>
     version = 1 \<and> (kind = ''features.extract.batch'' \<or> kind = ''candidate_pair.generate'')"

section \<open>Creation\<close>

definition default_capability :: "resource_estimate \<Rightarrow> string option \<Rightarrow> u32 \<Rightarrow> task_capability" where
  "default_capability estimate kind version =
     \<lparr>tc_estimate = estimate, tc_backend = BACKEND_FIXED, tc_inflight_limit = 1,
       tc_minimum_inflight_limit = 0, tc_gpu_memory_bytes_per_inflight = 0,
       tc_helper_limit = 0, tc_preferred = False,
       tc_cpu_reducible =
         (case kind of None \<Rightarrow> False | Some k \<Rightarrow> kind_has_validated_cpu_range k version),
       tc_batch_adaptive =
         (case kind of None \<Rightarrow> False | Some k \<Rightarrow> kind_has_validated_batch_range k version),
       tc_cpu_batch_coupled =
         (case kind of None \<Rightarrow> False | Some k \<Rightarrow> kind_has_coupled_cpu_batch_range k version),
       tc_sustained_gpu_batch_feedback = False, tc_inflight_adaptive = False,
       tc_requires_runtime_backend = False\<rparr>"

text \<open>
  \<open>kind = None\<close> is the untyped call (\<open>task_kind == NULL\<close>), \<open>has_destroy\<close> tells whether
  \<open>userdata_destroy\<close> is given, and \<open>resources\<close> whether \<open>calloc\<close> and the pthread
  initialisations succeed.
\<close>

definition task_create_typed ::
    "bool \<Rightarrow> string \<Rightarrow> resource_estimate \<Rightarrow> string option \<Rightarrow> u32 \<Rightarrow> bool \<Rightarrow> task option" where
  "task_create_typed resources name estimate kind version has_destroy =
     (if name = []
         \<or> (case kind of Some k \<Rightarrow> \<not> task_kind_is_valid k \<or> version = 0
            | None \<Rightarrow> version \<noteq> 0 \<or> has_destroy)
      then None
      else if \<not> resources \<or> length name \<ge> TASK_NAME_CAPACITY then None
      else Some
        \<lparr>tk_id = 0, tk_name = name, tk_progress = 0, tk_durable_progress_known = False,
          tk_durable_completed = 0, tk_durable_total = 0, tk_state = PENDING,
          tk_message = ''En attente.'',
          tk_started_at = \<lparr>tv_sec = 0, tv_nsec = 0\<rparr>, tk_finished_at = \<lparr>tv_sec = 0, tv_nsec = 0\<rparr>,
          tk_finished_callback = False, tk_finished_notified = False,
          tk_finished_callback_running = False,
          tk_kind = (case kind of Some k \<Rightarrow> k | None \<Rightarrow> []),
          tk_kind_version = version, tk_estimate = estimate,
          tk_envelope = [default_capability estimate kind version],
          tk_pending_selection = zero_selection, tk_selected_capability = zero_selection,
          tk_pending_reservation = None, tk_has_selected_capability = False,
          tk_contract = zero_contract, tk_has_contract = False,
          tk_pause_requested = False, tk_cancel_requested = False, tk_executing = False,
          tk_governor_set = False, tk_current_reservation = None, tk_sequence_count = 0,
          tk_fallback_item_high_water = 0, tk_fallback_items_saturated = False,
          tk_local_ineligible_fallback_items = 0, tk_backend_failure_fallback_items = 0,
          tk_backend_other_fallback_items = 0\<rparr>)"

definition task_create :: "bool \<Rightarrow> string \<Rightarrow> resource_estimate \<Rightarrow> task option" where
  "task_create resources name estimate = task_create_typed resources name estimate None 0 False"

section \<open>The capability envelope\<close>

definition acceptable_capability :: "task_capability \<Rightarrow> bool" where
  "acceptable_capability c \<longleftrightarrow>
     \<not> (re_minimum_batch_size (tc_estimate c) = 0
       \<or> re_maximum_batch_size (tc_estimate c) < re_minimum_batch_size (tc_estimate c)
       \<or> re_desired_cpu_threads (tc_estimate c) = 0
       \<or> tc_inflight_limit c = 0
       \<or> (if tc_minimum_inflight_limit c \<noteq> 0 then tc_minimum_inflight_limit c
          else tc_inflight_limit c) > tc_inflight_limit c
       \<or> tc_sustained_gpu_batch_feedback c
         \<and> (\<not> tc_batch_adaptive c \<or> tc_backend c \<noteq> BACKEND_ORB_VULKAN)
       \<or> tc_cpu_batch_coupled c \<and> (\<not> tc_cpu_reducible c \<or> \<not> tc_batch_adaptive c)
       \<or> tc_inflight_adaptive c
         \<and> (tc_minimum_inflight_limit c = 0 \<or> tc_gpu_memory_bytes_per_inflight c = 0)
       \<or> tc_gpu_memory_bytes_per_inflight c \<noteq> 0
         \<and> tc_inflight_limit c > UINT64_MAX div tc_gpu_memory_bytes_per_inflight c)"

definition set_capability_envelope :: "capability_envelope \<Rightarrow> task \<Rightarrow> task \<times> bool" where
  "set_capability_envelope envelope t =
     (if envelope = [] \<or> length envelope > RESOURCE_CAPABILITY_MAX then (t, False)
      else if \<not> list_all acceptable_capability envelope then (t, False)
      else if \<not> tk_executing t \<and> tk_state t = PENDING \<and> tk_current_reservation t = None
              \<and> tk_pending_reservation t = None
      then (t\<lparr>tk_envelope := envelope\<rparr>, True)
      else (t, False))"

definition enable_known_capabilities :: "task \<Rightarrow> task" where
  "enable_known_capabilities t =
     (case tk_envelope t of
        [c] \<Rightarrow>
          if tc_backend c = BACKEND_FIXED
          then t\<lparr>tk_envelope :=
            [c\<lparr>tc_cpu_reducible := kind_has_validated_cpu_range (tk_kind t) (tk_kind_version t),
               tc_batch_adaptive := kind_has_validated_batch_range (tk_kind t) (tk_kind_version t),
               tc_cpu_batch_coupled :=
                 kind_has_coupled_cpu_batch_range (tk_kind t) (tk_kind_version t)\<rparr>]\<rparr>
          else t
      | _ \<Rightarrow> t)"

text \<open>The kind under which admission and feedback are keyed.\<close>

definition feedback_kind :: "task \<Rightarrow> string" where
  "feedback_kind t =
     copy_text TASK_KIND_CAPACITY (if tk_kind t \<noteq> [] then tk_kind t else ''task.untyped'')"

section \<open>Terminal transitions\<close>

definition set_message :: "string \<Rightarrow> task \<Rightarrow> task" where
  "set_message text t = t\<lparr>tk_message := copy_text TASK_MESSAGE_CAPACITY text\<rparr>"

definition finish_locked :: "timespec \<Rightarrow> task_state \<Rightarrow> string option \<Rightarrow> task \<Rightarrow> task" where
  "finish_locked now state message t =
     (let t = t\<lparr>tk_state := state\<rparr>;
          t = (if state = COMPLETED then t\<lparr>tk_progress := 100\<rparr> else t);
          t = (case message of Some m \<Rightarrow> set_message m t | None \<Rightarrow> t)
      in t\<lparr>tk_finished_at := now, tk_executing := False\<rparr>)"

definition cancelled_text :: string where
  "cancelled_text = ''T'' @ [CHR 0xC3, CHR 0xA2] @ ''che annul'' @ e_acute @ ''e.''"

definition paused_text :: string where
  "paused_text = ''T'' @ [CHR 0xC3, CHR 0xA2] @ ''che en pause.''"

definition cancel_requested_text :: string where
  "cancel_requested_text = ''Annulation demand'' @ e_acute @ ''e.''"

text \<open>The two critical sections of \<open>notify_finished\<close>: \<^const>\<open>True\<close> is "call the callback now".\<close>

definition notify_begin :: "task \<Rightarrow> task \<times> bool" where
  "notify_begin t =
     (if is_terminal (tk_state t) \<and> \<not> tk_finished_notified t
      then (t\<lparr>tk_finished_notified := True,
              tk_finished_callback_running := tk_finished_callback t\<rparr>, tk_finished_callback t)
      else (t, False))"

definition notify_end :: "task \<Rightarrow> task" where
  "notify_end t = t\<lparr>tk_finished_callback_running := False\<rparr>"

definition set_finished_callback :: "task \<Rightarrow> task \<times> bool" where
  "set_finished_callback t =
     (if \<not> tk_executing t \<and> tk_state t = PENDING \<and> \<not> tk_finished_callback t
      then (t\<lparr>tk_finished_callback := True\<rparr>, True) else (t, False))"

section \<open>Requests of other threads\<close>

text \<open>\<open>request_cancel\<close> before its notification; \<^const>\<open>True\<close> is \<open>finished_here\<close>.\<close>

definition request_cancel :: "timespec \<Rightarrow> task \<Rightarrow> task \<times> bool" where
  "request_cancel now t =
     (if \<not> is_terminal (tk_state t)
      then
        let t = set_message cancel_requested_text (t\<lparr>tk_cancel_requested := True\<rparr>)
        in if \<not> tk_executing t then (finish_locked now CANCELLED (Some cancelled_text) t, True)
           else (t, False)
      else (t, False))"

definition task_pause :: "task \<Rightarrow> task \<times> bool" where
  "task_pause t =
     (if \<not> is_terminal (tk_state t) \<and> \<not> tk_cancel_requested t
      then
        let t = t\<lparr>tk_pause_requested := True\<rparr>
        in (if \<not> tk_executing t then set_message paused_text (t\<lparr>tk_state := PAUSED\<rparr>) else t, True)
      else (t, False))"

definition task_resume :: "task \<Rightarrow> task \<times> bool" where
  "task_resume t =
     (if \<not> is_terminal (tk_state t) \<and> tk_pause_requested t
      then
        let t = t\<lparr>tk_pause_requested := False\<rparr>
        in (if \<not> tk_executing t then set_message ''En attente.'' (t\<lparr>tk_state := PENDING\<rparr>) else t, True)
      else (t, False))"

definition task_reject :: "timespec \<Rightarrow> string option \<Rightarrow> task \<Rightarrow> task \<times> bool" where
  "task_reject now message t =
     (if \<not> tk_executing t \<and> \<not> is_terminal (tk_state t)
      then (finish_locked now FAILED
              (Some (case message of Some m \<Rightarrow> m
                     | None \<Rightarrow> ''Ressources impossibles '' @ [CHR 0xC3, CHR 0xA0]
                         @ '' r'' @ e_acute @ ''server.'')) t, True)
      else (t, False))"

text \<open>\<open>join\<close> returns when this holds.\<close>

definition join_ready :: "task \<Rightarrow> bool" where
  "join_ready t \<longleftrightarrow> \<not> (tk_executing t
     \<or> is_terminal (tk_state t) \<and> tk_finished_callback t
       \<and> (\<not> tk_finished_notified t \<or> tk_finished_callback_running t))"

text \<open>The critical section of \<open>destroy\<close>, before it joins and frees the Task.\<close>

definition destroy_request :: "timespec \<Rightarrow> task \<Rightarrow> task" where
  "destroy_request now t =
     (if \<not> is_terminal (tk_state t)
      then if tk_executing t
        then set_message cancel_requested_text (t\<lparr>tk_cancel_requested := True\<rparr>)
        else (finish_locked now CANCELLED
                (Some (''T'' @ [CHR 0xC3, CHR 0xA2] @ ''che abandonn'' @ e_acute @ ''e.'')) t)
              \<lparr>tk_finished_notified := True\<rparr>
      else t)"

section \<open>Progress and failure\<close>

definition set_progress :: "u32 \<Rightarrow> string option \<Rightarrow> task \<Rightarrow> task \<times> bool" where
  "set_progress progress message t =
     (if progress > 100 then (t, False)
      else if \<not> is_terminal (tk_state t)
      then
        let t = t\<lparr>tk_progress := progress, tk_durable_progress_known := False,
                  tk_durable_completed := 0, tk_durable_total := 0\<rparr>
        in (case message of Some m \<Rightarrow> set_message m t | None \<Rightarrow> t, True)
      else (t, False))"

definition percentage_threshold :: "u64 \<Rightarrow> u32 \<Rightarrow> u64" where
  "percentage_threshold total_items percent =
     (let whole = total_items div 100; rest = total_items mod 100;
          residual_product = rest * ucast percent;
          threshold = whole * ucast percent + residual_product div 100
      in if residual_product mod 100 \<noteq> 0 then threshold + 1 else threshold)"

text \<open>The loop from 99 down to 1; the argument is the number of iterations left.\<close>

fun percentage_loop :: "u64 \<Rightarrow> u64 \<Rightarrow> nat \<Rightarrow> u32" where
  "percentage_loop completed total_items 0 = 0"
| "percentage_loop completed total_items (Suc k) =
     (if completed \<ge> percentage_threshold total_items (of_nat (Suc k)) then of_nat (Suc k)
      else percentage_loop completed total_items k)"

definition durable_percentage :: "u64 \<Rightarrow> u64 \<Rightarrow> u32" where
  "durable_percentage completed total_items =
     (if completed \<ge> total_items then 100 else percentage_loop completed total_items 99)"

definition set_durable_progress :: "u64 \<Rightarrow> u64 \<Rightarrow> string option \<Rightarrow> task \<Rightarrow> task \<times> bool" where
  "set_durable_progress completed total_items message t =
     (if total_items = 0 \<or> completed > total_items then (t, False)
      else if \<not> is_terminal (tk_state t) \<and> tk_kind t \<noteq> []
      then
        let t = t\<lparr>tk_progress := durable_percentage completed total_items,
                  tk_durable_progress_known := True, tk_durable_completed := completed,
                  tk_durable_total := total_items\<rparr>
        in (case message of Some m \<Rightarrow> set_message m t | None \<Rightarrow> t, True)
      else (t, False))"

definition task_fail :: "string option \<Rightarrow> task \<Rightarrow> task \<times> bool" where
  "task_fail message t =
     (if tk_executing t \<and> \<not> is_terminal (tk_state t)
      then (set_message (case message of Some m \<Rightarrow> m
                         | None \<Rightarrow> [CHR 0xC3, CHR 0x89] @ ''chec de la t'' @ [CHR 0xC3, CHR 0xA2]
                             @ ''che.'') (t\<lparr>tk_state := FAILED\<rparr>), True)
      else (t, False))"

definition assign_id :: "u64 \<Rightarrow> task \<Rightarrow> task \<times> bool" where
  "assign_id i t =
     (if i = 0 then (t, False)
      else if tk_id t = 0 \<and> tk_state t = PENDING then (t\<lparr>tk_id := i\<rparr>, True)
      else (t, False))"

section \<open>Fallback items\<close>

definition increment_task_fallback_counter :: "u64 \<Rightarrow> bool \<Rightarrow> u64 \<times> bool" where
  "increment_task_fallback_counter counter saturated =
     (if counter = UINT64_MAX then (counter, True) else (counter + 1, saturated))"

definition fallback_item_available :: "task \<Rightarrow> bool" where
  "fallback_item_available t \<longleftrightarrow> tk_executing t \<and> tk_governor_set t
     \<and> tk_has_selected_capability t
     \<and> tc_backend (cs_capability (tk_selected_capability t)) = BACKEND_ORB_VULKAN"

definition count_fallback_item :: "u64 \<Rightarrow> fallback_item_cause \<Rightarrow> task \<Rightarrow> task" where
  "count_fallback_item pair cause t =
     (if pair > tk_fallback_item_high_water t
      then
        let t = t\<lparr>tk_fallback_item_high_water := pair\<rparr>
        in case cause of
             FALLBACK_ITEM_LOCAL_INELIGIBLE \<Rightarrow>
               let (c, s) = increment_task_fallback_counter (tk_local_ineligible_fallback_items t)
                              (tk_fallback_items_saturated t)
               in t\<lparr>tk_local_ineligible_fallback_items := c, tk_fallback_items_saturated := s\<rparr>
           | FALLBACK_ITEM_BACKEND_FAILURE \<Rightarrow>
               let (c, s) = increment_task_fallback_counter (tk_backend_failure_fallback_items t)
                              (tk_fallback_items_saturated t)
               in t\<lparr>tk_backend_failure_fallback_items := c, tk_fallback_items_saturated := s\<rparr>
           | FALLBACK_ITEM_OTHER \<Rightarrow>
               let (c, s) = increment_task_fallback_counter (tk_backend_other_fallback_items t)
                              (tk_fallback_items_saturated t)
               in t\<lparr>tk_backend_other_fallback_items := c, tk_fallback_items_saturated := s\<rparr>
      else t)"

section \<open>Observations\<close>

record task_snapshot =
  ts_id :: u64
  ts_name :: string
  ts_progress :: u32
  ts_state :: task_state
  ts_message :: string
  ts_started_at :: timespec
  ts_finished_at :: timespec

definition task_snapshot_of :: "task \<Rightarrow> task_snapshot" where
  "task_snapshot_of t =
     \<lparr>ts_id = tk_id t, ts_name = copy_text TASK_NAME_CAPACITY (tk_name t),
       ts_progress = tk_progress t, ts_state = tk_state t,
       ts_message = copy_text TASK_MESSAGE_CAPACITY (tk_message t),
       ts_started_at = tk_started_at t, ts_finished_at = tk_finished_at t\<rparr>"

record task_observation = task_snapshot +
  to_has_task_kind :: bool
  to_task_kind :: string
  to_task_kind_version :: u32
  to_durable_progress_known :: bool
  to_durable_completed :: u64
  to_durable_total :: u64
  to_sequence_count :: u32
  to_has_execution_contract :: bool
  to_execution_contract :: execution_contract

definition task_observation_of :: "task \<Rightarrow> task_observation" where
  "task_observation_of t =
     \<lparr>ts_id = tk_id t, ts_name = copy_text TASK_NAME_CAPACITY (tk_name t),
       ts_progress = tk_progress t, ts_state = tk_state t,
       ts_message = copy_text TASK_MESSAGE_CAPACITY (tk_message t),
       ts_started_at = tk_started_at t, ts_finished_at = tk_finished_at t,
       to_has_task_kind = (tk_kind t \<noteq> []),
       to_task_kind = copy_text TASK_KIND_CAPACITY (tk_kind t),
       to_task_kind_version = tk_kind_version t,
       to_durable_progress_known = tk_durable_progress_known t,
       to_durable_completed = (if tk_durable_progress_known t then tk_durable_completed t else 0),
       to_durable_total = (if tk_durable_progress_known t then tk_durable_total t else 0),
       to_sequence_count = tk_sequence_count t,
       to_has_execution_contract = tk_has_contract t,
       to_execution_contract = (if tk_has_contract t then tk_contract t else zero_contract)\<rparr>"

definition task_kind_of :: "task \<Rightarrow> (string \<times> u32) option" where
  "task_kind_of t =
     (if tk_kind t \<noteq> [] then Some (copy_text TASK_KIND_CAPACITY (tk_kind t), tk_kind_version t)
      else None)"

definition task_id :: "task \<Rightarrow> u64" where
  "task_id t = ts_id (task_snapshot_of t)"

definition execution_contract_of :: "task \<Rightarrow> execution_contract option" where
  "execution_contract_of t = (if tk_has_contract t then Some (tk_contract t) else None)"

definition execution_selection :: "task \<Rightarrow> capability_selection option" where
  "execution_selection t =
     (if tk_executing t \<and> tk_has_selected_capability t \<and> tk_has_contract t
      then Some (tk_selected_capability t) else None)"

definition task_sequence_count :: "task \<Rightarrow> u32" where
  "task_sequence_count t = tk_sequence_count t"

definition task_resource_estimate :: "task \<Rightarrow> resource_estimate" where
  "task_resource_estimate t = tk_estimate t"

fun task_state_name :: "task_state \<Rightarrow> string" where
  "task_state_name PENDING = ''En attente''"
| "task_state_name RUNNING = ''En cours''"
| "task_state_name PAUSED = ''En pause''"
| "task_state_name CANCELLED = ''Annul'' @ e_acute @ ''e''"
| "task_state_name FAILED = [CHR 0xC3, CHR 0x89] @ ''chec''"
| "task_state_name COMPLETED = ''Termin'' @ e_acute @ ''e''"

section \<open>Durable snapshots\<close>

text \<open>A text in a zeroed character array of the capacity, and back.\<close>

definition text_buffer :: "nat \<Rightarrow> string \<Rightarrow> bytes" where
  "text_buffer capacity text =
     (let cut = copy_text capacity text
      in map of_char cut @ replicate (capacity - length cut) 0)"

definition buffer_text :: "bytes \<Rightarrow> string" where
  "buffer_text buffer = map (\<lambda>b. char_of (unat b)) (takeWhile (\<lambda>b. b \<noteq> 0) buffer)"

definition task_durable_snapshot :: "task \<Rightarrow> durable_snapshot" where
  "task_durable_snapshot t =
     \<lparr>ds_id = tk_id t, ds_name = text_buffer TASK_NAME_CAPACITY (tk_name t),
       ds_estimate = tk_estimate t, ds_progress = tk_progress t,
       ds_saved_state = state_code (tk_state t),
       ds_recovery_state = state_code (recovery_state (tk_state t)),
       ds_message = text_buffer TASK_MESSAGE_CAPACITY (tk_message t),
       ds_started_at = tk_started_at t, ds_finished_at = tk_finished_at t,
       ds_sequence_count = tk_sequence_count t\<rparr>"

definition state_of_code :: "u32 \<Rightarrow> task_state option" where
  "state_of_code c =
     find (\<lambda>s. state_code s = c) [PENDING, RUNNING, PAUSED, CANCELLED, FAILED, COMPLETED]"

definition task_restore_typed ::
    "bool \<Rightarrow> durable_snapshot \<Rightarrow> string option \<Rightarrow> u32 \<Rightarrow> bool \<Rightarrow> task option" where
  "task_restore_typed resources s kind version has_destroy =
     (if ds_id s = 0 \<or> ds_name s ! 0 = 0 \<or> 0 \<notin> set (ds_name s) \<or> 0 \<notin> set (ds_message s)
         \<or> ds_progress s > 100
      then None
      else case (state_of_code (ds_saved_state s), state_of_code (ds_recovery_state s)) of
        (Some saved, Some recovery) \<Rightarrow>
          if recovery \<noteq> recovery_state saved
             \<or> recovery = COMPLETED \<and> ds_progress s \<noteq> 100
             \<or> \<not> valid_estimate (ds_estimate s)
          then None
          else (case task_create_typed resources (buffer_text (ds_name s)) (ds_estimate s)
                       kind version has_destroy of
              None \<Rightarrow> None
            | Some t \<Rightarrow> Some
                ((set_message (buffer_text (ds_message s))
                   (t\<lparr>tk_id := ds_id s, tk_progress := ds_progress s, tk_state := recovery\<rparr>))
                  \<lparr>tk_started_at := ds_started_at s, tk_finished_at := ds_finished_at s,
                    tk_sequence_count := ds_sequence_count s\<rparr>))
      | _ \<Rightarrow> None)"

definition task_restore :: "bool \<Rightarrow> durable_snapshot \<Rightarrow> task option" where
  "task_restore resources s = task_restore_typed resources s None 0 False"

end
