(* ===== verification/Reservation_Service.thy ===== *)
theory Reservation_Service
  imports Capability_Safety
begin

text \<open>
  The interface between the Governor and its clients (Tasks and the Queue): a service that
  hands out reservations and takes them back. The locale \<open>reservation_service\<close> states the
  laws a client relies on, whatever the admission policy, and derives how a client's ledger
  evolves; the interpretation discharges them for the Governor of this development.
\<close>

section \<open>The contract\<close>

locale reservation_service =
  fixes ok :: "'g \<Rightarrow> bool"
    and holding :: "'g \<Rightarrow> 'a set"
    and release :: "'a \<Rightarrow> 'g \<Rightarrow> 'g \<times> bool"
    and reserve :: "'q \<Rightarrow> 'g \<Rightarrow> 'g \<times> 'a option"
  assumes release_law: "ok g \<Longrightarrow> release a g = (h, b) \<Longrightarrow>
      ok h \<and> (b \<longleftrightarrow> a \<in> holding g) \<and> holding h = holding g - {a}"
    and reserve_law: "ok g \<Longrightarrow> reserve q g = (h, r) \<Longrightarrow>
      ok h \<and> (case r of None \<Rightarrow> holding h = holding g
        | Some a \<Rightarrow> a \<notin> holding g \<and> holding h = insert a (holding g))"
begin

text \<open>
  A ledger: what the service holds is what the others hold and what the client holds, and
  nothing is held twice.
\<close>

definition ledger :: "'a set \<Rightarrow> 'a set \<Rightarrow> 'g \<Rightarrow> bool" where
  "ledger others mine g \<longleftrightarrow> ok g \<and> holding g = others \<union> mine \<and> others \<inter> mine = {}"

lemma ledger_release:
  assumes "ledger others mine g" and "a \<in> mine" and "release a g = (h, b)"
  shows "b" and "ledger others (mine - {a}) h"
  using release_law [OF _ assms(3)] assms(1,2) by (auto simp: ledger_def)

lemma ledger_reserve:
  assumes "ledger others mine g" and "reserve q g = (h, r)"
  shows "ledger others (mine \<union> set_option r) h" and "\<And>a. r = Some a \<Longrightarrow> a \<notin> others \<union> mine"
  using reserve_law [OF _ assms(2)] assms(1) by (auto simp: ledger_def split: option.splits)

text \<open>What the other clients do to their own reservations keeps the client's.\<close>

lemma ledger_foreign_release:
  assumes "ledger others mine g" and "a \<in> others" and "release a g = (h, b)"
  shows "ledger (others - {a}) mine h"
  using release_law [OF _ assms(3)] assms(1,2) by (auto simp: ledger_def)

lemma ledger_foreign_reserve:
  assumes "ledger others mine g" and "reserve q g = (h, r)"
  shows "ledger (others \<union> set_option r) mine h"
  using reserve_law [OF _ assms(2)] assms(1) by (auto simp: ledger_def split: option.splits)

text \<open>Ownership passes between clients without the service noticing.\<close>

lemma ledger_transfer:
  "ledger others mine g \<Longrightarrow> a \<in> others \<Longrightarrow> ledger (others - {a}) (insert a mine) g"
  "ledger others mine g \<Longrightarrow> a \<in> mine \<Longrightarrow> ledger (insert a others) (mine - {a}) g"
  by (auto simp: ledger_def)

lemma ledger_cong:
  "ledger others mine g \<Longrightarrow> ok h \<Longrightarrow> holding h = holding g \<Longrightarrow> ledger others mine h"
  by (simp add: ledger_def)

end

section \<open>The Governor provides it\<close>

definition held :: "'a governor_scheme \<Rightarrow> nat set" where
  "held g = rv_address ` set (g_active g)"

definition heap_ok :: "'a governor_scheme \<Rightarrow> bool" where
  "heap_ok g \<longleftrightarrow> distinct (map rv_address (g_active g)) \<and> (\<forall>a \<in> held g. a < g_heap_next g)"

lemma heap_ok_of_inv: "gov_inv g \<Longrightarrow> heap_ok g"
  by (auto simp: gov_inv_def accounts_inv_def gov_heap_def heap_ok_def held_def)

lemma held_accounts:
  assumes "gov_accounts h = gov_accounts g"
  shows "held h = held g" and "heap_ok h = heap_ok g"
  using accounts_fields [OF assms] by (simp_all add: held_def heap_ok_def)

lemma governor_release_law:
  assumes "heap_ok g" and "governor_release a g = (h, b)"
  shows "heap_ok h \<and> (b \<longleftrightarrow> a \<in> held g) \<and> held h = held g - {a}"
proof (cases "find_reservation (g_active g) a")
  case None
  then show ?thesis
    using assms find_reservation_None [of "g_active g" a] by (auto simp: governor_release_def held_def)
next
  case (Some r)
  have d: "distinct (map rv_address (g_active g))" using assms(1) by (simp add: heap_ok_def)
  have "g_active h = filter (\<lambda>r. rv_address r \<noteq> a) (g_active g)" "g_heap_next h = g_heap_next g" b
    using assms(2) Some unlink_reservation_filter [OF d] by (auto simp: governor_release_def)
  moreover have "distinct (map rv_address (filter P (g_active g)))" for P
    using d by (rule distinct_map_filter)
  ultimately show ?thesis
    using assms(1) find_reservation_Some [OF Some] by (auto simp: heap_ok_def held_def)
qed

lemma activate_held:
  assumes "heap_ok g" and "activate_reservation_locked env e d g = Some (h, a)"
  shows "heap_ok h" and "a \<notin> held g" and "held h = insert a (held g)"
  by (rule activateE [OF assms(2)], use assms(1) in \<open>force simp: heap_ok_def held_def\<close>)+

lemma evaluate_accounts:
  assumes "evaluate_locked env s e upd floors g = Some (h, d)"
  shows "gov_accounts h = gov_accounts g"
  using assms by (auto simp: evaluate_locked_def Let_def split: if_splits option.splits)

lemma lookup_some:
  assumes "kind \<noteq> []" and "capability_feedback_locked kind version b True g = (h, r)"
  shows "\<exists>i. r = Some i" and "gov_accounts h = gov_accounts g"
  using assms by (auto simp: capability_feedback_locked_def Let_def gov_accounts_def
    split: if_splits option.splits prod.splits dest!: sym [of "Some _"])

lemma try_capability_accounts:
  assumes "kind \<noteq> []"
  shows "case try_capability_locked env s kind version c i upd floors g of
      Inl h \<Rightarrow> gov_accounts h = gov_accounts g | Inr (h, sel) \<Rightarrow> gov_accounts h = gov_accounts g"
proof -
  obtain g1 r where look: "capability_feedback_locked kind version (tc_backend c) True g = (g1, r)"
    by fastforce
  obtain j where r: "r = Some j" using lookup_some(1) [OF assms look] by blast
  show ?thesis
    using lookup_some(2) [OF assms look] unfolding try_capability_locked_def look r
    by (simp add: Let_def split: option.split prod.split split del: if_split)
      (simp add: evaluate_accounts [THEN trans] split del: if_split)?
qed

lemma grant_capability_held:
  assumes "kind \<noteq> []" and "heap_ok g"
  shows "case grant_capability env kind version n i c g of
      Inl h \<Rightarrow> held h = held g \<and> heap_ok h
    | Inr (h, s, a) \<Rightarrow> a \<notin> held g \<and> held h = insert a (held g) \<and> heap_ok h
        \<and> cs_decision s = cs_decision c"
proof -
  define cand where "cand = (if tc_backend (cs_capability c) = BACKEND_CPU \<and> n > 1 \<and> i \<noteq> 0
      then selection_reason ''cpu-fallback-gpu-non-admitted'' c else c)"
  have dec: "cs_decision cand = cs_decision c" by (simp add: cand_def selection_reason_def)
  note unfold = grant_capability_def [of env kind version n i c g, unfolded Let_def, folded cand_def]
  show ?thesis
  proof (cases "activate_reservation_locked env (cs_reservation_estimate cand) (cs_decision cand) g")
    case None
    then show ?thesis using assms(2) by (simp add: unfold)
  next
    case (Some p)
    obtain g1 a where p: "p = (g1, a)" by fastforce
    note act = activate_held [OF assms(2) Some [unfolded p]]
    obtain g2 j where look: "capability_feedback_locked kind version (tc_backend (cs_capability cand)) True g1
        = (g2, Some j)" and acc: "gov_accounts g2 = gov_accounts g1"
      using lookup_some [OF assms(1)] by (metis surjective_pairing)
    show ?thesis
      using act held_accounts [OF acc] dec unfolding unfold Some p
      by (auto simp: look held_accounts [OF advance_serial_keeps(2)]
        held_accounts [OF update_feedback_keeps(2)])
  qed
qed

lemma search_capabilities_held:
  assumes "kind \<noteq> []" and "heap_ok g"
  shows "case search_capabilities env s kind version n floors todo sr g of
      SEARCH_FAILED h \<Rightarrow> held h = held g \<and> heap_ok h
    | SEARCH_GRANTED h sel a \<Rightarrow> a \<notin> held g \<and> held h = insert a (held g) \<and> heap_ok h
        \<and> decision_grants (cs_decision sel)
    | SEARCH_EXHAUSTED h sr' \<Rightarrow> held h = held g \<and> heap_ok h"
  using assms(2)
proof (induction todo arbitrary: sr g)
  case Nil
  then show ?case by simp
next
  case (Cons p todo)
  obtain i c where p: "p = (i, c)" by fastforce
  show ?case
  proof (cases "runtime_capability_available_locked g c")
    case False
    then show ?thesis using Cons.IH [OF Cons.prems] by (simp add: p)
  next
    case True
    note tried = try_capability_accounts [OF assms(1), where env = env and s = s and version = version
        and c = c and i = i and upd = "\<not> sr_pressure_updated sr" and floors = floors and g = g]
    show ?thesis
    proof (cases "try_capability_locked env s kind version c i (\<not> sr_pressure_updated sr) floors g")
      case (Inl h)
      then have "gov_accounts h = gov_accounts g" using tried by simp
      from held_accounts [OF this] show ?thesis using True Inl Cons.prems by (simp add: p)
    next
      case (Inr q)
      obtain h sel where q: "q = (h, sel)" by fastforce
      have "gov_accounts h = gov_accounts g" using tried Inr q by simp
      from held_accounts [OF this] have acc: "held h = held g" "heap_ok h" using Cons.prems by simp_all
      show ?thesis
      proof (cases "decision_grants (cs_decision sel)")
        case True
        then show ?thesis
          using grant_capability_held [OF assms(1) acc(2), where env = env and version = version
            and n = n and i = i and c = sel] acc(1) Inr q
            \<open>runtime_capability_available_locked g c\<close>
          by (auto simp: p split: sum.splits)
      next
        case False
        then show ?thesis
          using Cons.IH [OF acc(2), unfolded acc(1)] Inr q True by (simp add: p)
      qed
    qed
  qed
qed

text \<open>The request a Task makes, and the reservation it gets.\<close>

type_synonym capability_request =
  "environment \<times> host_telemetry \<times> string \<times> u32 \<times> capability_envelope"

definition serve_request ::
    "capability_request \<Rightarrow> 'a feedback_governor_scheme \<Rightarrow> 'a feedback_governor_scheme \<times> nat option" where
  "serve_request q g =
     (case q of (env, telemetry, kind, version, envelope) \<Rightarrow>
        let (h, r) = reserve_capability_available env telemetry kind version envelope g
        in (h, cr_reservation r))"

lemma reserve_available_held:
  assumes "heap_ok g"
    and "reserve_capability_available env telemetry kind version envelope g = (h, r)"
  shows "heap_ok h" and "case cr_reservation r of None \<Rightarrow> held h = held g
    | Some a \<Rightarrow> a \<notin> held g \<and> held h = insert a (held g)"
    and "\<And>a. cr_reservation r = Some a \<Longrightarrow> cr_ok r
      \<and> (\<exists>s. cr_selection r = Some s \<and> decision_grants (cs_decision s))"
    and "cr_ok r \<Longrightarrow> cr_selection r \<noteq> None"
proof -
  let ?kind = "if kind \<noteq> [] then kind else ''task.untyped''"
  have k: "?kind \<noteq> []" by simp
  define g1 where "g1 = g\<lparr>cg_host_telemetry := telemetry\<rparr>"
  have acc: "gov_accounts g1 = gov_accounts g" by (simp add: g1_def gov_accounts_def)
  have ok1: "heap_ok g1" and held1: "held g1 = held g" using held_accounts [OF acc] assms(1) by simp_all
  have res: "heap_ok h \<and> (case cr_reservation r of None \<Rightarrow> held h = held g1
      | Some a \<Rightarrow> a \<notin> held g1 \<and> held h = insert a (held g1) \<and> cr_ok r
          \<and> (\<exists>s. cr_selection r = Some s \<and> decision_grants (cs_decision s)))
      \<and> (cr_ok r \<longrightarrow> cr_selection r \<noteq> None)"
    if "reserve_capability env snapshot kind version envelope g1 = (h, r)" for snapshot
    using that search_capabilities_held [OF k ok1, where env = env and s = snapshot and version = version
        and n = "length envelope" and floors = "internal_memory_floors_locked g1"
        and todo = "search_order envelope"
        and sr = "\<lparr>sr_pressure_updated = False, sr_saw_wait = False, sr_evaluated = False, sr_last = zero_selection\<rparr>"]
      ok1
    by (auto simp: reserve_capability_def Let_def split: if_splits search_result.splits)
  have "heap_ok h \<and> (case cr_reservation r of None \<Rightarrow> held h = held g
      | Some a \<Rightarrow> a \<notin> held g \<and> held h = insert a (held g) \<and> cr_ok r
          \<and> (\<exists>s. cr_selection r = Some s \<and> decision_grants (cs_decision s)))
      \<and> (cr_ok r \<longrightarrow> cr_selection r \<noteq> None)"
    using assms res held1 ok1
    by (auto simp: reserve_capability_available_def Let_def g1_def [symmetric] split: if_splits option.splits)
  then show "heap_ok h" and "case cr_reservation r of None \<Rightarrow> held h = held g
    | Some a \<Rightarrow> a \<notin> held g \<and> held h = insert a (held g)"
    and "\<And>a. cr_reservation r = Some a \<Longrightarrow> cr_ok r
      \<and> (\<exists>s. cr_selection r = Some s \<and> decision_grants (cs_decision s))"
    and "cr_ok r \<Longrightarrow> cr_selection r \<noteq> None"
    by (auto split: option.splits)
qed

interpretation gov: reservation_service
  "heap_ok :: feedback_governor \<Rightarrow> bool" held governor_release serve_request
proof
  fix g h :: feedback_governor and a b
  assume "heap_ok g" "governor_release a g = (h, b)"
  then show "heap_ok h \<and> (b \<longleftrightarrow> a \<in> held g) \<and> held h = held g - {a}"
    by (rule governor_release_law)
next
  fix g h :: feedback_governor and q r
  assume ok: "heap_ok g" and run: "serve_request q g = (h, r)"
  obtain env telemetry kind version envelope where q: "q = (env, telemetry, kind, version, envelope)"
    by (metis prod_cases5)
  obtain res where "reserve_capability_available env telemetry kind version envelope g = (h, res)"
    "r = cr_reservation res"
    using run by (auto simp: serve_request_def q split: prod.splits)
  with reserve_available_held [OF ok this(1)]
  show "heap_ok h \<and> (case r of None \<Rightarrow> held h = held g
        | Some a \<Rightarrow> a \<notin> held g \<and> held h = insert a (held g))"
    by simp
qed

end
