(* ===== verification/Task_Worker.thy ===== *)
theory Task_Worker
  imports Task_State Reservation_Service
begin

text \<open>
  The execution of a Task (\<open>task_start\<close>, \<open>task_checkpoint\<close>, \<open>task_sequence_break\<close> and the
  recorders of \<open>src/task.c\<close>) as a machine: one step per critical section of the Task mutex
  or call into the Governor, with the program counter of the thread that runs
  \<open>task_start\<close>. Between two steps any other thread may act. A wait on the condition variable
  is a step that finds the loop condition still true and stays.
\<close>

section \<open>Admission for a Task\<close>

text \<open>Attaching a created reservation, the second critical section of \<open>reserve_available\<close>.\<close>

definition attach_reservation :: "capability_selection \<Rightarrow> nat \<Rightarrow> task \<Rightarrow> task \<times> bool" where
  "attach_reservation selection a t =
     (if tk_pending_reservation t \<noteq> None then (t, False)
      else (t\<lparr>tk_pending_selection := selection, tk_pending_reservation := Some a\<rparr>, True))"

record task_admission =
  ta_ok :: bool
  ta_decision :: resource_decision
  ta_reservation :: "nat option"

text \<open>The whole of \<open>lardon3d_task_internal_reserve_available\<close>, for a caller that is not preempted.\<close>

definition task_reserve_available ::
    "environment \<Rightarrow> host_telemetry \<Rightarrow> task \<Rightarrow> feedback_governor
      \<Rightarrow> task \<times> feedback_governor \<times> task_admission" where
  "task_reserve_available env telemetry t g =
     (case reserve_capability_available env telemetry (feedback_kind t) (tk_kind_version t)
             (tk_envelope t) g of
        (g, r) \<Rightarrow>
          (case cr_selection r of
            Some selection \<Rightarrow>
              if \<not> cr_ok r
              then (t, g, \<lparr>ta_ok = False, ta_decision = zero_decision, ta_reservation = None\<rparr>)
              else (case cr_reservation r of
                None \<Rightarrow> (t, g, \<lparr>ta_ok = True, ta_decision = cs_decision selection, ta_reservation = None\<rparr>)
              | Some a \<Rightarrow>
                  (case attach_reservation selection a t of
                    (t, True) \<Rightarrow> (t, g, \<lparr>ta_ok = True, ta_decision = cs_decision selection,
                                          ta_reservation = Some a\<rparr>)
                  | (t, False) \<Rightarrow> (t, fst (governor_release a g),
                      \<lparr>ta_ok = False, ta_decision = cs_decision selection, ta_reservation = None\<rparr>)))
          | None \<Rightarrow> (t, g, \<lparr>ta_ok = False, ta_decision = zero_decision, ta_reservation = None\<rparr>)))"

section \<open>Installing a contract\<close>

definition contract_of :: "reservation_info \<Rightarrow> execution_contract" where
  "contract_of i =
     \<lparr>ec_batch_size = ri_batch_size i, ec_memory_bytes = ri_memory_bytes i,
       ec_gpu_memory_bytes = ri_gpu_memory_bytes i, ec_cpu_threads = ri_cpu_threads i,
       ec_gpu_slots = ri_gpu_slots i, ec_io_slots = ri_io_slots i\<rparr>"

definition direct_selection :: "reservation_info \<Rightarrow> pressure \<Rightarrow> task \<Rightarrow> capability_selection" where
  "direct_selection i pressure t =
     (let c = tk_envelope t ! 0 in
      \<lparr>cs_capability_index = 0, cs_capability = c, cs_reservation_estimate = tc_estimate c,
        cs_decision = \<lparr>rd_kind = RESOURCE_START, rd_batch_size = ri_batch_size i,
          rd_cpu_threads = ri_cpu_threads i, rd_gpu_slots = ri_gpu_slots i,
          rd_io_slots = ri_io_slots i, rd_reason = []\<rparr>,
        cs_inflight_limit = (if tc_inflight_adaptive c then tc_minimum_inflight_limit c
                             else tc_inflight_limit c),
        cs_pressure = pressure, cs_reason = []\<rparr>)"

definition install_start ::
    "timespec \<Rightarrow> nat \<Rightarrow> reservation_info \<Rightarrow> pressure \<Rightarrow> task \<Rightarrow> task" where
  "install_start now a i pressure t =
     (let t = t\<lparr>tk_executing := True, tk_governor_set := True, tk_current_reservation := Some a\<rparr>;
          t = (if tk_pending_reservation t = Some a
               then t\<lparr>tk_selected_capability := tk_pending_selection t,
                      tk_has_selected_capability := True, tk_pending_reservation := None\<rparr>
               else t\<lparr>tk_selected_capability := direct_selection i pressure t,
                      tk_has_selected_capability := True\<rparr>)
      in t\<lparr>tk_contract := contract_of i, tk_has_contract := True, tk_started_at := now,
           tk_finished_at := \<lparr>tv_sec = 0, tv_nsec = 0\<rparr>\<rparr>)"

section \<open>The program counter\<close>

datatype worker_pc =
  PC_IDLE
| PC_START_PAUSED
| PC_CALLBACK
| PC_CHECKPOINT
| PC_BREAK_PAUSED
| PC_BREAK_CANCELLED "nat option"
| PC_BREAK_RELEASE "nat option"
| PC_BREAK_LOOP
| PC_BREAK_ADMIT
| PC_BREAK_RESERVED u64 capability_result
| PC_BREAK_UNWANTED nat
| PC_BREAK_DECIDED u64 resource_decision "nat option"
| PC_BREAK_WAIT "nat option"
| PC_BREAK_FAIL "nat option" string
| PC_BREAK_MISMATCH nat
| PC_RETURN bool
| PC_EPILOGUE "nat option"
| PC_NOTIFY
| PC_NOTIFYING
| PC_DONE

text \<open>
  The world of one Task: the shared Governor, the Task, its worker, the other threads that
  finished the Task and must call \<open>notify_finished\<close>, and the Task as each invocation of the
  finished callback saw it.
\<close>

record world =
  w_task :: task
  w_governor :: feedback_governor
  w_pc :: worker_pc
  w_notifiers :: nat
  w_calls :: "task list"

text \<open>What the callback does next, and what the system answers to a step.\<close>

datatype callback_action = CALL_CHECKPOINT | CALL_SEQUENCE_BREAK | CALL_RETURN bool

record step_input =
  si_now :: timespec
  si_env :: environment
  si_telemetry :: host_telemetry
  si_action :: callback_action

section \<open>The critical sections\<close>

definition paused_waiting :: "task \<Rightarrow> bool" where
  "paused_waiting t \<longleftrightarrow> tk_pause_requested t \<and> \<not> tk_cancel_requested t"

definition mark_paused :: "task \<Rightarrow> task" where
  "mark_paused t = set_message paused_text (t\<lparr>tk_state := PAUSED\<rparr>)"

definition running_text :: string where
  "running_text = ''T'' @ [CHR 0xC3, CHR 0xA2] @ ''che en cours.''"

text \<open>\<open>task_start\<close> once the contract is installed, and after each wait of its pause loop.\<close>

definition start_section :: "timespec \<Rightarrow> task \<Rightarrow> task \<times> worker_pc" where
  "start_section now t =
     (if tk_cancel_requested t
      then (finish_locked now CANCELLED (Some cancelled_text) (t\<lparr>tk_current_reservation := None\<rparr>),
            PC_EPILOGUE (tk_current_reservation t))
      else if paused_waiting t then (mark_paused t, PC_START_PAUSED)
      else (set_message running_text (t\<lparr>tk_state := RUNNING\<rparr>), PC_CALLBACK))"

definition checkpoint_section :: "task \<Rightarrow> task \<times> worker_pc" where
  "checkpoint_section t =
     (if paused_waiting t then (mark_paused t, PC_CHECKPOINT)
      else (if \<not> tk_cancel_requested t \<and> tk_executing t then t\<lparr>tk_state := RUNNING\<rparr> else t,
            PC_CALLBACK))"

definition break_cancelled :: "timespec \<Rightarrow> task \<Rightarrow> task \<times> worker_pc" where
  "break_cancelled now t =
     (finish_locked now CANCELLED (Some cancelled_text) (t\<lparr>tk_current_reservation := None\<rparr>),
      PC_BREAK_CANCELLED (tk_current_reservation t))"

definition break_first_section :: "timespec \<Rightarrow> task \<Rightarrow> task \<times> worker_pc" where
  "break_first_section now t =
     (if paused_waiting t then (mark_paused t, PC_BREAK_PAUSED)
      else if tk_cancel_requested t then break_cancelled now t
      else (t\<lparr>tk_state := RUNNING, tk_current_reservation := None\<rparr>,
            PC_BREAK_RELEASE (tk_current_reservation t)))"

definition break_entry :: "timespec \<Rightarrow> task \<Rightarrow> task \<times> worker_pc" where
  "break_entry now t =
     (if \<not> tk_executing t \<or> is_terminal (tk_state t) then (t, PC_CALLBACK)
      else break_first_section now t)"

definition break_loop_section :: "timespec \<Rightarrow> task \<Rightarrow> task \<times> worker_pc" where
  "break_loop_section now t =
     (if paused_waiting t then (mark_paused t, PC_BREAK_LOOP)
      else if tk_cancel_requested t then break_cancelled now t
      else (t\<lparr>tk_state := RUNNING\<rparr>, PC_BREAK_ADMIT))"

definition break_fail_section :: "timespec \<Rightarrow> string \<Rightarrow> task \<Rightarrow> task" where
  "break_fail_section now message t =
     finish_locked now FAILED (Some message) (t\<lparr>tk_current_reservation := None\<rparr>)"

definition incoherent_text :: string where
  "incoherent_text = ''S'' @ e_acute @ ''lection de capacit'' @ e_acute @ '' incoh''
     @ e_acute @ ''rente.''"

text \<open>Associating the admitted reservation with the Task.\<close>

definition break_install_section ::
    "timespec \<Rightarrow> nat \<Rightarrow> reservation_info \<Rightarrow> task \<Rightarrow> task \<times> worker_pc" where
  "break_install_section now a i t =
     (if tk_pending_reservation t \<noteq> Some a
      then (finish_locked now FAILED (Some incoherent_text)
              (t\<lparr>tk_current_reservation := None, tk_pending_reservation := None,
                 tk_pending_selection := zero_selection, tk_selected_capability := zero_selection,
                 tk_has_selected_capability := False, tk_contract := zero_contract,
                 tk_has_contract := False\<rparr>),
            PC_BREAK_MISMATCH a)
      else (t\<lparr>tk_current_reservation := Some a, tk_selected_capability := tk_pending_selection t,
              tk_has_selected_capability := True, tk_pending_reservation := None,
              tk_contract := contract_of i, tk_has_contract := True,
              tk_sequence_count := tk_sequence_count t + 1\<rparr>, PC_CALLBACK))"

definition return_section :: "timespec \<Rightarrow> bool \<Rightarrow> task \<Rightarrow> task \<times> worker_pc" where
  "return_section now succeeded t =
     (let finished =
        (if tk_cancel_requested t then finish_locked now CANCELLED (Some cancelled_text) t
         else if tk_state t = FAILED \<or> \<not> succeeded
         then finish_locked now FAILED
                (if tk_message t \<noteq> [] then None
                 else Some ([CHR 0xC3, CHR 0x89] @ ''chec de la t'' @ [CHR 0xC3, CHR 0xA2]
                            @ ''che.'')) t
         else finish_locked now COMPLETED
                (Some (''T'' @ [CHR 0xC3, CHR 0xA2] @ ''che termin'' @ e_acute @ ''e.'')) t)
      in (finished\<lparr>tk_current_reservation := None\<rparr>, PC_EPILOGUE (tk_current_reservation t)))"

section \<open>Steps\<close>

definition release_opt :: "nat option \<Rightarrow> feedback_governor \<Rightarrow> feedback_governor" where
  "release_opt r g = (case r of None \<Rightarrow> g | Some a \<Rightarrow> fst (governor_release a g))"

definition no_reservation_text :: string where
  "no_reservation_text = ''Impossible de r'' @ e_acute @ ''server les ressources de la s''
     @ e_acute @ ''quence.''"

definition invalid_reservation_text :: string where
  "invalid_reservation_text = ''R'' @ e_acute @ ''servation de s'' @ e_acute @ ''quence invalide.''"

definition unreservable_text :: string where
  "unreservable_text = ''Ressources impossibles '' @ [CHR 0xC3, CHR 0xA0] @ '' r'' @ e_acute @ ''server.''"

text \<open>\<open>task_start\<close> up to its first unlock; \<^const>\<open>False\<close> is a refused start.\<close>

definition task_start :: "timespec \<Rightarrow> nat \<Rightarrow> world \<Rightarrow> world \<times> bool" where
  "task_start now a w =
     (case reservation_get_active a (w_governor w) of
        None \<Rightarrow> (w, False)
      | Some i \<Rightarrow>
          let t = w_task w in
          if tk_executing t \<or> is_terminal (tk_state t)
             \<or> tk_pending_reservation t \<noteq> None \<and> tk_pending_reservation t \<noteq> Some a
          then (w, False)
          else
            let (t, pc) = start_section now (install_start now a i (g_pressure (w_governor w)) t)
            in (w\<lparr>w_task := t, w_pc := pc\<rparr>, True))"

definition callback_step :: "step_input \<Rightarrow> task \<Rightarrow> task \<times> worker_pc" where
  "callback_step input t =
     (case si_action input of
        CALL_CHECKPOINT \<Rightarrow> checkpoint_section t
      | CALL_SEQUENCE_BREAK \<Rightarrow> break_entry (si_now input) t
      | CALL_RETURN succeeded \<Rightarrow> (t, PC_RETURN succeeded))"

text \<open>After \<open>reserve_capability_available\<close> returned to \<open>reserve_available\<close>.\<close>

definition reserved_step :: "u64 \<Rightarrow> capability_result \<Rightarrow> task \<Rightarrow> task \<times> worker_pc" where
  "reserved_step generation r t =
     (case cr_selection r of
        Some selection \<Rightarrow>
          if \<not> cr_ok r then (t, PC_BREAK_FAIL None no_reservation_text)
          else (case cr_reservation r of
            None \<Rightarrow> (t, PC_BREAK_DECIDED generation (cs_decision selection) None)
          | Some a \<Rightarrow>
              (case attach_reservation selection a t of
                (t, True) \<Rightarrow> (t, PC_BREAK_DECIDED generation (cs_decision selection) (Some a))
              | (t, False) \<Rightarrow> (t, PC_BREAK_UNWANTED a)))
      | None \<Rightarrow> (t, PC_BREAK_FAIL None no_reservation_text))"

definition decided_step ::
    "timespec \<Rightarrow> resource_decision \<Rightarrow> nat option \<Rightarrow> feedback_governor \<Rightarrow> task \<Rightarrow> task \<times> worker_pc" where
  "decided_step now d reserved g t =
     (if decision_grants d
      then (case reserved of
        None \<Rightarrow> (break_fail_section now invalid_reservation_text t, PC_CALLBACK)
      | Some a \<Rightarrow>
          (case reservation_get_active a g of
            None \<Rightarrow> (t, PC_BREAK_FAIL (Some a) invalid_reservation_text)
          | Some i \<Rightarrow> break_install_section now a i t))
      else if rd_kind d = RESOURCE_REJECT
      then (t, PC_BREAK_FAIL reserved (if rd_reason d \<noteq> [] then rd_reason d else unreservable_text))
      else (t, PC_BREAK_WAIT reserved))"

definition worker_step :: "step_input \<Rightarrow> world \<Rightarrow> world" where
  "worker_step input w =
     (let t = w_task w; g = w_governor w; now = si_now input;
          go = (\<lambda>(t, pc). w\<lparr>w_task := t, w_pc := pc\<rparr>)
      in case w_pc w of
        PC_IDLE \<Rightarrow> w
      | PC_START_PAUSED \<Rightarrow> go (start_section now t)
      | PC_CALLBACK \<Rightarrow> go (callback_step input t)
      | PC_CHECKPOINT \<Rightarrow> go (checkpoint_section t)
      | PC_BREAK_PAUSED \<Rightarrow> go (break_first_section now t)
      | PC_BREAK_CANCELLED r \<Rightarrow> w\<lparr>w_governor := release_opt r g, w_pc := PC_CALLBACK\<rparr>
      | PC_BREAK_RELEASE r \<Rightarrow> w\<lparr>w_governor := release_opt r g, w_pc := PC_BREAK_LOOP\<rparr>
      | PC_BREAK_LOOP \<Rightarrow> go (break_loop_section now t)
      | PC_BREAK_ADMIT \<Rightarrow>
          (case reserve_capability_available (si_env input) (si_telemetry input) (feedback_kind t)
                  (tk_kind_version t) (tk_envelope t) g of
            (h, r) \<Rightarrow> w\<lparr>w_governor := h, w_pc := PC_BREAK_RESERVED (g_generation g) r\<rparr>)
      | PC_BREAK_RESERVED generation r \<Rightarrow> go (reserved_step generation r t)
      | PC_BREAK_UNWANTED a \<Rightarrow>
          w\<lparr>w_governor := release_opt (Some a) g, w_pc := PC_BREAK_FAIL None no_reservation_text\<rparr>
      | PC_BREAK_DECIDED generation d reserved \<Rightarrow> go (decided_step now d reserved g t)
      | PC_BREAK_WAIT reserved \<Rightarrow> w\<lparr>w_governor := release_opt reserved g, w_pc := PC_BREAK_LOOP\<rparr>
      | PC_BREAK_FAIL (Some a) message \<Rightarrow>
          w\<lparr>w_governor := release_opt (Some a) g, w_pc := PC_BREAK_FAIL None message\<rparr>
      | PC_BREAK_FAIL None message \<Rightarrow>
          w\<lparr>w_task := break_fail_section now message t, w_pc := PC_CALLBACK\<rparr>
      | PC_BREAK_MISMATCH a \<Rightarrow> w\<lparr>w_governor := release_opt (Some a) g, w_pc := PC_CALLBACK\<rparr>
      | PC_RETURN succeeded \<Rightarrow> go (return_section now succeeded t)
      | PC_EPILOGUE r \<Rightarrow> w\<lparr>w_governor := release_opt r g, w_pc := PC_NOTIFY\<rparr>
      | PC_NOTIFY \<Rightarrow>
          (case notify_begin t of
            (t, True) \<Rightarrow> w\<lparr>w_task := t, w_pc := PC_NOTIFYING, w_calls := w_calls w @ [t]\<rparr>
          | (t, False) \<Rightarrow> w\<lparr>w_task := t, w_pc := PC_DONE\<rparr>)
      | PC_NOTIFYING \<Rightarrow> w\<lparr>w_task := notify_end t, w_pc := PC_DONE\<rparr>
      | PC_DONE \<Rightarrow> w)"

section \<open>The other threads\<close>

datatype task_request =
  REQUEST_CANCEL | REQUEST_PAUSE | REQUEST_RESUME | REQUEST_REJECT "string option"
| REQUEST_PROGRESS u32 "string option" | REQUEST_DURABLE_PROGRESS u64 u64 "string option"
| REQUEST_FAIL "string option" | REQUEST_ENVELOPE capability_envelope
| REQUEST_ENABLE_CAPABILITIES | REQUEST_FINISHED_CALLBACK | REQUEST_ID u64

text \<open>The Task after the request, and whether its thread goes on to \<open>notify_finished\<close>.\<close>

fun task_request_section :: "timespec \<Rightarrow> task_request \<Rightarrow> task \<Rightarrow> task \<times> bool" where
  "task_request_section now REQUEST_CANCEL t = request_cancel now t"
| "task_request_section now REQUEST_PAUSE t = (fst (task_pause t), False)"
| "task_request_section now REQUEST_RESUME t = (fst (task_resume t), False)"
| "task_request_section now (REQUEST_REJECT m) t = task_reject now m t"
| "task_request_section now (REQUEST_PROGRESS p m) t = (fst (set_progress p m t), False)"
| "task_request_section now (REQUEST_DURABLE_PROGRESS c n m) t =
     (fst (set_durable_progress c n m t), False)"
| "task_request_section now (REQUEST_FAIL m) t = (fst (task_fail m t), False)"
| "task_request_section now (REQUEST_ENVELOPE e) t = (fst (set_capability_envelope e t), False)"
| "task_request_section now REQUEST_ENABLE_CAPABILITIES t = (enable_known_capabilities t, False)"
| "task_request_section now REQUEST_FINISHED_CALLBACK t = (fst (set_finished_callback t), False)"
| "task_request_section now (REQUEST_ID i) t = (fst (assign_id i t), False)"

definition request_step :: "timespec \<Rightarrow> task_request \<Rightarrow> world \<Rightarrow> world" where
  "request_step now q w =
     (case task_request_section now q (w_task w) of
        (t, notify) \<Rightarrow> w\<lparr>w_task := t, w_notifiers := w_notifiers w + (if notify then 1 else 0)\<rparr>)"

definition notifier_step :: "world \<Rightarrow> world" where
  "notifier_step w =
     (if w_notifiers w = 0 then w
      else case notify_begin (w_task w) of
        (t, called) \<Rightarrow> w\<lparr>w_task := t, w_notifiers := w_notifiers w - 1,
             w_calls := (if called then w_calls w @ [t] else w_calls w)\<rparr>)"

section \<open>Recording from the callback\<close>

definition task_record_sequence_metrics ::
    "host_telemetry \<Rightarrow> u64 \<Rightarrow> size_t \<Rightarrow> backend \<Rightarrow> string \<Rightarrow> execution_metrics option \<Rightarrow> task
      \<Rightarrow> feedback_governor \<Rightarrow> feedback_governor \<times> bool" where
  "task_record_sequence_metrics telemetry wall items actual reason metrics t g =
     (if wall = 0 then (g, False)
      else if tk_executing t \<and> tk_governor_set t \<and> tk_has_selected_capability t
      then record_sequence_execution_metrics telemetry (feedback_kind t) (tk_kind_version t)
             (tk_selected_capability t) wall items actual reason metrics g
      else (g, False))"

definition task_record_sequence ::
    "host_telemetry \<Rightarrow> u64 \<Rightarrow> size_t \<Rightarrow> task \<Rightarrow> feedback_governor \<Rightarrow> feedback_governor \<times> bool" where
  "task_record_sequence telemetry wall items t g =
     task_record_sequence_metrics telemetry wall items
       (if tk_has_selected_capability t then tc_backend (cs_capability (tk_selected_capability t))
        else BACKEND_FIXED) ''selected-backend-completed'' None t g"

definition task_record_fallback_item ::
    "u64 \<Rightarrow> fallback_item_cause \<Rightarrow> task \<Rightarrow> feedback_governor \<Rightarrow> task \<times> feedback_governor \<times> bool" where
  "task_record_fallback_item pair cause t g =
     (if pair = 0 then (t, g, False)
      else if \<not> fallback_item_available t \<or> pair \<le> tk_fallback_item_high_water t
      then (t, g, fallback_item_available t \<and> pair \<le> tk_fallback_item_high_water t)
      else case record_fallback_items (feedback_kind t) (tk_kind_version t)
                  (tk_selected_capability t) cause 1 g of
        (g, False) \<Rightarrow> (t, g, False)
      | (g, True) \<Rightarrow> (count_fallback_item pair cause t, g, True))"

end
