(* ===== verification/Task_Safety.thy ===== *)
theory Task_Safety
  imports Task_Worker
begin

text \<open>
  Reachable worlds of one Task under arbitrary interleavings of its worker, other threads and
  other clients of the Governor, and the invariant of these worlds: who holds which
  reservation, what each program point knows of the Task, and the notification protocol.
\<close>

section \<open>Fields the small operations keep\<close>

lemma set_message_fields [simp]:
  "tk_id (set_message m t) = tk_id t" "tk_progress (set_message m t) = tk_progress t"
  "tk_durable_progress_known (set_message m t) = tk_durable_progress_known t"
  "tk_durable_completed (set_message m t) = tk_durable_completed t"
  "tk_durable_total (set_message m t) = tk_durable_total t"
  "tk_state (set_message m t) = tk_state t" "tk_name (set_message m t) = tk_name t"
  "tk_finished_at (set_message m t) = tk_finished_at t"
  "tk_finished_callback (set_message m t) = tk_finished_callback t"
  "tk_finished_notified (set_message m t) = tk_finished_notified t"
  "tk_finished_callback_running (set_message m t) = tk_finished_callback_running t"
  "tk_kind (set_message m t) = tk_kind t" "tk_kind_version (set_message m t) = tk_kind_version t"
  "tk_envelope (set_message m t) = tk_envelope t" "tk_estimate (set_message m t) = tk_estimate t"
  "tk_pending_reservation (set_message m t) = tk_pending_reservation t"
  "tk_pause_requested (set_message m t) = tk_pause_requested t"
  "tk_cancel_requested (set_message m t) = tk_cancel_requested t"
  "tk_executing (set_message m t) = tk_executing t"
  "tk_current_reservation (set_message m t) = tk_current_reservation t"
  "tk_sequence_count (set_message m t) = tk_sequence_count t"
  "tk_message (set_message m t) = copy_text TASK_MESSAGE_CAPACITY m"
  by (simp_all add: set_message_def)

lemma finish_locked_fields [simp]:
  "tk_id (finish_locked now s m t) = tk_id t" "tk_name (finish_locked now s m t) = tk_name t"
  "tk_progress (finish_locked now s m t) = (if s = COMPLETED then 100 else tk_progress t)"
  "tk_durable_progress_known (finish_locked now s m t) = tk_durable_progress_known t"
  "tk_durable_completed (finish_locked now s m t) = tk_durable_completed t"
  "tk_durable_total (finish_locked now s m t) = tk_durable_total t"
  "tk_state (finish_locked now s m t) = s" "tk_finished_at (finish_locked now s m t) = now"
  "tk_finished_callback (finish_locked now s m t) = tk_finished_callback t"
  "tk_finished_notified (finish_locked now s m t) = tk_finished_notified t"
  "tk_finished_callback_running (finish_locked now s m t) = tk_finished_callback_running t"
  "tk_kind (finish_locked now s m t) = tk_kind t"
  "tk_kind_version (finish_locked now s m t) = tk_kind_version t"
  "tk_envelope (finish_locked now s m t) = tk_envelope t"
  "tk_estimate (finish_locked now s m t) = tk_estimate t"
  "tk_pending_reservation (finish_locked now s m t) = tk_pending_reservation t"
  "tk_pause_requested (finish_locked now s m t) = tk_pause_requested t"
  "tk_cancel_requested (finish_locked now s m t) = tk_cancel_requested t"
  "tk_executing (finish_locked now s m t) = False"
  "tk_current_reservation (finish_locked now s m t) = tk_current_reservation t"
  "tk_sequence_count (finish_locked now s m t) = tk_sequence_count t"
  by (simp_all add: finish_locked_def Let_def split: option.split)

lemma terminal_simps [simp]:
  "is_terminal CANCELLED" "is_terminal FAILED" "is_terminal COMPLETED"
  "\<not> is_terminal PENDING" "\<not> is_terminal RUNNING" "\<not> is_terminal PAUSED"
  by (simp_all add: is_terminal_def)

section \<open>What a Task holds\<close>

fun pc_reservation :: "worker_pc \<Rightarrow> nat option" where
  "pc_reservation (PC_BREAK_CANCELLED r) = r"
| "pc_reservation (PC_BREAK_RELEASE r) = r"
| "pc_reservation (PC_BREAK_RESERVED generation r) = cr_reservation r"
| "pc_reservation (PC_BREAK_UNWANTED a) = Some a"
| "pc_reservation (PC_BREAK_DECIDED generation d r) = r"
| "pc_reservation (PC_BREAK_WAIT r) = r"
| "pc_reservation (PC_BREAK_FAIL r m) = r"
| "pc_reservation (PC_BREAK_MISMATCH a) = Some a"
| "pc_reservation (PC_EPILOGUE r) = r"
| "pc_reservation pc = None"

definition task_holds :: "world \<Rightarrow> nat set" where
  "task_holds w = set_option (pc_reservation (w_pc w)) \<union> set_option (tk_current_reservation (w_task w))"

section \<open>Runs\<close>

text \<open>
  \<open>task_run others w\<close>: the world is reachable and \<open>others\<close> are the reservations other clients
  hold. A callback whose \<open>sequence_break\<close> failed (its Task no longer executes) only returns;
  the other clients never release what the Task holds.
\<close>

inductive task_run :: "nat set \<Rightarrow> world \<Rightarrow> bool" where
  run_created: "task_create_typed True name e kind version d = Some t \<Longrightarrow> heap_ok g \<Longrightarrow>
    task_run (held g) \<lparr>w_task = t, w_governor = g, w_pc = PC_IDLE, w_notifiers = 0, w_calls = []\<rparr>"
| run_restored: "task_restore_typed True s kind version d = Some t \<Longrightarrow> heap_ok g \<Longrightarrow>
    task_run (held g) \<lparr>w_task = t, w_governor = g, w_pc = PC_IDLE, w_notifiers = 0, w_calls = []\<rparr>"
| run_start: "task_run others w \<Longrightarrow> w_pc w = PC_IDLE \<Longrightarrow> a \<in> others \<Longrightarrow>
    task_start now a w = (v, True) \<Longrightarrow> task_run (others - {a}) v"
| run_worker: "task_run others w \<Longrightarrow>
    (w_pc w = PC_CALLBACK \<and> \<not> tk_executing (w_task w) \<longrightarrow> (\<exists>b. si_action i = CALL_RETURN b)) \<Longrightarrow>
    task_run others (worker_step i w)"
| run_request: "task_run others w \<Longrightarrow> task_run others (request_step now q w)"
| run_notifier: "task_run others w \<Longrightarrow> task_run others (notifier_step w)"
| run_admission: "task_run others w \<Longrightarrow> w_pc w = PC_IDLE \<Longrightarrow>
    task_reserve_available env telemetry (w_task w) (w_governor w) = (t, g, ad) \<Longrightarrow>
    task_run (others \<union> set_option (ta_reservation ad)) (w\<lparr>w_task := t, w_governor := g\<rparr>)"
| run_record: "task_run others w \<Longrightarrow>
    task_record_sequence_metrics telemetry wall items actual reason m (w_task w) (w_governor w)
      = (g, b) \<Longrightarrow> task_run others (w\<lparr>w_governor := g\<rparr>)"
| run_fallback_item: "task_run others w \<Longrightarrow>
    task_record_fallback_item pair cause (w_task w) (w_governor w) = (t, g, b) \<Longrightarrow>
    task_run others (w\<lparr>w_task := t, w_governor := g\<rparr>)"
| run_foreign_reserve: "task_run others w \<Longrightarrow> serve_request q (w_governor w) = (g, r) \<Longrightarrow>
    task_run (others \<union> set_option r) (w\<lparr>w_governor := g\<rparr>)"
| run_foreign_release: "task_run others w \<Longrightarrow> a \<notin> task_holds w \<Longrightarrow>
    task_run (others - {a}) (w\<lparr>w_governor := fst (governor_release a (w_governor w))\<rparr>)"

inductive_cases task_runE: "task_run others w"

section \<open>The invariant\<close>

text \<open>Program points inside \<open>task_start\<close> where the Task is certainly executing.\<close>

fun executing_pc :: "worker_pc \<Rightarrow> bool" where
  "executing_pc PC_START_PAUSED = True"
| "executing_pc PC_CHECKPOINT = True"
| "executing_pc PC_BREAK_PAUSED = True"
| "executing_pc (PC_BREAK_RELEASE r) = True"
| "executing_pc PC_BREAK_LOOP = True"
| "executing_pc PC_BREAK_ADMIT = True"
| "executing_pc (PC_BREAK_RESERVED generation r) = True"
| "executing_pc (PC_BREAK_UNWANTED a) = True"
| "executing_pc (PC_BREAK_DECIDED generation d r) = True"
| "executing_pc (PC_BREAK_WAIT r) = True"
| "executing_pc (PC_BREAK_FAIL r m) = True"
| "executing_pc pc = False"

text \<open>Program points where \<open>current_reservation\<close> may be set.\<close>

fun holding_pc :: "worker_pc \<Rightarrow> bool" where
  "holding_pc PC_START_PAUSED = True"
| "holding_pc PC_CALLBACK = True"
| "holding_pc PC_CHECKPOINT = True"
| "holding_pc PC_BREAK_PAUSED = True"
| "holding_pc (PC_RETURN b) = True"
| "holding_pc pc = False"

text \<open>Program points whose Task is settled: finished, with nothing left to decide.\<close>

fun settled_pc :: "worker_pc \<Rightarrow> bool" where
  "settled_pc PC_IDLE = True"
| "settled_pc (PC_EPILOGUE r) = True"
| "settled_pc PC_NOTIFY = True"
| "settled_pc PC_NOTIFYING = True"
| "settled_pc PC_DONE = True"
| "settled_pc pc = False"

definition settled :: "world \<Rightarrow> bool" where
  "settled w \<longleftrightarrow> settled_pc (w_pc w) \<and> is_terminal (tk_state (w_task w))"

text \<open>What a settled Task never changes again.\<close>

definition outcome where
  "outcome t = (tk_id t, tk_state t, tk_progress t, tk_durable_progress_known t,
     tk_durable_completed t, tk_durable_total t, tk_message t, tk_finished_at t, tk_sequence_count t)"

text \<open>The reservation an admission in flight will associate with the Task.\<close>

fun expected_pending :: "worker_pc \<Rightarrow> nat option" where
  "expected_pending (PC_BREAK_DECIDED generation d r) = r"
| "expected_pending pc = None"

fun decided_pc :: "worker_pc \<Rightarrow> bool" where
  "decided_pc (PC_BREAK_RESERVED generation r) \<longleftrightarrow> (\<forall>a. cr_reservation r = Some a \<longrightarrow>
     cr_ok r \<and> (\<exists>s. cr_selection r = Some s \<and> decision_grants (cs_decision s)))"
| "decided_pc (PC_BREAK_DECIDED generation d (Some a)) \<longleftrightarrow> decision_grants d"
| "decided_pc (PC_BREAK_WAIT (Some a)) = False"
| "decided_pc (PC_BREAK_FAIL (Some a) m) = False"
| "decided_pc (PC_BREAK_UNWANTED a) = False"
| "decided_pc (PC_BREAK_MISMATCH a) = False"
| "decided_pc pc = True"

definition worker_inv :: "worker_pc \<Rightarrow> task \<Rightarrow> bool" where
  "worker_inv pc t \<longleftrightarrow>
     (executing_pc pc \<longrightarrow> tk_executing t)
     \<and> (\<not> executing_pc pc \<and> pc \<noteq> PC_CALLBACK \<and> (\<forall>b. pc \<noteq> PC_RETURN b) \<longrightarrow> \<not> tk_executing t)
     \<and> (\<not> tk_executing t \<and> pc \<noteq> PC_IDLE \<longrightarrow> is_terminal (tk_state t))
     \<and> (\<not> holding_pc pc \<or> \<not> tk_executing t \<longrightarrow> tk_current_reservation t = None)
     \<and> (tk_executing t \<longrightarrow> tk_pending_reservation t = expected_pending pc)
     \<and> decided_pc pc"

definition notify_inv :: "world \<Rightarrow> bool" where
  "notify_inv w \<longleftrightarrow>
     (w_notifiers w > 0 \<longrightarrow> w_pc w = PC_IDLE \<and> is_terminal (tk_state (w_task w)))
     \<and> (tk_finished_notified (w_task w) \<longrightarrow> settled w \<and> w_pc w \<noteq> PC_NOTIFY
          \<and> (\<forall>r. w_pc w \<noteq> PC_EPILOGUE r))
     \<and> (w_pc w = PC_DONE \<or> w_pc w = PC_NOTIFYING \<longrightarrow> tk_finished_notified (w_task w))
     \<and> length (w_calls w) =
         (if tk_finished_notified (w_task w) \<and> tk_finished_callback (w_task w) then 1 else 0)
     \<and> (\<forall>t \<in> set (w_calls w). outcome t = outcome (w_task w))"

definition task_inv :: "nat set \<Rightarrow> world \<Rightarrow> bool" where
  "task_inv others w \<longleftrightarrow> gov.ledger others (task_holds w) (w_governor w)
     \<and> worker_inv (w_pc w) (w_task w) \<and> notify_inv w"

lemmas task_inv_parts = task_inv_def worker_inv_def notify_inv_def settled_def task_holds_def

lemma settled_inv_executing: "task_inv others w \<Longrightarrow> settled_pc (w_pc w) \<Longrightarrow> \<not> tk_executing (w_task w)"
  by (cases "w_pc w") (auto simp: task_inv_def worker_inv_def)

section \<open>Steps of the worker\<close>

lemma start_section_inv:
  assumes "tk_executing t" and "tk_pending_reservation t = None"
    and "start_section now t = (u, pc)"
  shows "worker_inv pc u" and "\<not> settled_pc pc \<or> is_terminal (tk_state u)"
    and "set_option (pc_reservation pc) \<union> set_option (tk_current_reservation u)
      = set_option (tk_current_reservation t)"
    and "pc \<noteq> PC_IDLE" "pc \<noteq> PC_NOTIFY" "pc \<noteq> PC_DONE" "pc \<noteq> PC_NOTIFYING"
    and "tk_finished_notified u = tk_finished_notified t"
    and "tk_finished_callback u = tk_finished_callback t"
  using assms by (auto simp: start_section_def worker_inv_def mark_paused_def split: if_splits)

lemma checkpoint_section_inv:
  assumes "worker_inv PC_CALLBACK t" "tk_executing t"
    and "checkpoint_section t = (u, pc)"
  shows "worker_inv pc u" and "\<not> settled_pc pc"
    and "set_option (pc_reservation pc) \<union> set_option (tk_current_reservation u)
      = set_option (tk_current_reservation t)"
    and "tk_finished_notified u = tk_finished_notified t"
    and "tk_finished_callback u = tk_finished_callback t"
  using assms by (auto simp: checkpoint_section_def worker_inv_def mark_paused_def split: if_splits)

lemma break_first_section_inv:
  assumes "tk_executing t" "tk_pending_reservation t = None"
    and "break_first_section now t = (u, pc)"
  shows "worker_inv pc u" and "\<not> settled_pc pc"
    and "set_option (pc_reservation pc) \<union> set_option (tk_current_reservation u)
      = set_option (tk_current_reservation t)"
    and "tk_finished_notified u = tk_finished_notified t"
    and "tk_finished_callback u = tk_finished_callback t"
  using assms by (auto simp: break_first_section_def break_cancelled_def worker_inv_def mark_paused_def
    split: if_splits)

lemma break_entry_inv:
  assumes "worker_inv PC_CALLBACK t"
    and "break_entry now t = (u, pc)"
  shows "worker_inv pc u" and "\<not> settled_pc pc"
    and "set_option (pc_reservation pc) \<union> set_option (tk_current_reservation u)
      = set_option (tk_current_reservation t)"
    and "tk_finished_notified u = tk_finished_notified t"
    and "tk_finished_callback u = tk_finished_callback t"
  using assms break_first_section_inv [of t now u pc]
  by (auto simp: break_entry_def worker_inv_def split: if_splits)

lemma break_loop_section_inv:
  assumes "worker_inv PC_BREAK_LOOP t"
    and "break_loop_section now t = (u, pc)"
  shows "worker_inv pc u" and "\<not> settled_pc pc"
    and "pc_reservation pc = None" and "tk_current_reservation u = None"
    and "tk_finished_notified u = tk_finished_notified t"
    and "tk_finished_callback u = tk_finished_callback t"
  using assms by (auto simp: break_loop_section_def break_cancelled_def worker_inv_def mark_paused_def
    split: if_splits)

lemma reserved_step_inv:
  assumes "worker_inv (PC_BREAK_RESERVED generation r) t"
    and "reserved_step generation r t = (u, pc)"
  shows "worker_inv pc u" and "\<not> settled_pc pc"
    and "set_option (pc_reservation pc) \<union> set_option (tk_current_reservation u)
      = set_option (cr_reservation r)"
    and "tk_finished_notified u = tk_finished_notified t"
    and "tk_finished_callback u = tk_finished_callback t"
  using assms by (auto simp: reserved_step_def attach_reservation_def worker_inv_def
    split: if_splits option.splits prod.splits)

lemma decided_step_inv:
  assumes "worker_inv (PC_BREAK_DECIDED generation d r) t"
    and "\<And>a. r = Some a \<Longrightarrow> reservation_get_active a g \<noteq> None"
    and "decided_step now d r g t = (u, pc)"
  shows "worker_inv pc u" and "\<not> settled_pc pc"
    and "set_option (pc_reservation pc) \<union> set_option (tk_current_reservation u) = set_option r"
    and "tk_finished_notified u = tk_finished_notified t"
    and "tk_finished_callback u = tk_finished_callback t"
  using assms by (cases r; auto simp: decided_step_def break_install_section_def break_fail_section_def
    worker_inv_def split: if_splits option.splits)+

lemma return_section_inv:
  assumes "worker_inv (PC_RETURN b) t" and "return_section now b t = (u, pc)"
  shows "worker_inv pc u" and "pc = PC_EPILOGUE (tk_current_reservation t)"
    and "is_terminal (tk_state u)" and "tk_current_reservation u = None"
    and "tk_finished_notified u = tk_finished_notified t"
    and "tk_finished_callback u = tk_finished_callback t"
proof -
  have "\<exists>st m. return_section now b t = ((finish_locked now st m t)\<lparr>tk_current_reservation := None\<rparr>,
      PC_EPILOGUE (tk_current_reservation t)) \<and> is_terminal st"
    unfolding return_section_def Let_def
    by (cases "tk_cancel_requested t"; cases "tk_state t = FAILED \<or> \<not> b")
      (simp_all only: simp_thms if_True if_False; blast intro: terminal_simps)+
  then obtain st m where u: "u = (finish_locked now st m t)\<lparr>tk_current_reservation := None\<rparr>"
    and pc: "pc = PC_EPILOGUE (tk_current_reservation t)" and st: "is_terminal st"
    using assms(2) by auto
  show "worker_inv pc u" using st by (simp add: worker_inv_def u pc)
  show "pc = PC_EPILOGUE (tk_current_reservation t)" by (rule pc)
  show "is_terminal (tk_state u)" "tk_current_reservation u = None"
    "tk_finished_notified u = tk_finished_notified t"
    "tk_finished_callback u = tk_finished_callback t"
    using st by (simp_all add: u)
qed

lemma unsettled_quiet:
  assumes "task_inv others w" and "\<not> settled_pc (w_pc w)"
  shows "\<not> tk_finished_notified (w_task w)" "w_notifiers w = 0" "w_calls w = []"
  using assms by (auto simp: task_inv_def notify_inv_def settled_def)

lemma move_inv:
  assumes "task_inv others w" and "\<not> settled_pc (w_pc w)"
    and "worker_inv pc u" and "\<not> settled_pc pc \<or> (\<exists>r. pc = PC_EPILOGUE r)"
    and "set_option (pc_reservation pc) \<union> set_option (tk_current_reservation u) = task_holds w"
    and "tk_finished_notified u = tk_finished_notified (w_task w)"
    and "tk_finished_callback u = tk_finished_callback (w_task w)"
  shows "task_inv others (w\<lparr>w_task := u, w_pc := pc\<rparr>)"
  using assms(1,3-) unsettled_quiet [OF assms(1,2)] assms(5)
  by (auto simp: task_inv_def notify_inv_def settled_def task_holds_def)

lemma release_opt_inv:
  assumes "task_inv others w" and "tk_current_reservation (w_task w) = None"
    and "worker_inv pc (w_task w)" and "pc_reservation pc = None"
    and "\<not> settled_pc (w_pc w) \<and> \<not> settled_pc pc \<or> pc = PC_NOTIFY \<and> (\<exists>r. w_pc w = PC_EPILOGUE r)"
  shows "task_inv others (w\<lparr>w_governor := release_opt (pc_reservation (w_pc w)) (w_governor w), w_pc := pc\<rparr>)"
proof -
  have led: "gov.ledger others (set_option (pc_reservation (w_pc w))) (w_governor w)"
    using assms(1,2) by (simp add: task_inv_def task_holds_def)
  have "gov.ledger others {} (release_opt (pc_reservation (w_pc w)) (w_governor w))"
  proof (cases "pc_reservation (w_pc w)")
    case None
    then show ?thesis using led by (simp add: release_opt_def)
  next
    case (Some a)
    obtain g b where "governor_release a (w_governor w) = (g, b)" by fastforce
    then show ?thesis using gov.ledger_release(2) [OF led, of a g b] Some by (simp add: release_opt_def)
  qed
  note led' = this
  have wi: "worker_inv (w_pc w) (w_task w)" and ni: "notify_inv w" using assms(1) by (simp_all add: task_inv_def)
  let ?v = "w\<lparr>w_governor := release_opt (pc_reservation (w_pc w)) (w_governor w), w_pc := pc\<rparr>"
  have "notify_inv ?v"
    using assms(5)
  proof
    assume "\<not> settled_pc (w_pc w) \<and> \<not> settled_pc pc"
    with unsettled_quiet [OF assms(1)] show ?thesis by (cases pc) (simp_all add: notify_inv_def)
  next
    assume "pc = PC_NOTIFY \<and> (\<exists>r. w_pc w = PC_EPILOGUE r)"
    with ni show ?thesis by (auto simp: notify_inv_def)
  qed
  with led' assms(2-4) show ?thesis by (simp add: task_inv_def task_holds_def)
qed

lemma held_get_active: "a \<in> held g \<longleftrightarrow> reservation_get_active a g \<noteq> None"
  using find_reservation_None [of "g_active g" a]
  by (auto simp: held_def reservation_get_active_def)

lemma notify_begin_cases:
  obtains (quiet) "notify_begin t = (t, False)" "\<not> is_terminal (tk_state t) \<or> tk_finished_notified t"
  | (first) u where "notify_begin t = (u, tk_finished_callback t)" "is_terminal (tk_state t)"
      "\<not> tk_finished_notified t" "tk_finished_notified u" "outcome u = outcome t"
      "tk_finished_callback u = tk_finished_callback t" "tk_state u = tk_state t"
      "tk_executing u = tk_executing t" "tk_current_reservation u = tk_current_reservation t"
      "tk_pending_reservation u = tk_pending_reservation t"
proof (cases "is_terminal (tk_state t) \<and> \<not> tk_finished_notified t")
  case True
  then show ?thesis
    by (intro first [of "t\<lparr>tk_finished_notified := True,
        tk_finished_callback_running := tk_finished_callback t\<rparr>"])
      (simp_all add: notify_begin_def outcome_def)
next
  case False
  then show ?thesis by (intro quiet) (auto simp: notify_begin_def)
qed

lemma notify_step_inv:
  assumes inv: "task_inv others w" and pc: "w_pc w = PC_NOTIFY"
  shows "task_inv others (worker_step i w)"
proof -
  have wi: "worker_inv PC_NOTIFY (w_task w)" and ni: "notify_inv w"
    and led: "gov.ledger others (task_holds w) (w_governor w)"
    using inv pc by (simp_all add: task_inv_def)
  have t: "is_terminal (tk_state (w_task w))" "\<not> tk_finished_notified (w_task w)"
      "tk_current_reservation (w_task w) = None" "\<not> tk_executing (w_task w)"
    using wi ni pc by (auto simp: worker_inv_def notify_inv_def)
  have quiet: "w_notifiers w = 0" "w_calls w = []" using ni pc t by (auto simp: notify_inv_def)
  show ?thesis
  proof (cases "w_task w" rule: notify_begin_cases)
    case quiet
    then show ?thesis using t by simp
  next
    case (first u)
    define next_pc where "next_pc = (if tk_finished_callback (w_task w) then PC_NOTIFYING else PC_DONE)"
    have step: "worker_step i w = w\<lparr>w_task := u, w_pc := next_pc,
        w_calls := (if tk_finished_callback (w_task w) then [u] else [])\<rparr>"
      by (cases "tk_finished_callback (w_task w)") (simp_all add: worker_step_def pc first(1) next_pc_def quiet)
    have "worker_inv next_pc u"
      using first t wi by (simp add: worker_inv_def next_pc_def)
    moreover have "notify_inv (worker_step i w)"
      using first quiet t by (simp add: step notify_inv_def settled_def next_pc_def)
    moreover have "task_holds (worker_step i w) = task_holds w"
      using first t by (simp add: step task_holds_def next_pc_def pc)
    ultimately show ?thesis using led by (simp add: task_inv_def step)
  qed
qed

lemma admit_step_inv:
  assumes inv: "task_inv others w" and pc: "w_pc w = PC_BREAK_ADMIT"
  shows "task_inv others (worker_step i w)"
proof -
  let ?t = "w_task w" and ?g = "w_governor w"
  obtain h r where run: "reserve_capability_available (si_env i) (si_telemetry i) (feedback_kind ?t)
      (tk_kind_version ?t) (tk_envelope ?t) ?g = (h, r)" by fastforce
  have "serve_request (si_env i, si_telemetry i, feedback_kind ?t, tk_kind_version ?t, tk_envelope ?t) ?g
      = (h, cr_reservation r)"
    by (simp add: serve_request_def run)
  moreover have "gov.ledger others {} ?g"
    using inv pc by (auto simp: task_inv_def task_holds_def worker_inv_def)
  ultimately have led: "gov.ledger others (set_option (cr_reservation r)) h"
    using gov.ledger_reserve(1) by fastforce
  have "heap_ok ?g" using inv by (simp add: task_inv_def gov.ledger_def)
  note res = reserve_available_held(3) [OF this run]
  have "worker_step i w = w\<lparr>w_governor := h, w_pc := PC_BREAK_RESERVED (g_generation ?g) r\<rparr>"
    by (simp add: worker_step_def pc run)
  then show ?thesis
    using inv led res pc
    by (auto simp: task_inv_def task_holds_def worker_inv_def notify_inv_def settled_def)
qed

lemma callback_step_inv:
  assumes inv: "task_inv others w" and pc: "w_pc w = PC_CALLBACK"
    and protocol: "\<not> tk_executing (w_task w) \<longrightarrow> (\<exists>b. si_action i = CALL_RETURN b)"
  shows "task_inv others (worker_step i w)"
proof -
  let ?t = "w_task w"
  have wi: "worker_inv PC_CALLBACK ?t" using inv pc by (simp add: task_inv_def)
  have holds: "task_holds w = set_option (tk_current_reservation ?t)" by (simp add: task_holds_def pc)
  obtain u pc' where step: "callback_step i ?t = (u, pc')" by fastforce
  have "worker_step i w = w\<lparr>w_task := u, w_pc := pc'\<rparr>"
    by (simp add: worker_step_def pc step)
  moreover have "task_inv others (w\<lparr>w_task := u, w_pc := pc'\<rparr>)"
  proof (cases "si_action i")
    case CALL_CHECKPOINT
    then have "checkpoint_section ?t = (u, pc')" "tk_executing ?t"
      using step protocol by (auto simp: callback_step_def)
    note sec = checkpoint_section_inv [OF wi this(2,1)]
    show ?thesis by (rule move_inv [OF inv]) (use sec pc holds in auto)
  next
    case CALL_SEQUENCE_BREAK
    then have "break_entry (si_now i) ?t = (u, pc')" using step by (simp add: callback_step_def)
    note sec = break_entry_inv [OF wi this]
    show ?thesis by (rule move_inv [OF inv]) (use sec pc holds in auto)
  next
    case (CALL_RETURN b)
    then have eq: "u = ?t" "pc' = PC_RETURN b" using step by (simp_all add: callback_step_def)
    show ?thesis
      by (rule move_inv [OF inv]) (use wi pc holds in \<open>auto simp: eq worker_inv_def\<close>)
  qed
  ultimately show ?thesis by simp
qed

lemma worker_step_inv:
  assumes inv: "task_inv others w"
    and protocol: "w_pc w = PC_CALLBACK \<and> \<not> tk_executing (w_task w) \<longrightarrow> (\<exists>b. si_action i = CALL_RETURN b)"
  shows "task_inv others (worker_step i w)"
proof (cases "w_pc w")
  case PC_IDLE
  then show ?thesis using inv by (simp add: worker_step_def)
next
  case PC_START_PAUSED
  then have t: "tk_executing (w_task w)" "tk_pending_reservation (w_task w) = None"
    using inv by (simp_all add: task_inv_def worker_inv_def)
  obtain u pc where step: "start_section (si_now i) (w_task w) = (u, pc)" by fastforce
  note sec = start_section_inv [OF t step]
  have "\<not> settled_pc pc \<or> (\<exists>r. pc = PC_EPILOGUE r)" using sec(4-7) by (cases pc) auto
  then have "task_inv others (w\<lparr>w_task := u, w_pc := pc\<rparr>)"
    by (intro move_inv [OF inv]) (use sec PC_START_PAUSED in \<open>auto simp: task_holds_def\<close>)
  then show ?thesis by (simp add: worker_step_def PC_START_PAUSED step)
next
  case PC_CALLBACK
  then show ?thesis using callback_step_inv [OF inv] protocol by simp
next
  case PC_CHECKPOINT
  then have wi: "worker_inv PC_CALLBACK (w_task w)" "tk_executing (w_task w)"
    using inv by (simp_all add: task_inv_def worker_inv_def)
  obtain u pc where step: "checkpoint_section (w_task w) = (u, pc)" by fastforce
  note sec = checkpoint_section_inv [OF wi step]
  have "task_inv others (w\<lparr>w_task := u, w_pc := pc\<rparr>)"
    by (rule move_inv [OF inv]) (use sec PC_CHECKPOINT in \<open>auto simp: task_holds_def\<close>)
  then show ?thesis by (simp add: worker_step_def PC_CHECKPOINT step)
next
  case PC_BREAK_PAUSED
  then have t: "tk_executing (w_task w)" "tk_pending_reservation (w_task w) = None"
    using inv by (simp_all add: task_inv_def worker_inv_def)
  obtain u pc where step: "break_first_section (si_now i) (w_task w) = (u, pc)" by fastforce
  note sec = break_first_section_inv [OF t step]
  have "task_inv others (w\<lparr>w_task := u, w_pc := pc\<rparr>)"
    by (rule move_inv [OF inv]) (use sec PC_BREAK_PAUSED in \<open>auto simp: task_holds_def\<close>)
  then show ?thesis by (simp add: worker_step_def PC_BREAK_PAUSED step)
next
  case (PC_BREAK_CANCELLED r)
  then show ?thesis
    using release_opt_inv [OF inv, of PC_CALLBACK] inv
    by (simp add: worker_step_def) (simp add: task_inv_def worker_inv_def)
next
  case (PC_BREAK_RELEASE r)
  then show ?thesis
    using release_opt_inv [OF inv, of PC_BREAK_LOOP] inv
    by (simp add: worker_step_def) (simp add: task_inv_def worker_inv_def)
next
  case PC_BREAK_LOOP
  then have wi: "worker_inv PC_BREAK_LOOP (w_task w)" using inv by (simp add: task_inv_def)
  obtain u pc where step: "break_loop_section (si_now i) (w_task w) = (u, pc)" by fastforce
  note sec = break_loop_section_inv [OF wi step]
  have "task_inv others (w\<lparr>w_task := u, w_pc := pc\<rparr>)"
    by (rule move_inv [OF inv]) (use sec wi PC_BREAK_LOOP in \<open>auto simp: task_holds_def worker_inv_def\<close>)
  then show ?thesis by (simp add: worker_step_def PC_BREAK_LOOP step)
next
  case PC_BREAK_ADMIT
  then show ?thesis by (rule admit_step_inv [OF inv])
next
  case (PC_BREAK_RESERVED generation r)
  then have wi: "worker_inv (PC_BREAK_RESERVED generation r) (w_task w)" using inv by (simp add: task_inv_def)
  obtain u pc where step: "reserved_step generation r (w_task w) = (u, pc)" by fastforce
  note sec = reserved_step_inv [OF wi step]
  have "task_inv others (w\<lparr>w_task := u, w_pc := pc\<rparr>)"
    by (rule move_inv [OF inv]) (use sec wi PC_BREAK_RESERVED in \<open>auto simp: task_holds_def worker_inv_def\<close>)
  then show ?thesis by (simp add: worker_step_def PC_BREAK_RESERVED step)
next
  case (PC_BREAK_UNWANTED a)
  then show ?thesis using inv by (simp add: task_inv_def worker_inv_def)
next
  case (PC_BREAK_DECIDED generation d r)
  then have wi: "worker_inv (PC_BREAK_DECIDED generation d r) (w_task w)" using inv by (simp add: task_inv_def)
  have act: "reservation_get_active a (w_governor w) \<noteq> None" if "r = Some a" for a
  proof -
    have "a \<in> held (w_governor w)"
      using inv PC_BREAK_DECIDED that by (auto simp: task_inv_def gov.ledger_def task_holds_def)
    then show ?thesis by (simp add: held_get_active)
  qed
  obtain u pc where step: "decided_step (si_now i) d r (w_governor w) (w_task w) = (u, pc)" by fastforce
  note sec = decided_step_inv [OF wi act step]
  have "task_inv others (w\<lparr>w_task := u, w_pc := pc\<rparr>)"
    by (rule move_inv [OF inv]) (use sec wi PC_BREAK_DECIDED in \<open>auto simp: task_holds_def worker_inv_def\<close>)
  then show ?thesis by (simp add: worker_step_def PC_BREAK_DECIDED step)
next
  case (PC_BREAK_WAIT r)
  then show ?thesis
    using release_opt_inv [OF inv, of PC_BREAK_LOOP] inv
    by (simp add: worker_step_def) (simp add: task_inv_def worker_inv_def)
next
  case (PC_BREAK_FAIL r m)
  then have r: "r = None" using inv by (cases r) (auto simp: task_inv_def worker_inv_def)
  have "task_inv others (w\<lparr>w_task := break_fail_section (si_now i) m (w_task w), w_pc := PC_CALLBACK\<rparr>)"
    by (rule move_inv [OF inv]) (use inv r PC_BREAK_FAIL in
      \<open>auto simp: task_holds_def worker_inv_def task_inv_def break_fail_section_def\<close>)
  then show ?thesis by (simp add: worker_step_def PC_BREAK_FAIL r)
next
  case (PC_BREAK_MISMATCH a)
  then show ?thesis using inv by (simp add: task_inv_def worker_inv_def)
next
  case (PC_RETURN b)
  then have wi: "worker_inv (PC_RETURN b) (w_task w)" using inv by (simp add: task_inv_def)
  obtain u pc where step: "return_section (si_now i) b (w_task w) = (u, pc)" by fastforce
  note sec = return_section_inv [OF wi step]
  have "task_inv others (w\<lparr>w_task := u, w_pc := pc\<rparr>)"
    by (rule move_inv [OF inv]) (use sec PC_RETURN in \<open>auto simp: task_holds_def\<close>)
  then show ?thesis by (simp add: worker_step_def PC_RETURN step)
next
  case (PC_EPILOGUE r)
  then show ?thesis
    using release_opt_inv [OF inv, of PC_NOTIFY] inv
    by (simp add: worker_step_def) (simp add: task_inv_def worker_inv_def)
next
  case PC_NOTIFY
  then show ?thesis by (rule notify_step_inv [OF inv])
next
  case PC_NOTIFYING
  then show ?thesis using inv
    by (auto simp: worker_step_def notify_end_def task_inv_def worker_inv_def notify_inv_def settled_def
      task_holds_def outcome_def)
next
  case PC_DONE
  then show ?thesis using inv by (simp add: worker_step_def)
qed

section \<open>The other steps\<close>

text \<open>What a request does to the fields the invariant reads.\<close>

definition request_frame :: "task \<Rightarrow> task \<Rightarrow> bool" where
  "request_frame t u \<longleftrightarrow>
     tk_current_reservation u = tk_current_reservation t
     \<and> tk_pending_reservation u = tk_pending_reservation t
     \<and> tk_executing u = (tk_executing t \<and> tk_executing u)
     \<and> (tk_executing t \<longrightarrow> tk_executing u)
     \<and> tk_finished_notified u = tk_finished_notified t
     \<and> (is_terminal (tk_state t) \<longrightarrow> tk_state u = tk_state t \<and> outcome u = outcome t
          \<and> tk_finished_callback u = tk_finished_callback t)"

lemma request_section_frame:
  assumes "task_request_section now q t = (u, notify)"
  shows "request_frame t u"
    and "notify \<Longrightarrow> \<not> is_terminal (tk_state t) \<and> \<not> tk_executing t \<and> is_terminal (tk_state u)"
  using assms
  by (cases q; auto simp: request_frame_def request_cancel_def task_pause_def task_resume_def
      task_reject_def set_progress_def set_durable_progress_def task_fail_def
      set_capability_envelope_def enable_known_capabilities_def set_finished_callback_def
      assign_id_def outcome_def Let_def split: if_splits option.splits list.splits)+

lemma request_step_inv:
  assumes inv: "task_inv others w"
  shows "task_inv others (request_step now q w)"
proof -
  obtain u notify where step: "task_request_section now q (w_task w) = (u, notify)" by fastforce
  note frame = request_section_frame [OF step]
  have wi: "worker_inv (w_pc w) (w_task w)" and ni: "notify_inv w" using inv by (simp_all add: task_inv_def)
  have wi': "worker_inv (w_pc w) u"
  proof (cases "tk_executing (w_task w)")
    case True
    then show ?thesis using wi frame(1) by (simp add: worker_inv_def request_frame_def)
  next
    case False
    then show ?thesis using wi frame(1) by (auto simp: worker_inv_def request_frame_def)
  qed
  let ?v = "request_step now q w"
  have v: "w_task ?v = u" "w_pc ?v = w_pc w" "w_governor ?v = w_governor w" "w_calls ?v = w_calls w"
      "w_notifiers ?v = w_notifiers w + (if notify then 1 else 0)"
    by (simp_all add: request_step_def step)
  have "notify_inv ?v"
  proof (cases notify)
    case True
    have t: "\<not> is_terminal (tk_state (w_task w))" "\<not> tk_executing (w_task w)" "is_terminal (tk_state u)"
      using frame(2) [OF True] by simp_all
    have "w_pc w = PC_IDLE" using wi t by (auto simp: worker_inv_def)
    moreover have "\<not> tk_finished_notified (w_task w)" "w_calls w = []"
      using ni t by (auto simp: notify_inv_def settled_def)
    ultimately show ?thesis
      using t frame(1) by (simp add: notify_inv_def settled_def v request_frame_def)
  next
    case False
    show ?thesis
    proof (cases "is_terminal (tk_state (w_task w))")
      case True
      then show ?thesis
        using ni frame(1) False by (simp add: notify_inv_def settled_def v request_frame_def)
    next
      case nonterm: False
      then have "\<not> tk_finished_notified (w_task w)" "w_calls w = []" "w_notifiers w = 0"
        using ni by (auto simp: notify_inv_def settled_def)
      then show ?thesis
        using ni frame(1) False by (simp add: notify_inv_def settled_def v request_frame_def)
    qed
  qed
  moreover have "task_holds ?v = task_holds w" using frame(1) by (simp add: task_holds_def v request_frame_def)
  ultimately show ?thesis using inv wi' by (simp add: task_inv_def v)
qed

lemma notifier_step_inv:
  assumes inv: "task_inv others w"
  shows "task_inv others (notifier_step w)"
proof (cases "w_notifiers w = 0")
  case True
  then show ?thesis using inv by (simp add: notifier_step_def)
next
  case False
  have wi: "worker_inv (w_pc w) (w_task w)" and ni: "notify_inv w"
    and led: "gov.ledger others (task_holds w) (w_governor w)"
    using inv by (simp_all add: task_inv_def)
  have idle: "w_pc w = PC_IDLE" "is_terminal (tk_state (w_task w))"
    using ni False by (auto simp: notify_inv_def)
  show ?thesis
  proof (cases "w_task w" rule: notify_begin_cases)
    case quiet
    then show ?thesis using inv False idle
      by (simp add: notifier_step_def task_inv_def notify_inv_def settled_def task_holds_def)
  next
    case (first u)
    have calls: "w_calls w = []" using ni first(3) by (simp add: notify_inv_def)
    have step: "notifier_step w = w\<lparr>w_task := u, w_notifiers := w_notifiers w - 1,
        w_calls := (if tk_finished_callback (w_task w) then [u] else [])\<rparr>"
      using False by (simp add: notifier_step_def first(1) calls)
    have "worker_inv PC_IDLE u" using first wi idle by (simp add: worker_inv_def)
    moreover have "notify_inv (notifier_step w)"
      using first idle by (simp add: step notify_inv_def settled_def)
    moreover have "task_holds (notifier_step w) = task_holds w"
      using first by (simp add: step task_holds_def)
    ultimately show ?thesis using led idle by (simp add: task_inv_def step)
  qed
qed

lemma start_inv:
  assumes inv: "task_inv others w" and pc: "w_pc w = PC_IDLE" and a: "a \<in> others"
    and run: "task_start now a w = (v, True)"
  shows "task_inv (others - {a}) v"
proof -
  let ?t = "w_task w"
  have wi: "worker_inv PC_IDLE ?t" and ni: "notify_inv w"
    and led: "gov.ledger others {} (w_governor w)"
    using inv pc by (auto simp: task_inv_def task_holds_def worker_inv_def)
  obtain i where act: "reservation_get_active a (w_governor w) = Some i"
    and ok: "\<not> (tk_executing ?t \<or> is_terminal (tk_state ?t)
        \<or> tk_pending_reservation ?t \<noteq> None \<and> tk_pending_reservation ?t \<noteq> Some a)"
    using run by (auto simp: task_start_def Let_def split: option.splits if_splits)
  let ?s = "install_start now a i (g_pressure (w_governor w)) ?t"
  obtain u pc' where sec: "start_section now ?s = (u, pc')" by fastforce
  have v: "v = w\<lparr>w_task := u, w_pc := pc'\<rparr>"
    using run act ok sec by (auto simp: task_start_def Let_def)
  have s: "tk_executing ?s" "tk_pending_reservation ?s = None" "tk_current_reservation ?s = Some a"
      "tk_finished_notified ?s = tk_finished_notified ?t"
      "tk_finished_callback ?s = tk_finished_callback ?t"
    using ok by (auto simp: install_start_def Let_def)
  note sec' = start_section_inv [OF s(1,2) sec]
  have quiet: "\<not> tk_finished_notified ?t" "w_notifiers w = 0" "w_calls w = []"
    using ni ok by (auto simp: notify_inv_def settled_def)
  have "task_holds v = {a}" using sec'(3) s(3) by (simp add: v task_holds_def)
  moreover have "gov.ledger (others - {a}) {a} (w_governor v)"
    using gov.ledger_transfer(1) [OF led a] by (simp add: v)
  moreover have "notify_inv v"
    using quiet s sec' by (simp add: v notify_inv_def)
  ultimately show ?thesis using sec'(1) by (simp add: task_inv_def v)
qed

lemma admission_inv:
  assumes inv: "task_inv others w" and pc: "w_pc w = PC_IDLE"
    and run: "task_reserve_available env telemetry (w_task w) (w_governor w) = (t, g, ad)"
  shows "task_inv (others \<union> set_option (ta_reservation ad)) (w\<lparr>w_task := t, w_governor := g\<rparr>)"
proof -
  let ?t = "w_task w" and ?g = "w_governor w"
  have led: "gov.ledger others {} ?g" and wi: "worker_inv PC_IDLE ?t" and ni: "notify_inv w"
    using inv pc by (auto simp: task_inv_def task_holds_def worker_inv_def)
  obtain h r where res: "reserve_capability_available env telemetry (feedback_kind ?t)
      (tk_kind_version ?t) (tk_envelope ?t) ?g = (h, r)" by fastforce
  have "serve_request (env, telemetry, feedback_kind ?t, tk_kind_version ?t, tk_envelope ?t) ?g
      = (h, cr_reservation r)"
    by (simp add: serve_request_def res)
  then have led': "gov.ledger (others \<union> set_option (cr_reservation r)) {} h"
    using gov.ledger_foreign_reserve [OF led] by blast
  have ok: "heap_ok ?g" using led by (simp add: gov.ledger_def)
  note facts = reserve_available_held(3) [OF ok res]
  have new: "a \<notin> others" if "cr_reservation r = Some a" for a
    using gov.ledger_reserve(2) [OF led _ that] \<open>serve_request _ _ = _\<close> by blast
  have "gov.ledger (others \<union> set_option (ta_reservation ad)) {} g
      \<and> (t = ?t \<or> (\<exists>s a. t = ?t\<lparr>tk_pending_selection := s, tk_pending_reservation := Some a\<rparr>))"
  proof (cases "cr_reservation r")
    case None
    then have "g = h \<and> t = ?t \<and> ta_reservation ad = None"
      using run by (cases "cr_selection r"; cases "cr_ok r") (auto simp: task_reserve_available_def res)
    then show ?thesis using led' None by simp
  next
    case (Some a)
    obtain s where s: "cr_ok r" "cr_selection r = Some s" using facts [OF Some] by blast
    obtain h' b where rel: "governor_release a h = (h', b)" by fastforce
    have "gov.ledger (others \<union> {a} - {a}) {} h'"
      using gov.ledger_foreign_release [OF led' _ rel] Some by simp
    moreover have "others \<union> {a} - {a} = others" using new [OF Some] by auto
    moreover have "(t, g, ad) = (if tk_pending_reservation ?t \<noteq> None
        then (?t, h', \<lparr>ta_ok = False, ta_decision = cs_decision s, ta_reservation = None\<rparr>)
        else (?t\<lparr>tk_pending_selection := s, tk_pending_reservation := Some a\<rparr>, h,
          \<lparr>ta_ok = True, ta_decision = cs_decision s, ta_reservation = Some a\<rparr>))"
      unfolding run [symmetric]
      by (simp add: task_reserve_available_def attach_reservation_def res s Some rel)
    ultimately show ?thesis using led' Some by (auto split: if_splits)
  qed
  then have led2: "gov.ledger (others \<union> set_option (ta_reservation ad)) {} g"
    and frame: "tk_executing t = tk_executing ?t" "tk_state t = tk_state ?t"
      "tk_current_reservation t = tk_current_reservation ?t" "outcome t = outcome ?t"
      "tk_finished_notified t = tk_finished_notified ?t" "tk_finished_callback t = tk_finished_callback ?t"
    by (auto simp: outcome_def)
  have idle: "tk_current_reservation ?t = None" "\<not> tk_executing ?t" using wi by (simp_all add: worker_inv_def)
  have "worker_inv PC_IDLE t" using frame idle by (simp add: worker_inv_def)
  then show ?thesis
    using led2 ni pc frame idle by (simp add: task_inv_def task_holds_def notify_inv_def settled_def)
qed

lemma governor_only_inv:
  assumes "task_inv others w" and "gov.ledger others' (task_holds w) g"
  shows "task_inv others' (w\<lparr>w_governor := g\<rparr>)"
  using assms by (simp add: task_inv_def task_holds_def notify_inv_def settled_def)

lemma lookup_accounts:
  "capability_feedback_locked kind version b create g = (h, r) \<Longrightarrow> gov_accounts h = gov_accounts g"
  by (auto simp: capability_feedback_locked_def Let_def gov_accounts_def
    split: if_splits option.splits prod.splits)

lemma record_accounts:
  "gov_accounts (fst (record_sequence_execution_metrics t kind version s wall items actual reason m g))
    = gov_accounts g"
  "gov_accounts (fst (record_fallback_items kind version s cause n g)) = gov_accounts g"
proof -
  have bump: "gov_accounts (k\<lparr>g_generation := x\<rparr>) = gov_accounts k"
    "gov_accounts (k\<lparr>cg_host_telemetry := t\<rparr>) = gov_accounts k"
    for k :: "'a feedback_governor_scheme" and x
    by (simp_all add: gov_accounts_def)
  obtain h r where h: "capability_feedback_locked kind version (tc_backend (cs_capability s)) True
      (g\<lparr>cg_host_telemetry := t\<rparr>) = (h, r)"
    by fastforce
  show "gov_accounts (fst (record_sequence_execution_metrics t kind version s wall items actual reason m g))
      = gov_accounts g"
    using lookup_accounts [OF h]
    by (cases r) (auto simp: record_sequence_execution_metrics_def Let_def h bump)
  obtain h' r' where h': "capability_feedback_locked kind version BACKEND_ORB_VULKAN True g = (h', r')"
    by fastforce
  show "gov_accounts (fst (record_fallback_items kind version s cause n g)) = gov_accounts g"
    using lookup_accounts [OF h'] by (cases r'; cases cause) (auto simp: record_fallback_items_def h')
qed

lemma count_fallback_item_fields [simp]:
  "tk_executing (count_fallback_item pair cause t) = tk_executing t"
  "tk_state (count_fallback_item pair cause t) = tk_state t"
  "tk_current_reservation (count_fallback_item pair cause t) = tk_current_reservation t"
  "tk_pending_reservation (count_fallback_item pair cause t) = tk_pending_reservation t"
  "outcome (count_fallback_item pair cause t) = outcome t"
  "tk_finished_notified (count_fallback_item pair cause t) = tk_finished_notified t"
  "tk_finished_callback (count_fallback_item pair cause t) = tk_finished_callback t"
  by (cases cause; simp add: count_fallback_item_def Let_def outcome_def split: prod.split)+

lemma fallback_item_inv:
  assumes inv: "task_inv others w"
    and run: "task_record_fallback_item pair cause (w_task w) (w_governor w) = (t, g, b)"
  shows "task_inv others (w\<lparr>w_task := t, w_governor := g\<rparr>)"
proof -
  have acc: "gov_accounts g = gov_accounts (w_governor w)"
    using run record_accounts(2) [of "feedback_kind (w_task w)" "tk_kind_version (w_task w)"
        "tk_selected_capability (w_task w)" cause 1 "w_governor w"]
    by (auto simp: task_record_fallback_item_def split: if_splits prod.splits bool.splits)
  have t: "t = w_task w \<or> tk_executing (w_task w) \<and> t = count_fallback_item pair cause (w_task w)"
    using run by (auto simp: task_record_fallback_item_def fallback_item_available_def
      split: if_splits prod.splits bool.splits)
  have frame: "tk_executing t = tk_executing (w_task w)" "tk_state t = tk_state (w_task w)"
      "tk_current_reservation t = tk_current_reservation (w_task w)"
      "tk_pending_reservation t = tk_pending_reservation (w_task w)" "outcome t = outcome (w_task w)"
      "tk_finished_notified t = tk_finished_notified (w_task w)"
      "tk_finished_callback t = tk_finished_callback (w_task w)"
    using t by auto
  have "gov.ledger others (task_holds w) g"
    using inv held_accounts [OF acc] by (simp add: task_inv_def gov.ledger_def)
  then show ?thesis
    using inv frame by (simp add: task_inv_def task_holds_def worker_inv_def notify_inv_def settled_def)
qed

lemma task_run_inv: "task_run others w \<Longrightarrow> task_inv others w"
proof (induction rule: task_run.induct)
  case (run_created name e kind version d t g)
  then show ?case
    by (auto simp: task_create_typed_def task_inv_def worker_inv_def notify_inv_def task_holds_def
      gov.ledger_def split: if_splits)
next
  case (run_restored s kind version d t g)
  then obtain t0 where "task_create_typed True (buffer_text (ds_name s)) (ds_estimate s) kind version d = Some t0"
    and t: "\<not> tk_executing t" "tk_current_reservation t = tk_current_reservation t0"
      "tk_finished_notified t = tk_finished_notified t0"
    by (auto simp: task_restore_typed_def task_create_typed_def split: if_splits option.splits)
  then show ?case using run_restored(2)
    by (auto simp: task_create_typed_def task_inv_def worker_inv_def notify_inv_def task_holds_def
      gov.ledger_def split: if_splits)
next
  case (run_start others w a now v)
  then show ?case by (intro start_inv)
next
  case (run_worker others w i)
  then show ?case by (intro worker_step_inv) blast+
next
  case (run_request others w now q)
  then show ?case by (intro request_step_inv)
next
  case (run_notifier others w)
  then show ?case by (intro notifier_step_inv)
next
  case (run_admission others w env telemetry t g ad)
  then show ?case by (intro admission_inv)
next
  case (run_record others w telemetry wall items actual reason m g b)
  have "gov_accounts g = gov_accounts (w_governor w)"
    using run_record(2) record_accounts(1) [of telemetry "feedback_kind (w_task w)"
        "tk_kind_version (w_task w)" "tk_selected_capability (w_task w)" wall items actual reason m
        "w_governor w"]
    by (auto simp: task_record_sequence_metrics_def split: if_splits)
  from held_accounts [OF this] show ?case
    using run_record(3) by (intro governor_only_inv [of others]) (simp_all add: task_inv_def gov.ledger_def)
next
  case (run_fallback_item others w pair cause t g b)
  then show ?case by (intro fallback_item_inv)
next
  case (run_foreign_reserve others w q g r)
  then show ?case
    by (intro governor_only_inv [of others] gov.ledger_foreign_reserve) (simp_all add: task_inv_def)
next
  case (run_foreign_release others w a)
  obtain g b where rel: "governor_release a (w_governor w) = (g, b)" by fastforce
  have led: "gov.ledger others (task_holds w) (w_governor w)" using run_foreign_release(3) by (simp add: task_inv_def)
  have "gov.ledger (others - {a}) (task_holds w) g"
  proof (cases "a \<in> others")
    case True
    then show ?thesis using gov.ledger_foreign_release [OF led _ rel] by simp
  next
    case False
    then have "a \<notin> held (w_governor w)" using led run_foreign_release(2) by (simp add: gov.ledger_def)
    then show ?thesis
      using governor_release_law [of "w_governor w" a g b] rel led False by (auto simp: gov.ledger_def)
  qed
  then show ?case using run_foreign_release(3) rel by (auto intro: governor_only_inv)
qed

end
