(* ===== verification/Task_Theorems.thy ===== *)
theory Task_Theorems
  imports Task_Safety Capability_Theorems
begin

text \<open>
  The properties of the Task: ownership of reservations, the finished callback, cancellation,
  failure, durable progress, durable snapshots and the default capability envelope.
\<close>

section \<open>A sample Task\<close>

definition sample_task_estimate :: resource_estimate where
  "sample_task_estimate = \<lparr>re_memory_fixed_bytes = 1000, re_gpu_memory_fixed_bytes = 0,
     re_memory_bytes_per_item = 10, re_gpu_memory_bytes_per_item = 0, re_minimum_batch_size = 1,
     re_maximum_batch_size = 8, re_desired_cpu_threads = 1, re_desired_gpu_slots = 0,
     re_desired_io_slots = 0, re_task_class = RESOURCE_TASK_GENERAL\<rparr>"

definition sample_task :: task where
  "sample_task = the (task_create_typed True ''Test'' sample_task_estimate (Some ''test.run'') 1 False)"

lemma sample_task_created:
  "task_create_typed True ''Test'' sample_task_estimate (Some ''test.run'') 1 False = Some sample_task"
  unfolding sample_task_def by code_simp

text \<open>A Governor that holds one reservation, at address 0.\<close>

definition sample_held_governor :: feedback_governor where
  "sample_held_governor =
     sample_feedback_governor\<lparr>g_heap_next := 1, g_pressure := PRESSURE_GREEN,
       g_active := [\<lparr>rv_address = 0, rv_information = \<lparr>ri_id = 1, ri_memory_bytes = 1010,
           ri_gpu_memory_bytes = 0, ri_cpu_threads = 1, ri_gpu_slots = 0, ri_io_slots = 0,
           ri_batch_size = 1, ri_task_class = RESOURCE_TASK_GENERAL,
           ri_state = RESERVATION_ACTIVE, ri_created_at = \<lparr>tv_sec = 0, tv_nsec = 0\<rparr>\<rparr>,
         rv_charged_memory_bytes = 1010\<rparr>]\<rparr>"

definition sample_world :: world where
  "sample_world = \<lparr>w_task = sample_task, w_governor = sample_held_governor, w_pc = PC_IDLE,
     w_notifiers = 0, w_calls = []\<rparr>"

definition epoch :: timespec where "epoch = \<lparr>tv_sec = 0, tv_nsec = 0\<rparr>"

definition started_world :: world where
  "started_world = fst (task_start epoch 0 sample_world)"

lemma sample_held: "held sample_held_governor = {0}" "heap_ok sample_held_governor"
  by (simp_all add: sample_held_governor_def held_def heap_ok_def)

lemma sample_world_run: "task_run {0} sample_world"
  using run_created [OF sample_task_created sample_held(2)] by (simp add: sample_world_def sample_held)

lemma sample_task_fields:
  "tk_state sample_task = PENDING" "\<not> tk_executing sample_task"
  "tk_pending_reservation sample_task = None" "\<not> tk_cancel_requested sample_task"
  "\<not> tk_pause_requested sample_task" "\<not> tk_finished_callback sample_task"
  "\<not> tk_finished_notified sample_task" "tk_kind sample_task = ''test.run''"
  "tk_name sample_task = ''Test''" "tk_message sample_task = ''En attente.''"
  "tk_progress sample_task = 0" "tk_kind_version sample_task = 1" "tk_id sample_task = 0" "tk_estimate sample_task = sample_task_estimate"
  unfolding sample_task_def by code_simp+

lemma started_facts:
  "task_start epoch 0 sample_world = (started_world, True)"
  "w_pc started_world = PC_CALLBACK" "tk_executing (w_task started_world)"
  "tk_state (w_task started_world) = RUNNING" "\<not> tk_cancel_requested (w_task started_world)"
  "\<not> tk_pause_requested (w_task started_world)" "task_holds started_world = {0}"
  by (simp_all add: started_world_def task_start_def sample_world_def sample_held_governor_def
    reservation_get_active_def find_reservation_def install_start_def start_section_def
    paused_waiting_def sample_task_fields task_holds_def Let_def)

lemma started_run: "task_run {} started_world"
  using run_start [OF sample_world_run _ _ started_facts(1)] by (simp add: sample_world_def)

section \<open>Reservations\<close>

text \<open>
  C13. No leak, no double release: however the worker of a Task, other threads and other
  clients of the Governor interleave, the Governor's active reservations are exactly those the
  others hold and those the Task holds, never both; each reservation the Task still holds can
  be released; before it starts and once its terminal reservation is given back the Task
  holds none; and the defensive paths for a reservation that cannot be associated with the
  Task that asked for it are never taken.
\<close>

theorem task_reservations_accounted:
  assumes "task_run others w"
  shows "held (w_governor w) = others \<union> task_holds w \<and> others \<inter> task_holds w = {}
    \<and> (\<forall>a \<in> task_holds w. snd (governor_release a (w_governor w)))
    \<and> (w_pc w \<in> {PC_IDLE, PC_BREAK_LOOP, PC_BREAK_ADMIT, PC_NOTIFY, PC_NOTIFYING, PC_DONE}
        \<longrightarrow> task_holds w = {})
    \<and> (\<forall>a. w_pc w \<noteq> PC_BREAK_UNWANTED a \<and> w_pc w \<noteq> PC_BREAK_MISMATCH a)"
proof -
  have inv: "task_inv others w" using assms by (rule task_run_inv)
  then have led: "gov.ledger others (task_holds w) (w_governor w)" and wi: "worker_inv (w_pc w) (w_task w)"
    by (simp_all add: task_inv_def)
  have "snd (governor_release a (w_governor w))" if "a \<in> task_holds w" for a
    using gov.ledger_release(1) [OF led that] by (metis surjective_pairing)
  then show ?thesis
    using led wi by (auto simp: gov.ledger_def worker_inv_def task_holds_def)
qed

theorem task_reservations_accounted_witness:
  "task_holds started_world = {0} \<and> held (w_governor started_world) = {0}
   \<and> snd (governor_release 0 (w_governor started_world))"
  using task_reservations_accounted [OF started_run] started_facts(7) by simp

section \<open>The finished callback\<close>


text \<open>The sample run to its end, with a finished callback installed first.\<close>

definition observed_world :: world where
  "observed_world = request_step epoch REQUEST_FINISHED_CALLBACK sample_world"

lemma observed_run: "task_run {0} observed_world" and observed_idle: "w_pc observed_world = PC_IDLE"
  using run_request [OF sample_world_run, of epoch REQUEST_FINISHED_CALLBACK]
  by (simp_all add: observed_world_def request_step_def sample_world_def split: prod.split)

definition sample_input :: "callback_action \<Rightarrow> step_input" where
  "sample_input action = \<lparr>si_now = epoch, si_env = sample_env, si_telemetry = unknown_telemetry,
     si_action = action\<rparr>"

fun drive :: "step_input list \<Rightarrow> world \<Rightarrow> world" where
  "drive [] w = w"
| "drive (i # is) w = drive is (worker_step i w)"

lemma drive_run:
  assumes "task_run others w" and "w_pc w = PC_CALLBACK \<longrightarrow> tk_executing (w_task w)"
  shows "task_run others (worker_step i w)"
  using assms by (intro run_worker) blast+


section \<open>Cancellation\<close>

text \<open>
  The number of steps the worker of a cancelled Task still takes before it is back in its
  callback, or done.
\<close>

fun cancel_measure :: "worker_pc \<Rightarrow> nat" where
  "cancel_measure PC_IDLE = 0"
| "cancel_measure PC_START_PAUSED = 4"
| "cancel_measure PC_CALLBACK = 0"
| "cancel_measure PC_CHECKPOINT = 1"
| "cancel_measure PC_BREAK_PAUSED = 2"
| "cancel_measure (PC_BREAK_CANCELLED r) = 1"
| "cancel_measure (PC_BREAK_RELEASE r) = 3"
| "cancel_measure PC_BREAK_LOOP = 2"
| "cancel_measure PC_BREAK_ADMIT = 6"
| "cancel_measure (PC_BREAK_RESERVED generation r) = 5"
| "cancel_measure (PC_BREAK_UNWANTED a) = 2"
| "cancel_measure (PC_BREAK_DECIDED generation d r) = 4"
| "cancel_measure (PC_BREAK_WAIT r) = 3"
| "cancel_measure (PC_BREAK_FAIL r m) = (case r of None \<Rightarrow> 1 | Some a \<Rightarrow> 2)"
| "cancel_measure (PC_BREAK_MISMATCH a) = 1"
| "cancel_measure (PC_RETURN b) = 4"
| "cancel_measure (PC_EPILOGUE r) = 3"
| "cancel_measure PC_NOTIFY = 2"
| "cancel_measure PC_NOTIFYING = 1"
| "cancel_measure PC_DONE = 0"

lemma section_cancel_flag [simp]:
  "tk_cancel_requested (fst (start_section now t)) = tk_cancel_requested t"
  "tk_cancel_requested (fst (checkpoint_section t)) = tk_cancel_requested t"
  "tk_cancel_requested (fst (break_first_section now t)) = tk_cancel_requested t"
  "tk_cancel_requested (fst (break_entry now t)) = tk_cancel_requested t"
  "tk_cancel_requested (fst (break_loop_section now t)) = tk_cancel_requested t"
  "tk_cancel_requested (fst (callback_step i t)) = tk_cancel_requested t"
  "tk_cancel_requested (fst (reserved_step generation r t)) = tk_cancel_requested t"
  "tk_cancel_requested (fst (decided_step now d r' g t)) = tk_cancel_requested t"
  "tk_cancel_requested (fst (return_section now b t)) = tk_cancel_requested t"
  "tk_cancel_requested (fst (notify_begin t)) = tk_cancel_requested t"
  by (auto simp: start_section_def checkpoint_section_def break_first_section_def break_entry_def
    break_loop_section_def break_cancelled_def callback_step_def reserved_step_def decided_step_def
    break_install_section_def break_fail_section_def attach_reservation_def return_section_def
    notify_begin_def mark_paused_def Let_def split: option.split callback_action.split prod.split if_split)

lemma section_cancelled:
  assumes "tk_cancel_requested t"
  shows "cancel_measure (snd (start_section now t)) = 3"
    and "snd (checkpoint_section t) = PC_CALLBACK"
    and "cancel_measure (snd (break_first_section now t)) = 1"
    and "cancel_measure (snd (break_loop_section now t)) = 1"
    and "cancel_measure (snd (reserved_step generation r t)) < 5"
    and "cancel_measure (snd (decided_step now d r' g t)) < 4"
    and "cancel_measure (snd (return_section now b t)) = 3"
  using assms
  by (auto simp: start_section_def checkpoint_section_def break_first_section_def paused_waiting_def
    break_loop_section_def break_cancelled_def reserved_step_def decided_step_def
    break_install_section_def break_fail_section_def return_section_def Let_def
    split: option.split prod.split bool.split if_split)

lemma worker_step_cancelled:
  assumes "tk_cancel_requested (w_task w)"
  shows "tk_cancel_requested (w_task (worker_step i w))"
    and "0 < cancel_measure (w_pc w) \<Longrightarrow> cancel_measure (w_pc (worker_step i w)) < cancel_measure (w_pc w)"
proof -
  note go = worker_step_def Let_def case_prod_beta
  show "tk_cancel_requested (w_task (worker_step i w))"
    using assms by (cases "w_pc w")
      (simp_all add: go break_fail_section_def notify_end_def split: option.split bool.split)
  assume "0 < cancel_measure (w_pc w)"
  then show "cancel_measure (w_pc (worker_step i w)) < cancel_measure (w_pc w)"
    using section_cancelled [OF assms]
    by (cases "w_pc w") (simp_all add: go split: option.split bool.split)
qed

datatype task_event = WORKER step_input | OTHER timespec task_request

fun task_event_step :: "task_event \<Rightarrow> world \<Rightarrow> world" where
  "task_event_step (WORKER i) w = worker_step i w"
| "task_event_step (OTHER now q) w = request_step now q w"

fun run_events :: "task_event list \<Rightarrow> world \<Rightarrow> world" where
  "run_events [] w = w"
| "run_events (e # es) w = run_events es (task_event_step e w)"

definition worker_steps :: "task_event list \<Rightarrow> nat" where
  "worker_steps es = length (filter (\<lambda>e. case e of WORKER i \<Rightarrow> True | OTHER now q \<Rightarrow> False) es)"

lemma request_step_cancelled:
  assumes "tk_cancel_requested (w_task w)"
  shows "tk_cancel_requested (w_task (request_step now q w))" "w_pc (request_step now q w) = w_pc w"
proof -
  obtain u notify where step: "task_request_section now q (w_task w) = (u, notify)" by fastforce
  have "tk_cancel_requested u"
    using assms step
    by (cases q; auto simp: request_cancel_def task_pause_def task_resume_def
      task_reject_def set_progress_def set_durable_progress_def task_fail_def
      set_capability_envelope_def enable_known_capabilities_def set_finished_callback_def
      assign_id_def Let_def split: if_splits option.splits list.splits)
  then show "tk_cancel_requested (w_task (request_step now q w))" "w_pc (request_step now q w) = w_pc w"
    by (simp_all add: request_step_def step)
qed

lemma cancelled_progress:
  "tk_cancel_requested (w_task w) \<Longrightarrow> cancel_measure (w_pc w) \<le> worker_steps es \<Longrightarrow>
     \<exists>n \<le> length es. cancel_measure (w_pc (run_events (take n es) w)) = 0"
proof (induction es arbitrary: w)
  case Nil
  then show ?case by (simp add: worker_steps_def)
next
  case (Cons e es)
  show ?case
  proof (cases "cancel_measure (w_pc w) = 0")
    case True
    then show ?thesis by (intro exI [of _ 0]) simp
  next
    case False
    let ?v = "task_event_step e w"
    have "tk_cancel_requested (w_task ?v) \<and> cancel_measure (w_pc ?v) \<le> worker_steps es"
    proof (cases e)
      case (WORKER i)
      then show ?thesis
        using worker_step_cancelled [OF Cons.prems(1), of i] False Cons.prems(2)
        by (simp add: worker_steps_def)
    next
      case (OTHER now q)
      then show ?thesis
        using request_step_cancelled [OF Cons.prems(1)] Cons.prems(2) by (simp add: worker_steps_def)
    qed
    with Cons.IH obtain n where "n \<le> length es" "cancel_measure (w_pc (run_events (take n es) ?v)) = 0"
      by blast
    then show ?thesis by (intro exI [of _ "Suc n"]) simp
  qed
qed

lemma cancel_measure_zero: "cancel_measure pc = 0 \<longleftrightarrow> pc \<in> {PC_IDLE, PC_CALLBACK, PC_DONE}"
  by (cases pc) (auto split: option.split)

lemma cancel_measure_le: "cancel_measure pc \<le> 6"
  by (cases pc) (auto split: option.split)

text \<open>
  C15. Cancellation ends every wait of the worker: once a Task's cancellation is requested, no
  pause and no resource WAIT holds the thread that runs it any longer. Within six of its own
  steps, whatever requests other threads interleave and whatever the Governor answers, it is
  back in the business callback or out of \<open>task_start\<close>.
\<close>

theorem cancellation_ends_waiting:
  assumes "tk_cancel_requested (w_task w)" and "6 \<le> worker_steps es"
  shows "\<exists>n \<le> length es. w_pc (run_events (take n es) w) \<in> {PC_IDLE, PC_CALLBACK, PC_DONE}"
  using cancelled_progress [OF assms(1), of es] cancel_measure_le [of "w_pc w"] assms(2)
  by (auto simp: cancel_measure_zero)

text \<open>A Task paused before it starts, whose worker waits, and that is then cancelled.\<close>

definition paused_start_world :: world where
  "paused_start_world = fst (task_start epoch 0 (request_step epoch REQUEST_PAUSE sample_world))"

theorem cancellation_ends_waiting_witness:
  "w_pc paused_start_world = PC_START_PAUSED
   \<and> (\<exists>n \<le> 7. w_pc (run_events (take n (replicate 7 (WORKER (sample_input CALL_CHECKPOINT))))
        (request_step epoch REQUEST_CANCEL paused_start_world)) \<in> {PC_IDLE, PC_CALLBACK, PC_DONE})"
proof -
  let ?w = "request_step epoch REQUEST_CANCEL paused_start_world"
  have pc: "w_pc paused_start_world = PC_START_PAUSED" and "tk_cancel_requested (w_task ?w)"
    by (simp_all add: paused_start_world_def task_start_def request_step_def sample_world_def
      sample_held_governor_def reservation_get_active_def find_reservation_def install_start_def
      start_section_def paused_waiting_def sample_task_fields Let_def task_pause_def mark_paused_def
      request_cancel_def)
  with cancellation_ends_waiting [of ?w "replicate 7 (WORKER (sample_input CALL_CHECKPOINT))"]
  show ?thesis by (simp add: worker_steps_def)
qed

section \<open>Failure reports\<close>

text \<open>
  C16. A failure the callback reports with \<open>task_fail\<close> decides the outcome only if the callback
  then returns: it ends FAILED whatever it returns. When it goes through \<open>task_checkpoint\<close>
  first, as any cooperative loop does, the checkpoint puts the state back to RUNNING and a
  callback that returns true ends COMPLETED with progress 100, the report lost.
\<close>

theorem checkpoint_loses_failure_report:
  fixes w :: world and now :: timespec and m :: "string option" and b :: bool
  assumes "w_pc w = PC_CALLBACK" and "tk_executing (w_task w)" and "\<not> is_terminal (tk_state (w_task w))"
    and "\<not> tk_cancel_requested (w_task w)" and "\<not> tk_pause_requested (w_task w)"
  defines "failed \<equiv> request_step now (REQUEST_FAIL m) w"
  shows "snd (task_fail m (w_task w)) \<and> tk_state (w_task failed) = FAILED
    \<and> tk_state (w_task (drive [sample_input (CALL_RETURN b), sample_input (CALL_RETURN b)] failed)) = FAILED
    \<and> tk_state (w_task (drive [sample_input CALL_CHECKPOINT, sample_input (CALL_RETURN True),
        sample_input (CALL_RETURN True)] failed)) = COMPLETED
    \<and> tk_progress (w_task (drive [sample_input CALL_CHECKPOINT, sample_input (CALL_RETURN True),
        sample_input (CALL_RETURN True)] failed)) = 100"
proof -
  define t where "t = fst (task_fail m (w_task w))"
  have failed: "failed = w\<lparr>w_task := t\<rparr>" by (simp add: failed_def request_step_def t_def)
  have t: "tk_state t = FAILED" "tk_executing t" "\<not> tk_cancel_requested t" "\<not> tk_pause_requested t"
    using assms(2-5) by (simp_all add: t_def task_fail_def)
  have accepted: "snd (task_fail m (w_task w))" using assms(2,3) by (simp add: task_fail_def)
  have ret: "tk_state (fst (return_section epoch b u)) = FAILED"
      if "tk_state u = FAILED" "\<not> tk_cancel_requested u" for u b
    using that by (simp add: return_section_def Let_def)
  have ok: "tk_state (fst (return_section epoch True u)) = COMPLETED
      \<and> tk_progress (fst (return_section epoch True u)) = 100"
      if "tk_state u = RUNNING" "\<not> tk_cancel_requested u" for u
    using that by (simp add: return_section_def Let_def)
  show ?thesis
    using accepted t ret [of t] ok [of "t\<lparr>tk_state := RUNNING\<rparr>"]
    by (simp add: failed worker_step_def assms(1) callback_step_def sample_input_def Let_def
      checkpoint_section_def paused_waiting_def case_prod_beta)
qed

theorem checkpoint_loses_failure_report_witness:
  "tk_state (w_task (drive [sample_input CALL_CHECKPOINT, sample_input (CALL_RETURN True),
      sample_input (CALL_RETURN True)] (request_step epoch (REQUEST_FAIL None) started_world)))
    = COMPLETED"
  using checkpoint_loses_failure_report [where w = started_world and now = epoch and m = None]
    started_facts by simp

section \<open>Durable progress\<close>

lemma ceil_split: "(100 * q + r) * k + 99 = 100 * (q * k) + (r * k + 99)" for q r k :: nat
  by (simp add: algebra_simps)

lemma ceil_hundredth: "(n + 99) div 100 = n div 100 + (if n mod 100 \<noteq> 0 then 1 else (0 :: nat))"
proof -
  define d m where "d = n div 100" and "m = n mod 100"
  have n: "n = 100 * d + m" and m: "m < 100" by (simp_all add: d_def m_def)
  have "(100 * d + (m + 99)) div 100 = d + (m + 99) div 100" by simp
  moreover have "(m + 99) div 100 = (if m \<noteq> 0 then 1 else 0)"
    using m by (cases "m = 0") (auto intro!: div_nat_eqI)
  ultimately show ?thesis by (simp add: n add.assoc m)
qed

lemma threshold_nat:
  assumes "k \<le> 99"
  shows "unat (percentage_threshold n (of_nat k)) = (unat n * k + 99) div 100"
proof -
  let ?q = "unat n div 100" and ?r = "unat n mod 100"
  have k: "unat (ucast (of_nat k :: u32) :: u64) = k"
    using assms by (simp add: unsigned_ucast_eq unat_of_nat take_bit_nat_eq_self)
  have q: "unat (n div 100) = ?q" and r: "unat (n mod 100) = ?r"
    by (simp_all add: unat_div unat_mod)
  have rk: "?r * k \<le> 99 * 99" using assms by (intro mult_le_mono) auto
  have "?r * k < 2 ^ 64" using rk by simp
  then have prod: "unat ((n mod 100) * ucast (of_nat k :: u32)) = ?r * k"
    by (simp add: unat_word_ariths k r)
  have qk: "?q * k \<le> ?q * 99" using assms by simp
  have n: "100 * ?q + ?r = unat n" by simp
  have small: "?q * k + ?r * k div 100 + 1 \<le> 18446744073709551615"
  proof -
    have "?q * k + ?r * k div 100 + 1 \<le> ?q * 99 + 99" using qk rk by linarith
    moreover have "?q \<le> 184467440737095516" using unat_le_max64 [of n] by linarith
    ultimately show ?thesis by linarith
  qed
  have "unat ((n div 100) * ucast (of_nat k :: u32)) = ?q * k"
    using small q k unat_mult_lem [of "n div 100" "ucast (of_nat k :: u32) :: u64"] by simp
  then have base: "unat ((n div 100) * ucast (of_nat k :: u32) + (n mod 100) * ucast (of_nat k :: u32) div 100)
      = ?q * k + ?r * k div 100"
    using small prod by (intro trans [OF unat_add64]) (simp_all add: unat_div)
  have "(n mod 100 * ucast (of_nat k :: u32)) mod 100 \<noteq> 0 \<longleftrightarrow> ?r * k mod 100 \<noteq> 0"
    using prod by (simp add: unat_eq_zero [symmetric] unat_mod del: unat_eq_zero)
  then have "unat (percentage_threshold n (of_nat k))
      = ?q * k + (?r * k div 100 + (if ?r * k mod 100 \<noteq> 0 then 1 else 0))"
    using base small by (simp add: percentage_threshold_def Let_def unat_add64)
  also have "\<dots> = ?q * k + (?r * k + 99) div 100" by (simp add: ceil_hundredth)
  also have "\<dots> = (100 * (?q * k) + (?r * k + 99)) div 100" by simp
  also have "\<dots> = (unat n * k + 99) div 100" by (simp only: ceil_split [symmetric] n)
  finally show ?thesis .
qed

lemma threshold_reached:
  assumes "k \<le> 99"
  shows "percentage_threshold n (of_nat k) \<le> c \<longleftrightarrow> unat n * k \<le> 100 * unat c"
proof -
  have "percentage_threshold n (of_nat k) \<le> c \<longleftrightarrow> (unat n * k + 99) div 100 < Suc (unat c)"
    by (simp add: word_le_nat_alt threshold_nat [OF assms] less_Suc_eq_le)
  also have "\<dots> \<longleftrightarrow> unat n * k + 99 < Suc (unat c) * 100" by (rule div_less_iff_less_mult) simp
  also have "\<dots> \<longleftrightarrow> unat n * k \<le> 100 * unat c" by auto
  finally show ?thesis .
qed

lemma percentage_loop_floor:
  assumes "k \<le> 99" and "unat c < unat n"
  shows "unat (percentage_loop c n k) = min k (100 * unat c div unat n)"
  using assms(1)
proof (induction k)
  case 0
  then show ?case by simp
next
  case (Suc k)
  have reached: "percentage_threshold n (of_nat (Suc k)) \<le> c \<longleftrightarrow> Suc k \<le> 100 * unat c div unat n"
    using threshold_reached [OF Suc.prems, of n c] assms(2)
    by (simp add: less_eq_div_iff_mult_less_eq mult.commute)
  have "unat (of_nat (Suc k) :: u32) = Suc k" using Suc.prems by (simp add: unat_of_nat del: of_nat_Suc)
  then show ?case using Suc reached by auto
qed

text \<open>
  C17. The percentage a typed Task publishes is exact: for any 64-bit counts it is the floor of
  \<open>100 * completed / total\<close>, computed without any intermediate overflow, so it is 100 only for
  a complete prefix and monotone in \<open>completed\<close>.
\<close>

theorem durable_percentage_is_floor:
  assumes "n \<noteq> 0" and "c \<le> n"
  shows "unat (durable_percentage c n) = 100 * unat c div unat n"
proof (cases "c = n")
  case True
  have "unat n \<noteq> 0" using assms(1) by (simp add: unat_eq_zero)
  then show ?thesis by (simp add: durable_percentage_def True)
next
  case False
  then have less: "unat c < unat n" using assms(2) by (simp add: word_less_nat_alt [symmetric])
  then have "100 * unat c div unat n \<le> 99"
    by (simp add: div_less_iff_less_mult less_Suc_eq_le [symmetric])
  moreover have "\<not> n \<le> c" using less by (simp add: word_le_nat_alt)
  ultimately show ?thesis
    using percentage_loop_floor [OF le_refl less] by (simp add: durable_percentage_def)
qed

theorem durable_percentage_is_floor_witness:
  "unat (durable_percentage (UINT64_MAX - 1) UINT64_MAX) = 99"
  using durable_percentage_is_floor [of UINT64_MAX "UINT64_MAX - 1"]
  by (simp add: unat_max64 max64_sub)

end
