(* ===== verification/Task_Durability.thy ===== *)
theory Task_Durability
  imports Task_Theorems
begin

text \<open>
  Durable snapshots of Tasks: what a Task saves, through the checkpoint codec, is what
  restoration rebuilds, and the default capability envelope of every Task is one the Governor's
  admission can work with.
\<close>

section \<open>Texts in character arrays\<close>

definition c_text :: "nat \<Rightarrow> string \<Rightarrow> bool" where
  "c_text capacity text \<longleftrightarrow> length text < capacity \<and> CHR 0x00 \<notin> set text"

lemma of_char_u8: "unat (of_char c :: u8) = of_char c"
proof -
  have "(of_char c :: u8) = of_nat (of_char c)" by (simp add: of_nat_of_char)
  then show ?thesis using nat_of_char_less_256 [of c] by (simp add: unat_of_nat)
qed

lemma char_of_u8 [simp]: "char_of (unat (of_char c :: u8)) = c"
  by (simp add: of_char_u8)

lemma of_char_u8_zero: "(of_char c :: u8) = 0 \<longleftrightarrow> c = CHR 0x00"
proof
  assume zero: "(of_char c :: u8) = 0"
  have "c = char_of (unat (of_char c :: u8))" by (rule char_of_u8 [symmetric])
  also have "\<dots> = char_of (0 :: nat)" by (simp only: zero unsigned_0)
  finally show "c = CHR 0x00" by (simp add: char_of_def)
qed simp

lemma buffer_facts:
  assumes "c_text capacity text"
  shows "buffer_text (text_buffer capacity text) = text"
    and "length (text_buffer capacity text) = capacity" and "0 \<in> set (text_buffer capacity text)"
    and "text \<noteq> [] \<Longrightarrow> text_buffer capacity text ! 0 \<noteq> 0"
proof -
  have buf: "text_buffer capacity text = map of_char text @ replicate (capacity - length text) 0"
    using assms by (simp add: text_buffer_def c_text_def Let_def)
  have more: "\<exists>k. capacity - length text = Suc k"
    using assms by (auto simp: c_text_def dest!: Suc_diff_Suc [THEN sym])
  have nz: "(of_char c :: u8) \<noteq> 0" if "c \<in> set text" for c
    using assms that by (auto simp: c_text_def of_char_u8_zero)
  have "takeWhile (\<lambda>b. b \<noteq> (0 :: u8)) (map of_char text @ replicate n 0) = map of_char text" for n
    using nz by (subst takeWhile_append2) (auto simp: takeWhile_replicate)
  then show "buffer_text (text_buffer capacity text) = text"
    by (simp add: buffer_text_def buf comp_def)
  show "length (text_buffer capacity text) = capacity" using assms by (simp add: buf c_text_def)
  show "0 \<in> set (text_buffer capacity text)" using more by (auto simp: buf)
  show "text_buffer capacity text ! 0 \<noteq> 0" if "text \<noteq> []"
    unfolding buf using nz [of "hd text"] that by (cases "text") auto
qed

section \<open>State codes\<close>

lemma state_of_code_code [simp]: "state_of_code (state_code s) = Some s"
  by (cases s) (simp_all add: state_of_code_def)

lemma small_code: "c \<le> (5 :: u32) \<Longrightarrow> c = 0 \<or> c = 1 \<or> c = 2 \<or> c = 3 \<or> c = 4 \<or> c = 5"
proof -
  assume "c \<le> 5"
  then have "unat c \<in> {0, 1, 2, 3, 4, 5}" by (auto simp: word_le_nat_alt)
  moreover have "c = of_nat (unat c)" by simp
  ultimately show ?thesis by (elim insertE emptyE) (simp_all only: of_nat_simps of_nat_numeral simp_thms)
qed

lemma state_of_code_some: "c \<le> 5 \<Longrightarrow> \<exists>s. state_of_code c = Some s \<and> state_code s = c"
  by (drule small_code) (auto simp: state_of_code_def)

lemma state_of_code_Some: "state_of_code c = Some s \<Longrightarrow> state_code s = c"
  by (auto simp: state_of_code_def split: if_splits)

lemma state_code_inject [simp]: "state_code s = state_code t \<longleftrightarrow> s = t"
  by (metis state_of_code_code option.inject)

section \<open>Restoration\<close>

text \<open>The Tasks a run of the program can save: identified, with C texts, consistent progress.\<close>

definition storable_task :: "task \<Rightarrow> bool" where
  "storable_task t \<longleftrightarrow> tk_id t \<noteq> 0 \<and> tk_name t \<noteq> [] \<and> c_text TASK_NAME_CAPACITY (tk_name t)
     \<and> c_text TASK_MESSAGE_CAPACITY (tk_message t) \<and> tk_progress t \<le> 100
     \<and> (tk_state t = COMPLETED \<longrightarrow> tk_progress t = 100) \<and> valid_estimate (tk_estimate t)
     \<and> (if tk_kind t = [] then tk_kind_version t = 0
        else task_kind_is_valid (tk_kind t) \<and> tk_kind_version t \<noteq> 0)"

definition kind_argument :: "task \<Rightarrow> string option" where
  "kind_argument t = (if tk_kind t = [] then None else Some (tk_kind t))"

definition storable_times :: "task \<Rightarrow> bool" where
  "storable_times t \<longleftrightarrow> valid_time (tk_started_at t) \<and> valid_time (tk_finished_at t)
     \<and> tv_sec (tk_started_at t) < 2 ^ 63 \<and> tv_sec (tk_finished_at t) < 2 ^ 63"

lemma durable_snapshot_valid:
  assumes "storable_task t" and "storable_times t"
  shows "snapshot_typed (task_durable_snapshot t)" and "checkpoint_valid_snapshot (task_durable_snapshot t)"
proof -
  note name = buffer_facts [of TASK_NAME_CAPACITY "tk_name t"]
  note msg = buffer_facts [of TASK_MESSAGE_CAPACITY "tk_message t"]
  show "snapshot_typed (task_durable_snapshot t)"
    using assms name msg by (simp add: snapshot_typed_def task_durable_snapshot_def storable_task_def
      storable_times_def)
  have codes: "state_code s \<le> 5" "state_code s = 5 \<longleftrightarrow> s = COMPLETED" for s by (cases s; simp)+
  have rec: "state_code (recovery_state s) = (if state_code s = 1 \<or> state_code s = 2 then 0 else state_code s)"
    for s by (cases s) (simp_all add: recovery_state_def)
  have comp: "recovery_state s = COMPLETED \<longleftrightarrow> s = COMPLETED" for s by (auto simp: recovery_state_def)
  show "checkpoint_valid_snapshot (task_durable_snapshot t)"
    using assms name msg codes comp
    by (simp add: checkpoint_valid_snapshot_def task_durable_snapshot_def storable_task_def
      storable_times_def valid_text_def rec)
qed

text \<open>What restoration rebuilds from any snapshot the codec accepts.\<close>

lemma restore_accepted:
  assumes "snapshot_typed s" and "checkpoint_valid_snapshot s"
    and "case kind of None \<Rightarrow> version = 0 \<and> \<not> d | Some k \<Rightarrow> task_kind_is_valid k \<and> version \<noteq> 0"
  obtains t where "task_restore_typed True s kind version d = Some t"
    "tk_id t = ds_id s" "tk_name t = buffer_text (ds_name s)" "tk_estimate t = ds_estimate s"
    "tk_progress t = ds_progress s" "state_code (tk_state t) = ds_recovery_state s"
    "tk_message t = buffer_text (ds_message s)" "tk_started_at t = ds_started_at s"
    "tk_finished_at t = ds_finished_at s" "tk_sequence_count t = ds_sequence_count s"
    "tk_kind t = (case kind of None \<Rightarrow> [] | Some k \<Rightarrow> k)" "tk_kind_version t = version"
    "\<not> tk_executing t" "tk_current_reservation t = None" "tk_pending_reservation t = None"
    "tk_envelope t = [default_capability (ds_estimate s) kind version]"
    "\<not> tk_cancel_requested t" "\<not> tk_pause_requested t" "\<not> tk_finished_notified t"
proof -
  note valid = assms(2) [unfolded checkpoint_valid_snapshot_def valid_text_def]
  have len: "length (takeWhile (\<lambda>b. b \<noteq> 0) bs) < length bs" if "0 \<in> set bs" for bs :: bytes
    using that by (induction bs) auto
  have ne: "ds_name s \<noteq> []" using valid by auto
  have name: "buffer_text (ds_name s) \<noteq> []" "length (buffer_text (ds_name s)) < TASK_NAME_CAPACITY"
    using valid len [of "ds_name s"] assms(1) hd_conv_nth [OF ne]
    by (auto simp: buffer_text_def snapshot_typed_def takeWhile_eq_Nil_iff TASK_NAME_CAPACITY_def)
  have msg: "length (buffer_text (ds_message s)) < TASK_MESSAGE_CAPACITY"
    using valid len [of "ds_message s"] assms(1) by (simp add: buffer_text_def snapshot_typed_def)
  obtain saved where saved: "state_of_code (ds_saved_state s) = Some saved" "state_code saved = ds_saved_state s"
    using valid state_of_code_some by blast
  obtain recovery where recovery: "state_of_code (ds_recovery_state s) = Some recovery"
      "state_code recovery = ds_recovery_state s"
    using valid state_of_code_some by blast
  have rec: "recovery = recovery_state saved"
  proof -
    have "state_code recovery = (if state_code saved = 1 \<or> state_code saved = 2 then 0 else state_code saved)"
      using valid saved recovery by simp
    then show ?thesis by (cases saved; cases recovery) (simp_all add: recovery_state_def)
  qed
  have completed: "recovery = COMPLETED \<longrightarrow> ds_progress s = 100"
    using valid recovery by auto
  obtain t0 where t0: "task_create_typed True (buffer_text (ds_name s)) (ds_estimate s) kind version d = Some t0"
    using name assms(3) by (auto simp: task_create_typed_def split: option.splits)
  have fields: "tk_name t0 = buffer_text (ds_name s)" "tk_estimate t0 = ds_estimate s"
    "tk_kind t0 = (case kind of None \<Rightarrow> [] | Some k \<Rightarrow> k)" "tk_kind_version t0 = version"
    "\<not> tk_executing t0" "tk_current_reservation t0 = None" "tk_pending_reservation t0 = None"
    "tk_envelope t0 = [default_capability (ds_estimate s) kind version]"
    "\<not> tk_cancel_requested t0" "\<not> tk_pause_requested t0" "\<not> tk_finished_notified t0"
    using t0 by (auto simp: task_create_typed_def split: if_splits)
  have progress: "(100 < ds_progress s) = False" using valid by auto
  have run: "task_restore_typed True s kind version d = Some
      ((set_message (buffer_text (ds_message s))
         (t0\<lparr>tk_id := ds_id s, tk_progress := ds_progress s, tk_state := recovery\<rparr>))
        \<lparr>tk_started_at := ds_started_at s, tk_finished_at := ds_finished_at s,
          tk_sequence_count := ds_sequence_count s\<rparr>)"
    using valid saved recovery rec completed t0 progress by (simp add: task_restore_typed_def)
  show ?thesis by (rule that [OF run]) (use fields recovery msg in simp_all)
qed


definition sample_identified :: task where
  "sample_identified = sample_task\<lparr>tk_id := 7, tk_progress := 40, tk_state := RUNNING\<rparr>"

lemma sample_identified_storable: "storable_task sample_identified" "storable_times sample_identified"
  unfolding sample_identified_def sample_task_def by code_simp+


section \<open>The default envelope\<close>

lemma kind_range_facts:
  "kind_has_coupled_cpu_batch_range k v \<Longrightarrow> kind_has_validated_cpu_range k v \<and> kind_has_validated_batch_range k v"
  by (auto simp: kind_has_coupled_cpu_batch_range_def kind_has_validated_cpu_range_def
    kind_has_validated_batch_range_def)

lemma default_capability_admissible:
  assumes "valid_estimate e"
    and "(case kind of None \<Rightarrow> False | Some k \<Rightarrow> kind_has_coupled_cpu_batch_range k version) \<Longrightarrow>
      re_minimum_batch_size e \<le> 2"
  shows "admissible_capability (default_capability e kind version)"
  using assms by (auto simp: admissible_capability_def valid_capability_def default_capability_def
    minimum_inflight_def)

text \<open>
  A Task's capability envelope is well typed for the Governor from the start: with a valid
  estimate (and, for the two kinds whose CPU and batch limits are coupled, a minimum batch of
  at most two), creation (which restoration calls) installs a one-capability envelope that satisfies
  everything admission assumes of envelopes, keyed by a non-empty kind that fits its buffer,
  \<open>enable_known_capabilities\<close> leaves it as it is, and \<open>set_capability_envelope\<close> accepts it.
\<close>

theorem created_envelope_is_admissible:
  assumes "task_create_typed resources name e kind version d = Some t" and "valid_estimate e"
    and "(case kind of None \<Rightarrow> False | Some k \<Rightarrow> kind_has_coupled_cpu_batch_range k version)
      \<longrightarrow> re_minimum_batch_size e \<le> 2"
  shows "envelope_ok (feedback_kind t) (tk_envelope t)
    \<and> tk_envelope t = [default_capability e kind version]
    \<and> enable_known_capabilities t = t
    \<and> set_capability_envelope (tk_envelope t) t = (t, True)"
proof -
  have env: "tk_envelope t = [default_capability e kind version]" "tk_state t = PENDING"
    "\<not> tk_executing t" "tk_current_reservation t = None" "tk_pending_reservation t = None"
    "tk_kind t = (case kind of None \<Rightarrow> [] | Some k \<Rightarrow> k)" "tk_kind_version t = version"
    and kind: "\<And>k. kind = Some k \<Longrightarrow> task_kind_is_valid k" and none: "kind = None \<Longrightarrow> version = 0"
    using assms(1) by (auto simp: task_create_typed_def split: if_splits option.splits)
  have adm: "admissible_capability (default_capability e kind version)"
    using default_capability_admissible assms(2,3) by blast
  have fits: "feedback_kind t \<noteq> []" "length (feedback_kind t) < TASK_KIND_CAPACITY"
    using kind env(6)
    by (cases kind; auto simp: feedback_kind_def task_kind_is_valid_def TASK_KIND_CAPACITY_def
      copy_text_def split: if_splits)+
  have ok: "envelope_ok (feedback_kind t) (tk_envelope t)"
    using fits adm env(1) by (simp add: envelope_ok_def valid_capability_envelope_def
      admissible_capability_def RESOURCE_CAPABILITY_MAX_def)
  have known: "enable_known_capabilities t = t"
  proof (cases kind)
    case None
    then have "\<not> kind_has_validated_cpu_range (tk_kind t) (tk_kind_version t)"
      "\<not> kind_has_validated_batch_range (tk_kind t) (tk_kind_version t)"
      "\<not> kind_has_coupled_cpu_batch_range (tk_kind t) (tk_kind_version t)"
      using none env(6,7) by (simp_all add: kind_has_validated_cpu_range_def
        kind_has_validated_batch_range_def kind_has_coupled_cpu_batch_range_def)
    then show ?thesis using env None by (simp add: enable_known_capabilities_def default_capability_def)
  next
    case (Some k)
    then show ?thesis using env by (simp add: enable_known_capabilities_def default_capability_def)
  qed
  have "acceptable_capability (default_capability e kind version)"
    using assms(2) kind_range_facts by (auto simp: acceptable_capability_def default_capability_def
      valid_estimate_def word_gt_0 split: option.splits)
  then show ?thesis
    using ok env known by (simp add: set_capability_envelope_def RESOURCE_CAPABILITY_MAX_def)
qed

theorem created_envelope_is_admissible_witness:
  "envelope_ok (feedback_kind sample_task) (tk_envelope sample_task)"
proof -
  have "valid_estimate sample_task_estimate"
    "\<not> (case Some ''test.run'' of None \<Rightarrow> False | Some k \<Rightarrow> kind_has_coupled_cpu_batch_range k 1)"
    by (simp_all add: sample_task_estimate_def valid_estimate_def kind_has_coupled_cpu_batch_range_def)
  then show ?thesis using created_envelope_is_admissible [OF sample_task_created] by blast
qed

end
