(* ===== verification/Task_Queue.thy ===== *)
theory Task_Queue
  imports Task_Worker
begin

text \<open>
  The Task Queue of \<open>src/task_queue.c\<close>: bounded FIFO ingress with duplicate and identifier
  control, selection of the first admissible Task, retirement of terminal Tasks into a bounded
  history, the call gate, and the observations. The intrusive lists of nodes are lists of node
  addresses (\<open>all\<close> from head to tail, \<open>pending\<close> from head to tail), the nodes a map; each
  definition is one critical section of the Queue mutex.
\<close>

section \<open>Data\<close>

definition QUEUE_HISTORY_CAPACITY :: nat where "QUEUE_HISTORY_CAPACITY = 64"

record task_node =
  tn_task :: task
  tn_control_users :: nat

record task_queue =
  q_call_gate :: size_t
  q_stopping :: bool
  q_next_id :: u64
  q_generated_ids_exhausted :: bool
  q_nodes :: "nat \<Rightarrow> task_node option"
  q_all :: "nat list"
  q_pending :: "nat list"
  q_active :: "nat option"
  q_history :: "task_observation list"
  q_terminal_count :: size_t
  q_capacity :: size_t
  q_pending_count :: size_t
  q_active_producers :: nat

datatype add_result =
  QUEUE_ADD_OK | QUEUE_ADD_FULL | QUEUE_ADD_STOPPING | QUEUE_ADD_DUPLICATE_ID | QUEUE_ADD_ERROR

record queue_summary =
  qs_running :: size_t
  qs_pending :: size_t
  qs_completed :: size_t
  qs_total :: size_t

definition queue_create :: "bool \<Rightarrow> size_t \<Rightarrow> task_queue option" where
  "queue_create resources capacity =
     (if capacity < 1 then None
      else if \<not> resources then None
      else Some \<lparr>q_call_gate = 0, q_stopping = False, q_next_id = 1,
        q_generated_ids_exhausted = False, q_nodes = Map.empty, q_all = [], q_pending = [],
        q_active = None, q_history = [], q_terminal_count = 0, q_capacity = capacity,
        q_pending_count = 0, q_active_producers = 0\<rparr>)"

definition node_task :: "task_queue \<Rightarrow> nat \<Rightarrow> task" where
  "node_task q n = tn_task (the (q_nodes q n))"

definition set_node_task :: "nat \<Rightarrow> task \<Rightarrow> task_queue \<Rightarrow> task_queue" where
  "set_node_task n t q = q\<lparr>q_nodes := (q_nodes q)(n := map_option (tn_task_update (\<lambda>_. t)) (q_nodes q n))\<rparr>"

definition saturating_add :: "size_t \<Rightarrow> size_t \<Rightarrow> size_t" where
  "saturating_add left right = (if left > SIZE_MAX - right then SIZE_MAX else left + right)"

definition observation_to_snapshot :: "task_observation \<Rightarrow> task_snapshot" where
  "observation_to_snapshot ob =
     \<lparr>ts_id = ts_id ob, ts_name = copy_text TASK_NAME_CAPACITY (ts_name ob),
       ts_progress = ts_progress ob, ts_state = ts_state ob,
       ts_message = copy_text TASK_MESSAGE_CAPACITY (ts_message ob),
       ts_started_at = ts_started_at ob, ts_finished_at = ts_finished_at ob\<rparr>"

section \<open>The call gate\<close>

definition CALL_GATE_CLOSING :: size_t where "CALL_GATE_CLOSING = push_bit 63 1"
definition CALL_GATE_REFERENCES :: size_t where "CALL_GATE_REFERENCES = CALL_GATE_CLOSING - 1"

definition call_gate_references :: "size_t \<Rightarrow> size_t" where
  "call_gate_references state = state AND CALL_GATE_REFERENCES"

text \<open>The linearized effect of the compare-and-swap loop.\<close>

definition register_call :: "task_queue \<Rightarrow> task_queue \<times> bool" where
  "register_call q =
     (let observed = q_call_gate q in
      if observed AND CALL_GATE_CLOSING \<noteq> 0 \<or> call_gate_references observed = CALL_GATE_REFERENCES
      then (q, False)
      else (q\<lparr>q_call_gate := observed + 1\<rparr>, True))"

definition release_call_locked :: "task_queue \<Rightarrow> task_queue" where
  "release_call_locked q = q\<lparr>q_call_gate := q_call_gate q - 1\<rparr>"

text \<open>\<open>begin_call\<close> once registered: the mutex is held and the Queue may be stopping.\<close>

definition enter_call :: "task_queue \<Rightarrow> task_queue \<times> bool" where
  "enter_call q = (if q_stopping q then (release_call_locked q, False) else (q, True))"

definition begin_call :: "task_queue \<Rightarrow> task_queue \<times> bool" where
  "begin_call q =
     (case register_call q of
        (q, False) \<Rightarrow> (q, False)
      | (q, True) \<Rightarrow> enter_call q)"

definition end_call_locked :: "task_queue \<Rightarrow> task_queue" where
  "end_call_locked q = release_call_locked q"

text \<open>\<open>destroy\<close> closes the gate; \<^const>\<open>False\<close> when another call already did.\<close>

definition close_gate :: "task_queue \<Rightarrow> task_queue \<times> bool" where
  "close_gate q =
     (let previous_gate = q_call_gate q in
      (q\<lparr>q_call_gate := previous_gate OR CALL_GATE_CLOSING\<rparr>,
       previous_gate AND CALL_GATE_CLOSING = 0))"

definition destroy_begin :: "task_queue \<Rightarrow> task_queue" where
  "destroy_begin q = q\<lparr>q_stopping := True\<rparr>"

definition destroy_may_proceed :: "task_queue \<Rightarrow> bool" where
  "destroy_may_proceed q \<longleftrightarrow>
     \<not> (call_gate_references (q_call_gate q) \<noteq> 0 \<or> q_active_producers q > 0)"

section \<open>Lookup and history\<close>

definition find_live_locked :: "task_queue \<Rightarrow> u64 \<Rightarrow> nat option" where
  "find_live_locked q i = find (\<lambda>n. task_id (node_task q n) = i) (q_all q)"

fun find_history :: "u64 \<Rightarrow> task_observation list \<Rightarrow> nat \<Rightarrow> nat option" where
  "find_history i [] current = None"
| "find_history i (ob # obs) current =
     (if ts_id ob = i then Some current else find_history i obs (current + 1))"

definition find_history_locked :: "task_queue \<Rightarrow> u64 \<Rightarrow> nat option" where
  "find_history_locked q i = find_history i (q_history q) 0"

definition remove_history_locked :: "nat \<Rightarrow> task_queue \<Rightarrow> task_queue" where
  "remove_history_locked index q =
     q\<lparr>q_history := take index (q_history q) @ drop (index + 1) (q_history q)\<rparr>"

definition append_history_locked :: "task_observation \<Rightarrow> task_queue \<Rightarrow> task_queue" where
  "append_history_locked ob q =
     (let history = (if length (q_history q) = QUEUE_HISTORY_CAPACITY then drop 1 (q_history q)
                     else q_history q)
      in q\<lparr>q_history := history @ [ob]\<rparr>)"

section \<open>Lists\<close>

definition unlink_all_locked :: "nat \<Rightarrow> task_queue \<Rightarrow> task_queue" where
  "unlink_all_locked n q = q\<lparr>q_all := remove1 n (q_all q)\<rparr>"

definition unlink_pending :: "nat \<Rightarrow> task_queue \<Rightarrow> task_queue" where
  "unlink_pending n q =
     q\<lparr>q_pending := remove1 n (q_pending q), q_pending_count := q_pending_count q - 1\<rparr>"

definition unlink_pending_if_present_locked :: "nat \<Rightarrow> task_queue \<Rightarrow> task_queue" where
  "unlink_pending_if_present_locked n q = (if n \<in> set (q_pending q) then unlink_pending n q else q)"

text \<open>
  The retired node is detached from the map; its Task is destroyed by the caller, without the
  mutex.
\<close>

definition retire_terminal_locked :: "nat \<Rightarrow> bool \<Rightarrow> task_queue \<Rightarrow> task_queue \<times> nat option" where
  "retire_terminal_locked n retain_history q =
     (let ob = task_observation_of (node_task q n) in
      if q_active q = Some n \<or> tn_control_users (the (q_nodes q n)) \<noteq> 0 \<or> \<not> is_terminal (ts_state ob)
      then (q, None)
      else
        let q = unlink_all_locked n (unlink_pending_if_present_locked n q);
            q = q\<lparr>q_terminal_count := saturating_add (q_terminal_count q) 1\<rparr>;
            q = (if retain_history then append_history_locked ob q else q)
        in (q\<lparr>q_nodes := (q_nodes q)(n := None)\<rparr>, Some n))"

section \<open>Ingress\<close>

text \<open>\<open>n\<close> is the address \<open>calloc\<close> gave the node.\<close>

definition advance_next_id :: "u64 \<Rightarrow> task_queue \<Rightarrow> task_queue" where
  "advance_next_id i q =
     (if i = UINT64_MAX then q\<lparr>q_generated_ids_exhausted := True\<rparr> else q\<lparr>q_next_id := i + 1\<rparr>)"

definition link_node :: "nat \<Rightarrow> task \<Rightarrow> task_queue \<Rightarrow> task_queue" where
  "link_node n t q =
     q\<lparr>q_nodes := (q_nodes q)(n \<mapsto> \<lparr>tn_task = t, tn_control_users = 0\<rparr>),
       q_all := q_all q @ [n], q_pending := q_pending q @ [n],
       q_pending_count := q_pending_count q + 1\<rparr>"

definition live_id :: "task_queue \<Rightarrow> u64 \<Rightarrow> bool" where
  "live_id q i \<longleftrightarrow> (\<exists>n \<in> set (q_all q). task_id (node_task q n) = i)"

definition enqueue_locked :: "nat \<Rightarrow> task \<Rightarrow> task_queue \<Rightarrow> task_queue \<times> u64 option" where
  "enqueue_locked n t q =
     (let i = task_id t in
      if q_stopping q then (q, None)
      else if i \<noteq> 0 \<and> live_id q i then (q, None)
      else if i \<noteq> 0 \<and> find_history_locked q i \<noteq> None then (q, None)
      else if i = 0
      then
        if q_generated_ids_exhausted q then (q, None)
        else (case assign_id (q_next_id q) t of
            (t, False) \<Rightarrow> (q, None)
          | (t, True) \<Rightarrow> (link_node n t (advance_next_id (q_next_id q) q), Some (q_next_id q)))
      else
        let q = (if \<not> q_generated_ids_exhausted q \<and> i \<ge> q_next_id q then advance_next_id i q else q)
        in (link_node n t q, Some i))"

text \<open>
  \<open>add\<close>: the registration, the wait (it ends when \<open>add_ready\<close>), and the completion. The task
  is owned by the Queue only on success.
\<close>

definition add_register :: "task_queue \<Rightarrow> task_queue" where
  "add_register q = q\<lparr>q_active_producers := q_active_producers q + 1\<rparr>"

definition add_begin :: "task_queue \<Rightarrow> task_queue \<times> bool" where
  "add_begin q =
     (case begin_call q of
        (q, False) \<Rightarrow> (q, False)
      | (q, True) \<Rightarrow> (add_register q, True))"

definition add_ready :: "task_queue \<Rightarrow> bool" where
  "add_ready q \<longleftrightarrow> \<not> (\<not> q_stopping q \<and> q_pending_count q \<ge> q_capacity q)"

definition add_complete :: "nat \<Rightarrow> task \<Rightarrow> task_queue \<Rightarrow> task_queue \<times> u64 option" where
  "add_complete n t q =
     (case enqueue_locked n t (q\<lparr>q_active_producers := q_active_producers q - 1\<rparr>) of
        (q, r) \<Rightarrow> (end_call_locked q, r))"

definition try_add_locked :: "nat \<Rightarrow> task \<Rightarrow> task_queue \<Rightarrow> task_queue \<times> add_result \<times> u64 option" where
  "try_add_locked n t q =
     (let (q, result, i) =
        (if q_stopping q then (q, QUEUE_ADD_STOPPING, None)
         else if q_pending_count q \<ge> q_capacity q then (q, QUEUE_ADD_FULL, None)
         else if task_id t \<noteq> 0 \<and> live_id q (task_id t) then (q, QUEUE_ADD_DUPLICATE_ID, None)
         else if task_id t \<noteq> 0 \<and> find_history_locked q (task_id t) \<noteq> None
         then (q, QUEUE_ADD_DUPLICATE_ID, None)
         else case enqueue_locked n t q of
           (q, None) \<Rightarrow> (q, QUEUE_ADD_ERROR, None)
         | (q, Some i) \<Rightarrow> (q, QUEUE_ADD_OK, Some i))
      in (end_call_locked q, result, i))"

definition try_add_ex :: "bool \<Rightarrow> nat \<Rightarrow> task \<Rightarrow> task_queue \<Rightarrow> task_queue \<times> add_result \<times> u64 option" where
  "try_add_ex allocated n t q =
     (if \<not> allocated then (q, QUEUE_ADD_ERROR, None)
      else case begin_call q of
        (q, False) \<Rightarrow> (q, QUEUE_ADD_STOPPING, None)
      | (q, True) \<Rightarrow> try_add_locked n t q)"

definition try_add :: "bool \<Rightarrow> nat \<Rightarrow> task \<Rightarrow> task_queue \<Rightarrow> task_queue \<times> bool \<times> u64 option" where
  "try_add allocated n t q =
     (case try_add_ex allocated n t q of (q, result, i) \<Rightarrow> (q, result = QUEUE_ADD_OK, i))"

section \<open>Control\<close>

definition pin :: "nat \<Rightarrow> task_queue \<Rightarrow> task_queue" where
  "pin n q = q\<lparr>q_nodes := (q_nodes q)(n := map_option (tn_control_users_update (\<lambda>u. u + 1)) (q_nodes q n))\<rparr>"

definition unpin :: "nat \<Rightarrow> task_queue \<Rightarrow> task_queue" where
  "unpin n q = q\<lparr>q_nodes := (q_nodes q)(n := map_option (tn_control_users_update (\<lambda>u. u - 1)) (q_nodes q n))\<rparr>"

text \<open>
  \<open>cancel\<close> up to the unlock that precedes \<open>request_cancel\<close>: either the answer, or the pinned
  node; then the section after it. A retired node is destroyed before the call ends.
\<close>

definition cancel_locked :: "u64 \<Rightarrow> task_queue \<Rightarrow> task_queue \<times> (bool + nat)" where
  "cancel_locked i q =
     (case find_live_locked q i of
        None \<Rightarrow> (end_call_locked q, Inl (find_history_locked q i \<noteq> None))
      | Some n \<Rightarrow> (pin n q, Inr n))"

definition cancel_begin :: "u64 \<Rightarrow> task_queue \<Rightarrow> task_queue \<times> (bool + nat)" where
  "cancel_begin i q =
     (if i = 0 then (q, Inl False)
      else case begin_call q of
        (q, False) \<Rightarrow> (q, Inl False)
      | (q, True) \<Rightarrow> cancel_locked i q)"

definition cancel_retire :: "nat \<Rightarrow> task_queue \<Rightarrow> task_queue \<times> nat option" where
  "cancel_retire n q = retire_terminal_locked n True (unpin n q)"

definition pause_locked :: "u64 \<Rightarrow> task_queue \<Rightarrow> task_queue \<times> bool" where
  "pause_locked i q =
     (case find_live_locked q i of
        None \<Rightarrow> (end_call_locked q, False)
      | Some n \<Rightarrow>
          (case task_pause (node_task q n) of
            (t, paused) \<Rightarrow> (end_call_locked (set_node_task n t q), paused)))"

definition queue_pause :: "u64 \<Rightarrow> task_queue \<Rightarrow> task_queue \<times> bool" where
  "queue_pause i q =
     (if i = 0 then (q, False)
      else case begin_call q of
        (q, False) \<Rightarrow> (q, False)
      | (q, True) \<Rightarrow> pause_locked i q)"

definition resume_locked :: "u64 \<Rightarrow> task_queue \<Rightarrow> task_queue \<times> bool" where
  "resume_locked i q =
     (case find_live_locked q i of
        None \<Rightarrow> (end_call_locked q, False)
      | Some n \<Rightarrow>
          (case task_resume (node_task q n) of
            (t, resumed) \<Rightarrow> (end_call_locked (set_node_task n t q), resumed)))"

definition queue_resume :: "u64 \<Rightarrow> task_queue \<Rightarrow> task_queue \<times> bool" where
  "queue_resume i q =
     (if i = 0 then (q, False)
      else case begin_call q of
        (q, False) \<Rightarrow> (q, False)
      | (q, True) \<Rightarrow> resume_locked i q)"

text \<open>The broadcast that is the whole effect has no state.\<close>

definition resources_changed :: "task_queue \<Rightarrow> task_queue" where
  "resources_changed q =
     (case begin_call q of
        (q, False) \<Rightarrow> q
      | (q, True) \<Rightarrow> end_call_locked q)"

text \<open>
  One pass of \<open>remove\<close>'s loop inside its call: the answer of a pass that ends the call, a node
  retired and to be destroyed before the call ends, or a wait after which the loop runs again
  (unless the Queue is stopping).
\<close>

datatype remove_outcome = REMOVE_ANSWER bool | REMOVE_RETIRED nat | REMOVE_WAIT

definition remove_pass :: "u64 \<Rightarrow> task_queue \<Rightarrow> task_queue \<times> remove_outcome" where
  "remove_pass i q =
     (case find_live_locked q i of
        None \<Rightarrow>
          (case find_history_locked q i of
            None \<Rightarrow> (end_call_locked q, REMOVE_ANSWER False)
          | Some index \<Rightarrow> (end_call_locked (remove_history_locked index q), REMOVE_ANSWER True))
      | Some n \<Rightarrow>
          if \<not> is_terminal (ts_state (task_snapshot_of (node_task q n)))
          then (end_call_locked q, REMOVE_ANSWER False)
          else if q_active q = Some n \<or> tn_control_users (the (q_nodes q n)) \<noteq> 0
          then (q, REMOVE_WAIT)
          else (case retire_terminal_locked n False q of
            (q, None) \<Rightarrow> (end_call_locked q, REMOVE_ANSWER False)
          | (q, Some m) \<Rightarrow> (q, REMOVE_RETIRED m)))"

definition remove_after_wait :: "u64 \<Rightarrow> task_queue \<Rightarrow> task_queue \<times> remove_outcome" where
  "remove_after_wait i q =
     (if q_stopping q then (end_call_locked q, REMOVE_ANSWER False) else remove_pass i q)"

definition remove_begin :: "u64 \<Rightarrow> task_queue \<Rightarrow> task_queue \<times> remove_outcome" where
  "remove_begin i q =
     (if i = 0 then (q, REMOVE_ANSWER False)
      else case begin_call q of
        (q, False) \<Rightarrow> (q, REMOVE_ANSWER False)
      | (q, True) \<Rightarrow> remove_pass i q)"

section \<open>Destruction\<close>

definition pin_all :: "task_queue \<Rightarrow> task_queue" where
  "pin_all q = fold pin (q_all q) q"

definition unpin_all :: "task_queue \<Rightarrow> task_queue" where
  "unpin_all q = fold unpin (q_all q) q"

text \<open>The nodes left are destroyed, without the mutex, after the worker has been joined.\<close>

definition destroy_detach :: "task_queue \<Rightarrow> task_queue \<times> nat list" where
  "destroy_detach q =
     (q\<lparr>q_nodes := Map.empty, q_all := [], q_pending := [], q_pending_count := 0\<rparr>, q_all q)"

section \<open>Selection\<close>

record selection_result =
  sel_node :: "nat option"
  sel_reservation :: "nat option"
  sel_resource_wait_pending :: bool
  sel_reject :: bool
  sel_reject_message :: string
  sel_retired :: "nat list"

definition unevaluated_text :: string where
  "unevaluated_text = ''Impossible d'' @ [CHR 0x27, CHR 0xC3, CHR 0xA9] @ ''valuer les ressources disponibles.''"

text \<open>The deadline of the timed wait for a resource change, from the monotonic clock.\<close>

definition PENDING_RESOURCE_WAIT_MILLISECONDS :: int where
  "PENDING_RESOURCE_WAIT_MILLISECONDS = 500"

definition pending_deadline :: "timespec \<Rightarrow> timespec" where
  "pending_deadline now =
     (let deadline = now\<lparr>tv_nsec := tv_nsec now + PENDING_RESOURCE_WAIT_MILLISECONDS * 1000000\<rparr>
      in if tv_nsec deadline \<ge> 1000000000
         then deadline\<lparr>tv_sec := tv_sec deadline + 1, tv_nsec := tv_nsec deadline - 1000000000\<rparr>
         else deadline)"

text \<open>
  \<open>select_admissible\<close> from a position of the pending list on; \<open>answers\<close> gives what the system
  answers to the evaluation of each node. A Task's snapshot always succeeds in this model.
\<close>

fun select_admissible ::
    "(nat \<Rightarrow> environment \<times> host_telemetry) \<Rightarrow> nat list \<Rightarrow> bool \<Rightarrow> nat list \<Rightarrow> task_queue
      \<Rightarrow> feedback_governor \<Rightarrow> task_queue \<times> feedback_governor \<times> selection_result" where
  "select_admissible answers [] waiting retired q g =
     (q, g, \<lparr>sel_node = None, sel_reservation = None, sel_resource_wait_pending = waiting,
             sel_reject = False, sel_reject_message = [], sel_retired = retired\<rparr>)"
| "select_admissible answers (n # rest) waiting retired q g =
     (if is_terminal (ts_state (task_snapshot_of (node_task q n)))
      then
        (case retire_terminal_locked n True (unlink_pending n q) of
          (q, r) \<Rightarrow> select_admissible answers rest waiting
             (case r of None \<Rightarrow> retired | Some m \<Rightarrow> m # retired) q g)
      else
        (case task_reserve_available (fst (answers n)) (snd (answers n)) (node_task q n) g of
          (t, g, admission) \<Rightarrow>
            let q = set_node_task n t q in
            if \<not> ta_ok admission
            then (unlink_pending n q, g,
              \<lparr>sel_node = Some n, sel_reservation = None, sel_resource_wait_pending = waiting,
                sel_reject = True, sel_reject_message = unevaluated_text, sel_retired = retired\<rparr>)
            else if rd_kind (ta_decision admission) = RESOURCE_WAIT
            then select_admissible answers rest True retired q g
            else if rd_kind (ta_decision admission) = RESOURCE_REJECT \<or> ta_reservation admission = None
            then (unlink_pending n q, g,
              \<lparr>sel_node = Some n, sel_reservation = ta_reservation admission,
                sel_resource_wait_pending = waiting, sel_reject = True,
                sel_reject_message = copy_text TASK_MESSAGE_CAPACITY (rd_reason (ta_decision admission)),
                sel_retired = retired\<rparr>)
            else (unlink_pending n q, g,
              \<lparr>sel_node = Some n, sel_reservation = ta_reservation admission,
                sel_resource_wait_pending = waiting, sel_reject = False, sel_reject_message = [],
                sel_retired = retired\<rparr>)))"

text \<open>The worker's critical sections around one dispatch.\<close>

definition worker_select ::
    "(nat \<Rightarrow> environment \<times> host_telemetry) \<Rightarrow> task_queue \<Rightarrow> feedback_governor
      \<Rightarrow> task_queue \<times> feedback_governor \<times> selection_result" where
  "worker_select answers q g =
     (case select_admissible answers (q_pending q) False [] q g of
        (q, g, r) \<Rightarrow> (case sel_node r of
            None \<Rightarrow> (q, g, r)
          | Some n \<Rightarrow> (q\<lparr>q_active := Some n\<rparr>, g, r)))"

definition worker_reject :: "timespec \<Rightarrow> nat \<Rightarrow> string \<Rightarrow> task_queue \<Rightarrow> task_queue" where
  "worker_reject now n message q =
     set_node_task n (fst (task_reject now (Some message) (node_task q n))) q"

definition worker_retire :: "nat \<Rightarrow> task_queue \<Rightarrow> task_queue \<times> nat option" where
  "worker_retire n q = retire_terminal_locked n True (q\<lparr>q_active := None\<rparr>)"

section \<open>Observation\<close>

text \<open>
  An observer that registers reads under the mutex and releases its registration, so its net
  effect on the Queue is none; it reads nothing when the call is not admitted. The reader of
  each operation is given before its guarded call.
\<close>

definition call_admitted :: "task_queue \<Rightarrow> bool" where
  "call_admitted q \<longleftrightarrow> snd (begin_call q)"

definition queue_count :: "task_queue \<Rightarrow> size_t" where
  "queue_count q = (if call_admitted q then q_pending_count q else 0)"

definition queue_get :: "u64 \<Rightarrow> task_queue \<Rightarrow> task_snapshot option" where
  "queue_get i q =
     (if i = 0 \<or> \<not> call_admitted q then None
      else case find_live_locked q i of
        Some n \<Rightarrow> Some (task_snapshot_of (node_task q n))
      | None \<Rightarrow> map_option (\<lambda>k. observation_to_snapshot (q_history q ! k)) (find_history_locked q i))"

definition queue_get_observation :: "u64 \<Rightarrow> task_queue \<Rightarrow> task_observation option" where
  "queue_get_observation i q =
     (if i = 0 \<or> \<not> call_admitted q then None
      else case find_live_locked q i of
        Some n \<Rightarrow> Some (task_observation_of (node_task q n))
      | None \<Rightarrow> map_option (\<lambda>k. q_history q ! k) (find_history_locked q i))"

text \<open>The walk of \<open>get_at\<close> from the tail: the node reached, and what is left of the index.\<close>

fun walk_back :: "nat list \<Rightarrow> nat \<Rightarrow> nat option \<times> nat" where
  "walk_back [] index = (None, index)"
| "walk_back (n # previous) index =
     (if index > 0 then walk_back previous (index - 1) else (Some n, index))"

definition queue_get_at :: "nat \<Rightarrow> task_queue \<Rightarrow> task_snapshot option" where
  "queue_get_at index q =
     (if \<not> call_admitted q then None
      else case walk_back (rev (q_all q)) index of
        (Some n, _) \<Rightarrow> Some (task_snapshot_of (node_task q n))
      | (None, left) \<Rightarrow>
          if left < length (q_history q)
          then Some (observation_to_snapshot (q_history q ! (length (q_history q) - left - 1)))
          else None)"

text \<open>The copying loops: a row is appended while the caller's array has room.\<close>

fun copy_rows :: "nat \<Rightarrow> 'r list \<Rightarrow> 'r list \<Rightarrow> 'r list" where
  "copy_rows capacity [] copied = copied"
| "copy_rows capacity (row # rows) copied =
     copy_rows capacity rows (if length copied < capacity then copied @ [row] else copied)"

definition history_backwards :: "task_queue \<Rightarrow> task_observation list" where
  "history_backwards q =
     map (\<lambda>offset. q_history q ! (length (q_history q) - offset - 1)) [0..<length (q_history q)]"

definition snapshot_rows :: "nat \<Rightarrow> task_queue \<Rightarrow> task_snapshot list" where
  "snapshot_rows capacity q =
     copy_rows capacity (map observation_to_snapshot (history_backwards q))
       (copy_rows capacity (map (\<lambda>n. task_snapshot_of (node_task q n)) (rev (q_all q))) [])"

definition observation_rows :: "nat \<Rightarrow> task_queue \<Rightarrow> task_observation list" where
  "observation_rows capacity q =
     copy_rows capacity (history_backwards q)
       (copy_rows capacity (map (\<lambda>n. task_observation_of (node_task q n)) (rev (q_all q))) [])"

fun summary_loop :: "task_state list \<Rightarrow> size_t \<times> size_t \<times> size_t \<Rightarrow> size_t \<times> size_t \<times> size_t" where
  "summary_loop [] counts = counts"
| "summary_loop (s # rest) (running, pending, live_terminal) =
     summary_loop rest
       (if s = RUNNING \<or> s = PAUSED then (saturating_add running 1, pending, live_terminal)
        else if s = PENDING then (running, saturating_add pending 1, live_terminal)
        else (running, pending, saturating_add live_terminal 1))"

definition summary_of :: "task_queue \<Rightarrow> queue_summary" where
  "summary_of q =
     (case summary_loop (map (\<lambda>n. ts_state (task_snapshot_of (node_task q n))) (q_all q)) (0, 0, 0) of
        (running, pending, live_terminal) \<Rightarrow>
          let completed = saturating_add (q_terminal_count q) live_terminal
          in \<lparr>qs_running = running, qs_pending = pending, qs_completed = completed,
               qs_total = saturating_add completed (saturating_add running pending)\<rparr>)"

definition zero_summary :: queue_summary where
  "zero_summary = \<lparr>qs_running = 0, qs_pending = 0, qs_completed = 0, qs_total = 0\<rparr>"

definition queue_snapshot :: "nat \<Rightarrow> task_queue \<Rightarrow> task_snapshot list \<times> queue_summary" where
  "queue_snapshot capacity q =
     (if call_admitted q then (snapshot_rows capacity q, summary_of q) else ([], zero_summary))"

definition queue_observe :: "nat \<Rightarrow> task_queue \<Rightarrow> task_observation list \<times> queue_summary" where
  "queue_observe capacity q =
     (if call_admitted q then (observation_rows capacity q, summary_of q) else ([], zero_summary))"

end
