(* ===== verification/Queue_Protocol.thy ===== *)
theory Queue_Protocol
  imports Task_Queue
begin

text \<open>
  The Task Queue under concurrency: its worker thread, any number of public calls, and the
  thread that destroys it. A world is the Queue with the program points of all of these; a step
  is one critical section of the Queue mutex, or one atomic operation of the call gate. Tasks
  change between the sections in any way that keeps their identifier: their own operations and
  their execution are the subject of the Task theories.
\<close>

section \<open>Worlds\<close>

datatype queue_worker = QW_IDLE | QW_RUNNING nat | QW_EXITED

text \<open>
  The destroying thread: none yet, gate closed, mutex taken and \<open>stopping\<close> set, every node
  pinned (cancellations run unlocked), unpinned and joining the worker, memory released.
\<close>

datatype queue_destroyer = QD_NONE | QD_CLOSED | QD_STOPPING | QD_PINNED | QD_UNPINNED | QD_DONE

text \<open>
  The calls in flight: \<open>entering\<close> have registered and wait for the mutex; \<open>adding\<close> are producers
  blocked on a full Queue with their node and Task; \<open>cancelling\<close> run \<open>request_cancel\<close> on a
  pinned node without the mutex; \<open>removing\<close> wait for a callback or a control call on the record
  they remove; \<open>leaving\<close> have only the release of their registration left. The log holds the
  identifiers accepted so far, newest first, with whether the Queue generated them.
\<close>

record queue_world =
  qw_queue :: task_queue
  qw_worker :: queue_worker
  qw_entering :: nat
  qw_adding :: "(nat \<times> task) list"
  qw_cancelling :: "nat list"
  qw_removing :: "u64 list"
  qw_leaving :: nat
  qw_destroyer :: queue_destroyer
  qw_log :: "(u64 \<times> bool) list"

definition initial_world :: "task_queue \<Rightarrow> queue_world" where
  "initial_world q =
     \<lparr>qw_queue = q, qw_worker = QW_IDLE, qw_entering = 0, qw_adding = [], qw_cancelling = [],
       qw_removing = [], qw_leaving = 0, qw_destroyer = QD_NONE, qw_log = []\<rparr>"

definition fresh_address :: "nat \<Rightarrow> queue_world \<Rightarrow> bool" where
  "fresh_address n w \<longleftrightarrow> q_nodes (qw_queue w) n = None \<and> n \<notin> fst ` set (qw_adding w)"

definition log_accepted :: "task \<Rightarrow> u64 option \<Rightarrow> queue_world \<Rightarrow> queue_world" where
  "log_accepted t r w =
     (case r of
        None \<Rightarrow> w
      | Some i \<Rightarrow> w\<lparr>qw_log := (i, task_id t = 0) # qw_log w\<rparr>)"

definition after_remove :: "u64 \<Rightarrow> remove_outcome \<Rightarrow> queue_world \<Rightarrow> queue_world" where
  "after_remove i r w =
     (case r of
        REMOVE_ANSWER b \<Rightarrow> w
      | REMOVE_RETIRED n \<Rightarrow> w\<lparr>qw_leaving := qw_leaving w + 1\<rparr>
      | REMOVE_WAIT \<Rightarrow> w\<lparr>qw_removing := i # qw_removing w\<rparr>)"

section \<open>Steps\<close>

text \<open>A call of the section it enters with: it is no longer entering.\<close>

definition entered :: "queue_world \<Rightarrow> task_queue \<Rightarrow> queue_world" where
  "entered w q = w\<lparr>qw_queue := q, qw_entering := qw_entering w - 1\<rparr>"

definition may_enter :: "queue_world \<Rightarrow> bool" where
  "may_enter w \<longleftrightarrow> 0 < qw_entering w \<and> snd (enter_call (qw_queue w))"

inductive queue_step :: "queue_world \<Rightarrow> queue_world \<Rightarrow> bool" where
  step_register: "register_call (qw_queue w) = (q, True) \<Longrightarrow>
    queue_step w (w\<lparr>qw_queue := q, qw_entering := qw_entering w + 1\<rparr>)"
| step_refused: "0 < qw_entering w \<Longrightarrow> enter_call (qw_queue w) = (q, False) \<Longrightarrow>
    queue_step w (entered w q)"
| step_add: "may_enter w \<Longrightarrow> fresh_address n w \<Longrightarrow>
    queue_step w ((entered w (add_register (qw_queue w)))\<lparr>qw_adding := (n, t) # qw_adding w\<rparr>)"
| step_add_complete: "(n, t) \<in> set (qw_adding w) \<Longrightarrow> add_ready (qw_queue w) \<Longrightarrow>
    add_complete n t (qw_queue w) = (q, r) \<Longrightarrow>
    queue_step w (log_accepted t r (w\<lparr>qw_queue := q, qw_adding := remove1 (n, t) (qw_adding w)\<rparr>))"
| step_try_add: "may_enter w \<Longrightarrow> fresh_address n w \<Longrightarrow>
    try_add_locked n t (qw_queue w) = (q, result, r) \<Longrightarrow>
    queue_step w (log_accepted t r (entered w q))"
| step_cancel_answer: "may_enter w \<Longrightarrow> cancel_locked i (qw_queue w) = (q, Inl b) \<Longrightarrow>
    queue_step w (entered w q)"
| step_cancel: "may_enter w \<Longrightarrow> cancel_locked i (qw_queue w) = (q, Inr n) \<Longrightarrow>
    queue_step w ((entered w q)\<lparr>qw_cancelling := n # qw_cancelling w\<rparr>)"
| step_cancel_retire: "n \<in> set (qw_cancelling w) \<Longrightarrow> cancel_retire n (qw_queue w) = (q, r) \<Longrightarrow>
    queue_step w (w\<lparr>qw_queue := q, qw_cancelling := remove1 n (qw_cancelling w),
      qw_leaving := qw_leaving w + 1\<rparr>)"
| step_pause: "may_enter w \<Longrightarrow> pause_locked i (qw_queue w) = (q, b) \<Longrightarrow> queue_step w (entered w q)"
| step_resume: "may_enter w \<Longrightarrow> resume_locked i (qw_queue w) = (q, b) \<Longrightarrow> queue_step w (entered w q)"
| step_remove: "may_enter w \<Longrightarrow> remove_pass i (qw_queue w) = (q, r) \<Longrightarrow>
    queue_step w (after_remove i r (entered w q))"
| step_remove_again: "i \<in> set (qw_removing w) \<Longrightarrow> remove_after_wait i (qw_queue w) = (q, r) \<Longrightarrow>
    queue_step w (after_remove i r (w\<lparr>qw_queue := q, qw_removing := remove1 i (qw_removing w)\<rparr>))"
| step_observe: "may_enter w \<Longrightarrow> queue_step w (entered w (end_call_locked (qw_queue w)))"
| step_leave: "0 < qw_leaving w \<Longrightarrow>
    queue_step w (w\<lparr>qw_queue := end_call_locked (qw_queue w), qw_leaving := qw_leaving w - 1\<rparr>)"
| step_select: "qw_worker w = QW_IDLE \<Longrightarrow> \<not> q_stopping (qw_queue w) \<Longrightarrow>
    worker_select answers (qw_queue w) g = (q, h, r) \<Longrightarrow>
    queue_step w (w\<lparr>qw_queue := q,
      qw_worker := (case sel_node r of None \<Rightarrow> QW_IDLE | Some n \<Rightarrow> QW_RUNNING n)\<rparr>)"
| step_task: "q_nodes (qw_queue w) n \<noteq> None \<Longrightarrow> task_id t = task_id (node_task (qw_queue w) n) \<Longrightarrow>
    queue_step w (w\<lparr>qw_queue := set_node_task n t (qw_queue w)\<rparr>)"
| step_worker_retire: "qw_worker w = QW_RUNNING n \<Longrightarrow> worker_retire n (qw_queue w) = (q, r) \<Longrightarrow>
    queue_step w (w\<lparr>qw_queue := q, qw_worker := QW_IDLE\<rparr>)"
| step_worker_exit: "qw_worker w = QW_IDLE \<Longrightarrow> q_stopping (qw_queue w) \<Longrightarrow>
    queue_step w (w\<lparr>qw_worker := QW_EXITED\<rparr>)"
| step_close: "close_gate (qw_queue w) = (q, True) \<Longrightarrow>
    queue_step w (w\<lparr>qw_queue := q, qw_destroyer := QD_CLOSED\<rparr>)"
| step_stop: "qw_destroyer w = QD_CLOSED \<Longrightarrow>
    queue_step w (w\<lparr>qw_queue := destroy_begin (qw_queue w), qw_destroyer := QD_STOPPING\<rparr>)"
| step_pin_all: "qw_destroyer w = QD_STOPPING \<Longrightarrow> destroy_may_proceed (qw_queue w) \<Longrightarrow>
    queue_step w (w\<lparr>qw_queue := pin_all (qw_queue w), qw_destroyer := QD_PINNED\<rparr>)"
| step_unpin_all: "qw_destroyer w = QD_PINNED \<Longrightarrow>
    queue_step w (w\<lparr>qw_queue := unpin_all (qw_queue w), qw_destroyer := QD_UNPINNED\<rparr>)"
| step_free: "qw_destroyer w = QD_UNPINNED \<Longrightarrow> qw_worker w = QW_EXITED \<Longrightarrow>
    queue_step w (w\<lparr>qw_queue := fst (destroy_detach (qw_queue w)), qw_destroyer := QD_DONE\<rparr>)"

inductive_cases queue_stepE: "queue_step w v"

inductive queue_run :: "size_t \<Rightarrow> queue_world \<Rightarrow> bool" for capacity where
  run_create: "queue_create True capacity = Some q \<Longrightarrow> queue_run capacity (initial_world q)"
| run_step: "queue_run capacity w \<Longrightarrow> queue_step w v \<Longrightarrow> queue_run capacity v"

end
