(* ===== verification/Queue_Structure.thy ===== *)
theory Queue_Structure
  imports Queue_Protocol
begin

text \<open>
  The well-formedness of the Queue's lists, counts, history and identifiers, and that every
  critical section keeps it.
\<close>

section \<open>Words and lists\<close>

lemma word_count_down: "0 < unat (c :: 64 word) \<Longrightarrow> unat (c - 1) = unat c - 1"
  by (metis unat_minus_one unat_gt_0 less_numeral_extra(3) unat_0)

lemma distinct_map_remove1:
  assumes "distinct xs"
  shows "distinct (map f xs) \<Longrightarrow> distinct (map f (remove1 x xs))"
  using assms by (simp add: distinct_remove1_removeAll removeAll_filter_not_eq distinct_map_filter_key)

lemma set_map_remove1: "set (map f (remove1 x xs)) \<subseteq> set (map f xs)"
  using set_remove1_subset [of x xs] by auto

lemma map_remove1_key:
  assumes "distinct (map f xs)" and "x \<in> set xs"
  shows "f x \<notin> set (map f (remove1 x xs))"
  using assms
proof (induction xs)
  case (Cons a xs)
  then show ?case by (cases "x = a") (auto simp: rev_image_eqI)
qed simp

lemma find_None_iff_all: "List.find P xs = None \<longleftrightarrow> (\<forall>x \<in> set xs. \<not> P x)"
  by (auto simp: find_None_iff)

lemma find_Some_member: "List.find P xs = Some x \<Longrightarrow> x \<in> set xs \<and> P x"
  by (auto simp: find_Some_iff)

section \<open>Records\<close>

definition live_ids :: "task_queue \<Rightarrow> u64 list" where
  "live_ids q = map (\<lambda>n. task_id (node_task q n)) (q_all q)"

definition history_ids :: "task_queue \<Rightarrow> u64 list" where
  "history_ids q = map ts_id (q_history q)"

definition record_ids :: "task_queue \<Rightarrow> u64 list" where
  "record_ids q = live_ids q @ history_ids q"

definition node_users :: "task_queue \<Rightarrow> nat \<Rightarrow> nat" where
  "node_users q n = tn_control_users (the (q_nodes q n))"

text \<open>The lists: linked nodes are exactly the allocated ones, waiting ones are linked.\<close>

definition lists_ok :: "task_queue \<Rightarrow> bool" where
  "lists_ok q \<longleftrightarrow> distinct (q_all q) \<and> dom (q_nodes q) = set (q_all q) \<and> distinct (q_pending q)
     \<and> set (q_pending q) \<subseteq> set (q_all q) \<and> unat (q_pending_count q) = length (q_pending q)
     \<and> length (q_pending q) \<le> unat (q_capacity q) \<and> length (q_history q) \<le> QUEUE_HISTORY_CAPACITY
     \<and> (\<forall>n. q_active q = Some n \<longrightarrow> n \<in> set (q_all q) \<and> n \<notin> set (q_pending q))"

text \<open>The identifiers: unique over live and retained records, and below the next one.\<close>

definition ids_ok :: "task_queue \<Rightarrow> bool" where
  "ids_ok q \<longleftrightarrow> distinct (record_ids q) \<and> 0 \<notin> set (record_ids q) \<and> q_next_id q \<noteq> 0
     \<and> (\<not> q_generated_ids_exhausted q \<longrightarrow> (\<forall>i \<in> set (record_ids q). i < q_next_id q))"

lemma lists_okD:
  assumes "lists_ok q"
  shows "distinct (q_all q)" "dom (q_nodes q) = set (q_all q)" "distinct (q_pending q)"
    "set (q_pending q) \<subseteq> set (q_all q)" "unat (q_pending_count q) = length (q_pending q)"
    "length (q_pending q) \<le> unat (q_capacity q)" "length (q_history q) \<le> QUEUE_HISTORY_CAPACITY"
    "q_active q = Some n \<Longrightarrow> n \<in> set (q_all q)" "q_active q = Some n \<Longrightarrow> n \<notin> set (q_pending q)"
  using assms by (auto simp: lists_ok_def)

lemma ids_okD:
  assumes "ids_ok q"
  shows "distinct (record_ids q)" "0 \<notin> set (record_ids q)" "q_next_id q \<noteq> 0"
    "\<not> q_generated_ids_exhausted q \<Longrightarrow> i \<in> set (record_ids q) \<Longrightarrow> i < q_next_id q"
  using assms by (auto simp: ids_ok_def)

text \<open>Two Queues that agree on the records, as far as \<^const>\<open>lists_ok\<close> and \<^const>\<open>ids_ok\<close> see.\<close>

definition same_records :: "task_queue \<Rightarrow> task_queue \<Rightarrow> bool" where
  "same_records q p \<longleftrightarrow> q_all p = q_all q \<and> dom (q_nodes p) = dom (q_nodes q)
     \<and> q_pending p = q_pending q \<and> q_pending_count p = q_pending_count q
     \<and> q_capacity p = q_capacity q \<and> q_history p = q_history q \<and> q_next_id p = q_next_id q
     \<and> q_generated_ids_exhausted p = q_generated_ids_exhausted q
     \<and> (\<forall>n \<in> dom (q_nodes q). task_id (node_task p n) = task_id (node_task q n))"

lemma same_records_ok:
  assumes "same_records q p" "lists_ok q" "ids_ok q" "q_active p = q_active q \<or> q_active p = None"
  shows "lists_ok p" and "ids_ok p"
proof -
  have "live_ids p = live_ids q"
    using assms(1) lists_okD(2) [OF assms(2)] by (auto simp: live_ids_def same_records_def)
  then have r: "record_ids p = record_ids q"
    using assms(1) by (simp add: record_ids_def history_ids_def same_records_def)
  show "lists_ok p" using assms(1,2,4) by (auto simp: lists_ok_def same_records_def)
  show "ids_ok p" using assms(1,3) r by (simp add: ids_ok_def same_records_def)
qed

lemma same_records_refl [simp]: "same_records q q"
  by (simp add: same_records_def)

lemma same_records_trans: "same_records q p \<Longrightarrow> same_records p r \<Longrightarrow> same_records q r"
  by (auto simp: same_records_def)

lemma same_records_simps [simp]:
  "same_records q (q\<lparr>q_call_gate := x\<rparr>)" "same_records q (q\<lparr>q_stopping := b\<rparr>)"
  "same_records q (q\<lparr>q_active_producers := k\<rparr>)" "same_records q (q\<lparr>q_active := a\<rparr>)"
  by (simp_all add: same_records_def node_task_def)

lemma same_records_gate [simp]:
  "same_records q (release_call_locked q)" "same_records q (end_call_locked q)"
  "same_records q (add_register q)" "same_records q (destroy_begin q)"
  by (simp_all add: release_call_locked_def end_call_locked_def add_register_def destroy_begin_def)

lemma node_task_set [simp]:
  "node_task (set_node_task n t q) m =
    (if m = n \<and> q_nodes q n \<noteq> None then t else node_task q m)"
  by (auto simp: node_task_def set_node_task_def)

lemma dom_set_node_task [simp]: "dom (q_nodes (set_node_task n t q)) = dom (q_nodes q)"
  by (auto simp: set_node_task_def split: if_splits)

lemma set_node_task_fields [simp]:
  "q_call_gate (set_node_task n t q) = q_call_gate q" "q_stopping (set_node_task n t q) = q_stopping q"
  "q_next_id (set_node_task n t q) = q_next_id q" "q_all (set_node_task n t q) = q_all q"
  "q_generated_ids_exhausted (set_node_task n t q) = q_generated_ids_exhausted q"
  "q_pending (set_node_task n t q) = q_pending q" "q_active (set_node_task n t q) = q_active q"
  "q_history (set_node_task n t q) = q_history q" "q_capacity (set_node_task n t q) = q_capacity q"
  "q_pending_count (set_node_task n t q) = q_pending_count q"
  "q_active_producers (set_node_task n t q) = q_active_producers q"
  "q_terminal_count (set_node_task n t q) = q_terminal_count q"
  "node_users (set_node_task n t q) m = node_users q m"
  by (auto simp: set_node_task_def node_users_def map_option_case split: option.split)

lemma same_records_set_task:
  "task_id t = task_id (node_task q n) \<Longrightarrow> same_records q (set_node_task n t q)"
  by (auto simp: same_records_def)

lemma pin_fields [simp]:
  "q_call_gate (pin n q) = q_call_gate q" "q_stopping (pin n q) = q_stopping q"
  "q_active (pin n q) = q_active q" "q_all (pin n q) = q_all q"
  "q_active_producers (pin n q) = q_active_producers q" "q_pending (pin n q) = q_pending q"
  "q_call_gate (unpin n q) = q_call_gate q" "q_stopping (unpin n q) = q_stopping q"
  "q_active (unpin n q) = q_active q" "q_all (unpin n q) = q_all q"
  "q_active_producers (unpin n q) = q_active_producers q" "q_pending (unpin n q) = q_pending q"
  by (simp_all add: pin_def unpin_def)

lemma node_users_pin [simp]:
  "node_users (pin n q) m = (if m = n \<and> q_nodes q n \<noteq> None then node_users q m + 1 else node_users q m)"
  "node_users (unpin n q) m = (if m = n \<and> q_nodes q n \<noteq> None then node_users q m - 1 else node_users q m)"
  by (auto simp: node_users_def pin_def unpin_def map_option_case split: option.split)

lemma same_records_pin [simp]: "same_records q (pin n q)" "same_records q (unpin n q)"
  by (auto simp: same_records_def pin_def unpin_def node_task_def map_option_case
    split: option.splits if_splits)

section \<open>Retirement\<close>

lemma unlink_if_present:
  "q_pending (unlink_pending_if_present_locked n q) = remove1 n (q_pending q)"
  "q_pending_count (unlink_pending_if_present_locked n q)
    = (if n \<in> set (q_pending q) then q_pending_count q - 1 else q_pending_count q)"
  by (simp_all add: unlink_pending_if_present_locked_def unlink_pending_def remove1_idem)

lemma unlink_pending_fields [simp]:
  "q_call_gate (unlink_pending n q) = q_call_gate q" "q_stopping (unlink_pending n q) = q_stopping q"
  "q_next_id (unlink_pending n q) = q_next_id q" "q_all (unlink_pending n q) = q_all q"
  "q_generated_ids_exhausted (unlink_pending n q) = q_generated_ids_exhausted q"
  "q_pending (unlink_pending n q) = remove1 n (q_pending q)" "q_active (unlink_pending n q) = q_active q"
  "q_history (unlink_pending n q) = q_history q" "q_capacity (unlink_pending n q) = q_capacity q"
  "q_nodes (unlink_pending n q) = q_nodes q"
  "q_pending_count (unlink_pending n q) = q_pending_count q - 1"
  "q_active_producers (unlink_pending n q) = q_active_producers q"
  "node_users (unlink_pending n q) = node_users q" "node_task (unlink_pending n q) = node_task q"
  "q_terminal_count (unlink_pending n q) = q_terminal_count q"
  by (simp_all add: unlink_pending_def node_users_def node_task_def fun_eq_iff)

text \<open>A retirement that happens, and its effect.\<close>

definition retires :: "nat \<Rightarrow> task_queue \<Rightarrow> bool" where
  "retires n q \<longleftrightarrow> q_active q \<noteq> Some n \<and> node_users q n = 0 \<and> is_terminal (tk_state (node_task q n))"

lemma observation_state: "ts_state (task_observation_of t) = tk_state t" "ts_id (task_observation_of t) = task_id t"
  by (simp_all add: task_observation_of_def task_id_def task_snapshot_of_def)

definition retired_history :: "nat \<Rightarrow> bool \<Rightarrow> task_queue \<Rightarrow> task_observation list" where
  "retired_history n retain q =
     (if \<not> retain then q_history q
      else (if length (q_history q) = QUEUE_HISTORY_CAPACITY then drop 1 (q_history q) else q_history q)
        @ [task_observation_of (node_task q n)])"

lemma retire_alt:
  "retire_terminal_locked n retain q =
     (if retires n q
      then (q\<lparr>q_pending := remove1 n (q_pending q),
          q_pending_count := (if n \<in> set (q_pending q) then q_pending_count q - 1 else q_pending_count q),
          q_all := remove1 n (q_all q), q_terminal_count := saturating_add (q_terminal_count q) 1,
          q_history := retired_history n retain q, q_nodes := (q_nodes q)(n := None)\<rparr>, Some n)
      else (q, None))"
  by (simp add: retire_terminal_locked_def retires_def node_users_def observation_state Let_def
    unlink_all_locked_def unlink_if_present append_history_locked_def retired_history_def
    unlink_pending_if_present_locked_def unlink_pending_def remove1_idem)

lemma retire_None: "retire_terminal_locked n retain q = (p, None) \<Longrightarrow> p = q"
  by (auto simp: retire_alt split: if_splits)

lemma retire_Some:
  assumes "retire_terminal_locked n retain q = (p, Some m)"
  shows "m = n" "retires n q" "q_pending p = remove1 n (q_pending q)" "q_all p = remove1 n (q_all q)"
    "q_nodes p = (q_nodes q)(n := None)" "q_history p = retired_history n retain q"
    "q_pending_count p = (if n \<in> set (q_pending q) then q_pending_count q - 1 else q_pending_count q)"
    "q_active p = q_active q" "q_stopping p = q_stopping q" "q_call_gate p = q_call_gate q"
    "q_active_producers p = q_active_producers q" "q_capacity p = q_capacity q"
    "q_next_id p = q_next_id q" "q_generated_ids_exhausted p = q_generated_ids_exhausted q"
  using assms by (auto simp: retire_alt split: if_splits)

lemma retired_history_ids:
  assumes "lists_ok q"
  shows "length (retired_history n retain q) \<le> QUEUE_HISTORY_CAPACITY"
    and "\<exists>k. map ts_id (retired_history n retain q)
      = drop k (history_ids q) @ (if retain then [task_id (node_task q n)] else [])"
proof -
  note len = lists_okD(7) [OF assms]
  show "length (retired_history n retain q) \<le> QUEUE_HISTORY_CAPACITY"
    using len by (auto simp: retired_history_def QUEUE_HISTORY_CAPACITY_def)
  show "\<exists>k. map ts_id (retired_history n retain q)
      = drop k (history_ids q) @ (if retain then [task_id (node_task q n)] else [])"
    by (rule exI [of _ "if retain \<and> length (q_history q) = QUEUE_HISTORY_CAPACITY then 1 else 0"])
      (simp add: retired_history_def history_ids_def observation_state drop_map)
qed

lemma retire_ok:
  assumes "retire_terminal_locked n retain q = (p, r)" "lists_ok q" "ids_ok q" "n \<in> set (q_all q)"
  shows "lists_ok p \<and> ids_ok p \<and> set (record_ids p) \<subseteq> set (record_ids q)"
proof (cases r)
  case None
  with assms show ?thesis using retire_None by blast
next
  case (Some m)
  note f = retire_Some [OF assms(1) [unfolded Some]]
  note l = lists_okD [OF assms(2)] and i = ids_okD [OF assms(3)]
  have pc: "unat (q_pending_count p) = length (q_pending p)"
    using l(5) word_count_down [of "q_pending_count q"] length_pos_if_in_set [of n "q_pending q"]
    by (simp add: f(3,7) length_remove1 remove1_idem)
  have lists: "lists_ok p"
    unfolding lists_ok_def
    using pc f(2) l retired_history_ids(1) [OF assms(2), of n retain]
    by (auto simp: f(3-9,12) retires_def set_remove1_eq [OF l(1)] set_remove1_eq [OF l(3)]
      length_remove1 split: if_splits)
  obtain k where k: "history_ids p
      = drop k (history_ids q) @ (if retain then [task_id (node_task q n)] else [])"
    using retired_history_ids(2) [OF assms(2), of n retain] by (auto simp: history_ids_def f(6))
  have tasks: "node_task p m = node_task q m" if "m \<noteq> n" for m
    using that by (simp add: node_task_def f(5))
  have live: "live_ids p = map (\<lambda>m. task_id (node_task q m)) (remove1 n (q_all q))"
    using tasks set_remove1_eq [OF l(1), of n] by (auto simp: live_ids_def f(4))
  have d: "distinct (live_ids q)" "distinct (history_ids q)" "set (live_ids q) \<inter> set (history_ids q) = {}"
    using i(1) by (simp_all add: record_ids_def)
  have sub: "set (live_ids p) \<subseteq> set (live_ids q)"
    unfolding live unfolding live_ids_def by (rule set_map_remove1)
  have gone: "task_id (node_task q n) \<notin> set (live_ids p)"
    unfolding live using d(1) assms(4) unfolding live_ids_def by (rule map_remove1_key)
  have mem: "task_id (node_task q n) \<in> set (live_ids q)" using assms(4) by (simp add: live_ids_def)
  have hist: "set (drop k (history_ids q)) \<subseteq> set (history_ids q)" by (rule set_drop_subset)
  have set: "set (record_ids p) \<subseteq> set (record_ids q)"
    using sub hist mem by (auto simp: record_ids_def k split: if_splits)
  have dl: "distinct (live_ids p)" unfolding live using l(1) d(1) unfolding live_ids_def
    by (rule distinct_map_remove1)
  have "distinct (record_ids p)"
    using dl d sub gone mem hist by (auto simp: record_ids_def k distinct_drop)
  then have "ids_ok p" using i set by (auto simp: ids_ok_def f(13,14))
  with lists set show ?thesis by blast
qed

section \<open>Ingress\<close>

lemma find_history_None: "find_history i obs k = None \<longleftrightarrow> i \<notin> ts_id ` set obs"
  by (induction obs arbitrary: k) (auto simp: image_iff)

lemma find_history_locked_None: "find_history_locked q i = None \<longleftrightarrow> i \<notin> set (history_ids q)"
  by (simp add: find_history_locked_def find_history_None history_ids_def)

lemma find_history_Some:
  "find_history i obs k = Some j \<Longrightarrow> k \<le> j \<and> j - k < length obs \<and> ts_id (obs ! (j - k)) = i"
proof (induction obs arbitrary: k)
  case (Cons ob obs)
  show ?case
  proof (cases "ts_id ob = i")
    case False
    then have "find_history i obs (k + 1) = Some j" using Cons.prems by simp
    from Cons.IH [OF this] show ?thesis by (auto simp: nth_Cons' Suc_diff_le)
  qed (use Cons.prems in auto)
qed simp

lemma live_id_iff: "live_id q i \<longleftrightarrow> i \<in> set (live_ids q)"
  by (auto simp: live_id_def live_ids_def)

lemma task_id_tk: "task_id t = tk_id t"
  by (simp add: task_id_def task_snapshot_of_def)

text \<open>What an accepted Task did: the identifier it has, and whether it is new to the Queue.\<close>

lemma enqueue_cases:
  assumes "enqueue_locked n t q = (p, r)"
  obtains (refused) "p = q" "r = None"
    | (generated) u where "task_id t = 0" "\<not> q_generated_ids_exhausted q" "q_next_id q \<noteq> 0"
        "task_id u = q_next_id q" "r = Some (q_next_id q)"
        "p = link_node n u (advance_next_id (q_next_id q) q)"
    | (given) "task_id t \<noteq> 0" "task_id t \<notin> set (record_ids q)" "r = Some (task_id t)"
        "p = link_node n t (if \<not> q_generated_ids_exhausted q \<and> task_id t \<ge> q_next_id q
            then advance_next_id (task_id t) q else q)"
proof (cases "task_id t = 0")
  case True
  then have "enqueue_locked n t q =
      (if q_stopping q \<or> q_generated_ids_exhausted q \<or> q_next_id q = 0 \<or> tk_state t \<noteq> PENDING then (q, None)
       else (link_node n (t\<lparr>tk_id := q_next_id q\<rparr>) (advance_next_id (q_next_id q) q), Some (q_next_id q)))"
    by (simp add: enqueue_locked_def assign_id_def task_id_tk)
  note eq = this
  show thesis
  proof (cases "q_stopping q \<or> q_generated_ids_exhausted q \<or> q_next_id q = 0 \<or> tk_state t \<noteq> PENDING")
    case True
    with eq assms have "p = q" "r = None" by simp_all
    then show thesis by (rule refused)
  next
    case acc: False
    show thesis
      by (rule generated [of "t\<lparr>tk_id := q_next_id q\<rparr>"])
        (use True acc eq assms in \<open>simp_all add: task_id_tk\<close>)
  qed
next
  case False
  then have "enqueue_locked n t q =
      (if q_stopping q \<or> task_id t \<in> set (record_ids q) then (q, None)
       else (link_node n t (if \<not> q_generated_ids_exhausted q \<and> task_id t \<ge> q_next_id q
            then advance_next_id (task_id t) q else q), Some (task_id t)))"
    by (simp add: enqueue_locked_def live_id_iff find_history_locked_None record_ids_def Let_def)
  note eq = this
  show thesis
  proof (cases "q_stopping q \<or> task_id t \<in> set (record_ids q)")
    case True
    with eq assms have "p = q" "r = None" by simp_all
    then show thesis by (rule refused)
  next
    case acc: False
    show thesis by (rule given) (use False acc eq assms in simp_all)
  qed
qed

lemma link_node_fields [simp]:
  "q_all (link_node n t q) = q_all q @ [n]" "q_pending (link_node n t q) = q_pending q @ [n]"
  "q_pending_count (link_node n t q) = q_pending_count q + 1"
  "q_nodes (link_node n t q) = (q_nodes q)(n \<mapsto> \<lparr>tn_task = t, tn_control_users = 0\<rparr>)"
  "q_call_gate (link_node n t q) = q_call_gate q" "q_stopping (link_node n t q) = q_stopping q"
  "q_active (link_node n t q) = q_active q" "q_history (link_node n t q) = q_history q"
  "q_capacity (link_node n t q) = q_capacity q" "q_next_id (link_node n t q) = q_next_id q"
  "q_generated_ids_exhausted (link_node n t q) = q_generated_ids_exhausted q"
  "q_active_producers (link_node n t q) = q_active_producers q"
  by (simp_all add: link_node_def)

lemma advance_fields [simp]:
  "q_all (advance_next_id i q) = q_all q" "q_pending (advance_next_id i q) = q_pending q"
  "q_pending_count (advance_next_id i q) = q_pending_count q" "q_nodes (advance_next_id i q) = q_nodes q"
  "q_call_gate (advance_next_id i q) = q_call_gate q" "q_stopping (advance_next_id i q) = q_stopping q"
  "q_active (advance_next_id i q) = q_active q" "q_history (advance_next_id i q) = q_history q"
  "q_capacity (advance_next_id i q) = q_capacity q"
  "q_active_producers (advance_next_id i q) = q_active_producers q"
  by (simp_all add: advance_next_id_def)

lemma link_node_lists:
  assumes "lists_ok q" "q_nodes q n = None" "q_pending_count q < q_capacity q"
  shows "lists_ok (link_node n t q)"
proof -
  note l = lists_okD [OF assms(1)]
  have n: "n \<notin> set (q_all q)" using assms(2) l(2) by auto
  have "unat (q_pending_count q) < unat (q_capacity q)" using assms(3) by (simp add: word_less_nat_alt)
  then have "unat (q_pending_count q + 1) = unat (q_pending_count q) + 1"
    using unat_lt64 [of "q_capacity q"] by (simp add: unat_add64)
  then show ?thesis
    using l n \<open>unat (q_pending_count q) < unat (q_capacity q)\<close>
    by (auto simp: lists_ok_def)
qed

lemma link_node_ids:
  assumes "lists_ok q" "q_nodes q n = None"
  shows "set (record_ids (link_node n t q)) = insert (task_id t) (set (record_ids q))"
    and "distinct (record_ids (link_node n t q)) \<longleftrightarrow>
      distinct (record_ids q) \<and> task_id t \<notin> set (record_ids q)"
proof -
  have n: "n \<notin> set (q_all q)" using assms(2) lists_okD(2) [OF assms(1)] by auto
  have "live_ids (link_node n t q) = live_ids q @ [task_id t]"
    using n by (auto simp: live_ids_def node_task_def)
  then have r: "record_ids (link_node n t q) = live_ids q @ [task_id t] @ history_ids q"
    by (simp add: record_ids_def history_ids_def)
  show "set (record_ids (link_node n t q)) = insert (task_id t) (set (record_ids q))"
    unfolding r by (auto simp: record_ids_def)
  show "distinct (record_ids (link_node n t q)) \<longleftrightarrow>
      distinct (record_ids q) \<and> task_id t \<notin> set (record_ids q)"
    unfolding r by (auto simp: record_ids_def)
qed

lemma record_ids_advance [simp]: "record_ids (advance_next_id i q) = record_ids q"
  by (simp add: record_ids_def live_ids_def history_ids_def node_task_def)

lemma advance_next_bound:
  assumes "q_next_id q \<noteq> 0"
  shows "q_next_id (advance_next_id i q) \<noteq> 0"
    and "\<not> q_generated_ids_exhausted (advance_next_id i q) \<Longrightarrow>
      q_next_id (advance_next_id i q) = i + 1 \<and> i < i + 1 \<and> \<not> q_generated_ids_exhausted q"
proof -
  have nz: "i + 1 \<noteq> 0" if "i \<noteq> UINT64_MAX" using that by (metis add.commute add_eq_0_iff)
  from nz show "q_next_id (advance_next_id i q) \<noteq> 0" using assms by (simp add: advance_next_id_def)
  have "i < i + 1" if "i \<noteq> UINT64_MAX"
    using unat_succ64 [OF nz [OF that]] by (simp add: word_less_nat_alt)
  then show "q_next_id (advance_next_id i q) = i + 1 \<and> i < i + 1 \<and> \<not> q_generated_ids_exhausted q"
    if "\<not> q_generated_ids_exhausted (advance_next_id i q)"
    using that by (auto simp: advance_next_id_def split: if_splits)
qed

text \<open>
  An accepted Task is linked, its identifier is one of the records, an identifier the Queue
  generated is the next one and was below none of the earlier ones.
\<close>

lemma enqueue_ok:
  assumes "enqueue_locked n t q = (p, r)" "lists_ok q" "ids_ok q" "q_nodes q n = None"
    "q_pending_count q < q_capacity q"
  shows "lists_ok p" and "ids_ok p"
    and "set (record_ids p) = set_option r \<union> set (record_ids q)"
  using assms(1)
proof (atomize (full), cases rule: enqueue_cases)
  case refused
  then show "lists_ok p \<and> ids_ok p \<and> set (record_ids p) = set_option r \<union> set (record_ids q)"
    using assms(2,3) by simp
next
  case (generated u)
  let ?a = "advance_next_id (q_next_id q) q"
  have l: "lists_ok ?a" using assms(2) by (simp add: lists_ok_def)
  note i = ids_okD [OF assms(3)]
  have new: "q_next_id q \<notin> set (record_ids q)" using i(4) generated(2) by blast
  note link = link_node_ids [OF l, of n u, simplified, OF assms(4)]
  have "ids_ok p"
    unfolding ids_ok_def generated(6)
    using i new generated advance_next_bound [OF i(3), of "q_next_id q"] link
    by (auto intro: order.strict_trans)
  then show "lists_ok p \<and> ids_ok p \<and> set (record_ids p) = set_option r \<union> set (record_ids q)"
    using link_node_lists [OF l, of n u] assms(4,5) link generated by simp
next
  case given
  let ?a = "if \<not> q_generated_ids_exhausted q \<and> task_id t \<ge> q_next_id q
      then advance_next_id (task_id t) q else q"
  have l: "lists_ok ?a" using assms(2) by (simp add: lists_ok_def)
  note i = ids_okD [OF assms(3)]
  have recs: "record_ids ?a = record_ids q" "q_nodes ?a n = None" "q_pending_count ?a < q_capacity ?a"
    using assms(4,5) by simp_all
  note link = link_node_ids [OF l recs(2), of t, unfolded recs(1)]
  have bound: "\<forall>j \<in> set (record_ids p). j < q_next_id p" if "\<not> q_generated_ids_exhausted p"
  proof (cases "\<not> q_generated_ids_exhausted q \<and> task_id t \<ge> q_next_id q")
    case True
    then have "q_next_id p = task_id t + 1" "task_id t < task_id t + 1"
      using that advance_next_bound(2) [OF i(3), of "task_id t"] given by simp_all
    moreover have "j < task_id t + 1" if "j \<in> set (record_ids q)" for j
      using i(4) [OF _ that] True \<open>task_id t < task_id t + 1\<close> by (meson less_le_trans order.strict_trans)
    ultimately show ?thesis using link(1) given(4) by auto
  next
    case False
    then have "q_next_id p = q_next_id q" "\<not> q_generated_ids_exhausted q" "task_id t < q_next_id q"
      using that given(4) by (auto simp: not_le)
    then show ?thesis using link(1) given(4) i(4) by auto
  qed
  have "q_next_id p \<noteq> 0" using i(3) advance_next_bound(1) [OF i(3)] given(4) by simp
  then have "ids_ok p" using link given i bound by (auto simp: ids_ok_def)
  then show "lists_ok p \<and> ids_ok p \<and> set (record_ids p) = set_option r \<union> set (record_ids q)"
    using link_node_lists [OF l recs(2,3)] link given by simp
qed

end
