(* ===== verification/Queue_Selection.thy ===== *)
theory Queue_Selection
  imports Queue_Structure
begin

text \<open>
  The selection of the worker read as a scan of the waiting Tasks: what it leaves in line, what
  it dispatches, and what it cannot change.
\<close>

section \<open>Selection as a scan\<close>

lemma reserve_keeps_identity:
  assumes "task_reserve_available env telemetry t g = (u, h, a)"
  shows "task_id u = task_id t" and "tk_state u = tk_state t"
  using assms
  by (auto simp: task_reserve_available_def attach_reservation_def task_id_tk Let_def
    split: prod.splits option.splits if_splits)

text \<open>What the evaluation of a waiting Task said.\<close>

definition task_waits :: "task_admission \<Rightarrow> bool" where
  "task_waits a \<longleftrightarrow> ta_ok a \<and> rd_kind (ta_decision a) = RESOURCE_WAIT"

text \<open>
  The Governor after the evaluation of the nodes \<open>ns\<close>, when every one of them is terminal (it is
  then not evaluated) or has to wait.
\<close>

fun passed_over ::
    "(nat \<Rightarrow> environment \<times> host_telemetry) \<Rightarrow> (nat \<Rightarrow> task) \<Rightarrow> nat list \<Rightarrow> feedback_governor
      \<Rightarrow> feedback_governor option" where
  "passed_over answers tasks [] g = Some g"
| "passed_over answers tasks (n # ns) g =
     (if is_terminal (tk_state (tasks n)) then passed_over answers tasks ns g
      else case task_reserve_available (fst (answers n)) (snd (answers n)) (tasks n) g of
        (t, h, a) \<Rightarrow> if task_waits a then passed_over answers tasks ns h else None)"

definition live_nodes :: "(nat \<Rightarrow> task) \<Rightarrow> nat list \<Rightarrow> nat list" where
  "live_nodes tasks ns = filter (\<lambda>n. \<not> is_terminal (tk_state (tasks n))) ns"

text \<open>What no selection changes.\<close>

definition select_frame :: "task_queue \<Rightarrow> task_queue \<Rightarrow> bool" where
  "select_frame q p \<longleftrightarrow> q_call_gate p = q_call_gate q \<and> q_stopping p = q_stopping q
     \<and> q_active p = q_active q \<and> q_active_producers p = q_active_producers q
     \<and> q_capacity p = q_capacity q \<and> q_next_id p = q_next_id q
     \<and> q_generated_ids_exhausted p = q_generated_ids_exhausted q
     \<and> set (record_ids p) \<subseteq> set (record_ids q) \<and> set (q_all p) \<subseteq> set (q_all q)
     \<and> (\<forall>n \<in> set (q_all q). node_users q n \<noteq> 0 \<longrightarrow> n \<in> set (q_all p))
     \<and> (\<forall>n \<in> set (q_all p). node_users p n = node_users q n)"

lemma select_frame_refl [simp]: "select_frame q q"
  by (simp add: select_frame_def)

lemma select_frame_trans: "select_frame q p \<Longrightarrow> select_frame p s \<Longrightarrow> select_frame q s"
  unfolding select_frame_def by (metis (no_types, lifting) subset_iff)

lemma unlink_pending_ok:
  assumes "lists_ok q" "ids_ok q" "n \<in> set (q_pending q)"
  shows "lists_ok (unlink_pending n q)" "ids_ok (unlink_pending n q)"
    "record_ids (unlink_pending n q) = record_ids q" "select_frame q (unlink_pending n q)"
proof -
  note l = lists_okD [OF assms(1)]
  have r: "record_ids (unlink_pending n q) = record_ids q"
    by (simp add: record_ids_def live_ids_def history_ids_def)
  then show "record_ids (unlink_pending n q) = record_ids q" .
  have "unat (q_pending_count q - 1) = length (remove1 n (q_pending q))"
    using l(5) word_count_down [of "q_pending_count q"] length_pos_if_in_set [OF assms(3)]
    by (simp add: length_remove1 assms(3))
  then show "lists_ok (unlink_pending n q)"
    unfolding lists_ok_def
    using l set_remove1_subset [of n "q_pending q"]
    by (auto simp: length_remove1)
  show "ids_ok (unlink_pending n q)" using assms(2) r by (simp add: ids_ok_def)
  show "select_frame q (unlink_pending n q)" by (simp add: select_frame_def r)
qed

lemma retire_frame:
  assumes "retire_terminal_locked n retain q = (p, r)" "lists_ok q" "ids_ok q" "n \<in> set (q_all q)"
  shows "select_frame q p"
proof (cases r)
  case None
  with assms(1) show ?thesis using retire_None by fastforce
next
  case (Some m)
  note f = retire_Some [OF assms(1) [unfolded Some]]
  show ?thesis
    using f(2) retire_ok [OF assms] set_remove1_eq [OF lists_okD(1) [OF assms(2)], of n]
    by (auto simp: select_frame_def f retires_def node_users_def)
qed

lemma set_task_frame:
  assumes "lists_ok q" "task_id t = task_id (node_task q n)"
  shows "select_frame q (set_node_task n t q)"
proof -
  have "live_ids (set_node_task n t q) = live_ids q"
    using assms(2) by (auto simp: live_ids_def)
  then show ?thesis by (simp add: select_frame_def record_ids_def history_ids_def)
qed

text \<open>The nodes of the rest of the scan keep their Tasks.\<close>

lemma retire_tasks:
  "retire_terminal_locked n retain q = (p, r) \<Longrightarrow> m \<noteq> n \<Longrightarrow> node_task p m = node_task q m"
  by (cases r) (auto dest: retire_None simp: node_task_def dest!: retire_Some(5))

lemma retire_pending:
  "retire_terminal_locked n retain (unlink_pending n q) = (p, r) \<Longrightarrow> distinct (q_pending q) \<Longrightarrow>
    q_pending p = remove1 n (q_pending q)"
  by (cases r) (auto dest: retire_None retire_Some(3) simp: remove1_idem)

text \<open>The outcome of a scan of \<open>ns\<close> after the nodes \<open>before\<close> were passed over.\<close>

definition scan_outcome ::
    "(nat \<Rightarrow> environment \<times> host_telemetry) \<Rightarrow> (nat \<Rightarrow> task) \<Rightarrow> nat list \<Rightarrow> nat list \<Rightarrow> feedback_governor
      \<Rightarrow> nat list \<Rightarrow> feedback_governor \<Rightarrow> selection_result \<Rightarrow> bool" where
  "scan_outcome answers tasks before ns g pending h r \<longleftrightarrow>
     (case sel_node r of
        None \<Rightarrow> pending = before @ live_nodes tasks ns \<and> passed_over answers tasks ns g = Some h
      | Some n \<Rightarrow> \<exists>xs ys g1 t a. ns = xs @ n # ys \<and> pending = before @ live_nodes tasks xs @ ys
          \<and> passed_over answers tasks xs g = Some g1 \<and> \<not> is_terminal (tk_state (tasks n))
          \<and> task_reserve_available (fst (answers n)) (snd (answers n)) (tasks n) g1 = (t, h, a)
          \<and> \<not> task_waits a
          \<and> (sel_reject r \<longleftrightarrow> \<not> (ta_ok a \<and> rd_kind (ta_decision a) \<noteq> RESOURCE_REJECT \<and> ta_reservation a \<noteq> None))
          \<and> (\<not> sel_reject r \<longrightarrow> sel_reservation r = ta_reservation a))"

lemma scan_outcome_terminal:
  assumes "is_terminal (tk_state (tasks n))" "scan_outcome answers tasks before ns g pending h r"
  shows "scan_outcome answers tasks before (n # ns) g pending h r"
proof (cases "sel_node r")
  case None
  with assms show ?thesis by (simp add: scan_outcome_def live_nodes_def)
next
  case (Some m)
  with assms(2) obtain xs ys g1 t a where
    "ns = xs @ m # ys \<and> pending = before @ live_nodes tasks xs @ ys
      \<and> passed_over answers tasks xs g = Some g1 \<and> \<not> is_terminal (tk_state (tasks m))
      \<and> task_reserve_available (fst (answers m)) (snd (answers m)) (tasks m) g1 = (t, h, a)
      \<and> \<not> task_waits a
      \<and> (sel_reject r \<longleftrightarrow> \<not> (ta_ok a \<and> rd_kind (ta_decision a) \<noteq> RESOURCE_REJECT \<and> ta_reservation a \<noteq> None))
      \<and> (\<not> sel_reject r \<longrightarrow> sel_reservation r = ta_reservation a)"
    unfolding scan_outcome_def Some option.case by blast
  then show ?thesis
    unfolding scan_outcome_def Some option.case
    by (intro exI [of _ "n # xs"] exI [of _ ys] exI [of _ g1] exI [of _ t] exI [of _ a])
      (use assms(1) in \<open>simp add: live_nodes_def\<close>)
qed

lemma scan_outcome_waits:
  assumes "\<not> is_terminal (tk_state (tasks n))"
    "task_reserve_available (fst (answers n)) (snd (answers n)) (tasks n) g = (u, g', b)" "task_waits b"
    "scan_outcome answers tasks (before @ [n]) ns g' pending h r"
  shows "scan_outcome answers tasks before (n # ns) g pending h r"
proof (cases "sel_node r")
  case None
  with assms show ?thesis by (simp add: scan_outcome_def live_nodes_def)
next
  case (Some m)
  with assms(4) obtain xs ys g1 t a where
    "ns = xs @ m # ys \<and> pending = (before @ [n]) @ live_nodes tasks xs @ ys
      \<and> passed_over answers tasks xs g' = Some g1 \<and> \<not> is_terminal (tk_state (tasks m))
      \<and> task_reserve_available (fst (answers m)) (snd (answers m)) (tasks m) g1 = (t, h, a)
      \<and> \<not> task_waits a
      \<and> (sel_reject r \<longleftrightarrow> \<not> (ta_ok a \<and> rd_kind (ta_decision a) \<noteq> RESOURCE_REJECT \<and> ta_reservation a \<noteq> None))
      \<and> (\<not> sel_reject r \<longrightarrow> sel_reservation r = ta_reservation a)"
    unfolding scan_outcome_def Some option.case by blast
  then show ?thesis
    unfolding scan_outcome_def Some option.case
    by (intro exI [of _ "n # xs"] exI [of _ ys] exI [of _ g1] exI [of _ t] exI [of _ a])
      (use assms(1-3) in \<open>simp add: live_nodes_def\<close>)
qed

lemma select_scan:
  assumes "select_admissible answers ns waiting retired q g = (p, h, r)"
    and "q_pending q = before @ ns" "lists_ok q" "ids_ok q" "q_active q = None"
    and "\<And>n. n \<in> set ns \<Longrightarrow> node_task q n = tasks n"
  shows "lists_ok p \<and> ids_ok p \<and> select_frame q p \<and> scan_outcome answers tasks before ns g (q_pending p) h r
    \<and> (\<forall>n. sel_node r = Some n \<longrightarrow> n \<in> set (q_all p))"
  using assms
proof (induction ns arbitrary: before waiting retired q g)
  case Nil
  then show ?case by (auto simp: scan_outcome_def live_nodes_def)
next
  case (Cons n ns)
  note l = lists_okD [OF Cons.prems(3)]
  have n: "n \<in> set (q_pending q)" "n \<in> set (q_all q)" "n \<notin> set ns" "n \<notin> set before"
    "node_task q n = tasks n"
    using l(3,4) Cons.prems(2,6) by auto
  have pend: "remove1 n (q_pending q) = before @ ns"
    using n(4) by (simp add: Cons.prems(2) remove1_append)
  show ?case
  proof (cases "is_terminal (tk_state (tasks n))")
    case True
    obtain q1 m where ret: "retire_terminal_locked n True (unlink_pending n q) = (q1, m)" by fastforce
    note u = unlink_pending_ok [OF Cons.prems(3,4) n(1)]
    have q1: "lists_ok q1" "ids_ok q1" using retire_ok [OF ret u(1,2)] n(2) by auto
    have fr: "select_frame q q1"
      using retire_frame [OF ret u(1,2)] n(2) u(4) select_frame_trans by auto
    have "q_pending q1 = before @ ns" using retire_pending [OF ret l(3)] pend by simp
    moreover have "select_admissible answers ns waiting (case m of None \<Rightarrow> retired | Some m \<Rightarrow> m # retired) q1 g
        = (p, h, r)"
      using Cons.prems(1) True n(5) ret by (simp add: task_snapshot_of_def)
    moreover have "q_active q1 = None" using fr Cons.prems(5) by (simp add: select_frame_def)
    moreover have "node_task q1 k = tasks k" if "k \<in> set ns" for k
    proof -
      have "k \<noteq> n" using that n(3) by auto
      with retire_tasks [OF ret this] Cons.prems(6) that show ?thesis by simp
    qed
    ultimately show ?thesis
      using Cons.IH [where q = q1 and before = before] q1 select_frame_trans [OF fr] scan_outcome_terminal [where n = n and tasks = tasks, OF True] by blast
  next
    case False
    obtain t g1 a where rsv: "task_reserve_available (fst (answers n)) (snd (answers n)) (tasks n) g = (t, g1, a)"
      by (cases "task_reserve_available (fst (answers n)) (snd (answers n)) (tasks n) g") auto
    let ?q = "set_node_task n t q"
    have same: "task_id t = task_id (node_task q n)" using reserve_keeps_identity(1) [OF rsv] n(5) by simp
    have ok: "lists_ok ?q" "ids_ok ?q"
      using same_records_ok [OF same_records_set_task [OF same] Cons.prems(3,4)] by simp_all
    have fr: "select_frame q ?q" by (rule set_task_frame [OF Cons.prems(3) same])
    have n': "n \<in> set (q_pending ?q)" using n(1) by simp
    note u = unlink_pending_ok [OF ok n']
    note run = Cons.prems(1) [unfolded select_admissible.simps, simplified n(5) rsv]
    show ?thesis
    proof (cases "task_waits a")
      case True
      have "select_admissible answers ns True retired ?q g1 = (p, h, r)"
        using run False True by (simp add: task_waits_def task_snapshot_of_def Let_def)
      moreover have "q_pending ?q = (before @ [n]) @ ns" by (simp add: Cons.prems(2))
      moreover have "q_active ?q = None" by (simp add: Cons.prems(5))
      moreover have "node_task ?q k = tasks k" if "k \<in> set ns" for k
        using that n(3) Cons.prems(6) by auto
      ultimately show ?thesis
        using Cons.IH [where q = ?q and before = "before @ [n]"] ok select_frame_trans [OF fr]
          scan_outcome_waits [where n = n and tasks = tasks and answers = answers, OF False rsv True] by blast
    next
      case stop: False
      have res: "p = unlink_pending n ?q" "h = g1" "sel_node r = Some n"
        "sel_reject r \<longleftrightarrow> \<not> (ta_ok a \<and> rd_kind (ta_decision a) \<noteq> RESOURCE_REJECT \<and> ta_reservation a \<noteq> None)"
        "\<not> sel_reject r \<longrightarrow> sel_reservation r = ta_reservation a"
        using run False stop by (auto simp: task_waits_def task_snapshot_of_def Let_def split: if_splits)
      have "scan_outcome answers tasks before (n # ns) g (q_pending p) h r"
        unfolding scan_outcome_def res(3) option.case
        by (intro exI [of _ "[]"] exI [of _ ns] exI [of _ g] exI [of _ t] exI [of _ a])
          (use False stop rsv pend res in \<open>simp add: live_nodes_def\<close>)
      then show ?thesis using u select_frame_trans [OF fr u(4)] res(1,3) n(2) by simp
    qed
  qed
qed

end
