(* ===== verification/Queue_Safety.thy ===== *)
theory Queue_Safety
  imports Queue_Selection
begin

text \<open>
  The invariant of every reachable world of the Queue: its lists, counts and identifiers, which
  node is in use by whom, and the call gate's account of the calls in flight.
\<close>

section \<open>The call gate as a count and a bit\<close>

lemma bit63: "bit (g :: 64 word) 63 \<longleftrightarrow> 9223372036854775808 \<le> unat g"
proof -
  have "bit g 63 \<longleftrightarrow> odd (unat g div 9223372036854775808)"
  proof -
    have "bit g 63 \<longleftrightarrow> bit (unat g) 63" by (simp add: bit_unsigned_iff)
    then show ?thesis by (simp add: bit_iff_odd [where 'a = nat])
  qed
  moreover have "unat g div 9223372036854775808 < 2"
    using unat_lt64 [of g] by (simp add: div_less_iff_less_mult)
  then have "odd (unat g div 9223372036854775808) \<longleftrightarrow> unat g div 9223372036854775808 = 1"
    by (auto dest: less_2_cases)
  moreover have "unat g div 9223372036854775808 = 1 \<longleftrightarrow> 9223372036854775808 \<le> unat g"
    using \<open>unat g div 9223372036854775808 < 2\<close> by linarith
  ultimately show ?thesis by simp
qed

lemma closing_bit: "(g AND CALL_GATE_CLOSING = 0) \<longleftrightarrow> unat g < 9223372036854775808"
proof -
  have "bit CALL_GATE_CLOSING n \<longleftrightarrow> n = 63" for n
    unfolding CALL_GATE_CLOSING_def bit_push_bit_iff bit_1_iff by auto
  then have bits: "bit (g AND CALL_GATE_CLOSING) n \<longleftrightarrow> bit g 63 \<and> n = 63" for n
    by (auto simp: bit_and_iff)
  have "(g AND CALL_GATE_CLOSING = 0) \<longleftrightarrow> \<not> bit g 63"
  proof
    assume "g AND CALL_GATE_CLOSING = 0"
    then have "\<not> bit (g AND CALL_GATE_CLOSING) 63" by simp
    then show "\<not> bit g 63" by (simp only: bits) simp
  next
    assume "\<not> bit g 63"
    then show "g AND CALL_GATE_CLOSING = 0" by (intro bit_eqI) (simp only: bits bit_0_eq, simp)
  qed
  then show ?thesis by (simp add: bit63 not_le)
qed

lemma gate_references: "unat (call_gate_references g) = unat g mod 9223372036854775808"
proof -
  have "CALL_GATE_REFERENCES = mask 63"
    by (simp add: CALL_GATE_REFERENCES_def CALL_GATE_CLOSING_def mask_eq_exp_minus_1 push_bit_eq_mult)
  then have "call_gate_references g = take_bit 63 g"
    by (simp add: call_gate_references_def take_bit_eq_mask)
  then have "unat (call_gate_references g) = take_bit 63 (unat g)" by (simp only: unsigned_take_bit_eq)
  then show ?thesis by (simp add: take_bit_eq_mod)
qed

lemma gate_close: "unat g < 9223372036854775808 \<Longrightarrow> unat (g OR CALL_GATE_CLOSING) = unat g + 9223372036854775808"
proof -
  assume "unat g < 9223372036854775808"
  then have "g AND CALL_GATE_CLOSING = 0" by (simp add: closing_bit)
  then have "g OR CALL_GATE_CLOSING = g + CALL_GATE_CLOSING" using word_plus_and_or [of g CALL_GATE_CLOSING] by simp
  moreover have "unat CALL_GATE_CLOSING = 9223372036854775808"
    by (simp add: CALL_GATE_CLOSING_def push_bit_eq_mult)
  ultimately show ?thesis using \<open>unat g < _\<close> by (simp add: unat_add64)
qed

text \<open>The gate counts \<open>k\<close> calls; its high bit is set once closed.\<close>

definition gate_counts :: "task_queue \<Rightarrow> nat \<Rightarrow> bool \<Rightarrow> bool" where
  "gate_counts q k shut \<longleftrightarrow> k < 9223372036854775808
     \<and> unat (q_call_gate q) = k + (if shut then 9223372036854775808 else 0)"

lemma gate_register:
  assumes "register_call q = (p, True)" "gate_counts q k shut"
  shows "\<not> shut" and "p = q\<lparr>q_call_gate := q_call_gate q + 1\<rparr>" and "gate_counts p (Suc k) False"
proof -
  have "q_call_gate q AND CALL_GATE_CLOSING = 0" "call_gate_references (q_call_gate q) \<noteq> CALL_GATE_REFERENCES"
    and p: "p = q\<lparr>q_call_gate := q_call_gate q + 1\<rparr>"
    using assms(1) by (auto simp: register_call_def Let_def split: if_splits)
  then show open_: "\<not> shut" and "p = q\<lparr>q_call_gate := q_call_gate q + 1\<rparr>"
    using assms(2) by (auto simp: closing_bit gate_counts_def)
  have "unat CALL_GATE_REFERENCES = 9223372036854775807"
    by (simp add: CALL_GATE_REFERENCES_def CALL_GATE_CLOSING_def push_bit_eq_mult)
  moreover have "unat (call_gate_references (q_call_gate q)) \<noteq> unat CALL_GATE_REFERENCES"
    using \<open>call_gate_references (q_call_gate q) \<noteq> CALL_GATE_REFERENCES\<close> by (simp only: word_unat_eq_iff not_False_eq_True)
  ultimately have "k \<noteq> 9223372036854775807"
    using assms(2) open_ by (simp add: gate_references gate_counts_def)
  then show "gate_counts p (Suc k) False"
    using assms(2) open_ by (simp add: gate_counts_def p unat_add64)
qed

lemma gate_release:
  assumes "gate_counts q (Suc k) shut"
  shows "gate_counts (release_call_locked q) k shut" "gate_counts (end_call_locked q) k shut"
  using assms word_count_down [of "q_call_gate q"]
  by (auto simp: gate_counts_def release_call_locked_def end_call_locked_def)

lemma gate_closing:
  assumes "close_gate q = (p, True)" "gate_counts q k shut"
  shows "\<not> shut" "p = q\<lparr>q_call_gate := q_call_gate p\<rparr>" "gate_counts p k True"
  using assms gate_close [of "q_call_gate q"]
  by (auto simp: close_gate_def Let_def gate_counts_def closing_bit split: if_splits)

lemma gate_drained:
  assumes "gate_counts q k shut"
  shows "destroy_may_proceed q \<longleftrightarrow> k = 0 \<and> q_active_producers q = 0"
  using assms
  by (auto simp: destroy_may_proceed_def gate_counts_def gate_references simp flip: unat_eq_0)

section \<open>What the sections of a call change\<close>

definition core_frame :: "task_queue \<Rightarrow> task_queue \<Rightarrow> bool" where
  "core_frame q p \<longleftrightarrow> select_frame q (p\<lparr>q_call_gate := q_call_gate q,
     q_active_producers := q_active_producers q\<rparr>)"

lemma node_users_gate [simp]:
  "node_users (q\<lparr>q_call_gate := x\<rparr>) = node_users q" "node_users (q\<lparr>q_active_producers := y\<rparr>) = node_users q"
  "node_users (q\<lparr>q_stopping := b\<rparr>) = node_users q" "node_users (q\<lparr>q_active := a\<rparr>) = node_users q"
  by (simp_all add: node_users_def fun_eq_iff)

lemma record_ids_gate [simp]:
  "record_ids (q\<lparr>q_call_gate := x\<rparr>) = record_ids q" "record_ids (q\<lparr>q_active_producers := y\<rparr>) = record_ids q"
  "record_ids (q\<lparr>q_stopping := b\<rparr>) = record_ids q" "record_ids (q\<lparr>q_active := a\<rparr>) = record_ids q"
  by (simp_all add: record_ids_def live_ids_def history_ids_def node_task_def)

lemma core_frameD:
  assumes "core_frame q p"
  shows "q_stopping p = q_stopping q" "q_active p = q_active q" "q_capacity p = q_capacity q"
    "q_next_id p = q_next_id q" "q_generated_ids_exhausted p = q_generated_ids_exhausted q"
    "set (record_ids p) \<subseteq> set (record_ids q)" "set (q_all p) \<subseteq> set (q_all q)"
    "n \<in> set (q_all q) \<Longrightarrow> node_users q n \<noteq> 0 \<Longrightarrow> n \<in> set (q_all p)"
    "n \<in> set (q_all p) \<Longrightarrow> node_users p n = node_users q n"
  using assms by (simp_all add: core_frame_def select_frame_def)

lemma core_frameI:
  assumes "select_frame q p"
  shows "core_frame q p" "core_frame q (end_call_locked p)" "core_frame q (release_call_locked p)"
    "core_frame q (add_register p)" "core_frame q (p\<lparr>q_call_gate := x\<rparr>)"
  using assms
  by (simp_all add: core_frame_def select_frame_def end_call_locked_def release_call_locked_def
    add_register_def)

lemma select_frame_gate: "select_frame q p \<Longrightarrow> gate_counts p = gate_counts q"
  by (simp add: select_frame_def gate_counts_def fun_eq_iff)

lemma gate_fields [simp]:
  "q_active_producers (end_call_locked q) = q_active_producers q"
  "q_active_producers (release_call_locked q) = q_active_producers q"
  "q_nodes (end_call_locked q) = q_nodes q" "q_nodes (release_call_locked q) = q_nodes q"
  "q_nodes (add_register q) = q_nodes q"
  "q_active_producers (add_register q) = Suc (q_active_producers q)"
  "q_call_gate (add_register q) = q_call_gate q"
  "q_all (end_call_locked q) = q_all q" "q_all (release_call_locked q) = q_all q"
  "q_pending (end_call_locked q) = q_pending q" "q_pending (release_call_locked q) = q_pending q"
  "q_stopping (end_call_locked q) = q_stopping q" "q_stopping (release_call_locked q) = q_stopping q"
  "q_active (end_call_locked q) = q_active q" "q_capacity (end_call_locked q) = q_capacity q"
  "node_users (end_call_locked q) = node_users q"
  by (simp_all add: end_call_locked_def release_call_locked_def add_register_def node_users_def fun_eq_iff)

lemma end_call_ok:
  assumes "lists_ok q" "ids_ok q"
  shows "lists_ok (end_call_locked q)" "ids_ok (end_call_locked q)"
    "lists_ok (release_call_locked q)" "ids_ok (release_call_locked q)"
    "lists_ok (add_register q)" "ids_ok (add_register q)"
  by (rule same_records_ok [OF _ assms]; simp add: end_call_locked_def release_call_locked_def add_register_def)+

lemma task_pause_id: "task_pause t = (u, b) \<Longrightarrow> task_id u = task_id t"
  by (auto simp: task_pause_def task_id_tk set_message_def Let_def split: if_splits)

lemma task_resume_id: "task_resume t = (u, b) \<Longrightarrow> task_id u = task_id t"
  by (auto simp: task_resume_def task_id_tk set_message_def Let_def split: if_splits)

lemma set_task_ok:
  assumes "lists_ok q" "ids_ok q" "task_id t = task_id (node_task q n)"
  shows "lists_ok (set_node_task n t q)" "ids_ok (set_node_task n t q)" "select_frame q (set_node_task n t q)"
  using same_records_ok [OF same_records_set_task [OF assms(3)] assms(1,2)] set_task_frame [OF assms(1,3)]
  by simp_all

lemma pause_section:
  assumes "pause_locked i q = (p, b) \<or> resume_locked i q = (p, b)" "lists_ok q" "ids_ok q"
  shows "\<exists>q1. p = end_call_locked q1 \<and> lists_ok q1 \<and> ids_ok q1 \<and> select_frame q q1"
  using assms set_task_ok [OF assms(2,3)]
  by (fastforce simp: pause_locked_def resume_locked_def split: option.splits prod.splits
    dest: task_pause_id task_resume_id)

lemma remove_history_ok:
  assumes "lists_ok q" "ids_ok q"
  shows "lists_ok (remove_history_locked k q)" "ids_ok (remove_history_locked k q)"
    "select_frame q (remove_history_locked k q)"
proof -
  let ?h = "q_history q" and ?p = "remove_history_locked k q"
  have split: "map ts_id ?h = map ts_id (take k ?h) @ map ts_id (drop k ?h)"
    by (simp flip: map_append)
  have sub: "set (drop (k + 1) (map ts_id ?h)) \<subseteq> set (drop k (map ts_id ?h))"
    using set_drop_subset [of 1 "drop k (map ts_id ?h)"] by (simp add: drop_map add.commute)
  have ids: "history_ids ?p = take k (history_ids q) @ drop (k + 1) (history_ids q)" "live_ids ?p = live_ids q"
    by (simp_all add: history_ids_def live_ids_def remove_history_locked_def node_task_def take_map drop_map)
  have d: "distinct (history_ids q)" "set (take k (history_ids q)) \<inter> set (drop k (history_ids q)) = {}"
    using ids_okD(1) [OF assms(2)]
    by (auto simp: record_ids_def) (metis append_take_drop_id disjoint_iff distinct_append)
  have s: "set (history_ids ?p) \<subseteq> set (history_ids q)"
    unfolding ids by (auto dest: in_set_takeD in_set_dropD)
  have "set (drop (k + 1) (history_ids q)) \<subseteq> set (drop k (history_ids q))"
    using sub by (simp add: history_ids_def)
  then have "distinct (history_ids ?p)"
    unfolding ids using d by (auto simp: distinct_drop distinct_take)
  then have dist: "distinct (record_ids ?p)"
    using ids_okD(1) [OF assms(2)] s by (auto simp: record_ids_def ids(2))
  show "lists_ok ?p"
    using assms(1) by (auto simp: lists_ok_def remove_history_locked_def)
  have sub': "set (record_ids ?p) \<subseteq> set (record_ids q)" using s by (auto simp: record_ids_def ids(2))
  have f: "q_next_id ?p = q_next_id q" "q_generated_ids_exhausted ?p = q_generated_ids_exhausted q"
    "q_all ?p = q_all q" "q_call_gate ?p = q_call_gate q" "q_stopping ?p = q_stopping q"
    "q_active ?p = q_active q" "q_active_producers ?p = q_active_producers q"
    "q_capacity ?p = q_capacity q" "node_users ?p = node_users q"
    by (simp_all add: remove_history_locked_def node_users_def fun_eq_iff)
  show "ids_ok ?p" unfolding ids_ok_def f using ids_okD [OF assms(2)] dist sub' by blast
  show "select_frame q ?p" using sub' by (simp add: select_frame_def f)
qed

lemma remove_section:
  assumes "remove_pass i q = (p, r)" "lists_ok q" "ids_ok q"
  shows "\<exists>q1. lists_ok q1 \<and> ids_ok q1 \<and> select_frame q q1
    \<and> p = (case r of REMOVE_ANSWER b \<Rightarrow> end_call_locked q1 | _ \<Rightarrow> q1)"
proof (cases "find_live_locked q i")
  case None
  show ?thesis
  proof (cases "find_history_locked q i")
    case None
    with \<open>find_live_locked q i = None\<close> assms show ?thesis
      by (intro exI [of _ q]) (auto simp: remove_pass_def)
  next
    case (Some k)
    with None assms remove_history_ok [OF assms(2,3)] show ?thesis
      by (intro exI [of _ "remove_history_locked k q"]) (auto simp: remove_pass_def)
  qed
next
  case (Some n)
  then have n: "n \<in> set (q_all q)" by (auto simp: find_live_locked_def dest: find_Some_member)
  obtain q1 m where ret: "retire_terminal_locked n False q = (q1, m)" by fastforce
  note ok = retire_ok [OF ret assms(2,3) n] retire_frame [OF ret assms(2,3) n]
  show ?thesis
    using assms Some ret ok
    by (auto simp: remove_pass_def split: if_splits option.splits)
qed

section \<open>The invariant\<close>

definition in_flight :: "queue_world \<Rightarrow> nat" where
  "in_flight w = qw_entering w + length (qw_adding w) + length (qw_cancelling w)
     + length (qw_removing w) + qw_leaving w"

definition drained :: "queue_destroyer \<Rightarrow> bool" where
  "drained d \<longleftrightarrow> d = QD_PINNED \<or> d = QD_UNPINNED \<or> d = QD_DONE"

definition worker_node :: "queue_worker \<Rightarrow> nat option" where
  "worker_node x = (case x of QW_RUNNING n \<Rightarrow> Some n | _ \<Rightarrow> None)"

text \<open>An identifier the Queue generated is new to all that it accepted before.\<close>

definition log_ok :: "(u64 \<times> bool) list \<Rightarrow> bool" where
  "log_ok entries \<longleftrightarrow> (\<forall>later i earlier. entries = later @ (i, True) # earlier \<longrightarrow> i \<noteq> 0 \<and> i \<notin> fst ` set earlier)"

text \<open>The data: lists, identifiers, and the log of the identifiers accepted.\<close>

definition data_inv :: "queue_world \<Rightarrow> bool" where
  "data_inv w \<longleftrightarrow> lists_ok (qw_queue w) \<and> ids_ok (qw_queue w) \<and> log_ok (qw_log w)
     \<and> set (record_ids (qw_queue w)) \<subseteq> fst ` set (qw_log w)
     \<and> (\<not> q_generated_ids_exhausted (qw_queue w) \<longrightarrow>
         (\<forall>i \<in> fst ` set (qw_log w). i < q_next_id (qw_queue w)))"

text \<open>The protocol: who uses which node, and what the gate and the destroying thread know.\<close>

definition protocol_inv :: "queue_world \<Rightarrow> bool" where
  "protocol_inv w \<longleftrightarrow>
     gate_counts (qw_queue w) (in_flight w) (qw_destroyer w \<noteq> QD_NONE)
     \<and> q_active_producers (qw_queue w) = length (qw_adding w)
     \<and> q_active (qw_queue w) = worker_node (qw_worker w)
     \<and> (\<forall>n \<in> set (q_all (qw_queue w)). node_users (qw_queue w) n
         = count_list (qw_cancelling w) n + (if qw_destroyer w = QD_PINNED then 1 else 0))
     \<and> set (qw_cancelling w) \<subseteq> set (q_all (qw_queue w))
     \<and> (q_stopping (qw_queue w) \<longleftrightarrow> qw_destroyer w \<noteq> QD_NONE \<and> qw_destroyer w \<noteq> QD_CLOSED)
     \<and> (qw_worker w = QW_EXITED \<longrightarrow> q_stopping (qw_queue w))
     \<and> (drained (qw_destroyer w) \<longrightarrow> in_flight w = 0)
     \<and> (qw_destroyer w = QD_DONE \<longrightarrow> qw_worker w = QW_EXITED \<and> q_all (qw_queue w) = [])
     \<and> (\<forall>(n, t) \<in> set (qw_adding w). q_nodes (qw_queue w) n = None) \<and> distinct (map fst (qw_adding w))"

lemma protocolD:
  assumes "protocol_inv w"
  shows "gate_counts (qw_queue w) (in_flight w) (qw_destroyer w \<noteq> QD_NONE)"
    and "q_active_producers (qw_queue w) = length (qw_adding w)"
    and "q_active (qw_queue w) = worker_node (qw_worker w)"
    and "n \<in> set (q_all (qw_queue w)) \<Longrightarrow> node_users (qw_queue w) n
         = count_list (qw_cancelling w) n + (if qw_destroyer w = QD_PINNED then 1 else 0)"
    and "set (qw_cancelling w) \<subseteq> set (q_all (qw_queue w))"
    and "q_stopping (qw_queue w) \<longleftrightarrow> qw_destroyer w \<noteq> QD_NONE \<and> qw_destroyer w \<noteq> QD_CLOSED"
    and "qw_worker w = QW_EXITED \<Longrightarrow> q_stopping (qw_queue w)"
    and "drained (qw_destroyer w) \<Longrightarrow> in_flight w = 0"
    and "qw_destroyer w = QD_DONE \<Longrightarrow> qw_worker w = QW_EXITED \<and> q_all (qw_queue w) = []"
    and "(n, t) \<in> set (qw_adding w) \<Longrightarrow> q_nodes (qw_queue w) n = None"
    and "distinct (map fst (qw_adding w))"
  using assms by (auto simp: protocol_inv_def)

text \<open>A section that only retires, unlinks and reads keeps both, when its call is accounted for.\<close>

lemma data_frame:
  assumes "data_inv w" "lists_ok (qw_queue v)" "ids_ok (qw_queue v)" "core_frame (qw_queue w) (qw_queue v)"
    "qw_log v = qw_log w"
  shows "data_inv v"
  using assms(1-3,5) core_frameD [OF assms(4)] by (auto simp: data_inv_def)

lemma protocol_frame:
  assumes inv: "protocol_inv w" and frame: "core_frame (qw_queue w) (qw_queue v)"
    and ok: "lists_ok (qw_queue w)" "lists_ok (qw_queue v)"
    and same: "qw_worker v = qw_worker w" "qw_destroyer v = qw_destroyer w"
      "qw_cancelling v = qw_cancelling w"
    and gate: "gate_counts (qw_queue v) (in_flight v) (qw_destroyer w \<noteq> QD_NONE)"
    and producers: "q_active_producers (qw_queue v) = length (qw_adding v)"
    and drained: "drained (qw_destroyer w) \<Longrightarrow> in_flight v = 0"
    and adding: "\<And>n t. (n, t) \<in> set (qw_adding v) \<Longrightarrow> q_nodes (qw_queue w) n = None"
      "distinct (map fst (qw_adding v))"
  shows "protocol_inv v"
proof -
  note i = protocolD [OF inv] and f = core_frameD [OF frame]
  have none: "q_nodes (qw_queue v) n = None" if "(n, t) \<in> set (qw_adding v)" for n t
    using adding(1) [OF that] f(7) lists_okD(2) [OF ok(1)] lists_okD(2) [OF ok(2)]
    by (metis domIff subsetD)
  have canc: "set (qw_cancelling w) \<subseteq> set (q_all (qw_queue v))"
  proof
    fix n assume n: "n \<in> set (qw_cancelling w)"
    then have "n \<in> set (q_all (qw_queue w))" using i(5) by blast
    moreover from this n have "node_users (qw_queue w) n \<noteq> 0"
      using i(4) by (simp add: count_list_0_iff)
    ultimately show "n \<in> set (q_all (qw_queue v))" by (rule f(8))
  qed
  have all: "q_all (qw_queue w) = [] \<Longrightarrow> q_all (qw_queue v) = []" using f(7) by simp
  show ?thesis
    unfolding protocol_inv_def same f(1,2)
    using i(3-7,9) f(7,9) gate producers drained none canc adding(2) all
    by (auto simp: subset_iff)
qed

section \<open>Accepting a Task\<close>

lemma enqueue_effect:
  assumes "enqueue_locked n t q = (p, r)"
  shows "q_call_gate p = q_call_gate q" "q_active_producers p = q_active_producers q"
    "q_stopping p = q_stopping q" "q_active p = q_active q"
    "q_all p = (if r = None then q_all q else q_all q @ [n])"
    "q_pending p = (if r = None then q_pending q else q_pending q @ [n])"
    "m \<noteq> n \<Longrightarrow> q_nodes p m = q_nodes q m" "r \<noteq> None \<Longrightarrow> node_users p n = 0"
    "q_capacity p = q_capacity q" "r = None \<Longrightarrow> p = q"
  using assms by (cases rule: enqueue_cases; simp add: node_users_def; fail)+

lemma enqueue_next:
  assumes "enqueue_locked n t q = (p, Some i)" "ids_ok q"
  shows "i \<noteq> 0" "task_id t = 0 \<Longrightarrow> \<not> q_generated_ids_exhausted q \<and> i = q_next_id q"
    and "\<not> q_generated_ids_exhausted p \<Longrightarrow>
      \<not> q_generated_ids_exhausted q \<and> q_next_id q \<le> q_next_id p \<and> i < q_next_id p"
proof -
  note next_nz = ids_okD(3) [OF assms(2)]
  show "i \<noteq> 0" and "task_id t = 0 \<Longrightarrow> \<not> q_generated_ids_exhausted q \<and> i = q_next_id q"
    using assms(1) by (cases rule: enqueue_cases; simp)+
  show "\<not> q_generated_ids_exhausted q \<and> q_next_id q \<le> q_next_id p \<and> i < q_next_id p"
    if "\<not> q_generated_ids_exhausted p"
    using assms(1)
  proof (cases rule: enqueue_cases)
    case (generated u)
    with that advance_next_bound(2) [OF next_nz, of "q_next_id q"] show ?thesis
      by (simp add: less_imp_le)
  next
    case given
    show ?thesis
    proof (cases "\<not> q_generated_ids_exhausted q \<and> task_id t \<ge> q_next_id q")
      case True
      with that given advance_next_bound(2) [OF next_nz, of "task_id t"] show ?thesis
        by simp (meson order.strict_trans1 less_imp_le)
    next
      case False
      with that given show ?thesis by (auto simp: not_le)
    qed
  qed (simp add: assms)
qed

lemma log_ok_Cons:
  assumes "log_ok entries" "generated \<Longrightarrow> i \<noteq> 0 \<and> i \<notin> fst ` set entries"
  shows "log_ok ((i, generated) # entries)"
  unfolding log_ok_def
proof (intro allI impI)
  fix later j earlier assume eq: "(i, generated) # entries = later @ (j, True) # earlier"
  show "j \<noteq> 0 \<and> j \<notin> fst ` set earlier"
  proof (cases later)
    case Nil
    with eq assms(2) show ?thesis by auto
  next
    case (Cons e later')
    with eq assms(1) show ?thesis by (auto simp: log_ok_def)
  qed
qed

text \<open>The Queue of \<open>v\<close> is that of \<open>w\<close> after an ingress by a call of its own.\<close>

lemma ingress_inv:
  assumes data: "data_inv w" and prot: "protocol_inv w"
    and q: "q = (qw_queue w)\<lparr>q_active_producers := k\<rparr>"
    and run: "enqueue_locked n t q = (p, r)"
    and fresh: "q_nodes (qw_queue w) n = None" and room: "r \<noteq> None \<Longrightarrow> q_pending_count q < q_capacity q"
    and v: "qw_queue v = end_call_locked p" "qw_worker v = qw_worker w"
      "qw_destroyer v = qw_destroyer w" "qw_cancelling v = qw_cancelling w"
      "qw_log v = (case r of None \<Rightarrow> qw_log w | Some i \<Rightarrow> (i, task_id t = 0) # qw_log w)"
    and live: "\<not> drained (qw_destroyer w)" and flight: "in_flight w = Suc (in_flight v)"
    and adding: "k = length (qw_adding v)" "set (qw_adding v) \<subseteq> set (qw_adding w)"
      "distinct (map fst (qw_adding v))" "n \<notin> fst ` set (qw_adding v)"
  shows "data_inv v \<and> protocol_inv v"
proof -
  note d = data [unfolded data_inv_def] and i = protocolD [OF prot] and e = enqueue_effect [OF run]
  have sameq: "same_records (qw_queue w) q" by (simp add: q)
  have okq: "lists_ok q" "ids_ok q" using same_records_ok [OF sameq] d by (simp_all add: q)
  have recq: "record_ids q = record_ids (qw_queue w)" by (simp add: q)
  have gate_p: "gate_counts p (Suc (in_flight v)) (qw_destroyer w \<noteq> QD_NONE)"
    using i(1) flight e(1) by (simp add: gate_counts_def q)
  have frame: "data_inv v \<and> protocol_inv v" if "r = None"
  proof -
    have p: "p = q" using e(10) that by simp
    have core: "core_frame (qw_queue w) (qw_queue v)"
      using recq by (simp add: v(1) p core_frame_def select_frame_def q end_call_locked_def release_call_locked_def)
    have okv: "lists_ok (qw_queue v)" "ids_ok (qw_queue v)"
      unfolding v(1) p using okq by (simp_all add: end_call_ok)
    have "data_inv v" by (rule data_frame [OF data okv core]) (simp add: v(5) that)
    moreover have "protocol_inv v"
      by (rule protocol_frame [OF prot core _ okv(1) v(2-4)])
        (use d gate_release(2) [OF gate_p] live adding i(10) in \<open>auto simp: v(1) e(2) q\<close>)
    ultimately show ?thesis ..
  qed
  have accepted: "data_inv v \<and> protocol_inv v" if r: "r = Some j" for j
  proof -
    have room': "q_pending_count q < q_capacity q" using room r by simp
    have nq: "q_nodes q n = None" using fresh by (simp add: q)
    note ok = enqueue_ok [OF run okq nq room'] and nx = enqueue_next [OF run [unfolded r] okq(2)]
    have okv: "lists_ok (qw_queue v)" "ids_ok (qw_queue v)" "record_ids (qw_queue v) = record_ids p"
      unfolding v(1) using ok end_call_ok by (simp_all add: end_call_locked_def release_call_locked_def)
    have exh: "q_generated_ids_exhausted (qw_queue v) = q_generated_ids_exhausted p"
      "q_next_id (qw_queue v) = q_next_id p" "q_next_id q = q_next_id (qw_queue w)"
      "q_generated_ids_exhausted q = q_generated_ids_exhausted (qw_queue w)"
      by (simp_all add: v(1) end_call_locked_def release_call_locked_def q)
    have "task_id t = 0 \<Longrightarrow> j \<notin> fst ` set (qw_log w)" using nx(2) d exh by auto
    then have "log_ok (qw_log v)" using d nx(1) by (simp add: v(5) r log_ok_Cons)
    moreover have "set (record_ids (qw_queue v)) \<subseteq> fst ` set (qw_log v)"
      using d ok(3) okv(3) recq by (auto simp: v(5) r)
    moreover have "\<forall>m \<in> fst ` set (qw_log v). m < q_next_id (qw_queue v)"
      if "\<not> q_generated_ids_exhausted (qw_queue v)"
      using nx(3) that d exh by (auto simp: v(5) r intro: less_le_trans)
    ultimately have data_v: "data_inv v" using okv by (auto simp: data_inv_def)
    have all: "q_all (qw_queue v) = q_all (qw_queue w) @ [n]" using e(5) by (simp add: v(1) r q)
    have new: "n \<notin> set (q_all (qw_queue w))" using fresh lists_okD(2) d by (metis domIff)
    have users: "node_users (qw_queue v) m = (if m = n then 0 else node_users (qw_queue w) m)" for m
      using e(7) [of m] e(8) r
      by (auto simp: v(1) node_users_def end_call_locked_def release_call_locked_def q)
    have cn: "count_list (qw_cancelling w) n = 0" using new i(5) by (auto simp: count_list_0_iff)
    have pin: "qw_destroyer w \<noteq> QD_PINNED" "qw_destroyer w \<noteq> QD_DONE" using live by (auto simp: drained_def)
    have addv: "q_nodes (qw_queue v) m = None" if "(m, u) \<in> set (qw_adding v)" for m u
    proof -
      have "m \<noteq> n" using that adding(4) by (auto simp: image_iff)
      with that adding(2) i(10) e(7) show ?thesis by (auto simp: v(1) q)
    qed
    have "protocol_inv v"
      unfolding protocol_inv_def v(2-4) all
      using gate_release(2) [OF gate_p] adding(1,3) e(2-4) i(3-7) users cn new pin live addv
      by (auto simp: v(1) q subset_iff)
    with data_v show ?thesis ..
  qed
  show ?thesis using frame accepted by (cases r) auto
qed

section \<open>Every step keeps the invariant\<close>

definition queue_inv :: "queue_world \<Rightarrow> bool" where
  "queue_inv w \<longleftrightarrow> data_inv w \<and> protocol_inv w"

lemma may_enterD:
  assumes "may_enter w" "protocol_inv w"
  shows "in_flight w = Suc (in_flight (entered w q))" "\<not> q_stopping (qw_queue w)"
    "\<not> drained (qw_destroyer w)"
  using assms protocolD(6) [OF assms(2)]
  by (auto simp: may_enter_def enter_call_def in_flight_def entered_def drained_def split: if_splits)

lemma entered_fields [simp]:
  "qw_queue (entered w q) = q" "qw_worker (entered w q) = qw_worker w"
  "qw_adding (entered w q) = qw_adding w" "qw_cancelling (entered w q) = qw_cancelling w"
  "qw_removing (entered w q) = qw_removing w" "qw_leaving (entered w q) = qw_leaving w"
  "qw_destroyer (entered w q) = qw_destroyer w" "qw_log (entered w q) = qw_log w"
  "qw_entering (entered w q) = qw_entering w - 1"
  by (simp_all add: entered_def)

text \<open>A section of a call that ends the call, or leaves it in flight elsewhere.\<close>

lemma section_inv:
  assumes inv: "queue_inv w" and q: "lists_ok q" "ids_ok q" "select_frame (qw_queue w) q"
    and v: "qw_worker v = qw_worker w" "qw_destroyer v = qw_destroyer w"
      "qw_cancelling v = qw_cancelling w" "qw_log v = qw_log w" "qw_adding v = qw_adding w"
    and ends: "qw_queue v = end_call_locked q \<and> in_flight w = Suc (in_flight v)
      \<or> qw_queue v = q \<and> in_flight v = in_flight w"
  shows "queue_inv v"
proof -
  have data: "data_inv w" and prot: "protocol_inv w" using inv by (simp_all add: queue_inv_def)
  note i = protocolD [OF prot]
  have okv: "lists_ok (qw_queue v)" "ids_ok (qw_queue v)" "core_frame (qw_queue w) (qw_queue v)"
    using ends end_call_ok [OF q(1,2)] core_frameI [OF q(3)] q by auto
  have gate: "gate_counts q (in_flight w) (qw_destroyer w \<noteq> QD_NONE)"
    using i(1) select_frame_gate [OF q(3)] by simp
  have "gate_counts (qw_queue v) (in_flight v) (qw_destroyer w \<noteq> QD_NONE)"
    using ends gate gate_release(2) [of q "in_flight v"] by auto
  moreover have "q_active_producers (qw_queue v) = length (qw_adding v)"
    using ends i(2) q(3) v(5) by (auto simp: select_frame_def)
  moreover have "in_flight v = 0" if "drained (qw_destroyer w)" using i(8) that ends by auto
  ultimately have "protocol_inv v"
    using protocol_frame [OF prot okv(3) _ okv(1) v(1-3)] data i(10,11) v(5)
    by (simp add: data_inv_def)
  with data_frame [OF data okv v(4)] show ?thesis by (simp add: queue_inv_def)
qed

lemma in_flight_simps [simp]:
  "in_flight (w\<lparr>qw_queue := q\<rparr>) = in_flight w"
  "in_flight (w\<lparr>qw_worker := x\<rparr>) = in_flight w" "in_flight (w\<lparr>qw_destroyer := y\<rparr>) = in_flight w"
  "in_flight (log_accepted t r w) = in_flight w"
  by (simp_all add: in_flight_def log_accepted_def split: option.split)

lemma log_accepted_fields [simp]:
  "qw_queue (log_accepted t r w) = qw_queue w" "qw_worker (log_accepted t r w) = qw_worker w"
  "qw_adding (log_accepted t r w) = qw_adding w" "qw_cancelling (log_accepted t r w) = qw_cancelling w"
  "qw_destroyer (log_accepted t r w) = qw_destroyer w"
  "qw_entering (log_accepted t r w) = qw_entering w" "qw_leaving (log_accepted t r w) = qw_leaving w"
  "qw_removing (log_accepted t r w) = qw_removing w"
  "qw_log (log_accepted t r w) = (case r of None \<Rightarrow> qw_log w | Some i \<Rightarrow> (i, task_id t = 0) # qw_log w)"
  by (simp_all add: log_accepted_def split: option.split)

lemma select_frame_self: "queue_inv w \<Longrightarrow> lists_ok (qw_queue w) \<and> ids_ok (qw_queue w)"
  by (simp add: queue_inv_def data_inv_def)

lemma register_inv:
  assumes "queue_inv w" "register_call (qw_queue w) = (q, True)"
  shows "queue_inv (w\<lparr>qw_queue := q, qw_entering := qw_entering w + 1\<rparr>)"
proof -
  have data: "data_inv w" and prot: "protocol_inv w" using assms(1) by (simp_all add: queue_inv_def)
  note g = gate_register [OF assms(2) protocolD(1) [OF prot]]
  let ?v = "w\<lparr>qw_queue := q, qw_entering := qw_entering w + 1\<rparr>"
  have ok: "lists_ok q" "ids_ok q"
    using same_records_ok [of "qw_queue w" q] data by (simp_all add: data_inv_def g(2))
  have core: "core_frame (qw_queue w) (qw_queue ?v)" by (simp add: g(2) core_frameI(5))
  have "protocol_inv ?v"
    by (rule protocol_frame [OF prot core])
      (use data ok g protocolD(2,10,11) [OF prot] in \<open>auto simp: data_inv_def in_flight_def drained_def\<close>)
  with data_frame [OF data _ _ core] ok show ?thesis by (simp add: queue_inv_def)
qed

lemma refused_inv:
  assumes "queue_inv w" "0 < qw_entering w" "enter_call (qw_queue w) = (q, False)"
  shows "queue_inv (entered w q)"
proof -
  have "q = end_call_locked (qw_queue w)" using assms(3)
    by (simp add: enter_call_def end_call_locked_def split: if_splits)
  moreover have "in_flight w = Suc (in_flight (entered w q))"
    using assms(2) by (simp add: in_flight_def entered_def)
  ultimately show ?thesis
    using section_inv [OF assms(1), of "qw_queue w" "entered w q"] select_frame_self [OF assms(1)] by simp
qed

lemma add_inv:
  assumes "queue_inv w" "may_enter w" "fresh_address n w"
  shows "queue_inv ((entered w (add_register (qw_queue w)))\<lparr>qw_adding := (n, t) # qw_adding w\<rparr>)"
    (is "queue_inv ?v")
proof -
  have data: "data_inv w" and prot: "protocol_inv w" using assms(1) by (simp_all add: queue_inv_def)
  note e = may_enterD [OF assms(2) prot]
  have core: "core_frame (qw_queue w) (qw_queue ?v)" by (simp add: core_frameI)
  have ok: "lists_ok (qw_queue ?v)" "ids_ok (qw_queue ?v)"
    using end_call_ok data by (simp_all add: data_inv_def)
  have flight: "in_flight ?v = in_flight w"
    using assms(2) by (simp add: in_flight_def may_enter_def)
  have "protocol_inv ?v"
    by (rule protocol_frame [OF prot core _ ok(1)])
      (use data flight e(3) protocolD(1,2,10,11) [OF prot] assms(3) in
        \<open>auto simp: data_inv_def fresh_address_def gate_counts_def\<close>)
  with data_frame [OF data ok core] show ?thesis by (simp add: queue_inv_def)
qed

lemma add_complete_inv:
  assumes "queue_inv w" "(n, t) \<in> set (qw_adding w)" "add_ready (qw_queue w)"
    and run: "add_complete n t (qw_queue w) = (q, r)"
  shows "queue_inv (log_accepted t r (w\<lparr>qw_queue := q, qw_adding := remove1 (n, t) (qw_adding w)\<rparr>))"
    (is "queue_inv ?v")
proof -
  have data: "data_inv w" and prot: "protocol_inv w" using assms(1) by (simp_all add: queue_inv_def)
  note i = protocolD [OF prot]
  let ?q = "(qw_queue w)\<lparr>q_active_producers := q_active_producers (qw_queue w) - 1\<rparr>"
  obtain p where p: "enqueue_locked n t ?q = (p, r)" "q = end_call_locked p"
    using run by (auto simp: add_complete_def split: prod.splits)
  have room: "q_pending_count ?q < q_capacity ?q" if "r \<noteq> None"
    using assms(3) p(1) that by (cases "q_stopping (qw_queue w)") (auto simp: add_ready_def enqueue_locked_def not_le)
  have len: "length (qw_adding w) = Suc (length (remove1 (n, t) (qw_adding w)))"
    using assms(2) length_pos_if_in_set [OF assms(2)] by (simp add: length_remove1)
  have dist: "distinct (map fst (remove1 (n, t) (qw_adding w)))"
    using i(11) by (intro distinct_map_remove1) (simp_all add: distinct_map)
  have gone: "n \<notin> fst ` set (remove1 (n, t) (qw_adding w))"
    using map_remove1_key [OF i(11) assms(2)] by simp
  have live: "\<not> drained (qw_destroyer w)" using i(8) len by (auto simp: in_flight_def)
  have "data_inv ?v \<and> protocol_inv ?v"
    by (rule ingress_inv [OF data prot refl p(1)])
      (use room i(2,10) assms(2) live len dist gone set_remove1_subset p(2)
        in \<open>auto simp: in_flight_def split: option.split\<close>)
  then show ?thesis by (simp add: queue_inv_def)
qed

lemma try_add_inv:
  assumes "queue_inv w" "may_enter w" "fresh_address n w"
    and run: "try_add_locked n t (qw_queue w) = (q, result, r)"
  shows "queue_inv (log_accepted t r (entered w q))"
proof -
  have data: "data_inv w" and prot: "protocol_inv w" using assms(1) by (simp_all add: queue_inv_def)
  note i = protocolD [OF prot] and e = may_enterD [OF assms(2) prot]
  have "(\<exists>p. enqueue_locked n t (qw_queue w) = (p, r) \<and> q = end_call_locked p
        \<and> (r \<noteq> None \<longrightarrow> q_pending_count (qw_queue w) < q_capacity (qw_queue w)))
      \<or> q = end_call_locked (qw_queue w) \<and> r = None"
    using run by (auto simp: try_add_locked_def not_le split: if_splits prod.splits option.splits)
  then show ?thesis
  proof (elim disjE exE conjE)
    fix p assume p: "enqueue_locked n t (qw_queue w) = (p, r)" "q = end_call_locked p"
      "r \<noteq> None \<longrightarrow> q_pending_count (qw_queue w) < q_capacity (qw_queue w)"
    have same: "qw_queue w = (qw_queue w)\<lparr>q_active_producers := length (qw_adding w)\<rparr>"
      using i(2) by simp
    have "data_inv (log_accepted t r (entered w q)) \<and> protocol_inv (log_accepted t r (entered w q))"
      by (rule ingress_inv [OF data prot same p(1)])
        (use p(2,3) e assms(3) i(11) in \<open>auto simp: fresh_address_def split: option.split\<close>)
    then show ?thesis by (simp add: queue_inv_def)
  next
    assume "q = end_call_locked (qw_queue w)" "r = None"
    then show ?thesis
      using section_inv [OF assms(1), of "qw_queue w" "log_accepted t r (entered w q)"]
        select_frame_self [OF assms(1)] e(1) by simp
  qed
qed

lemma cancel_section:
  assumes "cancel_locked i q = (p, x)"
  shows "case x of Inl b \<Rightarrow> p = end_call_locked q | Inr n \<Rightarrow> p = pin n q \<and> n \<in> set (q_all q)"
  using assms
  by (auto simp: cancel_locked_def find_live_locked_def dest: find_Some_member split: option.splits)

lemma cancel_inv:
  assumes "queue_inv w" "may_enter w" "cancel_locked i (qw_queue w) = (q, Inr n)"
  shows "queue_inv ((entered w q)\<lparr>qw_cancelling := n # qw_cancelling w\<rparr>)" (is "queue_inv ?v")
proof -
  have data: "data_inv w" and prot: "protocol_inv w" using assms(1) by (simp_all add: queue_inv_def)
  note j = protocolD [OF prot] and e = may_enterD [OF assms(2) prot]
  have q: "q = pin n (qw_queue w)" "n \<in> set (q_all (qw_queue w))" using cancel_section [OF assms(3)] by auto
  have l: "lists_ok (qw_queue w)" "ids_ok (qw_queue w)" using data by (simp_all add: data_inv_def)
  have alloc: "q_nodes (qw_queue w) n \<noteq> None" using q(2) lists_okD(2) [OF l(1)] by auto
  have okq: "lists_ok q" "ids_ok q"
    using same_records_ok [OF same_records_pin(1) l] by (simp_all add: q(1))
  have same: "same_records (qw_queue w) q" by (simp add: q(1))
  have f: "record_ids q = record_ids (qw_queue w)" "q_next_id q = q_next_id (qw_queue w)"
    "q_generated_ids_exhausted q = q_generated_ids_exhausted (qw_queue w)"
    using same lists_okD(2) [OF l(1)]
    by (auto simp: same_records_def record_ids_def live_ids_def history_ids_def)
  have data_v: "data_inv ?v" using data okq by (auto simp: data_inv_def f)
  have flight: "in_flight ?v = in_flight w" using assms(2) by (simp add: in_flight_def may_enter_def)
  have "q_nodes q m = None \<longleftrightarrow> q_nodes (qw_queue w) m = None" for m
    by (simp add: q(1) pin_def)
  then have "protocol_inv ?v"
    unfolding protocol_inv_def
    using j e q(2) alloc flight
    by (auto simp: q(1) gate_counts_def)
  with data_v show ?thesis by (simp add: queue_inv_def)
qed

lemma count_remove1: "x \<in> set xs \<Longrightarrow> count_list (remove1 x xs) y = count_list xs y - (if x = y then 1 else 0)"
  by (induction xs) auto

lemma unpin_same:
  assumes "lists_ok q" "ids_ok q"
  shows "lists_ok (unpin n q)" "ids_ok (unpin n q)" "record_ids (unpin n q) = record_ids q"
    "q_next_id (unpin n q) = q_next_id q"
    "q_generated_ids_exhausted (unpin n q) = q_generated_ids_exhausted q" "dom (q_nodes (unpin n q)) = dom (q_nodes q)"
proof -
  have same: "same_records q (unpin n q)" by simp
  show "lists_ok (unpin n q)" "ids_ok (unpin n q)" using same_records_ok [OF same assms] by simp_all
  show "record_ids (unpin n q) = record_ids q"
    "q_next_id (unpin n q) = q_next_id q" "dom (q_nodes (unpin n q)) = dom (q_nodes q)"
    "q_generated_ids_exhausted (unpin n q) = q_generated_ids_exhausted q"
    using same lists_okD(2) [OF assms(1)]
    by (auto simp: same_records_def record_ids_def live_ids_def history_ids_def)
qed

lemma cancel_retire_inv:
  assumes "queue_inv w" "n \<in> set (qw_cancelling w)" "cancel_retire n (qw_queue w) = (q, r)"
  shows "queue_inv (w\<lparr>qw_queue := q, qw_cancelling := remove1 n (qw_cancelling w),
      qw_leaving := qw_leaving w + 1\<rparr>)" (is "queue_inv ?v")
proof -
  let ?u = "w\<lparr>qw_queue := unpin n (qw_queue w), qw_cancelling := remove1 n (qw_cancelling w),
      qw_leaving := qw_leaving w + 1\<rparr>"
  have data: "data_inv w" and prot: "protocol_inv w" using assms(1) by (simp_all add: queue_inv_def)
  note j = protocolD [OF prot]
  have l: "lists_ok (qw_queue w)" "ids_ok (qw_queue w)" using data by (simp_all add: data_inv_def)
  note s = unpin_same [OF l, of n]
  have flight: "in_flight ?u = in_flight w"
    using assms(2) length_pos_if_in_set [OF assms(2)] by (simp add: in_flight_def length_remove1)
  have n: "n \<in> set (q_all (qw_queue w))" using j(5) assms(2) by blast
  have alloc: "q_nodes (qw_queue w) n \<noteq> None" using n lists_okD(2) [OF l(1)] by auto
  have live: "\<not> drained (qw_destroyer w)" using j(8) assms(2) by (auto simp: in_flight_def)
  have "data_inv ?u" using data s by (auto simp: data_inv_def)
  moreover have none: "q_nodes (unpin n (qw_queue w)) m = None \<longleftrightarrow> q_nodes (qw_queue w) m = None" for m
    by (simp add: unpin_def)
  have users: "node_users (unpin n (qw_queue w)) m = count_list (remove1 n (qw_cancelling w)) m"
    if "m \<in> set (q_all (qw_queue w))" for m
    using j(4) [OF that] alloc live assms(2) by (auto simp: count_remove1 drained_def)
  have sub: "set (remove1 n (qw_cancelling w)) \<subseteq> set (q_all (qw_queue w))"
    by (rule order_trans [OF set_remove1_subset j(5)])
  have "protocol_inv ?u"
    unfolding protocol_inv_def
  proof (intro conjI)
    show "\<forall>m \<in> set (q_all (qw_queue ?u)). node_users (qw_queue ?u) m
        = count_list (qw_cancelling ?u) m + (if qw_destroyer ?u = QD_PINNED then 1 else 0)"
      using users live by (simp add: drained_def)
    show "\<forall>(m, t) \<in> set (qw_adding ?u). q_nodes (qw_queue ?u) m = None"
      using j(10) none by auto
    show "gate_counts (qw_queue ?u) (in_flight ?u) (qw_destroyer ?u \<noteq> QD_NONE)"
      using j(1) flight by (simp add: gate_counts_def)
    show "set (qw_cancelling ?u) \<subseteq> set (q_all (qw_queue ?u))" using sub by simp
    show "drained (qw_destroyer ?u) \<longrightarrow> in_flight ?u = 0" using live by simp
    show "qw_destroyer ?u = QD_DONE \<longrightarrow> qw_worker ?u = QW_EXITED \<and> q_all (qw_queue ?u) = []"
      using live by (simp add: drained_def)
  qed (use j(2,3,6,7,11) in simp_all)
  ultimately have inv: "queue_inv ?u" by (simp add: queue_inv_def)
  have run: "retire_terminal_locked n True (unpin n (qw_queue w)) = (q, r)"
    using assms(3) by (simp add: cancel_retire_def)
  have n': "n \<in> set (q_all (unpin n (qw_queue w)))" using n by simp
  have eq: "?v = ?u\<lparr>qw_queue := q\<rparr>" by simp
  show ?thesis unfolding eq
    by (rule section_inv [OF inv, where q = q])
      (use retire_ok [OF run s(1,2) n'] retire_frame [OF run s(1,2) n'] in \<open>auto simp: in_flight_def\<close>)
qed

lemma remove_inv:
  assumes "queue_inv w" and run: "remove_pass i (qw_queue w) = (q, r)"
    and v: "qw_worker v = qw_worker w" "qw_destroyer v = qw_destroyer w" "qw_queue v = q"
      "qw_cancelling v = qw_cancelling w" "qw_log v = qw_log w" "qw_adding v = qw_adding w"
    and flight: "in_flight w = (case r of REMOVE_ANSWER b \<Rightarrow> Suc (in_flight v) | _ \<Rightarrow> in_flight v)"
  shows "queue_inv v"
proof -
  have ok: "lists_ok (qw_queue w)" "ids_ok (qw_queue w)" using select_frame_self [OF assms(1)] by simp_all
  obtain q1 where q1: "lists_ok q1" "ids_ok q1" "select_frame (qw_queue w) q1"
    "q = (case r of REMOVE_ANSWER b \<Rightarrow> end_call_locked q1 | _ \<Rightarrow> q1)"
    using remove_section [OF run ok] by blast
  show ?thesis
    by (rule section_inv [OF assms(1) q1(1-3) v(1,2,4-6)])
      (use q1(4) v(3) flight in \<open>auto split: remove_outcome.splits\<close>)
qed

lemma after_remove_fields [simp]:
  "qw_queue (after_remove i r w) = qw_queue w" "qw_worker (after_remove i r w) = qw_worker w"
  "qw_adding (after_remove i r w) = qw_adding w" "qw_cancelling (after_remove i r w) = qw_cancelling w"
  "qw_destroyer (after_remove i r w) = qw_destroyer w" "qw_log (after_remove i r w) = qw_log w"
  "in_flight (after_remove i r w) = (case r of REMOVE_ANSWER b \<Rightarrow> in_flight w | _ \<Rightarrow> Suc (in_flight w))"
  by (simp_all add: after_remove_def in_flight_def split: remove_outcome.split)

lemma remove_enter_inv:
  assumes "queue_inv w" "may_enter w" "remove_pass i (qw_queue w) = (q, r)"
  shows "queue_inv (after_remove i r (entered w q))"
proof -
  have "protocol_inv w" using assms(1) by (simp add: queue_inv_def)
  from may_enterD(1) [OF assms(2) this] show ?thesis
    by (intro remove_inv [OF assms(1,3)]) (simp_all split: remove_outcome.split)
qed

lemma remove_again_inv:
  assumes "queue_inv w" "i \<in> set (qw_removing w)" "remove_after_wait i (qw_queue w) = (q, r)"
  shows "queue_inv (after_remove i r (w\<lparr>qw_queue := q, qw_removing := remove1 i (qw_removing w)\<rparr>))"
    (is "queue_inv ?v")
proof -
  have flight: "in_flight w = Suc (in_flight (w\<lparr>qw_queue := q, qw_removing := remove1 i (qw_removing w)\<rparr>))"
    using assms(2) length_pos_if_in_set [OF assms(2)] by (simp add: in_flight_def length_remove1)
  show ?thesis
  proof (cases "q_stopping (qw_queue w)")
    case True
    then have "q = end_call_locked (qw_queue w)" "r = REMOVE_ANSWER False"
      using assms(3) by (simp_all add: remove_after_wait_def)
    then show ?thesis
      using section_inv [OF assms(1), of "qw_queue w" ?v] select_frame_self [OF assms(1)] flight by simp
  next
    case False
    then have "remove_pass i (qw_queue w) = (q, r)" using assms(3) by (simp add: remove_after_wait_def)
    then show ?thesis using flight
      by (intro remove_inv [OF assms(1)]) (auto split: remove_outcome.splits)
  qed
qed

lemma scan_outcome_node:
  assumes "scan_outcome answers tasks [] ns g pending h r" "sel_node r = Some n" "distinct ns"
  shows "n \<in> set ns" "n \<notin> set pending"
proof -
  obtain xs ys where xy: "ns = xs @ n # ys" "pending = live_nodes tasks xs @ ys"
    using assms(1,2) by (auto simp: scan_outcome_def)
  with assms(3) show "n \<in> set ns" "n \<notin> set pending" by (auto simp: live_nodes_def)
qed

lemma select_inv:
  assumes "queue_inv w" "qw_worker w = QW_IDLE" "\<not> q_stopping (qw_queue w)"
    and run: "worker_select answers (qw_queue w) g = (q, h, r)"
  shows "queue_inv (w\<lparr>qw_queue := q,
      qw_worker := (case sel_node r of None \<Rightarrow> QW_IDLE | Some n \<Rightarrow> QW_RUNNING n)\<rparr>)" (is "queue_inv ?v")
proof -
  have data: "data_inv w" and prot: "protocol_inv w" using assms(1) by (simp_all add: queue_inv_def)
  note i = protocolD [OF prot]
  have ok: "lists_ok (qw_queue w)" "ids_ok (qw_queue w)" using data by (simp_all add: data_inv_def)
  obtain p where sel: "select_admissible answers (q_pending (qw_queue w)) False [] (qw_queue w) g = (p, h, r)"
      and q: "q = (case sel_node r of None \<Rightarrow> p | Some n \<Rightarrow> p\<lparr>q_active := Some n\<rparr>)"
    using run by (auto simp: worker_select_def split: prod.splits option.splits)
  have idle: "q_active (qw_queue w) = None" using i(3) assms(2) by (simp add: worker_node_def)
  have scan: "lists_ok p \<and> ids_ok p \<and> select_frame (qw_queue w) p
      \<and> scan_outcome answers (node_task (qw_queue w)) [] (q_pending (qw_queue w)) g (q_pending p) h r
      \<and> (\<forall>n. sel_node r = Some n \<longrightarrow> n \<in> set (q_all p))"
    by (rule select_scan [OF sel _ ok idle]) simp_all
  have scanned: "queue_inv (w\<lparr>qw_queue := p\<rparr>)"
    by (rule section_inv [OF assms(1), where q = p]) (use scan in simp_all)
  show ?thesis
  proof (cases "sel_node r")
    case None
    then have "?v = w\<lparr>qw_queue := p\<rparr>" using assms(2) q by (simp add: worker_node_def)
    with scanned show ?thesis by simp
  next
    case (Some n)
    have n: "n \<in> set (q_pending (qw_queue w))" "n \<notin> set (q_pending p)"
      using scan_outcome_node [OF _ Some] scan lists_okD(3) [OF ok(1)] by blast+
    have "n \<in> set (q_all p)" using scan Some by simp
    then have "lists_ok q" using n scan by (auto simp: q Some lists_ok_def)
    moreover have "ids_ok q" using scan by (simp add: q Some ids_ok_def)
    ultimately show ?thesis
      using scanned scan assms(2) by (simp add: queue_inv_def data_inv_def protocol_inv_def q Some
        worker_node_def gate_counts_def)
  qed
qed

lemma worker_retire_inv:
  assumes "queue_inv w" "qw_worker w = QW_RUNNING n" "worker_retire n (qw_queue w) = (q, r)"
  shows "queue_inv (w\<lparr>qw_queue := q, qw_worker := QW_IDLE\<rparr>)"
proof -
  let ?u = "w\<lparr>qw_queue := (qw_queue w)\<lparr>q_active := None\<rparr>, qw_worker := QW_IDLE\<rparr>"
  have data: "data_inv w" and prot: "protocol_inv w" using assms(1) by (simp_all add: queue_inv_def)
  note j = protocolD [OF prot]
  have l: "lists_ok (qw_queue w)" "ids_ok (qw_queue w)" using data by (simp_all add: data_inv_def)
  have n: "n \<in> set (q_all (qw_queue w))"
    using lists_okD(8) [OF l(1)] j(3) assms(2) by (simp add: worker_node_def)
  have ok: "lists_ok (qw_queue ?u)" "ids_ok (qw_queue ?u)"
    using same_records_ok [of "qw_queue w" "qw_queue ?u"] l by simp_all
  have notdone: "qw_destroyer w \<noteq> QD_DONE" using j(9) assms(2) by auto
  have inv: "queue_inv ?u"
    using data prot ok notdone
    by (simp add: queue_inv_def data_inv_def protocol_inv_def worker_node_def gate_counts_def)
  have run: "retire_terminal_locked n True (qw_queue ?u) = (q, r)"
    using assms(3) by (simp add: worker_retire_def)
  have n': "n \<in> set (q_all (qw_queue ?u))" using n by simp
  show ?thesis
    by (rule section_inv [OF inv, where q = q])
      (use retire_ok [OF run ok n'] retire_frame [OF run ok n'] in \<open>simp_all add: in_flight_def\<close>)
qed

lemma fold_pin:
  "q_all (fold pin ns q) = q_all q" "q_stopping (fold pin ns q) = q_stopping q"
  "q_active (fold pin ns q) = q_active q" "q_call_gate (fold pin ns q) = q_call_gate q"
  "q_active_producers (fold pin ns q) = q_active_producers q"
  "q_all (fold unpin ns q) = q_all q" "q_stopping (fold unpin ns q) = q_stopping q"
  "q_active (fold unpin ns q) = q_active q" "q_call_gate (fold unpin ns q) = q_call_gate q"
  "q_active_producers (fold unpin ns q) = q_active_producers q"
  by (induction ns arbitrary: q) simp_all

lemma fold_pin_same: "same_records q (fold pin ns q)"
  by (induction ns arbitrary: q) (auto intro: same_records_trans [OF same_records_pin(1)])

lemma fold_unpin_same: "same_records q (fold unpin ns q)"
  by (induction ns arbitrary: q) (auto intro: same_records_trans [OF same_records_pin(2)])

lemma fold_pin_nodes:
  "q_nodes (fold pin ns q) m = None \<longleftrightarrow> q_nodes q m = None"
  "q_nodes (fold unpin ns q) m = None \<longleftrightarrow> q_nodes q m = None"
  by (induction ns arbitrary: q) (simp_all add: pin_def unpin_def)

lemma fold_pin_users:
  assumes "distinct ns" "set ns \<subseteq> dom (q_nodes q)"
  shows "node_users (fold pin ns q) m = node_users q m + (if m \<in> set ns then 1 else 0)"
    and "node_users (fold unpin ns q) m = node_users q m - (if m \<in> set ns then 1 else 0)"
  using assms
proof (atomize (full), induction ns arbitrary: q)
  case (Cons n ns)
  have "set ns \<subseteq> dom (q_nodes (pin n q))" "set ns \<subseteq> dom (q_nodes (unpin n q))"
    using Cons.prems(2) by (auto simp: pin_def unpin_def)
  then show ?case
    using Cons.IH [of "pin n q"] Cons.IH [of "unpin n q"] Cons.prems by auto
qed simp

text \<open>The destroying thread's own sections; the nodes keep their records.\<close>

lemma same_records_data:
  assumes "data_inv w" "same_records (qw_queue w) q" "q_active q = q_active (qw_queue w)"
  shows "data_inv (w\<lparr>qw_queue := q, qw_destroyer := d\<rparr>)"
proof -
  have l: "lists_ok (qw_queue w)" "ids_ok (qw_queue w)" using assms(1) by (simp_all add: data_inv_def)
  have "record_ids q = record_ids (qw_queue w)"
    using assms(2) lists_okD(2) [OF l(1)]
    by (auto simp: same_records_def record_ids_def live_ids_def history_ids_def)
  with assms same_records_ok [OF assms(2) l] show ?thesis
    by (simp add: data_inv_def same_records_def)
qed

lemma destroyer_inv:
  assumes "queue_inv w"
  shows "close_gate (qw_queue w) = (q, True) \<Longrightarrow> queue_inv (w\<lparr>qw_queue := q, qw_destroyer := QD_CLOSED\<rparr>)"
    and "qw_destroyer w = QD_CLOSED \<Longrightarrow>
      queue_inv (w\<lparr>qw_queue := destroy_begin (qw_queue w), qw_destroyer := QD_STOPPING\<rparr>)"
    and "qw_destroyer w = QD_STOPPING \<Longrightarrow> destroy_may_proceed (qw_queue w) \<Longrightarrow>
      queue_inv (w\<lparr>qw_queue := pin_all (qw_queue w), qw_destroyer := QD_PINNED\<rparr>)"
    and "qw_destroyer w = QD_PINNED \<Longrightarrow>
      queue_inv (w\<lparr>qw_queue := unpin_all (qw_queue w), qw_destroyer := QD_UNPINNED\<rparr>)"
    and "qw_destroyer w = QD_UNPINNED \<Longrightarrow> qw_worker w = QW_EXITED \<Longrightarrow>
      queue_inv (w\<lparr>qw_queue := fst (destroy_detach (qw_queue w)), qw_destroyer := QD_DONE\<rparr>)"
proof -
  have data: "data_inv w" and prot: "protocol_inv w" using assms by (simp_all add: queue_inv_def)
  note j = protocolD [OF prot]
  have l: "lists_ok (qw_queue w)" using data by (simp add: data_inv_def)
  have canc: "count_list (qw_cancelling w) n = 0" if "in_flight w = 0" for n
    using that by (simp add: in_flight_def)
  show "queue_inv (w\<lparr>qw_queue := q, qw_destroyer := QD_CLOSED\<rparr>)" if c: "close_gate (qw_queue w) = (q, True)"
  proof -
    note g = gate_closing [OF c j(1)]
    have none: "qw_destroyer w = QD_NONE" using g(1) by simp
    have "same_records (qw_queue w) q" "q_active q = q_active (qw_queue w)"
      by (subst g(2), simp)+
    then have "data_inv (w\<lparr>qw_queue := q, qw_destroyer := QD_CLOSED\<rparr>)" by (rule same_records_data [OF data])
    moreover have f: "q_active_producers q = q_active_producers (qw_queue w)" "q_active q = q_active (qw_queue w)"
      "q_all q = q_all (qw_queue w)" "node_users q = node_users (qw_queue w)"
      "q_stopping q = q_stopping (qw_queue w)" "q_nodes q = q_nodes (qw_queue w)"
      by (subst g(2), simp)+
    have "protocol_inv (w\<lparr>qw_queue := q, qw_destroyer := QD_CLOSED\<rparr>)"
      using prot g(3) none f by (auto simp: protocol_inv_def drained_def)
    ultimately show ?thesis by (simp add: queue_inv_def)
  qed
  show "queue_inv (w\<lparr>qw_queue := destroy_begin (qw_queue w), qw_destroyer := QD_STOPPING\<rparr>)"
    if "qw_destroyer w = QD_CLOSED"
  proof -
    have "data_inv (w\<lparr>qw_queue := destroy_begin (qw_queue w), qw_destroyer := QD_STOPPING\<rparr>)"
      by (rule same_records_data [OF data]) (simp_all add: destroy_begin_def)
    moreover have "protocol_inv (w\<lparr>qw_queue := destroy_begin (qw_queue w), qw_destroyer := QD_STOPPING\<rparr>)"
      using prot that by (simp add: protocol_inv_def drained_def destroy_begin_def gate_counts_def)
    ultimately show ?thesis by (simp add: queue_inv_def)
  qed
  show "queue_inv (w\<lparr>qw_queue := pin_all (qw_queue w), qw_destroyer := QD_PINNED\<rparr>)"
    if "qw_destroyer w = QD_STOPPING" "destroy_may_proceed (qw_queue w)"
  proof -
    have zero: "in_flight w = 0" using gate_drained [OF j(1)] that(2) by simp
    have users: "node_users (pin_all (qw_queue w)) n = 1" if "n \<in> set (q_all (qw_queue w))" for n
      using fold_pin_users(1) [OF lists_okD(1) [OF l], of "qw_queue w"] lists_okD(2) [OF l] j(4) [OF that]
        that canc [OF zero] \<open>qw_destroyer w = QD_STOPPING\<close>
      by (simp add: pin_all_def)
    have "data_inv (w\<lparr>qw_queue := pin_all (qw_queue w), qw_destroyer := QD_PINNED\<rparr>)"
      by (rule same_records_data [OF data]) (simp_all add: pin_all_def fold_pin fold_pin_same)
    moreover have "protocol_inv (w\<lparr>qw_queue := pin_all (qw_queue w), qw_destroyer := QD_PINNED\<rparr>)"
      using prot that(1) zero users canc [OF zero]
      by (simp add: protocol_inv_def pin_all_def fold_pin fold_pin_nodes gate_counts_def)
    ultimately show ?thesis by (simp add: queue_inv_def)
  qed
  show "queue_inv (w\<lparr>qw_queue := unpin_all (qw_queue w), qw_destroyer := QD_UNPINNED\<rparr>)"
    if "qw_destroyer w = QD_PINNED"
  proof -
    have zero: "in_flight w = 0" using j(8) that by (simp add: drained_def)
    have users: "node_users (unpin_all (qw_queue w)) n = 0" if "n \<in> set (q_all (qw_queue w))" for n
      using fold_pin_users(2) [OF lists_okD(1) [OF l], of "qw_queue w"] lists_okD(2) [OF l] j(4) [OF that]
        that canc [OF zero] \<open>qw_destroyer w = QD_PINNED\<close>
      by (simp add: unpin_all_def)
    have "data_inv (w\<lparr>qw_queue := unpin_all (qw_queue w), qw_destroyer := QD_UNPINNED\<rparr>)"
      by (rule same_records_data [OF data]) (simp_all add: unpin_all_def fold_pin fold_unpin_same)
    moreover have "protocol_inv (w\<lparr>qw_queue := unpin_all (qw_queue w), qw_destroyer := QD_UNPINNED\<rparr>)"
      using prot that(1) zero users canc [OF zero]
      by (simp add: protocol_inv_def unpin_all_def fold_pin fold_pin_nodes gate_counts_def)
    ultimately show ?thesis by (simp add: queue_inv_def)
  qed
  show "queue_inv (w\<lparr>qw_queue := fst (destroy_detach (qw_queue w)), qw_destroyer := QD_DONE\<rparr>)"
    if d: "qw_destroyer w = QD_UNPINNED" "qw_worker w = QW_EXITED"
  proof -
    let ?q = "fst (destroy_detach (qw_queue w))"
    have zero: "in_flight w = 0" using j(8) d by (simp add: drained_def)
    have lq: "lists_ok ?q"
      using l j(3) d(2) by (simp add: lists_ok_def destroy_detach_def worker_node_def)
    have r: "record_ids ?q = history_ids (qw_queue w)" "q_next_id ?q = q_next_id (qw_queue w)"
      "q_generated_ids_exhausted ?q = q_generated_ids_exhausted (qw_queue w)"
      by (simp_all add: record_ids_def live_ids_def history_ids_def destroy_detach_def)
    have sub: "set (record_ids ?q) \<subseteq> set (record_ids (qw_queue w))"
      unfolding r(1) by (simp add: record_ids_def)
    have dist: "distinct (record_ids ?q)"
      using data unfolding r(1) by (simp add: data_inv_def ids_ok_def record_ids_def)
    have "data_inv (w\<lparr>qw_queue := ?q, qw_destroyer := QD_DONE\<rparr>)"
      using data lq sub dist by (auto simp: data_inv_def ids_ok_def r(2,3))
    moreover have "protocol_inv (w\<lparr>qw_queue := ?q, qw_destroyer := QD_DONE\<rparr>)"
      using prot d zero by (simp add: protocol_inv_def destroy_detach_def gate_counts_def in_flight_def)
    ultimately show ?thesis by (simp add: queue_inv_def)
  qed
qed

lemma initial_inv:
  assumes "queue_create True capacity = Some q"
  shows "queue_inv (initial_world q)"
proof -
  have q: "q = \<lparr>q_call_gate = 0, q_stopping = False, q_next_id = 1,
        q_generated_ids_exhausted = False, q_nodes = Map.empty, q_all = [], q_pending = [],
        q_active = None, q_history = [], q_terminal_count = 0, q_capacity = capacity,
        q_pending_count = 0, q_active_producers = 0\<rparr>"
    using assms by (simp add: queue_create_def split: if_splits)
  show ?thesis
    by (simp add: q initial_world_def queue_inv_def data_inv_def protocol_inv_def lists_ok_def
      ids_ok_def record_ids_def live_ids_def history_ids_def log_ok_def gate_counts_def
      in_flight_def worker_node_def drained_def)
qed

lemma queue_step_inv:
  assumes "queue_step w v" "queue_inv w"
  shows "queue_inv v"
  using assms
proof (induction rule: queue_step.induct)
  case (step_register w q)
  then show ?case by (blast intro: register_inv)
next
  case (step_refused w q)
  then show ?case by (blast intro: refused_inv)
next
  case (step_add w n t)
  then show ?case by (blast intro: add_inv)
next
  case (step_add_complete n t w q r)
  then show ?case by (blast intro: add_complete_inv)
next
  case (step_try_add w n t q result r)
  then show ?case by (blast intro: try_add_inv)
next
  case (step_cancel_answer w i q b)
  then have "protocol_inv w" "q = end_call_locked (qw_queue w)"
    using cancel_section [of i "qw_queue w" q "Inl b"] by (auto simp: queue_inv_def)
  with step_cancel_answer show ?case
    using section_inv [of w "qw_queue w" "entered w q"] select_frame_self [of w] may_enterD(1) [of w]
    by simp
next
  case (step_cancel w i q n)
  then show ?case by (blast intro: cancel_inv)
next
  case (step_cancel_retire n w q r)
  then show ?case by (blast intro: cancel_retire_inv)
next
  case (step_pause w i q b)
  have prot: "protocol_inv w" and ok: "lists_ok (qw_queue w)" "ids_ok (qw_queue w)"
    using step_pause select_frame_self by (auto simp: queue_inv_def)
  obtain q1 where "q = end_call_locked q1" "lists_ok q1" "ids_ok q1" "select_frame (qw_queue w) q1"
    using pause_section [OF disjI1 ok] step_pause by blast
  with section_inv [OF step_pause(3), of q1 "entered w q"] may_enterD(1) [OF step_pause(1) prot]
  show ?case by simp
next
  case (step_resume w i q b)
  have prot: "protocol_inv w" and ok: "lists_ok (qw_queue w)" "ids_ok (qw_queue w)"
    using step_resume select_frame_self by (auto simp: queue_inv_def)
  obtain q1 where "q = end_call_locked q1" "lists_ok q1" "ids_ok q1" "select_frame (qw_queue w) q1"
    using pause_section [OF disjI2 ok] step_resume by blast
  with section_inv [OF step_resume(3), of q1 "entered w q"] may_enterD(1) [OF step_resume(1) prot]
  show ?case by simp
next
  case (step_remove w i q r)
  then show ?case by (blast intro: remove_enter_inv)
next
  case (step_remove_again i w q r)
  then show ?case by (blast intro: remove_again_inv)
next
  case (step_observe w)
  then have "protocol_inv w" by (simp add: queue_inv_def)
  with step_observe show ?case
    using section_inv [of w "qw_queue w" "entered w (end_call_locked (qw_queue w))"]
      select_frame_self [of w] may_enterD(1) [of w] by simp
next
  case (step_leave w)
  let ?v = "w\<lparr>qw_queue := end_call_locked (qw_queue w), qw_leaving := qw_leaving w - 1\<rparr>"
  have "in_flight w = Suc (in_flight ?v)" using step_leave by (simp add: in_flight_def)
  with step_leave show ?case
    using section_inv [of w "qw_queue w" ?v] select_frame_self [of w] by simp
next
  case (step_select w answers g q h r)
  then show ?case by (blast intro: select_inv)
next
  case (step_task w n t)
  then show ?case
    using section_inv [of w "set_node_task n t (qw_queue w)" "w\<lparr>qw_queue := set_node_task n t (qw_queue w)\<rparr>"]
      select_frame_self [of w] set_task_ok [of "qw_queue w" t n] by simp
next
  case (step_worker_retire w n q r)
  then show ?case by (blast intro: worker_retire_inv)
next
  case (step_worker_exit w)
  then have "qw_destroyer w \<noteq> QD_DONE" using protocolD(9) [of w] by (auto simp: queue_inv_def)
  with step_worker_exit show ?case
    by (auto simp: queue_inv_def data_inv_def protocol_inv_def worker_node_def)
qed (blast intro: destroyer_inv)+

lemma queue_run_inv: "queue_run capacity w \<Longrightarrow> queue_inv w"
  by (induction rule: queue_run.induct) (auto intro: initial_inv queue_step_inv)

end
