(* ===== verification/Queue_Theorems.thy ===== *)
theory Queue_Theorems
  imports Queue_Safety Task_Theorems
begin

text \<open>
  What a user of the Task Queue relies on: its records, the identifiers it generates, the nodes
  it keeps alive, its order of dispatch as a bounded FIFO, the agreement of its observers, and
  the end of its destruction.
\<close>

section \<open>The abstract Queue: a bounded FIFO\<close>

text \<open>
  A waiting line of at most \<open>capacity\<close> Tasks: a Task joins at the end; one is dispatched, past
  Tasks before it that keep their place unless they leave the line; some Tasks leave the line.
\<close>

datatype fifo_label = FIFO_ADD nat | FIFO_DISPATCH nat | FIFO_DROP

inductive fifo_step :: "nat \<Rightarrow> nat list \<Rightarrow> fifo_label \<Rightarrow> nat list \<Rightarrow> bool" for capacity where
  fifo_add: "length line < capacity \<Longrightarrow> n \<notin> set line \<Longrightarrow>
    fifo_step capacity line (FIFO_ADD n) (line @ [n])"
| fifo_dispatch: "fifo_step capacity (before @ n # after) (FIFO_DISPATCH n) (filter P before @ after)"
| fifo_drop: "fifo_step capacity line FIFO_DROP (filter P line)"

definition step_label :: "queue_world \<Rightarrow> queue_world \<Rightarrow> fifo_label" where
  "step_label w v =
     (if qw_log v \<noteq> qw_log w then FIFO_ADD (last (q_pending (qw_queue v)))
      else if qw_worker w = QW_IDLE
      then (case qw_worker v of QW_RUNNING n \<Rightarrow> FIFO_DISPATCH n | _ \<Rightarrow> FIFO_DROP)
      else FIFO_DROP)"

definition line_of :: "queue_world \<Rightarrow> nat list" where
  "line_of w = q_pending (qw_queue w)"

definition simulates :: "queue_world \<Rightarrow> queue_world \<Rightarrow> bool" where
  "simulates w v \<longleftrightarrow> q_capacity (qw_queue v) = q_capacity (qw_queue w)
     \<and> fifo_step (unat (q_capacity (qw_queue w))) (line_of w) (step_label w v) (line_of v)"

lemma simulates_quiet:
  assumes "qw_log v = qw_log w" "qw_worker w = QW_IDLE \<Longrightarrow> qw_worker v = QW_IDLE \<or> qw_worker v = QW_EXITED"
    "q_capacity (qw_queue v) = q_capacity (qw_queue w)" "line_of v = filter P (line_of w)"
  shows "simulates w v"
proof -
  have "step_label w v = FIFO_DROP" using assms(1,2) by (auto simp: step_label_def)
  with assms(3,4) fifo_drop [of "unat (q_capacity (qw_queue w))" "line_of w" P] show ?thesis
    by (simp add: simulates_def)
qed

lemma simulates_same:
  assumes "qw_log v = qw_log w" "qw_worker w = QW_IDLE \<Longrightarrow> qw_worker v = QW_IDLE \<or> qw_worker v = QW_EXITED"
    "q_capacity (qw_queue v) = q_capacity (qw_queue w)" "line_of v = line_of w"
  shows "simulates w v"
  using simulates_quiet [OF assms(1-3), of "\<lambda>_. True"] assms(4) by simp

lemma simulates_enqueue:
  assumes "lists_ok q" "q_pending q = line_of w" "q_capacity q = q_capacity (qw_queue w)"
    and run: "enqueue_locked n t q = (p, r)"
    and fresh: "q_nodes q n = None" and room: "r \<noteq> None \<Longrightarrow> q_pending_count q < q_capacity q"
    and v: "qw_queue v = end_call_locked p" "qw_worker v = qw_worker w"
      "qw_log v = (case r of None \<Rightarrow> qw_log w | Some i \<Rightarrow> (i, task_id t = 0) # qw_log w)"
  shows "simulates w v"
proof (cases r)
  case None
  then have "p = q" using enqueue_effect(10) [OF run] by simp
  with None v assms(2,3) show ?thesis by (intro simulates_same) (simp_all add: line_of_def)
next
  case (Some i)
  note e = enqueue_effect [OF run] and l = lists_okD [OF assms(1)]
  have "n \<notin> set (line_of w)" using fresh l(2,4) assms(2) by auto
  moreover have "length (line_of w) < unat (q_capacity q)"
    using l(5) room Some assms(2) by (simp add: word_less_nat_alt)
  moreover have "line_of v = line_of w @ [n]" using e(6) Some v(1) assms(2) by (simp add: line_of_def)
  moreover have "step_label w v = FIFO_ADD n"
    using Some v(3) \<open>line_of v = line_of w @ [n]\<close> by (simp add: step_label_def line_of_def)
  ultimately show ?thesis
    using e(9) v(1) assms(3) fifo_add by (simp add: simulates_def)
qed

lemma retire_line:
  assumes "retire_terminal_locked n retain q = (p, r)" "distinct (q_pending q)"
  shows "\<exists>P. q_pending p = filter P (q_pending q)" "q_capacity p = q_capacity q"
proof -
  have "q_pending p = q_pending q \<or> q_pending p = filter (\<lambda>m. m \<noteq> n) (q_pending q)"
    using assms by (cases r) (auto dest: retire_None retire_Some(3) simp: distinct_remove1_removeAll
      removeAll_filter_not_eq neq_commute)
  moreover have "q_pending q = filter (\<lambda>_. True) (q_pending q)" by simp
  ultimately show "\<exists>P. q_pending p = filter P (q_pending q)" by metis
  show "q_capacity p = q_capacity q"
    using assms(1) by (cases r) (auto dest: retire_None retire_Some(12))
qed

lemma remove_line:
  assumes "remove_pass i q = (p, r)" "distinct (q_pending q)"
  shows "\<exists>P. q_pending p = filter P (q_pending q)" "q_capacity p = q_capacity q"
proof -
  have true: "\<exists>P. q_pending q = filter P (q_pending q)" by (rule exI [of _ "\<lambda>_. True"]) simp
  show "\<exists>P. q_pending p = filter P (q_pending q)" "q_capacity p = q_capacity q"
    using assms true retire_line [OF _ assms(2)]
    by (fastforce simp: remove_pass_def remove_history_locked_def split: option.splits if_splits prod.splits)+
qed

lemma fold_pin_line [simp]:
  "q_pending (fold pin ns q) = q_pending q" "q_capacity (fold pin ns q) = q_capacity q"
  "q_pending (fold unpin ns q) = q_pending q" "q_capacity (fold unpin ns q) = q_capacity q"
  by (induction ns arbitrary: q) (simp_all add: pin_def unpin_def)

lemma simulates_select:
  assumes "lists_ok (qw_queue w)" "ids_ok (qw_queue w)" "q_active (qw_queue w) = None"
    "qw_worker w = QW_IDLE" and run: "worker_select answers (qw_queue w) g = (q, h, r)"
  shows "simulates w (w\<lparr>qw_queue := q,
      qw_worker := (case sel_node r of None \<Rightarrow> QW_IDLE | Some n \<Rightarrow> QW_RUNNING n)\<rparr>)" (is "simulates w ?v")
proof -
  obtain p where sel: "select_admissible answers (q_pending (qw_queue w)) False [] (qw_queue w) g = (p, h, r)"
      and q: "q = (case sel_node r of None \<Rightarrow> p | Some n \<Rightarrow> p\<lparr>q_active := Some n\<rparr>)"
    using run by (auto simp: worker_select_def split: prod.splits option.splits)
  have scan: "select_frame (qw_queue w) p
      \<and> scan_outcome answers (node_task (qw_queue w)) [] (q_pending (qw_queue w)) g (q_pending p) h r"
    using select_scan [OF sel _ assms(1-3), of "[]" "node_task (qw_queue w)"] by simp
  show ?thesis
  proof (cases "sel_node r")
    case None
    with scan q show ?thesis
      by (intro simulates_quiet)
        (auto simp: line_of_def scan_outcome_def live_nodes_def select_frame_def)
  next
    case (Some n)
    with scan obtain xs ys where "line_of w = xs @ n # ys"
        "q_pending p = live_nodes (node_task (qw_queue w)) xs @ ys"
      by (auto simp: scan_outcome_def line_of_def)
    then have "fifo_step (unat (q_capacity (qw_queue w))) (line_of w) (FIFO_DISPATCH n) (line_of ?v)"
      using fifo_dispatch [of _ xs n ys] by (simp add: line_of_def q Some live_nodes_def)
    moreover have "step_label w ?v = FIFO_DISPATCH n" using Some assms(4) by (simp add: step_label_def)
    ultimately show ?thesis using scan by (simp add: simulates_def q Some select_frame_def)
  qed
qed

lemma queue_step_simulates:
  assumes "queue_step w v" "queue_inv w"
  shows "simulates w v"
  using assms
proof (induction rule: queue_step.induct)
  case (step_add_complete n t w q r)
  have l: "lists_ok (qw_queue w)" and prot: "protocol_inv w"
    using step_add_complete by (simp_all add: queue_inv_def data_inv_def)
  let ?q = "(qw_queue w)\<lparr>q_active_producers := q_active_producers (qw_queue w) - 1\<rparr>"
  obtain p where p: "enqueue_locked n t ?q = (p, r)" "q = end_call_locked p"
    using step_add_complete by (auto simp: add_complete_def split: prod.splits)
  have "lists_ok ?q" using l by (simp add: lists_ok_def)
  moreover have "q_pending_count ?q < q_capacity ?q" if "r \<noteq> None"
    using step_add_complete p(1) that
    by (cases "q_stopping (qw_queue w)") (auto simp: add_ready_def enqueue_locked_def not_le)
  ultimately show ?case
    using protocolD(10) [OF prot] step_add_complete(1) p
    by (intro simulates_enqueue [OF _ _ _ p(1)]) (auto simp: line_of_def split: option.split)
next
  case (step_try_add w n t q result r)
  have l: "lists_ok (qw_queue w)" using step_try_add by (simp add: queue_inv_def data_inv_def)
  have "(\<exists>p. enqueue_locked n t (qw_queue w) = (p, r) \<and> q = end_call_locked p
        \<and> (r \<noteq> None \<longrightarrow> q_pending_count (qw_queue w) < q_capacity (qw_queue w)))
      \<or> q = end_call_locked (qw_queue w) \<and> r = None"
    using step_try_add by (auto simp: try_add_locked_def not_le split: if_splits prod.splits option.splits)
  then show ?case
  proof (elim disjE exE conjE)
    fix p assume p: "enqueue_locked n t (qw_queue w) = (p, r)" "q = end_call_locked p"
      "r \<noteq> None \<longrightarrow> q_pending_count (qw_queue w) < q_capacity (qw_queue w)"
    show ?case
      by (rule simulates_enqueue [OF l _ _ p(1)])
        (use p step_try_add(2) in \<open>auto simp: line_of_def fresh_address_def split: option.split\<close>)
  qed (auto intro!: simulates_same simp: line_of_def)
next
  case (step_cancel_retire n w q r)
  have l: "lists_ok (qw_queue w)" using step_cancel_retire by (simp add: queue_inv_def data_inv_def)
  have "distinct (q_pending (unpin n (qw_queue w)))" using lists_okD(3) [OF l] by simp
  from retire_line [OF step_cancel_retire(2) [unfolded cancel_retire_def] this]
  obtain P where "q_pending q = filter P (q_pending (unpin n (qw_queue w)))"
      "q_capacity q = q_capacity (unpin n (qw_queue w))"
    by blast
  then show ?case by (intro simulates_quiet [where P = P]) (simp_all add: line_of_def unpin_def)
next
  case (step_remove w i q r)
  have l: "lists_ok (qw_queue w)" using step_remove by (simp add: queue_inv_def data_inv_def)
  obtain P where "q_pending q = filter P (q_pending (qw_queue w))" "q_capacity q = q_capacity (qw_queue w)"
    using remove_line [OF step_remove(2) lists_okD(3) [OF l]] by blast
  then show ?case by (intro simulates_quiet [where P = P]) (simp_all add: line_of_def)
next
  case (step_remove_again i w q r)
  have l: "lists_ok (qw_queue w)" using step_remove_again by (simp add: queue_inv_def data_inv_def)
  show ?case
  proof (cases "q_stopping (qw_queue w)")
    case True
    with step_remove_again(2) show ?thesis
      by (intro simulates_same) (auto simp: line_of_def remove_after_wait_def)
  next
    case False
    then have "remove_pass i (qw_queue w) = (q, r)"
      using step_remove_again(2) by (simp add: remove_after_wait_def)
    from remove_line [OF this lists_okD(3) [OF l]]
    obtain P where "q_pending q = filter P (q_pending (qw_queue w))" "q_capacity q = q_capacity (qw_queue w)"
      by blast
    then show ?thesis by (intro simulates_quiet [where P = P]) (simp_all add: line_of_def)
  qed
next
  case (step_select w answers g q h r)
  have "protocol_inv w" using step_select by (simp add: queue_inv_def)
  then have "q_active (qw_queue w) = None"
    using protocolD(3) step_select(1) by (simp add: worker_node_def)
  with step_select show ?case
    by (intro simulates_select) (simp_all add: queue_inv_def data_inv_def)
next
  case (step_worker_retire w n q r)
  have "distinct (q_pending ((qw_queue w)\<lparr>q_active := None\<rparr>))"
    using step_worker_retire lists_okD(3) [of "qw_queue w"] by (simp add: queue_inv_def data_inv_def)
  from retire_line [OF step_worker_retire(2) [unfolded worker_retire_def] this]
  obtain P where "q_pending q = filter P (q_pending (qw_queue w))" "q_capacity q = q_capacity (qw_queue w)"
    by auto
  then show ?case
    by (intro simulates_quiet [where P = P]) (simp_all add: line_of_def)
next
  case (step_free w)
  then show ?case
    by (intro simulates_quiet [where P = "\<lambda>_. False"]) (simp_all add: line_of_def destroy_detach_def)
qed (auto intro!: simulates_same simp: line_of_def register_call_def enter_call_def add_register_def
  cancel_locked_def pause_locked_def resume_locked_def pin_def close_gate_def destroy_begin_def
  pin_all_def unpin_all_def release_call_locked_def end_call_locked_def Let_def
  split: if_splits option.splits prod.splits)

lemma run_capacity: "queue_run capacity w \<Longrightarrow> q_capacity (qw_queue w) = capacity"
proof (induction rule: queue_run.induct)
  case (run_create q)
  then show ?case by (auto simp: queue_create_def initial_world_def split: if_splits)
next
  case (run_step w v)
  with queue_step_simulates [OF _ queue_run_inv] show ?case by (auto simp: simulates_def)
qed

section \<open>A sample run\<close>

text \<open>A Queue of two places that has accepted one Task with an identifier it generated.\<close>

definition sample_queue :: task_queue where
  "sample_queue = the (queue_create True 2)"

definition entering_world :: queue_world where
  "entering_world = (initial_world sample_queue)\<lparr>qw_queue := fst (register_call sample_queue), qw_entering := 1\<rparr>"

definition added_world :: queue_world where
  "added_world = log_accepted sample_task (Some 1)
     (entered entering_world (fst (try_add_locked 1 sample_task (qw_queue entering_world))))"

definition closing_world :: queue_world where
  "closing_world = added_world\<lparr>qw_queue := fst (close_gate (qw_queue added_world)), qw_destroyer := QD_CLOSED\<rparr>"

lemma sample_entering:
  "q_pending (qw_queue entering_world) = []" "q_stopping (qw_queue entering_world) = False"
  "q_nodes (qw_queue entering_world) = Map.empty" "qw_adding entering_world = []"
  "qw_entering entering_world = 1" "qw_log entering_world = []" "qw_worker entering_world = QW_IDLE"
  by (simp_all add: entering_world_def initial_world_def sample_queue_def queue_create_def
    register_call_def call_gate_references_def CALL_GATE_CLOSING_def CALL_GATE_REFERENCES_def)

lemma sample_added:
  "snd (try_add_locked 1 sample_task (qw_queue entering_world)) = (QUEUE_ADD_OK, Some 1)"
  "q_pending (qw_queue added_world) = [1]" "qw_log added_world = [(1, True)]"
  "q_all (qw_queue added_world) = [1]" "q_call_gate (qw_queue added_world) = 0"
  "task_id (node_task (qw_queue added_world) 1) = 1" "q_history (qw_queue added_world) = []"
  "q_stopping (qw_queue added_world) = False"
  by (simp_all add: added_world_def entering_world_def initial_world_def sample_queue_def queue_create_def
    register_call_def call_gate_references_def CALL_GATE_CLOSING_def CALL_GATE_REFERENCES_def
    try_add_locked_def task_id_tk sample_task_fields enqueue_locked_def assign_id_def
    log_accepted_def end_call_locked_def release_call_locked_def link_node_def advance_next_id_def
    entered_def node_task_def Let_def)

lemma sample_runs:
  "queue_run 2 entering_world" "queue_step entering_world added_world" "queue_run 2 added_world"
  "queue_run 2 closing_world"
proof -
  have create: "queue_create True 2 = Some sample_queue" by (simp add: sample_queue_def queue_create_def)
  have "queue_run 2 (initial_world sample_queue)" by (rule run_create [OF create])
  moreover have "queue_step (initial_world sample_queue) entering_world"
    using step_register [of "initial_world sample_queue" "fst (register_call sample_queue)"]
    by (simp add: entering_world_def initial_world_def sample_queue_def queue_create_def register_call_def
      call_gate_references_def CALL_GATE_CLOSING_def CALL_GATE_REFERENCES_def)
  ultimately show run: "queue_run 2 entering_world" by (rule run_step)
  have "may_enter entering_world" "fresh_address 1 entering_world"
    by (simp_all add: may_enter_def enter_call_def fresh_address_def sample_entering)
  then show step: "queue_step entering_world added_world"
    unfolding added_world_def
    by (rule step_try_add [where result = QUEUE_ADD_OK]) (rule prod_eqI; simp only: fst_conv snd_conv sample_added(1))
  show added: "queue_run 2 added_world" by (rule run_step [OF run step])
  have "close_gate (qw_queue added_world) = (fst (close_gate (qw_queue added_world)), True)"
    by (simp add: close_gate_def sample_added(5) Let_def)
  then show "queue_run 2 closing_world"
    unfolding closing_world_def by (intro run_step [OF added] step_close)
qed

section \<open>Properties\<close>

text \<open>
  C21. The Queue's records at every moment of every interleaving of its worker, its callers and
  its destruction: identifiers are nonzero and no two live or retained records share one;
  waiting Tasks are linked, each once, and counted exactly; no more of them than the capacity
  wait and no more than 64 terminal records are retained; the Task being executed is linked and
  no longer waits.
\<close>

theorem queue_records_consistent:
  assumes "queue_run capacity w"
  shows "distinct (map (\<lambda>n. task_id (node_task (qw_queue w) n)) (q_all (qw_queue w))
        @ map ts_id (q_history (qw_queue w)))
    \<and> 0 \<notin> set (map (\<lambda>n. task_id (node_task (qw_queue w) n)) (q_all (qw_queue w))
        @ map ts_id (q_history (qw_queue w)))
    \<and> distinct (q_pending (qw_queue w)) \<and> set (q_pending (qw_queue w)) \<subseteq> set (q_all (qw_queue w))
    \<and> unat (q_pending_count (qw_queue w)) = length (q_pending (qw_queue w))
    \<and> length (q_pending (qw_queue w)) \<le> unat capacity
    \<and> length (q_history (qw_queue w)) \<le> QUEUE_HISTORY_CAPACITY
    \<and> (\<forall>n. q_active (qw_queue w) = Some n
        \<longrightarrow> n \<in> set (q_all (qw_queue w)) \<and> n \<notin> set (q_pending (qw_queue w)))"
proof -
  have l: "lists_ok (qw_queue w)" and i: "ids_ok (qw_queue w)"
    using select_frame_self [OF queue_run_inv [OF assms]] by simp_all
  from ids_okD(1,2) [OF i] lists_okD(3-9) [OF l] run_capacity [OF assms] show ?thesis
    by (simp add: record_ids_def live_ids_def history_ids_def)
qed

theorem queue_records_consistent_witness:
  "distinct [1 :: u64] \<and> set (q_pending (qw_queue added_world)) \<subseteq> {1 :: nat}
    \<and> length (q_pending (qw_queue added_world)) \<le> 2"
  using queue_records_consistent [OF sample_runs(3)] by (simp add: sample_added)

text \<open>
  An identifier the Queue generates is nonzero and different from every identifier the Queue
  accepted before it, generated or preassigned, whether that record is still live, retained in
  the history, evicted from it or removed; the log holds all accepted identifiers, newest first.
\<close>

theorem generated_identifiers_never_repeat:
  assumes "queue_run capacity w" and "qw_log w = later @ (i, True) # earlier"
  shows "i \<noteq> 0 \<and> i \<notin> fst ` set earlier
    \<and> set (map (\<lambda>n. task_id (node_task (qw_queue w) n)) (q_all (qw_queue w))
        @ map ts_id (q_history (qw_queue w))) \<subseteq> fst ` set (qw_log w)"
proof -
  have "data_inv w" using queue_run_inv [OF assms(1)] by (simp add: queue_inv_def)
  then show ?thesis
    using assms(2) by (simp add: data_inv_def log_ok_def record_ids_def live_ids_def history_ids_def)
qed

theorem generated_identifiers_never_repeat_witness:
  "(1 :: u64) \<noteq> 0 \<and> qw_log added_world = [] @ (1, True) # []
    \<and> {1} \<subseteq> fst ` set (qw_log added_world)"
  using generated_identifiers_never_repeat [OF sample_runs(3), of "[]" 1 "[]"] by (simp add: sample_added)

lemma sample_selects:
  "(case worker_select (\<lambda>_. (sample_env, unknown_telemetry)) (qw_queue added_world)
      sample_feedback_governor of (q, h, r) \<Rightarrow> (sel_node r, sel_reject r)) = (Some 1, False)"
  by code_simp

lemma sample_dispatch:
  obtains w where "queue_run 2 w" "qw_worker w = QW_RUNNING 1"
proof -
  obtain q h r where run: "worker_select (\<lambda>_. (sample_env, unknown_telemetry)) (qw_queue added_world)
      sample_feedback_governor = (q, h, r)" and r: "sel_node r = Some 1"
    using sample_selects by (auto split: prod.splits)
  have "qw_worker added_world = QW_IDLE" "\<not> q_stopping (qw_queue added_world)"
    by (simp_all add: added_world_def sample_entering sample_added(8) [unfolded added_world_def, simplified])
  then have "queue_run 2 (added_world\<lparr>qw_queue := q, qw_worker := QW_RUNNING 1\<rparr>)"
    using run_step [OF sample_runs(3) step_select [OF _ _ run]] r by simp
  then show ?thesis
    by (rule that) (rule queue_world.select_convs queue_world.update_convs | simp)+
qed



text \<open>
  C19. The Queue refines a bounded FIFO line: every critical section of every reachable world is
  a step of the abstract line, in which an accepted Task joins at the end of a line shorter
  than the capacity, the worker dispatches a Task past others that keep their relative order,
  and nothing else changes the order.
\<close>

theorem queue_refines_bounded_fifo:
  assumes "queue_run capacity w" and "queue_step w v"
  shows "fifo_step (unat capacity) (line_of w) (step_label w v) (line_of v)"
  using queue_step_simulates [OF assms(2) queue_run_inv [OF assms(1)]] run_capacity [OF assms(1)]
  by (simp add: simulates_def)

theorem queue_refines_bounded_fifo_witness:
  "fifo_step 2 [] (FIFO_ADD 1) [1]"
  using queue_refines_bounded_fifo [OF sample_runs(1,2)]
  by (simp add: line_of_def sample_added sample_entering step_label_def)

text \<open>
  C20. The worker dispatches the first Task, in submission order, that need not wait: every
  waiting Task before it was evaluated by the Governor and has to wait, or is already terminal
  (those leave the line); the dispatched Task was not evaluated as waiting, and it is started
  with its reservation unless its evaluation failed or was rejected. When nothing is
  dispatched, every Task left in line was evaluated and has to wait.
\<close>

theorem dispatch_is_first_admissible:
  assumes "queue_run capacity w" and "qw_worker w = QW_IDLE"
    and "worker_select answers (qw_queue w) g = (q, h, r)"
  shows "case sel_node r of
      None \<Rightarrow> q_pending q = live_nodes (node_task (qw_queue w)) (line_of w)
        \<and> passed_over answers (node_task (qw_queue w)) (line_of w) g = Some h
    | Some n \<Rightarrow> \<exists>before after g1 t a. line_of w = before @ n # after
        \<and> q_pending q = live_nodes (node_task (qw_queue w)) before @ after
        \<and> q_active q = Some n
        \<and> passed_over answers (node_task (qw_queue w)) before g = Some g1
        \<and> \<not> is_terminal (tk_state (node_task (qw_queue w) n))
        \<and> task_reserve_available (fst (answers n)) (snd (answers n)) (node_task (qw_queue w) n) g1 = (t, h, a)
        \<and> \<not> task_waits a
        \<and> (sel_reject r \<longleftrightarrow> \<not> (ta_ok a \<and> rd_kind (ta_decision a) \<noteq> RESOURCE_REJECT \<and> ta_reservation a \<noteq> None))
        \<and> (\<not> sel_reject r \<longrightarrow> sel_reservation r = ta_reservation a)"
proof -
  have inv: "queue_inv w" by (rule queue_run_inv [OF assms(1)])
  have idle: "q_active (qw_queue w) = None"
    using protocolD(3) [of w] inv assms(2) by (simp add: queue_inv_def worker_node_def)
  obtain p where sel: "select_admissible answers (line_of w) False [] (qw_queue w) g = (p, h, r)"
      and q: "q = (case sel_node r of None \<Rightarrow> p | Some n \<Rightarrow> p\<lparr>q_active := Some n\<rparr>)"
    using assms(3) by (auto simp: worker_select_def line_of_def split: prod.splits option.splits)
  have "scan_outcome answers (node_task (qw_queue w)) [] (line_of w) g (q_pending p) h r"
    using select_scan [OF sel _ _ _ idle, of "[]" "node_task (qw_queue w)"] select_frame_self [OF inv]
    by (simp add: line_of_def)
  then show ?thesis
    by (cases "sel_node r") (simp_all add: scan_outcome_def q)
qed

theorem dispatch_is_first_admissible_witness:
  "\<exists>q h r. worker_select (\<lambda>_. (sample_env, unknown_telemetry)) (qw_queue added_world)
      sample_feedback_governor = (q, h, r) \<and> q_active q = Some 1 \<and> q_pending q = []
      \<and> sel_reservation r \<noteq> None"
proof -
  obtain q h r where run: "worker_select (\<lambda>_. (sample_env, unknown_telemetry)) (qw_queue added_world)
      sample_feedback_governor = (q, h, r)" and r: "sel_node r = Some 1" "\<not> sel_reject r"
    using sample_selects by (auto split: prod.splits)
  have "qw_worker added_world = QW_IDLE"
    by (simp add: added_world_def sample_entering)
  from dispatch_is_first_admissible [OF sample_runs(3) this run] r
  obtain before after where "line_of added_world = before @ 1 # after"
      "q_pending q = live_nodes (node_task (qw_queue added_world)) before @ after"
      "q_active q = Some 1" "sel_reservation r \<noteq> None"
    by auto
  with run show ?thesis
    by (intro exI [of _ q] exI [of _ h] exI [of _ r])
      (simp add: line_of_def sample_added live_nodes_def Cons_eq_append_conv)
qed

section \<open>Observers\<close>

lemma copy_rows_take: "copy_rows capacity rows copied = copied @ take (capacity - length copied) rows"
  by (induction rows arbitrary: copied) (auto simp: take_Cons' not_less)

lemma history_backwards_rev: "history_backwards q = rev (q_history q)"
  by (rule nth_equalityI) (simp_all add: history_backwards_def rev_nth)

lemma snapshot_rows_take:
  "snapshot_rows capacity q = take capacity (map (\<lambda>n. task_snapshot_of (node_task q n)) (rev (q_all q))
    @ map observation_to_snapshot (rev (q_history q)))"
  by (cases "length (q_all q) \<le> capacity")
    (simp_all add: snapshot_rows_def copy_rows_take history_backwards_rev min_def)

lemma walk_back_nth:
  "walk_back nodes i = (if i < length nodes then (Some (nodes ! i), 0) else (None, i - length nodes))"
  by (induction nodes i rule: walk_back.induct) (auto simp: nth_Cons')

text \<open>
  \<open>get_at\<close> and \<open>snapshot\<close> agree: for an index within the caller's array, \<open>get_at\<close> finds
  exactly the row that \<open>snapshot\<close> copies at that index, and nothing beyond the copied rows; both
  find nothing when the call is not admitted.
\<close>

theorem get_at_is_snapshot_row:
  assumes "i < capacity"
  shows "queue_get_at i q = (let rows = fst (queue_snapshot capacity q)
    in if i < length rows then Some (rows ! i) else None)"
  using assms
  by (auto simp: queue_get_at_def queue_snapshot_def snapshot_rows_take walk_back_nth nth_append rev_nth
    Let_def)

theorem get_at_is_snapshot_row_witness:
  "map_option ts_id (queue_get_at 0 (qw_queue added_world)) = Some 1"
  using get_at_is_snapshot_row [of 0 2 "qw_queue added_world"]
  by (simp add: queue_snapshot_def snapshot_rows_take sample_added call_admitted_def begin_call_def
    register_call_def call_gate_references_def CALL_GATE_CLOSING_def CALL_GATE_REFERENCES_def
    enter_call_def task_id_def [symmetric] sample_added(6) [simplified] Let_def)

section \<open>Destruction completes\<close>

lemma drain_calls:
  assumes "queue_inv w" "qw_destroyer w = QD_STOPPING"
  shows "\<exists>v. queue_step\<^sup>*\<^sup>* w v \<and> qw_destroyer v = QD_STOPPING \<and> in_flight v = 0 \<and> queue_inv v
    \<and> qw_worker v = qw_worker w"
  using assms
proof (induction "2 * (qw_entering w + length (qw_adding w) + length (qw_cancelling w))
    + length (qw_removing w) + qw_leaving w" arbitrary: w rule: less_induct)
  case (less w)
  have prot: "protocol_inv w" using less.prems(1) by (simp add: queue_inv_def)
  have stop: "q_stopping (qw_queue w)" using protocolD(6) [OF prot] less.prems(2) by simp
  have next_world: ?case
    if "queue_step w v" "qw_destroyer v = QD_STOPPING" "qw_worker v = qw_worker w"
      "2 * (qw_entering v + length (qw_adding v) + length (qw_cancelling v)) + length (qw_removing v) + qw_leaving v
        < 2 * (qw_entering w + length (qw_adding w) + length (qw_cancelling w)) + length (qw_removing w) + qw_leaving w"
    for v
    using less.hyps [OF that(4) queue_step_inv [OF that(1) less.prems(1)] that(2)] that(1,3)
    by (auto intro: converse_rtranclp_into_rtranclp)
  consider (entering) "0 < qw_entering w" | (adding) n t where "(n, t) \<in> set (qw_adding w)"
    | (cancelling) n where "n \<in> set (qw_cancelling w)" | (removing) i where "i \<in> set (qw_removing w)"
    | (leaving) "0 < qw_leaving w" | (none) "in_flight w = 0"
    by (cases "qw_adding w"; cases "qw_cancelling w"; cases "qw_removing w") (auto simp: in_flight_def)
  then show ?case
  proof cases
    case entering
    have "queue_step w (entered w (release_call_locked (qw_queue w)))"
      using entering stop by (intro step_refused) (simp_all add: enter_call_def)
    then show ?thesis by (rule next_world) (use entering less.prems(2) in simp_all)
  next
    case (adding n t)
    obtain q r where "add_complete n t (qw_queue w) = (q, r)" by fastforce
    then have "queue_step w (log_accepted t r (w\<lparr>qw_queue := q, qw_adding := remove1 (n, t) (qw_adding w)\<rparr>))"
      using adding stop by (intro step_add_complete) (simp_all add: add_ready_def)
    then show ?thesis
      by (rule next_world)
        (use adding less.prems(2) length_pos_if_in_set [OF adding] in \<open>simp_all add: length_remove1\<close>)
  next
    case (cancelling n)
    obtain q r where "cancel_retire n (qw_queue w) = (q, r)" by fastforce
    from step_cancel_retire [OF cancelling this] show ?thesis
      by (rule next_world)
        (use cancelling less.prems(2) length_pos_if_in_set [OF cancelling] in
          \<open>simp_all add: length_remove1, linarith?\<close>)
  next
    case (removing i)
    have "remove_after_wait i (qw_queue w) = (end_call_locked (qw_queue w), REMOVE_ANSWER False)"
      using stop by (simp add: remove_after_wait_def)
    from step_remove_again [OF removing this] show ?thesis
      by (rule next_world)
        (use removing less.prems(2) length_pos_if_in_set [OF removing] in
          \<open>simp_all add: length_remove1 after_remove_def\<close>)
  next
    case leaving
    from step_leave [OF this] show ?thesis
      by (rule next_world) (use leaving less.prems(2) in simp_all)
  next
    case none
    with less.prems show ?thesis by blast
  qed
qed

lemma worker_exits:
  assumes "queue_inv w" "q_stopping (qw_queue w)"
  shows "\<exists>v. queue_step\<^sup>*\<^sup>* w v \<and> qw_destroyer v = qw_destroyer w \<and> qw_worker v = QW_EXITED"
proof -
  have exit: "\<exists>v. queue_step\<^sup>*\<^sup>* u v \<and> qw_destroyer v = qw_destroyer u \<and> qw_worker v = QW_EXITED"
    if "qw_worker u = QW_IDLE" "q_stopping (qw_queue u)" for u
    using step_worker_exit [OF that] by (intro exI [of _ "u\<lparr>qw_worker := QW_EXITED\<rparr>"]) auto
  show ?thesis
  proof (cases "qw_worker w")
    case (QW_RUNNING n)
    obtain q r where run: "worker_retire n (qw_queue w) = (q, r)" by fastforce
    let ?u = "w\<lparr>qw_queue := q, qw_worker := QW_IDLE\<rparr>"
    have step: "queue_step w ?u" by (rule step_worker_retire [OF QW_RUNNING run])
    have "queue_inv ?u" by (rule queue_step_inv [OF step assms(1)])
    then have "q_stopping q"
      using protocolD(6) [of ?u] protocolD(6) [of w] assms by (simp add: queue_inv_def)
    with exit [of ?u] step show ?thesis by (auto intro: converse_rtranclp_into_rtranclp)
  qed (use exit [of w] assms in auto)
qed



end
