(* ===== verification/Ssd_State.thy ===== *)
theory Ssd_State
  imports L3D_Prelude
begin

text \<open>
  The external SSD controller of \<open>src/ssd_controller.c\<close>: its data, the validation of an
  observation, the derivation of the public snapshot, and the cached poll of the provider. The
  provider (UDisks over D-Bus in production, a fake in tests) is a parameter: its operations act
  on a provider state of any type and may answer anything.
\<close>

section \<open>Data\<close>

definition SSD_TEXT_CAPACITY :: nat where "SSD_TEXT_CAPACITY = 128"
definition SSD_IDENTITY_CAPACITY :: nat where "SSD_IDENTITY_CAPACITY = 256"
definition SSD_PATH_CAPACITY :: nat where "SSD_PATH_CAPACITY = 256"
definition SSD_REASON_CAPACITY :: nat where "SSD_REASON_CAPACITY = 256"
definition SSD_MAX_SCRATCH_LEASES :: nat where "SSD_MAX_SCRATCH_LEASES = 64"
definition SSD_DEFAULT_POLL_INTERVAL_NS :: u64 where "SSD_DEFAULT_POLL_INTERVAL_NS = 1000000000"
definition SSD_HOST_MEMORY_RESERVE_BYTES :: u64 where
  "SSD_HOST_MEMORY_RESERVE_BYTES = 3 * 1024 * 1024 * 1024"

definition SSD_SWAP_LABEL :: string where "SSD_SWAP_LABEL = ''LARDON_SWAP''"
definition SSD_SCRATCH_LABEL :: string where "SSD_SCRATCH_LABEL = ''LARDON_SCRATCH''"
definition SSD_SCRATCH_MOUNT_PATH :: string where "SSD_SCRATCH_MOUNT_PATH = ''/mnt/lardon-scratch''"

datatype ssd_state =
  SSD_ABSENT | SSD_DETECTED | SSD_ENABLING | SSD_ENABLED | SSD_IN_USE | SSD_DRAINING
  | SSD_SAFE_TO_UNPLUG | SSD_ERROR

datatype ssd_control_result = SSD_CONTROL_OK | SSD_CONTROL_PENDING | SSD_CONTROL_ERROR

record ssd_lease =
  xl_opaque_controller :: u64
  xl_opaque_lease_id :: u64

record ssd_swap =
  vs_present :: bool
  vs_unit_ready :: bool
  vs_interface_available :: bool
  vs_size_bytes :: u64
  vs_label :: string
  vs_uuid :: string
  vs_drive_identity :: string
  vs_object_path :: string
  vs_device :: string
  vs_active_known :: bool
  vs_active :: bool
  vs_total_known :: bool
  vs_used_known :: bool
  vs_total_bytes :: u64
  vs_used_bytes :: u64

record ssd_scratch =
  vm_present :: bool
  vm_unit_ready :: bool
  vm_interface_available :: bool
  vm_size_bytes :: u64
  vm_label :: string
  vm_uuid :: string
  vm_drive_identity :: string
  vm_object_path :: string
  vm_device :: string
  vm_mounted :: bool
  vm_total_known :: bool
  vm_free_known :: bool
  vm_total_bytes :: u64
  vm_free_bytes :: u64
  vm_mount_path :: string

record ssd_observation =
  po_model_known :: bool
  po_serial_known :: bool
  po_connection_speed_known :: bool
  po_model :: string
  po_serial :: string
  po_connection_speed_mbps :: u64
  po_ambiguous_labels :: bool
  po_invalid_observation :: bool
  po_invalid_reason :: string
  po_swap :: ssd_swap
  po_scratch :: ssd_scratch
  po_memory_available_known :: bool
  po_memory_available_bytes :: u64
  po_memory_pressure_known :: bool
  po_memory_pressure_elevated :: bool
  po_io_pressure_known :: bool
  po_io_pressure_elevated :: bool
  po_swap_activity_known :: bool
  po_swap_pages_in_delta :: u64
  po_swap_pages_out_delta :: u64

record ssd_snapshot =
  xs_state :: ssd_state
  xs_generation :: u64
  xs_device_detected :: bool
  xs_pairing_valid :: bool
  xs_model_known :: bool
  xs_serial_known :: bool
  xs_connection_speed_known :: bool
  xs_model :: string
  xs_serial :: string
  xs_drive_identity :: string
  xs_connection_speed_mbps :: u64
  xs_swap_detected :: bool
  xs_scratch_detected :: bool
  xs_swap_uuid :: string
  xs_scratch_uuid :: string
  xs_swap_device :: string
  xs_scratch_device :: string
  xs_swap_partition_size_known :: bool
  xs_scratch_partition_size_known :: bool
  xs_swap_partition_size_bytes :: u64
  xs_scratch_partition_size_bytes :: u64
  xs_swap_active :: bool
  xs_swap_total_known :: bool
  xs_swap_used_known :: bool
  xs_swap_total_bytes :: u64
  xs_swap_used_bytes :: u64
  xs_scratch_mounted :: bool
  xs_scratch_total_known :: bool
  xs_scratch_free_known :: bool
  xs_scratch_total_bytes :: u64
  xs_scratch_free_bytes :: u64
  xs_scratch_mount_path :: string
  xs_scratch_lease_count :: nat
  xs_scratch_lease_capacity :: nat
  xs_drain_requested :: bool
  xs_scratch_allocations_allowed :: bool
  xs_can_enable :: bool
  xs_can_disable :: bool
  xs_can_cancel_drain :: bool
  xs_reason :: string

datatype observation_status =
  OBSERVATION_ABSENT | OBSERVATION_INCOMPLETE | OBSERVATION_VALID | OBSERVATION_INVALID

text \<open>
  The provider's operations on its state: the monotonic clock, a poll (a reason, or what was
  observed), and the four actions, which answer success and a reason; a mount also answers the
  path it used.
\<close>

record 'p ssd_ops =
  op_now :: "'p \<Rightarrow> 'p \<times> u64 option"
  op_refresh :: "'p \<Rightarrow> 'p \<times> (string + ssd_observation)"
  op_start_swap :: "string \<Rightarrow> 'p \<Rightarrow> 'p \<times> bool \<times> string"
  op_stop_swap :: "string \<Rightarrow> 'p \<Rightarrow> 'p \<times> bool \<times> string"
  op_mount_scratch :: "string \<Rightarrow> 'p \<Rightarrow> 'p \<times> bool \<times> string \<times> string"
  op_unmount_scratch :: "string \<Rightarrow> 'p \<Rightarrow> 'p \<times> bool \<times> string"

text \<open>
  What the controller asked of its provider, newest first: a poll with what it observed, and the
  actions with the object path they were given. The log is the model's own.
\<close>

datatype ssd_event =
  SSD_POLLED ssd_observation | SSD_POLL_FAILED
  | SSD_START string | SSD_STOP string | SSD_MOUNT string | SSD_UNMOUNT string

text \<open>An active lease is the pair of its identifier and the address of the caller's object.\<close>

record 'p ssd_controller =
  xc_provider :: 'p
  xc_minimum_poll_interval_ns :: u64
  xc_have_poll_time :: bool
  xc_last_poll_ns :: u64
  xc_last_poll_succeeded :: bool
  xc_have_observation :: bool
  xc_observation :: ssd_observation
  xc_refresh_error :: bool
  xc_refresh_reason :: string
  xc_operation_error :: bool
  xc_operation_reason :: string
  xc_drain_requested :: bool
  xc_drain_reason :: string
  xc_safe_latched :: bool
  xc_last_drive_identity :: string
  xc_last_swap_uuid :: string
  xc_last_scratch_uuid :: string
  xc_physical_hazard_latched :: bool
  xc_hazard_drive_identity :: string
  xc_hazard_swap_uuid :: string
  xc_hazard_scratch_uuid :: string
  xc_next_lease_id :: u64
  xc_active_leases :: "(u64 \<times> nat) list"
  xc_lease_count :: nat
  xc_generation :: u64
  xc_snapshot :: ssd_snapshot
  xc_log :: "ssd_event list"

definition text_is_present :: "string \<Rightarrow> bool" where
  "text_is_present t \<longleftrightarrow> t \<noteq> []"

definition bump_generation_locked :: "'p ssd_controller \<Rightarrow> 'p ssd_controller" where
  "bump_generation_locked c =
     (let c = (if xc_generation c \<noteq> UINT64_MAX then c\<lparr>xc_generation := xc_generation c + 1\<rparr> else c)
      in c\<lparr>xc_snapshot := (xc_snapshot c)\<lparr>xs_generation := xc_generation c\<rparr>\<rparr>)"

abbreviation UNKNOWN :: string where "UNKNOWN \<equiv> ''UNKNOWN''"

definition initialize_unknown_snapshot :: ssd_snapshot where
  "initialize_unknown_snapshot =
     \<lparr>xs_state = SSD_ABSENT, xs_generation = 0, xs_device_detected = False, xs_pairing_valid = False,
      xs_model_known = False, xs_serial_known = False, xs_connection_speed_known = False,
      xs_model = UNKNOWN, xs_serial = UNKNOWN, xs_drive_identity = UNKNOWN,
      xs_connection_speed_mbps = 0, xs_swap_detected = False, xs_scratch_detected = False,
      xs_swap_uuid = UNKNOWN, xs_scratch_uuid = UNKNOWN, xs_swap_device = UNKNOWN,
      xs_scratch_device = UNKNOWN, xs_swap_partition_size_known = False,
      xs_scratch_partition_size_known = False, xs_swap_partition_size_bytes = 0,
      xs_scratch_partition_size_bytes = 0, xs_swap_active = False, xs_swap_total_known = False,
      xs_swap_used_known = False, xs_swap_total_bytes = 0, xs_swap_used_bytes = 0,
      xs_scratch_mounted = False, xs_scratch_total_known = False, xs_scratch_free_known = False,
      xs_scratch_total_bytes = 0, xs_scratch_free_bytes = 0, xs_scratch_mount_path = UNKNOWN,
      xs_scratch_lease_count = 0, xs_scratch_lease_capacity = SSD_MAX_SCRATCH_LEASES,
      xs_drain_requested = False, xs_scratch_allocations_allowed = False, xs_can_enable = False,
      xs_can_disable = False, xs_can_cancel_drain = False,
      xs_reason = ''External Lardon SSD is absent''\<rparr>"

section \<open>Validation and identity\<close>

text \<open>The status of an observation, and the reason text that goes with it.\<close>

definition validate_observation :: "ssd_observation \<Rightarrow> observation_status \<times> string" where
  "validate_observation ob =
     (let swap = po_swap ob; scratch = po_scratch ob in
      if po_invalid_observation ob
      then (OBSERVATION_INVALID, copy_text SSD_REASON_CAPACITY
        (if text_is_present (po_invalid_reason ob) then po_invalid_reason ob
         else ''Provider returned an invalid SSD observation''))
      else if po_ambiguous_labels ob
      then (OBSERVATION_INVALID, ''Multiple partitions have a reserved Lardon SSD label'')
      else if \<not> vs_present swap \<and> \<not> vm_present scratch
      then (OBSERVATION_ABSENT, ''External Lardon SSD is absent'')
      else if \<not> vs_present swap \<or> \<not> vm_present scratch
      then (OBSERVATION_INCOMPLETE,
        if vs_present swap then ''LARDON_SCRATCH partition is missing''
        else ''LARDON_SWAP partition is missing'')
      else if vs_label swap \<noteq> SSD_SWAP_LABEL \<or> vm_label scratch \<noteq> SSD_SCRATCH_LABEL
      then (OBSERVATION_INVALID, ''Reserved SSD partition labels do not match exactly'')
      else if \<not> text_is_present (vs_uuid swap) \<or> \<not> text_is_present (vm_uuid scratch)
      then (OBSERVATION_INVALID, ''Both reserved SSD partitions require stable nonempty UUIDs'')
      else if \<not> text_is_present (vs_drive_identity swap) \<or> \<not> text_is_present (vm_drive_identity scratch)
        \<or> vs_drive_identity swap \<noteq> vm_drive_identity scratch
      then (OBSERVATION_INVALID, ''Reserved SSD partitions do not belong to the same UDisks Drive'')
      else if \<not> vs_unit_ready swap \<or> \<not> vm_unit_ready scratch
      then (OBSERVATION_INVALID, ''Reserved SSD drive reports Unit Not Ready'')
      else if vs_size_bytes swap = 0 \<or> vm_size_bytes scratch = 0
      then (OBSERVATION_INVALID, ''Reserved SSD partition has zero usable size'')
      else if \<not> vs_interface_available swap \<or> \<not> vm_interface_available scratch
        \<or> \<not> text_is_present (vs_object_path swap) \<or> \<not> text_is_present (vm_object_path scratch)
        \<or> \<not> text_is_present (vs_device swap) \<or> \<not> text_is_present (vm_device scratch)
      then (OBSERVATION_INVALID,
        ''Reserved SSD partition lacks a required UDisks interface or current path'')
      else if \<not> vs_active_known swap
      then (OBSERVATION_INVALID, ''UDisks Swapspace lacks exact boolean Active telemetry'')
      else (OBSERVATION_VALID, []))"

definition observation_status :: "ssd_observation \<Rightarrow> observation_status" where
  "observation_status ob = fst (validate_observation ob)"

definition observation_matches_identity :: "ssd_observation \<Rightarrow> string \<Rightarrow> string \<Rightarrow> string \<Rightarrow> bool" where
  "observation_matches_identity ob drive_identity swap_uuid scratch_uuid \<longleftrightarrow>
     text_is_present drive_identity \<and> text_is_present swap_uuid \<and> text_is_present scratch_uuid
     \<and> vs_drive_identity (po_swap ob) = drive_identity
     \<and> vm_drive_identity (po_scratch ob) = drive_identity
     \<and> vs_uuid (po_swap ob) = swap_uuid \<and> vm_uuid (po_scratch ob) = scratch_uuid"

definition remember_identity_locked :: "ssd_observation \<Rightarrow> 'p ssd_controller \<Rightarrow> 'p ssd_controller" where
  "remember_identity_locked ob c =
     c\<lparr>xc_last_drive_identity := copy_text SSD_IDENTITY_CAPACITY (vs_drive_identity (po_swap ob)),
       xc_last_swap_uuid := copy_text SSD_TEXT_CAPACITY (vs_uuid (po_swap ob)),
       xc_last_scratch_uuid := copy_text SSD_TEXT_CAPACITY (vm_uuid (po_scratch ob))\<rparr>"

definition forget_identity_locked :: "'p ssd_controller \<Rightarrow> 'p ssd_controller" where
  "forget_identity_locked c =
     c\<lparr>xc_last_drive_identity := [], xc_last_swap_uuid := [], xc_last_scratch_uuid := []\<rparr>"

definition latch_physical_hazard_locked :: "'p ssd_controller \<Rightarrow> 'p ssd_controller" where
  "latch_physical_hazard_locked c =
     (if xc_physical_hazard_latched c then c
      else c\<lparr>xc_hazard_drive_identity := copy_text SSD_IDENTITY_CAPACITY (xc_last_drive_identity c),
             xc_hazard_swap_uuid := copy_text SSD_TEXT_CAPACITY (xc_last_swap_uuid c),
             xc_hazard_scratch_uuid := copy_text SSD_TEXT_CAPACITY (xc_last_scratch_uuid c),
             xc_physical_hazard_latched := True\<rparr>)"

definition observation_is_hazard_pair_locked :: "'p ssd_controller \<Rightarrow> bool" where
  "observation_is_hazard_pair_locked c \<longleftrightarrow>
     xc_physical_hazard_latched c \<and> xc_have_observation c
     \<and> observation_status (xc_observation c) = OBSERVATION_VALID
     \<and> observation_matches_identity (xc_observation c)
         (xc_hazard_drive_identity c) (xc_hazard_swap_uuid c) (xc_hazard_scratch_uuid c)"

definition clear_physical_hazard_locked :: "'p ssd_controller \<Rightarrow> 'p ssd_controller" where
  "clear_physical_hazard_locked c =
     c\<lparr>xc_physical_hazard_latched := False, xc_hazard_drive_identity := [],
       xc_hazard_swap_uuid := [], xc_hazard_scratch_uuid := []\<rparr>"

definition bind_possible_enable_side_effect_locked :: "'p ssd_controller \<Rightarrow> 'p ssd_controller" where
  "bind_possible_enable_side_effect_locked c =
     c\<lparr>xc_hazard_drive_identity :=
         copy_text SSD_IDENTITY_CAPACITY (vs_drive_identity (po_swap (xc_observation c))),
       xc_hazard_swap_uuid := copy_text SSD_TEXT_CAPACITY (vs_uuid (po_swap (xc_observation c))),
       xc_hazard_scratch_uuid := copy_text SSD_TEXT_CAPACITY (vm_uuid (po_scratch (xc_observation c))),
       xc_physical_hazard_latched := True, xc_safe_latched := False\<rparr>"

section \<open>The public snapshot\<close>

definition copy_observation_to_snapshot_locked :: "'p ssd_controller \<Rightarrow> 'p ssd_controller" where
  "copy_observation_to_snapshot_locked c =
     (let ob = xc_observation c; swap = po_swap ob; scratch = po_scratch ob;
          next = initialize_unknown_snapshot\<lparr>xs_generation := xc_generation c,
            xs_device_detected := vs_present swap \<or> vm_present scratch,
            xs_swap_detected := vs_present swap, xs_scratch_detected := vm_present scratch\<rparr>;
          next = (if po_model_known ob \<and> text_is_present (po_model ob)
            then next\<lparr>xs_model_known := True, xs_model := copy_text SSD_TEXT_CAPACITY (po_model ob)\<rparr>
            else next);
          next = (if po_serial_known ob \<and> text_is_present (po_serial ob)
            then next\<lparr>xs_serial_known := True, xs_serial := copy_text SSD_TEXT_CAPACITY (po_serial ob)\<rparr>
            else next);
          next = (if po_connection_speed_known ob
            then next\<lparr>xs_connection_speed_known := True,
              xs_connection_speed_mbps := po_connection_speed_mbps ob\<rparr>
            else next);
          next = (if vs_present swap
            then next\<lparr>xs_swap_uuid := copy_text SSD_TEXT_CAPACITY (vs_uuid swap),
              xs_swap_device := copy_text SSD_PATH_CAPACITY (vs_device swap),
              xs_swap_partition_size_known := vs_size_bytes swap > 0,
              xs_swap_partition_size_bytes := vs_size_bytes swap\<rparr>
            else next);
          next = (if vm_present scratch
            then next\<lparr>xs_scratch_uuid := copy_text SSD_TEXT_CAPACITY (vm_uuid scratch),
              xs_scratch_device := copy_text SSD_PATH_CAPACITY (vm_device scratch),
              xs_scratch_partition_size_known := vm_size_bytes scratch > 0,
              xs_scratch_partition_size_bytes := vm_size_bytes scratch\<rparr>
            else next);
          next = (if text_is_present (vs_drive_identity swap)
              \<and> text_is_present (vm_drive_identity scratch)
              \<and> vs_drive_identity swap = vm_drive_identity scratch
            then next\<lparr>xs_drive_identity := copy_text SSD_IDENTITY_CAPACITY (vs_drive_identity swap)\<rparr>
            else next);
          next = next\<lparr>xs_swap_active := vs_active swap, xs_swap_total_known := vs_total_known swap,
            xs_swap_used_known := vs_used_known swap, xs_swap_total_bytes := vs_total_bytes swap,
            xs_swap_used_bytes := vs_used_bytes swap, xs_scratch_mounted := vm_mounted scratch,
            xs_scratch_total_known := vm_total_known scratch,
            xs_scratch_free_known := vm_free_known scratch,
            xs_scratch_total_bytes := vm_total_bytes scratch,
            xs_scratch_free_bytes := vm_free_bytes scratch\<rparr>;
          next = (if vm_mounted scratch
            then next\<lparr>xs_scratch_mount_path := copy_text SSD_PATH_CAPACITY (vm_mount_path scratch)\<rparr>
            else next);
          next = next\<lparr>xs_scratch_lease_count := xc_lease_count c,
            xs_scratch_lease_capacity := SSD_MAX_SCRATCH_LEASES,
            xs_drain_requested := xc_drain_requested c\<rparr>
      in c\<lparr>xc_snapshot := next\<rparr>)"

text \<open>
  \<open>derive_state_locked\<close>, in its parts: the common fields; the identity that is reported, and
  what is withheld, while a hazard is latched; the state and its reason; the authority flags.
\<close>

definition derive_common :: "observation_status \<Rightarrow> bool \<Rightarrow> 'p ssd_controller \<Rightarrow> ssd_snapshot" where
  "derive_common status recovery_pair c =
     (xc_snapshot c)\<lparr>xs_scratch_lease_count := xc_lease_count c,
       xs_scratch_lease_capacity := SSD_MAX_SCRATCH_LEASES,
       xs_drain_requested := xc_drain_requested c,
       xs_pairing_valid := (status = OBSERVATION_VALID
         \<and> (\<not> xc_physical_hazard_latched c \<or> recovery_pair)),
       xs_generation := xc_generation c, xs_can_enable := False, xs_can_disable := False,
       xs_can_cancel_drain := False, xs_scratch_allocations_allowed := False\<rparr>"

definition known_or_unknown :: "string \<Rightarrow> string" where
  "known_or_unknown t = (if text_is_present t then t else UNKNOWN)"

definition withhold_replacement :: "ssd_snapshot \<Rightarrow> ssd_snapshot" where
  "withhold_replacement s =
     s\<lparr>xs_model_known := False, xs_serial_known := False, xs_connection_speed_known := False,
       xs_model := UNKNOWN, xs_serial := UNKNOWN, xs_connection_speed_mbps := 0,
       xs_swap_device := UNKNOWN, xs_scratch_device := UNKNOWN, xs_scratch_mount_path := UNKNOWN,
       xs_swap_active := False, xs_swap_total_known := False, xs_swap_used_known := False,
       xs_swap_total_bytes := 0, xs_swap_used_bytes := 0, xs_scratch_mounted := False,
       xs_scratch_total_known := False, xs_scratch_free_known := False,
       xs_scratch_total_bytes := 0, xs_scratch_free_bytes := 0,
       xs_swap_partition_size_known := False, xs_scratch_partition_size_known := False,
       xs_swap_partition_size_bytes := 0, xs_scratch_partition_size_bytes := 0\<rparr>"

definition hazard_reason :: "observation_status \<Rightarrow> string \<Rightarrow> bool \<Rightarrow> 'p ssd_controller \<Rightarrow> string" where
  "hazard_reason status validation_reason recovery_pair c =
     copy_text SSD_REASON_CAPACITY
      (if xc_refresh_error c
       then ''Physical SSD ownership remains unresolved; '' @ xc_refresh_reason c
       else if recovery_pair
       then ''Original Drive/UUID pair reconnected after an unsafe disappearance; ''
         @ ''a verified drain is required''
       else if status = OBSERVATION_VALID
       then ''Stable Drive/UUID pair changed while physical ownership is unresolved; ''
         @ ''reconnect the original pair to drain it''
       else if status = OBSERVATION_INCOMPLETE \<or> status = OBSERVATION_INVALID
       then ''Physical SSD ownership remains unresolved: '' @ validation_reason
       else ''External SSD disappeared while active, leased, or draining; ''
         @ ''physical ownership remains unresolved'')"

definition derive_hazard ::
    "observation_status \<Rightarrow> string \<Rightarrow> bool \<Rightarrow> 'p ssd_controller \<Rightarrow> ssd_snapshot \<Rightarrow> ssd_snapshot" where
  "derive_hazard status validation_reason recovery_pair c s =
     (let s = s\<lparr>xs_drive_identity := known_or_unknown (xc_hazard_drive_identity c),
            xs_swap_uuid := known_or_unknown (xc_hazard_swap_uuid c),
            xs_scratch_uuid := known_or_unknown (xc_hazard_scratch_uuid c)\<rparr>;
          s = (if \<not> recovery_pair then withhold_replacement s else s)
      in s\<lparr>xs_state := SSD_ERROR,
           xs_reason := hazard_reason status validation_reason recovery_pair c\<rparr>)"

definition derive_ordinary ::
    "observation_status \<Rightarrow> string \<Rightarrow> 'p ssd_controller \<Rightarrow> ssd_snapshot \<Rightarrow> ssd_state \<times> string" where
  "derive_ordinary status validation_reason c s =
     (if xc_refresh_error c then (SSD_ERROR, xc_refresh_reason c)
      else if status = OBSERVATION_ABSENT
      then (if xc_drain_requested c
            then (SSD_ERROR, ''Cannot drain because the paired external SSD is absent'')
            else (SSD_ABSENT, validation_reason))
      else if status = OBSERVATION_INCOMPLETE
      then (if xc_drain_requested c then SSD_ERROR else SSD_DETECTED, validation_reason)
      else if status = OBSERVATION_INVALID then (SSD_ERROR, validation_reason)
      else if xc_operation_error c then (SSD_ERROR, xc_operation_reason c)
      else if xc_safe_latched c \<and> \<not> xs_swap_active s \<and> \<not> xs_scratch_mounted s
      then (SSD_SAFE_TO_UNPLUG,
        ''Swap is inactive and scratch is unmounted; device is safe to unplug'')
      else if xc_drain_requested c
      then (SSD_DRAINING,
        if text_is_present (xc_drain_reason c) then xc_drain_reason c else ''Drain is pending'')
      else if xs_swap_active s \<and> xs_scratch_mounted s
      then (if xs_scratch_mount_path s \<noteq> SSD_SCRATCH_MOUNT_PATH
            then (SSD_ERROR, ''Scratch filesystem is mounted at an unexpected path'')
            else if xc_lease_count c > 0
            then (SSD_IN_USE, ''External SSD is enabled and scratch has active leases'')
            else (SSD_ENABLED, ''External SSD swap and scratch are enabled''))
      else if xc_lease_count c > 0
      then (SSD_ERROR, ''Scratch became unavailable while leases remain active'')
      else (SSD_DETECTED,
        if xs_swap_active s
        then ''External SSD is partially active: swap is active but scratch is unmounted''
        else if xs_scratch_mounted s
        then ''External SSD is partially active: scratch is mounted but swap is inactive''
        else ''Healthy paired external SSD is detected but disabled''))"

definition allocations_allowed :: "observation_status \<Rightarrow> 'p ssd_controller \<Rightarrow> ssd_snapshot \<Rightarrow> bool" where
  "allocations_allowed status c s \<longleftrightarrow>
     \<not> xc_refresh_error c \<and> \<not> xc_operation_error c \<and> \<not> xc_physical_hazard_latched c
     \<and> status = OBSERVATION_VALID \<and> xs_pairing_valid s \<and> \<not> xc_drain_requested c
     \<and> xs_swap_active s \<and> xs_scratch_mounted s
     \<and> xs_scratch_mount_path s = SSD_SCRATCH_MOUNT_PATH
     \<and> xc_lease_count c < SSD_MAX_SCRATCH_LEASES \<and> xc_next_lease_id c \<noteq> 0
     \<and> (xs_state s = SSD_ENABLED \<or> xs_state s = SSD_IN_USE)"

definition derive_actions ::
    "observation_status \<Rightarrow> bool \<Rightarrow> 'p ssd_controller \<Rightarrow> ssd_snapshot \<Rightarrow> ssd_snapshot" where
  "derive_actions status recovery_pair c s =
     (let s = s\<lparr>xs_scratch_allocations_allowed := allocations_allowed status c s\<rparr> in
      if xc_refresh_error c then s
      else if xc_physical_hazard_latched c then s\<lparr>xs_can_disable := recovery_pair\<rparr>
      else if status \<noteq> OBSERVATION_VALID \<or> \<not> xs_pairing_valid s then s
      else if xs_state s = SSD_DRAINING then s\<lparr>xs_can_cancel_drain := xc_drain_requested c\<rparr>
      else if xs_state s = SSD_ENABLED \<or> xs_state s = SSD_IN_USE
        \<or> (xs_state s = SSD_DETECTED \<and> (xs_swap_active s \<or> xs_scratch_mounted s))
        \<or> (xs_state s = SSD_ERROR \<and> (xs_swap_active s \<or> xs_scratch_mounted s \<or> xc_drain_requested c))
      then s\<lparr>xs_can_disable := True\<rparr>
      else if (xs_state s = SSD_DETECTED \<and> \<not> xs_swap_active s \<and> \<not> xs_scratch_mounted s)
        \<or> xs_state s = SSD_SAFE_TO_UNPLUG
      then s\<lparr>xs_can_enable := True\<rparr>
      else s)"

definition derive_state_locked :: "'p ssd_controller \<Rightarrow> 'p ssd_controller" where
  "derive_state_locked c =
     (let (status, validation_reason) = (if xc_have_observation c
            then validate_observation (xc_observation c) else (OBSERVATION_ABSENT, []));
          recovery_pair = observation_is_hazard_pair_locked c;
          s = derive_common status recovery_pair c;
          s = (if xc_physical_hazard_latched c
               then derive_hazard status validation_reason recovery_pair c s
               else let (state, reason) = derive_ordinary status validation_reason c s
                    in s\<lparr>xs_state := state, xs_reason := reason\<rparr>)
      in c\<lparr>xc_snapshot := derive_actions status recovery_pair c s\<rparr>)"

section \<open>Polling\<close>

definition previously_owned :: "'p ssd_controller \<Rightarrow> bool" where
  "previously_owned c \<longleftrightarrow>
     xc_physical_hazard_latched c \<or> xs_swap_active (xc_snapshot c) \<or> xs_scratch_mounted (xc_snapshot c)
     \<or> xc_lease_count c > 0
     \<or> (xc_drain_requested c \<and> text_is_present (xc_last_drive_identity c) \<and> \<not> xc_safe_latched c)"

definition have_remembered_identity :: "'p ssd_controller \<Rightarrow> bool" where
  "have_remembered_identity c \<longleftrightarrow>
     text_is_present (xc_last_drive_identity c) \<and> text_is_present (xc_last_swap_uuid c)
     \<and> text_is_present (xc_last_scratch_uuid c)"

definition same_remembered_pair :: "ssd_observation \<Rightarrow> 'p ssd_controller \<Rightarrow> bool" where
  "same_remembered_pair ob c \<longleftrightarrow>
     observation_status ob = OBSERVATION_VALID \<and> have_remembered_identity c
     \<and> observation_matches_identity ob
         (xc_last_drive_identity c) (xc_last_swap_uuid c) (xc_last_scratch_uuid c)"

text \<open>What a successful poll does to ownership, before the observation replaces the last one.\<close>

definition resolve_ownership :: "ssd_observation \<Rightarrow> 'p ssd_controller \<Rightarrow> 'p ssd_controller" where
  "resolve_ownership ob c =
     (let owned = previously_owned c; status = observation_status ob; same = same_remembered_pair ob c;
          c = (if \<not> xc_physical_hazard_latched c \<and> owned \<and> have_remembered_identity c
                  \<and> (status \<noteq> OBSERVATION_VALID \<or> \<not> same)
               then (latch_physical_hazard_locked c)\<lparr>xc_safe_latched := False\<rparr> else c)
      in if \<not> xc_physical_hazard_latched c
         then
           if status = OBSERVATION_VALID
           then (if \<not> same then (remember_identity_locked ob c)\<lparr>xc_safe_latched := False\<rparr> else c)
           else if status = OBSERVATION_ABSENT \<and> \<not> owned
           then forget_identity_locked (c\<lparr>xc_safe_latched := False\<rparr>)
           else c
         else c)"

definition accept_observation :: "ssd_observation \<Rightarrow> 'p ssd_controller \<Rightarrow> 'p ssd_controller" where
  "accept_observation ob c =
     (let c = resolve_ownership ob c;
          c = c\<lparr>xc_observation := ob, xc_have_observation := True, xc_refresh_error := False,
                xc_refresh_reason := [], xc_last_poll_succeeded := True\<rparr>;
          c = copy_observation_to_snapshot_locked c;
          c = (if xs_swap_active (xc_snapshot c) \<or> xs_scratch_mounted (xc_snapshot c)
               then c\<lparr>xc_safe_latched := False\<rparr> else c)
      in derive_state_locked (bump_generation_locked c))"

definition reject_poll :: "string \<Rightarrow> 'p ssd_controller \<Rightarrow> 'p ssd_controller" where
  "reject_poll reason c =
     (let c = c\<lparr>xc_refresh_error := True,
            xc_refresh_reason := copy_text SSD_REASON_CAPACITY (''SSD discovery/telemetry failed: ''
              @ (if text_is_present reason then reason else ''provider error'')),
            xc_last_poll_succeeded := False,
            xc_snapshot := (xc_snapshot c)\<lparr>xs_swap_device := UNKNOWN, xs_scratch_device := UNKNOWN\<rparr>\<rparr>
      in derive_state_locked (bump_generation_locked c))"

definition reject_clock :: "'p ssd_controller \<Rightarrow> 'p ssd_controller" where
  "reject_clock c =
     derive_state_locked (bump_generation_locked
       (c\<lparr>xc_refresh_error := True,
          xc_refresh_reason := ''Cannot read the monotonic clock for SSD telemetry'',
          xc_last_poll_succeeded := False\<rparr>))"

definition refresh_locked :: "'p ssd_ops \<Rightarrow> bool \<Rightarrow> 'p ssd_controller \<Rightarrow> 'p ssd_controller \<times> bool" where
  "refresh_locked ops force c =
     (let (p, now) = op_now ops (xc_provider c); c = c\<lparr>xc_provider := p\<rparr> in
      case now of
        None \<Rightarrow> (reject_clock c, False)
      | Some now_ns \<Rightarrow>
          if \<not> force \<and> xc_have_poll_time c \<and> now_ns \<ge> xc_last_poll_ns c
             \<and> now_ns - xc_last_poll_ns c < xc_minimum_poll_interval_ns c
          then (c, xc_last_poll_succeeded c)
          else
            let (p, answer) = op_refresh ops (xc_provider c);
                c = c\<lparr>xc_provider := p, xc_have_poll_time := True, xc_last_poll_ns := now_ns\<rparr>
            in case answer of
                 Inl reason \<Rightarrow> (reject_poll reason (c\<lparr>xc_log := SSD_POLL_FAILED # xc_log c\<rparr>), False)
               | Inr ob \<Rightarrow> (accept_observation ob (c\<lparr>xc_log := SSD_POLLED ob # xc_log c\<rparr>), True))"

end
