(* ===== verification/Ssd_Control.thy ===== *)
theory Ssd_Control
  imports Ssd_State
begin

text \<open>
  The operations of the external SSD controller: the verified drain, enabling, the scratch
  leases, and creation and destruction. Each definition is what one call does under the
  controller's mutex. An action of the provider is logged with the object path it was given.
\<close>

section \<open>Provider calls\<close>

definition call_start_swap :: "'p ssd_ops \<Rightarrow> 'p ssd_controller \<Rightarrow> 'p ssd_controller \<times> bool \<times> string" where
  "call_start_swap ops c =
     (let path = vs_object_path (po_swap (xc_observation c));
          (p, ok, reason) = op_start_swap ops path (xc_provider c)
      in (c\<lparr>xc_provider := p, xc_log := SSD_START path # xc_log c\<rparr>, ok, reason))"

definition call_stop_swap :: "'p ssd_ops \<Rightarrow> 'p ssd_controller \<Rightarrow> 'p ssd_controller \<times> bool \<times> string" where
  "call_stop_swap ops c =
     (let path = vs_object_path (po_swap (xc_observation c));
          (p, ok, reason) = op_stop_swap ops path (xc_provider c)
      in (c\<lparr>xc_provider := p, xc_log := SSD_STOP path # xc_log c\<rparr>, ok, reason))"

definition call_mount_scratch ::
    "'p ssd_ops \<Rightarrow> 'p ssd_controller \<Rightarrow> 'p ssd_controller \<times> bool \<times> string \<times> string" where
  "call_mount_scratch ops c =
     (let path = vm_object_path (po_scratch (xc_observation c));
          (p, ok, mount_path, reason) = op_mount_scratch ops path (xc_provider c)
      in (c\<lparr>xc_provider := p, xc_log := SSD_MOUNT path # xc_log c\<rparr>, ok, mount_path, reason))"

definition call_unmount_scratch :: "'p ssd_ops \<Rightarrow> 'p ssd_controller \<Rightarrow> 'p ssd_controller \<times> bool \<times> string" where
  "call_unmount_scratch ops c =
     (let path = vm_object_path (po_scratch (xc_observation c));
          (p, ok, reason) = op_unmount_scratch ops path (xc_provider c)
      in (c\<lparr>xc_provider := p, xc_log := SSD_UNMOUNT path # xc_log c\<rparr>, ok, reason))"

definition reason_or_provider_error :: "string \<Rightarrow> string" where
  "reason_or_provider_error reason = (if text_is_present reason then reason else ''provider error'')"

definition latch_operation_error_locked :: "string \<Rightarrow> 'p ssd_controller \<Rightarrow> 'p ssd_controller" where
  "latch_operation_error_locked reason c =
     derive_state_locked (bump_generation_locked
       (c\<lparr>xc_operation_error := True, xc_operation_reason := copy_text SSD_REASON_CAPACITY reason\<rparr>))"

definition current_pair_is_valid_locked :: "'p ssd_controller \<Rightarrow> bool" where
  "current_pair_is_valid_locked c \<longleftrightarrow>
     xc_have_observation c \<and> \<not> xc_physical_hazard_latched c
     \<and> observation_status (xc_observation c) = OBSERVATION_VALID"

definition current_pair_is_authorized_for_drain_locked :: "'p ssd_controller \<Rightarrow> bool" where
  "current_pair_is_authorized_for_drain_locked c \<longleftrightarrow>
     \<not> (\<not> xc_have_observation c \<or> observation_status (xc_observation c) \<noteq> OBSERVATION_VALID)
     \<and> (\<not> xc_physical_hazard_latched c \<or> observation_is_hazard_pair_locked c)"

section \<open>Drain\<close>

fun decimal :: "nat \<Rightarrow> string" where
  "decimal n = (if n < 10 then [char_of (48 + n)] else decimal (n div 10) @ [char_of (48 + n mod 10)])"

declare decimal.simps [simp del]

definition drain_pending :: "string \<Rightarrow> 'p ssd_controller \<Rightarrow> 'p ssd_controller" where
  "drain_pending reason c = derive_state_locked (bump_generation_locked (c\<lparr>xc_drain_reason := reason\<rparr>))"

text \<open>Why the active swap cannot be stopped now, from the telemetry of the last poll.\<close>

definition stop_blocker :: "'p ssd_controller \<Rightarrow> string option" where
  "stop_blocker c =
     (let telemetry = xc_observation c; s = xc_snapshot c; used = xs_swap_used_bytes s;
          available = po_memory_available_bytes telemetry
      in
      if \<not> xs_swap_used_known s
      then Some ''Cannot stop swap: external swap used bytes are unknown''
      else if \<not> po_memory_pressure_known telemetry \<or> \<not> po_io_pressure_known telemetry
      then Some ''Cannot stop swap: current memory/I/O PSI evidence is unknown''
      else if po_memory_pressure_elevated telemetry \<or> po_io_pressure_elevated telemetry
      then Some (if po_memory_pressure_elevated telemetry
        then ''Cannot stop swap while memory PSI is elevated''
        else ''Cannot stop swap while I/O PSI is elevated'')
      else if \<not> po_swap_activity_known telemetry
      then Some ''Cannot stop swap until a swap-in/out delta interval is observed''
      else if po_swap_pages_in_delta telemetry \<noteq> 0 \<or> po_swap_pages_out_delta telemetry \<noteq> 0
      then Some ''Cannot stop swap while swap-in/out activity is current''
      else if used > 0
      then
        if \<not> po_memory_available_known telemetry
        then Some ''Cannot stop used swap: MemAvailable is unknown''
        else if available < SSD_HOST_MEMORY_RESERVE_BYTES
          \<or> used > available - SSD_HOST_MEMORY_RESERVE_BYTES
        then Some ''Cannot absorb external swap while retaining 3 GiB MemAvailable''
        else None
      else None)"

text \<open>A stage answers the result that ends the drain, or \<^const>\<open>None\<close> to go on.\<close>

definition drain_swap_stage ::
    "'p ssd_ops \<Rightarrow> 'p ssd_controller \<Rightarrow> 'p ssd_controller \<times> ssd_control_result option" where
  "drain_swap_stage ops c =
     (if \<not> xs_swap_active (xc_snapshot c) then (c, None)
      else case stop_blocker c of
        Some reason \<Rightarrow> (drain_pending reason c, Some SSD_CONTROL_PENDING)
      | None \<Rightarrow>
          let (c, ok, reason) = call_stop_swap ops c in
          if \<not> ok
          then (latch_operation_error_locked
              (''UDisks Swapspace.Stop failed: '' @ reason_or_provider_error reason)
              (fst (refresh_locked ops True c)), Some SSD_CONTROL_ERROR)
          else
            let (c, polled) = refresh_locked ops True c in
            if \<not> polled \<or> xs_swap_active (xc_snapshot c)
            then (latch_operation_error_locked
              ''UDisks reported success but external swap remains active'' c, Some SSD_CONTROL_ERROR)
            else (c, None))"

definition drain_scratch_stage ::
    "'p ssd_ops \<Rightarrow> 'p ssd_controller \<Rightarrow> 'p ssd_controller \<times> ssd_control_result option" where
  "drain_scratch_stage ops c =
     (if \<not> xs_scratch_mounted (xc_snapshot c) then (c, None)
      else
        let (c, ok, reason) = call_unmount_scratch ops c in
        if \<not> ok
        then (latch_operation_error_locked
            (''UDisks Filesystem.Unmount failed: '' @ reason_or_provider_error reason)
            (fst (refresh_locked ops True c)), Some SSD_CONTROL_ERROR)
        else
          let (c, polled) = refresh_locked ops True c in
          if \<not> polled \<or> xs_scratch_mounted (xc_snapshot c)
          then (latch_operation_error_locked
            ''UDisks reported success but scratch remains mounted'' c, Some SSD_CONTROL_ERROR)
          else (c, None))"

definition drain_endpoint :: "'p ssd_controller \<Rightarrow> 'p ssd_controller \<times> ssd_control_result" where
  "drain_endpoint c =
     (if \<not> current_pair_is_authorized_for_drain_locked c \<or> xs_swap_active (xc_snapshot c)
        \<or> xs_scratch_mounted (xc_snapshot c)
      then (latch_operation_error_locked
        ''Safe-to-unplug verification did not observe the stable inactive pair'' c, SSD_CONTROL_ERROR)
      else (derive_state_locked (bump_generation_locked (clear_physical_hazard_locked
        (c\<lparr>xc_safe_latched := True, xc_drain_requested := False, xc_drain_reason := []\<rparr>))),
        SSD_CONTROL_OK))"

definition drain_stages :: "'p ssd_ops \<Rightarrow> 'p ssd_controller \<Rightarrow> 'p ssd_controller \<times> ssd_control_result" where
  "drain_stages ops c =
     (case drain_swap_stage ops c of
        (c, Some result) \<Rightarrow> (c, result)
      | (c, None) \<Rightarrow>
          (case drain_scratch_stage ops c of
             (c, Some result) \<Rightarrow> (c, result)
           | (c, None) \<Rightarrow> drain_endpoint c))"

definition continue_drain_locked :: "'p ssd_ops \<Rightarrow> 'p ssd_controller \<Rightarrow> 'p ssd_controller \<times> ssd_control_result" where
  "continue_drain_locked ops c =
     (if xc_lease_count c > 0
      then (drain_pending (copy_text SSD_REASON_CAPACITY (''Waiting for '' @ decimal (xc_lease_count c)
          @ '' scratch lease'' @ (if xc_lease_count c = 1 then [] else ''s'') @ '' to release'')) c,
        SSD_CONTROL_PENDING)
      else
        let (c, polled) = refresh_locked ops True c in
        if \<not> polled \<or> \<not> current_pair_is_authorized_for_drain_locked c
        then (c, SSD_CONTROL_ERROR)
        else drain_stages ops c)"

definition ssd_disable :: "'p ssd_ops \<Rightarrow> 'p ssd_controller \<Rightarrow> 'p ssd_controller \<times> ssd_control_result" where
  "ssd_disable ops c =
     continue_drain_locked ops (derive_state_locked (bump_generation_locked
       (c\<lparr>xc_drain_requested := True, xc_safe_latched := False, xc_operation_error := False,
          xc_operation_reason := [], xc_drain_reason := []\<rparr>)))"

definition ssd_cancel_drain :: "'p ssd_controller \<Rightarrow> 'p ssd_controller \<times> bool" where
  "ssd_cancel_drain c =
     (if \<not> xc_drain_requested c then (c, False)
      else (derive_state_locked (bump_generation_locked
        (c\<lparr>xc_drain_requested := False, xc_drain_reason := [], xc_operation_error := False,
           xc_operation_reason := [], xc_safe_latched := False\<rparr>)), True))"

section \<open>Enable\<close>

definition resolve_enable_side_effect :: "'p ssd_ops \<Rightarrow> 'p ssd_controller \<Rightarrow> 'p ssd_controller \<times> bool" where
  "resolve_enable_side_effect ops c =
     (let (c, polled) = refresh_locked ops True c in
      if \<not> polled \<or> \<not> observation_is_hazard_pair_locked c then (c, False)
      else (derive_state_locked
        (remember_identity_locked (xc_observation c) (clear_physical_hazard_locked c)), True))"

definition enable_swap_stage :: "'p ssd_ops \<Rightarrow> 'p ssd_controller \<Rightarrow> 'p ssd_controller \<times> bool" where
  "enable_swap_stage ops c =
     (if xs_swap_active (xc_snapshot c) then (c, True)
      else
        let (c, ok, reason) = call_start_swap ops (bind_possible_enable_side_effect_locked c);
            (c, verified) = resolve_enable_side_effect ops c
        in
        if \<not> ok
        then (latch_operation_error_locked
          (''UDisks Swapspace.Start failed: '' @ reason_or_provider_error reason) c, False)
        else if \<not> verified \<or> \<not> xs_swap_active (xc_snapshot c)
        then (latch_operation_error_locked
          ''UDisks reported success but external swap is not active'' c, False)
        else (c, True))"

text \<open>A text between single quotes.\<close>

definition quoted :: "string \<Rightarrow> string" where
  "quoted t = CHR 0x27 # t @ [CHR 0x27]"

definition enable_scratch_stage :: "'p ssd_ops \<Rightarrow> 'p ssd_controller \<Rightarrow> 'p ssd_controller \<times> bool" where
  "enable_scratch_stage ops c =
     (if xs_scratch_mounted (xc_snapshot c) then (c, True)
      else
        let (c, ok, mount_path, reason) =
              call_mount_scratch ops (bind_possible_enable_side_effect_locked c);
            (c, verified) = resolve_enable_side_effect ops c
        in
        if \<not> ok
        then (latch_operation_error_locked
          (''UDisks Filesystem.Mount failed: '' @ reason_or_provider_error reason) c, False)
        else if \<not> verified \<or> \<not> xs_scratch_mounted (xc_snapshot c)
        then (latch_operation_error_locked
          ''UDisks reported success but scratch is not mounted'' c, False)
        else if mount_path \<noteq> SSD_SCRATCH_MOUNT_PATH
          \<or> xs_scratch_mount_path (xc_snapshot c) \<noteq> SSD_SCRATCH_MOUNT_PATH
        then (latch_operation_error_locked
          (''UDisks mounted scratch at '' @ quoted
             (if xs_scratch_mount_path (xc_snapshot c) \<noteq> SSD_SCRATCH_MOUNT_PATH
              then xs_scratch_mount_path (xc_snapshot c)
              else known_or_unknown mount_path)
           @ '', not '' @ quoted SSD_SCRATCH_MOUNT_PATH) c, False)
        else (c, True))"

definition enable_verification :: "'p ssd_ops \<Rightarrow> 'p ssd_controller \<Rightarrow> 'p ssd_controller \<times> ssd_control_result" where
  "enable_verification ops c =
     (let (c, polled) = refresh_locked ops True c in
      if \<not> polled \<or> \<not> current_pair_is_valid_locked c \<or> \<not> xs_swap_active (xc_snapshot c)
        \<or> \<not> xs_scratch_mounted (xc_snapshot c)
        \<or> xs_scratch_mount_path (xc_snapshot c) \<noteq> SSD_SCRATCH_MOUNT_PATH
      then (latch_operation_error_locked
        ''Enable verification did not observe active swap at the exact scratch path'' c,
        SSD_CONTROL_ERROR)
      else (derive_state_locked (bump_generation_locked
        (c\<lparr>xc_operation_error := False, xc_operation_reason := []\<rparr>)), SSD_CONTROL_OK))"

definition announce_enabling :: "'p ssd_controller \<Rightarrow> 'p ssd_controller" where
  "announce_enabling c =
     bump_generation_locked (c\<lparr>xc_snapshot := (xc_snapshot c)\<lparr>xs_state := SSD_ENABLING,
       xs_reason := ''Enabling external SSD swap and scratch through UDisks''\<rparr>\<rparr>)"

definition enable_stages :: "'p ssd_ops \<Rightarrow> 'p ssd_controller \<Rightarrow> 'p ssd_controller \<times> ssd_control_result" where
  "enable_stages ops c =
     (case enable_swap_stage ops (announce_enabling c) of
        (c, False) \<Rightarrow> (c, SSD_CONTROL_ERROR)
      | (c, True) \<Rightarrow>
          (case enable_scratch_stage ops c of
             (c, False) \<Rightarrow> (c, SSD_CONTROL_ERROR)
           | (c, True) \<Rightarrow> enable_verification ops c))"

definition ssd_enable :: "'p ssd_ops \<Rightarrow> 'p ssd_controller \<Rightarrow> 'p ssd_controller \<times> ssd_control_result" where
  "ssd_enable ops c =
     (let (c, polled) = refresh_locked ops True
            (c\<lparr>xc_operation_error := False, xc_operation_reason := [], xc_drain_requested := False,
               xc_drain_reason := [], xc_safe_latched := False\<rparr>)
      in
      if \<not> polled \<or> \<not> current_pair_is_valid_locked c then (c, SSD_CONTROL_ERROR)
      else if xs_scratch_mounted (xc_snapshot c)
        \<and> xs_scratch_mount_path (xc_snapshot c) \<noteq> SSD_SCRATCH_MOUNT_PATH
      then (latch_operation_error_locked
        (''Scratch is already mounted at '' @ quoted (xs_scratch_mount_path (xc_snapshot c))
         @ '', not '' @ quoted SSD_SCRATCH_MOUNT_PATH) c, SSD_CONTROL_ERROR)
      else enable_stages ops c)"

section \<open>Leases\<close>

text \<open>The first slot, from \<open>slot\<close> on, whose lease satisfies the test.\<close>

fun find_slot :: "((u64 \<times> nat) \<Rightarrow> bool) \<Rightarrow> (u64 \<times> nat) list \<Rightarrow> nat \<Rightarrow> nat option" where
  "find_slot test [] slot = None"
| "find_slot test (l # ls) slot = (if test l then Some slot else find_slot test ls (slot + 1))"

text \<open>\<open>self\<close> is the controller's own pointer, \<open>address\<close> the caller's object, \<open>lease\<close> its bytes.\<close>

definition ssd_acquire_scratch ::
    "'p ssd_ops \<Rightarrow> u64 \<Rightarrow> nat \<Rightarrow> ssd_lease \<Rightarrow> 'p ssd_controller
      \<Rightarrow> 'p ssd_controller \<times> ssd_lease \<times> bool" where
  "ssd_acquire_scratch ops self address lease c =
     (if find_slot (\<lambda>(i, a). i \<noteq> 0 \<and> a = address) (xc_active_leases c) 0 \<noteq> None
      then (c, lease, False)
      else if xl_opaque_controller lease \<noteq> 0 \<or> xl_opaque_lease_id lease \<noteq> 0 then (c, lease, False)
      else
        let (c, polled) = refresh_locked ops False c in
        if \<not> polled \<or> xc_drain_requested c \<or> xc_operation_error c
          \<or> \<not> current_pair_is_valid_locked c \<or> \<not> xs_swap_active (xc_snapshot c)
          \<or> \<not> xs_scratch_mounted (xc_snapshot c)
          \<or> xs_scratch_mount_path (xc_snapshot c) \<noteq> SSD_SCRATCH_MOUNT_PATH
          \<or> xc_lease_count c \<ge> SSD_MAX_SCRATCH_LEASES \<or> xc_next_lease_id c = 0
        then (c, lease, False)
        else case find_slot (\<lambda>(i, a). i = 0) (xc_active_leases c) 0 of
          None \<Rightarrow> (c, lease, False)
        | Some slot \<Rightarrow>
            let lease_id = xc_next_lease_id c in
            (derive_state_locked (bump_generation_locked
              (c\<lparr>xc_next_lease_id := xc_next_lease_id c + 1,
                 xc_active_leases := (xc_active_leases c)[slot := (lease_id, address)],
                 xc_lease_count := xc_lease_count c + 1\<rparr>)),
             \<lparr>xl_opaque_controller = self, xl_opaque_lease_id = lease_id\<rparr>, True))"

definition ssd_release_scratch ::
    "'p ssd_ops \<Rightarrow> u64 \<Rightarrow> nat \<Rightarrow> ssd_lease \<Rightarrow> 'p ssd_controller
      \<Rightarrow> 'p ssd_controller \<times> ssd_lease \<times> bool" where
  "ssd_release_scratch ops self address lease c =
     (if xl_opaque_controller lease \<noteq> self \<or> xl_opaque_lease_id lease = 0 then (c, lease, False)
      else case find_slot (\<lambda>(i, a). i = xl_opaque_lease_id lease \<and> a = address) (xc_active_leases c) 0 of
        None \<Rightarrow> (c, lease, False)
      | Some slot \<Rightarrow>
          let c = c\<lparr>xc_active_leases := (xc_active_leases c)[slot := (0, 0)]\<rparr> in
          if xc_lease_count c = 0 then (c, lease, False)
          else
            let c = derive_state_locked (bump_generation_locked
                  (c\<lparr>xc_lease_count := xc_lease_count c - 1\<rparr>));
                c = (if xc_drain_requested c \<and> xc_lease_count c = 0
                     then fst (continue_drain_locked ops c) else c)
            in (c, \<lparr>xl_opaque_controller = 0, xl_opaque_lease_id = 0\<rparr>, True))"

section \<open>Creation, destruction and observation\<close>

definition zero_swap :: ssd_swap where
  "zero_swap = \<lparr>vs_present = False, vs_unit_ready = False, vs_interface_available = False,
     vs_size_bytes = 0, vs_label = [], vs_uuid = [], vs_drive_identity = [], vs_object_path = [],
     vs_device = [], vs_active_known = False, vs_active = False, vs_total_known = False,
     vs_used_known = False, vs_total_bytes = 0, vs_used_bytes = 0\<rparr>"

definition zero_scratch :: ssd_scratch where
  "zero_scratch = \<lparr>vm_present = False, vm_unit_ready = False, vm_interface_available = False,
     vm_size_bytes = 0, vm_label = [], vm_uuid = [], vm_drive_identity = [], vm_object_path = [],
     vm_device = [], vm_mounted = False, vm_total_known = False, vm_free_known = False,
     vm_total_bytes = 0, vm_free_bytes = 0, vm_mount_path = []\<rparr>"

definition zero_observation :: ssd_observation where
  "zero_observation = \<lparr>po_model_known = False, po_serial_known = False,
     po_connection_speed_known = False, po_model = [], po_serial = [], po_connection_speed_mbps = 0,
     po_ambiguous_labels = False, po_invalid_observation = False, po_invalid_reason = [],
     po_swap = zero_swap, po_scratch = zero_scratch, po_memory_available_known = False,
     po_memory_available_bytes = 0, po_memory_pressure_known = False,
     po_memory_pressure_elevated = False, po_io_pressure_known = False,
     po_io_pressure_elevated = False, po_swap_activity_known = False, po_swap_pages_in_delta = 0,
     po_swap_pages_out_delta = 0\<rparr>"

definition zero_controller :: "'p \<Rightarrow> u64 \<Rightarrow> 'p ssd_controller" where
  "zero_controller provider minimum_poll_interval_ns =
     \<lparr>xc_provider = provider, xc_minimum_poll_interval_ns = minimum_poll_interval_ns,
      xc_have_poll_time = False, xc_last_poll_ns = 0, xc_last_poll_succeeded = False,
      xc_have_observation = False, xc_observation = zero_observation, xc_refresh_error = False,
      xc_refresh_reason = [], xc_operation_error = False, xc_operation_reason = [],
      xc_drain_requested = False, xc_drain_reason = [], xc_safe_latched = False,
      xc_last_drive_identity = [], xc_last_swap_uuid = [], xc_last_scratch_uuid = [],
      xc_physical_hazard_latched = False, xc_hazard_drive_identity = [], xc_hazard_swap_uuid = [],
      xc_hazard_scratch_uuid = [], xc_next_lease_id = 1,
      xc_active_leases = replicate SSD_MAX_SCRATCH_LEASES (0, 0), xc_lease_count = 0,
      xc_generation = 0, xc_snapshot = initialize_unknown_snapshot, xc_log = []\<rparr>"

definition ssd_create :: "bool \<Rightarrow> 'p ssd_ops \<Rightarrow> 'p \<Rightarrow> u64 \<Rightarrow> 'p ssd_controller option" where
  "ssd_create allocated ops provider minimum_poll_interval_ns =
     (if minimum_poll_interval_ns < SSD_DEFAULT_POLL_INTERVAL_NS \<or> \<not> allocated then None
      else Some (fst (refresh_locked ops True (zero_controller provider minimum_poll_interval_ns))))"

text \<open>\<^const>\<open>True\<close> when the controller has been destroyed.\<close>

definition ssd_destroy :: "'p ssd_controller \<Rightarrow> bool" where
  "ssd_destroy c \<longleftrightarrow> xc_lease_count c = 0"

definition ssd_get_snapshot :: "'p ssd_ops \<Rightarrow> 'p ssd_controller \<Rightarrow> 'p ssd_controller \<times> ssd_snapshot \<times> bool" where
  "ssd_get_snapshot ops c =
     (let (c, result) = refresh_locked ops False c in (c, xc_snapshot c, result))"

definition ssd_copy_snapshot :: "'p ssd_controller \<Rightarrow> ssd_snapshot" where
  "ssd_copy_snapshot c = xc_snapshot c"

fun ssd_state_name :: "ssd_state \<Rightarrow> string" where
  "ssd_state_name SSD_ABSENT = ''ABSENT''"
| "ssd_state_name SSD_DETECTED = ''DETECTED''"
| "ssd_state_name SSD_ENABLING = ''ENABLING''"
| "ssd_state_name SSD_ENABLED = ''ENABLED''"
| "ssd_state_name SSD_IN_USE = ''IN_USE''"
| "ssd_state_name SSD_DRAINING = ''DRAINING''"
| "ssd_state_name SSD_SAFE_TO_UNPLUG = ''SAFE_TO_UNPLUG''"
| "ssd_state_name SSD_ERROR = ''ERROR''"

end
