(* ===== verification/External_Storage.thy ===== *)
theory External_Storage
  imports Ssd_Control
begin

text \<open>
  The Governor's registration of the external SSD (\<open>resource_governor.c\<close>, the external storage
  part, and \<open>resource_governor_external_storage.c\<close>): validation and conversion of a controller
  snapshot, the registered state and its updates, and the scratch operations that cross from
  the Governor to the controller and back.
\<close>

section \<open>Data\<close>

definition RESOURCE_REASON_CAPACITY :: nat where "RESOURCE_REASON_CAPACITY = 256"
definition EXTERNAL_IDENTITY_CAPACITY :: nat where "EXTERNAL_IDENTITY_CAPACITY = 256"

datatype external_status =
  STORAGE_ABSENT | STORAGE_DETECTED | STORAGE_AVAILABLE | STORAGE_IN_USE | STORAGE_DRAINING
  | STORAGE_SAFE | STORAGE_ERROR

record external_storage =
  xe_generation :: u64
  xe_status :: external_status
  xe_new_scratch_allocations_allowed :: bool
  xe_scratch_total_known :: bool
  xe_scratch_free_known :: bool
  xe_scratch_total_bytes :: u64
  xe_scratch_free_bytes :: u64
  xe_swap_total_known :: bool
  xe_swap_used_known :: bool
  xe_swap_total_bytes :: u64
  xe_swap_used_bytes :: u64
  xe_active_scratch_leases :: nat
  xe_stable_identity :: string
  xe_reason :: string

definition zero_storage :: external_storage where
  "zero_storage = \<lparr>xe_generation = 0, xe_status = STORAGE_ABSENT,
     xe_new_scratch_allocations_allowed = False, xe_scratch_total_known = False,
     xe_scratch_free_known = False, xe_scratch_total_bytes = 0, xe_scratch_free_bytes = 0,
     xe_swap_total_known = False, xe_swap_used_known = False, xe_swap_total_bytes = 0,
     xe_swap_used_bytes = 0, xe_active_scratch_leases = 0, xe_stable_identity = [], xe_reason = []\<rparr>"

text \<open>
  The Governor's fields about the external storage, with its change generation. A controller is
  its pointer; the lease registry is the used prefix of its array of caller addresses.
\<close>

record storage_registry =
  er_generation :: u64
  er_registered :: bool
  er_controller :: u64
  er_storage :: external_storage
  er_operation_active :: bool
  er_operation_acquire :: bool
  er_operation_lease :: nat
  er_operation_start_lease_count :: nat
  er_leases :: "nat list"

section \<open>Validation of a controller snapshot\<close>

text \<open>A text of a fixed array is terminated in it when it is shorter than the array.\<close>

definition bounded_text_terminated :: "string \<Rightarrow> nat \<Rightarrow> bool" where
  "bounded_text_terminated t capacity \<longleftrightarrow> length t < capacity"

definition bounded_exact_identity :: "string \<Rightarrow> nat \<Rightarrow> bool" where
  "bounded_exact_identity t capacity \<longleftrightarrow>
     bounded_text_terminated t capacity \<and> t \<noteq> [] \<and> t \<noteq> UNKNOWN"

definition ssd_snapshot_has_complete_pair :: "ssd_snapshot \<Rightarrow> bool" where
  "ssd_snapshot_has_complete_pair s \<longleftrightarrow>
     xs_device_detected s \<and> xs_swap_detected s \<and> xs_scratch_detected s \<and> xs_pairing_valid s
     \<and> bounded_exact_identity (xs_drive_identity s) SSD_IDENTITY_CAPACITY
     \<and> bounded_exact_identity (xs_swap_uuid s) SSD_TEXT_CAPACITY
     \<and> bounded_exact_identity (xs_scratch_uuid s) SSD_TEXT_CAPACITY
     \<and> xs_swap_partition_size_known s \<and> xs_swap_partition_size_bytes s > 0
     \<and> xs_scratch_partition_size_known s \<and> xs_scratch_partition_size_bytes s > 0"

definition action_count :: "ssd_snapshot \<Rightarrow> nat" where
  "action_count s = of_bool (xs_can_enable s) + of_bool (xs_can_disable s) + of_bool (xs_can_cancel_drain s)"

text \<open>The fields are terminated, and no telemetry contradicts what is known or detected.\<close>

definition snapshot_fields_consistent :: "ssd_snapshot \<Rightarrow> bool" where
  "snapshot_fields_consistent s \<longleftrightarrow> \<not> (
     \<not> bounded_text_terminated (xs_model s) SSD_TEXT_CAPACITY
     \<or> \<not> bounded_text_terminated (xs_serial s) SSD_TEXT_CAPACITY
     \<or> \<not> bounded_text_terminated (xs_drive_identity s) SSD_IDENTITY_CAPACITY
     \<or> \<not> bounded_text_terminated (xs_swap_uuid s) SSD_TEXT_CAPACITY
     \<or> \<not> bounded_text_terminated (xs_scratch_uuid s) SSD_TEXT_CAPACITY
     \<or> \<not> bounded_text_terminated (xs_swap_device s) SSD_PATH_CAPACITY
     \<or> \<not> bounded_text_terminated (xs_scratch_device s) SSD_PATH_CAPACITY
     \<or> \<not> bounded_text_terminated (xs_scratch_mount_path s) SSD_PATH_CAPACITY
     \<or> \<not> bounded_text_terminated (xs_reason s) SSD_REASON_CAPACITY
     \<or> (\<not> xs_connection_speed_known s \<and> xs_connection_speed_mbps s \<noteq> 0)
     \<or> xs_scratch_lease_capacity s \<noteq> SSD_MAX_SCRATCH_LEASES
     \<or> xs_scratch_lease_count s > xs_scratch_lease_capacity s
     \<or> (\<not> xs_swap_partition_size_known s \<and> xs_swap_partition_size_bytes s \<noteq> 0)
     \<or> (xs_swap_partition_size_known s
         \<and> (xs_swap_partition_size_bytes s = 0 \<or> \<not> xs_swap_detected s))
     \<or> (\<not> xs_scratch_partition_size_known s \<and> xs_scratch_partition_size_bytes s \<noteq> 0)
     \<or> (xs_scratch_partition_size_known s
         \<and> (xs_scratch_partition_size_bytes s = 0 \<or> \<not> xs_scratch_detected s))
     \<or> (\<not> xs_swap_total_known s \<and> xs_swap_total_bytes s \<noteq> 0)
     \<or> (\<not> xs_swap_used_known s \<and> xs_swap_used_bytes s \<noteq> 0)
     \<or> (\<not> xs_scratch_total_known s \<and> xs_scratch_total_bytes s \<noteq> 0)
     \<or> (\<not> xs_scratch_free_known s \<and> xs_scratch_free_bytes s \<noteq> 0)
     \<or> (xs_swap_used_known s
         \<and> (\<not> xs_swap_total_known s \<or> xs_swap_used_bytes s > xs_swap_total_bytes s))
     \<or> (xs_scratch_free_known s
         \<and> (\<not> xs_scratch_total_known s \<or> xs_scratch_free_bytes s > xs_scratch_total_bytes s))
     \<or> xs_device_detected s \<noteq> (xs_swap_detected s \<or> xs_scratch_detected s)
     \<or> (xs_swap_active s \<and> \<not> xs_swap_detected s)
     \<or> (xs_scratch_mounted s \<and> \<not> xs_scratch_detected s)
     \<or> (xs_swap_total_known s \<and> \<not> xs_swap_detected s)
     \<or> (xs_scratch_total_known s \<and> \<not> xs_scratch_detected s)
     \<or> (xs_scratch_mounted s \<and> \<not> bounded_exact_identity (xs_scratch_mount_path s) SSD_PATH_CAPACITY)
     \<or> (\<not> xs_scratch_mounted s \<and> bounded_exact_identity (xs_scratch_mount_path s) SSD_PATH_CAPACITY)
     \<or> action_count s > 1)"

text \<open>Every authority the snapshot carries rests on the complete pair and on a fitting state.\<close>

definition snapshot_authority_consistent :: "ssd_snapshot \<Rightarrow> bool" where
  "snapshot_authority_consistent s \<longleftrightarrow>
     (let complete_pair = ssd_snapshot_has_complete_pair s;
          authority_bearing = (xs_scratch_allocations_allowed s \<or> action_count s \<noteq> 0);
          complete_pair_state = (xs_state s = SSD_ENABLING \<or> xs_state s = SSD_ENABLED
            \<or> xs_state s = SSD_IN_USE \<or> xs_state s = SSD_DRAINING \<or> xs_state s = SSD_SAFE_TO_UNPLUG)
      in \<not> ((xs_pairing_valid s \<or> authority_bearing \<or> complete_pair_state) \<and> \<not> complete_pair)
       \<and> \<not> (xs_scratch_allocations_allowed s
         \<and> (\<not> complete_pair \<or> xs_drain_requested s \<or> \<not> xs_swap_active s \<or> \<not> xs_scratch_mounted s
           \<or> xs_scratch_mount_path s \<noteq> SSD_SCRATCH_MOUNT_PATH
           \<or> (xs_state s \<noteq> SSD_ENABLED \<and> xs_state s \<noteq> SSD_IN_USE)
           \<or> xs_scratch_lease_count s \<ge> xs_scratch_lease_capacity s))
       \<and> \<not> (xs_can_enable s
         \<and> (\<not> complete_pair \<or> (xs_state s \<noteq> SSD_DETECTED \<and> xs_state s \<noteq> SSD_SAFE_TO_UNPLUG)
           \<or> xs_swap_active s \<or> xs_scratch_mounted s \<or> xs_drain_requested s
           \<or> xs_scratch_lease_count s \<noteq> 0))
       \<and> \<not> (xs_can_disable s
         \<and> (\<not> complete_pair
           \<or> (xs_state s \<noteq> SSD_DETECTED \<and> xs_state s \<noteq> SSD_ENABLED \<and> xs_state s \<noteq> SSD_IN_USE
              \<and> xs_state s \<noteq> SSD_ERROR)
           \<or> (xs_state s = SSD_DETECTED \<and> \<not> xs_swap_active s \<and> \<not> xs_scratch_mounted s)))
       \<and> \<not> (xs_can_cancel_drain s
         \<and> (\<not> complete_pair \<or> \<not> xs_drain_requested s \<or> xs_state s \<noteq> SSD_DRAINING)))"

fun snapshot_state_consistent :: "ssd_state \<Rightarrow> ssd_snapshot \<Rightarrow> bool" where
  "snapshot_state_consistent SSD_ABSENT s =
     (\<not> xs_device_detected s \<and> \<not> xs_pairing_valid s \<and> \<not> xs_model_known s \<and> \<not> xs_serial_known s
      \<and> \<not> xs_connection_speed_known s \<and> \<not> xs_swap_detected s \<and> \<not> xs_scratch_detected s
      \<and> \<not> xs_swap_partition_size_known s \<and> \<not> xs_scratch_partition_size_known s
      \<and> \<not> xs_swap_active s \<and> \<not> xs_swap_total_known s \<and> \<not> xs_swap_used_known s
      \<and> \<not> xs_scratch_mounted s \<and> \<not> xs_scratch_total_known s \<and> \<not> xs_scratch_free_known s
      \<and> xs_scratch_lease_count s = 0 \<and> \<not> xs_drain_requested s
      \<and> \<not> xs_scratch_allocations_allowed s \<and> action_count s = 0
      \<and> \<not> bounded_exact_identity (xs_drive_identity s) SSD_IDENTITY_CAPACITY
      \<and> \<not> bounded_exact_identity (xs_swap_uuid s) SSD_TEXT_CAPACITY
      \<and> \<not> bounded_exact_identity (xs_scratch_uuid s) SSD_TEXT_CAPACITY)"
| "snapshot_state_consistent SSD_DETECTED s =
     (if \<not> xs_device_detected s \<or> xs_scratch_lease_count s \<noteq> 0 \<or> xs_drain_requested s
        \<or> xs_scratch_allocations_allowed s \<or> (xs_swap_active s \<and> xs_scratch_mounted s)
      then False
      else if \<not> xs_pairing_valid s then action_count s = 0
      else if xs_swap_active s \<or> xs_scratch_mounted s then xs_can_disable s else xs_can_enable s)"
| "snapshot_state_consistent SSD_ENABLING s =
     (xs_scratch_lease_count s = 0 \<and> \<not> xs_drain_requested s \<and> \<not> xs_scratch_allocations_allowed s
      \<and> action_count s = 0)"
| "snapshot_state_consistent SSD_ENABLED s =
     (xs_scratch_lease_count s = 0 \<and> xs_swap_active s \<and> xs_scratch_mounted s \<and> \<not> xs_drain_requested s
      \<and> xs_can_disable s \<and> \<not> xs_can_enable s \<and> \<not> xs_can_cancel_drain s
      \<and> xs_scratch_mount_path s = SSD_SCRATCH_MOUNT_PATH)"
| "snapshot_state_consistent SSD_IN_USE s =
     (xs_scratch_lease_count s > 0 \<and> xs_swap_active s \<and> xs_scratch_mounted s \<and> \<not> xs_drain_requested s
      \<and> xs_can_disable s \<and> \<not> xs_can_enable s \<and> \<not> xs_can_cancel_drain s
      \<and> xs_scratch_mount_path s = SSD_SCRATCH_MOUNT_PATH)"
| "snapshot_state_consistent SSD_DRAINING s =
     (xs_drain_requested s \<and> \<not> xs_scratch_allocations_allowed s \<and> xs_can_cancel_drain s
      \<and> \<not> xs_can_enable s \<and> \<not> xs_can_disable s)"
| "snapshot_state_consistent SSD_SAFE_TO_UNPLUG s =
     (xs_scratch_lease_count s = 0 \<and> \<not> xs_swap_active s \<and> \<not> xs_scratch_mounted s
      \<and> \<not> xs_drain_requested s \<and> \<not> xs_scratch_allocations_allowed s \<and> xs_can_enable s
      \<and> \<not> xs_can_disable s \<and> \<not> xs_can_cancel_drain s)"
| "snapshot_state_consistent SSD_ERROR s =
     (\<not> xs_scratch_allocations_allowed s \<and> \<not> xs_can_enable s \<and> \<not> xs_can_cancel_drain s)"

definition valid_ssd_controller_snapshot :: "ssd_snapshot \<Rightarrow> bool" where
  "valid_ssd_controller_snapshot s \<longleftrightarrow>
     snapshot_fields_consistent s \<and> snapshot_authority_consistent s
     \<and> snapshot_state_consistent (xs_state s) s"

fun storage_status_of :: "ssd_state \<Rightarrow> external_status" where
  "storage_status_of SSD_ABSENT = STORAGE_ABSENT"
| "storage_status_of SSD_DETECTED = STORAGE_DETECTED"
| "storage_status_of SSD_ENABLING = STORAGE_DETECTED"
| "storage_status_of SSD_ENABLED = STORAGE_AVAILABLE"
| "storage_status_of SSD_IN_USE = STORAGE_IN_USE"
| "storage_status_of SSD_DRAINING = STORAGE_DRAINING"
| "storage_status_of SSD_SAFE_TO_UNPLUG = STORAGE_SAFE"
| "storage_status_of SSD_ERROR = STORAGE_ERROR"

definition storage_from_ssd_snapshot :: "ssd_snapshot \<Rightarrow> external_storage option" where
  "storage_from_ssd_snapshot s =
     (if \<not> valid_ssd_controller_snapshot s then None
      else Some \<lparr>xe_generation = xs_generation s, xe_status = storage_status_of (xs_state s),
        xe_new_scratch_allocations_allowed = xs_scratch_allocations_allowed s,
        xe_scratch_total_known = xs_scratch_total_known s,
        xe_scratch_free_known = xs_scratch_free_known s,
        xe_scratch_total_bytes = (if xs_scratch_total_known s then xs_scratch_total_bytes s else 0),
        xe_scratch_free_bytes = (if xs_scratch_free_known s then xs_scratch_free_bytes s else 0),
        xe_swap_total_known = xs_swap_total_known s, xe_swap_used_known = xs_swap_used_known s,
        xe_swap_total_bytes = (if xs_swap_total_known s then xs_swap_total_bytes s else 0),
        xe_swap_used_bytes = (if xs_swap_used_known s then xs_swap_used_bytes s else 0),
        xe_active_scratch_leases = xs_scratch_lease_count s,
        xe_stable_identity = copy_text EXTERNAL_IDENTITY_CAPACITY (xs_drive_identity s),
        xe_reason = copy_text RESOURCE_REASON_CAPACITY (xs_reason s)\<rparr>)"

section \<open>Normalization\<close>

definition external_storage_rejected :: "external_storage \<Rightarrow> bool" where
  "external_storage_rejected x \<longleftrightarrow>
     \<not> bounded_text_terminated (xe_stable_identity x) EXTERNAL_IDENTITY_CAPACITY
     \<or> \<not> bounded_text_terminated (xe_reason x) RESOURCE_REASON_CAPACITY
     \<or> (\<not> xe_scratch_total_known x \<and> xe_scratch_total_bytes x \<noteq> 0)
     \<or> (\<not> xe_scratch_free_known x \<and> xe_scratch_free_bytes x \<noteq> 0)
     \<or> (xe_scratch_free_known x
         \<and> (\<not> xe_scratch_total_known x \<or> xe_scratch_free_bytes x > xe_scratch_total_bytes x))
     \<or> (\<not> xe_swap_total_known x \<and> xe_swap_total_bytes x \<noteq> 0)
     \<or> (\<not> xe_swap_used_known x \<and> xe_swap_used_bytes x \<noteq> 0)
     \<or> (xe_swap_used_known x
         \<and> (\<not> xe_swap_total_known x \<or> xe_swap_used_bytes x > xe_swap_total_bytes x))
     \<or> xe_active_scratch_leases x > SSD_MAX_SCRATCH_LEASES
     \<or> (xe_new_scratch_allocations_allowed x
         \<and> xe_status x \<noteq> STORAGE_AVAILABLE \<and> xe_status x \<noteq> STORAGE_IN_USE)
     \<or> (xe_status x = STORAGE_AVAILABLE \<and> xe_active_scratch_leases x \<noteq> 0)
     \<or> (xe_status x = STORAGE_IN_USE \<and> xe_active_scratch_leases x = 0)
     \<or> ((xe_status x = STORAGE_ABSENT \<or> xe_status x = STORAGE_DETECTED \<or> xe_status x = STORAGE_SAFE)
         \<and> xe_active_scratch_leases x \<noteq> 0)
     \<or> (xe_active_scratch_leases x > 0 \<and> xe_status x \<noteq> STORAGE_IN_USE
         \<and> xe_status x \<noteq> STORAGE_DRAINING \<and> xe_status x \<noteq> STORAGE_ERROR)
     \<or> ((xe_status x = STORAGE_AVAILABLE \<or> xe_status x = STORAGE_IN_USE
           \<or> xe_status x = STORAGE_DRAINING \<or> xe_status x = STORAGE_SAFE)
         \<and> \<not> bounded_exact_identity (xe_stable_identity x) EXTERNAL_IDENTITY_CAPACITY)"

definition normalize_external_storage :: "external_storage \<Rightarrow> external_storage option" where
  "normalize_external_storage x =
     (if external_storage_rejected x then None
      else Some (x\<lparr>
        xe_scratch_total_bytes := (if xe_scratch_total_known x then xe_scratch_total_bytes x else 0),
        xe_scratch_free_bytes := (if xe_scratch_free_known x then xe_scratch_free_bytes x else 0),
        xe_swap_total_bytes := (if xe_swap_total_known x then xe_swap_total_bytes x else 0),
        xe_swap_used_bytes := (if xe_swap_used_known x then xe_swap_used_bytes x else 0),
        xe_stable_identity := copy_text EXTERNAL_IDENTITY_CAPACITY (xe_stable_identity x),
        xe_reason := copy_text RESOURCE_REASON_CAPACITY (xe_reason x)\<rparr>))"

text \<open>Everything but the source generation.\<close>

definition external_storage_material_equal :: "external_storage \<Rightarrow> external_storage \<Rightarrow> bool" where
  "external_storage_material_equal x y \<longleftrightarrow>
     xe_status x = xe_status y
     \<and> xe_new_scratch_allocations_allowed x = xe_new_scratch_allocations_allowed y
     \<and> xe_scratch_total_known x = xe_scratch_total_known y
     \<and> xe_scratch_free_known x = xe_scratch_free_known y
     \<and> xe_scratch_total_bytes x = xe_scratch_total_bytes y
     \<and> xe_scratch_free_bytes x = xe_scratch_free_bytes y
     \<and> xe_swap_total_known x = xe_swap_total_known y
     \<and> xe_swap_used_known x = xe_swap_used_known y
     \<and> xe_swap_total_bytes x = xe_swap_total_bytes y
     \<and> xe_swap_used_bytes x = xe_swap_used_bytes y
     \<and> xe_active_scratch_leases x = xe_active_scratch_leases y
     \<and> xe_stable_identity x = xe_stable_identity y \<and> xe_reason x = xe_reason y"

section \<open>The registered state\<close>

definition storage_notify_locked :: "storage_registry \<Rightarrow> storage_registry" where
  "storage_notify_locked g =
     (if er_generation g \<noteq> UINT64_MAX then g\<lparr>er_generation := er_generation g + 1\<rparr> else g)"

datatype apply_provenance = APPLY_PUBLIC | APPLY_WRAPPER_COMPLETION

definition lease_count :: "storage_registry \<Rightarrow> nat" where
  "lease_count g = length (er_leases g)"

definition storage_stale :: "apply_provenance \<Rightarrow> external_storage \<Rightarrow> external_storage \<Rightarrow> bool" where
  "storage_stale provenance current next \<longleftrightarrow>
     (let exact_saturated_wrapper = (provenance = APPLY_WRAPPER_COMPLETION
            \<and> xe_generation current = UINT64_MAX \<and> xe_generation next = UINT64_MAX);
          exact_wrapper_error = (provenance = APPLY_WRAPPER_COMPLETION
            \<and> xe_generation next = xe_generation current \<and> xe_status next = STORAGE_ERROR)
      in (xe_generation next < xe_generation current
          \<or> (xe_generation next = xe_generation current
              \<and> \<not> exact_saturated_wrapper \<and> \<not> exact_wrapper_error))
        \<and> \<not> external_storage_material_equal current next)"

definition conservative_storage :: "external_storage \<Rightarrow> external_storage \<Rightarrow> external_storage" where
  "conservative_storage current next =
     current\<lparr>xe_status := STORAGE_ERROR, xe_new_scratch_allocations_allowed := False,
       xe_reason := copy_text RESOURCE_REASON_CAPACITY (xe_reason next)\<rparr>"

definition cover_leases :: "nat \<Rightarrow> external_storage \<Rightarrow> external_storage" where
  "cover_leases n x =
     (if xe_status x = STORAGE_ERROR \<and> xe_active_scratch_leases x < n
      then x\<lparr>xe_active_scratch_leases := n\<rparr> else x)"

definition storage_publish :: "bool \<Rightarrow> external_storage \<Rightarrow> storage_registry \<Rightarrow> storage_registry" where
  "storage_publish same_material next g =
     (if same_material
      then (if xe_generation next > xe_generation (er_storage g)
            then g\<lparr>er_storage := (er_storage g)\<lparr>xe_generation := xe_generation next\<rparr>\<rparr> else g)
      else storage_notify_locked (g\<lparr>er_storage := next\<rparr>))"

definition storage_apply_locked ::
    "external_storage \<Rightarrow> apply_provenance \<Rightarrow> storage_registry \<Rightarrow> storage_registry \<times> bool" where
  "storage_apply_locked storage provenance g =
     (case normalize_external_storage storage of
        None \<Rightarrow> (g, False)
      | Some next \<Rightarrow>
          if xe_status next \<noteq> STORAGE_ERROR \<and> xe_active_scratch_leases next < lease_count g
          then (g, False)
          else
            let current = er_storage g in
            if storage_stale provenance current next
            then
              if xe_status next \<noteq> STORAGE_ERROR then (g, False)
              else
                let next = conservative_storage current next in
                (storage_publish (external_storage_material_equal current next)
                  (cover_leases (lease_count g) next) g, True)
            else (storage_publish (external_storage_material_equal current next)
                   (cover_leases (lease_count g) next) g, True))"

definition register_external_storage ::
    "u64 \<Rightarrow> external_storage \<Rightarrow> storage_registry \<Rightarrow> storage_registry \<times> bool" where
  "register_external_storage controller storage g =
     (case normalize_external_storage storage of
        None \<Rightarrow> (g, False)
      | Some normalized \<Rightarrow>
          if er_registered g then (g, False)
          else (storage_notify_locked
            (g\<lparr>er_registered := True, er_controller := controller, er_storage := normalized\<rparr>), True))"

definition update_external_storage ::
    "u64 \<Rightarrow> external_storage \<Rightarrow> storage_registry \<Rightarrow> storage_registry \<times> bool" where
  "update_external_storage controller storage g =
     (case normalize_external_storage storage of
        None \<Rightarrow> (g, False)
      | Some normalized \<Rightarrow>
          let exact_registration = (er_registered g \<and> er_controller g = controller);
              deferred_release_snapshot = (exact_registration \<and> er_operation_active g
                \<and> xe_active_scratch_leases normalized < lease_count g)
          in
          if \<not> exact_registration then (g, False)
          else if deferred_release_snapshot then (g, True)
          else storage_apply_locked normalized APPLY_PUBLIC g)"

definition unregister_external_storage :: "u64 \<Rightarrow> storage_registry \<Rightarrow> storage_registry \<times> bool" where
  "unregister_external_storage controller g =
     (if \<not> er_registered g \<or> er_controller g \<noteq> controller \<or> er_operation_active g
        \<or> lease_count g \<noteq> 0 \<or> xe_active_scratch_leases (er_storage g) \<noteq> 0
      then (g, False)
      else (storage_notify_locked
        (g\<lparr>er_registered := False, er_controller := 0, er_storage := zero_storage\<rparr>), True))"

definition get_external_storage :: "storage_registry \<Rightarrow> external_storage option" where
  "get_external_storage g = (if er_registered g then Some (er_storage g) else None)"

section \<open>Scratch operations\<close>

definition begin_scratch_operation ::
    "u64 \<Rightarrow> nat \<Rightarrow> bool \<Rightarrow> storage_registry \<Rightarrow> storage_registry \<times> bool" where
  "begin_scratch_operation controller lease acquire g =
     (let permitted = (er_registered g \<and> er_controller g = controller \<and> \<not> er_operation_active g);
          found = (lease \<in> set (er_leases g));
          permitted =
            (if acquire
             then permitted \<and> \<not> found \<and> lease_count g < SSD_MAX_SCRATCH_LEASES
               \<and> xe_new_scratch_allocations_allowed (er_storage g)
               \<and> (xe_status (er_storage g) = STORAGE_AVAILABLE \<or> xe_status (er_storage g) = STORAGE_IN_USE)
             else permitted \<and> found)
      in
      if permitted
      then (g\<lparr>er_operation_active := True, er_operation_acquire := acquire, er_operation_lease := lease,
              er_operation_start_lease_count := xe_active_scratch_leases (er_storage g)\<rparr>, True)
      else (g, False))"

definition operation_error_locked :: "nat \<Rightarrow> storage_registry \<Rightarrow> storage_registry" where
  "operation_error_locked expected_physical_lease_count g =
     fst (storage_apply_locked ((er_storage g)\<lparr>xe_status := STORAGE_ERROR,
       xe_new_scratch_allocations_allowed := False,
       xe_active_scratch_leases := expected_physical_lease_count,
       xe_reason := ''SSD lease completed but cached reconciliation was malformed; ''
         @ ''new scratch allocation is blocked''\<rparr>) APPLY_WRAPPER_COMPLETION g)"

text \<open>The first slot of an address, and the removal of a slot by the last address.\<close>

fun find_address :: "nat \<Rightarrow> nat list \<Rightarrow> nat option" where
  "find_address a [] = None"
| "find_address a (b # bs) =
     (if b = a then Some 0 else case find_address a bs of None \<Rightarrow> None | Some i \<Rightarrow> Some (i + 1))"

definition remove_address_at :: "nat \<Rightarrow> nat list \<Rightarrow> nat list" where
  "remove_address_at found ls = butlast (ls[found := last ls])"

definition expected_count :: "bool \<Rightarrow> bool \<Rightarrow> nat \<Rightarrow> nat \<times> bool" where
  "expected_count acquire physical_success start =
     (if physical_success \<and> acquire
      then (if start = SSD_MAX_SCRATCH_LEASES then (start, False) else (start + 1, True))
      else if physical_success
      then (if start = 0 then (start, False) else (start - 1, True))
      else (start, True))"

definition book_lease :: "nat \<Rightarrow> bool \<Rightarrow> bool \<Rightarrow> storage_registry \<Rightarrow> storage_registry \<times> bool" where
  "book_lease lease acquire physical_success g =
     (if physical_success \<and> acquire
      then (if find_address lease (er_leases g) \<noteq> None \<or> lease_count g \<ge> SSD_MAX_SCRATCH_LEASES
            then (g, False) else (g\<lparr>er_leases := er_leases g @ [lease]\<rparr>, True))
      else if physical_success
      then (case find_address lease (er_leases g) of
          None \<Rightarrow> (g, False)
        | Some found \<Rightarrow> (g\<lparr>er_leases := remove_address_at found (er_leases g)\<rparr>, True))
      else (g, True))"

definition reconcile_storage ::
    "nat \<Rightarrow> external_storage option \<Rightarrow> storage_registry \<Rightarrow> storage_registry \<times> bool" where
  "reconcile_storage expected storage g =
     (case Option.bind storage normalize_external_storage of
        None \<Rightarrow> (g, False)
      | Some normalized \<Rightarrow>
          let (g, reconciled) = (if xe_active_scratch_leases normalized = expected
                then storage_apply_locked normalized APPLY_WRAPPER_COMPLETION g else (g, False))
          in (g, reconciled \<or> (xe_generation normalized < xe_generation (er_storage g)
                \<and> xe_active_scratch_leases (er_storage g) \<ge> lease_count g)))"

definition finish_scratch_operation ::
    "u64 \<Rightarrow> nat \<Rightarrow> bool \<Rightarrow> bool \<Rightarrow> external_storage option \<Rightarrow> storage_registry
      \<Rightarrow> storage_registry \<times> bool" where
  "finish_scratch_operation controller lease acquire physical_success storage g =
     (if \<not> er_registered g \<or> er_controller g \<noteq> controller \<or> \<not> er_operation_active g
        \<or> er_operation_acquire g \<noteq> acquire \<or> er_operation_lease g \<noteq> lease
      then (g, False)
      else
        let (expected, physical_count_valid) =
              expected_count acquire physical_success (er_operation_start_lease_count g);
            (g, bookkeeping_valid) = book_lease lease acquire physical_success g;
            (expected, physical_count_valid) =
              (if expected < lease_count g then (lease_count g, False) else (expected, physical_count_valid));
            (g, reconciled) = (if bookkeeping_valid \<and> physical_count_valid
              then reconcile_storage expected storage g else (g, False));
            g = (if \<not> reconciled then operation_error_locked expected g else g)
        in (g\<lparr>er_operation_active := False, er_operation_acquire := False, er_operation_lease := 0,
              er_operation_start_lease_count := 0\<rparr>,
            physical_success \<and> bookkeeping_valid))"

text \<open>The two halves of \<open>scratch_operation\<close> around which the Governor's mutex is free.\<close>

definition physical_scratch_call ::
    "'p ssd_ops \<Rightarrow> u64 \<Rightarrow> nat \<Rightarrow> ssd_lease \<Rightarrow> bool \<Rightarrow> 'p ssd_controller
      \<Rightarrow> 'p ssd_controller \<times> ssd_lease \<times> bool" where
  "physical_scratch_call ops controller address lease acquire c =
     (if acquire then ssd_acquire_scratch ops controller address lease c
      else ssd_release_scratch ops controller address lease c)"

definition observed_storage :: "'p ssd_controller \<Rightarrow> external_storage option" where
  "observed_storage c = storage_from_ssd_snapshot (ssd_copy_snapshot c)"

definition scratch_operation ::
    "'p ssd_ops \<Rightarrow> u64 \<Rightarrow> nat \<Rightarrow> ssd_lease \<Rightarrow> bool \<Rightarrow> storage_registry \<Rightarrow> 'p ssd_controller
      \<Rightarrow> storage_registry \<times> 'p ssd_controller \<times> ssd_lease \<times> bool" where
  "scratch_operation ops controller address lease acquire g c =
     (let (g, permitted) = begin_scratch_operation controller address acquire g in
      if \<not> permitted then (g, c, lease, False)
      else
        let (c, lease, physical_success) = physical_scratch_call ops controller address lease acquire c;
            (g, result) = finish_scratch_operation controller address acquire physical_success
              (observed_storage c) g
        in (g, c, lease, result))"

fun external_storage_status_name :: "external_status \<Rightarrow> string" where
  "external_storage_status_name STORAGE_ABSENT = ''ABSENT''"
| "external_storage_status_name STORAGE_DETECTED = ''DETECTED''"
| "external_storage_status_name STORAGE_AVAILABLE = ''AVAILABLE''"
| "external_storage_status_name STORAGE_IN_USE = ''IN_USE''"
| "external_storage_status_name STORAGE_DRAINING = ''DRAINING''"
| "external_storage_status_name STORAGE_SAFE = ''SAFE''"
| "external_storage_status_name STORAGE_ERROR = ''ERROR''"

end
