(* ===== verification/Ssd_Safety.thy ===== *)
theory Ssd_Safety
  imports Ssd_Control
begin

text \<open>
  The runs of the external SSD controller and the invariant they keep: the snapshot agrees with
  the last observation, an unresolved activation stays bound to the device it was sent to, the
  latch of safe removal, the leases, and the conditions under which the provider was called.
\<close>

section \<open>Runs\<close>

text \<open>
  One public call of the controller, by any thread (the calls exclude each other); between calls
  the provider's own state, and with it the device, may change in any way.
\<close>

inductive ssd_step :: "'p ssd_ops \<Rightarrow> 'p ssd_controller \<Rightarrow> 'p ssd_controller \<Rightarrow> bool" for ops where
  step_world: "ssd_step ops c (c\<lparr>xc_provider := p\<rparr>)"
| step_refresh: "refresh_locked ops force c = (d, ok) \<Longrightarrow> ssd_step ops c d"
| step_get_snapshot: "ssd_get_snapshot ops c = (d, s, ok) \<Longrightarrow> ssd_step ops c d"
| step_enable: "ssd_enable ops c = (d, result) \<Longrightarrow> ssd_step ops c d"
| step_disable: "ssd_disable ops c = (d, result) \<Longrightarrow> ssd_step ops c d"
| step_cancel_drain: "ssd_cancel_drain c = (d, ok) \<Longrightarrow> ssd_step ops c d"
| step_acquire: "ssd_acquire_scratch ops self address lease c = (d, lease', ok) \<Longrightarrow> ssd_step ops c d"
| step_release: "ssd_release_scratch ops self address lease c = (d, lease', ok) \<Longrightarrow> ssd_step ops c d"

inductive ssd_run :: "'p ssd_ops \<Rightarrow> 'p ssd_controller \<Rightarrow> bool" for ops where
  run_create: "ssd_create allocated ops provider interval = Some c \<Longrightarrow> ssd_run ops c"
| run_step: "ssd_run ops c \<Longrightarrow> ssd_step ops c d \<Longrightarrow> ssd_run ops d"

section \<open>Reading the log\<close>

type_synonym ssd_tuple = "string \<times> string \<times> string"

definition tuple_of :: "ssd_observation \<Rightarrow> ssd_tuple" where
  "tuple_of ob = (copy_text SSD_IDENTITY_CAPACITY (vs_drive_identity (po_swap ob)),
     copy_text SSD_TEXT_CAPACITY (vs_uuid (po_swap ob)),
     copy_text SSD_TEXT_CAPACITY (vm_uuid (po_scratch ob)))"

fun last_polled :: "ssd_event list \<Rightarrow> ssd_observation" where
  "last_polled [] = zero_observation"
| "last_polled (SSD_POLLED ob # l) = ob"
| "last_polled (e # l) = last_polled l"

definition inactive :: "ssd_observation \<Rightarrow> bool" where
  "inactive ob \<longleftrightarrow> \<not> vs_active (po_swap ob) \<and> \<not> vm_mounted (po_scratch ob)"

text \<open>
  The device on which an activation (a start or a mount) may still be in effect: from the request
  on, until a later poll shows that same device, valid, with both partitions inactive.
\<close>

fun unresolved :: "ssd_event list \<Rightarrow> ssd_tuple option" where
  "unresolved [] = None"
| "unresolved (SSD_START path # l) = Some (tuple_of (last_polled l))"
| "unresolved (SSD_MOUNT path # l) = Some (tuple_of (last_polled l))"
| "unresolved (SSD_POLLED ob # l) =
     (case unresolved l of None \<Rightarrow> None
      | Some T \<Rightarrow> if observation_status ob = OBSERVATION_VALID \<and> tuple_of ob = T \<and> inactive ob
          then None else Some T)"
| "unresolved (e # l) = unresolved l"

text \<open>The object path an action was given, and the path the last poll showed for it.\<close>

fun action_path :: "ssd_event \<Rightarrow> ssd_observation \<Rightarrow> (string \<times> string) option" where
  "action_path (SSD_START path) ob = Some (path, vs_object_path (po_swap ob))"
| "action_path (SSD_STOP path) ob = Some (path, vs_object_path (po_swap ob))"
| "action_path (SSD_MOUNT path) ob = Some (path, vm_object_path (po_scratch ob))"
| "action_path (SSD_UNMOUNT path) ob = Some (path, vm_object_path (po_scratch ob))"
| "action_path e ob = None"

definition can_absorb :: "ssd_observation \<Rightarrow> bool" where
  "can_absorb ob \<longleftrightarrow> vs_used_known (po_swap ob)
     \<and> po_memory_pressure_known ob \<and> \<not> po_memory_pressure_elevated ob
     \<and> po_io_pressure_known ob \<and> \<not> po_io_pressure_elevated ob
     \<and> po_swap_activity_known ob \<and> po_swap_pages_in_delta ob = 0 \<and> po_swap_pages_out_delta ob = 0
     \<and> (vs_used_bytes (po_swap ob) = 0 \<or> po_memory_available_known ob
         \<and> unat (vs_used_bytes (po_swap ob)) + 3 * 1024 ^ 3 \<le> unat (po_memory_available_bytes ob))"

fun event_ok :: "ssd_event \<Rightarrow> ssd_event list \<Rightarrow> bool" where
  "event_ok e l =
     (case action_path e (last_polled l) of
        None \<Rightarrow> True
      | Some (path, seen) \<Rightarrow>
          path = seen \<and> observation_status (last_polled l) = OBSERVATION_VALID
          \<and> (\<forall>T. unresolved l = Some T \<longrightarrow> tuple_of (last_polled l) = T)
          \<and> (case e of SSD_STOP _ \<Rightarrow> vs_active (po_swap (last_polled l)) \<and> can_absorb (last_polled l)
             | SSD_UNMOUNT _ \<Rightarrow> vm_mounted (po_scratch (last_polled l)) \<and> \<not> vs_active (po_swap (last_polled l))
             | SSD_START _ \<Rightarrow> \<not> vs_active (po_swap (last_polled l))
             | SSD_MOUNT _ \<Rightarrow> vs_active (po_swap (last_polled l)) \<and> \<not> vm_mounted (po_scratch (last_polled l))
             | _ \<Rightarrow> True))"

fun log_ok :: "ssd_event list \<Rightarrow> bool" where
  "log_ok [] \<longleftrightarrow> True"
| "log_ok (e # l) \<longleftrightarrow> event_ok e l \<and> log_ok l"

lemma log_okD: "log_ok (later @ e # earlier) \<Longrightarrow> event_ok e earlier"
  by (induction later) simp_all

section \<open>The invariant\<close>

definition last_tuple :: "'p ssd_controller \<Rightarrow> ssd_tuple" where
  "last_tuple c = (xc_last_drive_identity c, xc_last_swap_uuid c, xc_last_scratch_uuid c)"

definition hazard_tuple :: "'p ssd_controller \<Rightarrow> ssd_tuple" where
  "hazard_tuple c = (xc_hazard_drive_identity c, xc_hazard_swap_uuid c, xc_hazard_scratch_uuid c)"

text \<open>The snapshot withholds telemetry exactly while the device of a latched hazard is not seen.\<close>

definition withheld :: "'p ssd_controller \<Rightarrow> bool" where
  "withheld c \<longleftrightarrow> xc_physical_hazard_latched c \<and> \<not> observation_is_hazard_pair_locked c"

definition snap_ok :: "'p ssd_controller \<Rightarrow> bool" where
  "snap_ok c \<longleftrightarrow> withheld c
     \<or> xs_swap_active (xc_snapshot c) = vs_active (po_swap (xc_observation c))
       \<and> xs_scratch_mounted (xc_snapshot c) = vm_mounted (po_scratch (xc_observation c))
       \<and> xs_swap_used_known (xc_snapshot c) = vs_used_known (po_swap (xc_observation c))
       \<and> xs_swap_used_bytes (xc_snapshot c) = vs_used_bytes (po_swap (xc_observation c))
       \<and> xs_swap_total_known (xc_snapshot c) = vs_total_known (po_swap (xc_observation c))"

definition seen_ok :: "'p ssd_controller \<Rightarrow> bool" where
  "seen_ok c \<longleftrightarrow> xc_observation c = last_polled (xc_log c)
     \<and> (\<not> xc_have_observation c \<longrightarrow> xc_observation c = zero_observation)"

definition safe_ok :: "'p ssd_controller \<Rightarrow> bool" where
  "safe_ok c \<longleftrightarrow> (xc_safe_latched c \<longrightarrow> \<not> xc_physical_hazard_latched c \<and> xc_lease_count c = 0
     \<and> inactive (xc_observation c))"

definition is_tuple :: "ssd_tuple \<Rightarrow> bool" where
  "is_tuple T = (case T of (d, u, v) \<Rightarrow> length d < SSD_IDENTITY_CAPACITY
     \<and> length u < SSD_TEXT_CAPACITY \<and> length v < SSD_TEXT_CAPACITY)"

definition identity_ok :: "'p ssd_controller \<Rightarrow> bool" where
  "identity_ok c \<longleftrightarrow> is_tuple (last_tuple c)
     \<and> (xc_physical_hazard_latched c \<longrightarrow> hazard_tuple c = last_tuple c)
     \<and> (\<not> xc_physical_hazard_latched c \<and> xc_have_observation c
         \<and> observation_status (xc_observation c) = OBSERVATION_VALID
        \<longrightarrow> last_tuple c = tuple_of (xc_observation c))"

definition authority_ok :: "'p ssd_controller \<Rightarrow> bool" where
  "authority_ok c \<longleftrightarrow> (\<forall>T. unresolved (xc_log c) = Some T \<longrightarrow>
     last_tuple c = T \<and> have_remembered_identity c
     \<and> (xc_physical_hazard_latched c \<or> \<not> inactive (xc_observation c)))"

definition leases_ok :: "'p ssd_controller \<Rightarrow> bool" where
  "leases_ok c \<longleftrightarrow> length (xc_active_leases c) = SSD_MAX_SCRATCH_LEASES
     \<and> length (filter (\<lambda>(i, a). i \<noteq> 0) (xc_active_leases c)) = xc_lease_count c
     \<and> distinct (map fst (filter (\<lambda>(i, a). i \<noteq> 0) (xc_active_leases c)))
     \<and> distinct (map snd (filter (\<lambda>(i, a). i \<noteq> 0) (xc_active_leases c)))
     \<and> (xc_next_lease_id c \<noteq> 0 \<longrightarrow> (\<forall>(i, a) \<in> set (xc_active_leases c). i < xc_next_lease_id c))"

definition core_inv :: "'p ssd_controller \<Rightarrow> bool" where
  "core_inv c \<longleftrightarrow> snap_ok c \<and> seen_ok c \<and> safe_ok c \<and> identity_ok c \<and> authority_ok c \<and> leases_ok c
     \<and> log_ok (xc_log c)"

text \<open>The snapshot is the one derived from the rest of the controller.\<close>

definition derived :: "'p ssd_controller \<Rightarrow> bool" where
  "derived c \<longleftrightarrow> (\<exists>b p. c = (derive_state_locked b)\<lparr>xc_provider := p\<rparr>)"

section \<open>Frames\<close>

text \<open>What the invariant reads, the snapshot apart.\<close>

definition core_view where
  "core_view c = ((xc_physical_hazard_latched c, hazard_tuple c, last_tuple c),
     (xc_have_observation c, xc_observation c, xc_safe_latched c),
     (xc_next_lease_id c, xc_active_leases c, xc_lease_count c), xc_log c)"

definition snap_view where
  "snap_view s = (xs_swap_active s, xs_scratch_mounted s, xs_swap_used_known s, xs_swap_used_bytes s,
     xs_swap_total_known s)"

lemma core_viewD:
  assumes "core_view c = core_view d"
  shows "withheld c = withheld d" "seen_ok c = seen_ok d" "safe_ok c = safe_ok d"
    "identity_ok c = identity_ok d" "authority_ok c = authority_ok d" "leases_ok c = leases_ok d"
    "xc_log c = xc_log d"
  using assms
  by (simp_all add: core_view_def withheld_def observation_is_hazard_pair_locked_def seen_ok_def
    safe_ok_def identity_ok_def authority_ok_def leases_ok_def have_remembered_identity_def
    hazard_tuple_def last_tuple_def)

lemma core_inv_frame:
  assumes "core_inv c" "core_view d = core_view c" "snap_ok c \<Longrightarrow> snap_ok d"
  shows "core_inv d"
  using assms(1,3) core_viewD [OF assms(2)] by (simp add: core_inv_def)

lemma snap_ok_frame:
  assumes "snap_ok c" "core_view d = core_view c" "snap_view (xc_snapshot d) = snap_view (xc_snapshot c)"
  shows "snap_ok d"
  using assms core_viewD(1) [OF assms(2)]
  by (auto simp: snap_ok_def snap_view_def core_view_def)

lemma core_inv_cong:
  assumes "core_inv c" "core_view d = core_view c" "snap_view (xc_snapshot d) = snap_view (xc_snapshot c)"
  shows "core_inv d"
  using core_inv_frame [OF assms(1,2)] snap_ok_frame [OF _ assms(2,3)] by blast

lemma derive_state_fields:
  "xc_provider (derive_state_locked c) = xc_provider c"
  "xc_last_poll_succeeded (derive_state_locked c) = xc_last_poll_succeeded c"
  "xc_have_observation (derive_state_locked c) = xc_have_observation c"
  "xc_observation (derive_state_locked c) = xc_observation c"
  "xc_refresh_error (derive_state_locked c) = xc_refresh_error c"
  "xc_operation_error (derive_state_locked c) = xc_operation_error c"
  "xc_drain_requested (derive_state_locked c) = xc_drain_requested c"
  "xc_safe_latched (derive_state_locked c) = xc_safe_latched c"
  "xc_physical_hazard_latched (derive_state_locked c) = xc_physical_hazard_latched c"
  "xc_next_lease_id (derive_state_locked c) = xc_next_lease_id c"
  "xc_active_leases (derive_state_locked c) = xc_active_leases c"
  "xc_lease_count (derive_state_locked c) = xc_lease_count c"
  "xc_log (derive_state_locked c) = xc_log c"
  "core_view (derive_state_locked c) = core_view c"
  by (simp_all add: derive_state_locked_def split_beta Let_def core_view_def hazard_tuple_def last_tuple_def)

lemma bump_fields:
  "xc_provider (bump_generation_locked c) = xc_provider c"
  "xc_last_poll_succeeded (bump_generation_locked c) = xc_last_poll_succeeded c"
  "xc_have_observation (bump_generation_locked c) = xc_have_observation c"
  "xc_observation (bump_generation_locked c) = xc_observation c"
  "xc_refresh_error (bump_generation_locked c) = xc_refresh_error c"
  "xc_operation_error (bump_generation_locked c) = xc_operation_error c"
  "xc_drain_requested (bump_generation_locked c) = xc_drain_requested c"
  "xc_safe_latched (bump_generation_locked c) = xc_safe_latched c"
  "xc_physical_hazard_latched (bump_generation_locked c) = xc_physical_hazard_latched c"
  "xc_next_lease_id (bump_generation_locked c) = xc_next_lease_id c"
  "xc_active_leases (bump_generation_locked c) = xc_active_leases c"
  "xc_lease_count (bump_generation_locked c) = xc_lease_count c"
  "xc_log (bump_generation_locked c) = xc_log c"
  "core_view (bump_generation_locked c) = core_view c"
  "snap_view (xc_snapshot (bump_generation_locked c)) = snap_view (xc_snapshot c)"
  by (simp_all add: bump_generation_locked_def Let_def core_view_def snap_view_def hazard_tuple_def
    last_tuple_def)

lemmas ssd_frames [simp] = derive_state_fields bump_fields

lemma hazard_pair_implies_latch:
  "observation_is_hazard_pair_locked c \<Longrightarrow> xc_physical_hazard_latched c"
  by (simp add: observation_is_hazard_pair_locked_def)

lemma derive_snap_view:
  "\<not> withheld c \<Longrightarrow> snap_view (xc_snapshot (derive_state_locked c)) = snap_view (xc_snapshot c)"
  by (simp add: derive_state_locked_def split_beta Let_def derive_actions_def derive_hazard_def
    derive_common_def snap_view_def withheld_def)

lemma derive_snap_ok: "snap_ok c \<Longrightarrow> snap_ok (derive_state_locked c)"
  by (cases "withheld c")
    (simp add: snap_ok_def core_viewD(1) [OF derive_state_fields(14)],
     rule snap_ok_frame, simp_all add: derive_snap_view)

lemma derive_core_inv [intro]: "core_inv c \<Longrightarrow> core_inv (derive_state_locked c)"
  by (rule core_inv_frame [OF _ derive_state_fields(14) derive_snap_ok])

lemma bump_core_inv [intro]: "core_inv c \<Longrightarrow> core_inv (bump_generation_locked c)"
  by (rule core_inv_cong) simp_all

lemma derived_derive [simp]: "derived (derive_state_locked c)"
  by (auto simp: derived_def intro!: exI [of _ c] exI [of _ "xc_provider c"])

section \<open>Polls\<close>

lemma copy_text_twice [simp]: "copy_text n (copy_text n t) = copy_text n t"
  by (simp add: copy_text_def)

lemma tuple_of_is_tuple [simp]: "is_tuple (tuple_of ob)"
  by (simp add: tuple_of_def is_tuple_def length_copy_text SSD_IDENTITY_CAPACITY_def SSD_TEXT_CAPACITY_def)

lemma valid_texts:
  assumes "observation_status ob = OBSERVATION_VALID"
  shows "text_is_present (vs_drive_identity (po_swap ob))"
    "vm_drive_identity (po_scratch ob) = vs_drive_identity (po_swap ob)"
    "text_is_present (vs_uuid (po_swap ob))" "text_is_present (vm_uuid (po_scratch ob))"
  using assms by (auto simp: observation_status_def validate_observation_def Let_def split: if_splits)

lemma copy_present: "text_is_present (copy_text n t) \<longleftrightarrow> text_is_present t \<and> n > 1"
  by (cases t) (auto simp: text_is_present_def copy_text_def)

lemma matches_tuple:
  assumes "observation_matches_identity ob d u v" "is_tuple (d, u, v)"
  shows "tuple_of ob = (d, u, v)"
  using assms by (simp add: observation_matches_identity_def is_tuple_def tuple_of_def)

lemma latch_fields:
  assumes "is_tuple (last_tuple c)" "\<not> xc_physical_hazard_latched c"
  shows "hazard_tuple (latch_physical_hazard_locked c) = last_tuple c"
    "xc_physical_hazard_latched (latch_physical_hazard_locked c)"
    "last_tuple (latch_physical_hazard_locked c) = last_tuple c"
  using assms by (simp_all add: latch_physical_hazard_locked_def hazard_tuple_def last_tuple_def is_tuple_def)

lemma resolve_fields:
  "xc_have_observation (resolve_ownership ob c) = xc_have_observation c"
  "xc_log (resolve_ownership ob c) = xc_log c" "xc_lease_count (resolve_ownership ob c) = xc_lease_count c"
  "xc_active_leases (resolve_ownership ob c) = xc_active_leases c"
  "xc_next_lease_id (resolve_ownership ob c) = xc_next_lease_id c"
  "xc_operation_error (resolve_ownership ob c) = xc_operation_error c"
  "xc_drain_requested (resolve_ownership ob c) = xc_drain_requested c"
  by (simp_all add: resolve_ownership_def Let_def latch_physical_hazard_locked_def
    remember_identity_locked_def forget_identity_locked_def)

text \<open>The cases of a poll: what becomes of the latch and of the remembered device.\<close>

lemma resolve_cases:
  assumes "is_tuple (last_tuple c)"
  obtains (held) "xc_physical_hazard_latched c" "resolve_ownership ob c = c"
  | (latched) "\<not> xc_physical_hazard_latched c" "have_remembered_identity c"
      "xc_physical_hazard_latched (resolve_ownership ob c)" "\<not> xc_safe_latched (resolve_ownership ob c)"
      "hazard_tuple (resolve_ownership ob c) = last_tuple c"
      "last_tuple (resolve_ownership ob c) = last_tuple c"
  | (same) "\<not> xc_physical_hazard_latched c" "observation_status ob = OBSERVATION_VALID"
      "last_tuple c = tuple_of ob" "resolve_ownership ob c = c"
  | (other) "\<not> xc_physical_hazard_latched c" "observation_status ob = OBSERVATION_VALID"
      "\<not> (previously_owned c \<and> have_remembered_identity c)"
      "resolve_ownership ob c = (remember_identity_locked ob c)\<lparr>xc_safe_latched := False\<rparr>"
  | (absent) "\<not> xc_physical_hazard_latched c" "observation_status ob \<noteq> OBSERVATION_VALID"
      "\<not> previously_owned c"
      "resolve_ownership ob c = forget_identity_locked (c\<lparr>xc_safe_latched := False\<rparr>)"
  | (kept) "\<not> xc_physical_hazard_latched c" "observation_status ob \<noteq> OBSERVATION_VALID"
      "\<not> (previously_owned c \<and> have_remembered_identity c)" "resolve_ownership ob c = c"
proof (cases "xc_physical_hazard_latched c")
  case True
  then show ?thesis by (intro held) (simp_all add: resolve_ownership_def)
next
  case no: False
  have same_tuple: "last_tuple c = tuple_of ob" if "same_remembered_pair ob c"
    using that assms by (auto simp: same_remembered_pair_def last_tuple_def dest: matches_tuple)
  have valid: "observation_status ob = OBSERVATION_VALID" if "same_remembered_pair ob c"
    using that by (simp add: same_remembered_pair_def)
  show ?thesis
  proof (cases "previously_owned c \<and> have_remembered_identity c \<and> \<not> same_remembered_pair ob c")
    case True
    then have "resolve_ownership ob c = (latch_physical_hazard_locked c)\<lparr>xc_safe_latched := False\<rparr>"
      using no latch_fields(2) [OF assms no] by (auto simp: resolve_ownership_def Let_def)
    with True no latch_fields [OF assms no] show ?thesis
      by (intro latched) (simp_all add: hazard_tuple_def last_tuple_def)
  next
    case notlatched: False
    show ?thesis
    proof (cases "observation_status ob = OBSERVATION_VALID")
      case True
      show ?thesis
      proof (cases "same_remembered_pair ob c")
        case s: True
        show ?thesis
          using s True no by (intro same same_tuple) (auto simp: resolve_ownership_def Let_def)
      next
        case ns: False
        show ?thesis
          using ns True no notlatched by (intro other) (auto simp: resolve_ownership_def Let_def)
      qed
    next
      case nv: False
      have ns: "\<not> same_remembered_pair ob c" using nv valid by blast
      show ?thesis
      proof (cases "observation_status ob = OBSERVATION_ABSENT \<and> \<not> previously_owned c")
        case True
        show ?thesis
          using True no nv by (intro absent) (auto simp: resolve_ownership_def Let_def)
      next
        case False
        show ?thesis
          using False no nv ns notlatched by (intro kept) (auto simp: resolve_ownership_def Let_def)
      qed
    qed
  qed
qed

lemma copy_observation_fields:
  "core_view (copy_observation_to_snapshot_locked c) = core_view c"
  "snap_view (xc_snapshot (copy_observation_to_snapshot_locked c)) =
    (vs_active (po_swap (xc_observation c)), vm_mounted (po_scratch (xc_observation c)),
     vs_used_known (po_swap (xc_observation c)), vs_used_bytes (po_swap (xc_observation c)),
     vs_total_known (po_swap (xc_observation c)))"
  by (simp_all add: copy_observation_to_snapshot_locked_def Let_def core_view_def snap_view_def
    hazard_tuple_def last_tuple_def)

lemma accept_fields:
  fixes ob c
  defines "r \<equiv> resolve_ownership ob c"
  shows "core_view (accept_observation ob c) =
      ((xc_physical_hazard_latched r, hazard_tuple r, last_tuple r),
       (True, ob, xc_safe_latched r \<and> inactive ob),
       (xc_next_lease_id c, xc_active_leases c, xc_lease_count c), xc_log c)"
    and "snap_ok (accept_observation ob c)" "derived (accept_observation ob c)"
    "\<not> xc_refresh_error (accept_observation ob c)"
proof -
  let ?c = "r\<lparr>xc_observation := ob, xc_have_observation := True, xc_refresh_error := False,
                xc_refresh_reason := [], xc_last_poll_succeeded := True\<rparr>"
  let ?d = "copy_observation_to_snapshot_locked ?c"
  let ?e = "if xs_swap_active (xc_snapshot ?d) \<or> xs_scratch_mounted (xc_snapshot ?d)
               then ?d\<lparr>xc_safe_latched := False\<rparr> else ?d"
  have a: "accept_observation ob c = derive_state_locked (bump_generation_locked ?e)"
    by (simp only: accept_observation_def Let_def r_def)
  have d: "core_view ?d = core_view ?c" "snap_view (xc_snapshot ?d) =
      (vs_active (po_swap ob), vm_mounted (po_scratch ob), vs_used_known (po_swap ob), vs_used_bytes (po_swap ob),
       vs_total_known (po_swap ob))"
    using copy_observation_fields [of ?c] by simp_all
  have e: "core_view ?e = ((xc_physical_hazard_latched r, hazard_tuple r, last_tuple r),
       (True, ob, xc_safe_latched r \<and> inactive ob),
       (xc_next_lease_id c, xc_active_leases c, xc_lease_count c), xc_log c)"
    "snap_view (xc_snapshot ?e) = snap_view (xc_snapshot ?d)" "xc_observation ?e = ob"
    using d by (auto simp: core_view_def snap_view_def inactive_def hazard_tuple_def last_tuple_def
      r_def resolve_fields)
  show "core_view (accept_observation ob c) = ((xc_physical_hazard_latched r, hazard_tuple r, last_tuple r),
       (True, ob, xc_safe_latched r \<and> inactive ob),
       (xc_next_lease_id c, xc_active_leases c, xc_lease_count c), xc_log c)"
    by (simp add: a e(1))
  have "snap_ok ?e" using d(2) e(2,3) by (simp add: snap_ok_def snap_view_def)
  then have "snap_ok (bump_generation_locked ?e)" by (rule snap_ok_frame) simp_all
  then show "snap_ok (accept_observation ob c)" by (simp only: a derive_snap_ok)
  show "derived (accept_observation ob c)" by (simp only: a derived_derive)
  show "\<not> xc_refresh_error (accept_observation ob c)"
    by (simp add: a copy_observation_to_snapshot_locked_def Let_def)
qed

lemma not_owned_inactive:
  assumes "snap_ok c" "\<not> xc_physical_hazard_latched c" "\<not> inactive (xc_observation c)"
  shows "previously_owned c"
  using assms by (auto simp: snap_ok_def withheld_def inactive_def previously_owned_def)

lemma have_remembered_tuple:
  "have_remembered_identity c \<longleftrightarrow> (case last_tuple c of (d, u, v) \<Rightarrow>
     text_is_present d \<and> text_is_present u \<and> text_is_present v)"
  by (simp add: have_remembered_identity_def last_tuple_def)

lemma remember_fields:
  "last_tuple ((remember_identity_locked ob c)\<lparr>xc_safe_latched := b\<rparr>) = tuple_of ob"
  "xc_physical_hazard_latched (remember_identity_locked ob c) = xc_physical_hazard_latched c"
  "last_tuple (forget_identity_locked c) = ([], [], [])"
  "xc_physical_hazard_latched (forget_identity_locked c) = xc_physical_hazard_latched c"
  "xc_safe_latched (forget_identity_locked c) = xc_safe_latched c"
  by (simp_all add: remember_identity_locked_def forget_identity_locked_def last_tuple_def tuple_of_def)

lemma is_tuple_nil: "is_tuple ([], [], [])"
  by (simp add: is_tuple_def SSD_IDENTITY_CAPACITY_def SSD_TEXT_CAPACITY_def)

lemma resolve_identity:
  assumes "identity_ok c"
  shows "is_tuple (last_tuple (resolve_ownership ob c))
    \<and> (xc_physical_hazard_latched (resolve_ownership ob c)
        \<longrightarrow> hazard_tuple (resolve_ownership ob c) = last_tuple (resolve_ownership ob c))
    \<and> (\<not> xc_physical_hazard_latched (resolve_ownership ob c)
        \<longrightarrow> observation_status ob = OBSERVATION_VALID
        \<longrightarrow> last_tuple (resolve_ownership ob c) = tuple_of ob)
    \<and> (xc_safe_latched (resolve_ownership ob c) \<longrightarrow> xc_safe_latched c
        \<and> xc_physical_hazard_latched (resolve_ownership ob c) = xc_physical_hazard_latched c)"
proof -
  have t: "is_tuple (last_tuple c)" "xc_physical_hazard_latched c \<Longrightarrow> hazard_tuple c = last_tuple c"
    using assms by (simp_all add: identity_ok_def)
  from t(1) show ?thesis
    by (cases rule: resolve_cases [of c ob]) (simp_all add: remember_fields is_tuple_nil t)
qed

lemma resolve_authority:
  assumes "identity_ok c" "snap_ok c" "last_tuple c = T" "have_remembered_identity c"
    "xc_physical_hazard_latched c \<or> \<not> inactive (xc_observation c)"
  shows "last_tuple (resolve_ownership ob c) = T \<and>
    (xc_physical_hazard_latched (resolve_ownership ob c)
      \<or> observation_status ob = OBSERVATION_VALID \<and> tuple_of ob = T)"
proof -
  have "is_tuple (last_tuple c)" using assms(1) by (simp add: identity_ok_def)
  then show ?thesis
    using not_owned_inactive [OF assms(2)] assms(3-5) by (cases rule: resolve_cases [of c ob]) auto
qed

abbreviation polled :: "ssd_observation \<Rightarrow> 'p ssd_controller \<Rightarrow> 'p ssd_controller" where
  "polled ob c \<equiv> c\<lparr>xc_log := SSD_POLLED ob # xc_log c\<rparr>"

lemma core_viewI:
  assumes "core_view c = ((h, ht, lt), (have, ob, safe), (nxt, ls, n), l)"
  shows "xc_physical_hazard_latched c = h" "hazard_tuple c = ht" "last_tuple c = lt"
    "xc_have_observation c = have" "xc_observation c = ob" "xc_safe_latched c = safe"
    "xc_next_lease_id c = nxt" "xc_active_leases c = ls" "xc_lease_count c = n" "xc_log c = l"
  using assms by (simp_all add: core_view_def)

lemma log_frames:
  "snap_ok (c\<lparr>xc_log := l\<rparr>) = snap_ok c" "safe_ok (c\<lparr>xc_log := l\<rparr>) = safe_ok c"
  "identity_ok (c\<lparr>xc_log := l\<rparr>) = identity_ok c" "leases_ok (c\<lparr>xc_log := l\<rparr>) = leases_ok c"
  "last_tuple (c\<lparr>xc_log := l\<rparr>) = last_tuple c"
  "have_remembered_identity (c\<lparr>xc_log := l\<rparr>) = have_remembered_identity c"
  by (simp_all add: snap_ok_def withheld_def observation_is_hazard_pair_locked_def safe_ok_def
    identity_ok_def last_tuple_def hazard_tuple_def leases_ok_def have_remembered_identity_def)

lemma accept_core_inv:
  assumes "core_inv c"
  shows "core_inv (accept_observation ob (polled ob c))"
proof -
  let ?c = "polled ob c" let ?a = "accept_observation ob ?c" let ?r = "resolve_ownership ob ?c"
  note inv = assms [unfolded core_inv_def]
  have ident: "identity_ok ?c" "snap_ok ?c"
    using inv by (simp_all add: log_frames)
  note r = resolve_identity [OF ident(1), of ob]
  note a = core_viewI [OF accept_fields(1) [of ob ?c]]
  have "snap_ok ?a" by (rule accept_fields(2))
  moreover have "seen_ok ?a" by (simp add: seen_ok_def a)
  moreover have "safe_ok ?a" using inv r by (auto simp: safe_ok_def a)
  moreover have "identity_ok ?a" using r by (simp add: identity_ok_def a)
  moreover have "authority_ok ?a"
    unfolding authority_ok_def
  proof (intro allI impI)
    fix T
    assume "unresolved (xc_log ?a) = Some T"
    then have old: "unresolved (xc_log c) = Some T"
      and still: "\<not> (observation_status ob = OBSERVATION_VALID \<and> tuple_of ob = T \<and> inactive ob)"
      by (auto simp: a split: option.splits if_splits)
    have auth: "last_tuple c = T" "have_remembered_identity c"
      "xc_physical_hazard_latched c \<or> \<not> inactive (xc_observation c)"
      using inv old by (simp_all add: authority_ok_def)
    have "last_tuple ?r = T \<and> (xc_physical_hazard_latched ?r
        \<or> observation_status ob = OBSERVATION_VALID \<and> tuple_of ob = T)"
      using auth by (intro resolve_authority [OF ident]) (simp_all add: log_frames)
    with still auth show "last_tuple ?a = T \<and> have_remembered_identity ?a
        \<and> (xc_physical_hazard_latched ?a \<or> \<not> inactive (xc_observation ?a))"
      by (auto simp: a have_remembered_tuple)
  qed
  moreover have "leases_ok ?a" using inv by (simp add: leases_ok_def a)
  moreover have "log_ok (xc_log ?a)" using inv by (simp add: a)
  ultimately show ?thesis by (simp add: core_inv_def)
qed

definition fresh :: "'p ssd_controller \<Rightarrow> bool" where
  "fresh c \<longleftrightarrow> (\<exists>l. xc_log c = SSD_POLLED (xc_observation c) # l) \<and> xc_have_observation c"

text \<open>The events one operation appends to the log.\<close>

definition appends :: "(ssd_event \<Rightarrow> bool) \<Rightarrow> 'p ssd_controller \<Rightarrow> 'p ssd_controller \<Rightarrow> bool" where
  "appends P c d \<longleftrightarrow> (\<exists>new. xc_log d = new @ xc_log c \<and> list_all P new)"

fun is_poll :: "ssd_event \<Rightarrow> bool" where
  "is_poll (SSD_POLLED ob) \<longleftrightarrow> True"
| "is_poll SSD_POLL_FAILED \<longleftrightarrow> True"
| "is_poll e \<longleftrightarrow> False"

lemma poll_failed_core_inv:
  assumes "core_inv c"
  shows "core_inv (c\<lparr>xc_log := SSD_POLL_FAILED # xc_log c\<rparr>)"
  using assms by (auto simp add: core_inv_def log_frames seen_ok_def authority_ok_def)

lemma reject_fields:
  "core_view (reject_clock c) = core_view c" "core_view (reject_poll reason c) = core_view c"
  "derived (reject_clock c)" "derived (reject_poll reason c)"
  by (simp_all add: reject_clock_def reject_poll_def Let_def)
    (simp_all add: core_view_def hazard_tuple_def last_tuple_def)

lemma reject_core_inv:
  assumes "core_inv c"
  shows "core_inv (reject_clock c)" "core_inv (reject_poll reason c)"
proof -
  have "core_inv (c\<lparr>xc_refresh_error := b, xc_refresh_reason := t, xc_last_poll_succeeded := b'\<rparr>)" for b t b'
    by (rule core_inv_cong [OF assms]) (simp_all add: core_view_def hazard_tuple_def last_tuple_def)
  then show "core_inv (reject_clock c)"
    unfolding reject_clock_def by (intro derive_core_inv bump_core_inv)
  have "core_inv (c\<lparr>xc_refresh_error := b, xc_refresh_reason := t, xc_last_poll_succeeded := b',
      xc_snapshot := (xc_snapshot c)\<lparr>xs_swap_device := u, xs_scratch_device := v\<rparr>\<rparr>)" for b t b' u v
    by (rule core_inv_cong [OF assms])
      (simp_all add: core_view_def snap_view_def hazard_tuple_def last_tuple_def)
  then show "core_inv (reject_poll reason c)"
    unfolding reject_poll_def Let_def by (intro derive_core_inv bump_core_inv)
qed

text \<open>What an operation may do to everything the invariant reads, in one judgement.\<close>

definition advances :: "(ssd_event \<Rightarrow> bool) \<Rightarrow> 'p ssd_controller \<Rightarrow> 'p ssd_controller \<Rightarrow> bool" where
  "advances P c d \<longleftrightarrow> core_inv d \<and> xc_lease_count d = xc_lease_count c
     \<and> xc_active_leases d = xc_active_leases c \<and> xc_next_lease_id d = xc_next_lease_id c
     \<and> appends P c d"

lemma appends_refl: "appends P c c"
  by (simp add: appends_def)

lemma appends_trans: "appends P b c \<Longrightarrow> appends P c d \<Longrightarrow> appends P b d"
  by (auto simp: appends_def)

lemma advances_trans: "advances P b c \<Longrightarrow> advances P c d \<Longrightarrow> advances P b d"
  by (auto simp: advances_def intro: appends_trans)

lemma advances_weaken: "advances P c d \<Longrightarrow> (\<And>e. P e \<Longrightarrow> Q e) \<Longrightarrow> advances Q c d"
  by (auto simp: advances_def appends_def list_all_iff)

lemma advances_refl: "core_inv c \<Longrightarrow> advances P c c"
  by (simp add: advances_def appends_refl)

lemma advances_view:
  "core_inv d \<Longrightarrow> core_view d = core_view c \<Longrightarrow> advances P c d"
  by (simp add: advances_def appends_def core_view_def)

lemma accept_advances:
  assumes "core_inv c"
  shows "advances is_poll c (accept_observation ob (polled ob c))" "fresh (accept_observation ob (polled ob c))"
  using accept_core_inv [OF assms] core_viewI [OF accept_fields(1) [of ob "polled ob c"]]
  by (simp_all add: advances_def appends_def fresh_def)

lemma polled_provider:
  "core_inv c \<Longrightarrow> core_inv (c\<lparr>xc_provider := p\<rparr>)"
  "core_inv c \<Longrightarrow> core_inv (c\<lparr>xc_provider := p, xc_have_poll_time := b, xc_last_poll_ns := t\<rparr>)"
  "derived c \<Longrightarrow> derived (c\<lparr>xc_provider := p\<rparr>)"
proof -
  show "core_inv c \<Longrightarrow> core_inv (c\<lparr>xc_provider := p\<rparr>)"
    by (erule core_inv_cong) (simp_all add: core_view_def hazard_tuple_def last_tuple_def)
  show "core_inv c \<Longrightarrow> core_inv (c\<lparr>xc_provider := p, xc_have_poll_time := b, xc_last_poll_ns := t\<rparr>)"
    by (erule core_inv_cong) (simp_all add: core_view_def hazard_tuple_def last_tuple_def)
  show "derived c \<Longrightarrow> derived (c\<lparr>xc_provider := p\<rparr>)"
    unfolding derived_def by fastforce
qed

lemma refresh_locked_inv:
  assumes inv: "core_inv c" and run: "refresh_locked ops force c = (d, ok)"
  shows "advances is_poll c d \<and> (derived c \<or> force \<longrightarrow> derived d) \<and> (force \<and> ok \<longrightarrow> fresh d)"
proof -
  obtain p now where now: "op_now ops (xc_provider c) = (p, now)" by (cases "op_now ops (xc_provider c)")
  let ?b = "c\<lparr>xc_provider := p\<rparr>"
  have b: "core_inv ?b" "core_view ?b = core_view c"
    by (rule polled_provider(1) [OF inv]) (simp add: core_view_def hazard_tuple_def last_tuple_def)
  show ?thesis
  proof (cases now)
    case None
    then have d: "d = reject_clock ?b" "ok = False" using run now by (simp_all add: refresh_locked_def)
    have "advances is_poll c d"
      unfolding d by (rule advances_view) (simp_all add: reject_core_inv b reject_fields)
    then show ?thesis by (simp add: d reject_fields)
  next
    case (Some t)
    show ?thesis
    proof (cases "\<not> force \<and> xc_have_poll_time c \<and> t \<ge> xc_last_poll_ns c
             \<and> t - xc_last_poll_ns c < xc_minimum_poll_interval_ns c")
      case True
      then have "d = ?b" using run now Some by (simp add: refresh_locked_def)
      with True show ?thesis
        using polled_provider(3) [of c p] by (simp add: advances_view b)
    next
      case False
      obtain q answer where poll: "op_refresh ops p = (q, answer)" by (cases "op_refresh ops p")
      let ?e = "?b\<lparr>xc_provider := q, xc_have_poll_time := True, xc_last_poll_ns := t\<rparr>"
      have e: "core_inv ?e" "core_view ?e = core_view c"
        using polled_provider(2) [OF b(1)] b(2) by (simp_all add: core_view_def hazard_tuple_def last_tuple_def)
      have from_c: "advances P ?e f \<Longrightarrow> advances P c f" for P f
        by (rule advances_trans [OF advances_view [OF e]])
      show ?thesis
      proof (cases answer)
        case (Inl reason)
        let ?f = "?e\<lparr>xc_log := SSD_POLL_FAILED # xc_log ?e\<rparr>"
        have d: "d = reject_poll reason ?f" "ok = False"
          using run now Some False poll Inl by (auto simp: refresh_locked_def Let_def)
        have "advances is_poll ?e ?f"
          using poll_failed_core_inv [OF e(1)] by (simp add: advances_def appends_def)
        moreover have "advances is_poll ?f d"
          unfolding d using poll_failed_core_inv [OF e(1)]
          by (intro advances_view reject_core_inv reject_fields(2))
        ultimately have "advances is_poll c d" by (intro from_c) (rule advances_trans)
        then show ?thesis by (simp add: d reject_fields)
      next
        case (Inr ob)
        have d: "d = accept_observation ob (polled ob ?e)" "ok = True"
          using run now Some False poll Inr by (auto simp: refresh_locked_def Let_def)
        show ?thesis
          unfolding d using from_c [OF accept_advances(1) [OF e(1)]] accept_advances(2) [OF e(1)]
            accept_fields(3) by blast
      qed
    qed
  qed
qed

end
