(* ===== verification/Ssd_Invariant.thy ===== *)
theory Ssd_Invariant
  imports Ssd_Safety
begin

text \<open>
  Every operation of the external SSD controller keeps the invariant: the drain stages, the
  enable stages and the leases, with the events each may append to the log.
\<close>

section \<open>The current pair\<close>

lemma withheld_shows_nothing:
  assumes "derived c" "withheld c"
  shows "\<not> xs_swap_active (xc_snapshot c)" "\<not> xs_scratch_mounted (xc_snapshot c)"
proof -
  obtain b p where c: "c = (derive_state_locked b)\<lparr>xc_provider := p\<rparr>"
    using assms(1) by (auto simp: derived_def)
  have "withheld b"
    using assms(2) core_viewD(1) [of c b]
    by (simp add: c core_view_def hazard_tuple_def last_tuple_def derive_state_locked_def split_beta Let_def)
  then show "\<not> xs_swap_active (xc_snapshot c)" "\<not> xs_scratch_mounted (xc_snapshot c)"
    by (simp_all add: c withheld_def derive_state_locked_def split_beta Let_def derive_actions_def
      derive_hazard_def withhold_replacement_def)
qed

lemma authorized_pair:
  assumes "core_inv c" "current_pair_is_authorized_for_drain_locked c"
  shows "tuple_of (xc_observation c) = last_tuple c"
    "observation_status (xc_observation c) = OBSERVATION_VALID" "xc_have_observation c"
    "xs_swap_active (xc_snapshot c) = vs_active (po_swap (xc_observation c))"
    "xs_scratch_mounted (xc_snapshot c) = vm_mounted (po_scratch (xc_observation c))"
    "xs_swap_used_known (xc_snapshot c) = vs_used_known (po_swap (xc_observation c))"
    "xs_swap_used_bytes (xc_snapshot c) = vs_used_bytes (po_swap (xc_observation c))"
    "have_remembered_identity c"
    "xs_swap_total_known (xc_snapshot c) = vs_total_known (po_swap (xc_observation c))"
proof -
  have i: "identity_ok c" and s: "snap_ok c" using assms(1) by (simp_all add: core_inv_def)
  have a: "xc_have_observation c" "observation_status (xc_observation c) = OBSERVATION_VALID"
    "\<not> xc_physical_hazard_latched c \<or> observation_is_hazard_pair_locked c" "\<not> withheld c"
    using assms(2) by (auto simp: current_pair_is_authorized_for_drain_locked_def withheld_def)
  show t: "tuple_of (xc_observation c) = last_tuple c"
  proof (cases "xc_physical_hazard_latched c")
    case True
    then have "tuple_of (xc_observation c) = hazard_tuple c"
      using a(3) i unfolding hazard_tuple_def
      by (intro matches_tuple) (auto simp: observation_is_hazard_pair_locked_def identity_ok_def hazard_tuple_def)
    with True i show ?thesis by (simp add: identity_ok_def)
  next
    case False
    with a i show ?thesis by (simp add: identity_ok_def)
  qed
  show "observation_status (xc_observation c) = OBSERVATION_VALID" "xc_have_observation c"
    "xs_swap_active (xc_snapshot c) = vs_active (po_swap (xc_observation c))"
    "xs_scratch_mounted (xc_snapshot c) = vm_mounted (po_scratch (xc_observation c))"
    "xs_swap_used_known (xc_snapshot c) = vs_used_known (po_swap (xc_observation c))"
    "xs_swap_used_bytes (xc_snapshot c) = vs_used_bytes (po_swap (xc_observation c))"
    "xs_swap_total_known (xc_snapshot c) = vs_total_known (po_swap (xc_observation c))"
    using a s by (simp_all add: snap_ok_def)
  show "have_remembered_identity c"
    using valid_texts [OF a(2)]
    by (simp add: have_remembered_tuple t [symmetric] tuple_of_def copy_present
      SSD_IDENTITY_CAPACITY_def SSD_TEXT_CAPACITY_def)
qed

lemma valid_is_authorized:
  "current_pair_is_valid_locked c \<Longrightarrow> current_pair_is_authorized_for_drain_locked c"
  by (simp add: current_pair_is_valid_locked_def current_pair_is_authorized_for_drain_locked_def)

lemma pair_is_authorized:
  "observation_is_hazard_pair_locked c \<Longrightarrow> current_pair_is_authorized_for_drain_locked c"
  by (simp add: observation_is_hazard_pair_locked_def current_pair_is_authorized_for_drain_locked_def)

text \<open>After a poll of an owned device, the device that is shown is authorized.\<close>

lemma refresh_of_owned:
  assumes inv: "core_inv c" and run: "refresh_locked ops True c = (d, True)"
    and owned: "xs_swap_active (xc_snapshot c) \<or> xs_scratch_mounted (xc_snapshot c)"
      "have_remembered_identity c"
    and shown: "xs_swap_active (xc_snapshot d) \<or> xs_scratch_mounted (xc_snapshot d)"
  shows "current_pair_is_authorized_for_drain_locked d"
proof -
  obtain p t where now: "op_now ops (xc_provider c) = (p, Some t)"
    using run by (cases "op_now ops (xc_provider c)"; cases "snd (op_now ops (xc_provider c))")
      (auto simp: refresh_locked_def Let_def)
  obtain q ob where poll: "op_refresh ops p = (q, Inr ob)"
    using run now by (cases "op_refresh ops p"; cases "snd (op_refresh ops p)")
      (auto simp: refresh_locked_def Let_def)
  define e where "e = polled ob (c\<lparr>xc_provider := q, xc_have_poll_time := True, xc_last_poll_ns := t\<rparr>)"
  have d: "d = accept_observation ob e" using run by (simp add: refresh_locked_def now poll e_def)
  have e: "last_tuple e = last_tuple c" "xc_snapshot e = xc_snapshot c" by (simp_all add: e_def last_tuple_def)
  have r: "derived d" using refresh_locked_inv [OF inv run] by simp
  then have pair: "\<not> withheld d" using withheld_shows_nothing shown by blast
  have tup: "is_tuple (last_tuple e)" using inv e by (simp add: core_inv_def identity_ok_def)
  have "previously_owned e" "have_remembered_identity e"
    using owned e by (auto simp: previously_owned_def have_remembered_tuple)
  then have "xc_physical_hazard_latched (resolve_ownership ob e) \<or> observation_status ob = OBSERVATION_VALID"
    by (cases rule: resolve_cases [OF tup, of ob]) auto
  with pair show ?thesis
    using core_viewI [OF accept_fields(1) [of ob e]]
    by (auto simp: d withheld_def current_pair_is_authorized_for_drain_locked_def
      observation_is_hazard_pair_locked_def)
qed

section \<open>The drain\<close>

fun drain_event :: "ssd_event \<Rightarrow> bool" where
  "drain_event (SSD_START p) \<longleftrightarrow> False"
| "drain_event (SSD_MOUNT p) \<longleftrightarrow> False"
| "drain_event e \<longleftrightarrow> True"

lemma poll_is_drain: "is_poll e \<Longrightarrow> drain_event e"
  by (cases e) simp_all

lemma latch_operation_error:
  assumes "core_inv c"
  shows "advances P c (latch_operation_error_locked reason c)" "derived (latch_operation_error_locked reason c)"
proof -
  let ?b = "c\<lparr>xc_operation_error := True, xc_operation_reason := copy_text SSD_REASON_CAPACITY reason\<rparr>"
  have v: "core_view ?b = core_view c" by (simp add: core_view_def hazard_tuple_def last_tuple_def)
  have "core_inv ?b" by (rule core_inv_cong [OF assms v]) (simp add: snap_view_def)
  then show "advances P c (latch_operation_error_locked reason c)"
    unfolding latch_operation_error_locked_def
    by (intro advances_view derive_core_inv bump_core_inv) (simp_all add: v)
  show "derived (latch_operation_error_locked reason c)" by (simp add: latch_operation_error_locked_def)
qed

lemma drain_pending_inv:
  assumes "core_inv c"
  shows "advances P c (drain_pending reason c)" "derived (drain_pending reason c)"
proof -
  let ?b = "c\<lparr>xc_drain_reason := reason\<rparr>"
  have v: "core_view ?b = core_view c" by (simp add: core_view_def hazard_tuple_def last_tuple_def)
  have "core_inv ?b" by (rule core_inv_cong [OF assms v]) (simp add: snap_view_def)
  then show "advances P c (drain_pending reason c)"
    unfolding drain_pending_def
    by (intro advances_view derive_core_inv bump_core_inv) (simp_all add: v)
  show "derived (drain_pending reason c)" by (simp add: drain_pending_def)
qed

lemma refresh_drains:
  assumes "core_inv c" "refresh_locked ops True c = (d, ok)"
  shows "advances drain_event c d" "derived d" "ok \<Longrightarrow> fresh d" "core_inv d"
  using refresh_locked_inv [OF assms] advances_weaken [of is_poll c d drain_event, OF _ poll_is_drain]
  by (simp_all add: advances_def)

lemma reserve_fits:
  "available \<ge> SSD_HOST_MEMORY_RESERVE_BYTES \<Longrightarrow> used \<le> available - SSD_HOST_MEMORY_RESERVE_BYTES \<Longrightarrow>
    unat used + 3 * 1024 ^ 3 \<le> unat available" for used available :: u64
  by (simp add: SSD_HOST_MEMORY_RESERVE_BYTES_def word_le_nat_alt unat_sub)

lemma stop_blocker_none:
  assumes "stop_blocker c = None" "core_inv c" "current_pair_is_authorized_for_drain_locked c"
  shows "can_absorb (xc_observation c)"
  using assms(1) authorized_pair(6,7) [OF assms(2,3)]
    reserve_fits [of "po_memory_available_bytes (xc_observation c)" "vs_used_bytes (po_swap (xc_observation c))"]
  by (auto simp: stop_blocker_def can_absorb_def Let_def not_less word_gt_0 split: if_splits)

lemma action_core_inv:
  assumes inv: "core_inv c" and auth: "current_pair_is_authorized_for_drain_locked c"
    and path: "action_path e (xc_observation c) = Some (path, path)"
    and drain: "drain_event e"
    and stop: "e = SSD_STOP path \<Longrightarrow> vs_active (po_swap (xc_observation c)) \<and> can_absorb (xc_observation c)"
    and unmount: "e = SSD_UNMOUNT path \<Longrightarrow>
      vm_mounted (po_scratch (xc_observation c)) \<and> \<not> vs_active (po_swap (xc_observation c))"
  shows "core_inv (c\<lparr>xc_provider := p, xc_log := e # xc_log c\<rparr>)"
proof -
  note inv' = inv [unfolded core_inv_def]
  have seen: "xc_observation c = last_polled (xc_log c)" using inv' by (simp add: seen_ok_def)
  have ok: "event_ok e (xc_log c)"
    using authorized_pair [OF inv auth] inv' path stop unmount drain
    by (cases e) (auto simp: seen [symmetric] authority_ok_def)
  have e: "unresolved (e # xc_log c) = unresolved (xc_log c)" "last_polled (e # xc_log c) = last_polled (xc_log c)"
    using drain path by (cases e; simp)+
  have "core_inv (c\<lparr>xc_log := e # xc_log c\<rparr>)"
    using inv' ok e by (auto simp add: core_inv_def log_frames seen_ok_def authority_ok_def)
  moreover have "c\<lparr>xc_provider := p, xc_log := l\<rparr> = c\<lparr>xc_log := l, xc_provider := p\<rparr>" for l
    by (cases c) simp
  ultimately show ?thesis using polled_provider(1) [of "c\<lparr>xc_log := e # xc_log c\<rparr>" p] by metis
qed

lemma call_stop_inv:
  assumes "core_inv c" "current_pair_is_authorized_for_drain_locked c" "xs_swap_active (xc_snapshot c)"
    "stop_blocker c = None" and run: "call_stop_swap ops c = (d, ok, reason)"
  shows "core_inv d \<and> advances drain_event c d \<and> xc_snapshot d = xc_snapshot c
    \<and> have_remembered_identity d"
proof -
  let ?path = "vs_object_path (po_swap (xc_observation c))"
  obtain p where d: "d = c\<lparr>xc_provider := p, xc_log := SSD_STOP ?path # xc_log c\<rparr>"
    using run by (auto simp: call_stop_swap_def Let_def split: prod.splits)
  have "core_inv d"
    unfolding d
    by (rule action_core_inv [OF assms(1,2), where path = ?path])
      (simp_all add: stop_blocker_none [OF assms(4,1,2)] assms(3) authorized_pair(4) [OF assms(1,2), symmetric])
  then show ?thesis
    using authorized_pair(8) [OF assms(1,2)]
    by (simp add: d advances_def appends_def have_remembered_identity_def)
qed

lemma call_unmount_inv:
  assumes "core_inv c" "current_pair_is_authorized_for_drain_locked c"
    "xs_scratch_mounted (xc_snapshot c)" "\<not> xs_swap_active (xc_snapshot c)"
    and run: "call_unmount_scratch ops c = (d, ok, reason)"
  shows "core_inv d \<and> advances drain_event c d"
proof -
  let ?path = "vm_object_path (po_scratch (xc_observation c))"
  obtain p where d: "d = c\<lparr>xc_provider := p, xc_log := SSD_UNMOUNT ?path # xc_log c\<rparr>"
    using run by (auto simp: call_unmount_scratch_def Let_def split: prod.splits)
  have "core_inv d"
    unfolding d
    by (rule action_core_inv [OF assms(1,2), where path = ?path])
      (simp_all add: assms(3) assms(4) [simplified authorized_pair(4) [OF assms(1,2)]]
        authorized_pair(5) [OF assms(1,2), symmetric])
  then show ?thesis by (simp add: d advances_def appends_def)
qed

text \<open>Where a drain stage ends: the invariant holds, and going on means the partition was seen off.\<close>

lemma refresh_then_latch:
  assumes "core_inv c" "refresh_locked ops True c = (d, ok)"
  shows "advances drain_event c (latch_operation_error_locked reason d)"
    "derived (latch_operation_error_locked reason d)"
  using refresh_drains [OF assms] latch_operation_error advances_trans by blast+

lemma drain_swap_stage_inv:
  assumes inv: "core_inv c" "derived c" "fresh c" "current_pair_is_authorized_for_drain_locked c"
    and run: "drain_swap_stage ops c = (d, result)"
  shows "advances drain_event c d \<and> derived d \<and> (result = None \<longrightarrow> fresh d
    \<and> \<not> xs_swap_active (xc_snapshot d)
    \<and> (xs_scratch_mounted (xc_snapshot d) \<longrightarrow> current_pair_is_authorized_for_drain_locked d))"
proof (cases "xs_swap_active (xc_snapshot c)")
  case False
  then show ?thesis using inv run advances_refl by (simp add: drain_swap_stage_def)
next
  case active: True
  show ?thesis
  proof (cases "stop_blocker c")
    case (Some reason)
    then show ?thesis
      using active run drain_pending_inv [OF inv(1)] by (auto simp: drain_swap_stage_def)
  next
    case None
    obtain e ok reason where stop: "call_stop_swap ops c = (e, ok, reason)"
      by (cases "call_stop_swap ops c") auto
    obtain f polled where poll: "refresh_locked ops True e = (f, polled)"
      by (cases "refresh_locked ops True e")
    note e = call_stop_inv [OF inv(1,4) active None stop]
    have e': "core_inv e" "advances drain_event c e" using e by simp_all
    note f = refresh_drains [OF e'(1) poll]
    have "current_pair_is_authorized_for_drain_locked f"
      if "polled" "xs_scratch_mounted (xc_snapshot f)"
      using refresh_of_owned [of e ops f] e poll that active by simp
    moreover have "advances drain_event c f" by (rule advances_trans [OF e'(2) f(1)])
    moreover note latch = advances_trans [OF e'(2) refresh_then_latch(1) [OF e'(1) poll]]
      refresh_then_latch(2) [OF e'(1) poll]
    ultimately show ?thesis
      using run f(2,3) by (auto simp: drain_swap_stage_def active None stop poll split: if_splits)
  qed
qed

lemma drain_scratch_stage_inv:
  assumes inv: "core_inv c" "derived c" "fresh c" "\<not> xs_swap_active (xc_snapshot c)"
    "xs_scratch_mounted (xc_snapshot c) \<Longrightarrow> current_pair_is_authorized_for_drain_locked c"
    and run: "drain_scratch_stage ops c = (d, result)"
  shows "advances drain_event c d \<and> derived d \<and> (result = None \<longrightarrow> fresh d)"
proof (cases "xs_scratch_mounted (xc_snapshot c)")
  case False
  then show ?thesis using inv run advances_refl by (simp add: drain_scratch_stage_def)
next
  case mounted: True
  obtain e ok reason where unmount: "call_unmount_scratch ops c = (e, ok, reason)"
    by (cases "call_unmount_scratch ops c") auto
  obtain f polled where poll: "refresh_locked ops True e = (f, polled)"
    by (cases "refresh_locked ops True e")
  have e: "core_inv e" "advances drain_event c e"
    using call_unmount_inv [OF inv(1) inv(5) [OF mounted] mounted inv(4) unmount] by simp_all
  note f = refresh_drains [OF e(1) poll]
  have "advances drain_event c f" by (rule advances_trans [OF e(2) f(1)])
  moreover note latch = advances_trans [OF e(2) refresh_then_latch(1) [OF e(1) poll]]
    refresh_then_latch(2) [OF e(1) poll]
  ultimately show ?thesis
    using run f(2,3) by (auto simp: drain_scratch_stage_def mounted unmount poll split: if_splits)
qed

lemma fresh_resolved:
  assumes "core_inv c" "fresh c" "tuple_of (xc_observation c) = last_tuple c"
    "observation_status (xc_observation c) = OBSERVATION_VALID" "inactive (xc_observation c)"
  shows "unresolved (xc_log c) = None"
proof (rule ccontr)
  assume "unresolved (xc_log c) \<noteq> None"
  then obtain T where T: "unresolved (xc_log c) = Some T" by auto
  then have "last_tuple c = T" using assms(1) by (simp add: core_inv_def authority_ok_def)
  moreover obtain l where "xc_log c = SSD_POLLED (xc_observation c) # l"
    using assms(2) by (auto simp: fresh_def)
  ultimately show False using assms(3-5) T by (auto split: option.splits if_splits)
qed

lemma drain_endpoint_inv:
  assumes inv: "core_inv c" "derived c" "fresh c" "xc_lease_count c = 0"
    and run: "drain_endpoint c = (d, result)"
  shows "advances drain_event c d \<and> derived d"
proof (cases "\<not> current_pair_is_authorized_for_drain_locked c \<or> xs_swap_active (xc_snapshot c)
        \<or> xs_scratch_mounted (xc_snapshot c)")
  case True
  then show ?thesis
    using run latch_operation_error [OF inv(1)] by (auto simp: drain_endpoint_def)
next
  case False
  then have auth: "current_pair_is_authorized_for_drain_locked c" by simp
  let ?b = "clear_physical_hazard_locked
    (c\<lparr>xc_safe_latched := True, xc_drain_requested := False, xc_drain_reason := []\<rparr>)"
  note pair = authorized_pair [OF inv(1) auth]
  have off: "inactive (xc_observation c)" using False pair by (simp add: inactive_def)
  have none: "unresolved (xc_log c) = None" by (rule fresh_resolved [OF inv(1,3) pair(1,2) off])
  have "core_inv ?b"
    using inv(1,4) none off pair
    by (simp add: core_inv_def clear_physical_hazard_locked_def snap_ok_def withheld_def seen_ok_def
      safe_ok_def identity_ok_def last_tuple_def authority_ok_def leases_ok_def)
  then have "core_inv (derive_state_locked (bump_generation_locked ?b))" by blast
  then show ?thesis
    using run False
    by (simp add: drain_endpoint_def advances_def appends_def) (auto simp: clear_physical_hazard_locked_def)
qed

lemma drain_stages_inv:
  assumes inv: "core_inv c" "derived c" "fresh c" "current_pair_is_authorized_for_drain_locked c"
    "xc_lease_count c = 0"
    and run: "drain_stages ops c = (d, result)"
  shows "advances drain_event c d \<and> derived d"
proof -
  obtain e r1 where swap: "drain_swap_stage ops c = (e, r1)" by (cases "drain_swap_stage ops c")
  obtain f r2 where scratch: "drain_scratch_stage ops e = (f, r2)" by (cases "drain_scratch_stage ops e")
  have e: "advances drain_event c e" "derived e"
    and e': "r1 = None \<Longrightarrow> fresh e" "r1 = None \<Longrightarrow> \<not> xs_swap_active (xc_snapshot e)"
      "r1 = None \<Longrightarrow> xs_scratch_mounted (xc_snapshot e) \<Longrightarrow> current_pair_is_authorized_for_drain_locked e"
    using drain_swap_stage_inv [OF inv(1-4) swap] by auto
  have ei: "core_inv e" "xc_lease_count e = 0" using e inv(5) by (simp_all add: advances_def)
  have f: "advances drain_event e f \<and> derived f \<and> (r2 = None \<longrightarrow> fresh f)" if "r1 = None"
    using drain_scratch_stage_inv [OF ei(1) e(2) e'(1,2) e'(3) scratch] that by simp
  show ?thesis
  proof (cases "r1 = None \<and> r2 = None")
    case True
    then have "core_inv f" "derived f" "fresh f" "xc_lease_count f = 0" "advances drain_event c f"
      using f advances_trans [OF e(1)] ei(2) by (auto simp: advances_def)
    moreover have "drain_endpoint f = (d, result)" using run swap scratch True by (simp add: drain_stages_def)
    ultimately show ?thesis using drain_endpoint_inv advances_trans by blast
  next
    case False
    then show ?thesis
      using run swap scratch e f advances_trans [OF e(1)]
      by (auto simp: drain_stages_def split: option.splits)
  qed
qed

lemma continue_drain_inv:
  assumes inv: "core_inv c" and run: "continue_drain_locked ops c = (d, result)"
  shows "advances drain_event c d \<and> derived d"
proof (cases "xc_lease_count c > 0")
  case True
  then show ?thesis
    using run drain_pending_inv [OF inv] by (simp add: continue_drain_locked_def) blast
next
  case False
  obtain e polled where poll: "refresh_locked ops True c = (e, polled)"
    by (cases "refresh_locked ops True c")
  note e = refresh_drains [OF inv poll]
  have count: "xc_lease_count e = 0" using e(1) False by (simp add: advances_def)
  show ?thesis
  proof (cases "polled \<and> current_pair_is_authorized_for_drain_locked e")
    case True
    then have "drain_stages ops e = (d, result)"
      using run False poll by (simp add: continue_drain_locked_def)
    with True drain_stages_inv [OF e(4,2) e(3) _ count] advances_trans [OF e(1)] show ?thesis by blast
  next
    case no: False
    then show ?thesis using run False poll e by (auto simp: continue_drain_locked_def)
  qed
qed

text \<open>With leases held a drain calls nothing of the provider.\<close>

lemma leased_drain_waits:
  "xc_lease_count c > 0 \<Longrightarrow> xc_log (fst (continue_drain_locked ops c)) = xc_log c"
  by (simp add: continue_drain_locked_def drain_pending_def)

lemma unlatch_safe_inv: "core_inv c \<Longrightarrow> core_inv (c\<lparr>xc_safe_latched := False\<rparr>)"
proof -
  let ?b = "c\<lparr>xc_safe_latched := False\<rparr>"
  have "withheld ?b = withheld c" "last_tuple ?b = last_tuple c" "hazard_tuple ?b = hazard_tuple c"
    "have_remembered_identity ?b = have_remembered_identity c"
    by (simp_all add: withheld_def observation_is_hazard_pair_locked_def last_tuple_def hazard_tuple_def
      have_remembered_identity_def)
  then have "snap_ok ?b = snap_ok c" "seen_ok ?b = seen_ok c" "identity_ok ?b = identity_ok c"
    "authority_ok ?b = authority_ok c" "leases_ok ?b = leases_ok c" "safe_ok ?b"
    by (simp_all add: snap_ok_def seen_ok_def identity_ok_def authority_ok_def leases_ok_def safe_ok_def)
  then show "core_inv c \<Longrightarrow> core_inv ?b" by (simp add: core_inv_def)
qed

lemma request_fields:
  assumes "core_inv c"
  shows "core_inv (c\<lparr>xc_drain_requested := b1, xc_drain_reason := t1, xc_operation_error := b2,
           xc_operation_reason := t2, xc_safe_latched := False\<rparr>)"
  by (rule unlatch_safe_inv, rule core_inv_cong [OF assms])
    (simp_all add: core_view_def hazard_tuple_def last_tuple_def)

lemma request_order:
  "c\<lparr>xc_drain_requested := b1, xc_safe_latched := False, xc_operation_error := b2,
      xc_operation_reason := t2, xc_drain_reason := t1\<rparr>
   = c\<lparr>xc_drain_requested := b1, xc_drain_reason := t1, xc_operation_error := b2,
           xc_operation_reason := t2, xc_safe_latched := False\<rparr>"
  "c\<lparr>xc_operation_error := b2, xc_operation_reason := t2, xc_drain_requested := b1,
               xc_drain_reason := t1, xc_safe_latched := False\<rparr>
   = c\<lparr>xc_drain_requested := b1, xc_drain_reason := t1, xc_operation_error := b2,
           xc_operation_reason := t2, xc_safe_latched := False\<rparr>"
  by (cases c; simp)+

lemma request_advances:
  assumes "core_inv c"
  shows "advances P c (c\<lparr>xc_drain_requested := b1, xc_drain_reason := t1, xc_operation_error := b2,
           xc_operation_reason := t2, xc_safe_latched := False\<rparr>)"
  unfolding advances_def appends_def by (intro conjI request_fields [OF assms] exI [of _ "[]"]) simp_all

lemma settle_advances:
  assumes "advances P c d"
  shows "advances P c (derive_state_locked (bump_generation_locked d))"
  by (rule advances_trans [OF assms])
    (intro advances_view derive_core_inv bump_core_inv, use assms in \<open>simp_all add: advances_def\<close>)

lemma ssd_disable_inv:
  assumes inv: "core_inv c" and run: "ssd_disable ops c = (d, result)"
  shows "advances drain_event c d \<and> derived d"
proof -
  let ?b = "derive_state_locked (bump_generation_locked (c\<lparr>xc_drain_requested := True,
    xc_drain_reason := [], xc_operation_error := False, xc_operation_reason := [], xc_safe_latched := False\<rparr>))"
  have b: "advances drain_event c ?b" by (intro settle_advances request_advances inv)
  then have "core_inv ?b" by (simp add: advances_def)
  moreover have "continue_drain_locked ops ?b = (d, result)"
    using run by (simp only: ssd_disable_def request_order)
  ultimately show ?thesis using continue_drain_inv advances_trans [OF b] by blast
qed

lemma ssd_cancel_drain_inv:
  assumes inv: "core_inv c" "derived c" and run: "ssd_cancel_drain c = (d, ok)"
  shows "advances P c d \<and> derived d"
  using run inv settle_advances [OF request_advances [OF inv(1)]] advances_refl
  by (cases "xc_drain_requested c") (auto simp: ssd_cancel_drain_def)

section \<open>Enabling\<close>

fun enable_event :: "ssd_event \<Rightarrow> bool" where
  "enable_event (SSD_STOP p) \<longleftrightarrow> False"
| "enable_event (SSD_UNMOUNT p) \<longleftrightarrow> False"
| "enable_event e \<longleftrightarrow> True"

lemma poll_is_enable: "is_poll e \<Longrightarrow> enable_event e"
  by (cases e) simp_all

lemma refresh_enables:
  assumes "core_inv c" "refresh_locked ops True c = (d, ok)"
  shows "advances enable_event c d" "derived d" "ok \<Longrightarrow> fresh d" "core_inv d"
  using refresh_locked_inv [OF assms] advances_weaken [of is_poll c d enable_event, OF _ poll_is_enable]
  by (simp_all add: advances_def)

text \<open>An activation: the device is bound as a hazard before the provider is called.\<close>

lemma activation_inv:
  assumes inv: "core_inv c" and pair: "current_pair_is_valid_locked c"
    and event: "e = SSD_START path \<and> path = vs_object_path (po_swap (xc_observation c))
        \<and> \<not> vs_active (po_swap (xc_observation c))
      \<or> e = SSD_MOUNT path \<and> path = vm_object_path (po_scratch (xc_observation c))
        \<and> vs_active (po_swap (xc_observation c)) \<and> \<not> vm_mounted (po_scratch (xc_observation c))"
    and d_def: "d = (bind_possible_enable_side_effect_locked c)\<lparr>xc_provider := p, xc_log := e # xc_log c\<rparr>"
  shows "core_inv d \<and> advances enable_event c d"
proof -
  note auth = authorized_pair [OF inv valid_is_authorized [OF pair]]
  note inv' = inv [unfolded core_inv_def]
  have no: "\<not> xc_physical_hazard_latched c" using pair by (simp add: current_pair_is_valid_locked_def)
  have seen: "xc_observation c = last_polled (xc_log c)" using inv' by (simp add: seen_ok_def)
  have ok: "event_ok e (xc_log c)"
    using auth event inv' by (auto simp: seen [symmetric] authority_ok_def)
  have un: "unresolved (e # xc_log c) = Some (tuple_of (xc_observation c))"
    "last_polled (e # xc_log c) = last_polled (xc_log c)" "enable_event e"
    using event by (auto simp: seen)
  have d: "last_tuple d = last_tuple c" "hazard_tuple d = tuple_of (xc_observation c)"
    "have_remembered_identity d = have_remembered_identity c"
    by (simp_all add: d_def bind_possible_enable_side_effect_locked_def last_tuple_def hazard_tuple_def
      tuple_of_def have_remembered_identity_def)
  have "snap_ok c" using inv' by blast
  then have "snap_ok d" using no
    by (simp add: snap_ok_def withheld_def d_def bind_possible_enable_side_effect_locked_def)
  moreover have "identity_ok d"
    using auth(1) inv' by (simp add: identity_ok_def d) (simp add: d_def bind_possible_enable_side_effect_locked_def)
  moreover have "authority_ok d"
    using un(1) auth(1,8) by (simp add: authority_ok_def d)
      (simp add: d_def bind_possible_enable_side_effect_locked_def)
  moreover have "seen_ok d \<and> safe_ok d \<and> leases_ok d \<and> log_ok (xc_log d)"
    using inv' ok un(2)
    by (auto simp add: seen_ok_def safe_ok_def leases_ok_def d_def bind_possible_enable_side_effect_locked_def
      simp del: event_ok.simps)
  ultimately have "core_inv d" by (simp add: core_inv_def)
  then show ?thesis
    using un(3) by (simp add: advances_def appends_def)
      (simp add: d_def bind_possible_enable_side_effect_locked_def)
qed

lemma resolve_enable_inv:
  assumes inv: "core_inv c" and run: "resolve_enable_side_effect ops c = (d, verified)"
  shows "advances enable_event c d \<and> derived d \<and> (verified \<longrightarrow> current_pair_is_valid_locked d)"
proof -
  obtain e polled where poll: "refresh_locked ops True c = (e, polled)"
    by (cases "refresh_locked ops True c")
  note e = refresh_enables [OF inv poll]
  show ?thesis
  proof (cases "polled \<and> observation_is_hazard_pair_locked e")
    case False
    then show ?thesis using run poll e by (auto simp: resolve_enable_side_effect_def)
  next
    case True
    let ?b = "remember_identity_locked (xc_observation e) (clear_physical_hazard_locked e)"
    have d: "d = derive_state_locked ?b" "verified = True"
      using run poll True by (simp_all add: resolve_enable_side_effect_def clear_physical_hazard_locked_def)
    note pair = authorized_pair [OF e(4) pair_is_authorized [OF conjunct2 [OF True]]]
    have b: "last_tuple ?b = last_tuple e" "xc_observation ?b = xc_observation e" "xc_log ?b = xc_log e"
      "\<not> xc_physical_hazard_latched ?b" "xc_have_observation ?b"
      using pair(1,3)
      by (simp_all add: remember_identity_locked_def clear_physical_hazard_locked_def last_tuple_def tuple_of_def)
    have hazard: "xc_physical_hazard_latched e" using True hazard_pair_implies_latch by blast
    then have "\<not> xc_safe_latched e" using e(4) by (auto simp: core_inv_def safe_ok_def)
    then have "\<not> xc_safe_latched ?b"
      by (simp add: remember_identity_locked_def clear_physical_hazard_locked_def)
    moreover have "authority_ok ?b"
      using fresh_resolved [OF e(4) e(3) pair(1,2)] True e(4)
      by (auto simp: authority_ok_def b core_inv_def have_remembered_tuple)
    moreover have "identity_ok ?b" using e(4) pair(1) by (simp add: core_inv_def identity_ok_def b)
    moreover have "snap_ok ?b \<and> seen_ok ?b \<and> leases_ok ?b"
      using e(4) pair
      by (simp add: core_inv_def snap_ok_def seen_ok_def leases_ok_def remember_identity_locked_def
        clear_physical_hazard_locked_def)
    ultimately have "core_inv ?b" using e(4) by (simp add: core_inv_def safe_ok_def b)
    then have "advances enable_event e d"
      unfolding d advances_def appends_def
      by (simp add: derive_core_inv remember_identity_locked_def clear_physical_hazard_locked_def)
    moreover have "current_pair_is_valid_locked d"
      using b pair by (simp add: d current_pair_is_valid_locked_def)
    ultimately show ?thesis using advances_trans [OF e(1)] by (simp add: d)
  qed
qed

text \<open>An enable stage goes on only with a valid pair, and otherwise ends derived.\<close>

lemma enable_swap_stage_inv:
  assumes inv: "core_inv c" "current_pair_is_valid_locked c"
    and run: "enable_swap_stage ops c = (d, go)"
  shows "advances enable_event c d \<and> (go \<longrightarrow> current_pair_is_valid_locked d
    \<and> xs_swap_active (xc_snapshot d)) \<and> (\<not> go \<longrightarrow> derived d)"
proof (cases "xs_swap_active (xc_snapshot c)")
  case True
  then show ?thesis using inv run advances_refl by (simp add: enable_swap_stage_def)
next
  case off: False
  let ?path = "vs_object_path (po_swap (xc_observation c))"
  obtain p ok reason where call: "op_start_swap ops ?path (xc_provider c) = (p, ok, reason)"
    by (cases "op_start_swap ops ?path (xc_provider c)") auto
  define e where "e = (bind_possible_enable_side_effect_locked c)
    \<lparr>xc_provider := p, xc_log := SSD_START ?path # xc_log c\<rparr>"
  have start: "call_start_swap ops (bind_possible_enable_side_effect_locked c) = (e, ok, reason)"
    using call by (simp add: call_start_swap_def e_def bind_possible_enable_side_effect_locked_def)
  have "\<not> vs_active (po_swap (xc_observation c))"
    using off authorized_pair(4) [OF inv(1) valid_is_authorized [OF inv(2)]] by simp
  then have e: "core_inv e" "advances enable_event c e"
    using activation_inv [OF inv, of "SSD_START ?path" ?path e p] e_def by simp_all
  obtain f verified where res: "resolve_enable_side_effect ops e = (f, verified)"
    by (cases "resolve_enable_side_effect ops e")
  have f: "advances enable_event e f" "derived f" "verified \<Longrightarrow> current_pair_is_valid_locked f"
    using resolve_enable_inv [OF e(1) res] by simp_all
  have fc: "advances enable_event c f" "core_inv f"
    using advances_trans [OF e(2) f(1)] by (simp_all add: advances_def)
  show ?thesis
    using run fc(1) f(3) advances_trans [OF fc(1) latch_operation_error(1) [OF fc(2)]]
      latch_operation_error(2) [OF fc(2)]
    by (auto simp: enable_swap_stage_def off start res split: if_splits)
qed

lemma enable_scratch_stage_inv:
  assumes inv: "core_inv c" "current_pair_is_valid_locked c" "xs_swap_active (xc_snapshot c)"
    and run: "enable_scratch_stage ops c = (d, go)"
  shows "advances enable_event c d \<and> (\<not> go \<longrightarrow> derived d)"
proof (cases "xs_scratch_mounted (xc_snapshot c)")
  case True
  then show ?thesis using inv run advances_refl by (simp add: enable_scratch_stage_def)
next
  case off: False
  let ?path = "vm_object_path (po_scratch (xc_observation c))"
  obtain p ok mount_path reason where call: "op_mount_scratch ops ?path (xc_provider c) = (p, ok, mount_path, reason)"
    by (cases "op_mount_scratch ops ?path (xc_provider c)") auto
  define e where "e = (bind_possible_enable_side_effect_locked c)
    \<lparr>xc_provider := p, xc_log := SSD_MOUNT ?path # xc_log c\<rparr>"
  have mount: "call_mount_scratch ops (bind_possible_enable_side_effect_locked c) = (e, ok, mount_path, reason)"
    using call by (simp add: call_mount_scratch_def e_def bind_possible_enable_side_effect_locked_def)
  have "vs_active (po_swap (xc_observation c))" "\<not> vm_mounted (po_scratch (xc_observation c))"
    using off inv(3) authorized_pair(4,5) [OF inv(1) valid_is_authorized [OF inv(2)]] by simp_all
  then have e: "core_inv e" "advances enable_event c e"
    using activation_inv [OF inv(1,2), of "SSD_MOUNT ?path" ?path e p] e_def by simp_all
  obtain f verified where res: "resolve_enable_side_effect ops e = (f, verified)"
    by (cases "resolve_enable_side_effect ops e")
  have f: "advances enable_event e f" using resolve_enable_inv [OF e(1) res] by simp
  have fc: "advances enable_event c f" "core_inv f"
    using advances_trans [OF e(2) f] by (simp_all add: advances_def)
  show ?thesis
    using run fc(1) advances_trans [OF fc(1) latch_operation_error(1) [OF fc(2)]]
      latch_operation_error(2) [OF fc(2)]
    by (auto simp: enable_scratch_stage_def off mount res split: if_splits)
qed

lemma enable_verification_inv:
  assumes inv: "core_inv c" and run: "enable_verification ops c = (d, result)"
  shows "advances enable_event c d \<and> derived d"
proof -
  obtain e polled where poll: "refresh_locked ops True c = (e, polled)"
    by (cases "refresh_locked ops True c")
  note e = refresh_enables [OF inv poll]
  let ?b = "e\<lparr>xc_operation_error := False, xc_operation_reason := []\<rparr>"
  have v: "core_view ?b = core_view e" by (simp add: core_view_def hazard_tuple_def last_tuple_def)
  have "core_inv ?b" by (rule core_inv_cong [OF e(4) v]) (simp add: snap_view_def)
  then have "advances enable_event e (derive_state_locked (bump_generation_locked ?b))"
    by (intro settle_advances advances_view v)
  then show ?thesis
    using run poll e advances_trans [OF e(1)] latch_operation_error [OF e(4)]
    by (auto simp: enable_verification_def split: if_splits)
qed

lemma announce_enabling_inv:
  assumes inv: "core_inv c"
  shows "advances P c (announce_enabling c)"
    "current_pair_is_valid_locked (announce_enabling c) = current_pair_is_valid_locked c"
proof -
  let ?b = "c\<lparr>xc_snapshot := (xc_snapshot c)\<lparr>xs_state := SSD_ENABLING,
       xs_reason := ''Enabling external SSD swap and scratch through UDisks''\<rparr>\<rparr>"
  have v: "core_view ?b = core_view c" by (simp add: core_view_def hazard_tuple_def last_tuple_def)
  have "core_inv ?b" by (rule core_inv_cong [OF inv v]) (simp add: snap_view_def)
  then show "advances P c (announce_enabling c)"
    unfolding announce_enabling_def by (intro advances_view bump_core_inv) (simp_all add: v)
  show "current_pair_is_valid_locked (announce_enabling c) = current_pair_is_valid_locked c"
    by (simp add: announce_enabling_def current_pair_is_valid_locked_def)
qed

lemma enable_stages_inv:
  assumes inv: "core_inv c" "current_pair_is_valid_locked c"
    and run: "enable_stages ops c = (d, result)"
  shows "advances enable_event c d \<and> derived d"
proof -
  let ?a = "announce_enabling c"
  have a: "advances enable_event c ?a" "core_inv ?a" "current_pair_is_valid_locked ?a"
    using announce_enabling_inv [OF inv(1)] inv(2) by (auto simp: advances_def)
  obtain e go where swap: "enable_swap_stage ops ?a = (e, go)" by (cases "enable_swap_stage ops ?a")
  obtain f go' where scratch: "enable_scratch_stage ops e = (f, go')" by (cases "enable_scratch_stage ops e")
  have e: "advances enable_event ?a e" "core_inv e" "\<not> go \<Longrightarrow> derived e"
    and e': "go \<Longrightarrow> current_pair_is_valid_locked e" "go \<Longrightarrow> xs_swap_active (xc_snapshot e)"
    using enable_swap_stage_inv [OF a(2,3) swap] by (auto simp: advances_def)
  have f: "advances enable_event e f \<and> (\<not> go' \<longrightarrow> derived f)" if go
    using enable_scratch_stage_inv [OF e(2) e'(1,2) scratch] that by blast
  have ae: "advances enable_event c e" by (rule advances_trans [OF a(1) e(1)])
  show ?thesis
  proof (cases "go \<and> go'")
    case True
    then have "core_inv f" "advances enable_event c f" using f advances_trans [OF ae] by (auto simp: advances_def)
    moreover have "enable_verification ops f = (d, result)"
      using run swap scratch True by (simp add: enable_stages_def)
    ultimately show ?thesis using enable_verification_inv advances_trans by blast
  next
    case False
    then show ?thesis
      using run swap scratch ae e f advances_trans [OF ae]
      by (auto simp: enable_stages_def split: bool.splits)
  qed
qed

lemma ssd_enable_inv:
  assumes inv: "core_inv c" and run: "ssd_enable ops c = (d, result)"
  shows "advances enable_event c d \<and> derived d"
proof -
  let ?b = "c\<lparr>xc_drain_requested := False, xc_drain_reason := [], xc_operation_error := False,
    xc_operation_reason := [], xc_safe_latched := False\<rparr>"
  have b: "advances enable_event c ?b" "core_inv ?b"
    using request_advances [OF inv] request_fields(1) [OF inv] by blast+
  obtain e polled where poll: "refresh_locked ops True ?b = (e, polled)"
    by (cases "refresh_locked ops True ?b")
  note e = refresh_enables [OF b(2) poll]
  have ce: "advances enable_event c e" by (rule advances_trans [OF b(1) e(1)])
  have "advances enable_event e d \<and> derived d"
    if "polled" "current_pair_is_valid_locked e" "enable_stages ops e = (d, result)"
    by (rule enable_stages_inv [OF e(4) that(2,3)])
  then show ?thesis
    using run e(2) ce advances_trans [OF ce] latch_operation_error [OF e(4)]
    by (auto simp: ssd_enable_def request_order poll split: if_splits)
qed

end
