(* ===== verification/Ssd_Theorems.thy ===== *)
theory Ssd_Theorems
  imports Ssd_Invariant
begin

text \<open>
  The scratch leases, the invariant of every run of the external SSD controller, and what its
  users rely on: the authority to act on a device, the conditions of a safe removal and of a
  drain, and the accounting of leases.
\<close>

section \<open>Leases\<close>

lemma find_slot_Some:
  "find_slot P ls k = Some s \<Longrightarrow> \<exists>before l after. ls = before @ l # after \<and> s = k + length before \<and> P l"
proof (induction ls arbitrary: k)
  case (Cons l ls)
  show ?case
  proof (cases "P l")
    case True
    then show ?thesis using Cons.prems by (intro exI [of _ "[]"] exI [of _ l] exI [of _ ls]) simp
  next
    case False
    then obtain before m after where "ls = before @ m # after" "s = k + 1 + length before" "P m"
      using Cons.IH [of "k + 1"] Cons.prems by auto
    then show ?thesis by (intro exI [of _ "l # before"] exI [of _ m] exI [of _ after]) simp
  qed
qed simp

lemma find_slot_None: "find_slot P ls k = None \<longleftrightarrow> (\<forall>l \<in> set ls. \<not> P l)"
  by (induction ls arbitrary: k) auto

abbreviation held :: "(u64 \<times> nat) list \<Rightarrow> (u64 \<times> nat) list" where
  "held ls \<equiv> filter (\<lambda>(i, a). i \<noteq> 0) ls"

text \<open>Writing a lease into a free slot, and clearing the slot of a lease.\<close>

lemma held_insert:
  assumes "find_slot (\<lambda>(i, a). i = 0) ls 0 = Some s" "i \<noteq> 0"
  shows "\<exists>u v. held ls = u @ v \<and> held (ls[s := (i, a)]) = u @ (i, a) # v
    \<and> set (ls[s := (i, a)]) \<subseteq> insert (i, a) (set ls)"
proof -
  obtain before j b after where "ls = before @ (j, b) # after" "s = length before" "j = 0"
    using find_slot_Some [OF assms(1)] by auto
  then show ?thesis
    using assms(2) by (intro exI [of _ "held before"] exI [of _ "held after"]) auto
qed

lemma held_remove:
  assumes "find_slot (\<lambda>(i, a). i = j \<and> a = b) ls 0 = Some s" "j \<noteq> 0"
  shows "\<exists>u v. held ls = u @ (j, b) # v \<and> held (ls[s := (0, 0)]) = u @ v
    \<and> set (ls[s := (0, 0)]) \<subseteq> insert (0, 0) (set ls)"
proof -
  obtain before after where "ls = before @ (j, b) # after" "s = length before"
    using find_slot_Some [OF assms(1)] by auto
  then show ?thesis
    using assms(2) by (intro exI [of _ "held before"] exI [of _ "held after"]) auto
qed

lemma leases_okD:
  assumes "leases_ok c"
  shows "length (xc_active_leases c) = SSD_MAX_SCRATCH_LEASES"
    "length (held (xc_active_leases c)) = xc_lease_count c"
    "distinct (map fst (held (xc_active_leases c)))" "distinct (map snd (held (xc_active_leases c)))"
    "xc_next_lease_id c \<noteq> 0 \<Longrightarrow> (i, a) \<in> set (xc_active_leases c) \<Longrightarrow> i < xc_next_lease_id c"
  using assms by (auto simp: leases_ok_def)

lemma acquired_leases_ok:
  assumes ok: "leases_ok c" and slot: "find_slot (\<lambda>(i, a). i = 0) (xc_active_leases c) 0 = Some s"
    and nonzero: "xc_next_lease_id c \<noteq> 0"
    and new: "find_slot (\<lambda>(i, a). i \<noteq> 0 \<and> a = address) (xc_active_leases c) 0 = None"
  shows "leases_ok (c\<lparr>xc_next_lease_id := xc_next_lease_id c + 1,
    xc_active_leases := (xc_active_leases c)[s := (xc_next_lease_id c, address)],
    xc_lease_count := xc_lease_count c + 1\<rparr>)"
proof -
  let ?n = "xc_next_lease_id c" let ?ls = "xc_active_leases c"
  note l = leases_okD [OF ok]
  obtain u v where uv: "held ?ls = u @ v" "held (?ls[s := (?n, address)]) = u @ (?n, address) # v"
      "set (?ls[s := (?n, address)]) \<subseteq> insert (?n, address) (set ?ls)"
    using held_insert [OF slot nonzero] by blast
  have below: "i < ?n" if "(i, a) \<in> set ?ls" for i a using l(5) [OF nonzero that] .
  have held_set: "set (u @ v) \<subseteq> set ?ls" using uv(1) by (metis filter_is_subset)
  have "?n \<notin> fst ` set (u @ v)" using below held_set by force
  moreover have "address \<notin> snd ` set (u @ v)"
  proof
    assume "address \<in> snd ` set (u @ v)"
    then have "\<exists>i. (i, address) \<in> set (held ?ls)" unfolding uv(1) by force
    then show False using new by (auto simp: find_slot_None)
  qed
  moreover have "i < ?n + 1" if "?n + 1 \<noteq> 0" "(i, a) \<in> set (?ls[s := (?n, address)])" for i a
  proof -
    have "i \<le> ?n" using uv(3) below that(2) by (auto intro: less_imp_le)
    then show ?thesis
      using that(1) unatSuc [of ?n] by (simp add: word_less_nat_alt word_le_nat_alt add.commute)
  qed
  ultimately show ?thesis
    using l(1-4) uv(1,2) by (auto simp: leases_ok_def)
qed

lemma released_leases_ok:
  assumes ok: "leases_ok c" and "j \<noteq> 0"
    and slot: "find_slot (\<lambda>(i, a). i = j \<and> a = b) (xc_active_leases c) 0 = Some s"
  shows "leases_ok (c\<lparr>xc_active_leases := (xc_active_leases c)[s := (0, 0)],
    xc_lease_count := xc_lease_count c - 1\<rparr>) \<and> xc_lease_count c > 0"
proof -
  let ?ls = "xc_active_leases c"
  note l = leases_okD [OF ok]
  obtain u v where uv: "held ?ls = u @ (j, b) # v" "held (?ls[s := (0, 0)]) = u @ v"
      "set (?ls[s := (0, 0)]) \<subseteq> insert (0, 0) (set ?ls)"
    using held_remove [OF slot assms(2)] by blast
  have "i < xc_next_lease_id c" if "xc_next_lease_id c \<noteq> 0" "(i, a) \<in> set (?ls[s := (0, 0)])" for i a
    using uv(3) l(5) that by (auto simp: word_gt_0 intro: le_less_trans [of _ 0])
  then show ?thesis
    using l(1-4) uv(1,2) by (auto simp: leases_ok_def)
qed

lemma lease_frame:
  assumes "core_inv c" "leases_ok (c\<lparr>xc_next_lease_id := i, xc_active_leases := ls, xc_lease_count := n\<rparr>)"
    "xc_safe_latched c \<Longrightarrow> n = 0"
  shows "core_inv (c\<lparr>xc_next_lease_id := i, xc_active_leases := ls, xc_lease_count := n\<rparr>)"
proof -
  let ?d = "c\<lparr>xc_next_lease_id := i, xc_active_leases := ls, xc_lease_count := n\<rparr>"
  have "withheld ?d = withheld c" "last_tuple ?d = last_tuple c" "hazard_tuple ?d = hazard_tuple c"
    "have_remembered_identity ?d = have_remembered_identity c"
    by (simp_all add: withheld_def observation_is_hazard_pair_locked_def last_tuple_def hazard_tuple_def
      have_remembered_identity_def)
  then have "snap_ok ?d = snap_ok c" "seen_ok ?d = seen_ok c" "identity_ok ?d = identity_ok c"
    "authority_ok ?d = authority_ok c"
    by (simp_all add: snap_ok_def seen_ok_def identity_ok_def authority_ok_def)
  moreover have "safe_ok ?d" using assms(1,3) by (simp add: core_inv_def safe_ok_def)
  ultimately show ?thesis using assms(1,2) by (simp add: core_inv_def)
qed

text \<open>An acquisition polls at most, and takes effect only with its device active.\<close>

lemma ssd_acquire_inv:
  assumes inv: "core_inv c" "derived c"
    and run: "ssd_acquire_scratch ops self address lease c = (d, lease', ok)"
  shows "core_inv d \<and> derived d \<and> appends is_poll c d"
proof (cases "find_slot (\<lambda>(i, a). i \<noteq> 0 \<and> a = address) (xc_active_leases c) 0 = None
    \<and> xl_opaque_controller lease = 0 \<and> xl_opaque_lease_id lease = 0")
  case False
  then have "d = c" using run by (auto simp: ssd_acquire_scratch_def split: if_splits)
  then show ?thesis using inv appends_refl by simp
next
  case True
  obtain e polled where poll: "refresh_locked ops False c = (e, polled)"
    by (cases "refresh_locked ops False c")
  have e: "advances is_poll c e" "derived e" using refresh_locked_inv [OF inv(1) poll] inv(2) by simp_all
  then have ei: "core_inv e" "appends is_poll c e" "xc_active_leases e = xc_active_leases c"
    by (simp_all add: advances_def)
  show ?thesis
  proof (cases "\<not> polled \<or> xc_drain_requested e \<or> xc_operation_error e
          \<or> \<not> current_pair_is_valid_locked e \<or> \<not> xs_swap_active (xc_snapshot e)
          \<or> \<not> xs_scratch_mounted (xc_snapshot e)
          \<or> xs_scratch_mount_path (xc_snapshot e) \<noteq> SSD_SCRATCH_MOUNT_PATH
          \<or> xc_lease_count e \<ge> SSD_MAX_SCRATCH_LEASES \<or> xc_next_lease_id e = 0")
    case refused: True
    then have "d = e" using run True poll by (simp add: ssd_acquire_scratch_def)
    then show ?thesis using e ei by simp
  next
    case granted: False
    show ?thesis
    proof (cases "find_slot (\<lambda>(i, a). i = 0) (xc_active_leases e) 0")
      case None
      then have "d = e" using run True poll granted by (simp add: ssd_acquire_scratch_def)
      then show ?thesis using e ei by simp
    next
      case (Some s)
      let ?b = "e\<lparr>xc_next_lease_id := xc_next_lease_id e + 1,
        xc_active_leases := (xc_active_leases e)[s := (xc_next_lease_id e, address)],
        xc_lease_count := xc_lease_count e + 1\<rparr>"
      have d: "d = derive_state_locked (bump_generation_locked ?b)"
        using run True poll granted Some by (simp add: ssd_acquire_scratch_def Let_def)
      have "\<not> inactive (xc_observation e)"
        using granted authorized_pair(4) [OF ei(1) valid_is_authorized] by (simp add: inactive_def)
      then have "\<not> xc_safe_latched e" using ei(1) by (auto simp: core_inv_def safe_ok_def)
      moreover have "leases_ok ?b"
        using ei(1,3) granted True by (intro acquired_leases_ok Some) (simp_all add: core_inv_def)
      ultimately have "core_inv ?b" by (intro lease_frame ei(1)) simp_all
      then have "core_inv d" unfolding d by blast
      then show ?thesis using ei(2) by (simp add: d appends_def)
    qed
  qed
qed

lemma released_core_inv:
  assumes inv: "core_inv c" and "j \<noteq> 0"
    and slot: "find_slot (\<lambda>(i, a). i = j \<and> a = b) (xc_active_leases c) 0 = Some s"
  shows "core_inv (derive_state_locked (bump_generation_locked
      (c\<lparr>xc_active_leases := (xc_active_leases c)[s := (0, 0)], xc_lease_count := xc_lease_count c - 1\<rparr>)))
    \<and> xc_lease_count c > 0"
proof -
  let ?b = "c\<lparr>xc_active_leases := (xc_active_leases c)[s := (0, 0)], xc_lease_count := xc_lease_count c - 1\<rparr>"
  have leases: "leases_ok ?b" "xc_lease_count c > 0"
    using released_leases_ok [OF _ assms(2) slot] inv by (simp_all add: core_inv_def)
  have b: "?b = c\<lparr>xc_next_lease_id := xc_next_lease_id c, xc_active_leases := (xc_active_leases c)[s := (0, 0)],
      xc_lease_count := xc_lease_count c - 1\<rparr>"
    by (cases c) simp
  have "xc_safe_latched c \<Longrightarrow> xc_lease_count c - 1 = 0"
    using inv by (simp add: core_inv_def safe_ok_def)
  then have "core_inv ?b" using leases(1) lease_frame [OF inv] unfolding b by blast
  with leases(2) show ?thesis by blast
qed

lemma ssd_release_inv:
  assumes inv: "core_inv c" "derived c"
    and run: "ssd_release_scratch ops self address lease c = (d, lease', ok)"
  shows "core_inv d \<and> derived d \<and> appends drain_event c d
    \<and> (xc_log d \<noteq> xc_log c \<longrightarrow> xc_lease_count d = 0)"
proof (cases "xl_opaque_controller lease \<noteq> self \<or> xl_opaque_lease_id lease = 0
    \<or> find_slot (\<lambda>(i, a). i = xl_opaque_lease_id lease \<and> a = address) (xc_active_leases c) 0 = None")
  case True
  then have "d = c" using run by (auto simp: ssd_release_scratch_def split: if_splits)
  then show ?thesis using inv appends_refl by simp
next
  case False
  then obtain s where slot: "find_slot (\<lambda>(i, a). i = xl_opaque_lease_id lease \<and> a = address)
      (xc_active_leases c) 0 = Some s"
    by auto
  let ?b = "c\<lparr>xc_active_leases := (xc_active_leases c)[s := (0, 0)], xc_lease_count := xc_lease_count c - 1\<rparr>"
  have e: "core_inv (derive_state_locked (bump_generation_locked ?b))" (is "core_inv ?e")
    and leases: "xc_lease_count c > 0"
    using released_core_inv [OF inv(1) _ slot] False by simp_all
  have d: "d = (if xc_drain_requested ?e \<and> xc_lease_count ?e = 0 then fst (continue_drain_locked ops ?e) else ?e)"
    using run False slot leases by (auto simp: ssd_release_scratch_def Let_def split: if_splits)
  obtain f result where drain: "continue_drain_locked ops ?e = (f, result)"
    by (cases "continue_drain_locked ops ?e")
  have f: "advances drain_event ?e f" "derived f" using continue_drain_inv [OF e drain] by simp_all
  show ?thesis
  proof (cases "xc_drain_requested ?e \<and> xc_lease_count ?e = 0")
    case True
    then have "d = f" using d drain by simp
    with True f show ?thesis by (auto simp: advances_def appends_def)
  next
    case False
    then have "d = ?e" using d by (simp only: if_False)
    with e show ?thesis by (simp add: appends_def)
  qed
qed

section \<open>The invariant of every run\<close>

lemma zero_controller_inv: "core_inv (zero_controller provider interval)"
  by (simp add: core_inv_def zero_controller_def snap_ok_def initialize_unknown_snapshot_def
    seen_ok_def safe_ok_def identity_ok_def last_tuple_def is_tuple_nil authority_ok_def leases_ok_def
    zero_observation_def zero_swap_def zero_scratch_def)

lemma polls_are_quiet:
  assumes "appends is_poll c d"
  shows "\<exists>new. xc_log d = new @ xc_log c \<and> (\<forall>e \<in> set new. \<not> enable_event e \<longrightarrow> n = 0)"
  using assms poll_is_enable by (auto simp: appends_def list_all_iff)

lemma ssd_step_inv:
  assumes "ssd_step ops c d" "core_inv c" "derived c"
  shows "core_inv d \<and> derived d
    \<and> (\<exists>new. xc_log d = new @ xc_log c
        \<and> (\<forall>e \<in> set new. \<not> enable_event e \<longrightarrow> xc_lease_count d = 0))"
  using assms
proof cases
  case (step_world p)
  then show ?thesis using polled_provider(1) [OF assms(2), of p] polled_provider(3) [OF assms(3), of p] by simp
next
  case (step_refresh force ok)
  from refresh_locked_inv [OF assms(2) this] assms(3) show ?thesis
    using polls_are_quiet [of c d] by (simp add: advances_def)
next
  case (step_get_snapshot s ok)
  then obtain r where "refresh_locked ops False c = (d, r)"
    by (auto simp: ssd_get_snapshot_def split: prod.splits)
  from refresh_locked_inv [OF assms(2) this] assms(3) show ?thesis
    using polls_are_quiet [of c d] by (simp add: advances_def)
next
  case (step_enable result)
  from ssd_enable_inv [OF assms(2) this] show ?thesis
    by (auto simp: advances_def appends_def list_all_iff)
next
  case (step_disable result)
  have d: "advances drain_event c d \<and> derived d" by (rule ssd_disable_inv [OF assms(2) step_disable])
  have "xc_log d = xc_log c" if "xc_lease_count c > 0"
  proof -
    have "xc_log d = xc_log (fst (ssd_disable ops c))" using step_disable by simp
    also have "\<dots> = xc_log c" unfolding ssd_disable_def
      by (subst leased_drain_waits) (simp_all add: that)
    finally show ?thesis .
  qed
  with d show ?thesis
    by (cases "xc_lease_count c = 0") (auto simp: advances_def appends_def)
next
  case (step_cancel_drain ok)
  from ssd_cancel_drain_inv [OF assms(2,3) this] show ?thesis
    using polls_are_quiet [of c d] by (simp add: advances_def)
next
  case (step_acquire self address lease lease' ok)
  from ssd_acquire_inv [OF assms(2,3) this] show ?thesis
    using polls_are_quiet [of c d] by simp
next
  case (step_release self address lease lease' ok)
  from ssd_release_inv [OF assms(2,3) this] show ?thesis
    by (cases "xc_log d = xc_log c") (auto simp: appends_def)
qed

lemma ssd_run_inv:
  assumes "ssd_run ops c"
  shows "core_inv c \<and> derived c"
  using assms
proof induction
  case (run_create allocated provider interval c)
  then obtain ok where "refresh_locked ops True (zero_controller provider interval) = (c, ok)"
    by (cases "refresh_locked ops True (zero_controller provider interval)")
      (auto simp: ssd_create_def split: if_splits)
  from refresh_locked_inv [OF zero_controller_inv this] show ?case by (simp add: advances_def)
next
  case (run_step c d)
  then show ?case using ssd_step_inv by blast
qed

lemma derived_safe:
  assumes "derived c" "xs_state (xc_snapshot c) = SSD_SAFE_TO_UNPLUG"
  shows "xc_have_observation c \<and> observation_status (xc_observation c) = OBSERVATION_VALID
    \<and> \<not> xc_physical_hazard_latched c \<and> \<not> xc_refresh_error c \<and> \<not> xc_operation_error c
    \<and> xc_safe_latched c"
proof -
  obtain b p where c: "c = (derive_state_locked b)\<lparr>xc_provider := p\<rparr>"
    using assms(1) by (auto simp: derived_def)
  obtain status reason where v: "(if xc_have_observation b
      then validate_observation (xc_observation b) else (OBSERVATION_ABSENT, [])) = (status, reason)"
    by fastforce
  have state: "xs_state (derive_actions st r b t) = xs_state t" for st r t
    by (simp add: derive_actions_def Let_def)
  have "\<not> xc_physical_hazard_latched b"
    using assms(2) by (auto simp: c derive_state_locked_def v state derive_hazard_def Let_def)
  then have "fst (derive_ordinary status reason b (derive_common status (observation_is_hazard_pair_locked b) b))
      = SSD_SAFE_TO_UNPLUG"
    using assms(2) by (simp add: c derive_state_locked_def v state split_beta Let_def)
  then have "status = OBSERVATION_VALID \<and> \<not> xc_refresh_error b \<and> \<not> xc_operation_error b \<and> xc_safe_latched b"
    by (cases status) (auto simp: derive_ordinary_def split: if_splits)
  with v \<open>\<not> xc_physical_hazard_latched b\<close> show ?thesis
    by (auto simp: c observation_status_def split: if_splits)
qed

section \<open>A healthy device\<close>

text \<open>A provider whose device obeys: its state is whether swap is active and scratch mounted.\<close>

definition sample_pair :: "bool \<Rightarrow> bool \<Rightarrow> ssd_observation" where
  "sample_pair active mounted = zero_observation\<lparr>
     po_swap := zero_swap\<lparr>vs_present := True, vs_unit_ready := True, vs_interface_available := True,
       vs_size_bytes := 4096, vs_label := SSD_SWAP_LABEL, vs_uuid := ''u1'', vs_drive_identity := ''d1'',
       vs_object_path := ''/o/swap'', vs_device := ''/dev/s1'', vs_active_known := True,
       vs_active := active, vs_total_known := True, vs_used_known := True, vs_total_bytes := 4096\<rparr>,
     po_scratch := zero_scratch\<lparr>vm_present := True, vm_unit_ready := True, vm_interface_available := True,
       vm_size_bytes := 4096, vm_label := SSD_SCRATCH_LABEL, vm_uuid := ''u2'', vm_drive_identity := ''d1'',
       vm_object_path := ''/o/scratch'', vm_device := ''/dev/s2'', vm_mounted := mounted,
       vm_mount_path := SSD_SCRATCH_MOUNT_PATH\<rparr>,
     po_memory_pressure_known := True, po_io_pressure_known := True, po_swap_activity_known := True\<rparr>"

definition sample_ops :: "(bool \<times> bool) ssd_ops" where
  "sample_ops = \<lparr>op_now = (\<lambda>p. (p, Some 5)), op_refresh = (\<lambda>(a, m). ((a, m), Inr (sample_pair a m))),
     op_start_swap = (\<lambda>path (a, m). ((True, m), True, [])),
     op_stop_swap = (\<lambda>path (a, m). ((False, m), True, [])),
     op_mount_scratch = (\<lambda>path (a, m). ((a, True), True, SSD_SCRATCH_MOUNT_PATH, [])),
     op_unmount_scratch = (\<lambda>path (a, m). ((a, False), True, []))\<rparr>"

definition sample_created :: "(bool \<times> bool) ssd_controller" where
  "sample_created = the (ssd_create True sample_ops (False, False) SSD_DEFAULT_POLL_INTERVAL_NS)"

definition sample_enabled :: "(bool \<times> bool) ssd_controller" where
  "sample_enabled = fst (ssd_enable sample_ops sample_created)"

definition sample_leased :: "(bool \<times> bool) ssd_controller" where
  "sample_leased = fst (ssd_acquire_scratch sample_ops 99 7
     \<lparr>xl_opaque_controller = 0, xl_opaque_lease_id = 0\<rparr> sample_enabled)"

definition sample_drained :: "(bool \<times> bool) ssd_controller" where
  "sample_drained = fst (ssd_disable sample_ops sample_enabled)"

lemma triple_eta: "x = (fst x, fst (snd x), snd (snd x))"
  by simp

lemma sample_ssd_runs:
  "ssd_run sample_ops sample_created" "ssd_run sample_ops sample_enabled" "ssd_run sample_ops sample_leased"
  "ssd_step sample_ops sample_enabled sample_drained" "ssd_run sample_ops sample_drained"
proof -
  have "ssd_create True sample_ops (False, False) SSD_DEFAULT_POLL_INTERVAL_NS = Some sample_created"
    by (simp add: sample_created_def ssd_create_def)
  then show a: "ssd_run sample_ops sample_created" by (rule run_create)
  have "ssd_step sample_ops sample_created sample_enabled"
    unfolding sample_enabled_def by (rule step_enable) (rule surjective_pairing)
  with a show b: "ssd_run sample_ops sample_enabled" by (rule run_step)
  have "ssd_step sample_ops sample_enabled sample_leased"
    unfolding sample_leased_def by (rule step_acquire) (rule triple_eta)
  with b show "ssd_run sample_ops sample_leased" by (rule run_step)
  show e: "ssd_step sample_ops sample_enabled sample_drained"
    unfolding sample_drained_def by (rule step_disable) (rule surjective_pairing)
  show "ssd_run sample_ops sample_drained" by (rule run_step [OF b e])
qed

lemma sample_leased_state:
  "(xc_log sample_leased, xc_lease_count sample_leased, held (xc_active_leases sample_leased)) =
   ([SSD_POLLED (sample_pair True True), SSD_POLLED (sample_pair True True), SSD_MOUNT ''/o/scratch'',
     SSD_POLLED (sample_pair True False), SSD_START ''/o/swap'', SSD_POLLED (sample_pair False False),
     SSD_POLLED (sample_pair False False)], 1, [(1, 7)])"
  by code_simp

lemma sample_drained_state:
  "(xc_log sample_drained, xs_state (xc_snapshot sample_drained)) =
   (SSD_POLLED (sample_pair False False) # SSD_UNMOUNT ''/o/scratch'' # SSD_POLLED (sample_pair False True)
     # SSD_STOP ''/o/swap'' # SSD_POLLED (sample_pair True True) # xc_log sample_enabled, SSD_SAFE_TO_UNPLUG)"
  by code_simp

section \<open>Properties\<close>

text \<open>
  C24. Authority over a device never passes to another. Whatever the provider answers and
  whenever devices appear, vanish or are replaced, every start, stop, mount or unmount is sent to
  the object path that the latest successful poll showed, that poll was a valid Lardon pair, and
  while an earlier activation may still be in effect on a device (it was requested, and no later
  poll showed that device inactive) the device polled is that very device, by drive identity and
  both UUIDs.
\<close>

theorem device_authority_never_transfers:
  assumes "ssd_run ops c" and "xc_log c = later @ e # earlier"
    and "action_path e (last_polled earlier) = Some (path, seen)"
  shows "path = seen \<and> observation_status (last_polled earlier) = OBSERVATION_VALID
    \<and> (\<forall>T. unresolved earlier = Some T \<longrightarrow> tuple_of (last_polled earlier) = T)"
  using ssd_run_inv [OF assms(1)] log_okD [of later e earlier] assms(2,3) by (simp add: core_inv_def)

theorem device_authority_never_transfers_witness:
  "unresolved [SSD_POLLED (sample_pair True False), SSD_START ''/o/swap'',
      SSD_POLLED (sample_pair False False), SSD_POLLED (sample_pair False False)] = Some (''d1'', ''u1'', ''u2'')
    \<and> tuple_of (sample_pair True False) = (''d1'', ''u1'', ''u2'')"
  using device_authority_never_transfers [OF sample_ssd_runs(3),
      of "[SSD_POLLED (sample_pair True True), SSD_POLLED (sample_pair True True)]" "SSD_MOUNT ''/o/scratch''"
      "[SSD_POLLED (sample_pair True False), SSD_START ''/o/swap'',
        SSD_POLLED (sample_pair False False), SSD_POLLED (sample_pair False False)]" "''/o/scratch''" "''/o/scratch''"]
    sample_leased_state
  by (simp add: sample_pair_def tuple_of_def SSD_IDENTITY_CAPACITY_def SSD_TEXT_CAPACITY_def inactive_def)

text \<open>
  C25. A snapshot that says SAFE_TO_UNPLUG is true of the device last observed: the latest poll
  succeeded and showed a valid pair with swap inactive and scratch unmounted, no lease is held,
  no hazard is latched, and no activation sent to any device is unresolved.
\<close>

theorem safe_to_unplug_is_verified:
  assumes "ssd_run ops c" and "xs_state (ssd_copy_snapshot c) = SSD_SAFE_TO_UNPLUG"
  shows "xc_observation c = last_polled (xc_log c)
    \<and> observation_status (xc_observation c) = OBSERVATION_VALID
    \<and> \<not> vs_active (po_swap (xc_observation c)) \<and> \<not> vm_mounted (po_scratch (xc_observation c))
    \<and> \<not> xc_refresh_error c \<and> xc_lease_count c = 0 \<and> \<not> xc_physical_hazard_latched c
    \<and> unresolved (xc_log c) = None"
proof -
  have inv: "core_inv c" and safe: "derived c" using ssd_run_inv [OF assms(1)] by simp_all
  note d = derived_safe [OF safe assms(2) [unfolded ssd_copy_snapshot_def]]
  have off: "inactive (xc_observation c)" "xc_lease_count c = 0"
    using inv d by (simp_all add: core_inv_def safe_ok_def)
  then have "unresolved (xc_log c) \<noteq> Some T" for T
    using inv d unfolding core_inv_def authority_ok_def by blast
  then have "unresolved (xc_log c) = None" by blast
  with d off inv show ?thesis by (simp add: inactive_def core_inv_def seen_ok_def)
qed

theorem safe_to_unplug_is_verified_witness:
  "\<not> vm_mounted (po_scratch (xc_observation sample_drained)) \<and> xc_lease_count sample_drained = 0
    \<and> unresolved (xc_log sample_drained) = None"
proof -
  have "xs_state (ssd_copy_snapshot sample_drained) = SSD_SAFE_TO_UNPLUG"
    using sample_drained_state by (simp add: ssd_copy_snapshot_def)
  from safe_to_unplug_is_verified [OF sample_ssd_runs(5) this] show ?thesis by blast
qed

text \<open>
  C26. What one call may do to an active device: swap is stopped only with no lease held, under
  known, quiet memory and I/O telemetry with no swap traffic, and only when the pages it holds
  fit in available memory beyond the 3 GiB host reserve; scratch is unmounted only with no lease
  held and after a poll showed swap inactive; scratch is mounted only after a poll showed swap
  active.
\<close>

theorem drain_spares_leases_and_memory:
  assumes "ssd_run ops c" and "ssd_step ops c d" and "xc_log d = later @ e # before @ xc_log c"
  defines "seen \<equiv> last_polled (before @ xc_log c)"
  shows "case e of
      SSD_STOP _ \<Rightarrow> xc_lease_count d = 0 \<and> vs_active (po_swap seen) \<and> can_absorb seen
    | SSD_UNMOUNT _ \<Rightarrow> xc_lease_count d = 0 \<and> vm_mounted (po_scratch seen) \<and> \<not> vs_active (po_swap seen)
    | SSD_MOUNT _ \<Rightarrow> vs_active (po_swap seen) \<and> \<not> vm_mounted (po_scratch seen)
    | SSD_START _ \<Rightarrow> \<not> vs_active (po_swap seen)
    | _ \<Rightarrow> True"
proof -
  have inv: "core_inv d" and quiet: "\<exists>new. xc_log d = new @ xc_log c
      \<and> (\<forall>e \<in> set new. \<not> enable_event e \<longrightarrow> xc_lease_count d = 0)"
    using ssd_step_inv [OF assms(2)] ssd_run_inv [OF assms(1)] by simp_all
  then have "\<not> enable_event e \<Longrightarrow> xc_lease_count d = 0" using assms(3) by auto
  moreover have "event_ok e (before @ xc_log c)"
    using inv log_okD [of later e "before @ xc_log c"] by (simp only: core_inv_def assms(3))
  ultimately show ?thesis unfolding seen_def by (cases e) (auto simp: core_inv_def)
qed

theorem drain_spares_leases_and_memory_witness:
  "xc_lease_count sample_drained = 0 \<and> can_absorb (sample_pair True True)"
  using drain_spares_leases_and_memory [OF sample_ssd_runs(2,4),
      of "[SSD_POLLED (sample_pair False False), SSD_UNMOUNT ''/o/scratch'', SSD_POLLED (sample_pair False True)]"
        "SSD_STOP ''/o/swap''" "[SSD_POLLED (sample_pair True True)]"] sample_drained_state
  by simp

text \<open>
  Scratch leases are accounted exactly in every run: the count is the number of held slots
  and at most 64, no two held leases share an identifier or a caller's object, identifiers are
  below the next one to give out; and a release succeeds exactly for the token, in the caller's
  own object, of a lease that is held, so copied, foreign, stale and already released tokens are
  refused.
\<close>

theorem leases_are_accounted:
  assumes "ssd_run ops c"
  shows "xc_lease_count c = length (held (xc_active_leases c)) \<and> xc_lease_count c \<le> SSD_MAX_SCRATCH_LEASES
    \<and> distinct (map fst (held (xc_active_leases c))) \<and> distinct (map snd (held (xc_active_leases c)))
    \<and> (xc_next_lease_id c \<noteq> 0 \<longrightarrow> (\<forall>l \<in> set (held (xc_active_leases c)). fst l < xc_next_lease_id c))
    \<and> snd (snd (ssd_release_scratch ops self address lease c))
        = (xl_opaque_controller lease = self
            \<and> (xl_opaque_lease_id lease, address) \<in> set (held (xc_active_leases c)))"
proof -
  let ?P = "\<lambda>(i, a). i = xl_opaque_lease_id lease \<and> a = address"
  have l: "leases_ok c" using ssd_run_inv [OF assms] by (simp add: core_inv_def)
  have release: "snd (snd (ssd_release_scratch ops self address lease c)) \<longleftrightarrow>
      xl_opaque_controller lease = self \<and> xl_opaque_lease_id lease \<noteq> 0
      \<and> find_slot ?P (xc_active_leases c) 0 \<noteq> None"
  proof (cases "xl_opaque_controller lease = self \<and> xl_opaque_lease_id lease \<noteq> 0")
    case True
    then show ?thesis
      using released_leases_ok [OF l, of "xl_opaque_lease_id lease" address]
      by (cases "find_slot ?P (xc_active_leases c) 0") (auto simp: ssd_release_scratch_def Let_def)
  qed (auto simp: ssd_release_scratch_def)
  have "length (held (xc_active_leases c)) \<le> SSD_MAX_SCRATCH_LEASES"
    using leases_okD(1) [OF l] length_filter_le [of "\<lambda>(i, a). i \<noteq> 0" "xc_active_leases c"] by simp
  with l release show ?thesis by (auto simp: leases_ok_def find_slot_None)
qed

theorem leases_are_accounted_witness:
  "xc_lease_count sample_leased = 1
    \<and> snd (snd (ssd_release_scratch sample_ops 99 7
        \<lparr>xl_opaque_controller = 99, xl_opaque_lease_id = 1\<rparr> sample_leased))
    \<and> \<not> snd (snd (ssd_release_scratch sample_ops 99 8
        \<lparr>xl_opaque_controller = 99, xl_opaque_lease_id = 1\<rparr> sample_leased))"
proof -
  have "held (xc_active_leases sample_leased) = [(1, 7)]" using sample_leased_state by simp
  note l = leases_are_accounted [OF sample_ssd_runs(3), unfolded this]
  show ?thesis
    using l [of 99 7 "\<lparr>xl_opaque_controller = 99, xl_opaque_lease_id = 1\<rparr>"]
      l [of 99 8 "\<lparr>xl_opaque_controller = 99, xl_opaque_lease_id = 1\<rparr>"]
    by simp
qed

end
