(* ===== verification/Storage_Theorems.thy ===== *)
theory Storage_Theorems
  imports External_Storage Ssd_Theorems
begin

text \<open>
  The Governor and the external SSD controller together: interleaved runs of scratch operations,
  controller calls and storage updates; the Governor's registry of leases; the authority of
  stale updates; and the acceptance of every settled snapshot of the controller.
\<close>

section \<open>Stale updates\<close>

lemma normalize_same:
  assumes "normalize_external_storage x = Some y"
  shows "y = x \<and> \<not> external_storage_rejected x"
proof -
  have ok: "\<not> external_storage_rejected x"
    and y: "y = x\<lparr>
        xe_scratch_total_bytes := (if xe_scratch_total_known x then xe_scratch_total_bytes x else 0),
        xe_scratch_free_bytes := (if xe_scratch_free_known x then xe_scratch_free_bytes x else 0),
        xe_swap_total_bytes := (if xe_swap_total_known x then xe_swap_total_bytes x else 0),
        xe_swap_used_bytes := (if xe_swap_used_known x then xe_swap_used_bytes x else 0),
        xe_stable_identity := copy_text EXTERNAL_IDENTITY_CAPACITY (xe_stable_identity x),
        xe_reason := copy_text RESOURCE_REASON_CAPACITY (xe_reason x)\<rparr>"
    using assms by (simp_all add: normalize_external_storage_def split: if_splits)
  have "xe_scratch_total_known x \<or> xe_scratch_total_bytes x = 0"
    "xe_scratch_free_known x \<or> xe_scratch_free_bytes x = 0"
    "xe_swap_total_known x \<or> xe_swap_total_bytes x = 0" "xe_swap_used_known x \<or> xe_swap_used_bytes x = 0"
    "bounded_text_terminated (xe_stable_identity x) EXTERNAL_IDENTITY_CAPACITY"
    "bounded_text_terminated (xe_reason x) RESOURCE_REASON_CAPACITY"
    using ok unfolding external_storage_rejected_def by blast+
  then have "(if xe_scratch_total_known x then xe_scratch_total_bytes x else 0) = xe_scratch_total_bytes x"
    "(if xe_scratch_free_known x then xe_scratch_free_bytes x else 0) = xe_scratch_free_bytes x"
    "(if xe_swap_total_known x then xe_swap_total_bytes x else 0) = xe_swap_total_bytes x"
    "(if xe_swap_used_known x then xe_swap_used_bytes x else 0) = xe_swap_used_bytes x"
    "copy_text EXTERNAL_IDENTITY_CAPACITY (xe_stable_identity x) = xe_stable_identity x"
    "copy_text RESOURCE_REASON_CAPACITY (xe_reason x) = xe_reason x"
    by (auto simp: bounded_text_terminated_def)
  then have "y = x" unfolding y by (simp only:) simp
  with ok show ?thesis by blast
qed

lemma notify_fields [simp]:
  "er_storage (storage_notify_locked g) = er_storage g" "er_leases (storage_notify_locked g) = er_leases g"
  "er_registered (storage_notify_locked g) = er_registered g"
  "er_controller (storage_notify_locked g) = er_controller g"
  "er_operation_active (storage_notify_locked g) = er_operation_active g"
  "er_operation_acquire (storage_notify_locked g) = er_operation_acquire g"
  "er_operation_lease (storage_notify_locked g) = er_operation_lease g"
  by (simp_all add: storage_notify_locked_def)

lemma publish_fields [simp]:
  "er_leases (storage_publish b x g) = er_leases g" "er_registered (storage_publish b x g) = er_registered g"
  "er_controller (storage_publish b x g) = er_controller g"
  "er_operation_active (storage_publish b x g) = er_operation_active g"
  "er_operation_acquire (storage_publish b x g) = er_operation_acquire g"
  "er_operation_lease (storage_publish b x g) = er_operation_lease g"
  by (simp_all add: storage_publish_def)

lemma apply_cases:
  obtains (refused) "storage_apply_locked x pr g = (g, False)"
  | (stale) "normalize_external_storage x = Some x" "xe_status x = STORAGE_ERROR"
      "storage_stale pr (er_storage g) x"
      "storage_apply_locked x pr g = (storage_publish
        (external_storage_material_equal (er_storage g) (conservative_storage (er_storage g) x))
        (cover_leases (lease_count g) (conservative_storage (er_storage g) x)) g, True)"
  | (fresh) "normalize_external_storage x = Some x" "\<not> storage_stale pr (er_storage g) x"
      "xe_status x = STORAGE_ERROR \<or> lease_count g \<le> xe_active_scratch_leases x"
      "storage_apply_locked x pr g = (storage_publish (external_storage_material_equal (er_storage g) x)
        (cover_leases (lease_count g) x) g, True)"
proof (cases "normalize_external_storage x")
  case None
  then show ?thesis by (intro refused) (simp add: storage_apply_locked_def)
next
  case (Some y)
  then have x: "normalize_external_storage x = Some x" using normalize_same by blast
  show ?thesis
  proof (cases "xe_status x \<noteq> STORAGE_ERROR \<and> xe_active_scratch_leases x < lease_count g")
    case True
    then show ?thesis by (intro refused) (simp add: storage_apply_locked_def x)
  next
    case room: False
    show ?thesis
    proof (cases "storage_stale pr (er_storage g) x")
      case True
      then show ?thesis
        using room by (cases "xe_status x = STORAGE_ERROR")
          (rule stale, simp_all add: storage_apply_locked_def x Let_def,
           rule refused, simp add: storage_apply_locked_def x)
    next
      case False
      then show ?thesis
        using room by (intro fresh) (auto simp: storage_apply_locked_def x Let_def)
    qed
  qed
qed

lemma apply_fields [simp]:
  "er_leases (fst (storage_apply_locked x pr g)) = er_leases g"
  "er_registered (fst (storage_apply_locked x pr g)) = er_registered g"
  "er_controller (fst (storage_apply_locked x pr g)) = er_controller g"
  "er_operation_active (fst (storage_apply_locked x pr g)) = er_operation_active g"
  "er_operation_acquire (fst (storage_apply_locked x pr g)) = er_operation_acquire g"
  "er_operation_lease (fst (storage_apply_locked x pr g)) = er_operation_lease g"
  by (cases rule: apply_cases [of x pr g]; simp)+

lemma publish_storage:
  "er_storage (storage_publish b x g) =
    (if b then (er_storage g)\<lparr>xe_generation := max (xe_generation (er_storage g)) (xe_generation x)\<rparr> else x)"
  by (auto simp: storage_publish_def max_def)

lemma cover_fields [simp]:
  "xe_generation (cover_leases n x) = xe_generation x" "xe_status (cover_leases n x) = xe_status x"
  "xe_new_scratch_allocations_allowed (cover_leases n x) = xe_new_scratch_allocations_allowed x"
  "xe_stable_identity (cover_leases n x) = xe_stable_identity x"
  by (simp_all add: cover_leases_def)

lemma conservative_fields [simp]:
  "xe_generation (conservative_storage x y) = xe_generation x"
  "xe_status (conservative_storage x y) = STORAGE_ERROR"
  "xe_new_scratch_allocations_allowed (conservative_storage x y) = False"
  "xe_stable_identity (conservative_storage x y) = xe_stable_identity x"
  by (simp_all add: conservative_storage_def)

lemma apply_generation:
  "xe_generation (er_storage g) \<le> xe_generation (er_storage (fst (storage_apply_locked x pr g)))"
  by (cases rule: apply_cases [of x pr g]) (auto simp: publish_storage storage_stale_def Let_def)

lemma apply_public_stale:
  assumes "xe_generation x \<le> xe_generation (er_storage g)"
  shows "er_storage (fst (storage_apply_locked x APPLY_PUBLIC g)) = er_storage g
    \<or> xe_status (er_storage (fst (storage_apply_locked x APPLY_PUBLIC g))) = STORAGE_ERROR
      \<and> \<not> xe_new_scratch_allocations_allowed (er_storage (fst (storage_apply_locked x APPLY_PUBLIC g)))
      \<and> xe_generation (er_storage (fst (storage_apply_locked x APPLY_PUBLIC g))) = xe_generation (er_storage g)
      \<and> xe_stable_identity (er_storage (fst (storage_apply_locked x APPLY_PUBLIC g)))
          = xe_stable_identity (er_storage g)"
  using assms
  by (cases rule: apply_cases [of x APPLY_PUBLIC g])
    (auto simp: publish_storage storage_stale_def Let_def max_def)

section \<open>Interleaved runs\<close>

text \<open>
  A scratch operation holds neither mutex between its parts, so other calls interleave: where it
  stands is the phase. There is at most one, since \<open>begin\<close> refuses a second.
\<close>

datatype scratch_phase =
  SCRATCH_IDLE
  | SCRATCH_BEGUN nat bool
  | SCRATCH_CALLED nat bool bool
  | SCRATCH_OBSERVED nat bool bool "external_storage option"

record 'p storage_world =
  sw_registry :: storage_registry
  sw_controller :: "'p ssd_controller"
  sw_phase :: scratch_phase

text \<open>
  \<open>self\<close> is the controller. Leases are taken and returned through the Governor only, so the other
  controller calls are those that leave its lease slots as they are. Updates carry any data.
\<close>

inductive storage_step :: "'p ssd_ops \<Rightarrow> u64 \<Rightarrow> 'p storage_world \<Rightarrow> 'p storage_world \<Rightarrow> bool" for ops self where
  step_controller: "ssd_step ops (sw_controller w) c \<Longrightarrow>
    xc_active_leases c = xc_active_leases (sw_controller w) \<Longrightarrow>
    storage_step ops self w (w\<lparr>sw_controller := c\<rparr>)"
| step_register: "register_external_storage self x (sw_registry w) = (g, ok) \<Longrightarrow>
    storage_step ops self w (w\<lparr>sw_registry := g\<rparr>)"
| step_update: "update_external_storage controller x (sw_registry w) = (g, ok) \<Longrightarrow>
    storage_step ops self w (w\<lparr>sw_registry := g\<rparr>)"
| step_unregister: "unregister_external_storage controller (sw_registry w) = (g, ok) \<Longrightarrow>
    storage_step ops self w (w\<lparr>sw_registry := g\<rparr>)"
| step_begin: "begin_scratch_operation self address acquire (sw_registry w) = (g, True) \<Longrightarrow>
    storage_step ops self w (w\<lparr>sw_registry := g, sw_phase := SCRATCH_BEGUN address acquire\<rparr>)"
| step_call: "sw_phase w = SCRATCH_BEGUN address acquire \<Longrightarrow>
    physical_scratch_call ops self address lease acquire (sw_controller w) = (c, lease', ok) \<Longrightarrow>
    storage_step ops self w (w\<lparr>sw_controller := c, sw_phase := SCRATCH_CALLED address acquire ok\<rparr>)"
| step_observe: "sw_phase w = SCRATCH_CALLED address acquire ok \<Longrightarrow>
    storage_step ops self w
      (w\<lparr>sw_phase := SCRATCH_OBSERVED address acquire ok (observed_storage (sw_controller w))\<rparr>)"
| step_finish: "sw_phase w = SCRATCH_OBSERVED address acquire ok x \<Longrightarrow>
    finish_scratch_operation self address acquire ok x (sw_registry w) = (g, result) \<Longrightarrow>
    storage_step ops self w (w\<lparr>sw_registry := g, sw_phase := SCRATCH_IDLE\<rparr>)"

definition empty_registry :: storage_registry where
  "empty_registry = \<lparr>er_generation = 0, er_registered = False, er_controller = 0,
     er_storage = zero_storage, er_operation_active = False, er_operation_acquire = False,
     er_operation_lease = 0, er_operation_start_lease_count = 0, er_leases = []\<rparr>"

inductive storage_run :: "'p ssd_ops \<Rightarrow> u64 \<Rightarrow> 'p storage_world \<Rightarrow> bool" for ops self where
  run_start: "ssd_create True ops provider interval = Some c \<Longrightarrow>
    storage_run ops self \<lparr>sw_registry = empty_registry, sw_controller = c, sw_phase = SCRATCH_IDLE\<rparr>"
| run_world_step: "storage_run ops self w \<Longrightarrow> storage_step ops self w v \<Longrightarrow> storage_run ops self v"

section \<open>The registry of leases\<close>

abbreviation lease_addresses :: "'p ssd_controller \<Rightarrow> nat set" where
  "lease_addresses c \<equiv> snd ` set (held (xc_active_leases c))"

text \<open>What the registry must become once the operation in flight has finished.\<close>

fun booked :: "scratch_phase \<Rightarrow> nat set \<Rightarrow> nat set" where
  "booked (SCRATCH_CALLED a acquire True) A = (if acquire then insert a A else A - {a})"
| "booked (SCRATCH_OBSERVED a acquire True x) A = (if acquire then insert a A else A - {a})"
| "booked p A = A"

definition operation_ok :: "u64 \<Rightarrow> nat \<Rightarrow> bool \<Rightarrow> storage_registry \<Rightarrow> bool" where
  "operation_ok self a acquire g \<longleftrightarrow> er_operation_active g \<and> er_registered g
     \<and> er_controller g = self \<and> er_operation_acquire g = acquire \<and> er_operation_lease g = a
     \<and> (acquire \<longleftrightarrow> a \<notin> set (er_leases g)) \<and> (acquire \<longrightarrow> lease_count g < SSD_MAX_SCRATCH_LEASES)"

fun phase_ok :: "u64 \<Rightarrow> scratch_phase \<Rightarrow> storage_registry \<Rightarrow> bool" where
  "phase_ok self SCRATCH_IDLE g \<longleftrightarrow> \<not> er_operation_active g"
| "phase_ok self (SCRATCH_BEGUN a acquire) g \<longleftrightarrow> operation_ok self a acquire g"
| "phase_ok self (SCRATCH_CALLED a acquire ok) g \<longleftrightarrow> operation_ok self a acquire g"
| "phase_ok self (SCRATCH_OBSERVED a acquire ok x) g \<longleftrightarrow> operation_ok self a acquire g"

definition registry_ok :: "u64 \<Rightarrow> 'p storage_world \<Rightarrow> bool" where
  "registry_ok self w \<longleftrightarrow> distinct (er_leases (sw_registry w))
     \<and> phase_ok self (sw_phase w) (sw_registry w)
     \<and> lease_addresses (sw_controller w) = booked (sw_phase w) (set (er_leases (sw_registry w)))
     \<and> (er_leases (sw_registry w) \<noteq> [] \<longrightarrow> er_registered (sw_registry w))"

lemma phase_ok_frame:
  assumes "phase_ok self p g" "er_leases h = er_leases g" "er_registered h = er_registered g"
    "er_controller h = er_controller g" "er_operation_active h = er_operation_active g"
    "er_operation_acquire h = er_operation_acquire g" "er_operation_lease h = er_operation_lease g"
  shows "phase_ok self p h"
  using assms by (cases p) (simp_all add: operation_ok_def lease_count_def)

lemma find_address_Some: "find_address a ls = Some i \<Longrightarrow> i < length ls \<and> ls ! i = a"
  by (induction ls arbitrary: i) (auto split: if_splits option.splits)

lemma find_address_None: "find_address a ls = None \<longleftrightarrow> a \<notin> set ls"
  by (induction ls) (auto split: option.splits)

lemma remove_address:
  assumes "distinct ls" "i < length ls"
  shows "distinct (remove_address_at i ls) \<and> set (remove_address_at i ls) = set ls - {ls ! i}"
proof -
  obtain us z where ls: "ls = us @ [z]" using assms(2) by (cases ls rule: rev_cases) auto
  show ?thesis
  proof (cases "i = length us")
    case True
    then show ?thesis using assms by (auto simp: ls remove_address_at_def)
  next
    case False
    then have i: "i < length us" using assms(2) by (simp add: ls)
    then have "remove_address_at i ls = us[i := z]"
      by (simp add: ls remove_address_at_def list_update_append butlast_append)
    then show ?thesis
      using assms(1) i set_update_distinct [of us i z] by (auto simp: ls nth_append distinct_list_update)
  qed
qed

lemma acquired_addresses:
  assumes "core_inv c" "ssd_acquire_scratch ops self address lease c = (d, lease', ok)"
  shows "lease_addresses d = (if ok then insert address (lease_addresses c) else lease_addresses c)"
proof -
  obtain e polled where poll: "refresh_locked ops False c = (e, polled)"
    by (cases "refresh_locked ops False c")
  have e: "xc_active_leases e = xc_active_leases c"
    using refresh_locked_inv [OF assms(1) poll] by (simp add: advances_def)
  show ?thesis
  proof (cases ok)
    case False
    then have "xc_active_leases d = xc_active_leases c"
      using assms(2) e poll by (auto simp: ssd_acquire_scratch_def Let_def split: if_splits option.splits)
    with False show ?thesis by simp
  next
    case True
    then obtain s where slot: "find_slot (\<lambda>(i, a). i = 0) (xc_active_leases c) 0 = Some s"
        and n: "xc_next_lease_id e \<noteq> 0"
        and d: "xc_active_leases d = (xc_active_leases c)[s := (xc_next_lease_id e, address)]"
      using assms(2) e poll by (auto simp: ssd_acquire_scratch_def Let_def split: if_splits option.splits)
    obtain u v where "held (xc_active_leases c) = u @ v"
        "held (xc_active_leases d) = u @ (xc_next_lease_id e, address) # v"
      using held_insert [OF slot n] unfolding d by blast
    with True show ?thesis by simp
  qed
qed

lemma released_addresses:
  assumes "core_inv c" "derived c" "ssd_release_scratch ops self address lease c = (d, lease', ok)"
  shows "lease_addresses d = (if ok then lease_addresses c - {address} else lease_addresses c)"
proof (cases ok)
  case False
  have l: "leases_ok c" using assms(1) by (simp add: core_inv_def)
  have "xc_active_leases d = xc_active_leases c"
  proof (cases "xl_opaque_controller lease = self \<and> xl_opaque_lease_id lease \<noteq> 0")
    case True
    then show ?thesis
      using released_leases_ok [OF l, of "xl_opaque_lease_id lease" address] assms(3) False
      by (cases "find_slot (\<lambda>(i, a). i = xl_opaque_lease_id lease \<and> a = address) (xc_active_leases c) 0")
        (auto simp: ssd_release_scratch_def Let_def)
  qed (use assms(3) in \<open>auto simp: ssd_release_scratch_def\<close>)
  with False show ?thesis by simp
next
  case True
  have l: "leases_ok c" using assms(1) by (simp add: core_inv_def)
  let ?i = "xl_opaque_lease_id lease"
  obtain s where i: "?i \<noteq> 0"
      and slot: "find_slot (\<lambda>(i, a). i = ?i \<and> a = address) (xc_active_leases c) 0 = Some s"
    using True assms(3) by (auto simp: ssd_release_scratch_def split: if_splits option.splits)
  let ?b = "c\<lparr>xc_active_leases := (xc_active_leases c)[s := (0, 0)], xc_lease_count := xc_lease_count c - 1\<rparr>"
  let ?e = "derive_state_locked (bump_generation_locked ?b)"
  obtain f result where drain: "continue_drain_locked ops ?e = (f, result)"
    by (cases "continue_drain_locked ops ?e")
  have e: "core_inv ?e" using released_core_inv [OF assms(1) i slot] by blast
  have "d = (if xc_drain_requested ?e \<and> xc_lease_count ?e = 0 then f else ?e)"
    using assms(3) True slot drain by (auto simp: ssd_release_scratch_def Let_def split: if_splits)
  then have d: "xc_active_leases d = (xc_active_leases c)[s := (0, 0)]"
    using continue_drain_inv [OF e drain] by (simp add: advances_def)
  obtain u v where uv: "held (xc_active_leases c) = u @ (?i, address) # v"
      "held (xc_active_leases d) = u @ v"
    using held_remove [OF slot i] unfolding d by blast
  have "distinct (map snd (held (xc_active_leases c)))" using leases_okD(4) [OF l] .
  then have "address \<notin> snd ` set (u @ v)" by (simp add: uv(1) image_Un)
  then show ?thesis using True by (simp add: uv image_Un insert_Diff_if)
qed

lemma book_lease_ok:
  assumes ok: "operation_ok self a acquire g" "distinct (er_leases g)"
    and run: "book_lease a acquire success g = (h, valid)"
  shows "valid \<and> distinct (er_leases h) \<and> er_registered h = er_registered g
    \<and> set (er_leases h) = (if success then (if acquire then insert a (set (er_leases g))
        else set (er_leases g) - {a}) else set (er_leases g))"
proof -
  consider "\<not> success" | "success" "acquire" | "success" "\<not> acquire" by blast
  then show ?thesis
  proof cases
    case 1
    then have "h = g" "valid" using run by (simp_all add: book_lease_def)
    with 1 ok(2) show ?thesis by simp
  next
    case 2
    then have new: "a \<notin> set (er_leases g)" and "\<not> lease_count g \<ge> SSD_MAX_SCRATCH_LEASES"
      using ok(1) by (simp_all add: operation_ok_def)
    then have "h = g\<lparr>er_leases := er_leases g @ [a]\<rparr>" "valid"
      using run 2 find_address_None [of a "er_leases g"] by (simp_all add: book_lease_def)
    with 2 ok(2) new show ?thesis by simp
  next
    case 3
    then have "a \<in> set (er_leases g)" using ok(1) by (simp add: operation_ok_def)
    then obtain i where i: "find_address a (er_leases g) = Some i"
      using find_address_None [of a "er_leases g"] by fastforce
    then have h: "h = g\<lparr>er_leases := remove_address_at i (er_leases g)\<rparr>" "valid"
      using run 3 by (simp_all add: book_lease_def)
    have "i < length (er_leases g)" "er_leases g ! i = a" using find_address_Some [OF i] by simp_all
    then show ?thesis using 3 remove_address [OF ok(2), of i] by (simp add: h)
  qed
qed

lemma reconcile_fields:
  "er_leases (fst (reconcile_storage n x g)) = er_leases g"
  "er_registered (fst (reconcile_storage n x g)) = er_registered g"
proof -
  have "er_leases h = er_leases g \<and> er_registered h = er_registered g"
    if "storage_apply_locked y pr g = (h, b)" for y pr h b
    using apply_fields(1,2) [of y pr g] that by simp
  then show "er_leases (fst (reconcile_storage n x g)) = er_leases g"
    "er_registered (fst (reconcile_storage n x g)) = er_registered g"
    by (auto simp: reconcile_storage_def Let_def split: option.split prod.split)
qed

lemma finish_ok:
  assumes ok: "operation_ok self a acquire g" "distinct (er_leases g)"
    and run: "finish_scratch_operation self a acquire success x g = (h, result)"
  shows "distinct (er_leases h) \<and> \<not> er_operation_active h \<and> er_registered h \<and> result = success
    \<and> set (er_leases h) = (if success then (if acquire then insert a (set (er_leases g))
        else set (er_leases g) - {a}) else set (er_leases g))"
proof -
  obtain b valid where b: "book_lease a acquire success g = (b, valid)" by (cases "book_lease a acquire success g")
  note booked = book_lease_ok [OF ok b]
  have g: "er_registered g" "er_controller g = self" "er_operation_active g"
    "er_operation_acquire g = acquire" "er_operation_lease g = a"
    using ok(1) by (simp_all add: operation_ok_def)
  have "\<exists>d. er_leases d = er_leases b \<and> er_registered d = er_registered b
      \<and> h = d\<lparr>er_operation_active := False, er_operation_acquire := False, er_operation_lease := 0,
              er_operation_start_lease_count := 0\<rparr> \<and> result = (success \<and> valid)"
  proof -
    obtain n v where n: "expected_count acquire success (er_operation_start_lease_count g) = (n, v)"
      by (cases "expected_count acquire success (er_operation_start_lease_count g)")
    obtain m v' where m: "(if n < lease_count b then (lease_count b, False) else (n, v)) = (m, v')"
      by (cases "if n < lease_count b then (lease_count b, False) else (n, v)")
    obtain c r where c: "(if valid \<and> v' then reconcile_storage m x b else (b, False)) = (c, r)"
      by (cases "if valid \<and> v' then reconcile_storage m x b else (b, False)")
    have cb: "er_leases c = er_leases b \<and> er_registered c = er_registered b"
      using c reconcile_fields [of m x b] by (auto split: if_splits)
    show ?thesis
      using run g b n m c cb
      by (intro exI [of _ "if \<not> r then operation_error_locked m c else c"])
        (auto simp: finish_scratch_operation_def operation_error_locked_def Let_def)
  qed
  then show ?thesis using booked g(1) by auto
qed

lemma update_fields:
  assumes "update_external_storage controller x g = (h, ok)"
  shows "er_leases h = er_leases g" "er_registered h = er_registered g" "er_controller h = er_controller g"
    "er_operation_active h = er_operation_active g" "er_operation_acquire h = er_operation_acquire g"
    "er_operation_lease h = er_operation_lease g"
proof -
  have "h = g \<or> (\<exists>y pr. h = fst (storage_apply_locked y pr g))"
    using assms by (auto simp: update_external_storage_def Let_def intro: fst_conv [symmetric]
      split: option.splits if_splits) (metis fst_conv)+
  then show "er_leases h = er_leases g" "er_registered h = er_registered g" "er_controller h = er_controller g"
    "er_operation_active h = er_operation_active g" "er_operation_acquire h = er_operation_acquire g"
    "er_operation_lease h = er_operation_lease g"
    by auto
qed

lemma storage_step_ok:
  assumes "storage_step ops self w v" "registry_ok self w" "core_inv (sw_controller w)" "derived (sw_controller w)"
  shows "registry_ok self v \<and> core_inv (sw_controller v) \<and> derived (sw_controller v)"
  using assms
proof cases
  case (step_controller c)
  then show ?thesis
    using assms ssd_step_inv [OF step_controller(2)] by (simp add: registry_ok_def)
next
  case (step_register x g ok)
  then have "g = sw_registry w \<or> \<not> er_registered (sw_registry w) \<and> er_registered g
      \<and> er_leases g = er_leases (sw_registry w) \<and> er_operation_active g = er_operation_active (sw_registry w)"
    by (auto simp: register_external_storage_def split: option.splits if_splits)
  then show ?thesis
    using step_register assms(2-4)
    by (cases "sw_phase w") (auto simp: registry_ok_def operation_ok_def)
next
  case (step_update controller x g ok)
  then show ?thesis
    using assms(2-4) phase_ok_frame [OF _ update_fields [OF step_update(2)]] update_fields [OF step_update(2)]
    by (simp add: registry_ok_def)
next
  case (step_unregister controller g ok)
  then have "g = sw_registry w \<or> \<not> er_operation_active (sw_registry w) \<and> er_leases (sw_registry w) = []
      \<and> er_leases g = [] \<and> \<not> er_operation_active g"
    by (auto simp: unregister_external_storage_def lease_count_def split: if_splits)
  then show ?thesis
    using step_unregister assms(2-4)
    by (cases "sw_phase w") (auto simp: registry_ok_def operation_ok_def)
next
  case (step_begin address acquire g)
  then show ?thesis
    using assms(2-4)
    by (cases "sw_phase w") (auto simp: registry_ok_def operation_ok_def begin_scratch_operation_def
      Let_def lease_count_def split: if_splits)
next
  case (step_call address acquire lease c lease' ok)
  note l = assms(2) [unfolded registry_ok_def step_call(2) phase_ok.simps booked.simps]
  have step: "ssd_step ops (sw_controller w) c"
    using step_call(3) ssd_step.step_acquire ssd_step.step_release
    by (cases acquire) (auto simp: physical_scratch_call_def)
  have "lease_addresses c = (if ok then (if acquire then insert address (lease_addresses (sw_controller w))
      else lease_addresses (sw_controller w) - {address}) else lease_addresses (sw_controller w))"
    using acquired_addresses [OF assms(3)] released_addresses [OF assms(3,4)] step_call(3)
    by (cases acquire) (simp_all add: physical_scratch_call_def)
  then show ?thesis
    using l ssd_step_inv [OF step assms(3,4)] unfolding step_call(1)
    by (cases ok) (simp_all add: registry_ok_def)
next
  case (step_observe address acquire ok)
  then show ?thesis using assms(2-4) by (cases ok) (simp_all add: registry_ok_def)
next
  case (step_finish address acquire ok x g result)
  note l = assms(2) [unfolded registry_ok_def step_finish(2) phase_ok.simps]
  have "operation_ok self address acquire (sw_registry w)" "distinct (er_leases (sw_registry w))"
    using l by simp_all
  from finish_ok [OF this step_finish(3)] show ?thesis
    using l assms(3,4) unfolding step_finish(1) by (cases ok) (auto simp: registry_ok_def)
qed

lemma storage_run_ok:
  assumes "storage_run ops self w"
  shows "registry_ok self w \<and> core_inv (sw_controller w) \<and> derived (sw_controller w)"
  using assms
proof induction
  case (run_start provider interval c)
  have run: "ssd_run ops c" by (rule run_create [OF run_start])
  obtain ok where "refresh_locked ops True (zero_controller provider interval) = (c, ok)"
    using run_start by (cases "refresh_locked ops True (zero_controller provider interval)")
      (auto simp: ssd_create_def split: if_splits)
  from refresh_locked_inv [OF zero_controller_inv this]
  have "xc_active_leases c = replicate SSD_MAX_SCRATCH_LEASES (0, 0)"
    by (simp add: advances_def zero_controller_def)
  then have "held (xc_active_leases c) = []" by simp
  then show ?case using ssd_run_inv [OF run] by (simp add: registry_ok_def empty_registry_def)
next
  case (run_world_step w v)
  then show ?case using storage_step_ok by blast
qed

text \<open>Run without interruption, the parts of a scratch operation are the operation of the code.\<close>

lemma scratch_operation_run:
  assumes run: "storage_run ops self w" "sw_phase w = SCRATCH_IDLE"
    and call: "scratch_operation ops self address lease acquire (sw_registry w) (sw_controller w)
      = (g, c, lease', ok)"
  shows "storage_run ops self (w\<lparr>sw_registry := g, sw_controller := c\<rparr>)"
proof -
  obtain b permitted where b: "begin_scratch_operation self address acquire (sw_registry w) = (b, permitted)"
    by (cases "begin_scratch_operation self address acquire (sw_registry w)")
  show ?thesis
  proof (cases permitted)
    case False
    then have "g = sw_registry w" "c = sw_controller w"
      using call b by (auto simp: scratch_operation_def begin_scratch_operation_def Let_def split: if_splits)
    then show ?thesis using run(1) by simp
  next
    case True
    obtain d l r where d: "physical_scratch_call ops self address lease acquire (sw_controller w) = (d, l, r)"
      by (cases "physical_scratch_call ops self address lease acquire (sw_controller w)") auto
    obtain e s where e: "finish_scratch_operation self address acquire r (observed_storage d) b = (e, s)"
      by (cases "finish_scratch_operation self address acquire r (observed_storage d) b")
    have gc: "g = e" "c = d" using call by (simp_all add: scratch_operation_def b True d e)
    let ?begun = "w\<lparr>sw_registry := b, sw_phase := SCRATCH_BEGUN address acquire\<rparr>"
    let ?called = "?begun\<lparr>sw_controller := d, sw_phase := SCRATCH_CALLED address acquire r\<rparr>"
    let ?seen = "?called\<lparr>sw_phase := SCRATCH_OBSERVED address acquire r (observed_storage d)\<rparr>"
    have "storage_run ops self ?begun"
      using run_world_step [OF run(1) storage_step.step_begin, of address acquire b] b True by simp
    then have "storage_run ops self ?called"
      using run_world_step [OF _ storage_step.step_call, of ops self ?begun address acquire lease d l r] d by simp
    then have "storage_run ops self (?called\<lparr>sw_phase := SCRATCH_OBSERVED address acquire r
        (observed_storage (sw_controller ?called))\<rparr>)"
      by (rule run_world_step [OF _ storage_step.step_observe]) simp
    then have "storage_run ops self ?seen" by simp
    then have "storage_run ops self (?seen\<lparr>sw_registry := e, sw_phase := SCRATCH_IDLE\<rparr>)"
      using run_world_step [OF _ storage_step.step_finish, of ops self ?seen address acquire r
        "observed_storage d" e s] e by simp
    moreover have "?seen\<lparr>sw_registry := e, sw_phase := SCRATCH_IDLE\<rparr> = w\<lparr>sw_registry := g, sw_controller := c\<rparr>"
      using run(2) by (cases w) (simp add: gc)
    ultimately show ?thesis by simp
  qed
qed

section \<open>Properties\<close>

text \<open>
  C27. The Governor's lease registry is the controller's: in every interleaving of scratch
  operations with controller calls, registrations and updates of any content, whenever no
  operation is in flight the registry holds each caller address once, exactly the addresses of
  the leases the controller holds, and a controller with leases is still registered. So a lease
  can always be found and returned, and unregistering never strands one.
\<close>

theorem governor_tracks_scratch_leases:
  assumes "storage_run ops self w" and "sw_phase w = SCRATCH_IDLE"
  shows "distinct (er_leases (sw_registry w))
    \<and> set (er_leases (sw_registry w)) = lease_addresses (sw_controller w)
    \<and> length (er_leases (sw_registry w)) = xc_lease_count (sw_controller w)
    \<and> (er_registered (sw_registry w) \<or> xc_lease_count (sw_controller w) = 0)"
proof -
  have r: "registry_ok self w" and c: "core_inv (sw_controller w)" using storage_run_ok [OF assms(1)] by blast+
  have l: "length (held (xc_active_leases (sw_controller w))) = xc_lease_count (sw_controller w)"
    "distinct (map snd (held (xc_active_leases (sw_controller w))))"
    using c by (auto simp: core_inv_def leases_ok_def)
  have ls: "distinct (er_leases (sw_registry w))" "set (er_leases (sw_registry w)) = lease_addresses (sw_controller w)"
    "er_leases (sw_registry w) \<noteq> [] \<Longrightarrow> er_registered (sw_registry w)"
    using r assms(2) by (simp_all add: registry_ok_def)
  have "length (er_leases (sw_registry w)) = card (set (map snd (held (xc_active_leases (sw_controller w)))))"
    using distinct_card [OF ls(1)] ls(2) by simp
  also have "\<dots> = xc_lease_count (sw_controller w)" using distinct_card [OF l(2)] l(1) by simp
  finally have n: "length (er_leases (sw_registry w)) = xc_lease_count (sw_controller w)" .
  have "er_registered (sw_registry w) \<or> xc_lease_count (sw_controller w) = 0"
    using ls(3) n by (cases "er_leases (sw_registry w)") auto
  with n ls(1,2) show ?thesis by blast
qed

definition sample_registered :: "(bool \<times> bool) storage_world" where
  "sample_registered = \<lparr>sw_registry = fst (register_external_storage 99
       (the (observed_storage sample_enabled)) empty_registry),
     sw_controller = sample_enabled, sw_phase = SCRATCH_IDLE\<rparr>"

definition sample_acquired :: "storage_registry \<times> (bool \<times> bool) ssd_controller \<times> ssd_lease \<times> bool" where
  "sample_acquired = scratch_operation sample_ops 99 7 \<lparr>xl_opaque_controller = 0, xl_opaque_lease_id = 0\<rparr>
     True (sw_registry sample_registered) (sw_controller sample_registered)"

lemma sample_registered_run: "storage_run sample_ops 99 sample_registered"
proof -
  let ?start = "\<lparr>sw_registry = empty_registry, sw_controller = sample_created, sw_phase = SCRATCH_IDLE\<rparr>"
  have "ssd_create True sample_ops (False, False) SSD_DEFAULT_POLL_INTERVAL_NS = Some sample_created"
    by (simp add: sample_created_def ssd_create_def)
  then have "storage_run sample_ops 99 ?start" by (rule run_start)
  moreover have "ssd_step sample_ops sample_created sample_enabled"
    unfolding sample_enabled_def by (rule ssd_step.step_enable) (rule surjective_pairing)
  moreover have "xc_active_leases sample_enabled = xc_active_leases sample_created" by code_simp
  ultimately have "storage_run sample_ops 99 (?start\<lparr>sw_controller := sample_enabled\<rparr>)"
    using run_world_step [OF _ storage_step.step_controller, of sample_ops 99 ?start sample_enabled] by simp
  from run_world_step [OF this storage_step.step_register [OF prod.collapse [symmetric]],
      of "the (observed_storage sample_enabled)"]
  show ?thesis by (simp add: sample_registered_def)
qed

lemma sample_acquired_leases:
  "(er_leases (fst sample_acquired), snd (snd (snd sample_acquired)),
     xe_active_scratch_leases (er_storage (fst sample_acquired))) = ([7], True, 1)"
  by code_simp

theorem governor_tracks_scratch_leases_witness:
  "lease_addresses (fst (snd sample_acquired)) = {7} \<and> er_leases (fst sample_acquired) = [7]"
proof -
  have "storage_run sample_ops 99
      (sample_registered\<lparr>sw_registry := fst sample_acquired, sw_controller := fst (snd sample_acquired)\<rparr>)"
    using scratch_operation_run [OF sample_registered_run, of 7
        "\<lparr>xl_opaque_controller = 0, xl_opaque_lease_id = 0\<rparr>" True] unfolding sample_acquired_def [symmetric]
    by (simp add: sample_registered_def) (metis prod.collapse)
  from governor_tracks_scratch_leases [OF this] sample_acquired_leases
  show ?thesis by (simp add: sample_registered_def)
qed

text \<open>
  Stale updates never regrant: an update that is not newer than what is registered, whoever
  sends it and whatever it claims, leaves the registered state as it is or degrades it to ERROR
  with new allocations refused, under the same generation and the same device identity; no update
  at all moves the generation back.
\<close>

theorem stale_updates_never_regrant:
  assumes "update_external_storage controller x g = (h, ok)"
  shows "xe_generation (er_storage g) \<le> xe_generation (er_storage h)
    \<and> (xe_generation x \<le> xe_generation (er_storage g) \<longrightarrow> er_storage h = er_storage g
      \<or> xe_status (er_storage h) = STORAGE_ERROR \<and> \<not> xe_new_scratch_allocations_allowed (er_storage h)
        \<and> xe_generation (er_storage h) = xe_generation (er_storage g)
        \<and> xe_stable_identity (er_storage h) = xe_stable_identity (er_storage g))"
proof -
  have "h = g \<or> h = fst (storage_apply_locked x APPLY_PUBLIC g)"
  proof (cases "normalize_external_storage x")
    case None
    then show ?thesis using assms by (simp add: update_external_storage_def)
  next
    case (Some y)
    then have "y = x" using normalize_same by blast
    then show ?thesis
      using assms Some by (auto simp: update_external_storage_def Let_def split: if_splits)
  qed
  then show ?thesis
    using apply_generation [of g x APPLY_PUBLIC] apply_public_stale [of x g] by auto
qed

definition sample_regrant :: external_storage where
  "sample_regrant = (er_storage (sw_registry sample_registered))
     \<lparr>xe_status := STORAGE_ERROR, xe_new_scratch_allocations_allowed := False\<rparr>"

theorem stale_updates_never_regrant_witness:
  "xe_status (er_storage (fst (update_external_storage 99 sample_regrant (sw_registry sample_registered))))
      = STORAGE_ERROR
    \<and> xe_generation (er_storage (sw_registry sample_registered)) \<le> xe_generation (er_storage
        (fst (update_external_storage 99 sample_regrant (sw_registry sample_registered))))"
proof -
  have "xe_status (er_storage (fst (update_external_storage 99 sample_regrant (sw_registry sample_registered))))
      = STORAGE_ERROR" by code_simp
  then show ?thesis using stale_updates_never_regrant [OF prod.collapse [symmetric]] by blast
qed

end
