(* ===== verification/Ssd_Provider.thy ===== *)
theory Ssd_Provider
  imports Ssd_Control
begin

text \<open>
  The production provider of the external SSD controller: how the managed objects that UDisks
  reports, the kernel's swap table and its paging counters become an observation. D-Bus and the
  files of \<open>/proc\<close> are parameters: what the typed lookups and the scans answer.
\<close>

section \<open>What UDisks reports\<close>

definition SSD_OBJECT_PATH_CAPACITY :: nat where "SSD_OBJECT_PATH_CAPACITY = 256"
definition SSD_MAX_UDISKS_OBJECTS :: nat where "SSD_MAX_UDISKS_OBJECTS = 1024"
definition SSD_MAX_MOUNT_POINTS :: nat where "SSD_MAX_MOUNT_POINTS = 8"

text \<open>
  The Block interface of an object: each property as its typed lookup answers it. The Swapspace
  and Filesystem interfaces are those of the same object: Swapspace holds its Active property,
  Filesystem its MountPoints, byte strings with their terminators.
\<close>

record udisks_block =
  ub_label :: "string option"
  ub_size :: "u64 option"
  ub_uuid :: "string option"
  ub_drive :: "string option"
  ub_device :: "string option"
  ub_swapspace :: "bool option option"
  ub_filesystem :: "string list option option"

record udisks_drive =
  ud_media_available :: "bool option"
  ud_model :: "string option"
  ud_serial :: "string option"

section \<open>Bounded copies\<close>

definition copy_variant_string :: "string option \<Rightarrow> nat \<Rightarrow> string option" where
  "copy_variant_string value capacity =
     (case value of None \<Rightarrow> None | Some t \<Rightarrow> if length t \<ge> capacity then None else Some t)"

abbreviation NUL :: char where "NUL \<equiv> CHR 0x00"

text \<open>A byte string of at least one byte and its only NUL at the end.\<close>

definition terminated_bytes :: "string \<Rightarrow> nat \<Rightarrow> bool" where
  "terminated_bytes bytes capacity \<longleftrightarrow>
     \<not> (length bytes < 2 \<or> last bytes \<noteq> NUL \<or> length bytes > capacity \<or> NUL \<in> set (butlast bytes))"

definition copy_variant_bytestring :: "string option \<Rightarrow> nat \<Rightarrow> string option" where
  "copy_variant_bytestring value capacity =
     (case value of None \<Rightarrow> None
      | Some bytes \<Rightarrow> if terminated_bytes bytes capacity then Some (butlast bytes) else None)"

section \<open>Blocks\<close>

definition invalidate :: "string \<Rightarrow> ssd_observation \<Rightarrow> ssd_observation" where
  "invalidate reason ob = ob\<lparr>po_invalid_observation := True, po_invalid_reason := reason\<rparr>"

text \<open>The loop over the mount points: the number read, or \<^const>\<open>None\<close> at one that is refused.\<close>

fun scan_mount_points :: "string list \<Rightarrow> nat \<Rightarrow> ssd_observation \<Rightarrow> ssd_observation \<times> nat option" where
  "scan_mount_points [] n ob = (ob, Some n)"
| "scan_mount_points (path # paths) n ob =
     (let n = n + 1 in
      if n > SSD_MAX_MOUNT_POINTS \<or> \<not> terminated_bytes path SSD_PATH_CAPACITY
      then (invalidate ''UDisks returned too many or overlong scratch mount points'' ob, None)
      else scan_mount_points paths n
        (if n = 1 then ob\<lparr>po_scratch := (po_scratch ob)\<lparr>vm_mount_path := butlast path\<rparr>\<rparr> else ob))"

definition copy_mount_points :: "string list option \<Rightarrow> ssd_observation \<Rightarrow> ssd_observation" where
  "copy_mount_points mounts ob =
     (case mounts of
        None \<Rightarrow> invalidate ''UDisks Filesystem lacks MountPoints telemetry'' ob
      | Some paths \<Rightarrow>
          (case scan_mount_points paths 0 ob of
             (ob, None) \<Rightarrow> ob
           | (ob, Some n) \<Rightarrow>
               if n > 1 then invalidate ''Scratch filesystem has multiple mount points'' ob
               else ob\<lparr>po_scratch := (po_scratch ob)\<lparr>vm_mounted :=
                 (n = 1 \<and> text_is_present (vm_mount_path (po_scratch ob)))\<rparr>\<rparr>))"

definition populate_swap_volume ::
    "string \<Rightarrow> u64 \<Rightarrow> string \<Rightarrow> string \<Rightarrow> string \<Rightarrow> string \<Rightarrow> bool option option
      \<Rightarrow> ssd_observation \<Rightarrow> ssd_observation" where
  "populate_swap_volume object_path extent label uuid drive device swapspace ob =
     (if vs_present (po_swap ob) then ob\<lparr>po_ambiguous_labels := True\<rparr>
      else
        let swap = (po_swap ob)\<lparr>vs_present := True, vs_size_bytes := extent, vs_label := label,
              vs_uuid := uuid, vs_drive_identity := drive, vs_object_path := object_path,
              vs_device := device, vs_interface_available := (swapspace \<noteq> None)\<rparr>
        in case swapspace of
          None \<Rightarrow> ob\<lparr>po_swap := swap\<rparr>
        | Some None \<Rightarrow> invalidate ''UDisks Swapspace lacks exact boolean Active telemetry'' (ob\<lparr>po_swap := swap\<rparr>)
        | Some (Some active) \<Rightarrow>
            ob\<lparr>po_swap := swap\<lparr>vs_active_known := True, vs_active := active\<rparr>\<rparr>)"

definition populate_scratch_volume ::
    "string \<Rightarrow> u64 \<Rightarrow> string \<Rightarrow> string \<Rightarrow> string \<Rightarrow> string \<Rightarrow> string list option option
      \<Rightarrow> ssd_observation \<Rightarrow> ssd_observation" where
  "populate_scratch_volume object_path extent label uuid drive device filesystem ob =
     (if vm_present (po_scratch ob) then ob\<lparr>po_ambiguous_labels := True\<rparr>
      else
        let ob = ob\<lparr>po_scratch := (po_scratch ob)\<lparr>vm_present := True, vm_size_bytes := extent,
              vm_label := label, vm_uuid := uuid, vm_drive_identity := drive,
              vm_object_path := object_path, vm_device := device,
              vm_interface_available := (filesystem \<noteq> None)\<rparr>\<rparr>
        in case filesystem of None \<Rightarrow> ob | Some mounts \<Rightarrow> copy_mount_points mounts ob)"

definition populate_volume_from_block ::
    "string \<Rightarrow> udisks_block \<Rightarrow> bool \<Rightarrow> ssd_observation \<Rightarrow> ssd_observation" where
  "populate_volume_from_block object_path block is_swap ob =
     (case copy_variant_string (ub_label block) SSD_TEXT_CAPACITY of
        None \<Rightarrow> ob
      | Some label \<Rightarrow>
          if (is_swap \<and> label \<noteq> SSD_SWAP_LABEL) \<or> (\<not> is_swap \<and> label \<noteq> SSD_SCRATCH_LABEL) then ob
          else
            (case (ub_size block, copy_variant_string (ub_uuid block) SSD_TEXT_CAPACITY,
                   copy_variant_string (ub_drive block) SSD_IDENTITY_CAPACITY,
                   copy_variant_bytestring (ub_device block) SSD_PATH_CAPACITY) of
               (Some extent, Some uuid, Some drive, Some device) \<Rightarrow>
                 if length object_path \<ge> SSD_OBJECT_PATH_CAPACITY
                 then invalidate ''Reserved UDisks Block properties are missing or overlong'' ob
                 else if is_swap
                 then populate_swap_volume object_path extent label uuid drive device (ub_swapspace block) ob
                 else populate_scratch_volume object_path extent label uuid drive device (ub_filesystem block) ob
             | _ \<Rightarrow> invalidate ''Reserved UDisks Block properties are missing or overlong'' ob))"

definition populate_drive_properties ::
    "(string \<Rightarrow> udisks_drive option) \<Rightarrow> string \<Rightarrow> ssd_observation \<Rightarrow> ssd_observation \<times> bool" where
  "populate_drive_properties drives drive_identity ob =
     (case drives drive_identity of
        None \<Rightarrow> (ob, False)
      | Some drive \<Rightarrow>
          let unit_ready = (case ud_media_available drive of None \<Rightarrow> False | Some available \<Rightarrow> available);
              ob = (case copy_variant_string (ud_model drive) SSD_TEXT_CAPACITY of
                  Some model \<Rightarrow> if \<not> po_model_known ob
                    then ob\<lparr>po_model := model, po_model_known := text_is_present model\<rparr> else ob
                | None \<Rightarrow> ob);
              ob = (case copy_variant_string (ud_serial drive) SSD_TEXT_CAPACITY of
                  Some serial \<Rightarrow> if \<not> po_serial_known ob
                    then ob\<lparr>po_serial := serial, po_serial_known := text_is_present serial\<rparr> else ob
                | None \<Rightarrow> ob)
          in (ob, unit_ready))"

text \<open>The objects in the order of the reply; an object without a Block interface is skipped.\<close>

fun scan_objects ::
    "(string \<times> udisks_block option) list \<Rightarrow> nat \<Rightarrow> ssd_observation \<Rightarrow> ssd_observation option" where
  "scan_objects [] n ob = Some ob"
| "scan_objects ((path, block) # objects) n ob =
     (let n = n + 1 in
      if n > SSD_MAX_UDISKS_OBJECTS then None
      else scan_objects objects n
        (case block of
           None \<Rightarrow> ob
         | Some b \<Rightarrow> populate_volume_from_block path b False (populate_volume_from_block path b True ob)))"

definition check_swap_drive :: "(string \<Rightarrow> udisks_drive option) \<Rightarrow> ssd_observation \<Rightarrow> ssd_observation" where
  "check_swap_drive drives ob =
     (if vs_present (po_swap ob)
      then let (ob, ready) = populate_drive_properties drives (vs_drive_identity (po_swap ob)) ob
           in ob\<lparr>po_swap := (po_swap ob)\<lparr>vs_unit_ready := ready\<rparr>\<rparr>
      else ob)"

definition check_scratch_drive :: "(string \<Rightarrow> udisks_drive option) \<Rightarrow> ssd_observation \<Rightarrow> ssd_observation" where
  "check_scratch_drive drives ob =
     (if vm_present (po_scratch ob)
      then let (ob, ready) = populate_drive_properties drives (vm_drive_identity (po_scratch ob)) ob
           in ob\<lparr>po_scratch := (po_scratch ob)\<lparr>vm_unit_ready := ready\<rparr>\<rparr>
      else ob)"

definition parse_managed_objects ::
    "(string \<times> udisks_block option) list \<Rightarrow> (string \<Rightarrow> udisks_drive option) \<Rightarrow> ssd_observation
      \<Rightarrow> string + ssd_observation" where
  "parse_managed_objects objects drives ob =
     (case scan_objects objects 0 ob of
        None \<Rightarrow> Inl ''UDisks object count exceeds the controller bound''
      | Some ob \<Rightarrow> Inr (check_scratch_drive drives (check_swap_drive drives ob)))"

section \<open>The kernel's telemetry\<close>

text \<open>
  The rows of the kernel's swap table that scan (device, total and used KiB), or \<^const>\<open>None\<close>
  when the table cannot be read.
\<close>

definition KIB_LIMIT :: nat where "KIB_LIMIT = unat UINT64_MAX div 1024"

definition swap_row :: "nat \<Rightarrow> nat \<Rightarrow> ssd_swap \<Rightarrow> ssd_swap" where
  "swap_row total_kib used_kib swap =
     (let swap = swap\<lparr>vs_active := True\<rparr> in
      if total_kib \<le> KIB_LIMIT \<and> used_kib \<le> KIB_LIMIT
      then swap\<lparr>vs_total_known := True, vs_total_bytes := of_nat total_kib * 1024,
                vs_used_known := True, vs_used_bytes := of_nat used_kib * 1024\<rparr>
      else swap)"

definition swap_unused :: "ssd_swap \<Rightarrow> ssd_swap" where
  "swap_unused swap =
     (if \<not> vs_active swap then swap\<lparr>vs_used_known := True, vs_used_bytes := 0\<rparr> else swap)"

fun scan_swap_table :: "(string \<times> nat \<times> nat) list \<Rightarrow> ssd_swap \<Rightarrow> ssd_swap" where
  "scan_swap_table [] swap = swap_unused swap"
| "scan_swap_table ((device, total_kib, used_kib) # rows) swap =
     (if device \<noteq> vs_device swap then scan_swap_table rows swap else swap_row total_kib used_kib swap)"

definition populate_swap_usage ::
    "(string \<times> nat \<times> nat) list option \<Rightarrow> ssd_observation \<Rightarrow> ssd_observation" where
  "populate_swap_usage table ob =
     (if \<not> vs_present (po_swap ob) then ob
      else ob\<lparr>po_swap := (case table of
          None \<Rightarrow> swap_unused (po_swap ob)
        | Some rows \<Rightarrow> scan_swap_table rows (po_swap ob))\<rparr>)"

text \<open>The baseline of the paging counters; a sample is the counters and the clock.\<close>

record vmstat_baseline =
  vb_have_vmstat_baseline :: bool
  vb_previous_pages_in :: u64
  vb_previous_pages_out :: u64
  vb_previous_vmstat_ns :: u64

definition sample_swap_activity ::
    "u64 \<Rightarrow> u64 \<Rightarrow> u64 \<Rightarrow> vmstat_baseline \<Rightarrow> ssd_observation \<Rightarrow> vmstat_baseline \<times> ssd_observation" where
  "sample_swap_activity pages_in pages_out now_ns b ob =
     (let next = \<lparr>vb_have_vmstat_baseline = True, vb_previous_pages_in = pages_in,
            vb_previous_pages_out = pages_out, vb_previous_vmstat_ns = now_ns\<rparr>
      in
      if \<not> vb_have_vmstat_baseline b \<or> now_ns < vb_previous_vmstat_ns b
        \<or> pages_in < vb_previous_pages_in b \<or> pages_out < vb_previous_pages_out b
      then (next, ob)
      else if now_ns - vb_previous_vmstat_ns b \<ge> SSD_DEFAULT_POLL_INTERVAL_NS
      then (next,
        ob\<lparr>po_swap_activity_known := True,
           po_swap_pages_in_delta := pages_in - vb_previous_pages_in b,
           po_swap_pages_out_delta := pages_out - vb_previous_pages_out b\<rparr>)
      else (b, ob))"

end
