(* ===== verification/Provider_Theorems.thy ===== *)
theory Provider_Theorems
  imports Ssd_Provider External_Storage Ssd_Theorems
begin

text \<open>
  What the production provider guarantees of a valid observation, and how the Governor receives
  the snapshot of an inactive device.
\<close>

section \<open>One object per reserved label\<close>

definition labelled :: "string \<Rightarrow> string \<times> udisks_block option \<Rightarrow> bool" where
  "labelled l obj \<longleftrightarrow> (case snd obj of None \<Rightarrow> False | Some b \<Rightarrow> ub_label b = Some l)"

definition swap_from :: "string \<Rightarrow> udisks_block \<Rightarrow> ssd_swap \<Rightarrow> bool" where
  "swap_from path b v \<longleftrightarrow> vs_present v \<and> vs_object_path v = path \<and> ub_uuid b = Some (vs_uuid v)
     \<and> ub_drive b = Some (vs_drive_identity v)
     \<and> (vs_interface_available v \<longrightarrow> ub_swapspace b = Some (Some (vs_active v)))"

definition scratch_from :: "string \<Rightarrow> udisks_block \<Rightarrow> ssd_scratch \<Rightarrow> bool" where
  "scratch_from path b v \<longleftrightarrow> vm_present v \<and> vm_object_path v = path \<and> ub_uuid b = Some (vm_uuid v)
     \<and> ub_drive b = Some (vm_drive_identity v)"

definition tainted :: "ssd_observation \<Rightarrow> bool" where
  "tainted ob \<longleftrightarrow> po_invalid_observation ob \<or> po_ambiguous_labels ob"

lemma reserved_labels:
  "copy_variant_string (Some SSD_SWAP_LABEL) SSD_TEXT_CAPACITY = Some SSD_SWAP_LABEL"
  "copy_variant_string (Some SSD_SCRATCH_LABEL) SSD_TEXT_CAPACITY = Some SSD_SCRATCH_LABEL"
  "SSD_SWAP_LABEL \<noteq> SSD_SCRATCH_LABEL"
  by (simp_all add: copy_variant_string_def SSD_SWAP_LABEL_def SSD_SCRATCH_LABEL_def SSD_TEXT_CAPACITY_def)

lemma copy_variant_string_Some: "copy_variant_string v n = Some t \<Longrightarrow> v = Some t"
  by (auto simp: copy_variant_string_def split: option.splits if_splits)

lemma other_label:
  assumes "ub_label b \<noteq> Some (if is_swap then SSD_SWAP_LABEL else SSD_SCRATCH_LABEL)"
  shows "populate_volume_from_block path b is_swap ob = ob"
proof (cases "copy_variant_string (ub_label b) SSD_TEXT_CAPACITY")
  case (Some l)
  then show ?thesis
    using assms copy_variant_string_Some [OF Some]
    by (cases is_swap) (simp_all add: populate_volume_from_block_def)
qed (simp add: populate_volume_from_block_def)

lemma mount_scan_scratch:
  "scan_mount_points paths n ob = (ob', r) \<Longrightarrow>
    po_swap ob' = po_swap ob \<and> po_ambiguous_labels ob' = po_ambiguous_labels ob
    \<and> (po_invalid_observation ob \<longrightarrow> po_invalid_observation ob')
    \<and> vm_present (po_scratch ob') = vm_present (po_scratch ob)
    \<and> vm_object_path (po_scratch ob') = vm_object_path (po_scratch ob)
    \<and> vm_uuid (po_scratch ob') = vm_uuid (po_scratch ob)
    \<and> vm_drive_identity (po_scratch ob') = vm_drive_identity (po_scratch ob)"
proof (induction paths arbitrary: n ob)
  case (Cons p ps)
  show ?case
  proof (cases "n + 1 > SSD_MAX_MOUNT_POINTS \<or> \<not> terminated_bytes p SSD_PATH_CAPACITY")
    case True
    then show ?thesis using Cons.prems by (auto simp: invalidate_def Let_def)
  next
    case False
    then have "scan_mount_points ps (n + 1)
        (if n + 1 = 1 then ob\<lparr>po_scratch := (po_scratch ob)\<lparr>vm_mount_path := butlast p\<rparr>\<rparr> else ob) = (ob', r)"
      using Cons.prems by (simp add: Let_def)
    from Cons.IH [OF this] show ?thesis by (cases "n = 0") simp_all
  qed
qed simp

lemma copy_mounts:
  "po_swap (copy_mount_points m ob) = po_swap ob
    \<and> po_ambiguous_labels (copy_mount_points m ob) = po_ambiguous_labels ob
    \<and> (po_invalid_observation ob \<longrightarrow> po_invalid_observation (copy_mount_points m ob))
    \<and> vm_present (po_scratch (copy_mount_points m ob)) = vm_present (po_scratch ob)
    \<and> vm_object_path (po_scratch (copy_mount_points m ob)) = vm_object_path (po_scratch ob)
    \<and> vm_uuid (po_scratch (copy_mount_points m ob)) = vm_uuid (po_scratch ob)
    \<and> vm_drive_identity (po_scratch (copy_mount_points m ob)) = vm_drive_identity (po_scratch ob)"
proof (cases m)
  case None
  then show ?thesis by (simp add: copy_mount_points_def invalidate_def)
next
  case (Some paths)
  obtain e r where s: "scan_mount_points paths 0 ob = (e, r)" by (cases "scan_mount_points paths 0 ob")
  from mount_scan_scratch [OF s] show ?thesis
    by (cases r) (simp_all add: Some s copy_mount_points_def invalidate_def)
qed

lemma reserved_volume:
  assumes "ub_label b = Some (if is_swap then SSD_SWAP_LABEL else SSD_SCRATCH_LABEL)"
  shows "populate_volume_from_block path b is_swap ob
      = invalidate ''Reserved UDisks Block properties are missing or overlong'' ob
    \<or> (\<exists>extent uuid drive device. ub_uuid b = Some uuid \<and> ub_drive b = Some drive
      \<and> populate_volume_from_block path b is_swap ob =
        (if is_swap
         then populate_swap_volume path extent SSD_SWAP_LABEL uuid drive device (ub_swapspace b) ob
         else populate_scratch_volume path extent SSD_SCRATCH_LABEL uuid drive device (ub_filesystem b) ob))"
proof -
  let ?uuid = "copy_variant_string (ub_uuid b) SSD_TEXT_CAPACITY"
    and ?drive = "copy_variant_string (ub_drive b) SSD_IDENTITY_CAPACITY"
    and ?device = "copy_variant_bytestring (ub_device b) SSD_PATH_CAPACITY"
  have label: "copy_variant_string (ub_label b) SSD_TEXT_CAPACITY
      = Some (if is_swap then SSD_SWAP_LABEL else SSD_SCRATCH_LABEL)"
    using assms reserved_labels by simp
  show ?thesis
  proof (cases "ub_size b = None \<or> ?uuid = None \<or> ?drive = None \<or> ?device = None
      \<or> length path \<ge> SSD_OBJECT_PATH_CAPACITY")
    case True
    then show ?thesis
      by (intro disjI1) (auto simp: populate_volume_from_block_def label split: option.split)
  next
    case False
    then obtain extent uuid drive device where "ub_size b = Some extent" "?uuid = Some uuid"
        "?drive = Some drive" "?device = Some device"
      by (auto simp: not_None_eq)
    with False show ?thesis
      using copy_variant_string_Some [of "ub_uuid b"] copy_variant_string_Some [of "ub_drive b"]
      by (intro disjI2 exI [of _ extent] exI [of _ uuid] exI [of _ drive] exI [of _ device])
        (simp add: populate_volume_from_block_def label)
  qed
qed

lemma swap_volume:
  assumes "ub_label b = Some SSD_SWAP_LABEL"
  shows "tainted (populate_volume_from_block path b True ob)
    \<or> \<not> vs_present (po_swap ob) \<and> swap_from path b (po_swap (populate_volume_from_block path b True ob))
      \<and> po_scratch (populate_volume_from_block path b True ob) = po_scratch ob"
proof -
  have new: "tainted (populate_swap_volume path extent label uuid drive device (ub_swapspace b) ob)
      \<or> \<not> vs_present (po_swap ob)
        \<and> swap_from path b (po_swap (populate_swap_volume path extent label uuid drive device (ub_swapspace b) ob))
        \<and> po_scratch (populate_swap_volume path extent label uuid drive device (ub_swapspace b) ob) = po_scratch ob"
    if "ub_uuid b = Some uuid" "ub_drive b = Some drive" for extent label uuid drive device
    using that
    by (cases "vs_present (po_swap ob)"; cases "ub_swapspace b"; cases "the (ub_swapspace b)")
      (simp_all add: populate_swap_volume_def tainted_def swap_from_def invalidate_def Let_def)
  show ?thesis
  proof (cases "populate_volume_from_block path b True ob
      = invalidate ''Reserved UDisks Block properties are missing or overlong'' ob")
    case True
    then show ?thesis by (simp add: tainted_def invalidate_def)
  next
    case False
    then obtain extent uuid drive device where u: "ub_uuid b = Some uuid" "ub_drive b = Some drive"
      and eq: "populate_volume_from_block path b True ob
        = populate_swap_volume path extent SSD_SWAP_LABEL uuid drive device (ub_swapspace b) ob"
      using reserved_volume [of b True path ob] assms by auto
    from new [OF u] show ?thesis by (simp only: eq)
  qed
qed

lemma scratch_volume:
  assumes "ub_label b = Some SSD_SCRATCH_LABEL"
  shows "tainted (populate_volume_from_block path b False ob)
    \<or> \<not> vm_present (po_scratch ob) \<and> scratch_from path b (po_scratch (populate_volume_from_block path b False ob))
      \<and> po_swap (populate_volume_from_block path b False ob) = po_swap ob"
proof -
  have new: "tainted (populate_scratch_volume path extent label uuid drive device (ub_filesystem b) ob)
      \<or> \<not> vm_present (po_scratch ob)
        \<and> scratch_from path b (po_scratch (populate_scratch_volume path extent label uuid drive device (ub_filesystem b) ob))
        \<and> po_swap (populate_scratch_volume path extent label uuid drive device (ub_filesystem b) ob) = po_swap ob"
    if "ub_uuid b = Some uuid" "ub_drive b = Some drive" for extent label uuid drive device
    using that
    by (cases "vm_present (po_scratch ob)"; cases "ub_filesystem b")
      (simp_all add: populate_scratch_volume_def tainted_def scratch_from_def copy_mounts Let_def)
  show ?thesis
  proof (cases "populate_volume_from_block path b False ob
      = invalidate ''Reserved UDisks Block properties are missing or overlong'' ob")
    case True
    then show ?thesis by (simp add: tainted_def invalidate_def)
  next
    case False
    then obtain extent uuid drive device where u: "ub_uuid b = Some uuid" "ub_drive b = Some drive"
      and eq: "populate_volume_from_block path b False ob
        = populate_scratch_volume path extent SSD_SCRATCH_LABEL uuid drive device (ub_filesystem b) ob"
      using reserved_volume [of b False path ob] assms by auto
    from new [OF u] show ?thesis by (simp only: eq)
  qed
qed

lemma tainted_stays:
  assumes "tainted ob"
  shows "tainted (populate_volume_from_block path b is_swap ob)"
proof (cases "ub_label b = Some (if is_swap then SSD_SWAP_LABEL else SSD_SCRATCH_LABEL)")
  case False
  then show ?thesis using assms other_label by simp
next
  case True
  have swap: "tainted (populate_swap_volume path extent label uuid drive device s ob)"
    for extent label uuid drive device s
    using assms
    by (cases "vs_present (po_swap ob)"; cases s; cases "the s")
      (auto simp: populate_swap_volume_def tainted_def invalidate_def Let_def)
  have scratch: "tainted (populate_scratch_volume path extent label uuid drive device f ob)"
    for extent label uuid drive device f
  proof (cases "vm_present (po_scratch ob)")
    case True
    then show ?thesis by (simp add: populate_scratch_volume_def tainted_def)
  next
    case False
    let ?ob = "ob\<lparr>po_scratch := (po_scratch ob)\<lparr>vm_present := True, vm_size_bytes := extent,
              vm_label := label, vm_uuid := uuid, vm_drive_identity := drive,
              vm_object_path := path, vm_device := device,
              vm_interface_available := (f \<noteq> None)\<rparr>\<rparr>"
    have "populate_scratch_volume path extent label uuid drive device f ob
        = (case f of None \<Rightarrow> ?ob | Some m \<Rightarrow> copy_mount_points m ?ob)"
      using False by (cases f) (simp_all add: populate_scratch_volume_def Let_def)
    then show ?thesis
      using assms copy_mounts [of "the f" ?ob] by (cases f) (auto simp: tainted_def)
  qed
  from reserved_volume [OF True, of path ob] show ?thesis
  proof (elim disjE exE conjE)
    assume "populate_volume_from_block path b is_swap ob
      = invalidate ''Reserved UDisks Block properties are missing or overlong'' ob"
    then show ?thesis by (simp add: tainted_def invalidate_def)
  next
    fix extent uuid drive device
    assume eq: "populate_volume_from_block path b is_swap ob =
        (if is_swap
         then populate_swap_volume path extent SSD_SWAP_LABEL uuid drive device (ub_swapspace b) ob
         else populate_scratch_volume path extent SSD_SCRATCH_LABEL uuid drive device (ub_filesystem b) ob)"
    show ?thesis unfolding eq using swap scratch by simp
  qed
qed

text \<open>The scan: until the observation is tainted, each volume comes from the one object labelled for it.\<close>

definition swap_seen :: "(string \<times> udisks_block option) list \<Rightarrow> ssd_swap \<Rightarrow> bool" where
  "swap_seen objects v \<longleftrightarrow> 
     filter (labelled SSD_SWAP_LABEL) objects = [] \<and> \<not> vs_present v
     \<or> (\<exists>path b. filter (labelled SSD_SWAP_LABEL) objects = [(path, Some b)] \<and> swap_from path b v)"

definition scratch_seen :: "(string \<times> udisks_block option) list \<Rightarrow> ssd_scratch \<Rightarrow> bool" where
  "scratch_seen objects v \<longleftrightarrow> 
     filter (labelled SSD_SCRATCH_LABEL) objects = [] \<and> \<not> vm_present v
     \<or> (\<exists>path b. filter (labelled SSD_SCRATCH_LABEL) objects = [(path, Some b)] \<and> scratch_from path b v)"

definition pair_seen :: "(string \<times> udisks_block option) list \<Rightarrow> ssd_observation \<Rightarrow> bool" where
  "pair_seen objects ob \<longleftrightarrow>
     tainted ob \<or> swap_seen objects (po_swap ob) \<and> scratch_seen objects (po_scratch ob)"

lemma swap_seen_present: "swap_seen objects v \<Longrightarrow> \<not> vs_present v \<Longrightarrow> filter (labelled SSD_SWAP_LABEL) objects = []"
  by (auto simp: swap_seen_def swap_from_def)

lemma scratch_seen_present:
  "scratch_seen objects v \<Longrightarrow> \<not> vm_present v \<Longrightarrow> filter (labelled SSD_SCRATCH_LABEL) objects = []"
  by (auto simp: scratch_seen_def scratch_from_def)

lemma pair_seen_step:
  assumes "pair_seen objects ob"
  shows "pair_seen (objects @ [(path, Some b)])
    (populate_volume_from_block path b False (populate_volume_from_block path b True ob))"
proof (cases "tainted ob")
  case True
  then show ?thesis by (simp add: pair_seen_def tainted_stays)
next
  case clean: False
  then have seen: "swap_seen objects (po_swap ob)" "scratch_seen objects (po_scratch ob)"
    using assms by (simp_all add: pair_seen_def)
  let ?l = "ub_label b" and ?p = "populate_volume_from_block path b"
  consider "?l = Some SSD_SWAP_LABEL" | "?l = Some SSD_SCRATCH_LABEL"
    | "?l \<noteq> Some SSD_SWAP_LABEL" "?l \<noteq> Some SSD_SCRATCH_LABEL" by blast
  then show ?thesis
  proof cases
    case 1
    then have "?p False (?p True ob) = ?p True ob" using reserved_labels(3) by (intro other_label) simp
    then show ?thesis
      using swap_volume [OF 1, of path ob] swap_seen_present [OF seen(1)] seen(2) 1 reserved_labels(3)
      by (auto simp: pair_seen_def swap_seen_def scratch_seen_def labelled_def)
  next
    case 2
    then have "?p True ob = ob" using reserved_labels(3) by (intro other_label) simp
    then show ?thesis
      using scratch_volume [OF 2, of path ob] scratch_seen_present [OF seen(2)] seen(1) 2 reserved_labels(3)
      by (auto simp: pair_seen_def swap_seen_def scratch_seen_def labelled_def)
  next
    case 3
    then have "?p False (?p True ob) = ob" using other_label [of b] by simp
    then show ?thesis using 3 seen by (simp add: pair_seen_def swap_seen_def scratch_seen_def labelled_def)
  qed
qed

lemma scan_objects_seen:
  "scan_objects objects n ob = Some ob' \<Longrightarrow> pair_seen seen ob \<Longrightarrow> pair_seen (seen @ objects) ob'"
proof (induction objects arbitrary: n ob seen)
  case (Cons obj objects)
  obtain path block where obj: "obj = (path, block)" by (cases obj)
  let ?next = "case block of None \<Rightarrow> ob
    | Some b \<Rightarrow> populate_volume_from_block path b False (populate_volume_from_block path b True ob)"
  have "scan_objects objects (n + 1) ?next = Some ob'"
    using Cons.prems(1) by (simp add: obj Let_def split: if_splits)
  moreover have "pair_seen (seen @ [obj]) ?next"
    using Cons.prems(2) pair_seen_step
    by (cases block) (simp_all add: obj pair_seen_def swap_seen_def scratch_seen_def labelled_def)
  ultimately show ?case using Cons.IH by fastforce
qed simp

lemma drive_properties:
  "populate_drive_properties drives identity ob = (ob', ready) \<Longrightarrow>
    po_swap ob' = po_swap ob \<and> po_scratch ob' = po_scratch ob \<and> tainted ob' = tainted ob
    \<and> (ready \<longrightarrow> (\<exists>d. drives identity = Some d \<and> ud_media_available d = Some True))"
  by (cases "drives identity"; cases "copy_variant_string (ud_model (the (drives identity))) SSD_TEXT_CAPACITY";
      cases "copy_variant_string (ud_serial (the (drives identity))) SSD_TEXT_CAPACITY")
    (auto simp: populate_drive_properties_def tainted_def Let_def split: option.splits if_splits)

lemma scan_objects_bound: "scan_objects objects n ob = Some ob' \<Longrightarrow> n + length objects \<le> max n SSD_MAX_UDISKS_OBJECTS"
  by (induction objects arbitrary: n ob) (force simp: Let_def split: if_splits)+

lemma parse_managed_seen:
  assumes "parse_managed_objects objects drives zero_observation = Inr ob" "\<not> tainted ob"
  shows "swap_seen objects (po_swap ob) \<and> scratch_seen objects (po_scratch ob)
    \<and> length objects \<le> SSD_MAX_UDISKS_OBJECTS
    \<and> (vs_present (po_swap ob) \<and> vs_unit_ready (po_swap ob) \<longrightarrow>
      (\<exists>d. drives (vs_drive_identity (po_swap ob)) = Some d \<and> ud_media_available d = Some True))"
proof -
  obtain a where a: "scan_objects objects 0 zero_observation = Some a"
    using assms(1) by (cases "scan_objects objects 0 zero_observation") (auto simp: parse_managed_objects_def)
  define b where "b = check_swap_drive drives a"
  have ob: "ob = check_scratch_drive drives b"
    using assms(1) by (simp add: parse_managed_objects_def a b_def)
  have frame: "swap_seen objects (v\<lparr>vs_unit_ready := r\<rparr>) = swap_seen objects v"
    "scratch_seen objects (u\<lparr>vm_unit_ready := r\<rparr>) = scratch_seen objects u" for v u r
    by (simp_all add: swap_seen_def scratch_seen_def swap_from_def scratch_from_def)
  have b: "tainted b = tainted a \<and> swap_seen objects (po_swap b) = swap_seen objects (po_swap a)
      \<and> po_scratch b = po_scratch a
      \<and> (vs_present (po_swap b) \<and> vs_unit_ready (po_swap b) \<longrightarrow>
        (\<exists>d. drives (vs_drive_identity (po_swap b)) = Some d \<and> ud_media_available d = Some True))"
  proof (cases "vs_present (po_swap a)")
    case True
    obtain e r where e: "populate_drive_properties drives (vs_drive_identity (po_swap a)) a = (e, r)"
      by (cases "populate_drive_properties drives (vs_drive_identity (po_swap a)) a")
    from drive_properties [OF e] True show ?thesis
      by (simp add: b_def check_swap_drive_def e frame) (simp add: tainted_def)
  next
    case False
    then show ?thesis by (simp add: b_def check_swap_drive_def)
  qed
  have c: "tainted ob = tainted b \<and> po_swap ob = po_swap b
      \<and> scratch_seen objects (po_scratch ob) = scratch_seen objects (po_scratch b)"
  proof (cases "vm_present (po_scratch b)")
    case True
    obtain e r where e: "populate_drive_properties drives (vm_drive_identity (po_scratch b)) b = (e, r)"
      by (cases "populate_drive_properties drives (vm_drive_identity (po_scratch b)) b")
    from drive_properties [OF e] True show ?thesis
      by (simp add: ob check_scratch_drive_def e frame) (simp add: tainted_def)
  next
    case False
    then show ?thesis by (simp add: ob check_scratch_drive_def)
  qed
  have "pair_seen [] zero_observation"
    by (simp add: pair_seen_def swap_seen_def scratch_seen_def zero_observation_def zero_swap_def zero_scratch_def)
  from scan_objects_seen [OF a this] have "pair_seen objects a" by simp
  then show ?thesis
    using assms(2) b c scan_objects_bound [OF a] by (simp add: pair_seen_def)
qed

section \<open>Properties\<close>

text \<open>
  A valid pair is unique and real: when the managed objects of one UDisks reply parse to a
  valid observation, exactly one object carries the swap label and exactly one the scratch label,
  the observed paths, UUIDs and drive are theirs, both name the same drive, whose medium is
  reported available, and swap activity is that object's own Active property; duplicates,
  missing properties and foreign objects never yield authority.
\<close>

theorem valid_pair_is_unique:
  assumes "parse_managed_objects objects drives zero_observation = Inr ob"
    and "observation_status ob = OBSERVATION_VALID"
  shows "\<exists>p a q b. filter (labelled SSD_SWAP_LABEL) objects = [(p, Some a)]
    \<and> filter (labelled SSD_SCRATCH_LABEL) objects = [(q, Some b)]
    \<and> vs_object_path (po_swap ob) = p \<and> vm_object_path (po_scratch ob) = q
    \<and> ub_uuid a = Some (vs_uuid (po_swap ob)) \<and> ub_uuid b = Some (vm_uuid (po_scratch ob))
    \<and> ub_drive a = Some (vs_drive_identity (po_swap ob)) \<and> ub_drive b = ub_drive a
    \<and> ub_swapspace a = Some (Some (vs_active (po_swap ob)))
    \<and> Option.bind (drives (vs_drive_identity (po_swap ob))) ud_media_available = Some True"
proof -
  have v: "\<not> tainted ob" "vs_present (po_swap ob)" "vm_present (po_scratch ob)"
    "vs_drive_identity (po_swap ob) = vm_drive_identity (po_scratch ob)"
    "vs_unit_ready (po_swap ob)" "vs_interface_available (po_swap ob)"
    using assms(2) by (auto simp: observation_status_def validate_observation_def tainted_def Let_def
      split: if_splits)
  note seen = parse_managed_seen [OF assms(1) v(1)]
  obtain p a where "filter (labelled SSD_SWAP_LABEL) objects = [(p, Some a)]" "swap_from p a (po_swap ob)"
    using seen v(2) by (auto simp: swap_seen_def)
  moreover obtain q b where "filter (labelled SSD_SCRATCH_LABEL) objects = [(q, Some b)]"
      "scratch_from q b (po_scratch ob)"
    using seen v(3) by (auto simp: scratch_seen_def)
  ultimately show ?thesis
    using seen v by (auto simp: swap_from_def scratch_from_def)
qed

definition sample_objects :: "(string \<times> udisks_block option) list" where
  "sample_objects =
     [(''/o/root'', None),
      (''/o/swap'', Some \<lparr>ub_label = Some SSD_SWAP_LABEL, ub_size = Some 4096, ub_uuid = Some ''u1'',
         ub_drive = Some ''/d1'', ub_device = Some (''/dev/s1'' @ [NUL]), ub_swapspace = Some (Some False),
         ub_filesystem = None\<rparr>),
      (''/o/scratch'', Some \<lparr>ub_label = Some SSD_SCRATCH_LABEL, ub_size = Some 4096,
         ub_uuid = Some ''u2'', ub_drive = Some ''/d1'', ub_device = Some (''/dev/s2'' @ [NUL]),
         ub_swapspace = None, ub_filesystem = Some (Some [])\<rparr>)]"

definition sample_drives :: "string \<Rightarrow> udisks_drive option" where
  "sample_drives d = (if d = ''/d1'' then Some \<lparr>ud_media_available = Some True, ud_model = Some ''M'',
     ud_serial = None\<rparr> else None)"

lemma sample_parse:
  "(case parse_managed_objects sample_objects sample_drives zero_observation of
      Inl r \<Rightarrow> None | Inr ob \<Rightarrow> Some (observation_status ob, vs_object_path (po_swap ob), vs_device (po_swap ob),
        vs_total_known (po_swap ob), vs_active (po_swap ob), vs_present (po_swap ob)))
    = Some (OBSERVATION_VALID, ''/o/swap'', ''/dev/s1'', False, False, True)"
  by code_simp

theorem valid_pair_is_unique_witness:
  "\<exists>ob b. parse_managed_objects sample_objects sample_drives zero_observation = Inr ob
    \<and> filter (labelled SSD_SWAP_LABEL) sample_objects = [(''/o/swap'', Some b)]
    \<and> ub_uuid b = Some (vs_uuid (po_swap ob))"
proof -
  obtain ob where ob: "parse_managed_objects sample_objects sample_drives zero_observation = Inr ob"
      "observation_status ob = OBSERVATION_VALID" "vs_object_path (po_swap ob) = ''/o/swap''"
    using sample_parse by (auto split: sum.splits)
  from valid_pair_is_unique [OF ob(1,2)] ob show ?thesis by auto
qed

lemma populate_volume_total:
  "vs_total_known (po_swap (populate_volume_from_block path b is_swap ob)) = vs_total_known (po_swap ob)"
  by (simp add: populate_volume_from_block_def populate_swap_volume_def populate_scratch_volume_def
    copy_mounts invalidate_def Let_def split: option.split)

lemma scan_objects_total:
  "scan_objects objects n ob = Some ob' \<Longrightarrow> vs_total_known (po_swap ob') = vs_total_known (po_swap ob)"
proof (induction objects arbitrary: n ob)
  case (Cons obj objects)
  obtain path block where "obj = (path, block)" by (cases obj)
  with Cons show ?case
    by (cases block) (fastforce simp: Let_def populate_volume_total split: if_splits)+
qed simp

lemma parse_managed_total:
  assumes "parse_managed_objects objects drives zero_observation = Inr ob"
  shows "\<not> vs_total_known (po_swap ob)"
proof -
  obtain a where a: "scan_objects objects 0 zero_observation = Some a"
      and ob: "ob = check_scratch_drive drives (check_swap_drive drives a)"
    using assms by (auto simp: parse_managed_objects_def split: option.splits)
  have drive: "po_swap e = po_swap d" if "populate_drive_properties drives i d = (e, r)" for i d e r
    using drive_properties [OF that] by blast
  have "vs_total_known (po_swap (check_swap_drive drives d)) = vs_total_known (po_swap d)"
    "po_swap (check_scratch_drive drives d) = po_swap d" for d
    using drive by (auto simp: check_swap_drive_def check_scratch_drive_def split: prod.split)
  then show ?thesis
    using scan_objects_total [OF a] by (simp add: ob zero_observation_def zero_swap_def)
qed

lemma inactive_swap_usage:
  "\<not> vs_active (scan_swap_table rows v) \<Longrightarrow>
    vs_used_known (scan_swap_table rows v) \<and> vs_total_known (scan_swap_table rows v) = vs_total_known v"
  by (induction rows v rule: scan_swap_table.induct)
    (auto simp: swap_unused_def swap_row_def Let_def split: if_splits)

text \<open>
  C28. The Governor refuses a production device whose swap is off: whenever the latest
  observation of a reachable controller is one the production provider makes of a present but
  inactive swap volume, and no hazard withholds it, the usage is reported known without a total,
  so the controller's snapshot (DETECTED or SAFE_TO_UNPLUG included) never converts to external
  storage state: it can be neither registered nor updated.
\<close>

theorem inactive_swap_is_refused:
  assumes "ssd_run ops c" and "\<not> withheld c"
    and "parse_managed_objects objects drives zero_observation = Inr ob"
    and "po_swap (xc_observation c) = po_swap (populate_swap_usage table ob)"
    and "vs_present (po_swap ob)" and "\<not> vs_active (po_swap (xc_observation c))"
  shows "observed_storage c = None"
proof -
  have "vs_used_known (po_swap (xc_observation c)) \<and> \<not> vs_total_known (po_swap (xc_observation c))"
    using assms(4-6) parse_managed_total [OF assms(3)] inactive_swap_usage
    by (cases table) (auto simp: populate_swap_usage_def swap_unused_def split: if_splits)
  moreover have "snap_ok c" using ssd_run_inv [OF assms(1)] by (simp add: core_inv_def)
  ultimately have "xs_swap_used_known (xc_snapshot c)" "\<not> xs_swap_total_known (xc_snapshot c)"
    using assms(2) by (simp_all add: snap_ok_def)
  then show ?thesis
    by (simp add: observed_storage_def storage_from_ssd_snapshot_def valid_ssd_controller_snapshot_def
      snapshot_fields_consistent_def ssd_copy_snapshot_def)
qed

definition sample_observed :: ssd_observation where
  "sample_observed = (case parse_managed_objects sample_objects sample_drives zero_observation of
     Inl r \<Rightarrow> zero_observation | Inr ob \<Rightarrow> ob)"

definition sample_production :: "unit ssd_ops" where
  "sample_production = \<lparr>op_now = (\<lambda>p. (p, Some 5)),
     op_refresh = (\<lambda>p. (p, Inr (populate_swap_usage (Some [(''/dev/sda2'', 64, 8)]) sample_observed))),
     op_start_swap = (\<lambda>path p. (p, True, [])), op_stop_swap = (\<lambda>path p. (p, True, [])),
     op_mount_scratch = (\<lambda>path p. (p, True, [], [])), op_unmount_scratch = (\<lambda>path p. (p, True, []))\<rparr>"

definition sample_device :: "unit ssd_controller" where
  "sample_device = the (ssd_create True sample_production () SSD_DEFAULT_POLL_INTERVAL_NS)"

lemma sample_device_state:
  "(xc_physical_hazard_latched sample_device, xs_state (xc_snapshot sample_device),
     xc_observation sample_device = populate_swap_usage (Some [(''/dev/sda2'', 64, 8)]) sample_observed,
     vs_present (po_swap sample_observed),
     vs_active (po_swap (populate_swap_usage (Some [(''/dev/sda2'', 64, 8)]) sample_observed)))
   = (False, SSD_DETECTED, True, True, False)"
  by code_simp

theorem inactive_swap_is_refused_witness:
  "xs_state (xc_snapshot sample_device) = SSD_DETECTED \<and> observed_storage sample_device = None"
proof -
  have "ssd_create True sample_production () SSD_DEFAULT_POLL_INTERVAL_NS = Some sample_device"
    by (simp add: sample_device_def ssd_create_def)
  then have run: "ssd_run sample_production sample_device" by (rule run_create)
  obtain ob where ob: "parse_managed_objects sample_objects sample_drives zero_observation = Inr ob"
    using sample_parse by (auto split: sum.splits)
  then have "sample_observed = ob" by (simp add: sample_observed_def)
  moreover have "po_swap (xc_observation sample_device)
      = po_swap (populate_swap_usage (Some [(''/dev/sda2'', 64, 8)]) sample_observed)"
    "\<not> vs_active (po_swap (xc_observation sample_device))" "vs_present (po_swap sample_observed)"
    "\<not> withheld sample_device" "xs_state (xc_snapshot sample_device) = SSD_DETECTED"
    using sample_device_state by (simp_all add: withheld_def)
  ultimately show ?thesis using inactive_swap_is_refused [OF run _ ob] by blast
qed

end
