(* ===== verification/Task_Kinds.thy ===== *)
theory Task_Kinds
  imports Task_State
begin

text \<open>
  The registry of durable Task kinds (\<open>task_kind_registry.c\<close>, \<open>task_kinds.c\<close>): lookup,
  normalization of the historical estimates, and the restoration of a Task from its durable
  snapshot with the ownership of the reconstructed user data.
\<close>

section \<open>Descriptors\<close>

definition TASK_KIND_REGISTRY_MAX :: nat where "TASK_KIND_REGISTRY_MAX = 64"

text \<open>
  What a kind's reconstruction binds: whether there is a callback, the user data, whether a
  destructor goes with it, and whether there is a finished callback.
\<close>

record kind_binding =
  kb_callback :: bool
  kb_userdata :: nat
  kb_userdata_destroy :: bool
  kb_finished_callback :: bool

text \<open>A reconstruction answers its return value and what it wrote into the zeroed binding.\<close>

record kind_descriptor =
  kd_kind :: string
  kd_kind_version :: u32
  kd_reconstruct :: "durable_snapshot \<Rightarrow> bool \<times> kind_binding"

datatype task_kind_result =
  TASK_KIND_OK | TASK_KIND_INVALID_ARGUMENT | TASK_KIND_UNKNOWN | TASK_KIND_UNSUPPORTED_VERSION
  | TASK_KIND_RECONSTRUCTION_FAILED | TASK_KIND_RESTORE_FAILED

text \<open>\<open>init\<close> accepts a table of descriptors; each is compared with those before it.\<close>

fun descriptors_acceptable :: "kind_descriptor list \<Rightarrow> kind_descriptor list \<Rightarrow> bool" where
  "descriptors_acceptable previous [] = True"
| "descriptors_acceptable previous (d # ds) =
     (if \<not> task_kind_is_valid (kd_kind d) \<or> kd_kind_version d = 0 then False
      else if \<exists>p \<in> set previous. kd_kind d = kd_kind p then False
      else descriptors_acceptable (previous @ [d]) ds)"

definition registry_init :: "kind_descriptor list \<Rightarrow> kind_descriptor list option" where
  "registry_init descriptors =
     (if length descriptors > TASK_KIND_REGISTRY_MAX \<or> \<not> descriptors_acceptable [] descriptors
      then None else Some descriptors)"

fun lookup_loop :: "kind_descriptor list \<Rightarrow> string \<Rightarrow> u32 \<Rightarrow> bool \<Rightarrow> task_kind_result \<times> kind_descriptor option" where
  "lookup_loop [] kind version kind_known =
     (if kind_known then TASK_KIND_UNSUPPORTED_VERSION else TASK_KIND_UNKNOWN, None)"
| "lookup_loop (candidate # rest) kind version kind_known =
     (if kd_kind candidate = kind
      then if kd_kind_version candidate = version then (TASK_KIND_OK, Some candidate)
        else lookup_loop rest kind version True
      else lookup_loop rest kind version kind_known)"

definition registry_lookup ::
    "kind_descriptor list \<Rightarrow> string \<Rightarrow> u32 \<Rightarrow> task_kind_result \<times> kind_descriptor option" where
  "registry_lookup registry kind version =
     (if \<not> task_kind_is_valid kind \<or> version = 0 \<or> length registry > TASK_KIND_REGISTRY_MAX
      then (TASK_KIND_INVALID_ARGUMENT, None)
      else lookup_loop registry kind version False)"

section \<open>Historical estimates\<close>

definition MIB :: u64 where "MIB = 1024 * 1024"

definition estimate_equals :: "resource_estimate \<Rightarrow> resource_estimate \<Rightarrow> bool" where
  "estimate_equals left right \<longleftrightarrow>
     re_memory_fixed_bytes left = re_memory_fixed_bytes right
     \<and> re_gpu_memory_fixed_bytes left = re_gpu_memory_fixed_bytes right
     \<and> re_memory_bytes_per_item left = re_memory_bytes_per_item right
     \<and> re_gpu_memory_bytes_per_item left = re_gpu_memory_bytes_per_item right
     \<and> re_minimum_batch_size left = re_minimum_batch_size right
     \<and> re_maximum_batch_size left = re_maximum_batch_size right
     \<and> re_desired_cpu_threads left = re_desired_cpu_threads right
     \<and> re_desired_gpu_slots left = re_desired_gpu_slots right
     \<and> re_desired_io_slots left = re_desired_io_slots right
     \<and> re_task_class left = re_task_class right"

text \<open>The initializers leave every field they do not name zero.\<close>

definition zero_estimate :: resource_estimate where
  "zero_estimate = \<lparr>re_memory_fixed_bytes = 0, re_gpu_memory_fixed_bytes = 0,
     re_memory_bytes_per_item = 0, re_gpu_memory_bytes_per_item = 0, re_minimum_batch_size = 0,
     re_maximum_batch_size = 0, re_desired_cpu_threads = 0, re_desired_gpu_slots = 0,
     re_desired_io_slots = 0, re_task_class = 0\<rparr>"

definition cpu_estimate :: "u64 \<Rightarrow> u64 \<Rightarrow> size_t \<Rightarrow> u32 \<Rightarrow> resource_estimate" where
  "cpu_estimate fixed per_item maximum threads = zero_estimate\<lparr>re_memory_fixed_bytes := fixed,
     re_memory_bytes_per_item := per_item, re_minimum_batch_size := 1,
     re_maximum_batch_size := maximum, re_desired_cpu_threads := threads,
     re_desired_io_slots := 1, re_task_class := RESOURCE_TASK_CPU\<rparr>"

definition candidate_current :: resource_estimate where
  "candidate_current = cpu_estimate (256 * 1024) (8 * MIB) 64 64"

definition candidate_historical :: resource_estimate where
  "candidate_historical =
     candidate_current\<lparr>re_memory_bytes_per_item := 64 * 1024, re_desired_cpu_threads := 12\<rparr>"

definition candidate_oldest :: resource_estimate where
  "candidate_oldest =
     candidate_historical\<lparr>re_memory_fixed_bytes := 128 * 1024, re_desired_cpu_threads := 1\<rparr>"

definition features_current :: resource_estimate where
  "features_current = cpu_estimate (64 * MIB) (512 * MIB) 1 0x7FFFFFFF"

definition sift_current :: resource_estimate where
  "sift_current = cpu_estimate (64 * MIB) (1024 * MIB) 1 0x7FFFFFFF"

definition visual_current :: resource_estimate where
  "visual_current = cpu_estimate (8 * MIB) (2 * MIB) 16 16"

definition verifier_current :: resource_estimate where
  "verifier_current = cpu_estimate 0 (8 * MIB) 16 8"

definition verifier_historical :: resource_estimate where
  "verifier_historical = cpu_estimate (4 * MIB) 0 8 1"

definition raw_batch_current :: resource_estimate where
  "raw_batch_current = (cpu_estimate 0 (896 * MIB) 8 8)\<lparr>re_task_class := RESOURCE_TASK_MIXED\<rparr>"

definition raw_batch_historical :: resource_estimate where
  "raw_batch_historical = raw_batch_current\<lparr>re_memory_fixed_bytes := 4120,
     re_memory_bytes_per_item := 2 * 1024 * MIB + MIB\<rparr>"

definition matcher_current :: "bool \<Rightarrow> resource_estimate" where
  "matcher_current gpu = (cpu_estimate 0 (10 * MIB) 12 (if gpu then 1 else 12))
     \<lparr>re_gpu_memory_fixed_bytes := (if gpu then 640 * 1024 else 0),
      re_desired_gpu_slots := (if gpu then 1 else 0)\<rparr>"

definition matcher_historical :: "bool \<Rightarrow> resource_estimate" where
  "matcher_historical gpu = (matcher_current gpu)
     \<lparr>re_maximum_batch_size := 8, re_desired_cpu_threads := (if gpu then 1 else 8)\<rparr>"

definition matcher_oldest :: "bool \<Rightarrow> resource_estimate" where
  "matcher_oldest gpu = (matcher_current gpu)\<lparr>re_memory_fixed_bytes := 10 * MIB,
     re_memory_bytes_per_item := 0, re_maximum_batch_size := 8, re_desired_cpu_threads := 12\<rparr>"

text \<open>
  The current estimate of a known kind, its accepted historical one and, when there is one, the
  oldest; \<^const>\<open>None\<close> for the other kinds.
\<close>

definition known_estimates ::
    "string \<Rightarrow> resource_estimate \<Rightarrow> (resource_estimate \<times> resource_estimate \<times> resource_estimate option) option" where
  "known_estimates kind durable =
     (if kind = ''candidate_pair.generate''
      then Some (candidate_current, candidate_historical, Some candidate_oldest)
      else if kind = ''features.extract''
      then Some (features_current, features_current\<lparr>re_desired_cpu_threads := 12\<rparr>,
        Some (features_current\<lparr>re_desired_cpu_threads := 1\<rparr>))
      else if kind = ''matcher.run''
      then (let gpu = (re_desired_gpu_slots durable = 1)
            in Some (matcher_current gpu, matcher_historical gpu, Some (matcher_oldest gpu)))
      else if kind = ''features.extract.sift'' \<or> kind = ''features.extract.rootsift''
      then Some (sift_current, sift_current\<lparr>re_desired_cpu_threads := 12\<rparr>,
        Some (sift_current\<lparr>re_desired_cpu_threads := 1\<rparr>))
      else if kind = ''visual_index.update''
      then Some (visual_current, visual_current\<lparr>re_desired_cpu_threads := 12\<rparr>,
        Some (visual_current\<lparr>re_desired_cpu_threads := 1\<rparr>))
      else if kind = ''geometric_verifier.run'' then Some (verifier_current, verifier_historical, None)
      else if kind = ''raw.develop.batch'' then Some (raw_batch_current, raw_batch_historical, None)
      else None)"

definition normalize_known_legacy_estimate :: "string \<Rightarrow> resource_estimate \<Rightarrow> resource_estimate option" where
  "normalize_known_legacy_estimate kind durable =
     (case known_estimates kind durable of
        None \<Rightarrow> Some durable
      | Some (current, historical, oldest) \<Rightarrow>
          if kind = ''matcher.run'' \<and> re_desired_gpu_slots durable \<noteq> 1
             \<and> estimate_equals durable (current\<lparr>re_task_class := RESOURCE_TASK_MIXED\<rparr>)
          then Some durable
          else if estimate_equals durable current then Some durable
          else if \<not> estimate_equals durable historical
             \<and> (case oldest of None \<Rightarrow> True | Some e \<Rightarrow> \<not> estimate_equals durable e)
          then None
          else Some current)"

section \<open>Restoration\<close>

text \<open>
  The private hooks of two kinds, absent when the program is linked without them: each may
  reconfigure the new Task and tells whether it could.
\<close>

record kind_hooks =
  kh_matcher :: "(task \<Rightarrow> nat \<Rightarrow> task \<times> bool) option"
  kh_campaign :: "(task \<Rightarrow> nat \<Rightarrow> task \<times> bool) option"

definition run_hook :: "(task \<Rightarrow> nat \<Rightarrow> task \<times> bool) option \<Rightarrow> bool \<Rightarrow> nat \<Rightarrow> task \<times> bool \<Rightarrow> task \<times> bool" where
  "run_hook hook applies userdata r =
     (case hook of
        None \<Rightarrow> r
      | Some configure \<Rightarrow> if snd r \<and> applies then configure (fst r) userdata else r)"

text \<open>
  A restoration answers its result, the Task, and the user data it had destroyed: by itself, or
  by destroying the Task that owned it.
\<close>

definition dispose :: "kind_binding \<Rightarrow> nat list" where
  "dispose b = (if kb_userdata_destroy b then [kb_userdata b] else [])"

definition registry_restore ::
    "kind_hooks \<Rightarrow> bool \<Rightarrow> kind_descriptor list \<Rightarrow> string \<Rightarrow> u32 \<Rightarrow> durable_snapshot
      \<Rightarrow> task_kind_result \<times> task option \<times> nat list" where
  "registry_restore hooks resources registry kind version snapshot =
     (case registry_lookup registry kind version of
        (TASK_KIND_OK, Some descriptor) \<Rightarrow>
          (case kd_reconstruct descriptor snapshot of
             (reconstructed, binding) \<Rightarrow>
               if \<not> reconstructed \<or> \<not> kb_callback binding
               then (TASK_KIND_RECONSTRUCTION_FAILED, None, dispose binding)
               else (case normalize_known_legacy_estimate kind (ds_estimate snapshot) of
                   None \<Rightarrow> (TASK_KIND_RECONSTRUCTION_FAILED, None, dispose binding)
                 | Some effective \<Rightarrow>
                     (case task_restore_typed resources (snapshot\<lparr>ds_estimate := effective\<rparr>)
                         (Some kind) version (kb_userdata_destroy binding) of
                        None \<Rightarrow> (TASK_KIND_RESTORE_FAILED, None, dispose binding)
                      | Some t \<Rightarrow>
                          let (t, configured) = run_hook (kh_campaign hooks)
                                (kind = ''acquisition_campaign.run'') (kb_userdata binding)
                                (run_hook (kh_matcher hooks) (kind = ''matcher.run'')
                                  (kb_userdata binding) (enable_known_capabilities t, True));
                              (t, accepted) = (if configured \<and> kb_finished_callback binding
                                then set_finished_callback t else (t, configured))
                          in if configured \<and> accepted then (TASK_KIND_OK, Some t, [])
                             else (TASK_KIND_RESTORE_FAILED, None, dispose binding))))
      | (result, _) \<Rightarrow> (result, None, []))"

section \<open>The production kinds\<close>

text \<open>The parts of the program a build may leave out, and the table with those it has.\<close>

record build_options =
  bo_raw_development :: bool
  bo_photo_quality :: bool
  bo_acquisition_campaign :: bool
  bo_track_builder :: bool
  bo_sparse_sfm :: bool
  bo_incremental_reconstruction :: bool

definition production_kinds :: "build_options \<Rightarrow> string list" where
  "production_kinds b =
     (if bo_raw_development b then [''raw.develop'', ''raw.develop.batch''] else [])
     @ (if bo_photo_quality b then [''photo_quality.triage''] else [])
     @ (if bo_acquisition_campaign b then [''acquisition_campaign.run''] else [])
     @ [''import.images'', ''features.extract'', ''features.extract.batch'',
        ''features.extract.sift'', ''features.extract.rootsift'', ''visual_index.update'',
        ''candidate_pair.generate'', ''matcher.run'', ''geometric_verifier.run'']
     @ (if bo_track_builder b then [''track_builder.run''] else [])
     @ (if bo_sparse_sfm b then [''sparse_sfm.run''] else [])
     @ (if bo_incremental_reconstruction b then [''incremental_reconstruction.run''] else [])"

text \<open>Every production kind is at version 1; the reconstruction functions are the kinds' own.\<close>

definition registry_production ::
    "build_options \<Rightarrow> (string \<Rightarrow> durable_snapshot \<Rightarrow> bool \<times> kind_binding) \<Rightarrow> kind_descriptor list" where
  "registry_production b reconstruct =
     map (\<lambda>kind. \<lparr>kd_kind = kind, kd_kind_version = 1, kd_reconstruct = reconstruct kind\<rparr>)
       (production_kinds b)"

end
