(* ===== verification/Kind_Theorems.thy ===== *)
theory Kind_Theorems
  imports Task_Kinds Task_Durability
begin

text \<open>
  The registry of Task kinds: the production table, the normalization of historical estimates,
  and restorations that can be repeated and that settle the user data they reconstruct.
\<close>

section \<open>Lookup\<close>

lemma lookup_loop_OK:
  "lookup_loop ds kind version known = (TASK_KIND_OK, d') \<Longrightarrow>
    \<exists>d \<in> set ds. d' = Some d \<and> kd_kind d = kind \<and> kd_kind_version d = version"
  by (induction ds kind version known rule: lookup_loop.induct) (auto split: if_splits)

lemma lookup_loop_result:
  assumes "distinct (map kd_kind ds)"
  shows "fst (lookup_loop ds kind version known) =
    (if \<exists>d \<in> set ds. kd_kind d = kind \<and> kd_kind_version d = version then TASK_KIND_OK
     else if known \<or> (\<exists>d \<in> set ds. kd_kind d = kind) then TASK_KIND_UNSUPPORTED_VERSION
     else TASK_KIND_UNKNOWN)"
  using assms by (induction ds kind version known rule: lookup_loop.induct) auto

lemma lookup_OK:
  assumes "registry_lookup registry kind version = (TASK_KIND_OK, d')"
  obtains d where "d' = Some d" "d \<in> set registry" "kd_kind d = kind" "kd_kind_version d = version"
    "task_kind_is_valid kind" "version \<noteq> 0"
  using assms lookup_loop_OK [of registry kind version False d']
  by (auto simp: registry_lookup_def split: if_splits)

lemma acceptable_iff:
  "descriptors_acceptable previous ds \<longleftrightarrow>
     (\<forall>d \<in> set ds. task_kind_is_valid (kd_kind d) \<and> kd_kind_version d \<noteq> 0
        \<and> kd_kind d \<notin> kd_kind ` set previous)
     \<and> distinct (map kd_kind ds)"
  by (induction previous ds rule: descriptors_acceptable.induct) (auto simp: image_iff)

section \<open>Estimates\<close>

lemma estimate_equals_iff [simp]: "estimate_equals a b \<longleftrightarrow> a = b"
proof
  assume "estimate_equals a b"
  then show "a = b"
    unfolding estimate_equals_def by (elim conjE) (rule resource_estimate.equality; simp)
qed (simp add: estimate_equals_def)

lemmas known_estimate_defs = candidate_current_def features_current_def sift_current_def
  visual_current_def verifier_current_def raw_batch_current_def matcher_current_def
  cpu_estimate_def zero_estimate_def MIB_def

lemma currents_valid:
  "valid_estimate candidate_current" "valid_estimate features_current" "valid_estimate sift_current"
  "valid_estimate visual_current" "valid_estimate verifier_current" "valid_estimate raw_batch_current"
  "valid_estimate (matcher_current gpu)"
  by (simp_all add: known_estimate_defs valid_estimate_def)

lemma current_estimates_valid:
  "known_estimates kind durable = Some (current, historical, oldest) \<Longrightarrow> valid_estimate current"
  using currents_valid by (auto simp: known_estimates_def Let_def split: if_split_asm)

text \<open>The current estimate of a kind is found again from itself.\<close>

lemma matcher_slots: "re_desired_gpu_slots (matcher_current gpu) = 1 \<longleftrightarrow> gpu"
  by (simp add: matcher_current_def)

lemma known_estimates_matcher:
  "known_estimates ''matcher.run'' e = Some (matcher_current (re_desired_gpu_slots e = 1),
     matcher_historical (re_desired_gpu_slots e = 1), Some (matcher_oldest (re_desired_gpu_slots e = 1)))"
  by (simp add: known_estimates_def Let_def)

lemma known_estimates_other: "kind \<noteq> ''matcher.run'' \<Longrightarrow> known_estimates kind e = known_estimates kind f"
  by (simp add: known_estimates_def)

lemma current_estimates_stable:
  assumes "known_estimates kind durable = Some (current, historical, oldest)"
  shows "\<exists>h oo. known_estimates kind current = Some (current, h, oo)"
proof (cases "kind = ''matcher.run''")
  case True
  with assms have "current = matcher_current (re_desired_gpu_slots durable = 1)"
    by (simp add: known_estimates_matcher)
  then show ?thesis by (simp only: True known_estimates_matcher matcher_slots) blast
next
  case False
  from known_estimates_other [OF this, of current durable] assms show ?thesis by simp
qed

lemma normalize_cases:
  assumes "normalize_known_legacy_estimate kind e = Some f"
  obtains (same) "f = e" | (legacy) historical oldest where "known_estimates kind e = Some (f, historical, oldest)"
    "e = historical \<or> oldest = Some e"
  using assms by (auto simp: normalize_known_legacy_estimate_def split: option.splits prod.splits if_splits)

lemma normalize_valid:
  "normalize_known_legacy_estimate kind e = Some f \<Longrightarrow> valid_estimate e \<Longrightarrow> valid_estimate f"
  by (cases rule: normalize_cases) (auto dest: current_estimates_valid)

lemma normalize_idempotent:
  assumes "normalize_known_legacy_estimate kind e = Some f"
  shows "normalize_known_legacy_estimate kind f = Some f"
  using assms
proof (cases rule: normalize_cases)
  case same
  with assms show ?thesis by simp
next
  case (legacy historical oldest)
  then obtain h oo where "known_estimates kind f = Some (f, h, oo)" using current_estimates_stable by blast
  then show ?thesis by (simp add: normalize_known_legacy_estimate_def)
qed

section \<open>Restoration\<close>

lemma restore_storable:
  assumes "storable_task t" "storable_times t" "tk_kind t \<noteq> []" "valid_estimate e"
  obtains u where "task_restore_typed True ((task_durable_snapshot t)\<lparr>ds_estimate := e\<rparr>)
      (Some (tk_kind t)) (tk_kind_version t) d = Some u"
    "storable_task u" "storable_times u" "tk_kind u = tk_kind t" "tk_kind_version u = tk_kind_version t"
    "tk_estimate u = e" "tk_state u = recovery_state (tk_state t)" "\<not> tk_executing u"
    "\<not> tk_finished_callback u" "tk_name u = tk_name t" "tk_message u = tk_message t"
    "tk_envelope u = [default_capability e (Some (tk_kind t)) (tk_kind_version t)]"
    "task_durable_snapshot u = (task_durable_snapshot t)\<lparr>ds_estimate := e,
       ds_saved_state := state_code (recovery_state (tk_state t))\<rparr>"
proof -
  let ?t = "t\<lparr>tk_estimate := e\<rparr>"
  let ?s = "task_durable_snapshot ?t"
  have t: "storable_task ?t" "storable_times ?t"
    using assms by (simp_all add: storable_task_def storable_times_def)
  have s: "?s = (task_durable_snapshot t)\<lparr>ds_estimate := e\<rparr>" by (simp add: task_durable_snapshot_def)
  note ok = durable_snapshot_valid [OF t]
  have kind: "case Some (tk_kind t) of None \<Rightarrow> tk_kind_version t = 0 \<and> \<not> d
      | Some k \<Rightarrow> task_kind_is_valid k \<and> tk_kind_version t \<noteq> 0"
    using assms(1,3) by (simp add: storable_task_def)
  have texts: "buffer_text (ds_name ?s) = tk_name t" "buffer_text (ds_message ?s) = tk_message t"
    using assms(1) by (simp_all add: task_durable_snapshot_def storable_task_def buffer_facts)
  obtain u where u: "task_restore_typed True ?s (Some (tk_kind t)) (tk_kind_version t) d = Some u"
    "tk_id u = ds_id ?s" "tk_name u = buffer_text (ds_name ?s)" "tk_estimate u = ds_estimate ?s"
    "tk_progress u = ds_progress ?s" "state_code (tk_state u) = ds_recovery_state ?s"
    "tk_message u = buffer_text (ds_message ?s)" "tk_started_at u = ds_started_at ?s"
    "tk_finished_at u = ds_finished_at ?s" "tk_sequence_count u = ds_sequence_count ?s"
    "tk_kind u = (case Some (tk_kind t) of None \<Rightarrow> [] | Some k \<Rightarrow> k)"
    "tk_kind_version u = tk_kind_version t" "\<not> tk_executing u"
    "tk_envelope u = [default_capability (ds_estimate ?s) (Some (tk_kind t)) (tk_kind_version t)]"
    by (rule restore_accepted [OF ok kind])
  have state: "tk_state u = recovery_state (tk_state t)" using u(6) by (simp add: task_durable_snapshot_def)
  have completed: "recovery_state (tk_state t) = COMPLETED \<longleftrightarrow> tk_state t = COMPLETED"
    "recovery_state (recovery_state (tk_state t)) = recovery_state (tk_state t)"
    by (auto simp: recovery_state_def)
  have fields: "tk_id u = tk_id t" "tk_progress u = tk_progress t" "tk_estimate u = e"
    "tk_started_at u = tk_started_at t" "tk_finished_at u = tk_finished_at t"
    "tk_sequence_count u = tk_sequence_count t" "tk_name u = tk_name t" "tk_message u = tk_message t"
    using u(2-10) texts by (simp_all add: task_durable_snapshot_def)
  have callback: "\<not> tk_finished_callback u"
    using u(1) by (auto simp: task_restore_typed_def task_create_typed_def set_message_def
      split: if_splits option.splits)
  show thesis
  proof (rule that [OF u(1) [unfolded s]])
    show "storable_task u" "storable_times u"
      using assms fields u(11,12) state completed
      by (simp_all add: storable_task_def storable_times_def)
    show "task_durable_snapshot u = (task_durable_snapshot t)\<lparr>ds_estimate := e,
       ds_saved_state := state_code (recovery_state (tk_state t))\<rparr>"
      using fields state completed(2) by (simp add: task_durable_snapshot_def)
    show "tk_envelope u = [default_capability e (Some (tk_kind t)) (tk_kind_version t)]"
      using u(14) by (simp add: task_durable_snapshot_def)
  qed (use u(11-13) fields state callback in \<open>simp_all\<close>)
qed

lemma enable_default:
  assumes "tk_envelope t = [default_capability e (Some (tk_kind t)) (tk_kind_version t)]"
  shows "enable_known_capabilities t = t"
proof -
  have "t\<lparr>tk_envelope := tk_envelope t\<rparr> = t" by simp
  then show ?thesis using assms by (simp add: enable_known_capabilities_def default_capability_def)
qed

lemma restore_kind:
  assumes t: "storable_task t" "storable_times t" "recovery_state (tk_state t) = PENDING"
    and d: "registry_lookup registry (tk_kind t) (tk_kind_version t) = (TASK_KIND_OK, Some d)"
    and ok: "\<And>s. fst (kd_reconstruct d s) \<and> kb_callback (snd (kd_reconstruct d s))"
    and e: "normalize_known_legacy_estimate (tk_kind t) (tk_estimate t) = Some e"
    and hooks: "tk_kind t \<noteq> ''matcher.run'' \<or> kh_matcher hooks = None"
      "tk_kind t \<noteq> ''acquisition_campaign.run'' \<or> kh_campaign hooks = None"
  obtains u where "registry_restore hooks True registry (tk_kind t) (tk_kind_version t) (task_durable_snapshot t)
      = (TASK_KIND_OK, Some u, [])"
    "storable_task u" "storable_times u" "tk_kind u = tk_kind t" "tk_kind_version u = tk_kind_version t"
    "tk_estimate u = e" "tk_state u = PENDING" "tk_name u = tk_name t" "\<not> tk_executing u"
    "task_durable_snapshot u = (task_durable_snapshot t)\<lparr>ds_estimate := e,
       ds_saved_state := state_code PENDING\<rparr>"
proof -
  have kind: "tk_kind t \<noteq> []" using d
    by (cases rule: lookup_OK) (auto simp: task_kind_is_valid_def)
  have valid: "valid_estimate e" using normalize_valid [OF e] t(1) by (simp add: storable_task_def)
  let ?s = "task_durable_snapshot t"
  obtain r b where b: "kd_reconstruct d ?s = (r, b)" by (cases "kd_reconstruct d ?s")
  then have r: "r" "kb_callback b" using ok [of ?s] by simp_all
  obtain u where u: "task_restore_typed True (?s\<lparr>ds_estimate := e\<rparr>) (Some (tk_kind t)) (tk_kind_version t)
      (kb_userdata_destroy b) = Some u"
    "storable_task u" "storable_times u" "tk_kind u = tk_kind t" "tk_kind_version u = tk_kind_version t"
    "tk_estimate u = e" "tk_state u = PENDING" "\<not> tk_executing u" "\<not> tk_finished_callback u"
    "tk_name u = tk_name t"
    "tk_envelope u = [default_capability e (Some (tk_kind t)) (tk_kind_version t)]"
    "task_durable_snapshot u = ?s\<lparr>ds_estimate := e, ds_saved_state := state_code PENDING\<rparr>"
    by (rule restore_storable [OF t(1,2) kind valid, of "kb_userdata_destroy b", unfolded t(3)])
  have enable: "enable_known_capabilities u = u" using u(4,5,11) by (intro enable_default) simp
  let ?v = "if kb_finished_callback b then u\<lparr>tk_finished_callback := True\<rparr> else u"
  have est: "ds_estimate ?s = tk_estimate t" by (simp add: task_durable_snapshot_def)
  have run: "registry_restore hooks True registry (tk_kind t) (tk_kind_version t) ?s = (TASK_KIND_OK, Some ?v, [])"
    using hooks u(7-9)
    by (auto simp: registry_restore_def d b r est e u(1) enable run_hook_def set_finished_callback_def
      Let_def split: option.split)
  show thesis
  proof (rule that [OF run])
    show "task_durable_snapshot ?v = ?s\<lparr>ds_estimate := e, ds_saved_state := state_code PENDING\<rparr>"
      using u(12) by (auto simp: task_durable_snapshot_def)
    show "storable_task ?v" "storable_times ?v" using u(2,3) by (auto simp: storable_task_def storable_times_def)
  qed (use u in auto)
qed

section \<open>Properties\<close>


definition sample_kinds :: "kind_descriptor list" where
  "sample_kinds = registry_production
     \<lparr>bo_raw_development = True, bo_photo_quality = True, bo_acquisition_campaign = False,
       bo_track_builder = True, bo_sparse_sfm = True, bo_incremental_reconstruction = False\<rparr>
     (\<lambda>kind s. (True, \<lparr>kb_callback = True, kb_userdata = 5, kb_userdata_destroy = True,
        kb_finished_callback = kind \<noteq> ''sparse_sfm.run''\<rparr>))"

definition no_hooks :: kind_hooks where
  "no_hooks = \<lparr>kh_matcher = None, kh_campaign = None\<rparr>"

text \<open>A verifier Task of the frozen serial form, saved while it was running.\<close>

definition sample_legacy :: task where
  "sample_legacy = sample_task\<lparr>tk_id := 9, tk_kind := ''geometric_verifier.run'', tk_progress := 40,
     tk_state := RUNNING, tk_estimate := verifier_historical\<rparr>"

lemma sample_legacy_storable: "storable_task sample_legacy" "storable_times sample_legacy"
  unfolding sample_legacy_def sample_task_def by code_simp+

lemma sample_legacy_kind:
  "registry_lookup sample_kinds ''geometric_verifier.run'' 1 =
    (TASK_KIND_OK, Some \<lparr>kd_kind = ''geometric_verifier.run'', kd_kind_version = 1,
       kd_reconstruct = (\<lambda>s. (True, \<lparr>kb_callback = True, kb_userdata = 5, kb_userdata_destroy = True,
         kb_finished_callback = True\<rparr>))\<rparr>)"
  "normalize_known_legacy_estimate ''geometric_verifier.run'' verifier_historical = Some verifier_current"
proof -
  have "task_kind_is_valid ''geometric_verifier.run''" by code_simp
  then show "registry_lookup sample_kinds ''geometric_verifier.run'' 1 =
    (TASK_KIND_OK, Some \<lparr>kd_kind = ''geometric_verifier.run'', kd_kind_version = 1,
       kd_reconstruct = (\<lambda>s. (True, \<lparr>kb_callback = True, kb_userdata = 5, kb_userdata_destroy = True,
         kb_finished_callback = True\<rparr>))\<rparr>)"
    by (simp add: registry_lookup_def sample_kinds_def registry_production_def production_kinds_def
      TASK_KIND_REGISTRY_MAX_def)
  show "normalize_known_legacy_estimate ''geometric_verifier.run'' verifier_historical = Some verifier_current"
    by code_simp
qed


text \<open>
  C33. Restoration settles the reconstructed user data exactly once: on success nothing is
  destroyed and the Task owns it; on every failure after reconstruction, whichever of
  reconstruction, normalization, creation, configuration or callback failed, no Task is returned
  and the data is destroyed once by its destructor; when the kind is not found, nothing was
  reconstructed and nothing is destroyed.
\<close>

theorem restoration_settles_userdata:
  assumes "registry_restore hooks resources registry kind version s = (r, task, destroyed)"
  shows "(task \<noteq> None \<longleftrightarrow> r = TASK_KIND_OK)
    \<and> (case registry_lookup registry kind version of
         (TASK_KIND_OK, Some d) \<Rightarrow> destroyed =
           (if r = TASK_KIND_OK then [] else dispose (snd (kd_reconstruct d s)))
       | (failure, _) \<Rightarrow> r = failure \<and> destroyed = [])"
proof (cases "registry_lookup registry kind version")
  case (Pair result found)
  show ?thesis
  proof (cases "result = TASK_KIND_OK")
    case False
    then show ?thesis using assms Pair
      by (auto simp: registry_restore_def split: task_kind_result.splits)
  next
    case True
    with Pair obtain d where d: "registry_lookup registry kind version = (TASK_KIND_OK, Some d)"
      by (auto elim: lookup_OK)
    show ?thesis using assms
      by (auto simp: registry_restore_def d Let_def split: prod.splits if_splits option.splits)
  qed
qed

theorem restoration_settles_userdata_witness:
  "snd (snd (registry_restore no_hooks False sample_kinds ''geometric_verifier.run'' 1
      (task_durable_snapshot sample_legacy))) = [5]
    \<and> fst (snd (registry_restore no_hooks False sample_kinds ''geometric_verifier.run'' 1
      (task_durable_snapshot sample_legacy))) = None"
proof -
  have "fst (registry_restore no_hooks False sample_kinds ''geometric_verifier.run'' 1
      (task_durable_snapshot sample_legacy)) = TASK_KIND_RESTORE_FAILED"
    using sample_task_fields
    by (simp add: registry_restore_def sample_legacy_kind(1) task_restore_typed_def task_create_typed_def
      sample_legacy_def task_durable_snapshot_def sample_legacy_kind(2) split: option.split)
  then show ?thesis
    using restoration_settles_userdata [of no_hooks False sample_kinds "''geometric_verifier.run''" 1
      "task_durable_snapshot sample_legacy"] sample_legacy_kind(1)
    by (cases "registry_restore no_hooks False sample_kinds ''geometric_verifier.run'' 1
      (task_durable_snapshot sample_legacy)") (auto simp: dispose_def)
qed

text \<open>
  C34. The production table is well formed in every build: whatever optional parts are left
  out, \<open>init\<close> accepts it, and looking up any valid kind gives its own descriptor at version 1,
  an unsupported version at any other, and unknown for a kind the build does not have.
\<close>

theorem production_kinds_are_sound:
  "registry_init (registry_production b reconstruct) = Some (registry_production b reconstruct)
    \<and> (task_kind_is_valid kind \<and> version \<noteq> 0 \<longrightarrow>
       registry_lookup (registry_production b reconstruct) kind version =
         (if kind \<notin> set (production_kinds b) then (TASK_KIND_UNKNOWN, None)
          else if version = 1
          then (TASK_KIND_OK, Some \<lparr>kd_kind = kind, kd_kind_version = 1, kd_reconstruct = reconstruct kind\<rparr>)
          else (TASK_KIND_UNSUPPORTED_VERSION, None)))"
proof -
  let ?r = "registry_production b reconstruct"
  have valid: "\<forall>k \<in> set (production_kinds b). task_kind_is_valid k"
  proof -
    have "list_all task_kind_is_valid (production_kinds (build_options.make True True True True True True))"
      unfolding build_options.make_def by code_simp
    then show ?thesis by (auto simp: list_all_iff production_kinds_def build_options.make_def split: if_splits)
  qed
  have kinds: "map kd_kind ?r = production_kinds b"
    by (simp add: registry_production_def comp_def)
  have dist: "distinct (production_kinds b)"
    by (simp add: production_kinds_def)
  have size: "length ?r \<le> TASK_KIND_REGISTRY_MAX"
    by (simp add: registry_production_def production_kinds_def TASK_KIND_REGISTRY_MAX_def)
  have init: "registry_init ?r = Some ?r"
    using valid dist size kinds
    by (auto simp: registry_init_def acceptable_iff registry_production_def comp_def)
  have none: "snd (lookup_loop ds kind version known) = None"
    if "fst (lookup_loop ds kind version known) \<noteq> TASK_KIND_OK" for ds known
    using that by (induction ds kind version known rule: lookup_loop.induct) (auto split: if_splits)
  have "registry_lookup ?r kind version =
         (if kind \<notin> set (production_kinds b) then (TASK_KIND_UNKNOWN, None)
          else if version = 1
          then (TASK_KIND_OK, Some \<lparr>kd_kind = kind, kd_kind_version = 1, kd_reconstruct = reconstruct kind\<rparr>)
          else (TASK_KIND_UNSUPPORTED_VERSION, None))"
    if "task_kind_is_valid kind" "version \<noteq> 0"
  proof -
    have found: "registry_lookup ?r kind version = lookup_loop ?r kind version False"
      using that size by (simp add: registry_lookup_def)
    have member: "(\<exists>d \<in> set ?r. kd_kind d = kind \<and> kd_kind_version d = v) \<longleftrightarrow> kind \<in> set (production_kinds b) \<and> v = 1"
      "(\<exists>d \<in> set ?r. kd_kind d = kind) \<longleftrightarrow> kind \<in> set (production_kinds b)" for v
      by (auto simp: registry_production_def)
    note result = lookup_loop_result [of ?r kind version False, unfolded kinds member, OF dist]
    show ?thesis
    proof (cases "kind \<in> set (production_kinds b) \<and> version = 1")
      case True
      then obtain d' where ok: "lookup_loop ?r kind version False = (TASK_KIND_OK, d')"
        using result by (cases "lookup_loop ?r kind version False") simp
      then obtain d where "d \<in> set ?r" "d' = Some d" "kd_kind d = kind" using lookup_loop_OK by blast
      then show ?thesis using True found ok by (auto simp: registry_production_def)
    next
      case False
      then have "fst (lookup_loop ?r kind version False) \<noteq> TASK_KIND_OK" using result by auto
      with none [OF this] result False show ?thesis
        by (cases "lookup_loop ?r kind version False") (auto simp: found)
    qed
  qed
  with init show ?thesis by blast
qed

theorem production_kinds_are_sound_witness:
  "registry_lookup sample_kinds ''sparse_sfm.run'' 2 = (TASK_KIND_UNSUPPORTED_VERSION, None)
    \<and> registry_lookup sample_kinds ''acquisition_campaign.run'' 1 = (TASK_KIND_UNKNOWN, None)"
proof -
  have "task_kind_is_valid ''sparse_sfm.run''" "task_kind_is_valid ''acquisition_campaign.run''"
    by code_simp+
  then show ?thesis
    unfolding sample_kinds_def
    using production_kinds_are_sound [of _ _ "''sparse_sfm.run''" 2]
      production_kinds_are_sound [of _ _ "''acquisition_campaign.run''" 1]
    by (simp add: production_kinds_def)
qed

end
