(* ===== verification/Project_Recovery.thy ===== *)
theory Project_Recovery
  imports Task_Kinds Task_Queue Checkpoint_Store
begin

text \<open>
  The durable hand-off of Task checkpoints between the file system and the project database, and
  the recovery of Tasks after a crash (\<open>project.c\<close>), over the Task rows of the project
  database (\<open>project_db.c\<close>). The database's transactions are atomic and durable
  (\<open>synchronous=FULL\<close>): SQLite answers each statement and a transaction is either
  committed or rolled back.
\<close>

section \<open>The Task rows of the project database\<close>

definition INT64_MAX :: u64 where "INT64_MAX = 0x7FFFFFFFFFFFFFFF"
definition INT_MAX :: u32 where "INT_MAX = 0x7FFFFFFF"
definition PROJECT_DB_PATH_CAPACITY :: nat where "PROJECT_DB_PATH_CAPACITY = 4096"
definition PROJECT_DB_RECOVERY_PAGE_MAX :: nat where "PROJECT_DB_RECOVERY_PAGE_MAX = 256"

datatype project_db_result =
  DB_OK | DB_INVALID_ARGUMENT | DB_NOT_FOUND | DB_BUSY | DB_UNSUPPORTED_SCHEMA | DB_CORRUPT
  | DB_CONSTRAINT | DB_IO_ERROR

datatype checkpoint_durability = DB_CHECKPOINT_DURABLE | DB_CHECKPOINT_PUBLISHED_NOT_DURABLE

record db_checkpoint =
  dc_path :: string
  dc_format_version :: u32
  dc_durability :: checkpoint_durability
  dc_updated_at :: int

record db_task =
  dt_task_id :: u64
  dt_name :: string
  dt_task_kind :: "(string \<times> u32) option"
  dt_saved_state :: u32
  dt_recovery_state :: u32
  dt_progress :: u32
  dt_sequence_count :: u32
  dt_started_at :: timespec
  dt_finished_at :: timespec
  dt_updated_at :: int
  dt_checkpoint :: "db_checkpoint option"

definition valid_task_id :: "u64 \<Rightarrow> bool" where
  "valid_task_id i \<longleftrightarrow> i > 0 \<and> i \<le> INT64_MAX"

definition valid_state_code :: "u32 \<Rightarrow> bool" where
  "valid_state_code c \<longleftrightarrow> c \<ge> TASK_PENDING \<and> c \<le> TASK_COMPLETED"

definition valid_durable_time :: "timespec \<Rightarrow> bool" where
  "valid_durable_time t \<longleftrightarrow> tv_sec t \<ge> 0 \<and> tv_sec t \<le> uint INT64_MAX
     \<and> tv_nsec t \<ge> 0 \<and> tv_nsec t < 1000000000"

definition valid_durable_task :: "durable_snapshot \<Rightarrow> int \<Rightarrow> bool" where
  "valid_durable_task s updated_at \<longleftrightarrow>
     valid_task_id (ds_id s)
     \<and> 0 \<in> set (ds_name s) \<and> buffer_text (ds_name s) \<noteq> []
     \<and> valid_state_code (ds_saved_state s) \<and> valid_state_code (ds_recovery_state s)
     \<and> ds_recovery_state s =
         (if ds_saved_state s = TASK_RUNNING \<or> ds_saved_state s = TASK_PAUSED
          then TASK_PENDING else ds_saved_state s)
     \<and> ds_progress s \<le> 100 \<and> ds_sequence_count s \<le> INT_MAX
     \<and> valid_durable_time (ds_started_at s) \<and> valid_durable_time (ds_finished_at s)
     \<and> updated_at \<ge> 0"

definition valid_db_checkpoint :: "db_checkpoint \<Rightarrow> bool" where
  "valid_db_checkpoint c \<longleftrightarrow>
     dc_path c \<noteq> [] \<and> length (dc_path c) < PROJECT_DB_PATH_CAPACITY
     \<and> dc_format_version c > 0 \<and> dc_updated_at c \<ge> 0"

text \<open>The rows are kept in the order of their primary key.\<close>

definition find_row :: "u64 \<Rightarrow> db_task list \<Rightarrow> db_task option" where
  "find_row i db = find (\<lambda>r. dt_task_id r = i) db"

fun put_row :: "db_task \<Rightarrow> db_task list \<Rightarrow> db_task list" where
  "put_row r [] = [r]"
| "put_row r (x # xs) =
     (if dt_task_id r < dt_task_id x then r # x # xs
      else if dt_task_id r = dt_task_id x then r # xs else x # put_row r xs)"

text \<open>What SQLite answers in one transaction; \<open>payload\<close> is the typed part of the kind.\<close>

record db_env =
  de_begin :: project_db_result
  de_upsert :: project_db_result
  de_payload :: project_db_result
  de_checkpoint :: project_db_result
  de_commit :: project_db_result

definition row_of :: "durable_snapshot \<Rightarrow> (string \<times> u32) option \<Rightarrow> int \<Rightarrow> db_checkpoint option \<Rightarrow> db_task" where
  "row_of s kind updated_at checkpoint =
     \<lparr>dt_task_id = ds_id s, dt_name = buffer_text (ds_name s), dt_task_kind = kind,
      dt_saved_state = ds_saved_state s, dt_recovery_state = ds_recovery_state s,
      dt_progress = ds_progress s, dt_sequence_count = ds_sequence_count s,
      dt_started_at = ds_started_at s, dt_finished_at = ds_finished_at s,
      dt_updated_at = updated_at, dt_checkpoint = checkpoint\<rparr>"

definition record_task ::
    "db_env \<Rightarrow> durable_snapshot \<Rightarrow> (string \<times> u32) option \<Rightarrow> db_checkpoint option \<Rightarrow> int
      \<Rightarrow> db_task list \<Rightarrow> project_db_result \<times> db_task list" where
  "record_task env s kind checkpoint updated_at db =
     (let old = find_row (ds_id s) db;
          kept = (case checkpoint of Some c \<Rightarrow> Some c | None \<Rightarrow> Option.bind old dt_checkpoint)
      in
      if \<not> valid_durable_task s updated_at
        \<or> (case kind of Some (k, version) \<Rightarrow> \<not> task_kind_is_valid k \<or> version = 0 | None \<Rightarrow> False)
        \<or> (case checkpoint of Some c \<Rightarrow> \<not> valid_db_checkpoint c | None \<Rightarrow> False)
      then (DB_INVALID_ARGUMENT, db)
      else if de_begin env \<noteq> DB_OK then (de_begin env, db)
      else if de_upsert env \<noteq> DB_OK then (de_upsert env, db)
      else if (case old of Some r \<Rightarrow> dt_task_kind r \<noteq> kind | None \<Rightarrow> False) then (DB_CONSTRAINT, db)
      else if de_payload env \<noteq> DB_OK then (de_payload env, db)
      else if checkpoint \<noteq> None \<and> de_checkpoint env \<noteq> DB_OK then (de_checkpoint env, db)
      else if de_commit env \<noteq> DB_OK then (de_commit env, db)
      else (DB_OK, put_row (row_of s kind updated_at kept) db))"

definition readable_row :: "db_task \<Rightarrow> bool" where
  "readable_row r \<longleftrightarrow>
     dt_task_id r > 0 \<and> length (dt_name r) < TASK_NAME_CAPACITY
     \<and> (case dt_task_kind r of
          Some (k, version) \<Rightarrow> length k < TASK_KIND_CAPACITY \<and> task_kind_is_valid k \<and> version > 0
        | None \<Rightarrow> True)
     \<and> dt_progress r \<le> 100
     \<and> valid_durable_time (dt_started_at r) \<and> valid_durable_time (dt_finished_at r)
     \<and> (case dt_checkpoint r of
          Some c \<Rightarrow> length (dc_path c) < PROJECT_DB_PATH_CAPACITY \<and> dc_format_version c > 0
        | None \<Rightarrow> True)
     \<and> valid_state_code (dt_saved_state r) \<and> valid_state_code (dt_recovery_state r)"

definition load_task :: "project_db_result \<Rightarrow> u64 \<Rightarrow> db_task list \<Rightarrow> project_db_result + db_task" where
  "load_task prepared i db =
     (if \<not> valid_task_id i then Inl DB_INVALID_ARGUMENT
      else if prepared \<noteq> DB_OK then Inl prepared
      else case find_row i db of
        None \<Rightarrow> Inl DB_NOT_FOUND
      | Some r \<Rightarrow> if readable_row r then Inr r else Inl DB_CORRUPT)"

definition list_recoverable_rows ::
    "project_db_result \<Rightarrow> u64 \<Rightarrow> nat \<Rightarrow> db_task list \<Rightarrow> project_db_result + db_task list" where
  "list_recoverable_rows listed after_task_id capacity db =
     (if after_task_id > INT64_MAX \<or> capacity = 0 \<or> capacity > PROJECT_DB_RECOVERY_PAGE_MAX
      then Inl DB_INVALID_ARGUMENT
      else
        let rows = take capacity (filter (\<lambda>r. dt_recovery_state r = TASK_PENDING
          \<and> dt_checkpoint r \<noteq> None \<and> dt_task_id r > after_task_id) db)
        in if \<not> list_all readable_row rows then Inl DB_CORRUPT
           else if listed \<noteq> DB_OK then Inl listed else Inr rows)"

section \<open>Publishing a checkpoint\<close>

datatype project_checkpoint_result =
  PROJECT_CHECKPOINT_OK | PROJECT_CHECKPOINT_PUBLISHED_NOT_DURABLE | PROJECT_CHECKPOINT_NO_PROJECT
  | PROJECT_CHECKPOINT_INVALID_TASK | PROJECT_CHECKPOINT_IO_ERROR | PROJECT_CHECKPOINT_DB_BUSY
  | PROJECT_CHECKPOINT_DB_ERROR

fun decimal :: "nat \<Rightarrow> string" where
  "decimal n = (if n < 10 then [char_of (48 + n)] else decimal (n div 10) @ [char_of (48 + n mod 10)])"

declare decimal.simps [simp del]

definition checkpoint_paths :: "string \<Rightarrow> u64 \<Rightarrow> (string \<times> string) option" where
  "checkpoint_paths project_path identity =
     (let relative = ''.lardon3d/checkpoints/'' @ decimal (unat identity) @ ''.chk'';
          absolute = project_path @ ''/'' @ relative
      in if length relative < PROJECT_DB_PATH_CAPACITY \<and> length absolute < PATH_CAPACITY
         then Some (relative, absolute) else None)"

text \<open>The advisory lock of a checkpoint; \<open>granted\<close> is what the host answers.\<close>

definition checkpoint_lock_acquire :: "bool \<Rightarrow> string \<Rightarrow> bool" where
  "checkpoint_lock_acquire granted checkpoint_path \<longleftrightarrow>
     length (checkpoint_path @ ''.lock'') < PATH_CAPACITY \<and> granted"

text \<open>The answers of the host to one publication: lock, clock, and the system calls of its parts.\<close>

record publish_env =
  pe_lock :: bool
  pe_now :: "int option"
  pe_stage :: io_env
  pe_db :: db_env
  pe_load :: io_env
  pe_save :: io_env
  pe_discard :: io_env

definition recorded_checkpoint :: "string \<Rightarrow> int \<Rightarrow> db_checkpoint" where
  "recorded_checkpoint relative now =
     \<lparr>dc_path = relative, dc_format_version = TASK_CHECKPOINT_VERSION,
      dc_durability = DB_CHECKPOINT_DURABLE, dc_updated_at = now\<rparr>"

text \<open>
  \<open>checkpoint_task_internal\<close>: the result and the states of the file system and the database
  it goes through, oldest first; \<^const>\<open>None\<close> when the given results of \<open>write\<close> run out.
\<close>

type_synonym stores = "fs \<times> db_task list"

definition record_and_promote ::
    "publish_env \<Rightarrow> string \<Rightarrow> string \<Rightarrow> durable_snapshot \<Rightarrow> string \<times> u32 \<Rightarrow> int \<Rightarrow> fs \<Rightarrow> db_task list
      \<Rightarrow> (project_checkpoint_result \<times> stores list) option" where
  "record_and_promote env relative absolute s kind now fs db =
     (case record_task (pe_db env) s (Some kind) (Some (recorded_checkpoint relative now)) now db of
        (DB_OK, recorded) \<Rightarrow>
          (case checkpoint_promote_staged (pe_load env) (pe_save env) (pe_discard env) absolute fs of
             None \<Rightarrow> None
           | Some (promoted, states) \<Rightarrow> Some
               (if promoted = CHECKPOINT_OK then PROJECT_CHECKPOINT_OK
                else PROJECT_CHECKPOINT_PUBLISHED_NOT_DURABLE,
                (fs, db) # map (\<lambda>f. (f, recorded)) (fs # states)))
      | (DB_BUSY, _) \<Rightarrow> Some (PROJECT_CHECKPOINT_DB_BUSY, [(fs, db)])
      | (_, _) \<Rightarrow> Some (PROJECT_CHECKPOINT_DB_ERROR, [(fs, db)]))"

definition checkpoint_task ::
    "publish_env \<Rightarrow> bool \<Rightarrow> string \<Rightarrow> task \<Rightarrow> stores \<Rightarrow> (project_checkpoint_result \<times> stores list) option" where
  "checkpoint_task env project_loaded project_path t st =
     (let (fs, db) = st; s = task_durable_snapshot t in
      if \<not> project_loaded then Some (PROJECT_CHECKPOINT_NO_PROJECT, [st])
      else if ds_id s = 0 then Some (PROJECT_CHECKPOINT_INVALID_TASK, [st])
      else if tk_kind t = [] then Some (PROJECT_CHECKPOINT_INVALID_TASK, [st])
      else case checkpoint_paths project_path (ds_id s) of
        None \<Rightarrow> Some (PROJECT_CHECKPOINT_IO_ERROR, [st])
      | Some (relative, absolute) \<Rightarrow>
          if \<not> checkpoint_lock_acquire (pe_lock env) absolute then Some (PROJECT_CHECKPOINT_IO_ERROR, [st])
          else case checkpoint_stage (pe_stage env) absolute s fs of
            None \<Rightarrow> None
          | Some (saved, states) \<Rightarrow>
              let staged = map (\<lambda>f. (f, db)) states in
              if saved = CHECKPOINT_INVALID then Some (PROJECT_CHECKPOINT_INVALID_TASK, staged)
              else if saved = CHECKPOINT_PUBLISHED_NOT_DURABLE
              then Some (PROJECT_CHECKPOINT_PUBLISHED_NOT_DURABLE, staged)
              else if saved \<noteq> CHECKPOINT_OK then Some (PROJECT_CHECKPOINT_IO_ERROR, staged)
              else case pe_now env of
                None \<Rightarrow> Some (PROJECT_CHECKPOINT_DB_ERROR, staged)
              | Some now \<Rightarrow>
                  map_option (\<lambda>(result, published). (result, staged @ published))
                    (record_and_promote env relative absolute s (tk_kind t, tk_kind_version t) now
                      (last states) db))"

section \<open>Recovery of one Task\<close>

datatype recovery_status =
  RECOVERABLE | RECOVERABLE_PUBLISHED_NOT_DURABLE | RECOVERY_MISSING_CHECKPOINT
  | RECOVERY_INVALID_CHECKPOINT | RECOVERY_UNSUPPORTED_CHECKPOINT | RECOVERY_CHECKPOINT_IO_ERROR
  | RECOVERY_LEGACY_UNTYPED | RECOVERY_UNKNOWN_TASK_KIND | RECOVERY_UNSUPPORTED_TASK_KIND_VERSION

record recovery_entry =
  rx_task_id :: u64
  rx_name :: string
  rx_task_kind :: "(string \<times> u32) option"
  rx_status :: recovery_status
  rx_durability :: "checkpoint_durability option"
  rx_snapshot :: "durable_snapshot option"

definition coherent_recovery :: "db_task \<Rightarrow> durable_snapshot \<Rightarrow> bool" where
  "coherent_recovery r s \<longleftrightarrow>
     ds_id s = dt_task_id r \<and> buffer_text (ds_name s) = dt_name r
     \<and> ds_saved_state s = dt_saved_state r \<and> ds_recovery_state s = dt_recovery_state r
     \<and> ds_progress s = dt_progress r \<and> ds_sequence_count s = dt_sequence_count r"

text \<open>A loaded checkpoint that the row describes.\<close>

definition matches_row ::
    "db_task \<Rightarrow> db_checkpoint \<Rightarrow> checkpoint_result \<times> durable_snapshot option \<times> u32 option \<Rightarrow> bool" where
  "matches_row r c loaded \<longleftrightarrow>
     (case loaded of
        (CHECKPOINT_OK, Some s, version) \<Rightarrow>
          (case version of None \<Rightarrow> 0 | Some v \<Rightarrow> v) = dc_format_version c \<and> coherent_recovery r s
      | _ \<Rightarrow> False)"

record recover_env =
  rn_lock :: bool
  rn_reload :: project_db_result
  rn_load :: io_env
  rn_load_staged :: io_env
  rn_promote_load :: io_env
  rn_promote_save :: io_env
  rn_promote_discard :: io_env

text \<open>
  The choice between the canonical and the staged checkpoint under the lock: the status, the
  snapshot, and the file system after a promotion.
\<close>

fun unmatched_status :: "checkpoint_result \<Rightarrow> recovery_status" where
  "unmatched_status CHECKPOINT_NOT_FOUND = RECOVERY_MISSING_CHECKPOINT"
| "unmatched_status CHECKPOINT_UNSUPPORTED_VERSION = RECOVERY_UNSUPPORTED_CHECKPOINT"
| "unmatched_status CHECKPOINT_IO_ERROR = RECOVERY_CHECKPOINT_IO_ERROR"
| "unmatched_status _ = RECOVERY_INVALID_CHECKPOINT"

definition matched_status :: "checkpoint_result \<Rightarrow> checkpoint_durability \<Rightarrow> recovery_status" where
  "matched_status promotion durability =
     (if promotion = CHECKPOINT_PUBLISHED_NOT_DURABLE
        \<or> durability = DB_CHECKPOINT_PUBLISHED_NOT_DURABLE
      then RECOVERABLE_PUBLISHED_NOT_DURABLE else RECOVERABLE)"

definition select_checkpoint ::
    "recover_env \<Rightarrow> string \<Rightarrow> db_task \<Rightarrow> db_checkpoint \<Rightarrow> fs
      \<Rightarrow> (recovery_status \<times> durable_snapshot option \<times> fs) option" where
  "select_checkpoint env absolute r c fs =
     (let canonical = checkpoint_load (rn_load env) absolute fs;
          (loaded, snapshot, version) = canonical
      in
      if matches_row r c canonical
      then Some (matched_status CHECKPOINT_OK (dc_durability c), snapshot, fs)
      else
        let staged = checkpoint_load_staged (rn_load_staged env) absolute fs in
        if matches_row r c staged
        then (case checkpoint_promote_staged (rn_promote_load env) (rn_promote_save env)
                  (rn_promote_discard env) absolute fs of
            None \<Rightarrow> None
          | Some (promotion, states) \<Rightarrow>
              if promotion = CHECKPOINT_OK \<or> promotion = CHECKPOINT_PUBLISHED_NOT_DURABLE
              then Some (matched_status promotion (dc_durability c), fst (snd staged), last states)
              else Some (unmatched_status loaded, fst (snd staged), last states))
        else Some (unmatched_status loaded, snapshot, fs))"

datatype entry_outcome = ENTRY_FAILED project_db_result | ENTRY_SKIPPED | ENTRY recovery_entry

definition page_entry :: "db_task \<Rightarrow> recovery_status \<Rightarrow> recovery_entry" where
  "page_entry page status =
     \<lparr>rx_task_id = dt_task_id page, rx_name = dt_name page, rx_task_kind = dt_task_kind page,
      rx_status = status, rx_durability = map_option dc_durability (dt_checkpoint page),
      rx_snapshot = None\<rparr>"

definition recover_locked ::
    "recover_env \<Rightarrow> string \<Rightarrow> string \<Rightarrow> db_task \<Rightarrow> db_task list \<Rightarrow> fs \<Rightarrow> (entry_outcome \<times> fs) option" where
  "recover_locked env relative absolute page db fs =
     (case load_task (rn_reload env) (dt_task_id page) db of
        Inl e \<Rightarrow> Some (ENTRY_FAILED e, fs)
      | Inr r \<Rightarrow>
          (case (dt_checkpoint r, dt_task_kind r) of
             (Some c, Some kind) \<Rightarrow>
               if dt_recovery_state r \<noteq> TASK_PENDING \<or> relative \<noteq> dc_path c
               then Some (ENTRY_SKIPPED, fs)
               else map_option (\<lambda>(status, snapshot, fs).
                   (ENTRY \<lparr>rx_task_id = dt_task_id page, rx_name = dt_name r,
                      rx_task_kind = Some kind, rx_status = status,
                      rx_durability = Some (dc_durability c), rx_snapshot = snapshot\<rparr>, fs))
                 (select_checkpoint env absolute r c fs)
           | _ \<Rightarrow> Some (ENTRY_SKIPPED, fs)))"

definition recover_entry ::
    "recover_env \<Rightarrow> kind_descriptor list \<Rightarrow> string \<Rightarrow> db_task \<Rightarrow> db_task list \<Rightarrow> fs
      \<Rightarrow> (entry_outcome \<times> fs) option" where
  "recover_entry env registry project_path page db fs =
     (case dt_task_kind page of
        None \<Rightarrow> Some (ENTRY (page_entry page RECOVERY_LEGACY_UNTYPED), fs)
      | Some (kind, version) \<Rightarrow>
          (case fst (registry_lookup registry kind version) of
             TASK_KIND_UNSUPPORTED_VERSION \<Rightarrow>
               Some (ENTRY (page_entry page RECOVERY_UNSUPPORTED_TASK_KIND_VERSION), fs)
           | TASK_KIND_OK \<Rightarrow>
               (case checkpoint_paths project_path (dt_task_id page) of
                  None \<Rightarrow> Some (ENTRY (page_entry page RECOVERY_INVALID_CHECKPOINT), fs)
                | Some (relative, absolute) \<Rightarrow>
                    if Some relative \<noteq> map_option dc_path (dt_checkpoint page)
                    then Some (ENTRY (page_entry page RECOVERY_INVALID_CHECKPOINT), fs)
                    else if \<not> checkpoint_lock_acquire (rn_lock env) absolute
                    then Some (ENTRY (page_entry page RECOVERY_CHECKPOINT_IO_ERROR), fs)
                    else recover_locked env relative absolute page db fs)
           | _ \<Rightarrow> Some (ENTRY (page_entry page RECOVERY_UNKNOWN_TASK_KIND), fs)))"

section \<open>Listing\<close>

text \<open>The answers of the host are given per Task, and per page by the cursor it starts after.\<close>

fun recover_rows ::
    "(u64 \<Rightarrow> recover_env) \<Rightarrow> kind_descriptor list \<Rightarrow> string \<Rightarrow> db_task list \<Rightarrow> db_task list
      \<Rightarrow> recovery_entry list \<Rightarrow> fs \<Rightarrow> (project_db_result \<times> recovery_entry list \<times> fs) option" where
  "recover_rows envs registry project_path db [] entries fs = Some (DB_OK, entries, fs)"
| "recover_rows envs registry project_path db (page # pages) entries fs =
     (case recover_entry (envs (dt_task_id page)) registry project_path page db fs of
        None \<Rightarrow> None
      | Some (ENTRY_FAILED e, fs) \<Rightarrow> Some (e, entries, fs)
      | Some (ENTRY_SKIPPED, fs) \<Rightarrow> recover_rows envs registry project_path db pages entries fs
      | Some (ENTRY x, fs) \<Rightarrow> recover_rows envs registry project_path db pages (entries @ [x]) fs)"

definition RECOVERY_CHUNK :: nat where "RECOVERY_CHUNK = 8"

definition rows_after :: "u64 \<Rightarrow> db_task list \<Rightarrow> db_task list" where
  "rows_after cursor db = filter (\<lambda>r. dt_task_id r > cursor) db"

lemma list_recoverable_rows_in:
  "list_recoverable_rows listed cursor n db = Inr rows \<Longrightarrow> set rows \<subseteq> set (rows_after cursor db)"
  by (auto simp: list_recoverable_rows_def Let_def rows_after_def split: if_splits dest!: in_set_takeD)

lemma rows_after_decreases:
  assumes "r \<in> set (rows_after cursor db)"
  shows "length (rows_after (dt_task_id r) db) < length (rows_after cursor db)"
proof -
  have "rows_after (dt_task_id r) db = filter (\<lambda>x. dt_task_id x > dt_task_id r) (rows_after cursor db)"
    using assms by (auto simp: rows_after_def intro: filter_cong)
  then show ?thesis using length_filter_less [OF assms, of "\<lambda>x. dt_task_id x > dt_task_id r"] by simp
qed

function list_loop ::
    "(u64 \<Rightarrow> recover_env) \<Rightarrow> (u64 \<Rightarrow> project_db_result) \<Rightarrow> kind_descriptor list \<Rightarrow> string \<Rightarrow> db_task list
      \<Rightarrow> nat \<Rightarrow> u64 \<Rightarrow> recovery_entry list \<Rightarrow> fs \<Rightarrow> (project_db_result \<times> recovery_entry list \<times> fs) option" where
  "list_loop envs pages registry project_path db capacity cursor entries fs =
     (if length entries \<ge> capacity then Some (DB_OK, entries, fs)
      else
        let requested = min (capacity - length entries) RECOVERY_CHUNK in
        case list_recoverable_rows (pages cursor) cursor requested db of
          Inl e \<Rightarrow> Some (e, entries, fs)
        | Inr rows \<Rightarrow>
            (case recover_rows envs registry project_path db rows entries fs of
               Some (DB_OK, entries, fs) \<Rightarrow>
                 if length rows < requested then Some (DB_OK, entries, fs)
                 else list_loop envs pages registry project_path db capacity
                   (dt_task_id (last rows)) entries fs
             | failure \<Rightarrow> failure))"
  by pat_completeness auto

termination
proof (relation "measure (\<lambda>(envs, pages, registry, project_path, db, capacity, cursor, entries, fs).
    length (rows_after cursor db))", goal_cases)
  case 1
  show ?case by simp
next
  case (2 envs pages registry project_path db capacity cursor entries fs requested rows)
  then have "rows \<noteq> []" by (auto simp: RECOVERY_CHUNK_def)
  then have "last rows \<in> set (rows_after cursor db)"
    using list_recoverable_rows_in [OF 2(3)] last_in_set by blast
  then show ?case by (simp add: rows_after_decreases)
qed

declare list_loop.simps [simp del]

definition project_list_recoverable ::
    "(u64 \<Rightarrow> recover_env) \<Rightarrow> (u64 \<Rightarrow> project_db_result) \<Rightarrow> bool \<Rightarrow> kind_descriptor list \<Rightarrow> string \<Rightarrow> db_task list
      \<Rightarrow> u64 \<Rightarrow> nat \<Rightarrow> fs \<Rightarrow> (project_db_result \<times> recovery_entry list \<times> fs) option" where
  "project_list_recoverable envs pages project_loaded registry project_path db after_task_id capacity fs =
     (if \<not> project_loaded \<or> capacity = 0 \<or> capacity > PROJECT_DB_RECOVERY_PAGE_MAX
      then Some (DB_INVALID_ARGUMENT, [], fs)
      else list_loop envs pages registry project_path db capacity after_task_id [] fs)"

section \<open>Resumption\<close>

record recovery_summary =
  rm_inspected :: nat
  rm_resumed :: nat
  rm_skipped :: nat
  rm_failed :: nat
  rm_published_not_durable :: nat
  rm_queue_full :: bool

definition zero_recovery :: recovery_summary where
  "zero_recovery = \<lparr>rm_inspected = 0, rm_resumed = 0, rm_skipped = 0, rm_failed = 0,
     rm_published_not_durable = 0, rm_queue_full = False\<rparr>"

text \<open>
  One entry of the loop: \<open>node\<close> is the address of the Queue node to be allocated, the last
  answer tells whether the loop stops. A Task that is not added is destroyed.
\<close>

definition resume_task ::
    "nat \<Rightarrow> task \<Rightarrow> recovery_summary \<Rightarrow> task_queue \<Rightarrow> recovery_summary \<times> task_queue \<times> bool" where
  "resume_task node t m q =
     (case try_add_ex True node t q of
        (q, QUEUE_ADD_OK, _) \<Rightarrow> (m\<lparr>rm_resumed := rm_resumed m + 1\<rparr>, q, False)
      | (q, QUEUE_ADD_DUPLICATE_ID, _) \<Rightarrow> (m\<lparr>rm_skipped := rm_skipped m + 1\<rparr>, q, False)
      | (q, QUEUE_ADD_FULL, _) \<Rightarrow>
          (m\<lparr>rm_skipped := rm_skipped m + 1, rm_queue_full := True\<rparr>, q, True)
      | (q, QUEUE_ADD_STOPPING, _) \<Rightarrow>
          (m\<lparr>rm_failed := rm_failed m + 1, rm_queue_full := False\<rparr>, q, True)
      | (q, QUEUE_ADD_ERROR, _) \<Rightarrow> (m\<lparr>rm_failed := rm_failed m + 1\<rparr>, q, False))"

definition entry_resumable :: "recovery_entry \<Rightarrow> bool" where
  "entry_resumable x \<longleftrightarrow>
     (rx_status x = RECOVERABLE \<or> rx_status x = RECOVERABLE_PUBLISHED_NOT_DURABLE)
     \<and> (case rx_snapshot x of Some s \<Rightarrow> ds_recovery_state s = TASK_PENDING | None \<Rightarrow> False)"

definition resume_entry ::
    "kind_hooks \<Rightarrow> kind_descriptor list \<Rightarrow> nat \<Rightarrow> recovery_entry \<Rightarrow> recovery_summary \<Rightarrow> task_queue
      \<Rightarrow> recovery_summary \<times> task_queue \<times> bool" where
  "resume_entry hooks registry node x m q =
     (let m = m\<lparr>rm_inspected := rm_inspected m + 1\<rparr> in
      case (entry_resumable x, rx_snapshot x, rx_task_kind x) of
        (True, Some s, Some (kind, version)) \<Rightarrow>
          let m = (if rx_status x = RECOVERABLE_PUBLISHED_NOT_DURABLE
              then m\<lparr>rm_published_not_durable := rm_published_not_durable m + 1\<rparr> else m) in
          if queue_get (rx_task_id x) q \<noteq> None
          then (m\<lparr>rm_skipped := rm_skipped m + 1\<rparr>, q, False)
          else (case registry_restore hooks True registry kind version s of
              (TASK_KIND_OK, Some t, _) \<Rightarrow> resume_task node t m q
            | _ \<Rightarrow> (m\<lparr>rm_failed := rm_failed m + 1\<rparr>, q, False))
      | _ \<Rightarrow> (m\<lparr>rm_skipped := rm_skipped m + 1\<rparr>, q, False))"

fun resume_entries ::
    "kind_hooks \<Rightarrow> kind_descriptor list \<Rightarrow> (u64 \<Rightarrow> nat) \<Rightarrow> recovery_entry list \<Rightarrow> recovery_summary \<Rightarrow> task_queue
      \<Rightarrow> recovery_summary \<times> task_queue \<times> bool" where
  "resume_entries hooks registry nodes [] m q = (m, q, False)"
| "resume_entries hooks registry nodes (x # xs) m q =
     (case resume_entry hooks registry (nodes (rx_task_id x)) x m q of
        (m, q, True) \<Rightarrow> (m, q, True)
      | (m, q, False) \<Rightarrow> resume_entries hooks registry nodes xs m q)"

definition RECOVERY_PAGE_SIZE :: nat where "RECOVERY_PAGE_SIZE = 8"

text \<open>The page loop, with fuel: each page starts after the last Task of the one before.\<close>

fun resume_pages ::
    "nat \<Rightarrow> (u64 \<Rightarrow> recover_env) \<Rightarrow> (u64 \<Rightarrow> project_db_result) \<Rightarrow> kind_hooks \<Rightarrow> kind_descriptor list
      \<Rightarrow> (u64 \<Rightarrow> nat) \<Rightarrow> string \<Rightarrow> db_task list \<Rightarrow> u64 \<Rightarrow> recovery_summary \<Rightarrow> task_queue \<Rightarrow> fs
      \<Rightarrow> (project_db_result \<times> recovery_summary \<times> task_queue \<times> fs) option" where
  "resume_pages 0 envs pages hooks registry nodes project_path db cursor m q fs = None"
| "resume_pages (Suc fuel) envs pages hooks registry nodes project_path db cursor m q fs =
     (case project_list_recoverable envs pages True registry project_path db cursor RECOVERY_PAGE_SIZE fs of
        None \<Rightarrow> None
      | Some (result, entries, fs) \<Rightarrow>
          if result \<noteq> DB_OK then Some (result, m\<lparr>rm_failed := rm_failed m + 1\<rparr>, q, fs)
          else (case resume_entries hooks registry nodes entries m q of
              (m, q, stop) \<Rightarrow>
                if stop \<or> length entries < RECOVERY_PAGE_SIZE then Some (DB_OK, m, q, fs)
                else let cursor = rx_task_id (last entries) in
                  if cursor > 0
                  then resume_pages fuel envs pages hooks registry nodes project_path db cursor m q fs
                  else Some (DB_OK, m, q, fs)))"

definition resume_recoverable_tasks ::
    "nat \<Rightarrow> (u64 \<Rightarrow> recover_env) \<Rightarrow> (u64 \<Rightarrow> project_db_result) \<Rightarrow> kind_hooks \<Rightarrow> kind_descriptor list
      \<Rightarrow> (u64 \<Rightarrow> nat) \<Rightarrow> bool \<Rightarrow> string \<Rightarrow> db_task list \<Rightarrow> task_queue \<Rightarrow> fs
      \<Rightarrow> (project_db_result \<times> recovery_summary \<times> task_queue \<times> fs) option" where
  "resume_recoverable_tasks fuel envs pages hooks registry nodes project_loaded project_path db q fs =
     (if \<not> project_loaded then Some (DB_INVALID_ARGUMENT, zero_recovery, q, fs)
      else resume_pages fuel envs pages hooks registry nodes project_path db 0 zero_recovery q fs)"

end
