(* ===== verification/Recovery_Theorems.thy ===== *)
theory Recovery_Theorems
  imports Project_Recovery Kind_Theorems
begin

text \<open>
  Crashes between the file system and the project database: the publication of a checkpoint
  keeps every Task recoverable, except after a promotion that failed; and the resumption of the
  recoverable Tasks.
\<close>

section \<open>Rows\<close>

lemma find_row_id: "find_row i db = Some r \<Longrightarrow> dt_task_id r = i"
  by (auto simp: find_row_def find_Some_iff)

lemma find_put_row: "find_row (dt_task_id r) (put_row r db) = Some r"
  by (induction r db rule: put_row.induct) (auto simp: find_row_def)

lemma record_task_OK:
  assumes "record_task env s kind (Some c) now db = (DB_OK, recorded)"
  shows "recorded = put_row (row_of s kind now (Some c)) db" "valid_durable_task s now"
    "find_row (ds_id s) recorded = Some (row_of s kind now (Some c))"
proof -
  show r: "recorded = put_row (row_of s kind now (Some c)) db" and "valid_durable_task s now"
    using assms by (auto simp: record_task_def Let_def split: if_splits)
  have "dt_task_id (row_of s kind now (Some c)) = ds_id s" by (simp add: row_of_def)
  then show "find_row (ds_id s) recorded = Some (row_of s kind now (Some c))"
    using find_put_row [of "row_of s kind now (Some c)" db] by (simp add: r)
qed

lemma row_of_coherent [simp]: "coherent_recovery (row_of s kind now c) s"
  by (simp add: coherent_recovery_def row_of_def)

section \<open>A healthy host\<close>

definition healthy :: "io_env \<Rightarrow> bool" where
  "healthy env \<longleftrightarrow> io_mkstemp env \<and> io_fsync env \<and> io_close env \<and> io_rename env \<and> io_unlink env
     \<and> io_open env \<and> io_read env \<and> io_sync_directory env
     \<and> length (io_writes env) \<ge> CHECKPOINT_SIZE
     \<and> (\<forall>r \<in> set (io_writes env). \<exists>n > 0. r = WRITE_BYTES n)"

definition healthy_recovery :: "recover_env \<Rightarrow> bool" where
  "healthy_recovery env \<longleftrightarrow> rn_lock env \<and> rn_reload env = DB_OK \<and> healthy (rn_load env)
     \<and> healthy (rn_load_staged env) \<and> healthy (rn_promote_load env) \<and> healthy (rn_promote_save env)
     \<and> healthy (rn_promote_discard env)"

lemma healthy_save:
  assumes "healthy env" "storable_snapshot s" "path \<noteq> []" "length path + 11 < PATH_CAPACITY"
  obtains states where "checkpoint_save env path s fs = Some (CHECKPOINT_OK, states)"
proof -
  have len: "length (checkpoint_encode s) = CHECKPOINT_SIZE"
    using assms(2) parse_encode(1) by (simp add: storable_snapshot_def)
  have valid: "checkpoint_valid_snapshot s" using assms(2) by (simp add: storable_snapshot_def)
  obtain contents where w: "write_all (io_writes env) [] (checkpoint_encode s) = Some (True, contents)"
    using write_all_returns [of "checkpoint_encode s" "io_writes env" "[]"] assms(1) len
    by (auto simp: healthy_def)
  show thesis
    using assms(1,3,4) valid that
    by (auto simp: checkpoint_save_def Let_def w healthy_def sync_parent_directory_def split: if_splits)
qed

lemma healthy_discard:
  assumes "healthy env" "staged_path path = Some (path @ ''.next'')" "path \<noteq> []"
  obtains states where "checkpoint_discard_staged env path fs = (CHECKPOINT_OK, states)"
proof -
  have "length (path @ ''.next'') < PATH_CAPACITY"
    using assms(2) by (simp add: staged_path_def Let_def split: if_splits)
  then have "fst (checkpoint_discard_staged env path fs) = CHECKPOINT_OK"
    using assms by (simp add: checkpoint_discard_staged_def sync_parent_directory_def healthy_def Let_def)
  then show thesis using that by (cases "checkpoint_discard_staged env path fs") auto
qed

lemma healthy_promote:
  assumes "healthy env_load" "healthy env_save" "healthy env_discard" "path \<noteq> []"
    "length path + 11 < PATH_CAPACITY"
    and "fs_content fs (path @ ''.next'') = Some data" "checkpoint_parse data = (CHECKPOINT_OK, Some s)"
  obtains states where "checkpoint_promote_staged env_load env_save env_discard path fs
    = Some (CHECKPOINT_OK, states)"
proof -
  have staged: "staged_path path = Some (path @ ''.next'')" using assms(5) by (simp add: staged_path_def Let_def)
  have load: "checkpoint_load_staged env_load path fs = (CHECKPOINT_OK, Some s, Some TASK_CHECKPOINT_VERSION)"
    using load_content_OK [OF assms(6,7)] assms(1,4) staged by (simp add: checkpoint_load_staged_def healthy_def)
  have storable: "storable_snapshot s"
    using parse_OK_storable [OF assms(7)] by (simp add: storable_snapshot_def)
  obtain sstates where save: "checkpoint_save env_save path s fs = Some (CHECKPOINT_OK, sstates)"
    by (rule healthy_save [OF assms(2) storable assms(4,5)])
  obtain dstates where "checkpoint_discard_staged env_discard path (last sstates) = (CHECKPOINT_OK, dstates)"
    by (rule healthy_discard [OF assms(3) staged assms(4)])
  then show thesis using that load save by (simp add: checkpoint_promote_staged_def)
qed

section \<open>Restart\<close>

text \<open>What the next process finds: the contents the crash left, settled.\<close>

definition restart :: "(string \<Rightarrow> bytes option) \<Rightarrow> fs" where
  "restart after = \<lparr>fs_entries = (\<lambda>p. map_option (\<lambda>c. \<lparr>ff_content = c, ff_synced = True\<rparr>) (after p)),
     fs_durable = after\<rparr>"

lemma restart_fs [simp]: "fs_settled (restart after)" "fs_content (restart after) p = after p"
  by (auto simp: restart_def fs_settled_def fs_content_def option.map_comp comp_def option.map_ident)

lemma restart_load:
  assumes "healthy env" "path \<noteq> []" "after path = Some data" "checkpoint_parse data = (CHECKPOINT_OK, Some s)"
  shows "checkpoint_load env path (restart after) = (CHECKPOINT_OK, Some s, Some TASK_CHECKPOINT_VERSION)"
  using assms by (intro load_content_OK) (simp_all add: healthy_def)

lemma restart_load_staged:
  assumes "healthy env" "path \<noteq> []" "staged_path path = Some (path @ ''.next'')"
    "after (path @ ''.next'') = Some data" "checkpoint_parse data = (CHECKPOINT_OK, Some s)"
  shows "checkpoint_load_staged env path (restart after)
    = (CHECKPOINT_OK, Some s, Some TASK_CHECKPOINT_VERSION)"
  using restart_load [where path = "path @ ''.next''" and after = after, OF assms(1) _ assms(4,5)] assms(2,3)
  by (simp add: checkpoint_load_staged_def)

text \<open>Recovery chooses a checkpoint that the row describes, when one is readable.\<close>

lemma select_canonical:
  assumes "healthy_recovery env" "path \<noteq> []" "after path = Some data"
    "checkpoint_parse data = (CHECKPOINT_OK, Some s)"
    "dc_format_version c = TASK_CHECKPOINT_VERSION" "coherent_recovery r s"
  shows "select_checkpoint env path r c (restart after)
    = Some (matched_status CHECKPOINT_OK (dc_durability c), Some s, restart after)"
  using restart_load [where env = "rn_load env" and path = path and after = after, OF _ assms(2-4)] assms(1,5,6)
  by (simp add: select_checkpoint_def matches_row_def healthy_recovery_def)

lemma select_staged:
  assumes "healthy_recovery env" "path \<noteq> []" "length path + 11 < PATH_CAPACITY"
    "staged_path path = Some (path @ ''.next'')"
    and canonical: "\<not> matches_row r c (checkpoint_load (rn_load env) path (restart after))"
    and staged: "after (path @ ''.next'') = Some data" "checkpoint_parse data = (CHECKPOINT_OK, Some s)"
    "dc_format_version c = TASK_CHECKPOINT_VERSION" "coherent_recovery r s"
  obtains fs where "select_checkpoint env path r c (restart after)
    = Some (matched_status CHECKPOINT_OK (dc_durability c), Some s, fs)"
proof -
  have h: "healthy (rn_load_staged env)" "healthy (rn_promote_load env)" "healthy (rn_promote_save env)"
    "healthy (rn_promote_discard env)"
    using assms(1) by (simp_all add: healthy_recovery_def)
  note load = restart_load_staged [where path = path and after = after, OF _ assms(2,4) staged(1,2)]
  have content: "fs_content (restart after) (path @ ''.next'') = Some data" using staged(1) by simp
  obtain states where "checkpoint_promote_staged (rn_promote_load env) (rn_promote_save env)
      (rn_promote_discard env) path (restart after) = Some (CHECKPOINT_OK, states)"
    by (rule healthy_promote [OF h(2-4) assms(2,3) content staged(2)])
  then show thesis
    using that canonical load [OF h(1)] staged(3,4)
    by (simp add: select_checkpoint_def matches_row_def split: prod.split)
qed

section \<open>The states of a publication\<close>

lemma staged_of_paths:
  assumes "checkpoint_save env staged s fs = Some (r, states)" "r \<noteq> CHECKPOINT_INVALID"
  shows "length staged + 11 < PATH_CAPACITY"
  using assms by (auto simp: checkpoint_save_def split: if_splits)

lemma stage_states:
  assumes fs: "fs_settled fs" and stage: "checkpoint_stage env path s fs = Some (saved, states)"
    and path: "path \<noteq> []"
  shows "st \<in> set states \<Longrightarrow> may_survive st path c \<Longrightarrow> c = fs_content fs path"
    and "saved = CHECKPOINT_OK \<Longrightarrow> fs_settled (last states)
      \<and> fs_content (last states) path = fs_content fs path
      \<and> fs_content (last states) (path @ ''.next'') = Some (checkpoint_encode s)
      \<and> staged_path path = Some (path @ ''.next'') \<and> length path + 11 < PATH_CAPACITY"
proof -
  let ?next = "path @ ''.next''"
  consider (none) "states = [fs]" "saved = CHECKPOINT_INVALID"
    | (save) "staged_path path = Some ?next" "checkpoint_save env ?next s fs = Some (saved, states)"
    using stage path by (auto simp: checkpoint_stage_def staged_path_def Let_def split: if_splits)
  then have "(st \<in> set states \<longrightarrow> may_survive st path c \<longrightarrow> c = fs_content fs path)
    \<and> (saved = CHECKPOINT_OK \<longrightarrow> fs_settled (last states)
      \<and> fs_content (last states) path = fs_content fs path
      \<and> fs_content (last states) ?next = Some (checkpoint_encode s)
      \<and> staged_path path = Some ?next \<and> length path + 11 < PATH_CAPACITY)"
  proof cases
    case none
    then show ?thesis using settled_survive [OF fs] by auto
  next
    case save
    have ne: "path \<noteq> ?next" "path \<noteq> temporary_name env ?next" by (auto simp: temporary_name_def)
    have "length path + 11 < PATH_CAPACITY" if "saved = CHECKPOINT_OK"
      using staged_of_paths [OF save(2)] that by simp
    then show ?thesis
      using save(1) save_survive(2) [OF fs save(2) _ ne] save_OK(1,2) [OF fs, of env ?next s states]
        save_OK(3) [OF fs _ ne, of s states] save(2) by auto
  qed
  then show "st \<in> set states \<Longrightarrow> may_survive st path c \<Longrightarrow> c = fs_content fs path"
    and "saved = CHECKPOINT_OK \<Longrightarrow> fs_settled (last states)
      \<and> fs_content (last states) path = fs_content fs path
      \<and> fs_content (last states) ?next = Some (checkpoint_encode s)
      \<and> staged_path path = Some ?next \<and> length path + 11 < PATH_CAPACITY" by blast+
qed

text \<open>Once the staged file is durable, the canonical or the staged name keeps the snapshot.\<close>

definition handed_off :: "fs \<Rightarrow> string \<Rightarrow> bytes option \<Rightarrow> bytes \<Rightarrow> bool" where
  "handed_off st path old new \<longleftrightarrow>
     (\<forall>c. may_survive st path c \<longrightarrow> c = old \<or> c = Some new)
     \<and> ((\<forall>c. may_survive st path c \<longrightarrow> c = Some new)
        \<or> (\<forall>c. may_survive st (path @ ''.next'') c \<longrightarrow> c = Some new))"

lemma parse_OK_some: "fst (checkpoint_parse data) = CHECKPOINT_OK \<Longrightarrow> snd (checkpoint_parse data) \<noteq> None"
  by (auto simp: checkpoint_parse_def Let_def split: if_splits option.splits)

lemma load_staged_some:
  assumes "fst (checkpoint_load_staged env path fs) = CHECKPOINT_OK"
  obtains s v where "checkpoint_load_staged env path fs = (CHECKPOINT_OK, Some s, Some v)"
proof -
  obtain p where p: "checkpoint_load_staged env path fs = checkpoint_load env p fs"
    using assms by (auto simp: checkpoint_load_staged_def split: if_splits option.splits)
  obtain sn v where load: "checkpoint_load env p fs = (CHECKPOINT_OK, sn, v)"
    using assms p by (cases "checkpoint_load env p fs") auto
  have v: "v = Some TASK_CHECKPOINT_VERSION" by (rule load_OK_version [OF load])
  have "\<exists>data. checkpoint_parse data = (CHECKPOINT_OK, sn)"
    using load by (auto simp: checkpoint_load_def Let_def split: if_splits option.splits prod.splits)
  then obtain data where "checkpoint_parse data = (CHECKPOINT_OK, sn)" ..
  then have "sn \<noteq> None" using parse_OK_some [of data] by simp
  then show thesis using that load v p by auto
qed

lemma save_states_ne: "checkpoint_save env path s fs = Some (r, states) \<Longrightarrow> states \<noteq> []"
  by (cases rule: checkpoint_save_cases) auto

lemma promote_states:
  assumes fs: "fs_settled fs" and content: "fs_content fs (path @ ''.next'') = Some (checkpoint_encode s)"
    and storable: "storable_snapshot s"
    and promote: "checkpoint_promote_staged env_load env_save env_discard path fs = Some (r, states)"
  shows "st \<in> set states \<Longrightarrow> handed_off st path (fs_content fs path) (checkpoint_encode s)"
    and "states \<noteq> []"
    and "r = CHECKPOINT_OK \<Longrightarrow> may_survive (last states) path c \<Longrightarrow> c = Some (checkpoint_encode s)"
proof -
  let ?next = "path @ ''.next''" and ?new = "checkpoint_encode s"
  have "(st \<in> set states \<longrightarrow> handed_off st path (fs_content fs path) ?new) \<and> states \<noteq> []
    \<and> (r = CHECKPOINT_OK \<longrightarrow> may_survive (last states) path c \<longrightarrow> c = Some ?new)"
  proof (cases "\<exists>s' v. checkpoint_load_staged env_load path fs = (CHECKPOINT_OK, Some s', v)")
    case False
    then have "fst (checkpoint_load_staged env_load path fs) \<noteq> CHECKPOINT_OK"
      using load_staged_some [of env_load path fs] by metis
    then have "states = [fs]" "r \<noteq> CHECKPOINT_OK"
      using promote by (auto simp: checkpoint_promote_staged_def split: prod.splits checkpoint_result.splits)
    then show ?thesis using settled_survive [OF fs] content by (auto simp: handed_off_def)
  next
    case True
    then obtain s' v where load: "checkpoint_load_staged env_load path fs = (CHECKPOINT_OK, Some s', v)" by blast
    have s': "s' = s"
      using load_staged_OK [OF load] content parse_encode(2) storable
      by (metis option.inject prod.inject storable_snapshot_def)
    note facts = promote_survive [OF fs load [unfolded s'] promote]
    have ne: "states \<noteq> []"
      using promote load by (auto simp: checkpoint_promote_staged_def dest: save_states_ne
        split: if_splits option.splits prod.splits)
    have absent: "may_survive (last states) ?next None" if "r = CHECKPOINT_OK"
      using facts(3) [OF last_in_set [OF ne] that]
      by (auto simp: may_survive_def fs_content_def split: option.splits)
    show ?thesis
      using facts(1,2) ne absent last_in_set [OF ne] content unfolding handed_off_def by fastforce
  qed
  then show "st \<in> set states \<Longrightarrow> handed_off st path (fs_content fs path) ?new"
    and "states \<noteq> []"
    and "r = CHECKPOINT_OK \<Longrightarrow> may_survive (last states) path c \<Longrightarrow> c = Some ?new" by blast+
qed

text \<open>The publication: nothing, a stage, or a stage that goes on to the transaction.\<close>

lemma checkpoint_task_cases:
  assumes "checkpoint_task env loaded project_path t (fs, db) = Some (result, states)"
    and "checkpoint_paths project_path (tk_id t) = Some (relative, absolute)"
  obtains (early) "states = [(fs, db)]" "result \<notin> {PROJECT_CHECKPOINT_OK, PROJECT_CHECKPOINT_DB_BUSY}"
  | (staged) saved fstates where
      "checkpoint_stage (pe_stage env) absolute (task_durable_snapshot t) fs = Some (saved, fstates)"
      "states = map (\<lambda>f. (f, db)) fstates" "result \<notin> {PROJECT_CHECKPOINT_OK, PROJECT_CHECKPOINT_DB_BUSY}"
  | (published) fstates now rest where
      "checkpoint_stage (pe_stage env) absolute (task_durable_snapshot t) fs = Some (CHECKPOINT_OK, fstates)"
      "states = map (\<lambda>f. (f, db)) fstates @ rest"
      "record_and_promote env relative absolute (task_durable_snapshot t) (tk_kind t, tk_kind_version t) now
         (last fstates) db = Some (result, rest)"
proof -
  have id: "ds_id (task_durable_snapshot t) = tk_id t" by (simp add: task_durable_snapshot_def)
  show thesis
  proof (cases "\<not> loaded \<or> tk_id t = 0 \<or> tk_kind t = [] \<or> \<not> checkpoint_lock_acquire (pe_lock env) absolute")
    case True
    then show thesis using assms early by (auto simp: checkpoint_task_def Let_def id split: if_splits)
  next
    case False
    then obtain saved fstates where
        stage: "checkpoint_stage (pe_stage env) absolute (task_durable_snapshot t) fs = Some (saved, fstates)"
      using assms by (auto simp: checkpoint_task_def Let_def id split: option.splits)
    show thesis
    proof (cases "saved = CHECKPOINT_OK \<and> pe_now env \<noteq> None")
      case True
      then show thesis using assms False published stage
        by (auto simp: checkpoint_task_def Let_def id)
    next
      case rejected: False
      then show thesis using assms False staged [OF stage] stage
        by (auto simp: checkpoint_task_def Let_def id split: if_splits)
    qed
  qed
qed

text \<open>The transaction of a publication and the promotion that follows.\<close>

lemma publish_states:
  assumes fs: "fs_settled fs" and content: "fs_content fs (absolute @ ''.next'') = Some (checkpoint_encode s)"
    and storable: "storable_snapshot s"
    and publish: "record_and_promote env relative absolute s kind now fs db = Some (result, rest)"
    and st: "(st, db') \<in> set rest"
  obtains (unrecorded) "st = fs" "db' = db" "result = PROJECT_CHECKPOINT_OK \<longrightarrow> (st, db') \<noteq> last rest"
  | (recorded) "db' = put_row (row_of s (Some kind) now (Some (recorded_checkpoint relative now))) db"
      "find_row (ds_id s) db' = Some (row_of s (Some kind) now (Some (recorded_checkpoint relative now)))"
      "handed_off st absolute (fs_content fs absolute) (checkpoint_encode s)"
      "result = PROJECT_CHECKPOINT_OK \<and> (st, db') = last rest
        \<longrightarrow> (\<forall>c. may_survive st absolute c \<longrightarrow> c = Some (checkpoint_encode s))"
proof -
  let ?row = "row_of s (Some kind) now (Some (recorded_checkpoint relative now))"
  obtain r rows where row_written: "record_task (pe_db env) s (Some kind) (Some (recorded_checkpoint relative now))
      now db = (r, rows)" by (cases "record_task (pe_db env) s (Some kind)
      (Some (recorded_checkpoint relative now)) now db")
  show thesis
  proof (cases "r = DB_OK")
    case False
    then have "rest = [(fs, db)]" "result \<noteq> PROJECT_CHECKPOINT_OK"
      using publish row_written by (auto simp: record_and_promote_def split: project_db_result.splits)
    then show thesis using unrecorded st by simp
  next
    case True
    note row = record_task_OK [OF row_written [unfolded True]]
    obtain promoted fstates where promote: "checkpoint_promote_staged (pe_load env) (pe_save env) (pe_discard env)
        absolute fs = Some (promoted, fstates)"
      and rest: "rest = (fs, db) # map (\<lambda>f. (f, rows)) (fs # fstates)"
      and result: "result = PROJECT_CHECKPOINT_OK \<longleftrightarrow> promoted = CHECKPOINT_OK"
      using publish row_written True by (auto simp: record_and_promote_def split: option.splits prod.splits)
    note states = promote_states [OF fs content storable promote]
    have last: "last rest = (last fstates, rows)" using states(2) by (simp add: rest last_map)
    have start: "handed_off fs absolute (fs_content fs absolute) (checkpoint_encode s)"
      using settled_survive [OF fs] content by (auto simp: handed_off_def)
    show thesis
    proof (cases "db' = rows \<and> st \<in> set (fs # fstates)")
      case True
      then have "handed_off st absolute (fs_content fs absolute) (checkpoint_encode s)"
        using start states(1) by auto
      moreover have "\<forall>c. may_survive st absolute c \<longrightarrow> c = Some (checkpoint_encode s)"
        if "result = PROJECT_CHECKPOINT_OK" "(st, db') = last rest"
        using states(3) result that last by auto
      ultimately show thesis using recorded row(1,3) True by blast
    next
      case False
      then have "st = fs" "db' = db" "db \<noteq> rows" using st rest by auto
      then show thesis using unrecorded last by simp
    qed
  qed
qed

text \<open>
  Every state of a publication: before the transaction with the canonical checkpoint as it was,
  or after it with the snapshot handed off.
\<close>

lemma publication_states:
  assumes fs: "fs_settled fs" and storable: "storable_snapshot (task_durable_snapshot t)"
    and paths: "checkpoint_paths project_path (tk_id t) = Some (relative, absolute)"
    and run: "checkpoint_task env loaded project_path t (fs, db) = Some (result, states)"
    and st: "(st, db') \<in> set states" and crash: "crash_leaves st after"
  obtains (unrecorded) "db' = db" "after absolute = fs_content fs absolute"
      "result = PROJECT_CHECKPOINT_OK \<longrightarrow> (st, db') \<noteq> last states"
  | (recorded) now where
      "find_row (tk_id t) db' = Some (row_of (task_durable_snapshot t) (Some (tk_kind t, tk_kind_version t)) now
         (Some (recorded_checkpoint relative now)))"
      "staged_path absolute = Some (absolute @ ''.next'')" "length absolute + 11 < PATH_CAPACITY"
      "after absolute = fs_content fs absolute \<and> result \<noteq> PROJECT_CHECKPOINT_OK
         \<or> after absolute = fs_content fs absolute \<and> (st, db') \<noteq> last states
         \<or> after absolute = Some (checkpoint_encode (task_durable_snapshot t))"
      "after absolute = Some (checkpoint_encode (task_durable_snapshot t))
        \<or> after (absolute @ ''.next'') = Some (checkpoint_encode (task_durable_snapshot t))"
proof -
  let ?s = "task_durable_snapshot t"
  have survive: "may_survive st p (after p)" for p using crash by (simp add: crash_leaves_def)
  have absolute: "absolute \<noteq> []" using paths by (auto simp: checkpoint_paths_def Let_def split: if_splits)
  have id: "ds_id ?s = tk_id t" by (simp add: task_durable_snapshot_def)
  from run paths show thesis
  proof (cases rule: checkpoint_task_cases)
    case early
    then show thesis using unrecorded settled_survive [OF fs] survive st by auto
  next
    case (staged saved fstates)
    then show thesis using unrecorded stage_states(1) [OF fs staged(1) absolute _ survive] st by auto
  next
    case (published fstates now rest)
    note stage = stage_states [OF fs published(1) absolute]
    then have stage': "fs_settled (last fstates)" "fs_content (last fstates) absolute = fs_content fs absolute"
      "fs_content (last fstates) (absolute @ ''.next'') = Some (checkpoint_encode ?s)"
      "staged_path absolute = Some (absolute @ ''.next'')" "length absolute + 11 < PATH_CAPACITY"
      by simp_all
    have rest: "rest \<noteq> []"
      using published(3) by (auto simp: record_and_promote_def split: prod.splits project_db_result.splits option.splits)
    then have last: "last states = last rest" using published(2) by simp
    show thesis
    proof (cases "(st, db') \<in> set rest")
      case False
      then have "st \<in> set fstates" "db' = db" "(st, db') \<noteq> last rest"
        using st published(2) last_in_set [OF rest] by auto
      then show thesis using unrecorded stage(1) survive last by metis
    next
      case True
      from stage'(1,3) storable published(3) True show thesis
      proof (cases rule: publish_states)
        case unrecorded
        then show thesis using that(1) last stage'(2) settled_survive [OF stage'(1)] survive by metis
      next
        case recorded
        then show thesis
          using that(2) [of now] stage'(2,4,5) last survive by (auto simp: handed_off_def id)
      qed
    qed
  qed
qed

section \<open>The hand-off\<close>


section \<open>A sample publication\<close>

lemma healthy_stage:
  assumes "healthy env" "storable_snapshot s" "path \<noteq> []" "length path + 16 < PATH_CAPACITY"
  obtains states where "checkpoint_stage env path s fs = Some (CHECKPOINT_OK, states)"
proof -
  have path: "path @ ''.next'' \<noteq> []" "length (path @ ''.next'') + 11 < PATH_CAPACITY"
    using assms(4) by simp_all
  obtain states where "checkpoint_save env (path @ ''.next'') s fs = Some (CHECKPOINT_OK, states)"
    by (rule healthy_save [OF assms(1,2) path])
  then show thesis using that assms(3,4) by (simp add: checkpoint_stage_def staged_path_def Let_def)
qed

lemma healthy_publication:
  assumes host: "healthy (pe_stage env)" "healthy (pe_load env)" "healthy (pe_save env)" "healthy (pe_discard env)"
      "pe_lock env" "pe_now env = Some now"
    and t: "tk_id t \<noteq> 0" "tk_kind t \<noteq> []" "storable_snapshot (task_durable_snapshot t)"
    and paths: "checkpoint_paths project_path (tk_id t) = Some (relative, absolute)"
      "absolute \<noteq> []" "length absolute + 16 < PATH_CAPACITY" and fs: "fs_settled fs"
    and row: "record_task (pe_db env) (task_durable_snapshot t) (Some (tk_kind t, tk_kind_version t))
        (Some (recorded_checkpoint relative now)) now db = (recorded, rows)"
      "recorded \<in> {DB_OK, DB_BUSY}"
  obtains states where "checkpoint_task env True project_path t (fs, db)
    = Some (if recorded = DB_OK then PROJECT_CHECKPOINT_OK else PROJECT_CHECKPOINT_DB_BUSY, states)"
proof -
  let ?s = "task_durable_snapshot t"
  have id: "ds_id ?s = tk_id t" by (simp add: task_durable_snapshot_def)
  obtain fstates where stage: "checkpoint_stage (pe_stage env) absolute ?s fs = Some (CHECKPOINT_OK, fstates)"
    by (rule healthy_stage [OF host(1) t(3) paths(2,3)])
  have content: "fs_content (last fstates) (absolute @ ''.next'') = Some (checkpoint_encode ?s)"
    using stage_states(2) [OF fs stage paths(2)] by simp
  have parse: "checkpoint_parse (checkpoint_encode ?s) = (CHECKPOINT_OK, Some ?s)"
    using t(3) parse_encode(2) by (simp add: storable_snapshot_def)
  have len: "length absolute + 11 < PATH_CAPACITY" using paths(3) by simp
  obtain states where promote: "checkpoint_promote_staged (pe_load env) (pe_save env) (pe_discard env)
      absolute (last fstates) = Some (CHECKPOINT_OK, states)"
    by (rule healthy_promote [OF host(2-4) paths(2) len content parse])
  have "checkpoint_lock_acquire (pe_lock env) absolute"
    using host(5) paths(3) by (simp add: checkpoint_lock_acquire_def)
  then show thesis
    using that host(6) t(1,2) paths(1) row stage promote
    by (auto simp: checkpoint_task_def id Let_def record_and_promote_def)
qed

definition sample_host :: io_env where
  "sample_host = sample_io\<lparr>io_writes := replicate 516 (WRITE_BYTES 1)\<rparr>"

definition sample_publish :: "project_db_result \<Rightarrow> publish_env" where
  "sample_publish answer =
     \<lparr>pe_lock = True, pe_now = Some 1000, pe_stage = sample_host,
      pe_db = \<lparr>de_begin = answer, de_upsert = DB_OK, de_payload = DB_OK, de_checkpoint = DB_OK, de_commit = DB_OK\<rparr>,
      pe_load = sample_host, pe_save = sample_host, pe_discard = sample_host\<rparr>"

definition sample_recover :: recover_env where
  "sample_recover = \<lparr>rn_lock = True, rn_reload = DB_OK, rn_load = sample_host, rn_load_staged = sample_host,
     rn_promote_load = sample_host, rn_promote_save = sample_host, rn_promote_discard = sample_host\<rparr>"

definition sample_at :: "u32 \<Rightarrow> task" where
  "sample_at progress = sample_identified\<lparr>tk_progress := progress\<rparr>"

definition sample_relative :: string where "sample_relative = ''.lardon3d/checkpoints/7.chk''"
definition sample_absolute :: string where "sample_absolute = ''p/.lardon3d/checkpoints/7.chk''"

definition sample_row :: "u32 \<Rightarrow> db_task" where
  "sample_row progress = row_of (task_durable_snapshot (sample_at progress)) (Some (''test.run'', 1)) 900
     (Some (recorded_checkpoint sample_relative 900))"

definition sample_files :: "u32 \<Rightarrow> u32 option \<Rightarrow> fs" where
  "sample_files canonical staged = restart (\<lambda>p.
     if p = sample_absolute then Some (checkpoint_encode (task_durable_snapshot (sample_at canonical)))
     else if p = sample_absolute @ ''.next''
     then map_option (\<lambda>n. checkpoint_encode (task_durable_snapshot (sample_at n))) staged else None)"

lemma sample_healthy: "healthy sample_host" "healthy_recovery sample_recover"
  by (simp_all add: healthy_def healthy_recovery_def sample_host_def sample_recover_def sample_io_def
    CHECKPOINT_SIZE_def)

lemma sample_at_facts:
  assumes "progress \<in> {10, 20, 30}"
  shows "storable_snapshot (task_durable_snapshot (sample_at progress))" "tk_id (sample_at progress) = 7"
    "tk_kind (sample_at progress) = ''test.run''" "tk_kind_version (sample_at progress) = 1"
    "ds_progress (task_durable_snapshot (sample_at progress)) = progress"
    "ds_id (task_durable_snapshot (sample_at progress)) = 7"
proof -
  have "storable_task (sample_at progress)" "storable_times (sample_at progress)"
    using sample_identified_storable assms
    by (auto simp: sample_at_def storable_task_def storable_times_def sample_identified_def)
  then show "storable_snapshot (task_durable_snapshot (sample_at progress))"
    using durable_snapshot_valid by (simp add: storable_snapshot_def)
qed (simp_all add: sample_at_def sample_identified_def sample_task_fields task_durable_snapshot_def)

lemma sample_paths:
  "checkpoint_paths ''p'' 7 = Some (sample_relative, sample_absolute)"
  "sample_absolute \<noteq> []" "length sample_absolute + 16 < PATH_CAPACITY"
  by code_simp+

lemma sample_record:
  assumes "progress \<in> {10, 20, 30}"
  shows "fst (record_task (pe_db (sample_publish answer)) (task_durable_snapshot (sample_at progress))
      (Some (''test.run'', 1)) (Some (recorded_checkpoint sample_relative 1000)) 1000 [sample_row n])
    = answer"
proof -
  have "valid_durable_task (task_durable_snapshot sample_identified) 1000" "task_kind_is_valid ''test.run''"
    "valid_db_checkpoint (recorded_checkpoint sample_relative 1000)"
    unfolding sample_identified_def sample_task_def by code_simp+
  then show ?thesis
    using assms by (auto simp: record_task_def sample_publish_def sample_at_def task_durable_snapshot_def
      valid_durable_task_def find_row_def sample_row_def row_of_def Let_def)
qed

lemma sample_publication:
  assumes "answer \<in> {DB_OK, DB_BUSY}" "progress \<in> {10, 20, 30}" "fs_settled fs"
  obtains states where "checkpoint_task (sample_publish answer) True ''p'' (sample_at progress) (fs, [sample_row n])
    = Some (if answer = DB_OK then PROJECT_CHECKPOINT_OK else PROJECT_CHECKPOINT_DB_BUSY, states)"
proof -
  note t = sample_at_facts [OF assms(2)]
  obtain rows where row: "record_task (pe_db (sample_publish answer)) (task_durable_snapshot (sample_at progress))
      (Some (tk_kind (sample_at progress), tk_kind_version (sample_at progress)))
      (Some (recorded_checkpoint sample_relative 1000)) 1000 [sample_row n] = (answer, rows)"
    using sample_record [OF assms(2), of answer n] t(3,4) by (metis prod.collapse)
  have env: "healthy (pe_stage (sample_publish answer))" "healthy (pe_load (sample_publish answer))"
    "healthy (pe_save (sample_publish answer))" "healthy (pe_discard (sample_publish answer))"
    "pe_lock (sample_publish answer)" "pe_now (sample_publish answer) = Some 1000"
    by (simp_all add: sample_publish_def sample_healthy)
  have id: "tk_id (sample_at progress) \<noteq> 0" "tk_kind (sample_at progress) \<noteq> []"
    "checkpoint_paths ''p'' (tk_id (sample_at progress)) = Some (sample_relative, sample_absolute)"
    using t(2,3) sample_paths(1) by simp_all
  show thesis
    by (rule healthy_publication [OF env id(1,2) t(1) id(3) sample_paths(2,3) assms(3) row assms(1)]) (rule that)
qed

lemma sample_row_facts:
  "n \<in> {10, 20, 30} \<Longrightarrow> find_row 7 [sample_row n] = Some (sample_row n)"
  "dt_checkpoint (sample_row n) = Some (recorded_checkpoint sample_relative 900)"
  "dc_format_version (recorded_checkpoint sample_relative 900) = TASK_CHECKPOINT_VERSION"
  "coherent_recovery (sample_row n) (task_durable_snapshot (sample_at n))"
  "m \<in> {10, 20, 30} \<Longrightarrow> n \<in> {10, 20, 30} \<Longrightarrow> m \<noteq> n \<Longrightarrow>
     \<not> coherent_recovery (sample_row n) (task_durable_snapshot (sample_at m))"
  using sample_at_facts(5,6)
  by (auto simp: find_row_def sample_row_def row_of_def recorded_checkpoint_def coherent_recovery_def)

lemma sample_files_facts:
  "fs_settled (sample_files n m)"
  "fs_content (sample_files n m) sample_absolute = Some (checkpoint_encode (task_durable_snapshot (sample_at n)))"
  "fs_content (sample_files n (Some k)) (sample_absolute @ ''.next'')
     = Some (checkpoint_encode (task_durable_snapshot (sample_at k)))"
  by (simp_all add: sample_files_def)

lemma sample_at_parse: "n \<in> {10, 20, 30} \<Longrightarrow>
    checkpoint_parse (checkpoint_encode (task_durable_snapshot (sample_at n)))
      = (CHECKPOINT_OK, Some (task_durable_snapshot (sample_at n)))"
  using sample_at_facts(1) parse_encode(2) by (simp add: storable_snapshot_def)


section \<open>A failed promotion\<close>

text \<open>
  C30. A publication whose promotion failed can strand the Task. Then the row describes only
  the staged checkpoint, and until it is promoted the Task is recoverable through it; but the
  next publication overwrites the staged file before its own transaction, so when the database
  answers BUSY (or the process dies there) the row is left with no checkpoint that describes it,
  and every recovery, on a host where nothing else fails, answers an invalid checkpoint.
\<close>

theorem busy_database_strands_unpromoted_task:
  assumes "fs_settled fs" and "storable_snapshot (task_durable_snapshot t)"
    and "checkpoint_paths project_path (tk_id t) = Some (relative, absolute)"
    and "length absolute + 11 < PATH_CAPACITY"
    and "dc_format_version c = TASK_CHECKPOINT_VERSION"
    and "fs_content fs absolute = Some data" and "checkpoint_parse data = (CHECKPOINT_OK, Some s0)"
    and "fs_content fs (absolute @ ''.next'') = Some staged" and "checkpoint_parse staged = (CHECKPOINT_OK, Some s1)"
    and "\<not> coherent_recovery r s0" and "coherent_recovery r s1"
    and "\<not> coherent_recovery r (task_durable_snapshot t)"
    and "checkpoint_task env loaded project_path t (fs, db) = Some (PROJECT_CHECKPOINT_DB_BUSY, states)"
    and "healthy_recovery host"
  shows "(\<exists>fs'. select_checkpoint host absolute r c (restart (fs_content fs))
        = Some (matched_status CHECKPOINT_OK (dc_durability c), Some s1, fs'))
      \<and> snd (last states) = db
      \<and> select_checkpoint host absolute r c (restart (fs_content (fst (last states))))
        = Some (RECOVERY_INVALID_CHECKPOINT, Some s0, restart (fs_content (fst (last states))))"
proof -
  let ?s = "task_durable_snapshot t"
  have absolute: "absolute \<noteq> []" using assms(3) by (auto simp: checkpoint_paths_def Let_def split: if_splits)
  have staged: "staged_path absolute = Some (absolute @ ''.next'')"
    using assms(4) by (simp add: staged_path_def Let_def)
  have h: "healthy (rn_load host)" "healthy (rn_load_staged host)"
    using assms(14) by (simp_all add: healthy_recovery_def)
  have new: "checkpoint_parse (checkpoint_encode ?s) = (CHECKPOINT_OK, Some ?s)"
    using assms(2) parse_encode(2) by (simp add: storable_snapshot_def)
  have canonical: "checkpoint_load (rn_load host) absolute (restart after)
      = (CHECKPOINT_OK, Some s0, Some TASK_CHECKPOINT_VERSION)" if "after absolute = Some data" for after
    using restart_load [where path = absolute and after = after, OF h(1) absolute that assms(7)] .
  have before: "\<exists>fs'. select_checkpoint host absolute r c (restart (fs_content fs))
      = Some (matched_status CHECKPOINT_OK (dc_durability c), Some s1, fs')"
  proof -
    have "\<not> matches_row r c (checkpoint_load (rn_load host) absolute (restart (fs_content fs)))"
      using canonical [of "fs_content fs", OF assms(6)] assms(10) by (simp add: matches_row_def)
    from select_staged [where path = absolute and after = "fs_content fs", OF assms(14) absolute assms(4)
        staged this assms(8,9,5,11)] show ?thesis by metis
  qed
  from assms(13,3) have "\<exists>fstates. checkpoint_stage (pe_stage env) absolute ?s fs = Some (CHECKPOINT_OK, fstates)
      \<and> last states = (last fstates, db)"
  proof (cases rule: checkpoint_task_cases)
    case early
    then show ?thesis by simp
  next
    case (staged saved fstates)
    then show ?thesis by simp
  next
    case (published fstates now rest)
    then show ?thesis
      by (auto simp: record_and_promote_def split: prod.splits project_db_result.splits option.splits if_splits)
  qed
  then obtain fstates where stage: "checkpoint_stage (pe_stage env) absolute ?s fs = Some (CHECKPOINT_OK, fstates)"
    and last: "last states = (last fstates, db)" by blast
  have content: "fs_content (last fstates) absolute = Some data"
    "fs_content (last fstates) (absolute @ ''.next'') = Some (checkpoint_encode ?s)"
    using stage_states(2) [OF assms(1) stage absolute] assms(6) by simp_all
  have "checkpoint_load_staged (rn_load_staged host) absolute (restart (fs_content (last fstates)))
      = (CHECKPOINT_OK, Some ?s, Some TASK_CHECKPOINT_VERSION)"
    by (rule restart_load_staged [where path = absolute and after = "fs_content (last fstates)",
      OF h(2) absolute staged content(2) new])
  then have "select_checkpoint host absolute r c (restart (fs_content (last fstates)))
      = Some (RECOVERY_INVALID_CHECKPOINT, Some s0, restart (fs_content (last fstates)))"
    using canonical [of "fs_content (last fstates)", OF content(1)] assms(10,12)
    by (simp add: select_checkpoint_def matches_row_def)
  then show ?thesis using before last by simp
qed

theorem busy_database_strands_unpromoted_task_witness:
  "\<exists>states fs'. checkpoint_task (sample_publish DB_BUSY) True ''p'' (sample_at 30)
        (sample_files 10 (Some 20), [sample_row 20]) = Some (PROJECT_CHECKPOINT_DB_BUSY, states)
      \<and> select_checkpoint sample_recover sample_absolute (sample_row 20) (recorded_checkpoint sample_relative 900)
          (restart (fs_content (fst (last states))))
        = Some (RECOVERY_INVALID_CHECKPOINT, Some (task_durable_snapshot (sample_at 10)), fs')"
proof -
  obtain states where run: "checkpoint_task (sample_publish DB_BUSY) True ''p'' (sample_at 30)
      (sample_files 10 (Some 20), [sample_row 20]) = Some (PROJECT_CHECKPOINT_DB_BUSY, states)"
    using sample_publication [of DB_BUSY 30 "sample_files 10 (Some 20)" 20] sample_files_facts(1) by auto
  have len: "length sample_absolute + 11 < PATH_CAPACITY" using sample_paths(3) by simp
  have ids: "(10 :: u32) \<in> {10, 20, 30}" "(20 :: u32) \<in> {10, 20, 30}" "(30 :: u32) \<in> {10, 20, 30}" by simp_all
  have path: "checkpoint_paths ''p'' (tk_id (sample_at 30)) = Some (sample_relative, sample_absolute)"
    using sample_at_facts(2) [OF ids(3)] sample_paths(1) by simp
  have other: "\<not> coherent_recovery (sample_row 20) (task_durable_snapshot (sample_at 10))"
    "\<not> coherent_recovery (sample_row 20) (task_durable_snapshot (sample_at 30))"
    using sample_row_facts(5) ids by simp_all
  from busy_database_strands_unpromoted_task [OF sample_files_facts(1) sample_at_facts(1) [OF ids(3)] path len
      sample_row_facts(3) sample_files_facts(2) sample_at_parse [OF ids(1)] sample_files_facts(3)
      sample_at_parse [OF ids(2)] other(1) sample_row_facts(4) other(2) run sample_healthy(2)] run
  show ?thesis by (intro exI [of _ states] exI conjI) simp_all
qed

end
