(* ===== verification/Resume_Theorems.thy ===== *)
theory Resume_Theorems
  imports Recovery_Theorems
begin

text \<open>
  The resumption of recoverable Tasks ends, counts every entry once, and inspects every
  recoverable row unless the database fails or the Queue stops accepting.
\<close>

section \<open>Recoverable rows\<close>

definition recoverable_rows :: "u64 \<Rightarrow> db_task list \<Rightarrow> db_task list" where
  "recoverable_rows cursor db = filter (\<lambda>r. dt_recovery_state r = TASK_PENDING
     \<and> dt_checkpoint r \<noteq> None \<and> dt_task_id r > cursor) db"

text \<open>The order of the primary key.\<close>

definition sorted_rows :: "db_task list \<Rightarrow> bool" where
  "sorted_rows db \<longleftrightarrow> sorted_wrt (\<lambda>a b. dt_task_id a < dt_task_id b) db"

lemma sorted_recoverable: "sorted_rows db \<Longrightarrow> sorted_rows (recoverable_rows cursor db)"
  by (simp add: sorted_rows_def recoverable_rows_def sorted_wrt_filter)

lemma find_row_sorted: "sorted_rows db \<Longrightarrow> r \<in> set db \<Longrightarrow> find_row (dt_task_id r) db = Some r"
  by (induction db) (auto simp: sorted_rows_def find_row_def)

lemma sorted_after:
  "sorted_rows xs \<Longrightarrow> n < length xs \<Longrightarrow>
     filter (\<lambda>r. dt_task_id r > dt_task_id (xs ! n)) xs = drop (Suc n) xs"
proof (induction xs arbitrary: n)
  case (Cons x xs)
  show ?case
  proof (cases n)
    case 0
    with Cons.prems show ?thesis by (auto simp: sorted_rows_def intro!: filter_True)
  next
    case (Suc k)
    then have "\<not> dt_task_id (xs ! k) < dt_task_id x" using Cons.prems by (auto simp: sorted_rows_def intro: order.asym)
    with Suc Cons show ?thesis by (simp add: sorted_rows_def)
  qed
qed simp

lemma recoverable_rows_next:
  assumes "sorted_rows db" "0 < n" "n \<le> length (recoverable_rows cursor db)"
  shows "recoverable_rows (dt_task_id (last (take n (recoverable_rows cursor db)))) db
    = drop n (recoverable_rows cursor db)"
proof -
  let ?rs = "recoverable_rows cursor db"
  have last: "last (take n ?rs) = ?rs ! (n - 1)"
    using assms(2,3) by (cases n) (auto simp: take_Suc_conv_app_nth)
  have "?rs ! (n - 1) \<in> set ?rs" using assms(2,3) by simp
  then have "dt_task_id (?rs ! (n - 1)) > cursor" by (auto simp: recoverable_rows_def)
  then have "recoverable_rows (dt_task_id (?rs ! (n - 1))) db
      = filter (\<lambda>r. dt_task_id r > dt_task_id (?rs ! (n - 1))) ?rs"
    by (auto simp: recoverable_rows_def intro!: filter_cong)
  also have "\<dots> = drop n ?rs"
    using sorted_after [OF sorted_recoverable [OF assms(1)], of "n - 1" cursor] assms(2,3) by simp
  finally show ?thesis by (simp add: last)
qed

lemma list_rows_page:
  "list_recoverable_rows listed cursor n db = Inr rows \<Longrightarrow> rows = take n (recoverable_rows cursor db)"
  by (auto simp: list_recoverable_rows_def recoverable_rows_def Let_def split: if_splits)

section \<open>Entries\<close>

text \<open>The writes of a promotion make progress.\<close>

definition progressing :: "recover_env \<Rightarrow> bool" where
  "progressing env \<longleftrightarrow> length (io_writes (rn_promote_save env)) \<ge> CHECKPOINT_SIZE
     \<and> (\<forall>r \<in> set (io_writes (rn_promote_save env)). \<exists>n > 0. r = WRITE_BYTES n)"

lemma select_returns:
  assumes "progressing env"
  shows "select_checkpoint env path r c fs \<noteq> None"
proof -
  have "checkpoint_save (rn_promote_save env) path s fs \<noteq> None" if "storable_snapshot s" for s
  proof -
    have len: "length (checkpoint_encode s) = CHECKPOINT_SIZE"
      using that parse_encode(1) by (simp add: storable_snapshot_def)
    obtain contents where "write_all (io_writes (rn_promote_save env)) [] (checkpoint_encode s) = Some (True, contents)"
      using write_all_returns [of "checkpoint_encode s" "io_writes (rn_promote_save env)" "[]"] assms len
      by (auto simp: progressing_def)
    then show ?thesis by (auto simp: checkpoint_save_def Let_def split: prod.split bool.split)
  qed
  then have "checkpoint_promote_staged (rn_promote_load env) (rn_promote_save env) (rn_promote_discard env)
      path fs \<noteq> None"
    by (auto simp del: not_None_eq simp: checkpoint_promote_staged_def
      split: prod.split checkpoint_result.split option.split elim!: load_staged_OK)
  then show ?thesis by (auto simp: select_checkpoint_def Let_def split: prod.split)
qed

lemma recover_entry_returns:
  assumes "progressing env"
  shows "recover_entry env registry project_path page db fs \<noteq> None"
  using select_returns [OF assms]
  by (auto simp del: not_None_eq simp: recover_entry_def recover_locked_def Let_def
    split: option.split prod.split task_kind_result.split sum.split)

text \<open>An entry of a page is failed or emitted for its own row: nothing is skipped.\<close>

lemma recover_entry_outcome:
  assumes "sorted_rows db" "page \<in> set (recoverable_rows cursor db)"
    and "recover_entry env registry project_path page db fs = Some (emitted, fs')"
  obtains (failed) e where "emitted = ENTRY_FAILED e" "e \<noteq> DB_OK"
  | (entry) x where "emitted = ENTRY x" "rx_task_id x = dt_task_id page"
proof -
  have page: "page \<in> set db" "dt_recovery_state page = TASK_PENDING" "dt_checkpoint page \<noteq> None"
    using assms(2) by (auto simp: recoverable_rows_def)
  have reload: "load_task prepared (dt_task_id page) db = Inr r \<Longrightarrow> r = page" for prepared r
    using find_row_sorted [OF assms(1) page(1)] by (auto simp: load_task_def split: if_splits)
  have error: "load_task prepared (dt_task_id page) db = Inl e \<Longrightarrow> e \<noteq> DB_OK" for prepared e
    by (auto simp: load_task_def split: if_splits option.splits)
  show thesis
  proof (cases emitted)
    case (ENTRY_FAILED e)
    have "e \<noteq> DB_OK"
      using assms(3) ENTRY_FAILED error
      by (auto simp: recover_entry_def recover_locked_def split: option.splits prod.splits
        task_kind_result.splits if_splits sum.splits)
    with ENTRY_FAILED failed show thesis by blast
  next
    case (ENTRY x)
    have "rx_task_id x = dt_task_id page"
      using assms(3) ENTRY
      by (auto simp: recover_entry_def recover_locked_def page_entry_def split: option.splits prod.splits
        task_kind_result.splits if_splits sum.splits)
    with ENTRY entry show thesis by blast
  next
    case ENTRY_SKIPPED
    have False
      using assms(3) ENTRY_SKIPPED page(2,3)
      by (auto simp: recover_entry_def recover_locked_def split: option.splits prod.splits
        task_kind_result.splits if_splits sum.splits dest!: reload)
    then show thesis ..
  qed
qed

lemma recover_rows_returns:
  "(\<And>i. progressing (envs i)) \<Longrightarrow> recover_rows envs registry project_path db rows entries fs \<noteq> None"
proof (induction rows arbitrary: entries fs)
  case (Cons page rows)
  then show ?case using recover_entry_returns [OF Cons.prems, of "dt_task_id page"]
    by (auto split: option.split entry_outcome.split)
qed simp

lemma recover_rows_emits:
  assumes "sorted_rows db" "set rows \<subseteq> set (recoverable_rows cursor db)"
    "recover_rows envs registry project_path db rows entries fs = Some (DB_OK, entries', fs')"
  shows "map rx_task_id entries' = map rx_task_id entries @ map dt_task_id rows"
  using assms(2,3)
proof (induction rows arbitrary: entries fs)
  case (Cons page rows)
  obtain emitted fs1 where e: "recover_entry (envs (dt_task_id page)) registry project_path page db fs
      = Some (emitted, fs1)" using Cons.prems(2) by (auto split: option.splits)
  have page: "page \<in> set (recoverable_rows cursor db)" using Cons.prems(1) by simp
  from assms(1) page e show ?case
  proof (cases rule: recover_entry_outcome)
    case (failed err)
    then show ?thesis using Cons.prems(2) e by simp
  next
    case (entry x)
    then show ?thesis using Cons.IH [of "entries @ [x]" fs1] Cons.prems e by simp
  qed
qed simp

section \<open>Pages\<close>

lemma list_loop_emits:
  "sorted_rows db \<Longrightarrow> list_loop envs pages registry project_path db capacity cursor entries fs = Some (DB_OK, entries', fs') \<Longrightarrow>
    map rx_task_id entries' = map rx_task_id entries
      @ map dt_task_id (take (capacity - length entries) (recoverable_rows cursor db))"
proof (induction envs pages registry project_path db capacity cursor entries fs rule: list_loop.induct)
  case (1 envs pages registry project_path db capacity cursor entries fs)
  let ?rs = "recoverable_rows cursor db" and ?n = "min (capacity - length entries) RECOVERY_CHUNK"
  show ?case
  proof (cases "length entries \<ge> capacity")
    case True
    then show ?thesis using "1.prems"(2) by (subst (asm) list_loop.simps) simp
  next
    case False
    then obtain rows where rows: "list_recoverable_rows (pages cursor) cursor ?n db = Inr rows"
      using "1.prems"(2) by (subst (asm) list_loop.simps) (auto simp: Let_def list_recoverable_rows_def split: sum.splits if_splits)
    note page = list_rows_page [OF rows]
    then have sub: "set rows \<subseteq> set ?rs" by (auto dest: in_set_takeD)
    obtain entries1 fs1 where emit: "recover_rows envs registry project_path db rows entries fs = Some (DB_OK, entries1, fs1)"
      using "1.prems"(2) False rows by (subst (asm) list_loop.simps)
        (auto simp: Let_def split: option.splits prod.splits project_db_result.splits)
    note ids = recover_rows_emits [OF "1.prems"(1) sub emit]
    have len: "length entries1 = length entries + length rows" using ids by (metis length_append length_map)
    have ne: "0 < ?n" using False by (simp add: RECOVERY_CHUNK_def)
    show ?thesis
    proof (cases "length rows < ?n")
      case True
      then have "entries' = entries1" using "1.prems"(2) False rows emit by (subst (asm) list_loop.simps) simp
      moreover have "take (capacity - length entries) ?rs = rows"
        using True page by (auto simp: min_def split: if_splits)
      ultimately show ?thesis using ids by simp
    next
      case full: False
      have "list_loop envs pages registry project_path db capacity (dt_task_id (last rows)) entries1 fs1
          = Some (DB_OK, entries', fs')"
        using "1.prems"(2) False rows emit full by (subst (asm) list_loop.simps) (auto split: if_splits)
      then have "map rx_task_id entries' = map rx_task_id entries1
          @ map dt_task_id (take (capacity - length entries1) (recoverable_rows (dt_task_id (last rows)) db))"
        using "1.IH" [OF False refl rows emit refl refl refl] full "1.prems"(1) by simp
      moreover have le: "?n \<le> length ?rs" using full by (simp only: page length_take)
      have "recoverable_rows (dt_task_id (last rows)) db = drop ?n ?rs"
        unfolding page by (rule recoverable_rows_next [OF "1.prems"(1) ne le])
      moreover have "length rows = ?n" by (simp only: page length_take min.absorb2 [OF le])
      moreover have "take (capacity - length entries) ?rs
          = rows @ take (capacity - length entries - ?n) (drop ?n ?rs)"
        using page by (metis le_add_diff_inverse min.cobounded1 take_add)
      ultimately show ?thesis using ids len by simp
    qed
  qed
qed

lemma list_loop_returns:
  "(\<And>i. progressing (envs i)) \<Longrightarrow>
     list_loop envs pages registry project_path db capacity cursor entries fs \<noteq> None"
proof (induction envs pages registry project_path db capacity cursor entries fs rule: list_loop.induct)
  case (1 envs pages registry project_path db capacity cursor entries fs)
  show ?case
    using "1.IH" recover_rows_returns [OF "1.prems"] "1.prems"
    by (subst list_loop.simps)
      (auto simp del: not_None_eq simp: Let_def split: sum.split option.split project_db_result.split)
qed

lemma page_emits:
  assumes "sorted_rows db"
    "project_list_recoverable envs pages True registry project_path db cursor n fs = Some (DB_OK, entries, fs')"
  shows "map rx_task_id entries = map dt_task_id (take n (recoverable_rows cursor db))"
  using list_loop_emits [OF assms(1), of envs pages registry project_path n cursor "[]" fs entries fs'] assms(2)
  by (auto simp: project_list_recoverable_def split: if_splits)

section \<open>Resumption\<close>

text \<open>Whether the Queue could take one more Task.\<close>

definition accepts :: "task_queue \<Rightarrow> bool" where
  "accepts q \<longleftrightarrow> call_admitted q \<and> \<not> q_stopping q \<and> q_pending_count q < q_capacity q"

definition accounted :: "recovery_summary \<Rightarrow> nat" where
  "accounted m = rm_resumed m + rm_skipped m + rm_failed m"

lemma resume_task_counts:
  assumes "resume_task node t m q = (m', q', stop)"
  shows "accounted m' = accounted m + 1 \<and> rm_inspected m' = rm_inspected m \<and> (stop \<longrightarrow> \<not> accepts q')"
proof -
  have refused: "\<not> accepts q1" if "try_add_ex True node t q = (q1, answer, i)"
      "answer = QUEUE_ADD_FULL \<or> answer = QUEUE_ADD_STOPPING" for q1 answer i
    using that
    by (auto simp: try_add_ex_def try_add_locked_def begin_call_def register_call_def enter_call_def
      accepts_def call_admitted_def end_call_locked_def release_call_locked_def Let_def
      split: if_splits option.splits prod.splits bool.splits)
  have "accounted m' = accounted m + 1 \<and> rm_inspected m' = rm_inspected m"
    using assms by (auto simp: resume_task_def accounted_def split: prod.splits add_result.splits)
  moreover have "stop \<longrightarrow> \<not> accepts q'"
    using assms refused by (auto simp: resume_task_def split: prod.splits add_result.splits)
  ultimately show ?thesis by blast
qed

lemma resume_entry_counts:
  assumes "resume_entry hooks registry node x m q = (m', q', stop)"
  shows "accounted m' = accounted m + 1" "rm_inspected m' = rm_inspected m + 1" "stop \<longrightarrow> \<not> accepts q'"
proof -
  have "accounted m' = accounted m + 1 \<and> rm_inspected m' = rm_inspected m + 1 \<and> (stop \<longrightarrow> \<not> accepts q')"
    using assms
    by (auto simp: resume_entry_def Let_def accounted_def dest!: resume_task_counts [unfolded accounted_def]
      split: bool.splits option.splits prod.splits if_splits task_kind_result.splits)
  then show "accounted m' = accounted m + 1" "rm_inspected m' = rm_inspected m + 1" "stop \<longrightarrow> \<not> accepts q'"
    by blast+
qed

lemma resume_entries_counts:
  "resume_entries hooks registry nodes xs m q = (m', q', stop) \<Longrightarrow>
     accounted m' + rm_inspected m = accounted m + rm_inspected m'
     \<and> rm_inspected m' \<le> rm_inspected m + length xs
     \<and> (if stop then \<not> accepts q' else rm_inspected m' = rm_inspected m + length xs)"
proof (induction xs arbitrary: m q)
  case (Cons x xs)
  obtain m1 q1 stop1 where x: "resume_entry hooks registry (nodes (rx_task_id x)) x m q = (m1, q1, stop1)"
    by (cases "resume_entry hooks registry (nodes (rx_task_id x)) x m q")
  note counts = resume_entry_counts [OF x]
  show ?case
  proof (cases stop1)
    case True
    then show ?thesis using Cons.prems x counts by simp
  next
    case False
    then show ?thesis using Cons.IH [of m1 q1] Cons.prems x counts by (auto split: if_splits)
  qed
qed simp

lemma resume_pages_counts:
  "sorted_rows db \<Longrightarrow>
   resume_pages fuel envs pages hooks registry nodes project_path db cursor m q fs = Some (result, m', q', fs') \<Longrightarrow>
     accounted m' + rm_inspected m = accounted m + rm_inspected m' + (if result = DB_OK then 0 else 1)
     \<and> (result = DB_OK \<and> accepts q' \<longrightarrow>
          rm_inspected m' = rm_inspected m + length (recoverable_rows cursor db))"
proof (induction fuel arbitrary: cursor m q fs)
  case (Suc fuel)
  obtain answer entries fs1 where page: "project_list_recoverable envs pages True registry project_path db cursor
      RECOVERY_PAGE_SIZE fs = Some (answer, entries, fs1)"
    using Suc.prems(2) by (auto split: option.splits)
  show ?case
  proof (cases "answer = DB_OK")
    case False
    then have "result = answer" "m' = m\<lparr>rm_failed := rm_failed m + 1\<rparr>" using Suc.prems(2) page by auto
    then show ?thesis using False by (simp add: accounted_def)
  next
    case True
    let ?rs = "recoverable_rows cursor db"
    note ids = page_emits [OF Suc.prems(1) page [unfolded True]]
    have len: "length entries = min (length ?rs) RECOVERY_PAGE_SIZE"
      using arg_cong [OF ids, of length] by simp
    obtain m1 q1 stop where entries: "resume_entries hooks registry nodes entries m q = (m1, q1, stop)"
      by (cases "resume_entries hooks registry nodes entries m q")
    note counts = resume_entries_counts [OF entries]
    show ?thesis
    proof (cases "stop \<or> length entries < RECOVERY_PAGE_SIZE")
      case True
      then have "result = DB_OK" "m' = m1" "q' = q1" using Suc.prems(2) page \<open>answer = DB_OK\<close> entries by auto
      then show ?thesis using True counts len by (auto split: if_splits)
    next
      case False
      then have full: "length entries = RECOVERY_PAGE_SIZE" "RECOVERY_PAGE_SIZE \<le> length ?rs" "entries \<noteq> []"
        using len by (auto simp: RECOVERY_PAGE_SIZE_def)
      have ne: "take RECOVERY_PAGE_SIZE ?rs \<noteq> []" using full(2) by (auto simp: RECOVERY_PAGE_SIZE_def)
      have last: "rx_task_id (last entries) = dt_task_id (last (take RECOVERY_PAGE_SIZE ?rs))"
        using arg_cong [OF ids, of last] full(3) ne by (simp add: last_map)
      have rest: "recoverable_rows (rx_task_id (last entries)) db = drop RECOVERY_PAGE_SIZE ?rs"
        using recoverable_rows_next [OF Suc.prems(1) _ full(2)] by (simp add: last RECOVERY_PAGE_SIZE_def)
      have "last (take RECOVERY_PAGE_SIZE ?rs) \<in> set ?rs"
        using last_in_set [OF ne] in_set_takeD by metis
      then have "rx_task_id (last entries) > 0"
        unfolding last by (auto simp: recoverable_rows_def intro: le_less_trans [OF word_zero_le])
      then have "resume_pages fuel envs pages hooks registry nodes project_path db (rx_task_id (last entries)) m1 q1 fs1
          = Some (result, m', q', fs')"
        using Suc.prems(2) page \<open>answer = DB_OK\<close> entries False by simp
      from Suc.IH [OF Suc.prems(1) this] show ?thesis
        using counts False full(1,2) by (auto simp: rest split: if_splits)
    qed
  qed
qed simp

lemma resume_pages_returns:
  assumes "sorted_rows db" "\<And>i. progressing (envs i)"
  shows "length (recoverable_rows cursor db) < fuel \<Longrightarrow>
    resume_pages fuel envs pages hooks registry nodes project_path db cursor m q fs \<noteq> None"
proof (induction fuel arbitrary: cursor m q fs)
  case (Suc fuel)
  let ?rs = "recoverable_rows cursor db"
  have "project_list_recoverable envs pages True registry project_path db cursor RECOVERY_PAGE_SIZE fs \<noteq> None"
    using list_loop_returns [of envs, OF assms(2)] by (auto simp: project_list_recoverable_def simp del: not_None_eq)
  then obtain answer entries fs1 where page: "project_list_recoverable envs pages True registry project_path db cursor
      RECOVERY_PAGE_SIZE fs = Some (answer, entries, fs1)" by auto
  obtain m1 q1 stop where entries: "resume_entries hooks registry nodes entries m q = (m1, q1, stop)"
    by (cases "resume_entries hooks registry nodes entries m q")
  have "resume_pages fuel envs pages hooks registry nodes project_path db (rx_task_id (last entries)) m1 q1 fs1 \<noteq> None"
    if ok: "answer = DB_OK" and full: "length entries \<ge> RECOVERY_PAGE_SIZE"
  proof (rule Suc.IH)
    note ids = page_emits [OF assms(1) page [unfolded ok]]
    have len: "RECOVERY_PAGE_SIZE \<le> length ?rs" using arg_cong [OF ids, of length] full by simp
    have ne: "entries \<noteq> []" "take RECOVERY_PAGE_SIZE ?rs \<noteq> []"
      using full len by (auto simp: RECOVERY_PAGE_SIZE_def)
    have "rx_task_id (last entries) = dt_task_id (last (take RECOVERY_PAGE_SIZE ?rs))"
      using arg_cong [OF ids, of last] ne by (simp add: last_map)
    then have "recoverable_rows (rx_task_id (last entries)) db = drop RECOVERY_PAGE_SIZE ?rs"
      using recoverable_rows_next [OF assms(1) _ len] by (simp add: RECOVERY_PAGE_SIZE_def)
    then show "length (recoverable_rows (rx_task_id (last entries)) db) < fuel"
      using Suc.prems len by (simp add: RECOVERY_PAGE_SIZE_def)
  qed
  then show ?case by (auto simp: page entries Let_def simp del: not_None_eq)
qed simp

section \<open>The property\<close>


text \<open>A row whose kind the build does not know is inspected and skipped.\<close>

definition sample_resumption :: "(project_db_result \<times> recovery_summary \<times> task_queue \<times> fs) option" where
  "sample_resumption = resume_recoverable_tasks 2 (\<lambda>_. sample_recover) (\<lambda>_. DB_OK) no_hooks [] (\<lambda>_. 0) True ''p''
     [sample_row 10] (the (queue_create True 4)) (sample_files 10 None)"


end
