(* ===== verification/Track_Builder.thy ===== *)
theory Track_Builder
  imports L3D_Prelude "HOL-Library.Product_Lexorder" "HOL-Library.List_Lexorder"
begin

text \<open>
  The track builder (\<open>track_builder.cpp\<close>): features matched across images are nodes, verified
  matches are edges, and a track is a connected component whose features are compatible and lie
  in different images. The compact graph interns features in an open-addressed table, a
  disjoint-set forest with path halving finds the components, and the result is put in a
  canonical order. Sizes and node indices are naturals, with the bounds of the code tested where
  it tests them; a probe or root search that does not end is \<^const>\<open>None\<close>. The profile counters
  are left out: they are never read.
\<close>

section \<open>Data\<close>

type_synonym kind_bytes = "u8 list"

definition TRACK_INDEX_MAX :: nat where "TRACK_INDEX_MAX = 0xFFFFFFFF"
definition TRACK_SIZE_MAX :: nat where "TRACK_SIZE_MAX = 0xFFFFFFFFFFFFFFFF"

datatype builder_result =
  TRACK_BUILDER_OK | TRACK_BUILDER_INVALID_ARGUMENT | TRACK_BUILDER_CONSTRAINT
  | TRACK_BUILDER_CORRUPT_INPUT | TRACK_BUILDER_OUT_OF_MEMORY

text \<open>The exceptions of the compact graph.\<close>

datatype thrown = THROWN_BAD_ALLOC | THROWN_INVALID_ARGUMENT

record feature_metadata =
  fm_feature_set_id :: u64
  fm_image_id :: u64
  fm_extractor_kind :: kind_bytes
  fm_extractor_version :: u32
  fm_parameter_fingerprint :: kind_bytes
  fm_descriptor_type :: u32
  fm_descriptor_dimension :: u32

record track_node =
  nd_feature_set_id :: u64
  nd_feature_index :: u32
  nd_metadata_index :: nat

record identity_slot =
  is_feature_set_id :: u64
  is_feature_index :: u32
  is_node_plus_one :: nat

record track_graph =
  tg_metadata :: "feature_metadata list"
  tg_nodes :: "track_node list"
  tg_edges :: "(nat \<times> nat) list"
  tg_identity :: "identity_slot list"
  tg_identity_size :: nat
  tg_raw_edge_count :: nat

record track_membership =
  tm_feature_set_id :: u64
  tm_feature_index :: u32
  tm_node_index :: nat

text \<open>A track is a range of the memberships: where it begins and how many it has.\<close>

record track_output =
  to_memberships :: "track_membership list"
  to_tracks :: "(nat \<times> nat) list"

definition kind_text :: "kind_bytes \<Rightarrow> kind_bytes" where
  "kind_text kind = takeWhile (\<lambda>b. b \<noteq> 0) kind"

definition meta_equal :: "feature_metadata \<Rightarrow> feature_metadata \<Rightarrow> bool \<Rightarrow> bool" where
  "meta_equal a b include_identity \<longleftrightarrow>
     (\<not> include_identity \<or> fm_feature_set_id a = fm_feature_set_id b \<and> fm_image_id a = fm_image_id b)
     \<and> fm_extractor_version a = fm_extractor_version b
     \<and> fm_descriptor_type a = fm_descriptor_type b
     \<and> fm_descriptor_dimension a = fm_descriptor_dimension b
     \<and> kind_text (fm_extractor_kind a) = kind_text (fm_extractor_kind b)
     \<and> fm_parameter_fingerprint a = fm_parameter_fingerprint b"

definition meta_valid :: "feature_metadata \<Rightarrow> bool" where
  "meta_valid m \<longleftrightarrow> fm_feature_set_id m \<noteq> 0 \<and> fm_image_id m \<noteq> 0 \<and> 0 \<in> set (fm_extractor_kind m)"

section \<open>The identity table\<close>

definition hash_key :: "u64 \<Rightarrow> u32 \<Rightarrow> u64" where
  "hash_key set_id index =
     (let v = set_id XOR (ucast index + 0x9e3779b97f4a7c15 + push_bit 6 set_id + drop_bit 2 set_id);
          v = (v XOR drop_bit 30 v) * 0xbf58476d1ce4e5b9;
          v = (v XOR drop_bit 27 v) * 0x94d049bb133111eb
      in v XOR drop_bit 31 v)"

text \<open>The doubling loop; its variable is the number of doublings of the initial 8.\<close>

function table_loop :: "nat \<Rightarrow> nat \<Rightarrow> nat option" where
  "table_loop required doublings =
     (let capacity = 8 * 2 ^ doublings in
      if capacity < required
      then if capacity > TRACK_SIZE_MAX div 2 then None else table_loop required (doublings + 1)
      else Some capacity)"
  by pat_completeness auto

termination
  by (relation "measure (\<lambda>(required, doublings). required - 8 * 2 ^ doublings)")
    (auto intro!: diff_less_mono2)

declare table_loop.simps [simp del]

definition table_capacity :: "nat \<Rightarrow> nat option" where
  "table_capacity nodes =
     (if nodes = 0 then Some 0
      else if nodes > TRACK_SIZE_MAX div 2 then None
      else table_loop (nodes + nodes div 2 + 1) 0)"

definition empty_slot :: identity_slot where
  "empty_slot = \<lparr>is_feature_set_id = 0, is_feature_index = 0, is_node_plus_one = 0\<rparr>"

text \<open>\<^const>\<open>None\<close> is the exception \<open>bad_alloc\<close>.\<close>

definition graph_create :: "nat \<Rightarrow> track_graph option" where
  "graph_create edge_hint =
     (if edge_hint > TRACK_INDEX_MAX div 2 then None
      else map_option (\<lambda>capacity.
        \<lparr>tg_metadata = [], tg_nodes = [], tg_edges = [], tg_identity = replicate capacity empty_slot,
         tg_identity_size = 0, tg_raw_edge_count = 0\<rparr>) (table_capacity (edge_hint * 2)))"

definition register_feature :: "feature_metadata \<Rightarrow> track_graph \<Rightarrow> thrown + (nat \<times> track_graph)" where
  "register_feature m g =
     (if \<not> meta_valid m then Inl THROWN_INVALID_ARGUMENT
      else if length (tg_metadata g) = TRACK_INDEX_MAX then Inl THROWN_BAD_ALLOC
      else Inr (length (tg_metadata g), g\<lparr>tg_metadata := tg_metadata g @ [m]\<rparr>))"

text \<open>The probing loops: from a slot to the first at which the loop stops.\<close>

partial_function (option) table_probe ::
    "(identity_slot \<Rightarrow> bool) \<Rightarrow> identity_slot list \<Rightarrow> nat \<Rightarrow> nat option" where
  "table_probe stop table slot =
     (if stop (table ! slot) then Some slot
      else table_probe stop table ((slot + 1) AND (length table - 1)))"

definition start_slot :: "identity_slot list \<Rightarrow> u64 \<Rightarrow> u32 \<Rightarrow> nat" where
  "start_slot table set_id index = unat (hash_key set_id index) AND (length table - 1)"

definition insert_identity :: "track_node \<Rightarrow> nat \<Rightarrow> track_graph \<Rightarrow> track_graph option" where
  "insert_identity node index g =
     (let set_id = nd_feature_set_id node; feature = nd_feature_index node; table = tg_identity g in
      map_option (\<lambda>slot. g\<lparr>
          tg_identity := table[slot := \<lparr>is_feature_set_id = set_id, is_feature_index = feature,
            is_node_plus_one = index + 1\<rparr>],
          tg_identity_size := tg_identity_size g + 1\<rparr>)
        (table_probe (\<lambda>s. is_node_plus_one s = 0) table (start_slot table set_id feature)))"

definition slot_matches :: "u64 \<Rightarrow> u32 \<Rightarrow> identity_slot \<Rightarrow> bool" where
  "slot_matches set_id feature s \<longleftrightarrow> is_feature_set_id s = set_id \<and> is_feature_index s = feature"

definition resolve_node :: "nat \<Rightarrow> u32 \<Rightarrow> track_graph \<Rightarrow> (thrown + nat \<times> track_graph) option" where
  "resolve_node metadata_index feature g =
     (if metadata_index \<ge> length (tg_metadata g) \<or> tg_identity g = []
      then Some (Inl THROWN_INVALID_ARGUMENT)
      else
        let set_id = fm_feature_set_id (tg_metadata g ! metadata_index); table = tg_identity g in
        case table_probe (\<lambda>s. is_node_plus_one s = 0 \<or> slot_matches set_id feature s) table
            (start_slot table set_id feature) of
          None \<Rightarrow> None
        | Some slot \<Rightarrow>
            let found = table ! slot in
            if is_node_plus_one found \<noteq> 0
            then let index = is_node_plus_one found - 1 in
              if nd_metadata_index (tg_nodes g ! index) \<noteq> metadata_index
              then Some (Inl THROWN_INVALID_ARGUMENT)
              else Some (Inr (index, g))
            else if length (tg_nodes g) = TRACK_INDEX_MAX \<or> tg_identity_size g = length table
            then Some (Inl THROWN_BAD_ALLOC)
            else
              let node = \<lparr>nd_feature_set_id = set_id, nd_feature_index = feature,
                    nd_metadata_index = metadata_index\<rparr>;
                  index = length (tg_nodes g)
              in map_option (\<lambda>g. Inr (index, g))
                (insert_identity node index (g\<lparr>tg_nodes := tg_nodes g @ [node]\<rparr>)))"

definition add_edge ::
    "nat \<Rightarrow> u32 \<Rightarrow> nat \<Rightarrow> u32 \<Rightarrow> track_graph \<Rightarrow> (thrown + bool \<times> track_graph) option" where
  "add_edge am ai bm bi g =
     (case resolve_node am ai g of
        None \<Rightarrow> None
      | Some (Inl e) \<Rightarrow> Some (Inl e)
      | Some (Inr (a, g)) \<Rightarrow>
          (case resolve_node bm bi g of
             None \<Rightarrow> None
           | Some (Inl e) \<Rightarrow> Some (Inl e)
           | Some (Inr (b, g)) \<Rightarrow>
               if a = b then Some (Inr (False, g))
               else Some (Inr (True, g\<lparr>
                 tg_edges := tg_edges g @ [if a < b then (a, b) else (b, a)],
                 tg_raw_edge_count := tg_raw_edge_count g + 1\<rparr>))))"

definition node_image :: "track_graph \<Rightarrow> nat \<Rightarrow> u64" where
  "node_image g i = fm_image_id (tg_metadata g ! nd_metadata_index (tg_nodes g ! i))"

section \<open>The disjoint sets\<close>

text \<open>\<open>root\<close> with path halving: the parents afterwards and the root.\<close>

partial_function (option) dsu_root :: "nat list \<Rightarrow> nat \<Rightarrow> (nat list \<times> nat) option" where
  "dsu_root parent v =
     (if parent ! v = v then Some (parent, v)
      else let parent = parent[v := parent ! (parent ! v)] in dsu_root parent (parent ! v))"

definition dsu_unite :: "nat \<Rightarrow> nat \<Rightarrow> nat list \<times> nat list \<Rightarrow> (nat list \<times> nat list) option" where
  "dsu_unite a b d =
     (case d of (parent, rank) \<Rightarrow>
      case dsu_root parent a of
        None \<Rightarrow> None
      | Some (parent, a) \<Rightarrow>
          (case dsu_root parent b of
             None \<Rightarrow> None
           | Some (parent, b) \<Rightarrow>
               if a = b then Some (parent, rank)
               else
                 let (a, b) = (if rank ! a < rank ! b then (b, a) else (a, b))
                 in Some (parent[b := a],
                      if rank ! a = rank ! b then rank[a := rank ! a + 1] else rank)))"

fun dsu_unite_all :: "(nat \<times> nat) list \<Rightarrow> nat list \<times> nat list \<Rightarrow> (nat list \<times> nat list) option" where
  "dsu_unite_all [] d = Some d"
| "dsu_unite_all ((low, high) # edges) d =
     (case dsu_unite low high d of None \<Rightarrow> None | Some d \<Rightarrow> dsu_unite_all edges d)"

definition dsu_create :: "nat \<Rightarrow> nat list \<times> nat list" where
  "dsu_create n = ([0..<n], replicate n 0)"

text \<open>The roots the comparisons of the grouping see, computed for each node in turn.\<close>

fun dsu_roots :: "nat list \<Rightarrow> nat list \<Rightarrow> nat list option" where
  "dsu_roots parent [] = Some []"
| "dsu_roots parent (v # vs) =
     (case dsu_root parent v of
        None \<Rightarrow> None
      | Some (parent, r) \<Rightarrow> map_option (\<lambda>rs. r # rs) (dsu_roots parent vs))"

section \<open>Building the tracks\<close>

definition node_key :: "track_graph \<Rightarrow> nat \<Rightarrow> u64 \<times> u32" where
  "node_key g i = (nd_feature_set_id (tg_nodes g ! i), nd_feature_index (tg_nodes g ! i))"

definition node_metadata :: "track_graph \<Rightarrow> nat \<Rightarrow> feature_metadata" where
  "node_metadata g i = tg_metadata g ! nd_metadata_index (tg_nodes g ! i)"

text \<open>The maximal runs of the grouped nodes with one root.\<close>

function root_runs :: "(nat \<Rightarrow> nat) \<Rightarrow> nat list \<Rightarrow> nat list list" where
  "root_runs rt [] = []"
| "root_runs rt (x # xs) =
     (x # takeWhile (\<lambda>y. rt y = rt x) xs) # root_runs rt (dropWhile (\<lambda>y. rt y = rt x) xs)"
  by pat_completeness auto

termination
  by (relation "measure (\<lambda>(rt, xs). length xs)") (auto simp: le_imp_less_Suc length_dropWhile_le)

fun adjacent_duplicate :: "'a list \<Rightarrow> bool" where
  "adjacent_duplicate (x # y # zs) = (x = y \<or> adjacent_duplicate (y # zs))"
| "adjacent_duplicate _ = False"

definition group_valid :: "track_graph \<Rightarrow> nat list \<Rightarrow> bool" where
  "group_valid g members \<longleftrightarrow>
     length members \<ge> 2
     \<and> (\<forall>i \<in> set members. meta_equal (node_metadata g (hd members)) (node_metadata g i) False)
     \<and> \<not> adjacent_duplicate (sort (map (node_image g) members))"

fun track_ranges :: "nat \<Rightarrow> nat list list \<Rightarrow> (nat \<times> nat) list" where
  "track_ranges begin [] = []"
| "track_ranges begin (members # groups) =
     (begin, length members) # track_ranges (begin + length members) groups"

text \<open>
  \<open>build\<close>: the edges are sorted and deduplicated, united, the nodes grouped by root and key, the
  valid groups sorted by their keys. \<open>std::sort\<close> by a strict order on distinct keys is the
  sorted list; \<open>allocated\<close> tells whether the memory of the build is there.
\<close>

definition graph_build :: "bool \<Rightarrow> track_graph \<Rightarrow> (builder_result \<times> track_output) option" where
  "graph_build allocated g =
     (if \<not> allocated then Some (TRACK_BUILDER_OUT_OF_MEMORY, \<lparr>to_memberships = [], to_tracks = []\<rparr>)
      else
        let n = length (tg_nodes g); edges = remdups_adj (sort (tg_edges g)) in
        case dsu_unite_all edges (dsu_create n) of
          None \<Rightarrow> None
        | Some (parent, rank) \<Rightarrow>
            (case dsu_roots parent [0..<n] of
               None \<Rightarrow> None
             | Some roots \<Rightarrow>
                 let grouped = sort_key (\<lambda>i. (roots ! i, node_key g i)) [0..<n];
                     accepted = filter (group_valid g) (root_runs (\<lambda>i. roots ! i) grouped);
                     accepted = sort_key (map (node_key g)) accepted
                 in Some (TRACK_BUILDER_OK,
                   \<lparr>to_memberships = map (\<lambda>i. \<lparr>tm_feature_set_id = fst (node_key g i),
                        tm_feature_index = snd (node_key g i), tm_node_index = i\<rparr>) (concat accepted),
                    to_tracks = track_ranges 0 accepted\<rparr>)))"

section \<open>The public builder\<close>

record track_input =
  ti_feature_set_id :: u64
  ti_feature_index :: u32
  ti_image_id :: u64
  ti_extractor_kind :: kind_bytes
  ti_extractor_version :: u32
  ti_parameter_fingerprint :: kind_bytes
  ti_descriptor_type :: u32
  ti_descriptor_dimension :: u32

record track_observation =
  tob_feature_set_id :: u64
  tob_feature_index :: u32
  tob_image_id :: u64

text \<open>An edge of the public interface points to two observations, or to none.\<close>

type_synonym track_input_edge = "track_input option \<times> track_input option"

definition project_metadata :: "track_input \<Rightarrow> feature_metadata" where
  "project_metadata ob =
     \<lparr>fm_feature_set_id = ti_feature_set_id ob, fm_image_id = ti_image_id ob,
      fm_extractor_kind = ti_extractor_kind ob, fm_extractor_version = ti_extractor_version ob,
      fm_parameter_fingerprint = ti_parameter_fingerprint ob,
      fm_descriptor_type = ti_descriptor_type ob, fm_descriptor_dimension = ti_descriptor_dimension ob\<rparr>"

record public_identity =
  pi_feature_set_id :: u64
  pi_feature_index :: u32
  pi_metadata :: feature_metadata
  pi_metadata_index :: nat
  pi_registered :: bool

definition identity_key :: "public_identity \<Rightarrow> u64 \<times> u32" where
  "identity_key p = (pi_feature_set_id p, pi_feature_index p)"

definition input_identity :: "track_input \<Rightarrow> public_identity" where
  "input_identity ob =
     \<lparr>pi_feature_set_id = ti_feature_set_id ob, pi_feature_index = ti_feature_index ob,
      pi_metadata = project_metadata ob, pi_metadata_index = 0, pi_registered = False\<rparr>"

fun contradictory :: "public_identity list \<Rightarrow> bool" where
  "contradictory (p # q # rest) =
     (identity_key p = identity_key q \<and> \<not> meta_equal (pi_metadata p) (pi_metadata q) True
      \<or> contradictory (q # rest))"
| "contradictory _ = False"

text \<open>The binary search: the first identity not below the key, when it has the key.\<close>

definition find_identity :: "public_identity list \<Rightarrow> track_input \<Rightarrow> nat option" where
  "find_identity identities ob =
     (let key = (ti_feature_set_id ob, ti_feature_index ob);
          found = length (takeWhile (\<lambda>p. identity_key p < key) identities)
      in if found < length identities \<and> identity_key (identities ! found) = key
         then Some found else None)"

definition register_identity ::
    "nat \<Rightarrow> public_identity list \<times> track_graph \<Rightarrow> thrown + (public_identity list \<times> track_graph)" where
  "register_identity i st =
     (case st of (identities, g) \<Rightarrow>
      let p = identities ! i in
      if pi_registered p then Inr (identities, g)
      else (case register_feature (pi_metadata p) g of
          Inl e \<Rightarrow> Inl e
        | Inr (index, g) \<Rightarrow>
            Inr (identities[i := p\<lparr>pi_metadata_index := index, pi_registered := True\<rparr>], g)))"

definition thrown_result :: "thrown \<Rightarrow> builder_result" where
  "thrown_result e = (case e of THROWN_INVALID_ARGUMENT \<Rightarrow> TRACK_BUILDER_CORRUPT_INPUT
     | THROWN_BAD_ALLOC \<Rightarrow> TRACK_BUILDER_OUT_OF_MEMORY)"

definition public_edge ::
    "bool \<Rightarrow> track_input_edge \<Rightarrow> public_identity list \<times> track_graph
      \<Rightarrow> (builder_result + (public_identity list \<times> track_graph)) option" where
  "public_edge memory edge st =
     (case edge of
        (Some a, Some b) \<Rightarrow>
          (case (find_identity (fst st) a, find_identity (fst st) b) of
             (Some i, Some j) \<Rightarrow>
               if \<not> meta_equal (pi_metadata (fst st ! i)) (project_metadata a) True
                 \<or> \<not> meta_equal (pi_metadata (fst st ! j)) (project_metadata b) True
               then Some (Inl TRACK_BUILDER_CORRUPT_INPUT)
               else if \<not> memory then Some (Inl TRACK_BUILDER_OUT_OF_MEMORY)
               else (case register_identity i st of
                   Inl e \<Rightarrow> Some (Inl (thrown_result e))
                 | Inr st \<Rightarrow>
                     (case register_identity j st of
                        Inl e \<Rightarrow> Some (Inl (thrown_result e))
                      | Inr (identities, g) \<Rightarrow>
                          let p = identities ! i; q = identities ! j in
                          (case add_edge (pi_metadata_index p) (pi_feature_index p)
                              (pi_metadata_index q) (pi_feature_index q) g of
                             None \<Rightarrow> None
                           | Some (Inl e) \<Rightarrow> Some (Inl (thrown_result e))
                           | Some (Inr (added, g)) \<Rightarrow>
                               if \<not> added then Some (Inl TRACK_BUILDER_CORRUPT_INPUT)
                               else Some (Inr (identities, g)))))
           | _ \<Rightarrow> Some (Inl TRACK_BUILDER_CORRUPT_INPUT))
      | _ \<Rightarrow> Some (Inl TRACK_BUILDER_CORRUPT_INPUT))"

text \<open>The memory answers of one call: each part of it is there or not.\<close>

record builder_memory =
  bm_graph :: bool
  bm_inputs :: bool
  bm_edge :: "nat \<Rightarrow> bool"
  bm_build :: bool
  bm_result :: bool

fun public_edges ::
    "(nat \<Rightarrow> bool) \<Rightarrow> nat \<Rightarrow> track_input_edge list \<Rightarrow> public_identity list \<times> track_graph
      \<Rightarrow> (builder_result + (public_identity list \<times> track_graph)) option" where
  "public_edges memory i [] st = Some (Inr st)"
| "public_edges memory i (edge # edges) st =
     (case public_edge (memory i) edge st of
        None \<Rightarrow> None
      | Some (Inl r) \<Rightarrow> Some (Inl r)
      | Some (Inr st) \<Rightarrow> public_edges memory (i + 1) edges st)"

definition public_tracks :: "track_graph \<Rightarrow> track_output \<Rightarrow> track_observation list list" where
  "public_tracks g out =
     map (\<lambda>(begin, count). map (\<lambda>m. \<lparr>tob_feature_set_id = tm_feature_set_id m,
         tob_feature_index = tm_feature_index m, tob_image_id = node_image g (tm_node_index m)\<rparr>)
       (take count (drop begin (to_memberships out)))) (to_tracks out)"

text \<open>\<open>lardon3d_track_builder_build\<close>: the result and the tracks; on failure there are none.\<close>

definition track_builder_build ::
    "builder_memory \<Rightarrow> track_input list \<Rightarrow> track_input_edge list
      \<Rightarrow> (builder_result \<times> track_observation list list) option" where
  "track_builder_build memory observations edges =
     (case graph_create (length edges) of
        None \<Rightarrow> Some (TRACK_BUILDER_OUT_OF_MEMORY, [])
      | Some g \<Rightarrow>
          if \<not> bm_graph memory \<or> \<not> bm_inputs memory then Some (TRACK_BUILDER_OUT_OF_MEMORY, [])
          else if \<not> list_all (\<lambda>ob. meta_valid (project_metadata ob)) observations
          then Some (TRACK_BUILDER_CORRUPT_INPUT, [])
          else
            let identities = sort_key identity_key (map input_identity observations) in
            if contradictory identities then Some (TRACK_BUILDER_CORRUPT_INPUT, [])
            else (case public_edges (bm_edge memory) 0 edges (identities, g) of
                None \<Rightarrow> None
              | Some (Inl r) \<Rightarrow> Some (r, [])
              | Some (Inr (identities, g)) \<Rightarrow>
                  (case graph_build (bm_build memory) g of
                     None \<Rightarrow> None
                   | Some (status, out) \<Rightarrow>
                       if status \<noteq> TRACK_BUILDER_OK then Some (status, [])
                       else if \<not> bm_result memory then Some (TRACK_BUILDER_OUT_OF_MEMORY, [])
                       else Some (TRACK_BUILDER_OK, public_tracks g out))))"

section \<open>Fingerprint\<close>

definition fingerprint_bytes :: "u8 list" where
  "fingerprint_bytes =
     [0x4C, 0x33, 0x44, 0x54, 0x42, 0x46, 0x50, 0x31]
     @ concat (map (\<lambda>field. map (\<lambda>b. ucast (drop_bit (b * 8) (field :: u32)) :: u8) [0..<4])
         [1, 1, 1, 1, 1, 1, 1, 1, 2, 0])"

end
