(* ===== verification/Track_Table.thy ===== *)
theory Track_Table
  imports Track_Builder
begin

text \<open>
  The open-addressed identity table of the track builder implements a dictionary: as long as a
  slot is empty, resolving a feature ends, finds its node if it has one, and appends a node for
  it otherwise.
\<close>

section \<open>Probing\<close>

lemma and_pred_power: "(x :: nat) AND (2 ^ k - Suc 0) = x mod 2 ^ k"
  by (metis One_nat_def mask_eq_exp_minus_1 take_bit_eq_mask take_bit_eq_mod)

lemma probe_least:
  assumes "length table = 2 ^ k"
  shows "s < 2 ^ k \<Longrightarrow> stop (table ! ((s + j) mod 2 ^ k)) \<Longrightarrow> \<forall>i < j. \<not> stop (table ! ((s + i) mod 2 ^ k)) \<Longrightarrow>
    table_probe stop table s = Some ((s + j) mod 2 ^ k)"
proof (induction j arbitrary: s)
  case 0
  then show ?case by (subst table_probe.simps) simp
next
  case (Suc j)
  let ?next = "(s + 1) mod 2 ^ k"
  have shift: "(?next + i) mod 2 ^ k = (s + Suc i) mod 2 ^ k" for i by (simp add: mod_simps)
  have "\<not> stop (table ! s)" using Suc.prems(1,3) by (auto dest: spec [of _ 0])
  moreover have "table_probe stop table ?next = Some ((?next + j) mod 2 ^ k)"
  proof (rule Suc.IH)
    show "stop (table ! ((?next + j) mod 2 ^ k))" using Suc.prems(2) by (simp only: shift)
    show "\<forall>i < j. \<not> stop (table ! ((?next + i) mod 2 ^ k))" using Suc.prems(3) by (auto simp only: shift)
  qed simp
  ultimately show ?case
    using assms shift [of j] by (subst table_probe.simps) (simp add: and_pred_power)
qed

text \<open>From any slot, a reachable stop gives the first one.\<close>

lemma probe_first:
  assumes "length table = 2 ^ k" "s < 2 ^ k" "stop (table ! ((s + j) mod 2 ^ k))"
  obtains i where "i \<le> j" "stop (table ! ((s + i) mod 2 ^ k))" "\<forall>h < i. \<not> stop (table ! ((s + h) mod 2 ^ k))"
    "table_probe stop table s = Some ((s + i) mod 2 ^ k)"
proof -
  define i where "i = (LEAST i. stop (table ! ((s + i) mod 2 ^ k)))"
  have stop: "stop (table ! ((s + i) mod 2 ^ k))" unfolding i_def by (rule LeastI [of _ j]) (rule assms(3))
  have before: "\<forall>h < i. \<not> stop (table ! ((s + h) mod 2 ^ k))" unfolding i_def by (auto dest: not_less_Least)
  have "i \<le> j" unfolding i_def by (rule Least_le) (rule assms(3))
  with stop before show thesis using that probe_least [of table k s stop i, OF assms(1,2) stop before] by blast
qed

lemma path_onto:
  assumes "(e :: nat) < 2 ^ k" "s < 2 ^ k"
  obtains j where "j < 2 ^ k" "(s + j) mod 2 ^ k = e"
proof -
  have "(s + (e + 2 ^ k - s) mod 2 ^ k) mod 2 ^ k = (s + (e + 2 ^ k - s)) mod 2 ^ k" by (simp add: mod_simps)
  also have "\<dots> = e" using assms by simp
  finally show thesis by (intro that [of "(e + 2 ^ k - s) mod 2 ^ k"]) simp_all
qed

section \<open>The invariant\<close>

definition graph_keys :: "track_graph \<Rightarrow> (u64 \<times> u32) list" where
  "graph_keys g = map (\<lambda>nd. (nd_feature_set_id nd, nd_feature_index nd)) (tg_nodes g)"

lemma graph_keys_nth: "i < length (tg_nodes g) \<Longrightarrow> graph_keys g ! i = node_key g i"
  by (simp add: graph_keys_def node_key_def)

lemma graph_keys_length [simp]: "length (graph_keys g) = length (tg_nodes g)"
  by (simp add: graph_keys_def)

definition slot_holds :: "identity_slot \<Rightarrow> u64 \<times> u32 \<Rightarrow> nat \<Rightarrow> bool" where
  "slot_holds s key i \<longleftrightarrow> is_node_plus_one s = i + 1 \<and> is_feature_set_id s = fst key \<and> is_feature_index s = snd key"

definition occupied :: "identity_slot list \<Rightarrow> nat set" where
  "occupied table = {s. s < length table \<and> is_node_plus_one (table ! s) \<noteq> 0}"

text \<open>Node \<open>i\<close> is found on the probing path of its key: the slots before its own are occupied.\<close>

definition resident :: "identity_slot list \<Rightarrow> u64 \<times> u32 \<Rightarrow> nat \<Rightarrow> bool" where
  "resident table key i \<longleftrightarrow> (\<exists>j.
     slot_holds (table ! ((start_slot table (fst key) (snd key) + j) mod length table)) key i
     \<and> (\<forall>h < j. (start_slot table (fst key) (snd key) + h) mod length table \<in> occupied table))"

definition table_ok :: "track_graph \<Rightarrow> bool" where
  "table_ok g \<longleftrightarrow> (\<exists>k. length (tg_identity g) = 2 ^ k)
     \<and> tg_identity_size g = length (tg_nodes g)
     \<and> card (occupied (tg_identity g)) = length (tg_nodes g)
     \<and> distinct (graph_keys g)
     \<and> (\<forall>s \<in> occupied (tg_identity g). \<exists>i < length (tg_nodes g).
          slot_holds (tg_identity g ! s) (graph_keys g ! i) i)
     \<and> (\<forall>i < length (tg_nodes g). resident (tg_identity g) (graph_keys g ! i) i)"

lemma start_slot_less: "length table = 2 ^ k \<Longrightarrow> start_slot table a b < 2 ^ k"
  by (simp add: start_slot_def and_pred_power)

lemma start_slot_length: "length t = length t' \<Longrightarrow> start_slot t a b = start_slot t' a b"
  by (simp add: start_slot_def)

lemma empty_slot_exists:
  assumes "card (occupied table) < length table"
  obtains e where "e < length table" "is_node_plus_one (table ! e) = 0"
proof -
  have "\<exists>e < length table. is_node_plus_one (table ! e) = 0"
  proof (rule ccontr)
    assume "\<not> ?thesis"
    then have "occupied table = {..<length table}" by (auto simp: occupied_def)
    then show False using assms by simp
  qed
  then show thesis using that by blast
qed

section \<open>Resolution\<close>

text \<open>Where a probe for a key stops: at the key's node, or else at an empty slot of its path.\<close>

lemma probe_key:
  assumes ok: "table_ok g" and room: "length (tg_nodes g) < length (tg_identity g)"
  obtains (present) i slot where "i < length (tg_nodes g)" "graph_keys g ! i = (a, b)"
      "table_probe (\<lambda>s. is_node_plus_one s = 0 \<or> slot_matches a b s) (tg_identity g)
         (start_slot (tg_identity g) a b) = Some slot"
      "is_node_plus_one (tg_identity g ! slot) = i + 1"
  | (absent) j slot where "(a, b) \<notin> set (graph_keys g)"
      "table_probe (\<lambda>s. is_node_plus_one s = 0 \<or> slot_matches a b s) (tg_identity g)
         (start_slot (tg_identity g) a b) = Some slot"
      "table_probe (\<lambda>s. is_node_plus_one s = 0) (tg_identity g) (start_slot (tg_identity g) a b) = Some slot"
      "is_node_plus_one (tg_identity g ! slot) = 0" "slot < length (tg_identity g)"
      "slot = (start_slot (tg_identity g) a b + j) mod length (tg_identity g)"
      "\<forall>h < j. (start_slot (tg_identity g) a b + h) mod length (tg_identity g) \<in> occupied (tg_identity g)"
proof -
  let ?t = "tg_identity g" and ?stop = "\<lambda>s. is_node_plus_one s = 0 \<or> slot_matches a b s"
  let ?start = "start_slot ?t a b"
  obtain k where k: "length ?t = 2 ^ k" using ok by (auto simp: table_ok_def)
  have start: "?start < 2 ^ k" by (rule start_slot_less [OF k])
  have inside: "(?start + h) mod 2 ^ k < length ?t" for h by (simp add: k)
  have match: "\<exists>i < length (tg_nodes g). is_node_plus_one (?t ! s) = i + 1 \<and> graph_keys g ! i = (a, b)"
    if "s < length ?t" "is_node_plus_one (?t ! s) \<noteq> 0" "slot_matches a b (?t ! s)" for s
    using ok that by (fastforce simp: table_ok_def occupied_def slot_holds_def slot_matches_def)
  show thesis
  proof (cases "(a, b) \<in> set (graph_keys g)")
    case True
    then obtain i where i: "i < length (tg_nodes g)" "graph_keys g ! i = (a, b)" by (auto simp: in_set_conv_nth)
    then have "resident ?t (a, b) i" using ok by (auto simp: table_ok_def)
    then obtain j where j: "slot_holds (?t ! ((?start + j) mod 2 ^ k)) (a, b) i"
      "\<forall>h < j. (?start + h) mod 2 ^ k \<in> occupied ?t" by (auto simp: resident_def k)
    then have "?stop (?t ! ((?start + j) mod 2 ^ k))" by (simp add: slot_holds_def slot_matches_def)
    from probe_first [OF k start, of ?stop j, OF this]
    obtain h where h: "h \<le> j" "?stop (?t ! ((?start + h) mod 2 ^ k))"
      "table_probe ?stop ?t ?start = Some ((?start + h) mod 2 ^ k)" by blast
    have "is_node_plus_one (?t ! ((?start + h) mod 2 ^ k)) \<noteq> 0"
      using h(1) j by (cases "h = j") (auto simp: slot_holds_def occupied_def)
    with h(2) match [OF inside, of h] obtain i' where "i' < length (tg_nodes g)"
      "is_node_plus_one (?t ! ((?start + h) mod 2 ^ k)) = i' + 1" "graph_keys g ! i' = (a, b)" by blast
    then show thesis using present h(3) by blast
  next
    case False
    obtain e where e: "e < length ?t" "is_node_plus_one (?t ! e) = 0"
      using empty_slot_exists [of ?t] ok room by (auto simp: table_ok_def)
    obtain j where "(?start + j) mod 2 ^ k = e" using path_onto [of e k ?start] e(1) start k by metis
    then have stop: "?stop (?t ! ((?start + j) mod 2 ^ k))" using e(2) by simp
    obtain h where h: "?stop (?t ! ((?start + h) mod 2 ^ k))"
      "\<forall>l < h. \<not> ?stop (?t ! ((?start + l) mod 2 ^ k))"
      "table_probe ?stop ?t ?start = Some ((?start + h) mod 2 ^ k)"
      using probe_first [OF k start, of ?stop j, OF stop] by blast
    have none: "\<not> slot_matches a b (?t ! ((?start + l) mod 2 ^ k))"
      if "is_node_plus_one (?t ! ((?start + l) mod 2 ^ k)) \<noteq> 0" for l
      using match [OF inside that] False by (metis graph_keys_length nth_mem)
    have empty: "is_node_plus_one (?t ! ((?start + h) mod 2 ^ k)) = 0" using h(1) none by blast
    have "table_probe (\<lambda>s. is_node_plus_one s = 0) ?t ?start = Some ((?start + h) mod 2 ^ k)"
    proof (rule probe_least [OF k start])
      show "\<forall>i < h. is_node_plus_one (?t ! ((?start + i) mod 2 ^ k)) \<noteq> 0" using h(2) by simp
    qed (rule empty)
    moreover have "\<forall>l < h. (?start + l) mod length ?t \<in> occupied ?t"
      using h(2) inside by (simp add: occupied_def k)
    moreover have "(?start + h) mod 2 ^ k = (?start + h) mod length ?t" by (simp only: k)
    ultimately show thesis using absent [OF False h(3)] empty inside by blast
  qed
qed

text \<open>The table after an insertion at the empty slot the probe found.\<close>

lemma occupied_update:
  assumes "s < length t" "is_node_plus_one x \<noteq> 0"
  shows "occupied (t[s := x]) = insert s (occupied t)"
  using assms by (auto simp: occupied_def nth_list_update split: if_splits)

lemma finite_occupied [simp]: "finite (occupied t)"
  by (simp add: occupied_def)

lemma resident_update:
  assumes "resident t key i" "s < length t" "is_node_plus_one (t ! s) = 0" "is_node_plus_one x \<noteq> 0"
  shows "resident (t[s := x]) key i"
proof -
  let ?n = "length t" and ?start = "start_slot t (fst key) (snd key)"
  obtain j where j: "slot_holds (t ! ((?start + j) mod ?n)) key i"
    "\<forall>h < j. (?start + h) mod ?n \<in> occupied t" using assms(1) by (auto simp: resident_def)
  have "(?start + j) mod ?n \<noteq> s" using j(1) assms(3) by (auto simp: slot_holds_def)
  with j show ?thesis
    unfolding resident_def occupied_update [OF assms(2,4)]
    by (intro exI [of _ j]) (simp add: start_slot_length [of "t[s := x]" t])
qed

lemma table_ok_insert:
  assumes ok: "table_ok g" and key: "(a, b) \<notin> set (graph_keys g)"
    and slot: "is_node_plus_one (tg_identity g ! slot) = 0" "slot < length (tg_identity g)"
      "slot = (start_slot (tg_identity g) a b + j) mod length (tg_identity g)"
      "\<forall>h < j. (start_slot (tg_identity g) a b + h) mod length (tg_identity g) \<in> occupied (tg_identity g)"
    and node: "nd_feature_set_id node = a" "nd_feature_index node = b"
    and x: "x = \<lparr>is_feature_set_id = a, is_feature_index = b, is_node_plus_one = length (tg_nodes g) + 1\<rparr>"
  shows "table_ok (g\<lparr>tg_nodes := tg_nodes g @ [node], tg_identity := (tg_identity g)[slot := x],
    tg_identity_size := tg_identity_size g + 1\<rparr>)"
proof -
  let ?t = "tg_identity g" and ?t' = "(tg_identity g)[slot := x]"
  have x0: "is_node_plus_one x \<noteq> 0" by (simp add: x)
  have occ: "occupied ?t' = insert slot (occupied ?t)" "slot \<notin> occupied ?t"
    using occupied_update [OF slot(2) x0] slot(1) by (auto simp: occupied_def)
  have keys: "graph_keys (g\<lparr>tg_nodes := tg_nodes g @ [node], tg_identity := ?t',
      tg_identity_size := tg_identity_size g + 1\<rparr>) = graph_keys g @ [(a, b)]"
    by (simp add: graph_keys_def node)
  have here: "slot_holds (?t' ! slot) (a, b) (length (tg_nodes g))"
    using slot(2) by (simp add: slot_holds_def x)
  have start: "start_slot ?t' a b = start_slot ?t a b" by (rule start_slot_length) simp
  have new: "resident ?t' (a, b) (length (tg_nodes g))"
    unfolding resident_def occ(1)
    using slot(4) here by (intro exI [of _ j]) (simp add: start slot(3) [symmetric])
  have old: "\<exists>i < length (tg_nodes g). slot_holds (?t' ! s) (graph_keys g ! i) i" if "s \<in> occupied ?t" for s
  proof -
    have "s \<noteq> slot" using that occ(2) by auto
    then show ?thesis using ok that by (simp add: table_ok_def)
  qed
  show ?thesis
    unfolding table_ok_def keys
  proof (intro conjI ballI allI impI)
    show "\<exists>k. length (tg_identity (g\<lparr>tg_nodes := tg_nodes g @ [node], tg_identity := ?t',
      tg_identity_size := tg_identity_size g + 1\<rparr>)) = 2 ^ k" using ok by (simp add: table_ok_def)
  next
    fix i assume "i < length (tg_nodes (g\<lparr>tg_nodes := tg_nodes g @ [node], tg_identity := ?t',
      tg_identity_size := tg_identity_size g + 1\<rparr>))"
    then show "resident (tg_identity (g\<lparr>tg_nodes := tg_nodes g @ [node], tg_identity := ?t',
      tg_identity_size := tg_identity_size g + 1\<rparr>)) ((graph_keys g @ [(a, b)]) ! i) i"
      using ok new resident_update [OF _ slot(2,1) x0]
      by (cases "i = length (tg_nodes g)") (auto simp: nth_append table_ok_def)
  next
    fix s assume "s \<in> occupied (tg_identity (g\<lparr>tg_nodes := tg_nodes g @ [node], tg_identity := ?t',
      tg_identity_size := tg_identity_size g + 1\<rparr>))"
    then have "s = slot \<or> s \<in> occupied ?t" by (simp add: occ(1))
    then show "\<exists>i < length (tg_nodes (g\<lparr>tg_nodes := tg_nodes g @ [node], tg_identity := ?t',
        tg_identity_size := tg_identity_size g + 1\<rparr>)).
      slot_holds (tg_identity (g\<lparr>tg_nodes := tg_nodes g @ [node], tg_identity := ?t',
        tg_identity_size := tg_identity_size g + 1\<rparr>) ! s) ((graph_keys g @ [(a, b)]) ! i) i"
    proof
      assume "s = slot"
      with here show ?thesis by (intro exI [of _ "length (tg_nodes g)"]) (simp add: nth_append)
    next
      assume "s \<in> occupied ?t"
      from old [OF this] obtain i where "i < length (tg_nodes g)" "slot_holds (?t' ! s) (graph_keys g ! i) i" by blast
      then show ?thesis by (intro exI [of _ i]) (simp add: nth_append)
    qed
  qed (use ok occ key in \<open>auto simp: table_ok_def\<close>)
qed

text \<open>Resolution is a lookup, or else an append.\<close>

lemma resolve_present:
  assumes "table_ok g" "length (tg_nodes g) < length (tg_identity g)" "m < length (tg_metadata g)"
    and "i < length (tg_nodes g)" "graph_keys g ! i = (fm_feature_set_id (tg_metadata g ! m), feature)"
  shows "resolve_node m feature g =
    Some (if nd_metadata_index (tg_nodes g ! i) \<noteq> m then Inl THROWN_INVALID_ARGUMENT else Inr (i, g))"
  using assms(1,2)
proof (cases rule: probe_key [where a = "fm_feature_set_id (tg_metadata g ! m)" and b = feature])
  case (present i' slot)
  have "i' = i"
    using assms(1,4,5) present(1,2) by (metis graph_keys_length nth_eq_iff_index_eq table_ok_def)
  then show ?thesis using present(3,4) assms(2,3) by (auto simp: resolve_node_def Let_def)
next
  case (absent j slot)
  then show ?thesis using assms(4,5) by (metis graph_keys_length nth_mem)
qed

lemma resolve_absent:
  assumes "table_ok g" "length (tg_nodes g) < length (tg_identity g)" "m < length (tg_metadata g)"
    and "(fm_feature_set_id (tg_metadata g ! m), feature) \<notin> set (graph_keys g)"
    and "length (tg_nodes g) \<noteq> TRACK_INDEX_MAX"
  obtains g' where "resolve_node m feature g = Some (Inr (length (tg_nodes g), g'))" "table_ok g'"
    "tg_nodes g' = tg_nodes g @ [\<lparr>nd_feature_set_id = fm_feature_set_id (tg_metadata g ! m),
       nd_feature_index = feature, nd_metadata_index = m\<rparr>]"
    "tg_metadata g' = tg_metadata g" "tg_edges g' = tg_edges g" "tg_raw_edge_count g' = tg_raw_edge_count g"
    "length (tg_identity g') = length (tg_identity g)"
  using assms(1,2)
proof (cases rule: probe_key [where a = "fm_feature_set_id (tg_metadata g ! m)" and b = feature])
  case (present i slot)
  then show ?thesis using assms(4) by (metis graph_keys_length nth_mem)
next
  case (absent j slot)
  let ?node = "\<lparr>nd_feature_set_id = fm_feature_set_id (tg_metadata g ! m), nd_feature_index = feature,
    nd_metadata_index = m\<rparr>"
  let ?x = "\<lparr>is_feature_set_id = fm_feature_set_id (tg_metadata g ! m), is_feature_index = feature,
    is_node_plus_one = length (tg_nodes g) + 1\<rparr>"
  let ?g = "g\<lparr>tg_nodes := tg_nodes g @ [?node], tg_identity := (tg_identity g)[slot := ?x],
    tg_identity_size := tg_identity_size g + 1\<rparr>"
  have "tg_identity_size g \<noteq> length (tg_identity g)" using assms(1,2) by (simp add: table_ok_def)
  then have "resolve_node m feature g = Some (Inr (length (tg_nodes g), ?g))"
    using absent(2-4) assms(2,3,5) by (auto simp: resolve_node_def insert_identity_def Let_def)
  moreover have "table_ok ?g"
    by (rule table_ok_insert [OF assms(1) absent(1,4-7)]) simp_all
  ultimately show ?thesis using that by simp
qed

end
