(* ===== verification/Track_Dsu.thy ===== *)
theory Track_Dsu
  imports Track_Builder
begin

text \<open>
  The disjoint sets of the track builder: root searches with path halving end and keep every
  root, and uniting the edges makes two nodes share a root exactly when they are connected.
  The ranks stay below 32, so the byte that stores one never wraps.
\<close>

section \<open>Roots\<close>

inductive is_root :: "nat list \<Rightarrow> nat \<Rightarrow> nat \<Rightarrow> bool" for parent where
  root_here: "parent ! v = v \<Longrightarrow> is_root parent v v"
| root_up: "parent ! v \<noteq> v \<Longrightarrow> is_root parent (parent ! v) r \<Longrightarrow> is_root parent v r"

text \<open>Ranks increase towards the root.\<close>

definition forest :: "nat list \<Rightarrow> nat list \<Rightarrow> bool" where
  "forest parent rank \<longleftrightarrow> length rank = length parent
     \<and> (\<forall>v < length parent. parent ! v < length parent
         \<and> (parent ! v \<noteq> v \<longrightarrow> rank ! v < rank ! (parent ! v)))"

lemma is_root_unique: "is_root parent v r \<Longrightarrow> is_root parent v r' \<Longrightarrow> r = r'"
proof (induction arbitrary: r' rule: is_root.induct)
  case (root_here v)
  from root_here.prems root_here.hyps show ?case by (cases rule: is_root.cases) simp_all
next
  case (root_up v r)
  from root_up.prems root_up.hyps(1) have "is_root parent (parent ! v) r'" by (cases rule: is_root.cases) simp_all
  then show ?case by (rule root_up.IH)
qed

lemma is_root_fixed: "is_root parent v r \<Longrightarrow> parent ! r = r"
  by (induction rule: is_root.induct) auto

lemma forest_up:
  assumes "forest parent rank" "v < length parent"
  shows "parent ! v < length parent" "rank ! v \<le> rank ! (parent ! v)"
    "parent ! v \<noteq> v \<Longrightarrow> rank ! v < rank ! (parent ! v)"
proof -
  show p: "parent ! v < length parent" "parent ! v \<noteq> v \<Longrightarrow> rank ! v < rank ! (parent ! v)"
    using assms by (simp_all add: forest_def)
  show "rank ! v \<le> rank ! (parent ! v)" by (cases "parent ! v = v") (use p(2) in simp_all)
qed

lemma forest_measure:
  assumes "forest parent rank" "v < length parent" "parent ! v \<noteq> v"
  shows "Max (set rank) - rank ! (parent ! v) < Max (set rank) - rank ! v"
proof -
  have "rank ! v < rank ! (parent ! v)" "parent ! v < length rank"
    using assms by (auto simp: forest_def)
  moreover from this have "rank ! (parent ! v) \<le> Max (set rank)" by simp
  ultimately show ?thesis by linarith
qed

lemma is_root_exists:
  assumes "forest parent rank"
  shows "v < length parent \<Longrightarrow> \<exists>r. is_root parent v r \<and> r < length parent \<and> rank ! v \<le> rank ! r"
proof (induction "Max (set rank) - rank ! v" arbitrary: v rule: less_induct)
  case less
  show ?case
  proof (cases "parent ! v = v")
    case True
    then show ?thesis using less.prems by (auto intro: root_here)
  next
    case False
    have up: "parent ! v < length parent" "rank ! v < rank ! (parent ! v)"
      using assms less.prems False by (auto simp: forest_def)
    from less.hyps [OF forest_measure [OF assms less.prems False] up(1)] up(2) False
    show ?thesis by (metis less_le_not_le order_trans root_up less_imp_le)
  qed
qed

lemma is_root_self: "is_root parent v v \<longleftrightarrow> parent ! v = v"
  using is_root_fixed root_here by blast

section \<open>Path halving\<close>

definition halve :: "nat list \<Rightarrow> nat \<Rightarrow> nat list" where
  "halve parent v = parent[v := parent ! (parent ! v)]"

lemma halve_forest:
  assumes "forest parent rank" "v < length parent"
  shows "forest (halve parent v) rank"
proof -
  have p: "parent ! v < length parent" using assms by (simp add: forest_def)
  have step: "rank ! w \<le> rank ! (parent ! w)" "parent ! w < length parent" if "w < length parent" for w
    using assms(1) that by (auto simp: forest_def intro: less_imp_le)
  have "rank ! v < rank ! (parent ! (parent ! v))" if "parent ! (parent ! v) \<noteq> v"
  proof (cases "parent ! v = v")
    case True
    then show ?thesis using that by simp
  next
    case False
    then have "rank ! v < rank ! (parent ! v)" using assms by (simp add: forest_def)
    also have "\<dots> \<le> rank ! (parent ! (parent ! v))" by (rule step(1) [OF p])
    finally show ?thesis .
  qed
  then show ?thesis
    using assms(1) step(2) [OF p] assms(2) by (auto simp: forest_def halve_def nth_list_update)
qed

lemma halve_root_forward:
  assumes "forest parent rank" "v < length parent" "is_root parent w r"
  shows "is_root (halve parent v) w r"
  using assms(3)
proof (induction rule: is_root.induct)
  case (root_here w)
  have "halve parent v ! w = w" using root_here assms(2) by (cases "w = v") (simp_all add: halve_def)
  then show ?case by (rule is_root.root_here)
next
  case (root_up w r)
  show ?case
  proof (cases "w = v")
    case False
    then show ?thesis using root_up by (auto simp: halve_def intro: is_root.root_up)
  next
    case True
    let ?p = "parent ! v"
    have p: "?p < length parent" "rank ! v < rank ! ?p"
      using forest_up [OF assms(1,2)] root_up.hyps(1) True by simp_all
    then have "rank ! ?p \<le> rank ! (parent ! ?p)" by (intro forest_up(2) [OF assms(1)])
    with p(2) have higher: "rank ! v < rank ! (parent ! ?p)" by simp
    have v: "halve parent v ! v = parent ! ?p" using assms(2) by (simp add: halve_def)
    have ne: "parent ! ?p \<noteq> v" using higher by auto
    have "is_root (halve parent v) (parent ! ?p) r"
    proof (cases "parent ! ?p = ?p")
      case True
      then show ?thesis using root_up.IH \<open>w = v\<close> by simp
    next
      case False
      have "halve parent v ! ?p = parent ! ?p" using root_up.hyps(1) True by (simp add: halve_def)
      from root_up.IH have "is_root (halve parent v) ?p r" using True by simp
      then show ?thesis using \<open>halve parent v ! ?p = parent ! ?p\<close> False by (cases rule: is_root.cases) simp_all
    qed
    then have "is_root (halve parent v) v r" using v ne by (simp add: is_root.root_up)
    then show ?thesis using True by simp
  qed
qed

lemma halve_length [simp]: "length (halve parent v) = length parent"
  by (simp add: halve_def)

lemma halve_root:
  assumes "forest parent rank" "v < length parent" "w < length parent"
  shows "is_root (halve parent v) w r \<longleftrightarrow> is_root parent w r"
  using halve_root_forward [OF assms(1,2)] is_root_exists [OF assms(1,3)] is_root_unique by metis

text \<open>The search: it ends at the root, and the forest it leaves has the same roots.\<close>

lemma dsu_root_finds:
  assumes "forest parent rank" "v < length parent"
  obtains parent' r where "dsu_root parent v = Some (parent', r)" "is_root parent v r" "r < length parent"
    "forest parent' rank" "length parent' = length parent"
    "\<And>w x. w < length parent \<Longrightarrow> is_root parent' w x \<longleftrightarrow> is_root parent w x"
  using assms
proof (induction "Max (set rank) - rank ! v" arbitrary: parent v thesis rule: less_induct)
  case less
  show ?case
  proof (cases "parent ! v = v")
    case True
    then have found: "dsu_root parent v = Some (parent, v)" by (subst dsu_root.simps) simp
    have "is_root parent v v" using True by (rule root_here)
    then show ?thesis using less.prems(1) [OF found] less.prems(2,3) by simp
  next
    case False
    let ?h = "halve parent v"
    have p: "parent ! v < length parent" "rank ! v < rank ! (parent ! v)"
      using less.prems(2,3) False by (auto simp: forest_def)
    have up: "?h ! v < length ?h" using less.prems(2,3) p(1) by (simp add: halve_def forest_def)
    have hv: "?h ! v = parent ! (parent ! v)" using less.prems(3) by (simp add: halve_def)
    have grows: "rank ! v < rank ! (?h ! v)"
    proof -
      have "rank ! (parent ! v) \<le> rank ! (parent ! (parent ! v))" by (rule forest_up(2) [OF less.prems(2) p(1)])
      then show ?thesis using p(2) hv by simp
    qed
    moreover have "rank ! (?h ! v) \<le> Max (set rank)"
      using up less.prems(2) by (simp add: forest_def)
    ultimately have smaller: "Max (set rank) - rank ! (?h ! v) < Max (set rank) - rank ! v" by linarith
    obtain parent' r where r: "dsu_root ?h (?h ! v) = Some (parent', r)" "is_root ?h (?h ! v) r" "r < length ?h"
      "forest parent' rank" "length parent' = length ?h"
      "\<And>w x. w < length ?h \<Longrightarrow> is_root parent' w x \<longleftrightarrow> is_root ?h w x"
      using less.hyps [OF smaller _ halve_forest [OF less.prems(2,3)] up] by blast
    have "dsu_root parent v = Some (parent', r)"
      using False r(1) by (subst dsu_root.simps) (simp add: halve_def [symmetric] Let_def)
    moreover have "?h ! v \<noteq> v" using grows by auto
    then have "is_root ?h v r" using r(2) by (rule root_up)
    ultimately show ?thesis
      using less.prems(1) [of parent' r] r(3-6) halve_root [OF less.prems(2,3)] less.prems(3) by auto
  qed
qed

section \<open>Union\<close>

definition same_root :: "nat list \<Rightarrow> nat \<Rightarrow> nat \<Rightarrow> bool" where
  "same_root parent v w \<longleftrightarrow> (\<exists>r. is_root parent v r \<and> is_root parent w r)"

definition class_of :: "nat list \<Rightarrow> nat \<Rightarrow> nat set" where
  "class_of parent r = {v. v < length parent \<and> is_root parent v r}"

text \<open>A root of rank \<open>k\<close> has at least \<open>2 ^ k\<close> nodes below it.\<close>

definition ranked :: "nat list \<Rightarrow> nat list \<Rightarrow> bool" where
  "ranked parent rank \<longleftrightarrow>
     (\<forall>r < length parent. parent ! r = r \<longrightarrow> 2 ^ (rank ! r) \<le> card (class_of parent r))"

lemma finite_class [simp]: "finite (class_of parent r)"
  by (simp add: class_of_def)

lemma link_root_forward:
  assumes "parent ! a = a" "parent ! b = b" "a \<noteq> b" "b < length parent" "is_root parent v x"
  shows "is_root (parent[b := a]) v (if x = b then a else x)"
  using assms(5)
proof (induction rule: is_root.induct)
  case (root_here v)
  have "is_root (parent[b := a]) a a" using assms(1,3) by (intro is_root.root_here) simp
  then have "is_root (parent[b := a]) b a" using assms(3,4) by (simp add: is_root.root_up)
  moreover have "v \<noteq> b \<Longrightarrow> is_root (parent[b := a]) v v" using root_here by (intro is_root.root_here) simp
  ultimately show ?case by simp
next
  case (root_up v r)
  have "v \<noteq> b" using root_up.hyps(1) assms(2) by auto
  then have "parent[b := a] ! v = parent ! v" by simp
  then show ?case using root_up.hyps(1) root_up.IH by (simp add: is_root.root_up)
qed

lemma link_facts:
  assumes forest: "forest parent rank" and a: "parent ! a = a" "a < length parent"
    and b: "parent ! b = b" "b < length parent" "a \<noteq> b" and rank: "rank ! b \<le> rank ! a"
  defines "parent' \<equiv> parent[b := a]"
    and "rank' \<equiv> (if rank ! a = rank ! b then rank[a := rank ! a + 1] else rank)"
  shows "forest parent' rank'"
    and "v < length parent \<Longrightarrow> is_root parent' v x \<longleftrightarrow>
      is_root parent v x \<and> x \<noteq> b \<or> is_root parent v b \<and> x = a"
    and "ranked parent rank \<Longrightarrow> ranked parent' rank'"
proof -
  have len: "length rank = length parent" using forest by (simp add: forest_def)
  have keep: "rank' ! v = rank ! v" if "v \<noteq> a" for v using that by (simp add: rank'_def)
  have more: "rank ! v \<le> rank' ! v" for v by (cases "v = a") (simp_all add: rank'_def a(2) len)
  have higher: "rank' ! b < rank' ! a" using rank keep [of b] b(3) a(2) by (auto simp: rank'_def len)
  show forest': "forest parent' rank'"
    unfolding forest_def
  proof (intro conjI allI impI)
    show "length rank' = length parent'" by (simp add: rank'_def parent'_def len)
    fix v assume "v < length parent'"
    then have v: "v < length parent" by (simp add: parent'_def)
    show "parent' ! v < length parent'"
      using forest_up(1) [OF forest v] a(2) b(2) by (cases "v = b") (simp_all add: parent'_def)
    assume moved: "parent' ! v \<noteq> v"
    show "rank' ! v < rank' ! (parent' ! v)"
    proof (cases "v = b")
      case True
      then show ?thesis using higher b(2) by (simp add: parent'_def)
    next
      case False
      then have up: "parent' ! v = parent ! v" "parent ! v \<noteq> v" using moved by (simp_all add: parent'_def)
      then have "v \<noteq> a" using a(1) by auto
      then show ?thesis
        using forest_up(3) [OF forest v up(2)] keep [of v] more [of "parent ! v"] up(1) by simp
    qed
  qed
  have roots: "is_root parent' v x \<longleftrightarrow> is_root parent v x \<and> x \<noteq> b \<or> is_root parent v b \<and> x = a"
    if v: "v < length parent" for v x
  proof -
    obtain r where r: "is_root parent v r" using is_root_exists [OF forest v] by blast
    have r': "is_root parent' v (if r = b then a else r)"
      unfolding parent'_def by (rule link_root_forward [OF a(1) b(1,3,2) r])
    have old: "is_root parent v y \<longleftrightarrow> y = r" for y using is_root_unique [OF r] r by blast
    have new: "is_root parent' v y \<longleftrightarrow> y = (if r = b then a else r)" for y
      using is_root_unique [OF r'] r' by blast
    show ?thesis unfolding old new by auto
  qed
  then show "v < length parent \<Longrightarrow> is_root parent' v x \<longleftrightarrow>
      is_root parent v x \<and> x \<noteq> b \<or> is_root parent v b \<and> x = a" .
  show "ranked parent' rank'" if ranked: "ranked parent rank"
    unfolding ranked_def
  proof (intro allI impI)
    fix r assume r: "r < length parent'" "parent' ! r = r"
    then have old: "parent ! r = r" "r \<noteq> b" "r < length parent"
      using b(3) b(2) by (auto simp: parent'_def nth_list_update split: if_splits)
    have low: "2 ^ (rank ! r) \<le> card (class_of parent r)" "2 ^ (rank ! b) \<le> card (class_of parent b)"
      using ranked old b(1,2) by (auto simp: ranked_def)
    have sub: "class_of parent r \<subseteq> class_of parent' r"
      using roots old(2) by (auto simp: class_of_def parent'_def)
    show "2 ^ (rank' ! r) \<le> card (class_of parent' r)"
    proof (cases "r = a \<and> rank ! a = rank ! b")
      case False
      then have "rank' ! r = rank ! r" by (auto simp: rank'_def nth_list_update len)
      then show ?thesis using low(1) card_mono [OF finite_class sub] by simp
    next
      case True
      have "class_of parent' a = class_of parent a \<union> class_of parent b"
        using roots b(3) is_root_unique by (auto simp: class_of_def parent'_def)
      moreover have "class_of parent a \<inter> class_of parent b = {}"
        using b(3) is_root_unique by (auto simp: class_of_def)
      ultimately have "card (class_of parent' a) = card (class_of parent a) + card (class_of parent b)"
        by (simp add: card_Un_disjoint)
      moreover have "rank' ! a = rank ! a + 1" using True a(2) by (simp add: rank'_def len)
      ultimately show ?thesis using low True by simp
    qed
  qed
qed

lemma same_root_transfer:
  assumes "\<And>w x. w < n \<Longrightarrow> is_root parent' w x \<longleftrightarrow> is_root parent w x" "v < n" "w < n"
  shows "same_root parent' v w \<longleftrightarrow> same_root parent v w"
  using assms by (simp add: same_root_def)

lemma ranked_transfer:
  assumes "\<And>w x. w < length parent \<Longrightarrow> is_root parent' w x \<longleftrightarrow> is_root parent w x"
    "length parent' = length parent" "ranked parent rank"
  shows "ranked parent' rank"
proof -
  have "class_of parent' r = class_of parent r" for r using assms(1,2) by (auto simp: class_of_def)
  moreover have "parent' ! r = r \<longleftrightarrow> parent ! r = r" if "r < length parent" for r
    using assms(1) [OF that, of r] by (simp add: is_root_self)
  ultimately show ?thesis using assms(2,3) by (simp add: ranked_def)
qed

lemma dsu_unite_joins:
  assumes "forest parent rank" "ranked parent rank" "a < length parent" "b < length parent"
  obtains parent' rank' where "dsu_unite a b (parent, rank) = Some (parent', rank')"
    "forest parent' rank'" "ranked parent' rank'" "length parent' = length parent"
    "\<And>v w. v < length parent \<Longrightarrow> w < length parent \<Longrightarrow> same_root parent' v w \<longleftrightarrow>
       same_root parent v w \<or> same_root parent v a \<and> same_root parent w b
         \<or> same_root parent v b \<and> same_root parent w a"
proof -
  obtain p1 ra where p1: "dsu_root parent a = Some (p1, ra)" "is_root parent a ra" "ra < length parent"
    "forest p1 rank" "length p1 = length parent"
    "\<And>w x. w < length parent \<Longrightarrow> is_root p1 w x \<longleftrightarrow> is_root parent w x"
    by (rule dsu_root_finds [OF assms(1,3)]) blast
  have b1: "b < length p1" using assms(4) p1(5) by simp
  obtain p2 rb where p2: "dsu_root p1 b = Some (p2, rb)" "is_root p1 b rb" "rb < length p1"
    "forest p2 rank" "length p2 = length p1"
    "\<And>w x. w < length p1 \<Longrightarrow> is_root p2 w x \<longleftrightarrow> is_root p1 w x"
    by (rule dsu_root_finds [OF p1(4) b1]) blast
  have len: "length p2 = length parent" using p1(5) p2(5) by simp
  have roots: "is_root p2 w x \<longleftrightarrow> is_root parent w x" if "w < length parent" for w x
    using p1(5,6) p2(6) that by simp
  have ranked2: "ranked p2 rank" by (rule ranked_transfer [OF roots len assms(2)])
  have ab: "is_root p2 a ra" "is_root p2 b rb" using p1(2) p2(2) p1(5,6) p2(6) assms(3,4) by simp_all
  note fixed = is_root_fixed [OF ab(1)] is_root_fixed [OF ab(2)]
  show thesis
  proof (cases "ra = rb")
    case True
    have "dsu_unite a b (parent, rank) = Some (p2, rank)" using p1(1) p2(1) True by (simp add: dsu_unite_def)
    moreover have "same_root p2 v w \<longleftrightarrow> same_root parent v w \<or> same_root parent v a \<and> same_root parent w b
        \<or> same_root parent v b \<and> same_root parent w a" if "v < length parent" "w < length parent" for v w
      using same_root_transfer [of "length parent" p2 parent, OF roots that] ab True roots assms(3,4) is_root_unique
      unfolding same_root_def by metis
    ultimately show thesis using that p2(4) ranked2 len by blast
  next
    case False
    define hi where "hi = (if rank ! ra < rank ! rb then rb else ra)"
    define lo where "lo = (if rank ! ra < rank ! rb then ra else rb)"
    have pair: "(if rank ! ra < rank ! rb then (rb, ra) else (ra, rb)) = (hi, lo)" by (simp add: hi_def lo_def)
    have link: "p2 ! hi = hi" "hi < length p2" "p2 ! lo = lo" "lo < length p2" "hi \<noteq> lo" "rank ! lo \<le> rank ! hi"
      using fixed p1(3) p2(3) len p1(5) False by (auto simp: hi_def lo_def)
    let ?p = "p2[lo := hi]" and ?r = "if rank ! hi = rank ! lo then rank[hi := rank ! hi + 1] else rank"
    note facts = link_facts [OF p2(4) link]
    have run: "dsu_unite a b (parent, rank) = Some (?p, ?r)"
      using p1(1) p2(1) False by (simp add: dsu_unite_def pair Let_def)
    have joined: "same_root ?p v w \<longleftrightarrow> same_root parent v w \<or> same_root parent v a \<and> same_root parent w b
        \<or> same_root parent v b \<and> same_root parent w a" if vw: "v < length parent" "w < length parent" for v w
    proof -
      obtain rv rw where r: "is_root p2 v rv" "is_root p2 w rw"
        using is_root_exists [OF p2(4), of v] is_root_exists [OF p2(4), of w] vw len by auto
      have new: "same_root ?p v w \<longleftrightarrow> (if rv = lo then hi else rv) = (if rw = lo then hi else rw)"
        using facts(2) [of v] facts(2) [of w] vw len r is_root_unique unfolding same_root_def by metis
      have old: "same_root parent v w \<longleftrightarrow> rv = rw" "same_root parent v a \<longleftrightarrow> rv = ra"
        "same_root parent w b \<longleftrightarrow> rw = rb" "same_root parent v b \<longleftrightarrow> rv = rb" "same_root parent w a \<longleftrightarrow> rw = ra"
        using r ab roots vw assms(3,4) is_root_unique unfolding same_root_def by metis+
      show ?thesis unfolding new old using link(5) by (auto simp: hi_def lo_def)
    qed
    show thesis using that [OF run facts(1) facts(3) [OF ranked2] _ joined] len by simp
  qed
qed

section \<open>Connected nodes\<close>

definition linked :: "('a \<times> 'a) set \<Rightarrow> ('a \<times> 'a) set" where
  "linked E = (E \<union> E\<inverse>)\<^sup>*"

lemma linked_refl [simp]: "(v, v) \<in> linked E"
  by (simp add: linked_def)

lemma linked_trans: "(u, v) \<in> linked E \<Longrightarrow> (v, w) \<in> linked E \<Longrightarrow> (u, w) \<in> linked E"
  unfolding linked_def by (rule rtrancl_trans)

lemma linked_sym: "(v, w) \<in> linked E \<Longrightarrow> (w, v) \<in> linked E"
  unfolding linked_def by (metis converse_Un converse_converse rtrancl_converseI sup_commute)

lemma linked_mono: "E \<subseteq> F \<Longrightarrow> linked E \<subseteq> linked F"
  unfolding linked_def by (intro rtrancl_mono) blast

lemma linked_edge: "(v, w) \<in> E \<Longrightarrow> (v, w) \<in> linked E"
  unfolding linked_def by blast

lemma linked_insert:
  "(v, w) \<in> linked (insert (a, b) E) \<longleftrightarrow> (v, w) \<in> linked E
     \<or> (v, a) \<in> linked E \<and> (b, w) \<in> linked E \<or> (v, b) \<in> linked E \<and> (a, w) \<in> linked E" (is "?new \<longleftrightarrow> ?old w")
proof
  assume ?new
  then show "?old w"
    unfolding linked_def [of "insert (a, b) E"]
  proof (induction rule: rtrancl_induct)
    case base
    show ?case by simp
  next
    case (step x y)
    from step.hyps(2) consider "(x, y) \<in> linked E" | "x = a" "y = b" | "x = b" "y = a"
      unfolding linked_def by blast
    then show ?case
    proof cases
      case 1
      then show ?thesis using step.IH linked_trans [of _ x E y] by blast
    next
      case 2
      then show ?thesis using step.IH linked_sym by (metis linked_refl linked_trans)
    next
      case 3
      then show ?thesis using step.IH linked_sym by (metis linked_refl linked_trans)
    qed
  qed
next
  assume "?old w"
  moreover have "(a, b) \<in> linked (insert (a, b) E)" by (rule linked_edge) simp
  ultimately show ?new
    using linked_mono [of E "insert (a, b) E"] by (meson linked_sym linked_trans subsetD subset_insertI)
qed

lemma unite_all_connects:
  assumes "forest parent rank" "ranked parent rank"
    and "\<forall>(a, b) \<in> set edges. a < length parent \<and> b < length parent"
    and "\<And>v w. v < length parent \<Longrightarrow> w < length parent \<Longrightarrow> same_root parent v w \<longleftrightarrow> (v, w) \<in> linked E"
  obtains parent' rank' where "dsu_unite_all edges (parent, rank) = Some (parent', rank')"
    "forest parent' rank'" "ranked parent' rank'" "length parent' = length parent"
    "\<And>v w. v < length parent \<Longrightarrow> w < length parent \<Longrightarrow>
       same_root parent' v w \<longleftrightarrow> (v, w) \<in> linked (E \<union> set edges)"
  using assms
proof (induction edges arbitrary: parent rank E thesis)
  case Nil
  show ?case by (rule Nil.prems(1) [of parent rank]) (use Nil.prems in simp_all)
next
  case (Cons edge edges)
  obtain a b where edge: "edge = (a, b)" by (cases edge)
  have ab: "a < length parent" "b < length parent" using Cons.prems(4) edge by auto
  obtain p r where d: "dsu_unite a b (parent, rank) = Some (p, r)" "forest p r" "ranked p r"
    "length p = length parent"
    "\<And>v w. v < length parent \<Longrightarrow> w < length parent \<Longrightarrow> same_root p v w \<longleftrightarrow>
       same_root parent v w \<or> same_root parent v a \<and> same_root parent w b
         \<or> same_root parent v b \<and> same_root parent w a"
    by (rule dsu_unite_joins [OF Cons.prems(2,3) ab]) blast
  have "same_root p v w \<longleftrightarrow> (v, w) \<in> linked (insert (a, b) E)" if "v < length p" "w < length p" for v w
    using d(4,5) that Cons.prems(5) ab linked_sym unfolding linked_insert by metis
  moreover have "\<forall>(a, b) \<in> set edges. a < length p \<and> b < length p" using Cons.prems(4) d(4) by auto
  ultimately obtain p' r' where f: "dsu_unite_all edges (p, r) = Some (p', r')"
    "forest p' r'" "ranked p' r'" "length p' = length p"
    "\<And>v w. v < length p \<Longrightarrow> w < length p \<Longrightarrow>
       same_root p' v w \<longleftrightarrow> (v, w) \<in> linked (insert (a, b) E \<union> set edges)"
    using Cons.IH [OF _ d(2,3), of "insert (a, b) E"] by blast
  show ?case
    by (rule Cons.prems(1) [of p' r']) (use d(1,4) f edge in simp_all)
qed

lemma forest_create: "forest [0..<n] (replicate n 0)"
  by (simp add: forest_def)

lemma create_root: "v < n \<Longrightarrow> is_root [0..<n] v x \<longleftrightarrow> x = v"
  using is_root_unique [of "[0..<n]" v] root_here [of "[0..<n]" v] by auto

lemma ranked_create: "ranked [0..<n] (replicate n 0)"
  unfolding ranked_def
proof (intro allI impI)
  fix r assume "r < length [0..<n]" "[0..<n] ! r = r"
  then have "class_of [0..<n] r = {r}" by (auto simp: class_of_def create_root)
  then show "2 ^ (replicate n 0 ! r) \<le> card (class_of [0..<n] r)"
    using \<open>r < length [0..<n]\<close> by simp
qed

text \<open>The forest of the edges.\<close>

lemma dsu_connects:
  assumes "\<forall>(a, b) \<in> set edges. a < n \<and> b < n"
  obtains parent rank where "dsu_unite_all edges (dsu_create n) = Some (parent, rank)"
    "forest parent rank" "ranked parent rank" "length parent = n"
    "\<And>v w. v < n \<Longrightarrow> w < n \<Longrightarrow> same_root parent v w \<longleftrightarrow> (v, w) \<in> linked (set edges)"
proof -
  have start: "same_root [0..<n] v w \<longleftrightarrow> (v, w) \<in> linked {}" if "v < n" "w < n" for v w
    using that by (auto simp: same_root_def create_root linked_def)
  have inside: "\<forall>(a, b) \<in> set edges. a < length [0..<n] \<and> b < length [0..<n]" using assms by simp
  show thesis
    by (rule unite_all_connects [OF forest_create ranked_create inside, of "{}"])
      (use start that in \<open>simp_all add: dsu_create_def\<close>)
qed

lemma dsu_roots_found:
  assumes "forest parent rank" "\<forall>v \<in> set vs. v < length parent"
  shows "\<exists>rs. dsu_roots parent vs = Some rs \<and> length rs = length vs
    \<and> (\<forall>i < length vs. is_root parent (vs ! i) (rs ! i))"
  using assms
proof (induction vs arbitrary: parent)
  case (Cons v vs)
  have v: "v < length parent" using Cons.prems(2) by simp
  obtain p r where p: "dsu_root parent v = Some (p, r)" "is_root parent v r" "r < length parent"
    "forest p rank" "length p = length parent"
    "\<And>w x. w < length parent \<Longrightarrow> is_root p w x \<longleftrightarrow> is_root parent w x"
    by (rule dsu_root_finds [OF Cons.prems(1) v]) blast
  have "\<forall>v \<in> set vs. v < length p" using Cons.prems(2) p(5) by simp
  from Cons.IH [OF p(4) this] obtain rs where rs: "dsu_roots p vs = Some rs" "length rs = length vs"
    "\<forall>i < length vs. is_root p (vs ! i) (rs ! i)" by blast
  have "is_root parent ((v # vs) ! i) ((r # rs) ! i)" if "i < length (v # vs)" for i
    using that rs(3) p(2,6) Cons.prems(2) by (cases i) auto
  then show ?case using p(1) rs(1,2) by simp
qed simp

lemma rank_small:
  assumes "forest parent rank" "ranked parent rank" "length parent \<le> TRACK_INDEX_MAX" "v < length parent"
  shows "rank ! v < 32"
proof -
  obtain r where r: "is_root parent v r" "r < length parent" "rank ! v \<le> rank ! r"
    using is_root_exists [OF assms(1,4)] by blast
  have "2 ^ (rank ! r) \<le> card (class_of parent r)"
    using assms(2) r(2) is_root_fixed [OF r(1)] by (simp add: ranked_def)
  also have "\<dots> \<le> card {..<length parent}" by (intro card_mono) (auto simp: class_of_def)
  also have "\<dots> < 2 ^ 32" using assms(3) by (simp add: TRACK_INDEX_MAX_def)
  finally have "(2 :: nat) ^ (rank ! r) < 2 ^ 32" .
  then have "rank ! r < 32" by (rule power_less_imp_less_exp [rotated]) simp
  then show ?thesis using r(3) by simp
qed

end
