(* ===== verification/Track_Components.thy ===== *)
theory Track_Components
  imports Track_Dsu
begin

text \<open>
  The tracks a graph gives: its consistent connected components, each in the order of its keys,
  in the order of their first keys. Node indices, roots and the order of the edges leave no trace.
\<close>

section \<open>The reference\<close>

type_synonym feature_key = "u64 \<times> u32"

definition components :: "(feature_key \<times> feature_key) set \<Rightarrow> feature_key set set" where
  "components E = (\<lambda>k. linked E `` {k}) ` Field E"

definition consistent :: "(feature_key \<Rightarrow> feature_metadata) \<Rightarrow> feature_key set \<Rightarrow> bool" where
  "consistent M C \<longleftrightarrow> 2 \<le> card C \<and> (\<forall>k \<in> C. \<forall>l \<in> C. meta_equal (M k) (M l) False)
     \<and> inj_on (\<lambda>k. fm_image_id (M k)) C"

definition track_keys :: "(feature_key \<Rightarrow> feature_metadata) \<Rightarrow> (feature_key \<times> feature_key) set \<Rightarrow> feature_key list list" where
  "track_keys M E = sorted_list_of_set (sorted_list_of_set ` {C \<in> components E. consistent M C})"

definition expected_tracks ::
    "(feature_key \<Rightarrow> feature_metadata) \<Rightarrow> (feature_key \<times> feature_key) set \<Rightarrow> track_observation list list" where
  "expected_tracks M E = map (map (\<lambda>k. \<lparr>tob_feature_set_id = fst k, tob_feature_index = snd k,
     tob_image_id = fm_image_id (M k)\<rparr>)) (track_keys M E)"

section \<open>Runs\<close>

lemma takeWhile_filter_sorted:
  "sorted (map f (x # xs)) \<Longrightarrow> takeWhile (\<lambda>y. f y = f x) xs = filter (\<lambda>y. f y = f x) xs
     \<and> dropWhile (\<lambda>y. f y = f x) xs = filter (\<lambda>y. f y \<noteq> f x) xs"
proof (induction xs)
  case (Cons y ys)
  show ?case
  proof (cases "f y = f x")
    case True
    then show ?thesis using Cons by simp
  next
    case False
    then have "\<forall>z \<in> set ys. f z \<noteq> f x" using Cons.prems by (force simp: order.strict_iff_order)
    then show ?thesis using False by (auto simp: filter_empty_conv filter_id_conv)
  qed
qed simp

text \<open>The runs are the classes, each in the order of the list.\<close>

lemma root_runs_classes:
  "sorted (map f xs) \<Longrightarrow> set (root_runs f xs) = (\<lambda>x. filter (\<lambda>y. f y = f x) xs) ` set xs
     \<and> (distinct xs \<longrightarrow> distinct (root_runs f xs))"
proof (induction f xs rule: root_runs.induct)
  case (2 f x xs)
  let ?others = "filter (\<lambda>y. f y \<noteq> f x) xs"
  note split = takeWhile_filter_sorted [OF "2.prems"]
  have sorted: "sorted (map f ?others)" using "2.prems" by (simp add: sorted_filter)
  from "2.IH" split sorted have rest: "set (root_runs f ?others) = (\<lambda>z. filter (\<lambda>y. f y = f z) ?others) ` set ?others"
    "distinct ?others \<longrightarrow> distinct (root_runs f ?others)" by simp_all
  have run: "root_runs f (x # xs) = filter (\<lambda>y. f y = f x) (x # xs) # root_runs f ?others"
    using split by simp
  have same: "filter (\<lambda>y. f y = f z) ?others = filter (\<lambda>y. f y = f z) (x # xs)" if "f z \<noteq> f x" for z
    using that by (auto intro: filter_cong)
  have "set (root_runs f (x # xs)) = (\<lambda>z. filter (\<lambda>y. f y = f z) (x # xs)) ` set (x # xs)"
  proof -
    have "(\<lambda>z. filter (\<lambda>y. f y = f z) ?others) ` set ?others = (\<lambda>z. filter (\<lambda>y. f y = f z) (x # xs)) ` set ?others"
      by (intro image_cong refl same) simp
    moreover have "(\<lambda>z. filter (\<lambda>y. f y = f z) (x # xs)) ` set (x # xs)
        = insert (filter (\<lambda>y. f y = f x) (x # xs)) ((\<lambda>z. filter (\<lambda>y. f y = f z) (x # xs)) ` set ?others)"
      by (auto simp: image_iff)
    ultimately show ?thesis unfolding run by (simp add: rest(1))
  qed
  moreover have "filter (\<lambda>y. f y = f x) (x # xs) \<notin> set (root_runs f ?others)"
  proof
    assume "filter (\<lambda>y. f y = f x) (x # xs) \<in> set (root_runs f ?others)"
    then obtain z where z: "filter (\<lambda>y. f y = f x) (x # xs) = filter (\<lambda>y. f y = f z) ?others"
      unfolding rest(1) by blast
    have "x \<in> set (filter (\<lambda>y. f y = f x) (x # xs))" by simp
    then have "x \<in> set (filter (\<lambda>y. f y = f z) ?others)" by (simp only: z)
    then show False by simp
  qed
  then have "distinct (x # xs) \<longrightarrow> distinct (root_runs f (x # xs))" unfolding run using rest(2) by simp
  ultimately show ?case by blast
qed simp

lemma adjacent_duplicate_sorted: "sorted xs \<Longrightarrow> adjacent_duplicate xs \<longleftrightarrow> \<not> distinct xs"
  by (induction xs rule: adjacent_duplicate.induct) (auto dest: order.antisym)

lemma insort_key_map: "map f (insort_key f x xs) = insort (f x) (map f xs)"
  by (induction xs) simp_all

lemma sort_key_map: "map f (sort_key f xs) = sort (map f xs)"
  by (induction xs) (simp_all add: insort_key_map)

lemma sort_distinct: "distinct xs \<Longrightarrow> sort xs = sorted_list_of_set (set xs)"
  by (rule sorted_distinct_set_unique) simp_all

lemma track_ranges_slices:
  "map (\<lambda>(begin, count). map h (take count (drop begin (pre @ concat groups)))) (track_ranges (length pre) groups)
     = map (map h) groups"
proof (induction groups arbitrary: pre)
  case (Cons members groups)
  from Cons.IH [of "pre @ members"] show ?case by simp
qed simp

section \<open>Keys and indices\<close>

definition key_edges :: "track_graph \<Rightarrow> (feature_key \<times> feature_key) set" where
  "key_edges g = (\<lambda>(a, b). (node_key g a, node_key g b)) ` set (tg_edges g)"

definition edges_inside :: "track_graph \<Rightarrow> bool" where
  "edges_inside g \<longleftrightarrow> (\<forall>(a, b) \<in> set (tg_edges g). a < length (tg_nodes g) \<and> b < length (tg_nodes g))"

lemma linked_image:
  assumes "(a, b) \<in> linked E"
  shows "(f a, f b) \<in> linked ((\<lambda>(a, b). (f a, f b)) ` E)"
  using assms unfolding linked_def [of E]
proof (induction rule: rtrancl_induct)
  case (step y z)
  then have "(f y, f z) \<in> linked ((\<lambda>(a, b). (f a, f b)) ` E)"
    unfolding linked_def by (intro r_into_rtrancl) force
  with step.IH show ?case by (rule linked_trans)
qed simp

lemma linked_preimage:
  assumes "(k, l) \<in> linked ((\<lambda>(a, b). (f a, f b)) ` E)" "k = f a" "a \<in> V" "E \<subseteq> V \<times> V" "inj_on f V"
  shows "\<exists>b \<in> V. l = f b \<and> (a, b) \<in> linked E"
  using assms(1) unfolding linked_def [of "(\<lambda>(a, b). (f a, f b)) ` E"]
proof (induction rule: rtrancl_induct)
  case base
  then show ?case using assms(2,3) by auto
next
  case (step l m)
  then obtain b where b: "b \<in> V" "l = f b" "(a, b) \<in> linked E" by blast
  from step.hyps(2) obtain x y where xy: "(x, y) \<in> E" "l = f x \<and> m = f y \<or> l = f y \<and> m = f x" by auto
  have inside: "x \<in> V" "y \<in> V" using xy(1) assms(4) by auto
  have edge: "(x, y) \<in> linked E" "(y, x) \<in> linked E"
    using xy(1) by (auto intro: linked_edge linked_sym)
  from xy(2) show ?case
  proof
    assume "l = f x \<and> m = f y"
    then have "b = x" using b(1,2) inside assms(5) by (auto dest: inj_onD)
    then show ?case using \<open>l = f x \<and> m = f y\<close> inside b(3) edge(1) linked_trans by metis
  next
    assume "l = f y \<and> m = f x"
    then have "b = y" using b(1,2) inside assms(5) by (auto dest: inj_onD)
    then show ?case using \<open>l = f y \<and> m = f x\<close> inside b(3) edge(2) linked_trans by metis
  qed
qed

lemma node_key_inj:
  assumes "distinct (map (node_key g) [0..<length (tg_nodes g)])"
  shows "inj_on (node_key g) {..<length (tg_nodes g)}"
  using assms by (simp add: distinct_map atLeast0LessThan)

text \<open>The keys of the class of a node are the component of its key.\<close>

lemma class_keys:
  assumes inj: "inj_on (node_key g) {..<n}" and n: "n = length (tg_nodes g)" and inside: "edges_inside g"
    and i: "i < n" and rt: "\<And>v w. v < n \<Longrightarrow> w < n \<Longrightarrow> rt v = rt w \<longleftrightarrow> (v, w) \<in> linked (set (tg_edges g))"
  shows "node_key g ` {j. j < n \<and> rt j = rt i} = linked (key_edges g) `` {node_key g i}"
proof -
  have E: "set (tg_edges g) \<subseteq> {..<n} \<times> {..<n}" using inside by (auto simp: edges_inside_def n)
  show ?thesis
  proof (intro set_eqI iffI)
    fix k assume "k \<in> node_key g ` {j. j < n \<and> rt j = rt i}"
    then obtain j where "j < n" "rt j = rt i" "k = node_key g j" by blast
    then show "k \<in> linked (key_edges g) `` {node_key g i}"
      using rt [OF i, of j] i linked_image [of i j "set (tg_edges g)" "node_key g"] by (simp add: key_edges_def)
  next
    fix k assume "k \<in> linked (key_edges g) `` {node_key g i}"
    then have "(node_key g i, k) \<in> linked ((\<lambda>(a, b). (node_key g a, node_key g b)) ` set (tg_edges g))"
      by (simp add: key_edges_def)
    from linked_preimage [OF this refl _ E inj] i obtain j where
      "j < n" "k = node_key g j" "(i, j) \<in> linked (set (tg_edges g))" by auto
    then show "k \<in> node_key g ` {j. j < n \<and> rt j = rt i}" using rt [OF i, of j] i by auto
  qed
qed

section \<open>Groups\<close>

lemma meta_equal_compatible: "meta_equal a b False \<Longrightarrow> meta_equal a c False \<Longrightarrow> meta_equal b c False"
  by (simp add: meta_equal_def)

lemma group_valid_consistent:
  assumes "distinct (map (node_key g) members)"
    and "\<And>i. i \<in> set members \<Longrightarrow> node_metadata g i = M (node_key g i)"
  shows "group_valid g members \<longleftrightarrow> consistent M (node_key g ` set members)"
proof -
  let ?C = "node_key g ` set members"
  have card: "card ?C = length members"
    using assms(1) by (metis distinct_card length_map set_map)
  have image: "node_image g i = fm_image_id (M (node_key g i))" if "i \<in> set members" for i
    using assms(2) [OF that] by (simp add: node_image_def node_metadata_def)
  have "distinct (map (node_image g) members) \<longleftrightarrow> inj_on (\<lambda>k. fm_image_id (M k)) ?C"
  proof -
    have "map (node_image g) members = map (\<lambda>k. fm_image_id (M k)) (map (node_key g) members)"
      using image by simp
    then show ?thesis
      using distinct_map [of "\<lambda>k. fm_image_id (M k)" "map (node_key g) members"] assms(1) by (simp only: set_map simp_thms)
  qed
  then have images: "\<not> adjacent_duplicate (sort (map (node_image g) members)) \<longleftrightarrow> inj_on (\<lambda>k. fm_image_id (M k)) ?C"
    by (simp add: adjacent_duplicate_sorted)
  have metas: "(\<forall>i \<in> set members. meta_equal (node_metadata g (hd members)) (node_metadata g i) False)
      \<longleftrightarrow> (\<forall>k \<in> ?C. \<forall>l \<in> ?C. meta_equal (M k) (M l) False)" if "members \<noteq> []"
  proof -
    have hd: "hd members \<in> set members" by (rule hd_in_set [OF that])
    have "(\<forall>i \<in> set members. meta_equal (node_metadata g (hd members)) (node_metadata g i) False)
      \<longleftrightarrow> (\<forall>i \<in> set members. meta_equal (M (node_key g (hd members))) (M (node_key g i)) False)"
      using assms(2) hd by simp
    also have "\<dots> \<longleftrightarrow> (\<forall>k \<in> ?C. \<forall>l \<in> ?C. meta_equal (M k) (M l) False)"
      using hd meta_equal_compatible by blast
    finally show ?thesis .
  qed
  show ?thesis
    unfolding group_valid_def consistent_def card images using metas by (cases "members = []") auto
qed

section \<open>The build\<close>

lemma sorted_lexord_fst: "sorted (map (\<lambda>i. (f i, h i)) xs) \<Longrightarrow> sorted (map f xs)"
  by (induction xs) (auto simp: less_eq_prod_def)

lemma sorted_lexord_snd:
  "sorted (map (\<lambda>i. (f i, h i)) xs) \<Longrightarrow> \<forall>i \<in> set xs. f i = c \<Longrightarrow> sorted (map h xs)"
  by (induction xs) (auto simp: less_eq_prod_def)

text \<open>The members of a group, in the order of their keys.\<close>

lemma group_keys:
  assumes "sorted (map (\<lambda>i. (rt i, node_key g i)) grouped)" "distinct (map (node_key g) grouped)"
  shows "map (node_key g) (filter (\<lambda>j. rt j = r) grouped)
      = sorted_list_of_set (node_key g ` {j \<in> set grouped. rt j = r})"
    and "distinct (map (node_key g) (filter (\<lambda>j. rt j = r) grouped))"
proof -
  let ?members = "filter (\<lambda>j. rt j = r) grouped"
  show dist: "distinct (map (node_key g) ?members)" using assms(2) by (simp add: distinct_map_filter)
  have "sorted (map (\<lambda>i. (rt i, node_key g i)) ?members)" using assms(1) by (rule sorted_filter)
  then have "sorted (map (node_key g) ?members)" by (rule sorted_lexord_snd [where c = r]) simp
  moreover have "set (map (node_key g) ?members) = node_key g ` {j \<in> set grouped. rt j = r}" by auto
  ultimately show "map (node_key g) ?members = sorted_list_of_set (node_key g ` {j \<in> set grouped. rt j = r})"
    using dist by (intro sorted_distinct_set_unique) simp_all
qed

text \<open>The accepted groups by their keys: the reference.\<close>

lemma accepted_keys:
  assumes keys: "distinct (map (node_key g) [0..<n])" and n: "n = length (tg_nodes g)" and inside: "edges_inside g"
    and field: "node_key g ` {..<n} = Field (key_edges g)"
    and meta: "\<And>i. i < n \<Longrightarrow> node_metadata g i = M (node_key g i)"
    and rt: "\<And>v w. v < n \<Longrightarrow> w < n \<Longrightarrow> rt v = rt w \<longleftrightarrow> (v, w) \<in> linked (set (tg_edges g))"
    and grouped: "grouped = sort_key (\<lambda>i. (rt i, node_key g i)) [0..<n]"
    and accepted: "accepted = sort_key (map (node_key g)) (filter (group_valid g) (root_runs rt grouped))"
  shows "map (map (node_key g)) accepted = track_keys M (key_edges g)"
    and "\<forall>members \<in> set accepted. \<forall>i \<in> set members. i < n"
proof -
  have set_grouped: "set grouped = {..<n}" by (auto simp: grouped)
  have sorted: "sorted (map (\<lambda>i. (rt i, node_key g i)) grouped)" by (simp add: grouped)
  have dist: "distinct (map (node_key g) grouped)" "distinct grouped"
    using keys set_grouped by (simp_all add: grouped distinct_map atLeast0LessThan)
  have inj: "inj_on (node_key g) {..<n}" using keys by (simp add: distinct_map atLeast0LessThan)
  let ?cls = "\<lambda>i. filter (\<lambda>j. rt j = rt i) grouped" and ?comp = "\<lambda>i. linked (key_edges g) `` {node_key g i}"
  have runs: "set (root_runs rt grouped) = ?cls ` {..<n}" "distinct (root_runs rt grouped)"
    using root_runs_classes [OF sorted_lexord_fst [OF sorted]] dist(2) by (auto simp: set_grouped)
  have members: "\<forall>xs \<in> set (root_runs rt grouped). set xs \<subseteq> {..<n}"
    unfolding runs(1) set_grouped [symmetric] by auto
  have cls: "node_key g ` set (?cls i) = ?comp i" if "i < n" for i
  proof -
    have "set (?cls i) = {j. j < n \<and> rt j = rt i}" using set_grouped by auto
    then show ?thesis using class_keys [OF inj n inside that rt] by simp
  qed
  have map_cls: "map (node_key g) (?cls i) = sorted_list_of_set (?comp i)" if "i < n" for i
    using group_keys(1) [OF sorted dist(1), of "rt i"] cls [OF that] by simp
  have valid: "group_valid g (?cls i) \<longleftrightarrow> consistent M (?comp i)" if "i < n" for i
    using group_valid_consistent [where M = M and members = "?cls i", OF group_keys(2) [OF sorted dist(1)]]
      meta cls [OF that] set_grouped by simp
  have comps: "components (key_edges g) = ?comp ` {..<n}"
    unfolding components_def field [symmetric] by (simp add: image_image)
  have "set (map (map (node_key g)) (filter (group_valid g) (root_runs rt grouped)))
      = sorted_list_of_set ` {C \<in> components (key_edges g). consistent M C}"
  proof -
    let ?I = "{i. i < n \<and> consistent M (?comp i)}"
    have "set (filter (group_valid g) (root_runs rt grouped)) = ?cls ` ?I"
      unfolding set_filter runs(1) using valid by (auto intro!: imageI)
    moreover have "{C \<in> components (key_edges g). consistent M C} = ?comp ` ?I"
      unfolding comps by auto
    moreover have "(\<lambda>i. map (node_key g) (?cls i)) ` ?I = (\<lambda>i. sorted_list_of_set (?comp i)) ` ?I"
      by (intro image_cong refl map_cls) simp
    ultimately show ?thesis by (simp only: set_map image_image)
  qed
  moreover have "distinct (map (map (node_key g)) (filter (group_valid g) (root_runs rt grouped)))"
    unfolding distinct_map
  proof (intro conjI inj_onI)
    show "distinct (filter (group_valid g) (root_runs rt grouped))" using runs(2) by simp
    fix xs ys
    assume xs: "xs \<in> set (filter (group_valid g) (root_runs rt grouped))"
      and ys: "ys \<in> set (filter (group_valid g) (root_runs rt grouped))"
      and eq: "map (node_key g) xs = map (node_key g) ys"
    have "set xs \<union> set ys \<subseteq> {..<n}" using xs ys members by simp
    then show "xs = ys" by (intro map_inj_on [OF eq inj_on_subset [OF inj]])
  qed
  ultimately show "map (map (node_key g)) accepted = track_keys M (key_edges g)"
    unfolding accepted sort_key_map track_keys_def by (simp only: sort_distinct)
  show "\<forall>members \<in> set accepted. \<forall>i \<in> set members. i < n"
    using members by (auto simp: accepted)
qed

lemma graph_build_tracks:
  assumes keys: "distinct (map (node_key g) [0..<length (tg_nodes g)])" and inside: "edges_inside g"
    and field: "node_key g ` {..<length (tg_nodes g)} = Field (key_edges g)"
    and meta: "\<And>i. i < length (tg_nodes g) \<Longrightarrow> node_metadata g i = M (node_key g i)"
  shows "\<exists>out. graph_build True g = Some (TRACK_BUILDER_OK, out)
    \<and> public_tracks g out = expected_tracks M (key_edges g)"
proof -
  let ?n = "length (tg_nodes g)" and ?edges = "remdups_adj (sort (tg_edges g))"
  have edges: "\<forall>(a, b) \<in> set ?edges. a < ?n \<and> b < ?n" "set ?edges = set (tg_edges g)"
    using inside by (auto simp: edges_inside_def)
  obtain parent rank where d: "dsu_unite_all ?edges (dsu_create ?n) = Some (parent, rank)"
    "forest parent rank" "ranked parent rank" "length parent = ?n"
    "\<And>v w. v < ?n \<Longrightarrow> w < ?n \<Longrightarrow> same_root parent v w \<longleftrightarrow> (v, w) \<in> linked (set ?edges)"
    by (rule dsu_connects [OF edges(1)]) blast
  have "\<forall>v \<in> set [0..<?n]. v < length parent" using d(4) by simp
  from dsu_roots_found [OF d(2) this] obtain roots where roots: "dsu_roots parent [0..<?n] = Some roots"
    "\<forall>i < ?n. is_root parent i (roots ! i)" by auto
  have rt: "roots ! v = roots ! w \<longleftrightarrow> (v, w) \<in> linked (set (tg_edges g))" if "v < ?n" "w < ?n" for v w
    using d(5) [OF that] roots(2) that is_root_unique edges(2) unfolding same_root_def by metis
  define grouped where "grouped = sort_key (\<lambda>i. (roots ! i, node_key g i)) [0..<?n]"
  define accepted where "accepted = sort_key (map (node_key g)) (filter (group_valid g) (root_runs (\<lambda>i. roots ! i) grouped))"
  note tracks = accepted_keys [OF keys refl inside field meta rt grouped_def accepted_def]
  let ?out = "\<lparr>to_memberships = map (\<lambda>i. \<lparr>tm_feature_set_id = fst (node_key g i),
      tm_feature_index = snd (node_key g i), tm_node_index = i\<rparr>) (concat accepted),
    to_tracks = track_ranges 0 accepted\<rparr>"
  let ?ob = "\<lambda>i. \<lparr>tob_feature_set_id = fst (node_key g i), tob_feature_index = snd (node_key g i),
    tob_image_id = node_image g i\<rparr>"
  have run: "graph_build True g = Some (TRACK_BUILDER_OK, ?out)"
    using d(1) roots(1) by (simp add: graph_build_def Let_def grouped_def accepted_def)
  have "public_tracks g ?out = map (map ?ob) accepted"
    using track_ranges_slices [of ?ob "[]" accepted]
    by (simp add: public_tracks_def take_map drop_map comp_def case_prod_unfold)
  also have "\<dots> = expected_tracks M (key_edges g)"
  proof -
    have "node_image g i = fm_image_id (M (node_key g i))" if "i < ?n" for i
      using meta [OF that] by (simp add: node_image_def node_metadata_def)
    then have "map (map ?ob) accepted = map (map (\<lambda>k. \<lparr>tob_feature_set_id = fst k, tob_feature_index = snd k,
        tob_image_id = fm_image_id (M k)\<rparr>)) (map (map (node_key g)) accepted)"
      using tracks(2) by simp
    then show ?thesis by (simp only: tracks(1) expected_tracks_def)
  qed
  finally show ?thesis using run by blast
qed

end
