(* ===== verification/Track_Public.thy ===== *)
theory Track_Public
  imports Track_Table Track_Components
begin

text \<open>
  The public track builder: its checks of the input, the interning of the observations, and the
  invariant that ties the compact graph to the edges added so far.
\<close>

section \<open>The input\<close>

definition observed_key :: "track_input \<Rightarrow> feature_key" where
  "observed_key ob = (ti_feature_set_id ob, ti_feature_index ob)"

text \<open>The metadata of a key is that of the first observation that has it.\<close>

definition input_metadata :: "track_input list \<Rightarrow> feature_key \<Rightarrow> feature_metadata" where
  "input_metadata observations k =
     project_metadata (hd (filter (\<lambda>ob. observed_key ob = k) observations))"

definition edge_keys :: "track_input_edge list \<Rightarrow> (feature_key \<times> feature_key) set" where
  "edge_keys edges = {(observed_key a, observed_key b) | a b. (Some a, Some b) \<in> set edges}"

definition known_end :: "track_input list \<Rightarrow> track_input \<Rightarrow> bool" where
  "known_end observations a \<longleftrightarrow> observed_key a \<in> observed_key ` set observations
     \<and> meta_equal (input_metadata observations (observed_key a)) (project_metadata a) True"

definition well_formed_edge :: "track_input list \<Rightarrow> track_input_edge \<Rightarrow> bool" where
  "well_formed_edge observations edge \<longleftrightarrow>
     (case edge of
        (Some a, Some b) \<Rightarrow> known_end observations a \<and> known_end observations b
          \<and> observed_key a \<noteq> observed_key b
      | _ \<Rightarrow> False)"

definition well_formed_input :: "track_input list \<Rightarrow> track_input_edge list \<Rightarrow> bool" where
  "well_formed_input observations edges \<longleftrightarrow>
     (\<forall>ob \<in> set observations. meta_valid (project_metadata ob))
     \<and> (\<forall>ob \<in> set observations. \<forall>ob' \<in> set observations. observed_key ob = observed_key ob' \<longrightarrow>
          meta_equal (project_metadata ob) (project_metadata ob') True)
     \<and> (\<forall>edge \<in> set edges. well_formed_edge observations edge)"

section \<open>Identities\<close>

definition position :: "feature_key list \<Rightarrow> feature_key \<Rightarrow> nat" where
  "position keys k = length (takeWhile (\<lambda>x. x < k) keys)"

lemma find_identity_position:
  "find_identity ids ob = (let q = position (map identity_key ids) (observed_key ob) in
     if q < length ids \<and> identity_key (ids ! q) = observed_key ob then Some q else None)"
  by (simp add: find_identity_def position_def observed_key_def takeWhile_map comp_def Let_def)

lemma position_first:
  "sorted keys \<Longrightarrow> k \<in> set keys \<Longrightarrow> position keys k < length keys \<and> keys ! position keys k = k
     \<and> (\<forall>i < position keys k. keys ! i < k)"
proof (induction keys)
  case (Cons x keys)
  show ?case
  proof (cases "x < k")
    case True
    then have "k \<in> set keys" using Cons.prems(2) by auto
    with Cons True show ?thesis by (auto simp: position_def nth_Cons split: nat.split)
  next
    case False
    then have "x = k" using Cons.prems by auto
    then show ?thesis by (simp add: position_def)
  qed
qed simp

text \<open>The identity the binary search finds is the first of its key.\<close>

lemma filter_first:
  assumes "sorted (map f xs)" "k \<in> f ` set xs"
  shows "hd (filter (\<lambda>x. f x = k) xs) = xs ! length (takeWhile (\<lambda>x. f x < k) xs)"
  using assms
proof (induction xs)
  case (Cons x xs)
  show ?case
  proof (cases "f x < k")
    case True
    then have "k \<in> f ` set xs" using Cons.prems(2) by auto
    with Cons True show ?thesis by auto
  next
    case False
    then have "f x = k" using Cons.prems by auto
    then show ?thesis by simp
  qed
qed simp

abbreviation sorted_identities :: "track_input list \<Rightarrow> public_identity list" where
  "sorted_identities observations \<equiv> sort_key identity_key (map input_identity observations)"

lemma input_identity_facts [simp]:
  "identity_key (input_identity ob) = observed_key ob" "pi_metadata (input_identity ob) = project_metadata ob"
  "\<not> pi_registered (input_identity ob)"
  "fm_feature_set_id (project_metadata ob) = fst (observed_key ob)"
  by (simp_all add: identity_key_def input_identity_def observed_key_def project_metadata_def)

lemma position_metadata:
  assumes "k \<in> observed_key ` set observations"
  shows "pi_metadata (sorted_identities observations ! position (map identity_key (sorted_identities observations)) k)
    = input_metadata observations k"
proof -
  let ?ids = "sorted_identities observations"
  have in_ids: "k \<in> identity_key ` set ?ids" using assms by (auto simp: image_iff)
  have "?ids ! position (map identity_key ?ids) k = hd (filter (\<lambda>p. identity_key p = k) ?ids)"
    using filter_first [OF _ in_ids] by (simp add: position_def takeWhile_map comp_def)
  also have "filter (\<lambda>p. identity_key p = k) ?ids = filter (\<lambda>p. identity_key p = k) (map input_identity observations)"
    by (rule sort_key_stable)
  also have "\<dots> = map input_identity (filter (\<lambda>ob. observed_key ob = k) observations)"
    by (simp add: filter_map comp_def)
  finally have eq: "?ids ! position (map identity_key ?ids) k
      = hd (map input_identity (filter (\<lambda>ob. observed_key ob = k) observations))" .
  have "filter (\<lambda>ob. observed_key ob = k) observations \<noteq> []" using assms by (auto simp: filter_empty_conv)
  then show ?thesis unfolding eq by (simp add: hd_map input_metadata_def)
qed

lemma contradictory_sorted:
  "sorted (map identity_key ids) \<Longrightarrow> \<not> contradictory ids \<longleftrightarrow>
     (\<forall>p \<in> set ids. \<forall>q \<in> set ids. identity_key p = identity_key q \<longrightarrow> meta_equal (pi_metadata p) (pi_metadata q) True)"
proof (induction ids rule: contradictory.induct)
  case (1 p q rest)
  let ?ok = "\<lambda>ids. \<forall>p \<in> set ids. \<forall>q \<in> set ids. identity_key p = identity_key q \<longrightarrow>
    meta_equal (pi_metadata p) (pi_metadata q) True"
  have eq: "meta_equal a b True \<Longrightarrow> meta_equal b a True" "meta_equal a a True"
    "meta_equal a b True \<Longrightarrow> meta_equal b c True \<Longrightarrow> meta_equal a c True" for a b c
    by (simp_all add: meta_equal_def)
  have between: "identity_key q = identity_key p" if "r \<in> set (q # rest)" "identity_key r = identity_key p" for r
    using 1(2) that by (auto intro: order.antisym)
  have "?ok (p # q # rest) \<longleftrightarrow> (identity_key p = identity_key q \<longrightarrow> meta_equal (pi_metadata p) (pi_metadata q) True)
      \<and> ?ok (q # rest)" (is "?l \<longleftrightarrow> ?first \<and> ?r")
  proof
    assume r: "?first \<and> ?r"
    have "meta_equal (pi_metadata p) (pi_metadata x) True" if "x \<in> set (q # rest)" "identity_key p = identity_key x" for x
    proof -
      have "identity_key q = identity_key p" using between that by metis
      then show ?thesis using r that eq(3) by (metis list.set_intros(1))
    qed
    then show ?l using r eq by (metis set_ConsD)
  qed auto
  then show ?case using "1.IH" 1(2) by simp
qed (auto simp: meta_equal_def)

section \<open>The state of the loop over the edges\<close>

definition registered_at :: "public_identity list \<Rightarrow> track_graph \<Rightarrow> nat \<Rightarrow> bool" where
  "registered_at ids g q \<longleftrightarrow> pi_metadata_index (ids ! q) < length (tg_metadata g)
     \<and> tg_metadata g ! pi_metadata_index (ids ! q) = pi_metadata (ids ! q)"

text \<open>The identities keep their keys and metadata, and every node belongs to one of them.\<close>

definition identities_ok :: "public_identity list \<Rightarrow> public_identity list \<Rightarrow> track_graph \<Rightarrow> bool" where
  "identities_ok ids0 ids g \<longleftrightarrow>
     map identity_key ids = map identity_key ids0 \<and> map pi_metadata ids = map pi_metadata ids0
     \<and> (\<forall>q < length ids. pi_registered (ids ! q) \<longrightarrow> registered_at ids g q)
     \<and> (\<forall>nd \<in> set (tg_nodes g). \<exists>q < length ids. pi_registered (ids ! q)
          \<and> q = position (map identity_key ids) (nd_feature_set_id nd, nd_feature_index nd)
          \<and> nd_metadata_index nd = pi_metadata_index (ids ! q)
          \<and> identity_key (ids ! q) = (nd_feature_set_id nd, nd_feature_index nd))"

definition input_ids :: "public_identity list \<Rightarrow> bool" where
  "input_ids ids0 \<longleftrightarrow> sorted (map identity_key ids0)
     \<and> (\<forall>p \<in> set ids0. meta_valid (pi_metadata p) \<and> fm_feature_set_id (pi_metadata p) = fst (identity_key p))"

lemma map_nth_eq: "map f xs = map f ys \<Longrightarrow> i < length xs \<Longrightarrow> f (xs ! i) = f (ys ! i)"
  by (metis map_eq_imp_length_eq nth_map)

lemma register_identity_ok:
  assumes ok: "identities_ok ids0 ids g" and ids0: "input_ids ids0" and q: "q < length ids"
    and room: "length (tg_metadata g) < TRACK_INDEX_MAX"
  obtains ids' g' where "register_identity q (ids, g) = Inr (ids', g')" "identities_ok ids0 ids' g'"
    "pi_registered (ids' ! q)" "\<And>r. pi_registered (ids ! r) \<Longrightarrow> pi_registered (ids' ! r)"
    "tg_nodes g' = tg_nodes g" "tg_edges g' = tg_edges g" "tg_identity g' = tg_identity g"
    "tg_identity_size g' = tg_identity_size g" "length (tg_metadata g') \<le> length (tg_metadata g) + 1"
proof (cases "pi_registered (ids ! q)")
  case True
  then show ?thesis using that [of ids g] ok by (simp add: register_identity_def)
next
  case False
  let ?p = "ids ! q" and ?m = "length (tg_metadata g)"
  let ?g = "g\<lparr>tg_metadata := tg_metadata g @ [pi_metadata ?p]\<rparr>"
  let ?ids = "ids[q := ?p\<lparr>pi_metadata_index := ?m, pi_registered := True\<rparr>]"
  have len: "length ids = length ids0" using ok by (metis identities_ok_def map_eq_imp_length_eq)
  have "pi_metadata ?p = pi_metadata (ids0 ! q)"
    using ok q by (intro map_nth_eq) (auto simp: identities_ok_def)
  then have valid: "meta_valid (pi_metadata ?p)" using ids0 q len by (simp add: input_ids_def)
  have run: "register_identity q (ids, g) = Inr (?ids, ?g)"
    using False valid room by (simp add: register_identity_def register_feature_def Let_def)
  have keys: "map identity_key ?ids = map identity_key ids" "map pi_metadata ?ids = map pi_metadata ids"
    using q by (auto simp: map_update identity_key_def list_update_same_conv nth_map)
  have at: "registered_at ?ids ?g r" if "r < length ids" "pi_registered (?ids ! r)" for r
    using that ok q by (cases "r = q") (auto simp: registered_at_def identities_ok_def nth_append)
  have nodes: "\<exists>r < length ?ids. pi_registered (?ids ! r)
      \<and> r = position (map identity_key ?ids) (nd_feature_set_id nd, nd_feature_index nd)
      \<and> nd_metadata_index nd = pi_metadata_index (?ids ! r)
      \<and> identity_key (?ids ! r) = (nd_feature_set_id nd, nd_feature_index nd)" if nd: "nd \<in> set (tg_nodes g)" for nd
  proof -
    obtain r where r: "r < length ids" "pi_registered (ids ! r)"
      "r = position (map identity_key ids) (nd_feature_set_id nd, nd_feature_index nd)"
      "nd_metadata_index nd = pi_metadata_index (ids ! r)"
      "identity_key (ids ! r) = (nd_feature_set_id nd, nd_feature_index nd)"
      using ok nd by (auto simp: identities_ok_def)
    then have "r \<noteq> q" using False by auto
    then have "?ids ! r = ids ! r" by simp
    then show ?thesis using r unfolding keys(1) by (intro exI [of _ r]) simp
  qed
  have "identities_ok ids0 ?ids ?g"
    unfolding identities_ok_def using keys ok at nodes by (simp add: identities_ok_def)
  with run show ?thesis
    by (rule that) (use q in \<open>auto simp: nth_list_update\<close>)
qed

text \<open>Interning one end of an edge.\<close>

lemma intern_identity:
  assumes ok: "identities_ok ids0 ids g" and ids0: "input_ids ids0" and table: "table_ok g"
    and q: "q < length ids" "pi_registered (ids ! q)" "identity_key (ids ! q) = k"
      "q = position (map identity_key ids) k"
    and room: "length (tg_nodes g) < length (tg_identity g)" "length (tg_nodes g) < TRACK_INDEX_MAX"
  obtains i g' where "resolve_node (pi_metadata_index (ids ! q)) (pi_feature_index (ids ! q)) g = Some (Inr (i, g'))"
    "i < length (tg_nodes g')" "graph_keys g' ! i = k" "table_ok g'" "identities_ok ids0 ids g'"
    "set (graph_keys g') = insert k (set (graph_keys g))" "\<exists>ends. tg_nodes g' = tg_nodes g @ ends \<and> length ends \<le> 1"
    "tg_edges g' = tg_edges g" "tg_metadata g' = tg_metadata g" "length (tg_identity g') = length (tg_identity g)"
proof -
  let ?m = "pi_metadata_index (ids ! q)" and ?f = "pi_feature_index (ids ! q)"
  have reg: "?m < length (tg_metadata g)" "tg_metadata g ! ?m = pi_metadata (ids ! q)"
    using ok q(1,2) by (auto simp: identities_ok_def registered_at_def)
  have same: "map identity_key ids = map identity_key ids0" "map pi_metadata ids = map pi_metadata ids0"
    using ok by (simp_all add: identities_ok_def)
  then have "ids0 ! q \<in> set ids0" using q(1) by (metis map_eq_imp_length_eq nth_mem)
  then have set_id: "fm_feature_set_id (pi_metadata (ids ! q)) = fst k"
    using ids0 map_nth_eq [OF same(1) q(1)] map_nth_eq [OF same(2) q(1)] q(3) by (simp add: input_ids_def)
  have k: "k = (fm_feature_set_id (tg_metadata g ! ?m), ?f)"
    using set_id q(3) reg(2) by (cases k) (simp add: identity_key_def)
  show thesis
  proof (cases "k \<in> set (graph_keys g)")
    case True
    then obtain i where i: "i < length (tg_nodes g)" "graph_keys g ! i = k" by (auto simp: in_set_conv_nth)
    have nd: "tg_nodes g ! i \<in> set (tg_nodes g)" using i(1) by simp
    have "(nd_feature_set_id (tg_nodes g ! i), nd_feature_index (tg_nodes g ! i)) = k"
      using i by (simp add: graph_keys_def)
    then have "nd_metadata_index (tg_nodes g ! i) = ?m" using ok nd q(4) by (auto simp: identities_ok_def)
    then have "resolve_node ?m ?f g = Some (Inr (i, g))"
      using resolve_present [OF table room(1) reg(1) i(1), of ?f] i(2) k by simp
    then show thesis using that [of i g] i table ok True by (simp add: insert_absorb)
  next
    case False
    have absent: "(fm_feature_set_id (tg_metadata g ! ?m), ?f) \<notin> set (graph_keys g)" using False k by simp
    have size: "length (tg_nodes g) \<noteq> TRACK_INDEX_MAX" using room(2) by simp
    let ?node = "\<lparr>nd_feature_set_id = fm_feature_set_id (tg_metadata g ! ?m), nd_feature_index = ?f,
      nd_metadata_index = ?m\<rparr>"
    obtain g' where g': "resolve_node ?m ?f g = Some (Inr (length (tg_nodes g), g'))" "table_ok g'"
      "tg_nodes g' = tg_nodes g @ [?node]" "tg_metadata g' = tg_metadata g" "tg_edges g' = tg_edges g"
      "tg_raw_edge_count g' = tg_raw_edge_count g" "length (tg_identity g') = length (tg_identity g)"
      by (rule resolve_absent [OF table room(1) reg(1) absent size])
    have keys: "graph_keys g' = graph_keys g @ [k]" using g'(3) k by (simp add: graph_keys_def)
    have node: "(nd_feature_set_id ?node, nd_feature_index ?node) = k" using k by simp
    have "identities_ok ids0 ids g'"
      unfolding identities_ok_def g'(3)
      using ok q g'(4) node by (auto simp: identities_ok_def registered_at_def)
    then show thesis using that [OF g'(1)] g' keys by (simp add: nth_append)
  qed
qed

end
