(* ===== verification/Track_Loop.thy ===== *)
theory Track_Loop
  imports Track_Public
begin

text \<open>
  The loop over the edges of the public builder: a well-formed edge extends the compact graph by
  itself and its two features, any other ends the call, and no edge can exhaust the table.
\<close>

section \<open>The table of the graph\<close>

lemma table_loop_power:
  "8 * 2 ^ n \<le> (2 :: nat) ^ 62 \<Longrightarrow> required \<le> (2 :: nat) ^ 63 \<Longrightarrow> \<exists>m. table_loop required n = Some (8 * 2 ^ m) \<and> required \<le> 8 * 2 ^ m"
proof (induction required n rule: table_loop.induct)
  case (1 required n)
  show ?case
  proof (cases "8 * 2 ^ n < required")
    case True
    have small: "\<not> 8 * 2 ^ n > TRACK_SIZE_MAX div 2" using "1.prems"(1) by (simp add: TRACK_SIZE_MAX_def)
    then have step: "table_loop required n = table_loop required (n + 1)"
      using True by (subst table_loop.simps) (simp add: Let_def)
    show ?thesis
    proof (cases "8 * 2 ^ (n + 1) \<le> (2 :: nat) ^ 62")
      case True
      then show ?thesis using "1.IH" [OF refl \<open>8 * 2 ^ n < required\<close> small] "1.prems"(2) step by simp
    next
      case False
      then have "(2 :: nat) ^ 62 < 2 ^ (n + 4)" by (simp add: power_add)
      then have "62 < n + 4" by (rule power_less_imp_less_exp [rotated]) simp
      then have "(2 :: nat) ^ 63 \<le> 2 ^ (n + 4)" by (intro power_increasing) simp_all
      then have big: "required \<le> 8 * 2 ^ (n + 1)" using "1.prems"(2) by (simp add: power_add)
      then have "table_loop required (n + 1) = Some (8 * 2 ^ (n + 1))"
        by (subst table_loop.simps) (simp add: Let_def)
      then show ?thesis using step big by metis
    qed
  next
    case False
    then have "table_loop required n = Some (8 * 2 ^ n)" by (subst table_loop.simps) (simp add: Let_def)
    then show ?thesis using False by (intro exI [of _ n]) simp
  qed
qed

lemma table_capacity_power:
  assumes "0 < nodes" "nodes \<le> 2 ^ 33"
  obtains k where "table_capacity nodes = Some (2 ^ k)" "nodes < 2 ^ k"
proof -
  have "nodes + nodes div 2 + 1 \<le> 2 ^ 63" using assms by simp
  from table_loop_power [of 0, OF _ this, simplified] obtain m where
    m: "table_loop (nodes + nodes div 2 + 1) 0 = Some (8 * 2 ^ m)" "nodes + nodes div 2 + 1 \<le> 8 * 2 ^ m" by auto
  have "\<not> nodes > TRACK_SIZE_MAX div 2" using assms(2) by (simp add: TRACK_SIZE_MAX_def)
  then have "table_capacity nodes = Some (2 ^ (m + 3))"
    using assms(1) m(1) by (simp add: table_capacity_def power_add)
  then show ?thesis using that [of "m + 3"] m(2) by (simp add: power_add)
qed

lemma empty_table_ok:
  assumes "length (tg_identity g) = 2 ^ k" "\<forall>s \<in> set (tg_identity g). is_node_plus_one s = 0"
    "tg_nodes g = []" "tg_identity_size g = 0"
  shows "table_ok g"
proof -
  have "occupied (tg_identity g) = {}" using assms(2) by (auto simp: occupied_def)
  then show ?thesis using assms by (simp add: table_ok_def graph_keys_def)
qed

section \<open>One edge\<close>

lemma find_known:
  assumes ok: "identities_ok (sorted_identities observations) ids g"
  shows "find_identity ids a = (if observed_key a \<in> observed_key ` set observations
      then Some (position (map identity_key ids) (observed_key a)) else None)"
    and "observed_key a \<in> observed_key ` set observations \<Longrightarrow>
      position (map identity_key ids) (observed_key a) < length ids
      \<and> identity_key (ids ! position (map identity_key ids) (observed_key a)) = observed_key a
      \<and> pi_metadata (ids ! position (map identity_key ids) (observed_key a)) = input_metadata observations (observed_key a)"
proof -
  let ?k = "observed_key a"
  let ?ids0 = "sorted_identities observations"
  have same: "map identity_key ids = map identity_key ?ids0" "map pi_metadata ids = map pi_metadata ?ids0"
    using ok by (simp_all add: identities_ok_def)
  have keys: "set (map identity_key ids) = observed_key ` set observations"
    unfolding same by (auto simp: image_iff)
  have found: "position (map identity_key ids) ?k < length ids
      \<and> identity_key (ids ! position (map identity_key ids) ?k) = ?k" if "?k \<in> observed_key ` set observations"
  proof -
    have "sorted (map identity_key ids)" unfolding same by simp
    moreover have "?k \<in> set (map identity_key ids)" unfolding keys using that .
    ultimately have "position (map identity_key ids) ?k < length (map identity_key ids)
        \<and> map identity_key ids ! position (map identity_key ids) ?k = ?k" using position_first by blast
    then show ?thesis by (metis length_map nth_map)
  qed
  show "find_identity ids a = (if ?k \<in> observed_key ` set observations
      then Some (position (map identity_key ids) ?k) else None)"
  proof (cases "?k \<in> observed_key ` set observations")
    case True
    then show ?thesis using found by (simp add: find_identity_position Let_def)
  next
    case False
    then have "?k \<notin> identity_key ` set ids" using keys by simp
    then have "\<not> (q < length ids \<and> identity_key (ids ! q) = ?k)" for q by (metis image_eqI nth_mem)
    then show ?thesis using False by (auto simp: find_identity_position Let_def)
  qed
  show "position (map identity_key ids) ?k < length ids
      \<and> identity_key (ids ! position (map identity_key ids) ?k) = ?k
      \<and> pi_metadata (ids ! position (map identity_key ids) ?k) = input_metadata observations ?k"
    if k: "?k \<in> observed_key ` set observations"
    using found [OF k] position_metadata [OF k] map_nth_eq [OF same(2)] same(1) by metis
qed

text \<open>The state after the edges \<open>done\<close> of a call with \<open>hint\<close> edges.\<close>

definition loop_state :: "track_input list \<Rightarrow> nat \<Rightarrow> track_input_edge list \<Rightarrow> public_identity list \<Rightarrow> track_graph \<Rightarrow> bool" where
  "loop_state observations hint passed ids g \<longleftrightarrow>
     identities_ok (sorted_identities observations) ids g
     \<and> edges_inside g \<and> distinct (graph_keys g)
     \<and> set (graph_keys g) = Field (edge_keys passed)
     \<and> key_edges g \<union> (key_edges g)\<inverse> = edge_keys passed \<union> (edge_keys passed)\<inverse>
     \<and> length (tg_nodes g) \<le> 2 * length passed \<and> length (tg_metadata g) \<le> 2 * length passed
     \<and> (0 < hint \<longrightarrow> table_ok g \<and> 2 * hint < length (tg_identity g))"

lemma edge_keys_snoc [simp]:
  "edge_keys (edges @ [(Some a, Some b)]) = insert (observed_key a, observed_key b) (edge_keys edges)"
  by (auto simp: edge_keys_def)

lemma key_edges_append:
  assumes "edges_inside g" "tg_nodes g' = tg_nodes g @ ends" "tg_edges g' = tg_edges g"
  shows "key_edges g' = key_edges g" "edges_inside g'"
proof -
  have "node_key g' i = node_key g i" if "i < length (tg_nodes g)" for i
    using assms(2) that by (simp add: node_key_def nth_append)
  then show "key_edges g' = key_edges g"
    using assms(1,3) unfolding key_edges_def edges_inside_def by (intro image_cong) auto
  show "edges_inside g'" using assms by (auto simp: edges_inside_def)
qed

lemma identities_ok_cong:
  "identities_ok ids0 ids g \<Longrightarrow> tg_metadata g' = tg_metadata g \<Longrightarrow> tg_nodes g' = tg_nodes g \<Longrightarrow> identities_ok ids0 ids g'"
  unfolding identities_ok_def registered_at_def by metis

text \<open>The two ends of an edge interned one after the other.\<close>

lemma add_edge_identities:
  assumes ok: "identities_ok ids0 ids g" and ids0: "input_ids ids0" and table: "table_ok g"
    and inside: "edges_inside g"
    and q: "q < length ids" "pi_registered (ids ! q)" "identity_key (ids ! q) = k" "q = position (map identity_key ids) k"
    and r: "r < length ids" "pi_registered (ids ! r)" "identity_key (ids ! r) = l" "r = position (map identity_key ids) l"
    and room: "length (tg_nodes g) + 1 < length (tg_identity g)" "length (tg_nodes g) + 1 < TRACK_INDEX_MAX"
  obtains g' where "add_edge (pi_metadata_index (ids ! q)) (pi_feature_index (ids ! q))
      (pi_metadata_index (ids ! r)) (pi_feature_index (ids ! r)) g = Some (Inr (k \<noteq> l, g'))"
    "table_ok g'" "edges_inside g'" "identities_ok ids0 ids g'" "tg_metadata g' = tg_metadata g"
    "length (tg_identity g') = length (tg_identity g)" "length (tg_nodes g') \<le> length (tg_nodes g) + 2"
    "set (graph_keys g') = insert k (insert l (set (graph_keys g)))"
    "k \<noteq> l \<longrightarrow> key_edges g' = insert (k, l) (key_edges g) \<or> key_edges g' = insert (l, k) (key_edges g)"
proof -
  obtain i g1 where one: "resolve_node (pi_metadata_index (ids ! q)) (pi_feature_index (ids ! q)) g = Some (Inr (i, g1))"
    "i < length (tg_nodes g1)" "graph_keys g1 ! i = k" "table_ok g1" "identities_ok ids0 ids g1"
    "set (graph_keys g1) = insert k (set (graph_keys g))" "\<exists>ends. tg_nodes g1 = tg_nodes g @ ends \<and> length ends \<le> 1"
    "tg_edges g1 = tg_edges g" "tg_metadata g1 = tg_metadata g" "length (tg_identity g1) = length (tg_identity g)"
    by (rule intern_identity [OF ok ids0 table q]) (use room in simp_all)
  obtain ends where ends: "tg_nodes g1 = tg_nodes g @ ends" "length ends \<le> 1" using one(7) by blast
  have room1: "length (tg_nodes g1) < length (tg_identity g1)" "length (tg_nodes g1) < TRACK_INDEX_MAX"
    using room ends one(10) by simp_all
  obtain j g2 where two: "resolve_node (pi_metadata_index (ids ! r)) (pi_feature_index (ids ! r)) g1 = Some (Inr (j, g2))"
    "j < length (tg_nodes g2)" "graph_keys g2 ! j = l" "table_ok g2" "identities_ok ids0 ids g2"
    "set (graph_keys g2) = insert l (set (graph_keys g1))" "\<exists>ends. tg_nodes g2 = tg_nodes g1 @ ends \<and> length ends \<le> 1"
    "tg_edges g2 = tg_edges g1" "tg_metadata g2 = tg_metadata g1" "length (tg_identity g2) = length (tg_identity g1)"
    by (rule intern_identity [OF one(5) ids0 one(4) r room1]) blast
  obtain ends2 where ends2: "tg_nodes g2 = tg_nodes g1 @ ends2" "length ends2 \<le> 1" using two(7) by blast
  have i: "i < length (tg_nodes g2)" "graph_keys g2 ! i = k"
    using one(2,3) ends2 by (simp_all add: graph_keys_def nth_append)
  have distinct: "distinct (graph_keys g2)" using two(4) by (simp add: table_ok_def)
  have eq: "i = j \<longleftrightarrow> k = l"
    using i two(2,3) distinct by (metis graph_keys_length nth_eq_iff_index_eq)
  note e1 = key_edges_append [OF inside ends(1) one(8)]
  note e2 = key_edges_append [OF e1(2) ends2(1) two(8)]
  have sizes: "length (tg_nodes g2) \<le> length (tg_nodes g) + 2" using ends ends2 by simp
  let ?g = "g2\<lparr>tg_edges := tg_edges g2 @ [if i < j then (i, j) else (j, i)],
    tg_raw_edge_count := tg_raw_edge_count g2 + 1\<rparr>"
  show thesis
  proof (cases "k = l")
    case True
    then show thesis
      by (intro that [of g2])
        (use one two eq e2 sizes in \<open>simp_all add: add_edge_def\<close>)
  next
    case False
    have node: "node_key ?g = node_key g2" by (simp add: node_key_def fun_eq_iff)
    have "node_key g2 i = k" "node_key g2 j = l"
      using i two(2,3) graph_keys_nth by metis+
    then have "key_edges ?g = insert (k, l) (key_edges g2) \<or> key_edges ?g = insert (l, k) (key_edges g2)"
      unfolding key_edges_def node by (cases "i < j") (auto simp: insert_commute)
    moreover have "edges_inside ?g" using e2(2) i(1) two(2) by (auto simp: edges_inside_def)
    moreover have "table_ok ?g" using two(4) by (simp add: table_ok_def graph_keys_def)
    moreover have "identities_ok ids0 ids ?g" using two(5) by (rule identities_ok_cong) simp_all
    moreover have "graph_keys ?g = graph_keys g2" by (simp add: graph_keys_def)
    ultimately show thesis
      by (intro that [of ?g])
        (use False one two eq e1 e2 sizes in \<open>simp_all add: add_edge_def insert_commute\<close>)
  qed
qed

lemma input_ids_sorted:
  assumes "\<forall>ob \<in> set observations. meta_valid (project_metadata ob)"
  shows "input_ids (sorted_identities observations)"
  using assms by (auto simp: input_ids_def)

text \<open>An edge with known, matching ends.\<close>

lemma public_edge_ends:
  assumes state: "loop_state observations hint passed ids g"
    and valid: "\<forall>ob \<in> set observations. meta_valid (project_metadata ob)"
    and a: "known_end observations a" and b: "known_end observations b"
    and room: "length passed < hint" "hint \<le> TRACK_INDEX_MAX div 2"
  shows "\<exists>ids' g'. public_edge True (Some a, Some b) (ids, g) = Some (if observed_key a = observed_key b
      then Inl TRACK_BUILDER_CORRUPT_INPUT else Inr (ids', g'))
    \<and> (observed_key a \<noteq> observed_key b \<longrightarrow> loop_state observations hint (passed @ [(Some a, Some b)]) ids' g')"
proof -
  let ?ids0 = "sorted_identities observations" and ?k = "observed_key a" and ?l = "observed_key b"
  have ok: "identities_ok ?ids0 ids g" using state by (simp add: loop_state_def)
  have ids0: "input_ids ?ids0" by (rule input_ids_sorted [OF valid])
  let ?q = "position (map identity_key ids) ?k" and ?r = "position (map identity_key ids) ?l"
  have known: "?k \<in> observed_key ` set observations" "?l \<in> observed_key ` set observations"
    using a b by (simp_all add: known_end_def)
  note q = find_known(2) [OF ok known(1)] and r = find_known(2) [OF ok known(2)]
  have found: "find_identity ids a = Some ?q" "find_identity ids b = Some ?r"
    using find_known(1) [OF ok] known by simp_all
  have meta: "meta_equal (pi_metadata (ids ! ?q)) (project_metadata a) True"
    "meta_equal (pi_metadata (ids ! ?r)) (project_metadata b) True"
    using a b q r by (simp_all add: known_end_def)
  have small: "length (tg_metadata g) + 2 \<le> TRACK_INDEX_MAX - 1" "length (tg_nodes g) + 2 \<le> TRACK_INDEX_MAX - 1"
    using state room by (simp_all add: loop_state_def TRACK_INDEX_MAX_def)
  have m1: "length (tg_metadata g) < TRACK_INDEX_MAX" using small by simp
  obtain ids1 g1 where one: "register_identity ?q (ids, g) = Inr (ids1, g1)" "identities_ok ?ids0 ids1 g1"
    "pi_registered (ids1 ! ?q)" "\<And>r. pi_registered (ids ! r) \<Longrightarrow> pi_registered (ids1 ! r)"
    "tg_nodes g1 = tg_nodes g" "tg_edges g1 = tg_edges g" "tg_identity g1 = tg_identity g"
    "tg_identity_size g1 = tg_identity_size g" "length (tg_metadata g1) \<le> length (tg_metadata g) + 1"
    by (rule register_identity_ok [OF ok ids0 conjunct1 [OF q] m1]) blast
  have same1: "map identity_key ids1 = map identity_key ids"
    using ok one(2) by (simp add: identities_ok_def)
  then have len1: "length ids1 = length ids" by (rule map_eq_imp_length_eq)
  have r1: "?r < length ids1" using r len1 by simp
  have m2: "length (tg_metadata g1) < TRACK_INDEX_MAX" using small one(9) by simp
  obtain ids2 g2 where two: "register_identity ?r (ids1, g1) = Inr (ids2, g2)" "identities_ok ?ids0 ids2 g2"
    "pi_registered (ids2 ! ?r)" "\<And>r. pi_registered (ids1 ! r) \<Longrightarrow> pi_registered (ids2 ! r)"
    "tg_nodes g2 = tg_nodes g1" "tg_edges g2 = tg_edges g1" "tg_identity g2 = tg_identity g1"
    "tg_identity_size g2 = tg_identity_size g1" "length (tg_metadata g2) \<le> length (tg_metadata g1) + 1"
    by (rule register_identity_ok [OF one(2) ids0 r1 m2]) blast
  have same2: "map identity_key ids2 = map identity_key ids"
    using one(2) two(2) same1 by (simp add: identities_ok_def)
  then have len2: "length ids2 = length ids" by (rule map_eq_imp_length_eq)
  have q2: "?q < length ids2" "identity_key (ids2 ! ?q) = ?k" "?q = position (map identity_key ids2) ?k"
    and r2: "?r < length ids2" "identity_key (ids2 ! ?r) = ?l" "?r = position (map identity_key ids2) ?l"
    using q r len2 map_nth_eq [OF same2] same2 by auto
  have table: "table_ok g2" and large: "length (tg_nodes g2) + 1 < length (tg_identity g2)"
    "length (tg_nodes g2) + 1 < TRACK_INDEX_MAX"
    using state room one(5,7,8) two(5,7,8) small by (simp_all add: loop_state_def table_ok_def graph_keys_def)
  have inside: "edges_inside g2" using state one(5,6) two(5,6) by (simp add: loop_state_def edges_inside_def)
  obtain g3 where three: "add_edge (pi_metadata_index (ids2 ! ?q)) (pi_feature_index (ids2 ! ?q))
      (pi_metadata_index (ids2 ! ?r)) (pi_feature_index (ids2 ! ?r)) g2 = Some (Inr (?k \<noteq> ?l, g3))"
    "table_ok g3" "edges_inside g3" "identities_ok ?ids0 ids2 g3" "tg_metadata g3 = tg_metadata g2"
    "length (tg_identity g3) = length (tg_identity g2)" "length (tg_nodes g3) \<le> length (tg_nodes g2) + 2"
    "set (graph_keys g3) = insert ?k (insert ?l (set (graph_keys g2)))"
    "?k \<noteq> ?l \<longrightarrow> key_edges g3 = insert (?k, ?l) (key_edges g2) \<or> key_edges g3 = insert (?l, ?k) (key_edges g2)"
    by (rule add_edge_identities [OF two(2) ids0 table inside q2(1) two(4) [OF one(3)] q2(2,3)
      r2(1) two(3) r2(2,3) large]) blast
  have run: "public_edge True (Some a, Some b) (ids, g) = Some (if ?k = ?l
      then Inl TRACK_BUILDER_CORRUPT_INPUT else Inr (ids2, g3))"
    using found meta one(1) two(1) three(1) by (simp add: public_edge_def Let_def)
  have keys2: "graph_keys g2 = graph_keys g" using one(5) two(5) by (simp add: graph_keys_def)
  have edges2: "key_edges g2 = key_edges g"
    using one(5,6) two(5,6) by (simp add: key_edges_def node_key_def)
  have "loop_state observations hint (passed @ [(Some a, Some b)]) ids2 g3" if ne: "?k \<noteq> ?l"
  proof -
    have "set (graph_keys g3) = Field (edge_keys (passed @ [(Some a, Some b)]))"
      using three(8) keys2 state by (simp add: loop_state_def)
    moreover have "key_edges g3 \<union> (key_edges g3)\<inverse> = edge_keys (passed @ [(Some a, Some b)])
        \<union> (edge_keys (passed @ [(Some a, Some b)]))\<inverse>"
    proof -
      have "key_edges g3 \<union> (key_edges g3)\<inverse> = {(?k, ?l), (?l, ?k)} \<union> (key_edges g \<union> (key_edges g)\<inverse>)"
        using three(9) ne unfolding edges2 by auto
      also have "\<dots> = {(?k, ?l), (?l, ?k)} \<union> (edge_keys passed \<union> (edge_keys passed)\<inverse>)"
        using state by (simp add: loop_state_def)
      finally show ?thesis by auto
    qed
    moreover have "length (tg_nodes g3) \<le> 2 * length passed + 2" "length (tg_metadata g3) \<le> 2 * length passed + 2"
      using three(5,7) one(5,9) two(5,9) state by (simp_all add: loop_state_def)
    moreover have "2 * hint < length (tg_identity g3)"
      using three(6) one(7) two(7) state room(1) by (simp add: loop_state_def)
    ultimately show ?thesis using three(2,3,4) by (simp add: loop_state_def table_ok_def)
  qed
  with run show ?thesis by blast
qed

section \<open>All edges\<close>

lemma public_edge_corrupt:
  assumes ok: "identities_ok (sorted_identities observations) ids g"
    and ends: "\<not> (\<exists>a b. edge = (Some a, Some b) \<and> known_end observations a \<and> known_end observations b)"
  shows "public_edge memory edge (ids, g) = Some (Inl TRACK_BUILDER_CORRUPT_INPUT)"
proof (cases "\<exists>a b. edge = (Some a, Some b)")
  case True
  then obtain a b where edge: "edge = (Some a, Some b)" by blast
  have "find_identity ids a = None \<or> \<not> meta_equal (pi_metadata (ids ! the (find_identity ids a))) (project_metadata a) True
      \<or> find_identity ids b = None \<or> \<not> meta_equal (pi_metadata (ids ! the (find_identity ids b))) (project_metadata b) True"
    using ends edge find_known [OF ok] by (auto simp: known_end_def)
  then show ?thesis unfolding edge by (auto simp: public_edge_def split: option.splits)
next
  case False
  then show ?thesis by (auto simp: public_edge_def split: prod.splits option.splits)
qed

lemma public_edges_loop:
  assumes valid: "\<forall>ob \<in> set observations. meta_valid (project_metadata ob)"
    and hint: "hint \<le> TRACK_INDEX_MAX div 2"
  shows "loop_state observations hint passed ids g \<Longrightarrow> length passed + length edges \<le> hint \<Longrightarrow>
    \<exists>ids' g'. public_edges (\<lambda>_. True) i edges (ids, g) = Some (if \<forall>e \<in> set edges. well_formed_edge observations e
        then Inr (ids', g') else Inl TRACK_BUILDER_CORRUPT_INPUT)
      \<and> ((\<forall>e \<in> set edges. well_formed_edge observations e) \<longrightarrow> loop_state observations hint (passed @ edges) ids' g')"
proof (induction edges arbitrary: passed ids g i)
  case (Cons edge edges)
  have ok: "identities_ok (sorted_identities observations) ids g" using Cons.prems(1) by (simp add: loop_state_def)
  have room: "length passed < hint" using Cons.prems(2) by simp
  show ?case
  proof (cases "\<exists>a b. edge = (Some a, Some b) \<and> known_end observations a \<and> known_end observations b")
    case False
    then have "\<not> well_formed_edge observations edge"
      by (auto simp: well_formed_edge_def split: prod.splits option.splits)
    then show ?thesis using public_edge_corrupt [OF ok False] by simp
  next
    case True
    then obtain a b where e: "edge = (Some a, Some b)" "known_end observations a" "known_end observations b" by blast
    have wf: "well_formed_edge observations edge \<longleftrightarrow> observed_key a \<noteq> observed_key b"
      using e by (simp add: well_formed_edge_def)
    obtain ids1 g1 where step: "public_edge True edge (ids, g) = Some (if observed_key a = observed_key b
        then Inl TRACK_BUILDER_CORRUPT_INPUT else Inr (ids1, g1))"
      "observed_key a \<noteq> observed_key b \<longrightarrow> loop_state observations hint (passed @ [edge]) ids1 g1"
      using public_edge_ends [OF Cons.prems(1) valid e(2,3) room hint] unfolding e(1) by blast
    show ?thesis
    proof (cases "observed_key a = observed_key b")
      case True
      then show ?thesis using step(1) wf by simp
    next
      case False
      then have "loop_state observations hint (passed @ [edge]) ids1 g1" using step(2) by blast
      from Cons.IH [OF this, of "i + 1"] Cons.prems(2) show ?thesis using step(1) wf False by simp
    qed
  qed
qed simp

section \<open>The whole call\<close>

lemma field_converse_union: "E \<union> E\<inverse> = F \<union> F\<inverse> \<Longrightarrow> Field E = Field F \<and> linked E = linked F"
proof
  assume eq: "E \<union> E\<inverse> = F \<union> F\<inverse>"
  have "Field E = Domain (E \<union> E\<inverse>)" for E :: "('a \<times> 'a) set" by (auto simp: Field_def)
  then show "Field E = Field F" using eq by metis
  show "linked E = linked F" using eq by (simp add: linked_def)
qed

lemma loop_state_start:
  assumes "graph_create (length edges) = Some g" "length edges \<le> TRACK_INDEX_MAX div 2"
  shows "loop_state observations (length edges) [] (sorted_identities observations) g"
proof -
  have g: "tg_nodes g = []" "tg_edges g = []" "tg_metadata g = []" "tg_identity_size g = 0"
    "\<forall>s \<in> set (tg_identity g). is_node_plus_one s = 0"
    using assms by (auto simp: graph_create_def empty_slot_def split: if_splits)
  have "table_ok g \<and> 2 * length edges < length (tg_identity g)" if "edges \<noteq> []"
  proof -
    have "0 < 2 * length edges" "2 * length edges \<le> 2 ^ 33" using that assms(2) by (simp_all add: TRACK_INDEX_MAX_def)
    from table_capacity_power [OF this] obtain k where
      "table_capacity (2 * length edges) = Some (2 ^ k)" "2 * length edges < 2 ^ k" by blast
    then have "length (tg_identity g) = 2 ^ k" "2 * length edges < 2 ^ k"
      using assms by (auto simp: graph_create_def mult.commute)
    then show ?thesis using empty_table_ok g by simp
  qed
  moreover have "\<not> pi_registered (sorted_identities observations ! q)" if "q < length observations" for q
  proof -
    have "sorted_identities observations ! q \<in> set (sorted_identities observations)" using that by (intro nth_mem) simp
    then show ?thesis by auto
  qed
  ultimately show ?thesis
    using g by (simp add: loop_state_def identities_ok_def edges_inside_def graph_keys_def key_edges_def edge_keys_def)
qed

lemma loop_state_build:
  assumes state: "loop_state observations hint edges ids g" and valid: "\<forall>ob \<in> set observations. meta_valid (project_metadata ob)"
  shows "\<exists>out. graph_build True g = Some (TRACK_BUILDER_OK, out)
    \<and> public_tracks g out = expected_tracks (input_metadata observations) (edge_keys edges)"
proof -
  let ?M = "input_metadata observations"
  have keys: "map (node_key g) [0..<length (tg_nodes g)] = graph_keys g"
    by (rule nth_equalityI) (simp_all add: graph_keys_nth)
  have distinct: "distinct (map (node_key g) [0..<length (tg_nodes g)])"
    unfolding keys using state by (simp add: loop_state_def)
  have inside: "edges_inside g" using state by (simp add: loop_state_def)
  have same: "Field (key_edges g) = Field (edge_keys edges)" "linked (key_edges g) = linked (edge_keys edges)"
    using field_converse_union state unfolding loop_state_def by blast+
  have "node_key g ` {..<length (tg_nodes g)} = set (graph_keys g)"
    unfolding keys [symmetric] by (auto simp: atLeast0LessThan)
  also have "\<dots> = Field (key_edges g)" using state same by (simp add: loop_state_def)
  finally have field: "node_key g ` {..<length (tg_nodes g)} = Field (key_edges g)" .
  have ok: "identities_ok (sorted_identities observations) ids g" using state by (simp add: loop_state_def)
  have meta: "node_metadata g i = ?M (node_key g i)" if i: "i < length (tg_nodes g)" for i
  proof -
    let ?nd = "tg_nodes g ! i"
    have "?nd \<in> set (tg_nodes g)" using i by simp
    then obtain q where q: "q < length ids" "pi_registered (ids ! q)"
      "q = position (map identity_key ids) (node_key g i)" "nd_metadata_index ?nd = pi_metadata_index (ids ! q)"
      "identity_key (ids ! q) = node_key g i"
      using ok by (auto simp: identities_ok_def node_key_def)
    have "registered_at ids g q" using ok q(1,2) by (simp add: identities_ok_def)
    then have at: "node_metadata g i = pi_metadata (ids ! q)"
      using q(4) by (simp add: node_metadata_def registered_at_def)
    have same: "map identity_key ids = map identity_key (sorted_identities observations)"
      using ok by (simp add: identities_ok_def)
    have "node_key g i \<in> set (map identity_key ids)" using q(1,5) by (metis image_eqI list.set_map nth_mem)
    then have "node_key g i \<in> observed_key ` set observations" unfolding same by (auto simp: image_iff)
    then obtain ob where "observed_key ob = node_key g i" "observed_key ob \<in> observed_key ` set observations" by auto
    then show ?thesis using find_known(2) [OF ok, of ob] q(3) at by simp
  qed
  from graph_build_tracks [OF distinct inside field meta] obtain out where
    "graph_build True g = Some (TRACK_BUILDER_OK, out)" "public_tracks g out = expected_tracks ?M (key_edges g)" by blast
  moreover have "expected_tracks ?M (key_edges g) = expected_tracks ?M (edge_keys edges)"
    by (simp add: expected_tracks_def track_keys_def components_def same)
  ultimately show ?thesis by auto
qed

definition full_memory :: builder_memory where
  "full_memory = \<lparr>bm_graph = True, bm_inputs = True, bm_edge = \<lambda>_. True, bm_build = True, bm_result = True\<rparr>"

lemma build_with_memory:
  assumes "length edges \<le> TRACK_INDEX_MAX div 2"
  shows "track_builder_build full_memory observations edges = Some (if well_formed_input observations edges
      then (TRACK_BUILDER_OK, expected_tracks (input_metadata observations) (edge_keys edges))
      else (TRACK_BUILDER_CORRUPT_INPUT, []))"
proof -
  let ?ids0 = "sorted_identities observations"
  have "\<exists>g. graph_create (length edges) = Some g"
  proof (cases "edges = []")
    case True
    then show ?thesis by (simp add: graph_create_def table_capacity_def)
  next
    case False
    then have "0 < 2 * length edges" "2 * length edges \<le> 2 ^ 33" using assms by (simp_all add: TRACK_INDEX_MAX_def)
    from table_capacity_power [OF this] obtain k where "table_capacity (2 * length edges) = Some (2 ^ k)" by blast
    then show ?thesis using assms by (simp add: graph_create_def mult.commute)
  qed
  then obtain g where g: "graph_create (length edges) = Some g" by blast
  show ?thesis
  proof (cases "\<forall>ob \<in> set observations. meta_valid (project_metadata ob)")
    case False
    then show ?thesis using g
      by (auto simp: track_builder_build_def full_memory_def well_formed_input_def list_all_iff)
  next
    case valid: True
    have "sorted (map identity_key ?ids0)" by simp
    from contradictory_sorted [OF this] have agree: "\<not> contradictory ?ids0 \<longleftrightarrow>
      (\<forall>ob \<in> set observations. \<forall>ob' \<in> set observations. observed_key ob = observed_key ob' \<longrightarrow>
         meta_equal (project_metadata ob) (project_metadata ob') True)" by simp
    obtain ids' g' where loop: "public_edges (\<lambda>_. True) 0 edges (?ids0, g) = Some (if \<forall>e \<in> set edges. well_formed_edge observations e
        then Inr (ids', g') else Inl TRACK_BUILDER_CORRUPT_INPUT)"
      "(\<forall>e \<in> set edges. well_formed_edge observations e) \<longrightarrow> loop_state observations (length edges) ([] @ edges) ids' g'"
      using public_edges_loop [OF valid assms loop_state_start [OF g assms], of edges 0] by auto
    show ?thesis
    proof (cases "contradictory ?ids0 \<or> \<not> (\<forall>e \<in> set edges. well_formed_edge observations e)")
      case True
      then have "\<not> well_formed_input observations edges" using agree by (auto simp: well_formed_input_def)
      then show ?thesis using g valid loop(1) True
        by (auto simp: track_builder_build_def full_memory_def list_all_iff Let_def)
    next
      case False
      then have wf: "well_formed_input observations edges" using agree valid by (simp add: well_formed_input_def)
      have "loop_state observations (length edges) edges ids' g'" using loop(2) False by simp
      from loop_state_build [OF this valid] obtain out where
        "graph_build True g' = Some (TRACK_BUILDER_OK, out)"
        "public_tracks g' out = expected_tracks (input_metadata observations) (edge_keys edges)" by blast
      then show ?thesis using g valid loop(1) False wf
        by (simp add: track_builder_build_def full_memory_def list_all_iff Let_def)
    qed
  qed
qed

end
