(* ===== verification/Track_Theorems.thy ===== *)
theory Track_Theorems
  imports Track_Loop
begin

text \<open>
  What the track builder promises: its result is the reference computed from the sets of keys
  alone, for every input it accepts and for every order of that input; losing memory can only
  turn the call into a failure.
\<close>

section \<open>A concrete input\<close>

text \<open>Two images that see one feature.\<close>

definition seen :: "u64 \<Rightarrow> u32 \<Rightarrow> u64 \<Rightarrow> track_input" where
  "seen set_id feature photo =
     \<lparr>ti_feature_set_id = set_id, ti_feature_index = feature, ti_image_id = photo,
      ti_extractor_kind = [0x6F, 0x72, 0x62] @ replicate 61 0, ti_extractor_version = 1,
      ti_parameter_fingerprint = replicate 32 0,
      ti_descriptor_type = 1, ti_descriptor_dimension = 32\<rparr>"

lemma seen_well_formed:
  "well_formed_input [seen 1 5 10, seen 2 7 20] [(Some (seen 2 7 20), Some (seen 1 5 10))]"
  by (simp add: well_formed_input_def well_formed_edge_def known_end_def seen_def observed_key_def
    meta_valid_def meta_equal_def project_metadata_def input_metadata_def)

section \<open>Functional correctness\<close>

lemma build_oversize:
  "TRACK_INDEX_MAX div 2 < length edges \<Longrightarrow>
    track_builder_build memory observations edges = Some (TRACK_BUILDER_OUT_OF_MEMORY, [])"
  by (simp add: track_builder_build_def graph_create_def)

text \<open>
  C35. With memory, \<^const>\<open>track_builder_build\<close> ends for every input and gives exactly the reference.
  More edges than node indices allow is \<open>OUT_OF_MEMORY\<close>. An observation with missing identity, two
  observations of one feature that contradict each other, an edge with an absent, unknown or
  mismatching end, and an edge from a feature to itself are \<open>CORRUPT_INPUT\<close> without a track.
  Otherwise the tracks are the connected components of the edges with at least two features, one
  descriptor format and pairwise different images, each sorted by feature set and index, in
  lexicographic order: neither the hash table, the union by rank with path halving, the grouping
  by roots nor the node numbers can be seen in the result.
\<close>

theorem track_builder_is_reference:
  "track_builder_build full_memory observations edges = Some (
     if TRACK_INDEX_MAX div 2 < length edges then (TRACK_BUILDER_OUT_OF_MEMORY, [])
     else if well_formed_input observations edges
     then (TRACK_BUILDER_OK, expected_tracks (input_metadata observations) (edge_keys edges))
     else (TRACK_BUILDER_CORRUPT_INPUT, []))"
  using build_oversize build_with_memory by (cases "TRACK_INDEX_MAX div 2 < length edges") auto

lemma build_reference:
  "track_builder_build full_memory observations edges = Some (
     if TRACK_INDEX_MAX div 2 < length edges then (TRACK_BUILDER_OUT_OF_MEMORY, [])
     else if well_formed_input observations edges
     then (TRACK_BUILDER_OK, expected_tracks (input_metadata observations) (edge_keys edges))
     else (TRACK_BUILDER_CORRUPT_INPUT, []))"
  using build_oversize build_with_memory by (cases "TRACK_INDEX_MAX div 2 < length edges") auto

section \<open>Order independence\<close>

definition same_edges :: "track_input_edge list \<Rightarrow> track_input_edge list \<Rightarrow> bool" where
  "same_edges edges edges' \<longleftrightarrow>
     set edges \<union> prod.swap ` set edges = set edges' \<union> prod.swap ` set edges'"

lemma edge_keys_swap:
  "edge_keys edges \<union> (edge_keys edges)\<inverse> = {(observed_key a, observed_key b) | a b.
     (Some a, Some b) \<in> set edges \<union> prod.swap ` set edges}"
proof -
  have "(x, y) \<in> prod.swap ` S \<longleftrightarrow> (y, x) \<in> S" for x y :: "track_input option" and S
    by (force simp: image_iff)
  then have "{(observed_key a, observed_key b) | a b. (Some a, Some b) \<in> set edges \<union> prod.swap ` set edges}
      = {(observed_key a, observed_key b) | a b. (Some a, Some b) \<in> set edges \<or> (Some b, Some a) \<in> set edges}"
    by simp
  also have "\<dots> = edge_keys edges \<union> (edge_keys edges)\<inverse>" unfolding edge_keys_def by blast
  finally show ?thesis by simp
qed

lemma expected_tracks_field:
  assumes "E \<union> E\<inverse> = F \<union> F\<inverse>"
  shows "expected_tracks M E = expected_tracks M F"
  using field_converse_union [OF assms] by (simp add: expected_tracks_def track_keys_def components_def)

lemma linked_field: "(k, l) \<in> linked E \<Longrightarrow> k \<in> Field E \<Longrightarrow> l \<in> Field E"
  unfolding linked_def by (induction rule: rtrancl_induct) (auto simp: Field_def)

lemma meta_equal_sym: "meta_equal a b i \<Longrightarrow> meta_equal b a i"
  by (auto simp: meta_equal_def)

lemma meta_equal_trans: "meta_equal a b i \<Longrightarrow> meta_equal b c i \<Longrightarrow> meta_equal a c i"
  by (auto simp: meta_equal_def)

lemma expected_tracks_metadata:
  assumes finite: "finite E" and same: "\<And>k. k \<in> Field E \<Longrightarrow> meta_equal (M k) (N k) True"
  shows "expected_tracks M E = expected_tracks N E"
proof -
  have part: "C \<subseteq> Field E" if "C \<in> components E" for C using linked_field that by (auto simp: components_def)
  have fin: "finite (Field E)" using finite by (rule finite_Field)
  have image: "fm_image_id (M k) = fm_image_id (N k)" if "k \<in> Field E" for k
    using same [OF that] by (simp add: meta_equal_def)
  have pair: "meta_equal (M k) (M l) False \<longleftrightarrow> meta_equal (N k) (N l) False" if "k \<in> Field E" "l \<in> Field E" for k l
    using same [OF that(1)] same [OF that(2)] by (auto simp: meta_equal_def)
  have "consistent M C \<longleftrightarrow> consistent N C" if "C \<in> components E" for C
  proof -
    have in_field: "k \<in> Field E" if "k \<in> C" for k using part \<open>C \<in> components E\<close> that by blast
    have "inj_on (\<lambda>k. fm_image_id (M k)) C \<longleftrightarrow> inj_on (\<lambda>k. fm_image_id (N k)) C"
      using in_field image by (intro inj_on_cong) auto
    then show ?thesis using in_field pair unfolding consistent_def by blast
  qed
  then have "{C \<in> components E. consistent M C} = {C \<in> components E. consistent N C}" by blast
  then have keys: "track_keys M E = track_keys N E" by (simp add: track_keys_def)
  have "finite (components E)" using part fin by (simp add: components_def)
  then have "\<exists>C \<in> components E. t = sorted_list_of_set C" if "t \<in> set (track_keys N E)" for t
    using that by (auto simp: track_keys_def)
  then have "\<exists>C. C \<subseteq> Field E \<and> t = sorted_list_of_set C" if "t \<in> set (track_keys N E)" for t
    using that part by blast
  then have "set t \<subseteq> Field E" if "t \<in> set (track_keys N E)" for t
    using that fin by (metis finite_subset set_sorted_list_of_set)
  then show ?thesis unfolding expected_tracks_def keys using image by (auto intro!: map_cong)
qed

lemma finite_edge_keys [simp]: "finite (edge_keys edges)"
proof -
  have "edge_keys edges \<subseteq> (\<lambda>(a, b). (observed_key (the a), observed_key (the b))) ` set edges"
    by (force simp: edge_keys_def)
  then show ?thesis by (rule finite_subset) simp
qed

text \<open>The first observation of a key stands for all of them.\<close>

definition agreeing :: "track_input list \<Rightarrow> bool" where
  "agreeing observations \<longleftrightarrow> (\<forall>ob \<in> set observations. \<forall>ob' \<in> set observations.
     observed_key ob = observed_key ob' \<longrightarrow> meta_equal (project_metadata ob) (project_metadata ob') True)"

lemma input_metadata_some:
  "k \<in> observed_key ` set observations \<Longrightarrow>
    \<exists>ob \<in> set observations. observed_key ob = k \<and> input_metadata observations k = project_metadata ob"
proof -
  assume "k \<in> observed_key ` set observations"
  then have "filter (\<lambda>ob. observed_key ob = k) observations \<noteq> []" by (auto simp: filter_empty_conv)
  then have "hd (filter (\<lambda>ob. observed_key ob = k) observations) \<in> set (filter (\<lambda>ob. observed_key ob = k) observations)"
    by (rule hd_in_set)
  then show ?thesis by (auto simp: input_metadata_def)
qed

lemma input_metadata_agree:
  assumes "agreeing observations" "set observations = set observations'" "k \<in> observed_key ` set observations"
  shows "meta_equal (input_metadata observations k) (input_metadata observations' k) True"
proof -
  have k': "k \<in> observed_key ` set observations'" using assms(2,3) by simp
  obtain ob ob' where "ob \<in> set observations" "observed_key ob = k" "input_metadata observations k = project_metadata ob"
    "ob' \<in> set observations'" "observed_key ob' = k" "input_metadata observations' k = project_metadata ob'"
    using input_metadata_some [OF assms(3)] input_metadata_some [OF k'] by blast
  then show ?thesis using assms(1,2) by (auto simp: agreeing_def)
qed

lemma known_end_order:
  assumes "agreeing observations" "set observations = set observations'"
  shows "known_end observations a \<Longrightarrow> known_end observations' a"
  using input_metadata_agree [OF assms] assms(2) meta_equal_sym meta_equal_trans
  unfolding known_end_def by metis

lemma well_formed_order:
  assumes obs: "set observations = set observations'" and edges: "same_edges edges edges'"
    and wf: "well_formed_input observations edges"
  shows "well_formed_input observations' edges'"
proof -
  have agree: "agreeing observations" using wf by (simp add: well_formed_input_def agreeing_def)
  have swap: "well_formed_edge observations (prod.swap e) \<longleftrightarrow> well_formed_edge observations e" for e
    by (auto simp: well_formed_edge_def split: prod.splits option.splits)
  have "well_formed_edge observations' e" if "e \<in> set edges'" for e
  proof -
    have "e \<in> set edges \<union> prod.swap ` set edges" using edges that unfolding same_edges_def by blast
    then have "well_formed_edge observations e" using wf swap by (auto simp: well_formed_input_def)
    then show ?thesis using known_end_order [OF agree obs]
      by (auto simp: well_formed_edge_def split: prod.splits option.splits)
  qed
  then show ?thesis using wf obs by (simp add: well_formed_input_def)
qed

lemma well_formed_field:
  assumes "well_formed_input observations edges" "k \<in> Field (edge_keys edges)"
  shows "k \<in> observed_key ` set observations"
  using assms by (fastforce simp: well_formed_input_def well_formed_edge_def edge_keys_def Field_def known_end_def)

lemma build_order:
  assumes obs: "set observations = set observations'" and edges: "same_edges edges edges'"
    and small: "length edges \<le> TRACK_INDEX_MAX div 2" "length edges' \<le> TRACK_INDEX_MAX div 2"
  shows "track_builder_build full_memory observations edges = track_builder_build full_memory observations' edges'"
proof (cases "well_formed_input observations edges")
  case wf: True
  have wf': "well_formed_input observations' edges'" by (rule well_formed_order [OF obs edges wf])
  have agree: "agreeing observations" using wf by (simp add: well_formed_input_def agreeing_def)
  have keys: "edge_keys edges \<union> (edge_keys edges)\<inverse> = edge_keys edges' \<union> (edge_keys edges')\<inverse>"
    using edges unfolding edge_keys_swap same_edges_def by simp
  have "expected_tracks (input_metadata observations) (edge_keys edges)
      = expected_tracks (input_metadata observations') (edge_keys edges)"
    using input_metadata_agree [OF agree obs] well_formed_field [OF wf]
    by (intro expected_tracks_metadata) simp_all
  also have "\<dots> = expected_tracks (input_metadata observations') (edge_keys edges')"
    by (rule expected_tracks_field [OF keys])
  finally show ?thesis using small wf wf' by (simp add: build_reference)
next
  case False
  have "same_edges edges' edges" using edges by (simp add: same_edges_def)
  then have "\<not> well_formed_input observations' edges'"
    using False well_formed_order [OF obs [symmetric]] by blast
  then show ?thesis using False small by (simp add: build_reference)
qed

text \<open>
  C36. The result is independent of the order of the input. Permuting or repeating observations,
  permuting or repeating edges and exchanging the two ends of an edge change neither the status nor
  any track, its position or the order of its observations.
\<close>

theorem tracks_ignore_input_order:
  assumes "set observations = set observations'" "same_edges edges edges'"
    and "length edges \<le> TRACK_INDEX_MAX div 2" "length edges' \<le> TRACK_INDEX_MAX div 2"
  shows "track_builder_build full_memory observations edges = track_builder_build full_memory observations' edges'"
  by (rule build_order [OF assms])

theorem tracks_ignore_input_order_witness:
  "track_builder_build full_memory [seen 1 5 10, seen 2 7 20] [(Some (seen 2 7 20), Some (seen 1 5 10))]
   = track_builder_build full_memory [seen 2 7 20, seen 1 5 10, seen 2 7 20]
      [(Some (seen 1 5 10), Some (seen 2 7 20)), (Some (seen 2 7 20), Some (seen 1 5 10))]"
  by (rule tracks_ignore_input_order) (auto simp: same_edges_def TRACK_INDEX_MAX_def)

section \<open>Shape of the tracks\<close>

lemma linked_class:
  "(k, l) \<in> linked E \<Longrightarrow> linked E `` {k} = linked E `` {l}"
  using linked_trans linked_sym by (metis (no_types, lifting) Image_singleton_iff set_eqI)

lemma components_disjoint:
  "C \<in> components E \<Longrightarrow> D \<in> components E \<Longrightarrow> x \<in> C \<Longrightarrow> x \<in> D \<Longrightarrow> C = D"
proof -
  assume C: "C \<in> components E" and D: "D \<in> components E" and x: "x \<in> C" "x \<in> D"
  obtain k l where k: "C = linked E `` {k}" and l: "D = linked E `` {l}" using C D by (auto simp: components_def)
  have "(k, x) \<in> linked E" "(l, x) \<in> linked E" using x k l by auto
  then have "linked E `` {k} = linked E `` {x}" "linked E `` {l} = linked E `` {x}" by (intro linked_class; simp)+
  then show "C = D" using k l by simp
qed

definition observation_key :: "track_observation \<Rightarrow> feature_key" where
  "observation_key t = (tob_feature_set_id t, tob_feature_index t)"

lemma track_keys_members:
  assumes "finite E"
  shows "t \<in> set (track_keys M E) \<longleftrightarrow> (\<exists>C \<in> components E. consistent M C \<and> t = sorted_list_of_set C)"
    and "sorted_wrt (<) (track_keys M E)"
proof -
  have "finite (components E)" using assms by (simp add: components_def finite_Field)
  then have fin: "finite (sorted_list_of_set ` {C \<in> components E. consistent M C})" by simp
  show "t \<in> set (track_keys M E) \<longleftrightarrow> (\<exists>C \<in> components E. consistent M C \<and> t = sorted_list_of_set C)"
    using fin by (auto simp: track_keys_def)
  show "sorted_wrt (<) (track_keys M E)" unfolding track_keys_def by (rule strict_sorted_list_of_set)
qed

lemma component_finite:
  assumes "finite E" "C \<in> components E"
  shows "finite C"
proof -
  have "C \<subseteq> Field E" using assms(2) linked_field by (auto simp: components_def)
  then show ?thesis using assms(1) finite_Field by (metis finite_subset)
qed

section \<open>Memory\<close>

lemma public_edge_memory:
  "public_edge memory edge st = public_edge True edge st \<or> public_edge memory edge st = Some (Inl TRACK_BUILDER_OUT_OF_MEMORY)"
  by (cases memory) (auto simp: public_edge_def split: prod.splits option.splits)

lemma public_edges_memory:
  "public_edges memory i edges st = public_edges (\<lambda>_. True) i edges st
    \<or> public_edges memory i edges st = Some (Inl TRACK_BUILDER_OUT_OF_MEMORY)"
proof (induction edges arbitrary: i st)
  case (Cons edge edges)
  show ?case
  proof (cases "public_edge (memory i) edge st = public_edge True edge st")
    case True
    then show ?thesis using Cons by (auto split: option.splits sum.splits)
  next
    case False
    then show ?thesis using public_edge_memory [of "memory i" edge st] by auto
  qed
qed simp

lemma build_memory:
  "track_builder_build memory observations edges = Some (TRACK_BUILDER_OUT_OF_MEMORY, [])
    \<or> track_builder_build memory observations edges = track_builder_build full_memory observations edges"
proof (cases "graph_create (length edges)")
  case None
  then show ?thesis by (simp add: track_builder_build_def)
next
  case (Some g)
  let ?ids = "sorted_identities observations"
  have build: "graph_build memory' g' = graph_build True g' \<or> (\<exists>out. graph_build memory' g' = Some (TRACK_BUILDER_OUT_OF_MEMORY, out))"
    for memory' g' by (cases memory') (auto simp: graph_build_def)
  show ?thesis
  proof (cases "bm_graph memory \<and> bm_inputs memory \<and> list_all (\<lambda>ob. meta_valid (project_metadata ob)) observations
      \<and> \<not> contradictory ?ids")
    case False
    then show ?thesis using Some by (auto simp: track_builder_build_def full_memory_def)
  next
    case True
    note reach = True
    show ?thesis
    proof (cases "public_edges (bm_edge memory) 0 edges (?ids, g) = public_edges (\<lambda>_. True) 0 edges (?ids, g)")
      case False
      then show ?thesis using Some reach public_edges_memory [of "bm_edge memory" 0 edges "(?ids, g)"]
        by (simp add: track_builder_build_def)
    next
      case True
      show ?thesis
      proof (cases "public_edges (\<lambda>_. True) 0 edges (?ids, g)")
        case None
        then show ?thesis using Some reach True by (simp add: track_builder_build_def full_memory_def)
      next
        case ran: (Some r)
        show ?thesis
        proof (cases r)
          case (Inl e)
          then show ?thesis using Some reach True ran by (simp add: track_builder_build_def full_memory_def)
        next
          case (Inr st)
          obtain ids' g' where st: "st = (ids', g')" by (cases st)
          show ?thesis using Some reach True ran Inr st build [of "bm_build memory" g']
            by (cases "graph_build True g'") (auto simp: track_builder_build_def full_memory_def)
        qed
      qed
    qed
  qed
qed

text \<open>
  C37. Whatever memory runs out during \<^const>\<open>track_builder_build\<close> (the graph, the copied input, any one
  edge, the components or the copied result), the call returns, and it returns what it would return
  with memory or else \<open>OUT_OF_MEMORY\<close> without a track: a partial or different result is never handed over.
\<close>

theorem memory_loss_never_changes_tracks:
  "\<exists>status tracks. track_builder_build memory observations edges = Some (status, tracks)
    \<and> ((status, tracks) = (TRACK_BUILDER_OUT_OF_MEMORY, [])
      \<or> track_builder_build full_memory observations edges = Some (status, tracks))"
  using build_memory [of memory observations edges] build_reference [of observations edges]
  by (auto split: if_splits)

section \<open>Soundness of the tracks\<close>

lemma expected_tracks_keys: "map (map observation_key) (expected_tracks M E) = track_keys M E"
  by (simp add: expected_tracks_def observation_key_def comp_def)

lemma track_keys_distinct:
  assumes "finite E"
  shows "distinct (concat (track_keys M E))"
proof (rule distinct_concat)
  show "distinct (track_keys M E)" by (simp add: track_keys_def)
  show "distinct t" if "t \<in> set (track_keys M E)" for t
    using that track_keys_members(1) [OF assms] by auto
  show "set t \<inter> set u = {}" if tu: "t \<in> set (track_keys M E)" "u \<in> set (track_keys M E)" "t \<noteq> u" for t u
  proof (rule ccontr)
    assume meet: "set t \<inter> set u \<noteq> {}"
    obtain C D where C: "C \<in> components E" "t = sorted_list_of_set C" and D: "D \<in> components E" "u = sorted_list_of_set D"
      using tu(1,2) track_keys_members(1) [OF assms] by blast
    then have "C \<inter> D \<noteq> {}" using meet component_finite [OF assms] by simp
    then have "C = D" using components_disjoint C(1) D(1) by blast
    then show False using tu(3) C(2) D(2) by simp
  qed
qed

lemma expected_track_sound:
  assumes "finite E" "t \<in> set (expected_tracks M E)"
  shows "2 \<le> length t" "sorted_wrt (<) (map observation_key t)" "distinct (map tob_image_id t)"
    "\<forall>x \<in> set t. observation_key x \<in> Field E \<and> tob_image_id x = fm_image_id (M (observation_key x))"
proof -
  let ?ob = "\<lambda>k. \<lparr>tob_feature_set_id = fst k, tob_feature_index = snd k, tob_image_id = fm_image_id (M k)\<rparr>"
  obtain C where C: "C \<in> components E" "consistent M C" "t = map ?ob (sorted_list_of_set C)"
    using assms(2) track_keys_members(1) [OF assms(1)] by (auto simp: expected_tracks_def)
  have fin: "finite C" by (rule component_finite [OF assms(1) C(1)])
  have keys: "map observation_key t = sorted_list_of_set C" using C(3) by (simp add: observation_key_def comp_def)
  show "sorted_wrt (<) (map observation_key t)" unfolding keys by (rule strict_sorted_list_of_set)
  show "2 \<le> length t" using C(2,3) fin by (simp add: consistent_def)
  have "map tob_image_id t = map (\<lambda>k. fm_image_id (M k)) (sorted_list_of_set C)" using C(3) by (simp add: comp_def)
  then show "distinct (map tob_image_id t)" using C(2) fin by (simp add: distinct_map consistent_def)
  have "C \<subseteq> Field E" using C(1) linked_field by (auto simp: components_def)
  then show "\<forall>x \<in> set t. observation_key x \<in> Field E \<and> tob_image_id x = fm_image_id (M (observation_key x))"
    using C(3) fin by (auto simp: observation_key_def)
qed

text \<open>
  C38. Every track \<^const>\<open>track_builder_build\<close> publishes has at least two observations, strictly sorted by
  feature set and index, in pairwise different images; each is an observation of the input with its
  own image; no feature is in two tracks or twice in one; and the tracks come in strict
  lexicographic order.
\<close>

theorem published_tracks_are_sound:
  assumes "track_builder_build memory observations edges = Some (TRACK_BUILDER_OK, tracks)"
  shows "(\<forall>t \<in> set tracks. 2 \<le> length t \<and> sorted_wrt (<) (map observation_key t) \<and> distinct (map tob_image_id t)
        \<and> (\<forall>x \<in> set t. \<exists>ob \<in> set observations. observation_key x = observed_key ob \<and> tob_image_id x = ti_image_id ob))
    \<and> distinct (map observation_key (concat tracks))
    \<and> sorted_wrt (<) (map (map observation_key) tracks)"
proof -
  let ?M = "input_metadata observations" and ?E = "edge_keys edges"
  have full: "track_builder_build full_memory observations edges = Some (TRACK_BUILDER_OK, tracks)"
    using assms build_memory [of memory observations edges] by auto
  then have wf: "well_formed_input observations edges" and tracks: "tracks = expected_tracks ?M ?E"
    by (auto simp: build_reference split: if_splits)
  have input: "\<exists>ob \<in> set observations. k = observed_key ob \<and> fm_image_id (?M k) = ti_image_id ob" if "k \<in> Field ?E" for k
    using input_metadata_some [OF well_formed_field [OF wf that]] by (auto simp: project_metadata_def)
  have "distinct (concat (map (map observation_key) tracks))"
    unfolding tracks expected_tracks_keys by (rule track_keys_distinct) simp
  moreover have "sorted_wrt (<) (map (map observation_key) tracks)"
    unfolding tracks expected_tracks_keys by (rule track_keys_members(2)) simp
  moreover have "2 \<le> length t \<and> sorted_wrt (<) (map observation_key t) \<and> distinct (map tob_image_id t)
      \<and> (\<forall>x \<in> set t. \<exists>ob \<in> set observations. observation_key x = observed_key ob \<and> tob_image_id x = ti_image_id ob)"
    if "t \<in> set tracks" for t
    using expected_track_sound [of ?E t ?M] that input unfolding tracks by auto
  ultimately show ?thesis by (simp add: map_concat)
qed

lemma components_single: "components {(k, l)} = {{k, l}}"
proof -
  have linked: "(x, y) \<in> linked {(k, l)} \<longleftrightarrow> x = y \<or> x = k \<and> y = l \<or> x = l \<and> y = k" for x y
    using linked_insert [of x y k l "{}"] by (auto simp: linked_def)
  have "linked {(k, l)} `` {k} = {k, l}" "linked {(k, l)} `` {l} = {k, l}" unfolding set_eq_iff Image_singleton_iff linked by blast+
  then show ?thesis by (simp add: components_def Field_def)
qed

lemma seen_tracks:
  "track_builder_build full_memory [seen 1 5 10, seen 2 7 20] [(Some (seen 2 7 20), Some (seen 1 5 10))]
    = Some (TRACK_BUILDER_OK,
        [[\<lparr>tob_feature_set_id = 1, tob_feature_index = 5, tob_image_id = 10\<rparr>,
          \<lparr>tob_feature_set_id = 2, tob_feature_index = 7, tob_image_id = 20\<rparr>]])"
proof -
  let ?obs = "[seen 1 5 10, seen 2 7 20]" and ?edges = "[(Some (seen 2 7 20), Some (seen 1 5 10))]"
  let ?C = "{(2, 7), (1, 5)} :: feature_key set"
  define M where "M = input_metadata ?obs"
  have M: "M (1, 5) = project_metadata (seen 1 5 10)" "M (2, 7) = project_metadata (seen 2 7 20)"
    by (simp_all add: M_def input_metadata_def seen_def observed_key_def)
  have keys: "edge_keys ?edges = {((2, 7), (1, 5))}"
    by (auto simp: edge_keys_def seen_def observed_key_def)
  have "consistent M ?C"
    by (auto simp: consistent_def M inj_on_def project_metadata_def seen_def meta_equal_def)
  then have "{C \<in> components {((2, 7), (1, 5))}. consistent M C} = {?C}"
    by (auto simp: components_single)
  then have "track_keys M {((2, 7), (1, 5))} = [sorted_list_of_set ?C]" by (simp add: track_keys_def)
  also have "sorted_list_of_set ?C = [(1, 5), (2, 7)]" using sort_distinct [of "[(2, 7), (1, 5)] :: feature_key list"] by simp
  finally have "expected_tracks M (edge_keys ?edges) =
      [[\<lparr>tob_feature_set_id = 1, tob_feature_index = 5, tob_image_id = 10\<rparr>,
        \<lparr>tob_feature_set_id = 2, tob_feature_index = 7, tob_image_id = 20\<rparr>]]"
    unfolding keys by (simp add: expected_tracks_def M project_metadata_def seen_def)
  then show ?thesis
    using seen_well_formed by (simp add: build_reference M_def TRACK_INDEX_MAX_def)
qed

theorem published_tracks_are_sound_witness:
  "distinct (map observation_key (concat [[\<lparr>tob_feature_set_id = 1, tob_feature_index = 5, tob_image_id = 10\<rparr>,
      \<lparr>tob_feature_set_id = 2, tob_feature_index = 7, tob_image_id = 20\<rparr>]]))
   \<and> [seen 1 5 10, seen 2 7 20] \<noteq> []"
  using published_tracks_are_sound [OF seen_tracks] by simp

section \<open>The parts\<close>

text \<open>
  C39. \<^const>\<open>resolve_node\<close> refines a list of distinct keys with lookup-or-append. On a table that keeps its
  invariant and has room, the open-addressed search ends, a key that is present gives its only
  position (and an error exactly when it was interned with other metadata), an absent key is appended
  at the end, and the invariant is kept.
\<close>

theorem identity_table_refines_key_list:
  assumes "table_ok g" "length (tg_nodes g) < length (tg_identity g)" "length (tg_nodes g) < TRACK_INDEX_MAX"
    and "m < length (tg_metadata g)" "k = (fm_feature_set_id (tg_metadata g ! m), feature)"
  shows "if k \<in> set (graph_keys g)
    then (\<exists>i < length (graph_keys g). graph_keys g ! i = k \<and> resolve_node m feature g =
      Some (if nd_metadata_index (tg_nodes g ! i) \<noteq> m then Inl THROWN_INVALID_ARGUMENT else Inr (i, g)))
    else (\<exists>g'. resolve_node m feature g = Some (Inr (length (graph_keys g), g'))
      \<and> graph_keys g' = graph_keys g @ [k] \<and> table_ok g' \<and> length (tg_identity g') = length (tg_identity g))"
proof (cases "k \<in> set (graph_keys g)")
  case True
  then obtain i where "i < length (tg_nodes g)" "graph_keys g ! i = k" by (auto simp: in_set_conv_nth)
  then show ?thesis using True resolve_present [OF assms(1,2,4)] assms(5) by auto
next
  case False
  then have absent: "(fm_feature_set_id (tg_metadata g ! m), feature) \<notin> set (graph_keys g)" using assms(5) by simp
  have full: "length (tg_nodes g) \<noteq> TRACK_INDEX_MAX" using assms(3) by simp
  show ?thesis
    by (rule resolve_absent [OF assms(1,2,4) absent full]) (use False assms(5) in \<open>auto simp: graph_keys_def\<close>)
qed

definition one_feature :: track_graph where
  "one_feature = \<lparr>tg_metadata = [project_metadata (seen 1 5 10)], tg_nodes = [], tg_edges = [],
     tg_identity = replicate 8 empty_slot, tg_identity_size = 0, tg_raw_edge_count = 0\<rparr>"

theorem identity_table_refines_key_list_witness:
  "\<exists>g'. resolve_node 0 5 one_feature = Some (Inr (0, g')) \<and> graph_keys g' = [(1, 5)] \<and> table_ok g'"
proof -
  have ok: "table_ok one_feature"
    by (rule empty_table_ok [where k = 3]) (simp_all add: one_feature_def empty_slot_def)
  have keys: "graph_keys one_feature = []" by (simp add: graph_keys_def one_feature_def)
  have sizes: "length (tg_nodes one_feature) < length (tg_identity one_feature)"
    "length (tg_nodes one_feature) < TRACK_INDEX_MAX" "0 < length (tg_metadata one_feature)"
    "(1, 5) = (fm_feature_set_id (tg_metadata one_feature ! 0), 5 :: u32)"
    by (simp_all add: one_feature_def TRACK_INDEX_MAX_def project_metadata_def seen_def)
  from identity_table_refines_key_list [OF ok sizes] keys show ?thesis by auto
qed

text \<open>
  C40. \<^const>\<open>dsu_unite_all\<close> ends on every list of edges between existing nodes, two nodes then have one
  root exactly when the edges connect them, and with at most \<open>UINT32_MAX\<close> nodes no rank reaches 32,
  so the one-byte ranks of the code cannot wrap.
\<close>

theorem united_roots_connect_and_ranks_fit:
  assumes "\<forall>(a, b) \<in> set edges. a < n \<and> b < n" "n \<le> TRACK_INDEX_MAX"
  shows "\<exists>parent rank roots. dsu_unite_all edges (dsu_create n) = Some (parent, rank)
    \<and> dsu_roots parent [0..<n] = Some roots
    \<and> (\<forall>v < n. \<forall>w < n. roots ! v = roots ! w \<longleftrightarrow> (v, w) \<in> linked (set edges))
    \<and> (\<forall>v < n. rank ! v < 32)"
proof -
  obtain parent rank where d: "dsu_unite_all edges (dsu_create n) = Some (parent, rank)"
    "forest parent rank" "ranked parent rank" "length parent = n"
    "\<And>v w. v < n \<Longrightarrow> w < n \<Longrightarrow> same_root parent v w \<longleftrightarrow> (v, w) \<in> linked (set edges)"
    by (rule dsu_connects [OF assms(1)]) blast
  have "\<forall>v \<in> set [0..<n]. v < length parent" using d(4) by simp
  from dsu_roots_found [OF d(2) this] obtain roots where roots: "dsu_roots parent [0..<n] = Some roots"
    "\<forall>i < n. is_root parent i (roots ! i)" by auto
  have "roots ! v = roots ! w \<longleftrightarrow> (v, w) \<in> linked (set edges)" if "v < n" "w < n" for v w
    using d(5) [OF that] roots(2) that is_root_unique unfolding same_root_def by metis
  moreover have "rank ! v < 32" if "v < n" for v
    using rank_small [OF d(2,3)] d(4) assms(2) that by simp
  ultimately show ?thesis using d(1) roots(1) by blast
qed

theorem united_roots_connect_and_ranks_fit_witness:
  "\<exists>parent rank roots. dsu_unite_all [(0, 2), (1, 2)] (dsu_create 4) = Some (parent, rank)
    \<and> dsu_roots parent [0..<4] = Some roots
    \<and> (\<forall>v < 4. \<forall>w < 4. roots ! v = roots ! w \<longleftrightarrow> (v, w) \<in> linked (set [(0, 2), (1, 2)]))
    \<and> (\<forall>v < 4. rank ! v < 32)"
  by (rule united_roots_connect_and_ranks_fit) (simp_all add: TRACK_INDEX_MAX_def)

end
