(* ===== verification/Spec2Isabelle.thy ===== *)
theory Spec2Isabelle
  imports Cpu_Policy Governor_Pressure Sequence_Theorems Checkpoint_Store Task_Durability Queue_Theorems Storage_Theorems
    Provider_Theorems Kind_Theorems Resume_Theorems Track_Theorems
begin

text \<open>
  Lardon3D: a verification development of the Task and resource runtime.
\<close>

end
